(* ===== verification/Prelude.thy ===== *)
theory Prelude
  imports Main "HOL-Library.Word"
begin

text \<open>
  Shared vocabulary of the development: the machine integers of the Rust sources as words,
  the saturating and checked operations the code calls on them, the list searches
  (\<open>find\<close>, \<open>position\<close>, \<open>retain\<close>, replace-or-push) that several components share, and the
  collections of facts the component theories add to.
  \<^item> \<open>u8\<close>, \<open>u16\<close>, \<open>u32\<close>, \<open>u64\<close> are words of that width, \<open>i32\<close> is a 32-bit word read with
    \<open>sint\<close>; \<open>usize\<close> values (lengths, indices) are \<open>nat\<close>.
  \<^item> A fallible function returns \<open>'e + 'a\<close>, with \<open>Inl\<close> for Rust's \<open>Err\<close> and \<open>Inr\<close> for \<open>Ok\<close>.
  \<^item> An \<open>Instant\<close> and a \<open>Duration\<close> are \<open>nat\<close> numbers of nanoseconds.
\<close>

named_theorems wire_simps \<open>tables of the wire enums\<close>
named_theorems outcome_simps \<open>the records the executors answer with\<close>
named_theorems packet_simps \<open>layouts of the 64-byte reports\<close>
named_theorems gate_simps \<open>unfolding of the write gates\<close>

type_synonym u8 = "8 word"
type_synonym u16 = "16 word"
type_synonym u32 = "32 word"
type_synonym u64 = "64 word"
type_synonym i32 = "32 word"
type_synonym instant = nat
type_synonym duration = nat

section \<open>Saturating arithmetic\<close>

definition saturating_sub :: "'a::len word \<Rightarrow> 'a word \<Rightarrow> 'a word" where
  "saturating_sub a b = (if b \<le> a then a - b else 0)"

definition saturating_add :: "'a::len word \<Rightarrow> 'a word \<Rightarrow> 'a word" where
  "saturating_add a b = (if unat a + unat b < 2 ^ LENGTH('a) then a + b else - 1)"

lemma unat_bound: "unat (a :: 'a::len word) < 2 ^ LENGTH('a)"
  by simp

lemma word_nat_cast_inverse: "word_of_nat (unat (w :: 'a::len word)) = w"
  by simp

lemma unat_saturating_sub: "unat (saturating_sub a b) = unat a - unat b"
  by (simp add: saturating_sub_def word_le_nat_alt unat_sub)

lemma unat_saturating_add:
  fixes a b :: "'a::len word"
  shows "unat (saturating_add a b) = min (unat a + unat b) (2 ^ LENGTH('a) - 1)"
proof (cases "unat a + unat b < 2 ^ LENGTH('a)")
  case True
  then show ?thesis
    by (auto simp: saturating_add_def unat_plus_if' min_def)
next
  case False
  then have "2 ^ LENGTH('a) - 1 \<le> unat a + unat b" by linarith
  with False show ?thesis
    by (simp add: saturating_add_def unsigned_minus_1_eq_mask mask_eq_exp_minus_1)
qed

lemma saturating_sub_self [simp]: "saturating_sub a a = 0"
  by (simp add: saturating_sub_def)

lemma saturating_sub_le [simp]: "saturating_sub a b \<le> a"
  by (simp add: word_le_nat_alt unat_saturating_sub)

lemma saturating_sub_eq_0: "saturating_sub a b = 0 \<longleftrightarrow> a \<le> b"
  by (simp add: word_le_nat_alt word_unat_eq_iff unat_saturating_sub)

lemma saturating_add_ge: "a \<le> saturating_add a b"
  unfolding word_le_nat_alt unat_saturating_add
  using unat_bound [of a] by linarith

text \<open>\<open>u8::try_from(n)\<close> on a length: a count that does not fit is refused, not truncated.\<close>

definition u8_try_from :: "nat \<Rightarrow> u8 option" where
  "u8_try_from n = (if n < 256 then Some (word_of_nat n) else None)"

lemma u8_try_from_Some: "u8_try_from n = Some b \<longleftrightarrow> n < 256 \<and> unat b = n"
proof
  assume "u8_try_from n = Some b"
  then show "n < 256 \<and> unat b = n"
    by (auto simp: u8_try_from_def unat_of_nat split: if_splits)
next
  assume h: "n < 256 \<and> unat b = n"
  then have "word_of_nat n = b" by auto
  with h show "u8_try_from n = Some b" by (simp add: u8_try_from_def)
qed

section \<open>List searches\<close>

text \<open>\<open>iter().position(p)\<close>\<close>

fun position :: "('a \<Rightarrow> bool) \<Rightarrow> 'a list \<Rightarrow> nat option" where
  "position p [] = None"
| "position p (x # xs) = (if p x then Some 0 else map_option Suc (position p xs))"

lemma position_Some: "position p xs = Some i \<Longrightarrow> i < length xs \<and> p (xs ! i)"
  by (induction xs arbitrary: i) (auto split: if_splits)

lemma position_None: "position p xs = None \<longleftrightarrow> (\<forall>x \<in> set xs. \<not> p x)"
  by (induction xs) auto

text \<open>Replace the first element \<open>p\<close> holds of, or push at the end: the
  \<open>match iter_mut().find(..)\<close> idiom of the configuration.\<close>

fun replace_or_push :: "('a \<Rightarrow> bool) \<Rightarrow> 'a \<Rightarrow> 'a list \<Rightarrow> 'a list" where
  "replace_or_push p y [] = [y]"
| "replace_or_push p y (x # xs) = (if p x then y # xs else x # replace_or_push p y xs)"

lemma find_replace_or_push: "p y \<Longrightarrow> find p (replace_or_push p y xs) = Some y"
  by (induction xs) auto

lemma find_replace_or_push_other:
  "\<lbrakk>\<not> q y; \<And>x. p x \<Longrightarrow> \<not> q x\<rbrakk> \<Longrightarrow> find q (replace_or_push p y xs) = find q xs"
  by (induction xs) auto

lemma map_replace_or_push:
  assumes "f y = k"
  shows "map f (replace_or_push (\<lambda>x. f x = k) y xs) =
    (if k \<in> f ` set xs then map f xs else map f xs @ [k])"
  using assms by (induction xs) auto

lemma distinct_replace_or_push:
  "\<lbrakk>f y = k; distinct (map f xs)\<rbrakk> \<Longrightarrow> distinct (map f (replace_or_push (\<lambda>x. f x = k) y xs))"
  by (simp add: map_replace_or_push)

lemma set_replace_or_push: "set (replace_or_push p y xs) \<subseteq> insert y (set xs)"
  by (induction xs) auto

lemma find_Some_in: "find p xs = Some x \<Longrightarrow> x \<in> set xs \<and> p x"
  by (auto simp: find_Some_iff)

lemma find_distinct_key:
  "\<lbrakk>distinct (map f xs); x \<in> set xs\<rbrakk> \<Longrightarrow> find (\<lambda>y. f y = f x) xs = Some x"
  by (induction xs) (auto simp: image_iff)

lemma find_None_iff_key: "find (\<lambda>y. f y = k) xs = None \<longleftrightarrow> k \<notin> f ` set xs"
  by (auto simp: find_None_iff)

section \<open>Sums as results\<close>

definition is_ok :: "'e + 'a \<Rightarrow> bool" where
  "is_ok r = (case r of Inl _ \<Rightarrow> False | Inr _ \<Rightarrow> True)"

definition result_ok :: "'e + 'a \<Rightarrow> 'a option" where
  "result_ok r = (case r of Inl _ \<Rightarrow> None | Inr x \<Rightarrow> Some x)"

definition map_err :: "('e \<Rightarrow> 'f) \<Rightarrow> 'e + 'a \<Rightarrow> 'f + 'a" where
  "map_err f r = (case r of Inl e \<Rightarrow> Inl (f e) | Inr x \<Rightarrow> Inr x)"

lemma is_ok_simps [simp]: "\<not> is_ok (Inl e)" "is_ok (Inr x)"
  by (simp_all add: is_ok_def)

lemma result_ok_simps [simp]: "result_ok (Inl e) = None" "result_ok (Inr x) = Some x"
  by (simp_all add: result_ok_def)

lemma map_err_simps [simp]: "map_err f (Inl e) = Inl (f e)" "map_err f (Inr x) = Inr x"
  by (simp_all add: map_err_def)

lemma map_err_Inr_iff [simp]: "map_err f r = Inr x \<longleftrightarrow> r = Inr x"
  by (cases r) simp_all

section \<open>Folding events into a state\<close>

text \<open>A component that folds events into its state, with an invariant that every step keeps:
  the shape shared by the chart series, the diagnostics ring and the edited curve.\<close>

locale fold_invariant =
  fixes init :: 's
    and step :: "'s \<Rightarrow> 'e \<Rightarrow> 's"
    and inv :: "'s \<Rightarrow> bool"
  assumes inv_init: "inv init"
    and inv_step: "inv s \<Longrightarrow> inv (step s e)"
begin

lemma inv_foldl_from: "inv s \<Longrightarrow> inv (foldl step s es)"
  by (induction es arbitrary: s) (simp_all add: inv_step)

lemma inv_run: "inv (foldl step init es)"
  by (rule inv_foldl_from [OF inv_init])

end

section \<open>Early returns\<close>

text \<open>The question mark on a \<open>Result\<close>.\<close>

definition and_then :: "'e + 'a \<Rightarrow> ('a \<Rightarrow> 'e + 'b) \<Rightarrow> 'e + 'b" where
  "and_then r f = (case r of Inl e \<Rightarrow> Inl e | Inr x \<Rightarrow> f x)"

lemma and_then_simps [simp]: "and_then (Inl e) f = Inl e" "and_then (Inr x) f = f x"
  by (simp_all add: and_then_def)

lemma and_then_Inr_iff: "and_then r f = Inr y \<longleftrightarrow> (\<exists>x. r = Inr x \<and> f x = Inr y)"
  by (cases r) auto

lemma and_then_Inl_iff: "and_then r f = Inl e \<longleftrightarrow> r = Inl e \<or> (\<exists>x. r = Inr x \<and> f x = Inl e)"
  by (cases r) auto

section \<open>Concrete words\<close>

lemma word_le_unat: "(a :: 'a::len word) \<le> b \<longleftrightarrow> unat a \<le> unat b"
  by (rule word_le_nat_alt)

lemma word_less_unat: "(a :: 'a::len word) < b \<longleftrightarrow> unat a < unat b"
  by (rule word_less_nat_alt)

lemma unat_u8_less [simp]: "unat (x :: u8) < 256"
  using unat_bound [of x] by simp

lemma unat_u8_le [simp]: "unat (x :: u8) \<le> 255"
  using unat_u8_less [of x] by linarith

lemma unat_ucast_u16 [simp]: "unat (ucast (x :: u8) :: u16) = unat x"
  using unat_u8_less [of x]
  by (simp add: unsigned_ucast_eq take_bit_nat_eq_self_iff less_trans [of _ 256])

end
