(* ===== verification/Rust_Str.thy ===== *)
theory Rust_Str
  imports Prelude "HOL-Library.Char_ord" "HOL-Library.List_Lexorder"
begin

text \<open>
  The part of Rust's string library the sources call. A \<open>String\<close> or \<open>&str\<close> is the list of its
  UTF-8 bytes, as a \<open>string\<close>.
  \<^item> \<open>chars\<close>: the characters of a string, each one the list of its bytes;
  \<^item> \<open>trim\<close>: strip the characters with the Unicode property White\_Space at both ends;
  \<^item> \<open>show_nat\<close>, \<open>show_int\<close>, \<open>hex_upper\<close>, \<open>hex_lower\<close>: the \<open>{}\<close>, \<open>{:02X}\<close>, \<open>{:04x}\<close> formats;
  \<^item> \<open>parse_unsigned\<close>, \<open>parse_signed\<close>: \<open>from_str\<close> and \<open>from_str_radix\<close> of the integer types, the
    optional leading sign and the checked arithmetic of the digit loop included.
  The lemmas give the round trip of the decimal and of the hexadecimal formats.
\<close>

section \<open>Characters of a UTF-8 string\<close>

definition byte :: "char \<Rightarrow> nat" where
  "byte c = of_char c"

definition is_continuation :: "char \<Rightarrow> bool" where
  "is_continuation c = (128 \<le> byte c \<and> byte c < 192)"

function chars :: "string \<Rightarrow> string list" where
  "chars [] = []"
| "chars (c # cs) = (c # takeWhile is_continuation cs) # chars (dropWhile is_continuation cs)"
  by pat_completeness auto
termination
  by (relation "measure length") (auto simp: le_imp_less_Suc length_dropWhile_le)

lemma concat_chars [simp]: "concat (chars s) = s"
  by (induction s rule: chars.induct) simp_all

definition char_count :: "string \<Rightarrow> nat" where
  "char_count s = length (chars s)"

lemma chars_ascii: "\<forall>c \<in> set s. byte c < 128 \<Longrightarrow> chars s = map (\<lambda>c. [c]) s"
proof (induction s)
  case Nil
  then show ?case by simp
next
  case (Cons c cs)
  have t: "takeWhile is_continuation cs = []" "dropWhile is_continuation cs = cs"
    using Cons.prems by (cases cs; auto simp: is_continuation_def)+
  show ?case using Cons by (simp add: t)
qed

lemma char_count_ascii: "\<forall>c \<in> set s. byte c < 128 \<Longrightarrow> char_count s = length s"
  by (simp add: char_count_def chars_ascii)

lemma char_count_le_length: "char_count s \<le> length s"
  unfolding char_count_def
proof (induction s rule: chars.induct)
  case (2 c cs)
  then show ?case using length_dropWhile_le [of is_continuation cs] by simp
qed simp

text \<open>\<open>char::is_whitespace\<close>: U+0009 to U+000D, U+0020, U+0085, U+00A0, U+1680, U+2000 to U+200A,
  U+2028, U+2029, U+202F, U+205F and U+3000, by their bytes.\<close>

definition is_whitespace :: "string \<Rightarrow> bool" where
  "is_whitespace ch = (case map byte ch of
      [a] \<Rightarrow> (9 \<le> a \<and> a \<le> 13) \<or> a = 32
    | [a, b] \<Rightarrow> a = 0xC2 \<and> (b = 0x85 \<or> b = 0xA0)
    | [a, b, c] \<Rightarrow> (a = 0xE1 \<and> b = 0x9A \<and> c = 0x80) \<or>
        (a = 0xE2 \<and> b = 0x80 \<and> ((0x80 \<le> c \<and> c \<le> 0x8A) \<or> c = 0xA8 \<or> c = 0xA9 \<or> c = 0xAF)) \<or>
        (a = 0xE2 \<and> b = 0x81 \<and> c = 0x9F) \<or> (a = 0xE3 \<and> b = 0x80 \<and> c = 0x80)
    | _ \<Rightarrow> False)"

definition trim :: "string \<Rightarrow> string" where
  "trim s = concat (rev (dropWhile is_whitespace (rev (dropWhile is_whitespace (chars s)))))"

lemma trim_Nil [simp]: "trim [] = []"
  by (simp add: trim_def)

lemma trim_id:
  assumes "chars s \<noteq> []" "\<not> is_whitespace (hd (chars s))" "\<not> is_whitespace (last (chars s))"
  shows "trim s = s"
proof -
  have e: "dropWhile is_whitespace (chars s) = chars s"
    using assms(1,2) by (cases "chars s") simp_all
  obtain ys y where "chars s = ys @ [y]"
    using assms(1) by (cases "chars s" rule: rev_cases) auto
  with assms(3) have "concat (rev (dropWhile is_whitespace (rev (chars s)))) = concat (chars s)"
    by simp
  then show ?thesis unfolding trim_def e by simp
qed

definition ascii_graphic :: "char \<Rightarrow> bool" where
  "ascii_graphic c = (33 \<le> byte c \<and> byte c < 128)"

lemma trim_graphic:
  assumes "\<forall>c \<in> set s. ascii_graphic c"
  shows "trim s = s"
proof (cases "s = []")
  case True
  then show ?thesis by simp
next
  case False
  have ch: "chars s = map (\<lambda>c. [c]) s"
    using assms by (intro chars_ascii) (auto simp: ascii_graphic_def)
  have w: "\<not> is_whitespace [d]" if "d \<in> set s" for d
    using assms that by (auto simp: is_whitespace_def ascii_graphic_def)
  show ?thesis
    using False w [of "hd s"] w [of "last s"]
    by (intro trim_id) (simp_all add: ch last_map hd_map)
qed

text \<open>Trimming twice is trimming once: what is left is cut at characters and starts and ends with one
  that is no white space.\<close>

definition chunked :: "string list \<Rightarrow> bool" where
  "chunked cs = ((\<forall>ch \<in> set cs. ch \<noteq> [] \<and> list_all is_continuation (tl ch)) \<and>
    (\<forall>ch \<in> set (tl cs). \<not> is_continuation (hd ch)))"

lemma chunked_chars: "chunked (chars s)"
proof (induction s rule: chars.induct)
  case (2 c cs)
  have "\<not> is_continuation (hd ch)" if "ch \<in> set (chars (dropWhile is_continuation cs))" for ch
    using 2 that
    by (cases "dropWhile is_continuation cs") (auto simp: chunked_def dropWhile_eq_Cons_conv)
  then show ?case using 2 by (auto simp: chunked_def list_all_iff dest: set_takeWhileD)
qed (simp add: chunked_def)

lemma chars_concat: "chunked cs \<Longrightarrow> chars (concat cs) = cs"
proof (induction cs)
  case (Cons ch cs)
  obtain c cont where ch: "ch = c # cont" "list_all is_continuation cont"
    using Cons.prems by (cases ch) (auto simp: chunked_def)
  have s: "chunked cs" using Cons.prems by (cases cs) (auto simp: chunked_def)
  have h: "concat cs = [] \<or> \<not> is_continuation (hd (concat cs))"
    using Cons.prems by (cases cs) (auto simp: chunked_def)
  have "takeWhile is_continuation (cont @ concat cs) = cont" "dropWhile is_continuation (cont @ concat cs) = concat cs"
    using ch(2) h by (auto simp: list_all_iff takeWhile_append dropWhile_append takeWhile_eq_Nil_iff dropWhile_eq_self_iff)
  then show ?case using Cons.IH [OF s] by (simp add: ch(1))
qed simp

lemma chunked_prefix: "chunked (xs @ ys) \<Longrightarrow> chunked xs"
  by (cases xs) (auto simp: chunked_def)

lemma chunked_suffix: "chunked (xs @ ys) \<Longrightarrow> chunked ys"
  by (cases xs; cases ys) (auto simp: chunked_def)

definition trim_chunks :: "string list \<Rightarrow> string list" where
  "trim_chunks cs = rev (dropWhile is_whitespace (rev (dropWhile is_whitespace cs)))"

lemma trim_chunks_split: "\<exists>a b. cs = a @ trim_chunks cs @ b"
proof -
  let ?d = "dropWhile is_whitespace cs"
  have "rev ?d = takeWhile is_whitespace (rev ?d) @ dropWhile is_whitespace (rev ?d)" by simp
  then have "?d = trim_chunks cs @ rev (takeWhile is_whitespace (rev ?d))"
    unfolding trim_chunks_def by (metis rev_append rev_rev_ident)
  moreover have "cs = takeWhile is_whitespace cs @ ?d" by simp
  ultimately show ?thesis by metis
qed

lemma trim_chunks_idem: "trim_chunks (trim_chunks cs) = trim_chunks cs"
proof -
  let ?d = "dropWhile is_whitespace cs"
  have l: "dropWhile is_whitespace (trim_chunks cs) = trim_chunks cs"
  proof (cases "trim_chunks cs")
    case (Cons x xs)
    obtain r where "?d = trim_chunks cs @ r"
      unfolding trim_chunks_def by (metis rev_append rev_rev_ident takeWhile_dropWhile_id)
    then have "\<not> is_whitespace x" using Cons hd_dropWhile [of is_whitespace cs] by auto
    then show ?thesis by (simp add: Cons)
  qed simp
  have "dropWhile is_whitespace (rev (trim_chunks cs)) = rev (trim_chunks cs)"
    by (simp add: trim_chunks_def dropWhile_idem)
  then show ?thesis using l by (simp add: trim_chunks_def [of "trim_chunks cs"])
qed

lemma trim_trim [simp]: "trim (trim s) = trim s"
proof -
  obtain a b where s: "chars s = a @ trim_chunks (chars s) @ b" using trim_chunks_split by metis
  have "chunked (trim_chunks (chars s))"
    using chunked_chars [of s] chunked_suffix chunked_prefix s by metis
  then have "chars (trim s) = trim_chunks (chars s)"
    by (simp add: trim_def chars_concat flip: trim_chunks_def)
  then show ?thesis by (simp add: trim_def trim_chunks_idem flip: trim_chunks_def)
qed

section \<open>Digits\<close>

definition digit_char :: "nat \<Rightarrow> char" where
  "digit_char d = char_of (if d < 10 then 48 + d else 87 + d)"

definition digit_char_upper :: "nat \<Rightarrow> char" where
  "digit_char_upper d = char_of (if d < 10 then 48 + d else 55 + d)"

text \<open>\<open>char::to_digit(radix)\<close>, for a radix of at most 16.\<close>

definition to_digit :: "nat \<Rightarrow> char \<Rightarrow> nat option" where
  "to_digit radix c =
    (let b = byte c;
         d = (if 48 \<le> b \<and> b \<le> 57 then b - 48
              else if 97 \<le> b \<and> b \<le> 102 then b - 87
              else if 65 \<le> b \<and> b \<le> 70 then b - 55 else 16)
     in if d < radix \<and> d < 16 then Some d else None)"

lemma byte_char_of: "n < 256 \<Longrightarrow> byte (char_of n) = n"
  by (simp add: byte_def)

lemma byte_less [simp]: "byte c < 256"
  by (simp add: byte_def)

lemma to_digit_digit_char: "\<lbrakk>d < radix; radix \<le> 16\<rbrakk> \<Longrightarrow> to_digit radix (digit_char d) = Some d"
  by (auto simp: to_digit_def digit_char_def byte_char_of)

lemma to_digit_digit_char_upper:
  "\<lbrakk>d < radix; radix \<le> 16\<rbrakk> \<Longrightarrow> to_digit radix (digit_char_upper d) = Some d"
  by (auto simp: to_digit_def digit_char_upper_def byte_char_of)

lemma graphic_digit: "d < 16 \<Longrightarrow> ascii_graphic (digit_char d)"
  by (auto simp: ascii_graphic_def digit_char_def byte_char_of)

lemma graphic_digit_upper: "d < 16 \<Longrightarrow> ascii_graphic (digit_char_upper d)"
  by (auto simp: ascii_graphic_def digit_char_upper_def byte_char_of)

section \<open>Formatting integers\<close>

fun digits_rev :: "nat \<Rightarrow> nat list" where
  "digits_rev n = (if n < 10 then [n] else n mod 10 # digits_rev (n div 10))"

declare digits_rev.simps [simp del]

definition show_nat :: "nat \<Rightarrow> string" where
  "show_nat n = map digit_char (rev (digits_rev n))"

definition show_int :: "int \<Rightarrow> string" where
  "show_int i = (if i < 0 then CHR ''-'' # show_nat (nat (- i)) else show_nat (nat i))"

text \<open>\<open>{:02X}\<close> of a byte and \<open>{:04x}\<close> of a 16-bit value.\<close>

definition hex2_upper :: "u8 \<Rightarrow> string" where
  "hex2_upper b = [digit_char_upper (unat b div 16), digit_char_upper (unat b mod 16)]"

definition hex4_lower :: "u16 \<Rightarrow> string" where
  "hex4_lower w = map digit_char
    [unat w div 4096, unat w div 256 mod 16, unat w div 16 mod 16, unat w mod 16]"

section \<open>Parsing integers\<close>

text \<open>The digit loop of \<open>from_str_radix\<close>: an invalid digit or a value past \<open>bound\<close> is an error,
  at the digit it happens.\<close>

fun parse_digits :: "nat \<Rightarrow> nat \<Rightarrow> nat \<Rightarrow> string \<Rightarrow> nat option" where
  "parse_digits radix bound acc [] = Some acc"
| "parse_digits radix bound acc (c # cs) =
    (case to_digit radix c of
      None \<Rightarrow> None
    | Some d \<Rightarrow> (let n = acc * radix + d in
        if n \<le> bound then parse_digits radix bound n cs else None))"

definition parse_unsigned :: "nat \<Rightarrow> nat \<Rightarrow> string \<Rightarrow> nat option" where
  "parse_unsigned radix bound s =
    (case s of
      [] \<Rightarrow> None
    | [c] \<Rightarrow> if c = CHR ''+'' \<or> c = CHR ''-'' then None else parse_digits radix bound 0 s
    | c # cs \<Rightarrow> parse_digits radix bound 0 (if c = CHR ''+'' then cs else s))"

definition parse_signed :: "nat \<Rightarrow> nat \<Rightarrow> string \<Rightarrow> int option" where
  "parse_signed radix bound s =
    (case s of
      [] \<Rightarrow> None
    | [c] \<Rightarrow> if c = CHR ''+'' \<or> c = CHR ''-'' then None
        else map_option int (parse_digits radix bound 0 s)
    | c # cs \<Rightarrow>
        if c = CHR ''-'' then map_option (\<lambda>n. - int n) (parse_digits radix (bound + 1) 0 cs)
        else map_option int (parse_digits radix bound 0 (if c = CHR ''+'' then cs else s)))"

lemma parse_digits_map:
  "\<lbrakk>\<And>d. d \<in> set ds \<Longrightarrow> to_digit radix (f d) = Some d;
    foldl (\<lambda>a d. a * radix + d) acc ds \<le> bound; 0 < radix\<rbrakk> \<Longrightarrow>
   parse_digits radix bound acc (map f ds) = Some (foldl (\<lambda>a d. a * radix + d) acc ds)"
proof (induction ds arbitrary: acc)
  case Nil
  then show ?case by simp
next
  case (Cons d ds)
  have mono: "a \<le> foldl (\<lambda>a d. a * radix + d) a es" for a :: nat and es
  proof (induction es arbitrary: a)
    case (Cons e es)
    have "a \<le> a * radix + e" using \<open>0 < radix\<close> by (simp add: trans_le_add1)
    also have "\<dots> \<le> foldl (\<lambda>a d. a * radix + d) (a * radix + e) es" by (rule Cons)
    finally show ?case by simp
  qed simp
  have "acc * radix + d \<le> bound"
    using mono [of "acc * radix + d" ds] Cons.prems(2) by simp
  then show ?case using Cons by (simp add: Let_def)
qed

lemma parse_digits_bound:
  "parse_digits radix bound acc s = Some n \<Longrightarrow> acc \<le> bound \<Longrightarrow> n \<le> bound"
  by (induction radix bound acc s rule: parse_digits.induct)
    (auto simp: Let_def split: option.splits if_splits)

lemma parse_unsigned_bound: "parse_unsigned radix bound s = Some n \<Longrightarrow> n \<le> bound"
  by (auto simp: parse_unsigned_def simp del: parse_digits.simps split: list.splits if_splits
      dest!: parse_digits_bound)

lemma foldl_digits_rev: "foldl (\<lambda>a d. a * 10 + d) 0 (rev (digits_rev n)) = n"
proof (induction n rule: digits_rev.induct)
  case (1 n)
  then show ?case by (subst digits_rev.simps) simp
qed

lemma digits_rev_less: "d \<in> set (digits_rev n) \<Longrightarrow> d < 10"
proof (induction n rule: digits_rev.induct)
  case (1 n)
  then show ?case by (subst (asm) digits_rev.simps) (auto split: if_splits)
qed

lemma digits_rev_neq_Nil [simp]: "digits_rev n \<noteq> []"
  by (subst digits_rev.simps) simp

lemma show_nat_neq_Nil [simp]: "show_nat n \<noteq> []"
  by (simp add: show_nat_def)

lemma graphic_show_nat: "c \<in> set (show_nat n) \<Longrightarrow> ascii_graphic c"
  by (auto simp: show_nat_def intro!: graphic_digit dest: digits_rev_less)

lemma digit_char_not_sign: "d < 16 \<Longrightarrow> digit_char d \<noteq> CHR ''+'' \<and> digit_char d \<noteq> CHR ''-''"
proof -
  assume d: "d < 16"
  then have "byte (digit_char d) \<noteq> 43" "byte (digit_char d) \<noteq> 45"
    by (auto simp: digit_char_def byte_char_of)
  moreover have "byte (CHR ''+'') = 43" "byte (CHR ''-'') = 45"
    by (simp_all add: byte_def)
  ultimately show ?thesis by metis
qed

theorem parse_show_nat: "n \<le> bound \<Longrightarrow> parse_unsigned 10 bound (show_nat n) = Some n"
proof -
  assume n: "n \<le> bound"
  have p: "parse_digits 10 bound 0 (show_nat n) = Some n"
    unfolding show_nat_def using n
    by (subst parse_digits_map) (auto simp: foldl_digits_rev to_digit_digit_char dest: digits_rev_less)
  obtain d ds where s: "show_nat n = digit_char d # map digit_char ds" "d < 10"
    using digits_rev_less [of _ n] by (cases "rev (digits_rev n)") (auto simp: show_nat_def)
  show ?thesis
    using p digit_char_not_sign [of d] s(2) unfolding s(1)
    by (cases ds) (simp_all add: parse_unsigned_def)
qed

section \<open>Other operations\<close>

text \<open>\<open>to_lowercase\<close> on ASCII text, the only text the sources lower.\<close>

definition to_lowercase :: "string \<Rightarrow> string" where
  "to_lowercase s = map (\<lambda>c. if 65 \<le> byte c \<and> byte c \<le> 90 then char_of (byte c + 32) else c) s"

definition starts_with :: "string \<Rightarrow> string \<Rightarrow> bool" where
  "starts_with p s = (take (length p) s = p)"

fun join :: "string \<Rightarrow> string list \<Rightarrow> string" where
  "join sep [] = []"
| "join sep [s] = s"
| "join sep (s # t # ss) = s @ sep @ join sep (t # ss)"

lemma starts_with_append [simp]: "starts_with p (p @ s)"
  by (simp add: starts_with_def)

lemma starts_with_iff: "starts_with p s \<longleftrightarrow> (\<exists>r. s = p @ r)"
  by (metis append_take_drop_id starts_with_append starts_with_def)

lemma graphic_hex2_upper: "c \<in> set (hex2_upper b) \<Longrightarrow> ascii_graphic c"
proof -
  have "unat b div 16 < 16" by (rule less_mult_imp_div_less) simp
  then show "c \<in> set (hex2_upper b) \<Longrightarrow> ascii_graphic c"
    by (auto simp: hex2_upper_def intro!: graphic_digit_upper)
qed

text \<open>\<open>String::from_utf8\<close>: the well-formed byte sequences of the Unicode standard.\<close>

function utf8_valid :: "nat list \<Rightarrow> bool" where
  "utf8_valid bs = (case bs of
      [] \<Rightarrow> True
    | a # r \<Rightarrow>
        if a < 0x80 then utf8_valid r
        else if 0xC2 \<le> a \<and> a \<le> 0xDF then
          (case r of b # r' \<Rightarrow> 0x80 \<le> b \<and> b \<le> 0xBF \<and> utf8_valid r' | _ \<Rightarrow> False)
        else if 0xE0 \<le> a \<and> a \<le> 0xEF then
          (case r of b # c # r' \<Rightarrow>
              (if a = 0xE0 then 0xA0 else 0x80) \<le> b \<and> b \<le> (if a = 0xED then 0x9F else 0xBF) \<and>
              0x80 \<le> c \<and> c \<le> 0xBF \<and> utf8_valid r'
            | _ \<Rightarrow> False)
        else if 0xF0 \<le> a \<and> a \<le> 0xF4 then
          (case r of b # c # d # r' \<Rightarrow>
              (if a = 0xF0 then 0x90 else 0x80) \<le> b \<and> b \<le> (if a = 0xF4 then 0x8F else 0xBF) \<and>
              0x80 \<le> c \<and> c \<le> 0xBF \<and> 0x80 \<le> d \<and> d \<le> 0xBF \<and> utf8_valid r'
            | _ \<Rightarrow> False)
        else False)"
  by pat_completeness auto
termination
  by (relation "measure length") auto

declare utf8_valid.simps [simp del]

lemma utf8_valid_ascii: "\<forall>b \<in> set bs. b < 128 \<Longrightarrow> utf8_valid bs"
proof (induction bs)
  case Nil
  show ?case by (subst utf8_valid.simps) simp
next
  case (Cons a r)
  then show ?case by (subst utf8_valid.simps) simp
qed

text \<open>The \<open>{:?}\<close> format of a string: quoted, with the quote, the backslash and the control
  characters escaped. Characters past ASCII are kept as they are.\<close>

definition debug_char :: "char \<Rightarrow> string" where
  "debug_char c = (let b = byte c in
     if b = 0 then [CHR 0x5C, CHR ''0'']
     else if b = 9 then [CHR 0x5C, CHR ''t'']
     else if b = 10 then [CHR 0x5C, CHR ''n'']
     else if b = 13 then [CHR 0x5C, CHR ''r'']
     else if b = 34 \<or> b = 92 then [CHR 0x5C, c]
     else if b < 16 then [CHR 0x5C, CHR ''u'', CHR 0x7B, digit_char b, CHR 0x7D]
     else if b < 32 \<or> b = 127 then
       [CHR 0x5C, CHR ''u'', CHR 0x7B, digit_char (b div 16), digit_char (b mod 16), CHR 0x7D]
     else [c])"

definition debug_str :: "string \<Rightarrow> string" where
  "debug_str s = CHR 0x22 # concat (map debug_char s) @ [CHR 0x22]"

text \<open>\<open>strip_prefix\<close>, \<open>strip_suffix\<close> and \<open>split_once\<close>.\<close>

definition strip_prefix :: "string \<Rightarrow> string \<Rightarrow> string option" where
  "strip_prefix p s = (if starts_with p s then Some (drop (length p) s) else None)"

definition strip_suffix :: "string \<Rightarrow> string \<Rightarrow> string option" where
  "strip_suffix p s = map_option rev (strip_prefix (rev p) (rev s))"

fun split_once :: "string \<Rightarrow> string \<Rightarrow> (string \<times> string) option" where
  "split_once p [] = (if p = [] then Some ([], []) else None)"
| "split_once p (c # cs) = (if starts_with p (c # cs) then Some ([], drop (length p) (c # cs))
    else map_option (\<lambda>(a, b). (c # a, b)) (split_once p cs))"

text \<open>\<open>Path::join\<close> and \<open>Path::parent\<close> on Unix paths.\<close>

definition path_join :: "string \<Rightarrow> string \<Rightarrow> string" where
  "path_join p n =
    (if starts_with ''/'' n then n
     else if p = [] then n
     else if last p = CHR ''/'' then p @ n
     else p @ ''/'' @ n)"

definition path_parent :: "string \<Rightarrow> string option" where
  "path_parent p =
    (if p = [] \<or> p = ''/'' then None
     else (let dir = rev (dropWhile (\<lambda>c. c \<noteq> CHR ''/'') (rev p))
           in Some (if length dir \<le> 1 then dir else butlast dir)))"

lemma path_parent_shorter: "path_parent p = Some q \<Longrightarrow> length q < length p"
proof -
  let ?d = "dropWhile (\<lambda>c. c \<noteq> CHR ''/'') (rev p)"
  have le: "length ?d \<le> length p" using length_dropWhile_le [of "\<lambda>c. c \<noteq> CHR ''/''" "rev p"] by simp
  assume q: "path_parent p = Some q"
  then have p: "p \<noteq> []" "p \<noteq> ''/''" by (auto simp: path_parent_def)
  have one: "length ?d < length p" if "length ?d \<le> 1"
  proof (rule ccontr)
    assume "\<not> length ?d < length p"
    then have "length p = 1" "length ?d = 1" using le that p by (cases p; simp)+
    then obtain c where c: "p = [c]" by (cases p) auto
    then have "c = CHR ''/''" using \<open>length ?d = 1\<close> by (cases "c = CHR ''/''") auto
    then show False using c p by simp
  qed
  show ?thesis
  proof (cases "length ?d \<le> 1")
    case True
    then have "q = rev ?d" using q p by (auto simp: path_parent_def Let_def)
    then show ?thesis using one [OF True] by simp
  next
    case False
    then have "q = butlast (rev ?d)" using q p by (auto simp: path_parent_def Let_def)
    then show ?thesis using le False by simp
  qed
qed

end
