(* ===== verification/Wire_Enum.thy ===== *)
theory Wire_Enum
  imports Rust_Str
begin

text \<open>
  The contract of the \<open>wire_enum!\<close> macro of \<open>crates/core/src/lib.rs\<close>: an enum read from a control,
  sent over the socket and stored in the configuration has the list \<open>ALL\<close> of its variants, the key
  each travels under, its label, and \<open>from_key\<close>. The macro expands \<open>from_key\<close> to a match over the
  same key tokens, in the order of declaration, which is the search \<open>lookup_key\<close> over \<open>ALL\<close>.
  The locale \<open>wire_enum\<close> states what the test module \<open>keys\<close> of that file asserts (no two variants
  share a key, every variant is offered); its lemmas are the round trips every enum inherits.
\<close>

definition lookup_key :: "('a \<Rightarrow> string) \<Rightarrow> 'a list \<Rightarrow> string \<Rightarrow> 'a option" where
  "lookup_key key all k = find (\<lambda>v. key v = k) all"

locale wire_enum =
  fixes all :: "'a list"
    and key :: "'a \<Rightarrow> string"
    and from_key :: "string \<Rightarrow> 'a option"
  assumes all_complete: "v \<in> set all"
    and keys_distinct: "distinct (map key all)"
    and from_key_lookup: "from_key k = lookup_key key all k"
begin

lemma key_inj: "key v = key w \<Longrightarrow> v = w"
  using keys_distinct all_complete [of v] all_complete [of w]
  by (auto simp: distinct_map dest: inj_onD)

lemma all_distinct: "distinct all"
  using keys_distinct by (simp add: distinct_map)

lemma from_key_key: "from_key (key v) = Some v"
  unfolding from_key_lookup lookup_key_def
  by (rule find_distinct_key [OF keys_distinct all_complete])

lemma from_key_Some_iff: "from_key k = Some v \<longleftrightarrow> k = key v"
proof
  assume "from_key k = Some v"
  then show "k = key v"
    unfolding from_key_lookup lookup_key_def by (auto dest: find_Some_in)
qed (simp add: from_key_key)

lemma from_key_None_iff: "from_key k = None \<longleftrightarrow> (\<forall>v. k \<noteq> key v)"
  using from_key_Some_iff by (metis not_None_eq option.distinct(1))

lemma from_key_inj: "\<lbrakk>from_key k = Some v; from_key l = Some v\<rbrakk> \<Longrightarrow> k = l"
  by (simp add: from_key_Some_iff)

end

end
