(* ===== verification/Float32.thy ===== *)
theory Float32
  imports Complex_Main
begin

text \<open>
  IEEE 754 binary32 as the sources use it. A finite value is the rational number it denotes (the
  two signed zeros are one value; no source distinguishes them), next to the infinities and NaN.
  \<^item> \<open>f32_round\<close>: the nearest value with a 24-bit significand and an exponent of at least -149, ties
    to even, infinite from \<open>2 ^ 128\<close>;
  \<^item> \<open>f32_add\<close>, \<open>f32_sub\<close>, \<open>f32_mul\<close>, \<open>f32_div\<close>: the exact rational result, rounded once;
  \<^item> \<open>f32_round_away\<close>: the method \<open>round\<close> (half away from zero); \<open>f32_clamp\<close>;
  \<^item> \<open>f32_to_int\<close>: the saturating \<open>as\<close> casts (NaN to 0, truncation, clamping at the bounds).
  The lemmas give the rounding error, exactness on short significands, and monotonicity.
\<close>

datatype f32 = F32_NaN | F32_Inf bool | F32 rat

section \<open>Exponent\<close>

fun bits :: "nat \<Rightarrow> nat" where
  "bits n = (if n = 0 then 0 else Suc (bits (n div 2)))"

declare bits.simps [simp del]

lemma bits_bounds: "0 < n \<Longrightarrow> 2 ^ (bits n - 1) \<le> n \<and> n < 2 ^ bits n"
proof (induction n rule: bits.induct)
  case (1 n)
  show ?case
  proof (cases "n = 1")
    case True
    have "bits (Suc 0) = 1" by (simp add: bits.simps)
    then show ?thesis by (simp add: True)
  next
    case False
    with 1 have ih: "2 ^ (bits (n div 2) - 1) \<le> n div 2" "n div 2 < 2 ^ bits (n div 2)"
      by auto
    have b: "bits n = Suc (bits (n div 2))" using 1(2) by (subst bits.simps) simp
    have p: "0 < bits (n div 2)"
      using False 1(2) by (subst bits.simps) auto
    have "2 ^ (bits n - 1) = 2 * (2::nat) ^ (bits (n div 2) - 1)"
      using p by (simp add: b power_eq_if)
    also have "\<dots> \<le> 2 * (n div 2)" using ih(1) by simp
    also have "\<dots> \<le> n" by simp
    finally show ?thesis using ih(2) by (simp add: b)
  qed
qed

definition ilog2 :: "rat \<Rightarrow> int" where
  "ilog2 x = (let (a, b) = quotient_of \<bar>x\<bar>;
                  e = int (bits (nat a)) - int (bits (nat b))
              in if 2 powi e \<le> \<bar>x\<bar> then e else e - 1)"

lemma powi2_pos [simp]: "0 < (2::rat) powi e"
  by (simp add: zero_less_power_int)

lemma powi2_Suc: "(2::rat) powi (e + 1) = 2 * 2 powi e"
  by (simp add: power_int_add)

lemma powi2_pred: "0 < n \<Longrightarrow> (2::rat) powi (int n - 1) = of_nat (2 ^ (n - 1))"
  by (cases n) simp_all

lemma powi2_mono: "a \<le> b \<Longrightarrow> (2::rat) powi a \<le> 2 powi b"
  by (simp add: power_int_increasing)

lemma powi2_less_iff: "(2::rat) powi a < 2 powi b \<longleftrightarrow> a < b"
  by (metis not_le order.strict_iff_not powi2_mono power_int_strict_increasing one_less_numeral_iff
      semiring_norm(76))

lemma ilog2_bounds:
  assumes "x \<noteq> 0"
  shows "2 powi ilog2 x \<le> \<bar>x\<bar>" "\<bar>x\<bar> < 2 powi (ilog2 x + 1)"
proof -
  obtain a b where q: "quotient_of \<bar>x\<bar> = (a, b)" by force
  define e where "e = int (bits (nat a)) - int (bits (nat b))"
  have b: "0 < b" using q by (rule quotient_of_denom_pos)
  have x: "\<bar>x\<bar> = of_int a / of_int b" using q by (rule quotient_of_div)
  have "0 < \<bar>x\<bar>" using assms by simp
  then have a: "0 < a" using b unfolding x by (simp add: zero_less_divide_iff)
  have ba: "2 ^ (bits (nat a) - 1) \<le> nat a" "nat a < 2 ^ bits (nat a)" "0 < bits (nat a)"
    using bits_bounds [of "nat a"] a by (auto intro: ccontr)
  have bb: "2 ^ (bits (nat b) - 1) \<le> nat b" "nat b < 2 ^ bits (nat b)" "0 < bits (nat b)"
    using bits_bounds [of "nat b"] b by (auto intro: ccontr)
  have conv: "(of_int i :: rat) = of_nat (nat i)" if "0 < i" for i :: int
    using that by simp
  have la: "2 powi (int (bits (nat a)) - 1) \<le> (of_int a :: rat)"
  proof -
    have "(2::rat) powi (int (bits (nat a)) - 1) = of_nat (2 ^ (bits (nat a) - 1))"
      using ba(3) by (rule powi2_pred)
    also have "\<dots> \<le> of_nat (nat a)" using ba(1) by (simp only: of_nat_le_iff)
    finally show ?thesis by (simp only: conv [OF a])
  qed
  have ub: "(of_int a :: rat) < 2 powi int (bits (nat a))"
  proof -
    have "(of_nat (nat a) :: rat) < of_nat (2 ^ bits (nat a))"
      using ba(2) by (simp only: of_nat_less_iff)
    then show ?thesis by (simp only: conv [OF a] of_nat_power of_nat_numeral power_int_of_nat)
  qed
  have lb: "2 powi (int (bits (nat b)) - 1) \<le> (of_int b :: rat)"
  proof -
    have "(2::rat) powi (int (bits (nat b)) - 1) = of_nat (2 ^ (bits (nat b) - 1))"
      using bb(3) by (rule powi2_pred)
    also have "\<dots> \<le> of_nat (nat b)" using bb(1) by (simp only: of_nat_le_iff)
    finally show ?thesis by (simp only: conv [OF b])
  qed
  have ubb: "(of_int b :: rat) < 2 powi int (bits (nat b))"
  proof -
    have "(of_nat (nat b) :: rat) < of_nat (2 ^ bits (nat b))"
      using bb(2) by (simp only: of_nat_less_iff)
    then show ?thesis by (simp only: conv [OF b] of_nat_power of_nat_numeral power_int_of_nat)
  qed
  have lo: "2 powi (e - 1) < \<bar>x\<bar>"
  proof -
    have "(2::rat) powi (e - 1) * of_int b < 2 powi (e - 1) * 2 powi int (bits (nat b))"
      using ubb by (intro mult_strict_left_mono) auto
    also have "\<dots> = 2 powi (int (bits (nat a)) - 1)"
      by (simp add: e_def del: power_int_of_nat flip: power_int_add)
    also have "\<dots> \<le> of_int a" by (rule la)
    finally show ?thesis using b by (simp add: x field_simps)
  qed
  have hi: "\<bar>x\<bar> < 2 powi (e + 1)"
  proof -
    have "(of_int a :: rat) < 2 powi int (bits (nat a))" by (rule ub)
    also have "\<dots> = 2 powi (e + 1) * 2 powi (int (bits (nat b)) - 1)"
      by (simp add: e_def flip: power_int_add)
    also have "\<dots> \<le> 2 powi (e + 1) * of_int b"
      using lb by (intro mult_left_mono) auto
    finally show ?thesis using b by (simp add: x field_simps)
  qed
  have i: "ilog2 x = (if 2 powi e \<le> \<bar>x\<bar> then e else e - 1)"
    by (simp add: ilog2_def q e_def)
  show "2 powi ilog2 x \<le> \<bar>x\<bar>" using lo by (simp add: i)
  show "\<bar>x\<bar> < 2 powi (ilog2 x + 1)" using hi by (simp add: i)
qed

lemma ilog2_mono:
  assumes "x \<noteq> 0" "\<bar>x\<bar> \<le> \<bar>y\<bar>"
  shows "ilog2 x \<le> ilog2 y"
proof -
  have "y \<noteq> 0" using assms by auto
  then have "(2::rat) powi ilog2 x < 2 powi (ilog2 y + 1)"
    using ilog2_bounds [OF assms(1)] ilog2_bounds [of y] assms(2) by linarith
  then show ?thesis by (simp add: powi2_less_iff)
qed

lemma ilog2_less:
  assumes "x \<noteq> 0" "\<bar>x\<bar> < 2 powi k"
  shows "ilog2 x < k"
  using ilog2_bounds(1) [OF assms(1)] assms(2) powi2_less_iff [of "ilog2 x" k] by linarith

section \<open>Rounding\<close>

text \<open>The nearest integer, ties to even.\<close>

definition round_even :: "rat \<Rightarrow> int" where
  "round_even x = (let n = \<lfloor>x\<rfloor>; r = x - of_int n in
    if r < 1 / 2 then n else if 1 / 2 < r then n + 1 else if even n then n else n + 1)"

lemma round_even_of_int [simp]: "round_even (of_int n) = n"
  by (simp add: round_even_def)

lemma round_even_error: "\<bar>of_int (round_even x) - x\<bar> \<le> 1 / 2"
proof -
  have "of_int \<lfloor>x\<rfloor> \<le> x" "x < of_int \<lfloor>x\<rfloor> + 1" by linarith+
  then show ?thesis unfolding round_even_def Let_def by (auto simp: abs_le_iff)
qed

lemma round_even_mono:
  assumes "x \<le> y"
  shows "round_even x \<le> round_even y"
proof (rule ccontr)
  assume c: "\<not> round_even x \<le> round_even y"
  then have "(of_int (round_even y) :: rat) + 1 \<le> of_int (round_even x)"
    by (metis add1_zle_eq not_le of_int_1 of_int_add of_int_le_iff)
  with assms round_even_error [of x] round_even_error [of y] have "x = y" by linarith
  with c show False by simp
qed

text \<open>The exponent of the last place of \<open>x\<close>: 23 binary places under the leading one, but never
  under \<open>2 powi -149\<close>, the smallest subnormal.\<close>

definition ulp_exp :: "rat \<Rightarrow> int" where
  "ulp_exp x = max (- 149) (ilog2 x - 23)"

definition round_sig :: "rat \<Rightarrow> rat" where
  "round_sig x = (if x = 0 then 0
    else of_int (round_even (x / 2 powi ulp_exp x)) * 2 powi ulp_exp x)"

definition f32_round :: "rat \<Rightarrow> f32" where
  "f32_round x = (let y = round_sig x in if \<bar>y\<bar> < 2 powi 128 then F32 y else F32_Inf (y < 0))"

lemma round_sig_0 [simp]: "round_sig 0 = 0"
  by (simp add: round_sig_def)

lemma round_sig_error: "\<bar>round_sig x - x\<bar> \<le> 2 powi ulp_exp x / 2"
proof (cases "x = 0")
  case False
  define u :: rat where "u = 2 powi ulp_exp x"
  have u: "0 < u" by (simp add: u_def)
  have "round_sig x - x = (of_int (round_even (x / u)) - x / u) * u"
    using False u by (simp add: round_sig_def u_def [symmetric] field_simps)
  then have "\<bar>round_sig x - x\<bar> = \<bar>of_int (round_even (x / u)) - x / u\<bar> * u"
    using u by (simp add: abs_mult)
  also have "\<dots> \<le> 1 / 2 * u"
    using round_even_error u by (intro mult_right_mono) auto
  finally show ?thesis by (simp add: u_def)
qed simp

lemma round_sig_error_less:
  assumes "\<bar>x\<bar> < 2 powi k" "-125 \<le> k"
  shows "\<bar>round_sig x - x\<bar> \<le> 2 powi (k - 25)"
proof (cases "x = 0")
  case False
  have "ulp_exp x \<le> k - 24"
    using ilog2_less [OF False assms(1)] assms(2) by (simp add: ulp_exp_def)
  then have "(2::rat) powi ulp_exp x \<le> 2 powi (k - 25 + 1)"
    by (intro powi2_mono) simp
  then have "(2::rat) powi ulp_exp x \<le> 2 * 2 powi (k - 25)"
    by (simp only: powi2_Suc)
  with round_sig_error [of x] show ?thesis by linarith
qed simp

text \<open>A significand of at most 24 bits over an exponent the format has is kept as it is.\<close>

lemma round_sig_exact:
  assumes "\<bar>m\<bar> \<le> 2 ^ 24" "-149 \<le> e"
  shows "round_sig (of_int m * 2 powi e) = of_int m * 2 powi e"
proof (cases "m = 0")
  case False
  define x :: rat where "x = of_int m * 2 powi e"
  have x0: "x \<noteq> 0" using False by (simp add: x_def)
  have le: "ilog2 x - 24 \<le> e"
  proof -
    have "\<bar>x\<bar> = of_int \<bar>m\<bar> * 2 powi e" by (simp add: x_def abs_mult)
    also have "(of_int \<bar>m\<bar> :: rat) \<le> of_int (2 ^ 24)"
      using assms(1) by (simp only: of_int_le_iff)
    then have "of_int \<bar>m\<bar> * 2 powi e \<le> (2 powi 24 * 2 powi e :: rat)"
      by (intro mult_right_mono) simp_all
    also have "\<dots> = 2 powi (24 + e)" by (simp add: power_int_add)
    finally have "\<bar>x\<bar> < 2 powi (25 + e)"
      using powi2_less_iff [of "24 + e" "25 + e"] by linarith
    from ilog2_less [OF x0 this] show ?thesis by simp
  qed
  have key: "\<exists>n. x = of_int n * 2 powi ulp_exp x"
  proof (cases "ulp_exp x \<le> e")
    case True
    then have "x = of_int (m * 2 ^ nat (e - ulp_exp x)) * 2 powi ulp_exp x"
      by (simp add: x_def power_int_def [of _ "e - ulp_exp x"] flip: power_int_add)
        (simp flip: power_int_add power_int_of_nat)
    then show ?thesis ..
  next
    case False
    then have u: "ulp_exp x = e + 1" using le assms(2) by (simp add: ulp_exp_def)
    then have "2 powi (e + 24) \<le> \<bar>x\<bar>"
      using ilog2_bounds(1) [OF x0] assms(2) False by (simp add: ulp_exp_def max_def add.commute split: if_splits)
    then have "(2::rat) ^ 24 \<le> of_int \<bar>m\<bar>"
      by (simp add: x_def abs_mult power_int_add)
    then have "(2 ^ 24 :: int) \<le> \<bar>m\<bar>"
      by (metis of_int_le_iff of_int_numeral of_int_power)
    then have "m = 2 ^ 24 \<or> m = - (2 ^ 24)" using assms(1) by linarith
    then have "x = of_int (2 ^ 23) * 2 powi ulp_exp x \<or> x = of_int (- (2 ^ 23)) * 2 powi ulp_exp x"
      unfolding u powi2_Suc by (auto simp: x_def)
    then show ?thesis by blast
  qed
  then obtain n where n: "x = of_int n * 2 powi ulp_exp x" ..
  then have "x / 2 powi ulp_exp x = of_int n"
    by (metis nonzero_mult_div_cancel_right powi2_pos less_irrefl)
  then show ?thesis using n x0 by (simp add: round_sig_def flip: x_def)
qed simp

section \<open>Monotonicity\<close>

lemma round_even_minus: "round_even (- x) = - round_even x"
proof (cases "of_int \<lfloor>x\<rfloor> = x")
  case True
  then obtain n :: int where n: "x = of_int n" by metis
  then have "- x = of_int (- n)" by simp
  then show ?thesis using n by (metis round_even_of_int)
next
  case False
  then have f: "\<lfloor>- x\<rfloor> = - \<lfloor>x\<rfloor> - 1" "of_int \<lfloor>x\<rfloor> < x"
    by (linarith, metis False of_int_floor_le order_le_less)
  show ?thesis by (auto simp: round_even_def Let_def f(1))
qed

lemma ilog2_minus [simp]: "ilog2 (- x) = ilog2 x"
  by (simp add: ilog2_def)

lemma round_sig_minus: "round_sig (- x) = - round_sig x"
  by (simp add: round_sig_def ulp_exp_def round_even_minus)

lemma round_sig_nonneg: "0 \<le> x \<Longrightarrow> 0 \<le> round_sig x"
proof -
  assume "0 \<le> x"
  then have "round_even 0 \<le> round_even (x / 2 powi ulp_exp x)"
    by (intro round_even_mono) simp
  then have "0 \<le> round_even (x / 2 powi ulp_exp x)"
    using round_even_of_int [of 0] by simp
  then show ?thesis by (simp add: round_sig_def)
qed

lemma round_sig_le_power:
  assumes "\<bar>x\<bar> \<le> 2 powi k" "-149 \<le> k"
  shows "round_sig x \<le> 2 powi k"
proof (cases "x = 0")
  case False
  let ?u = "2 powi ulp_exp x :: rat"
  have le: "ulp_exp x \<le> k"
  proof -
    have "(2::rat) powi ilog2 x \<le> 2 powi k"
      using ilog2_bounds(1) [OF False] assms(1) by linarith
    then have "ilog2 x \<le> k" by (meson not_less powi2_less_iff)
    then show ?thesis using assms(2) by (simp add: ulp_exp_def)
  qed
  have g: "2 powi k = (of_int (2 ^ nat (k - ulp_exp x)) * ?u :: rat)"
    using le by (simp add: power_int_def [of _ "k - ulp_exp x"] flip: power_int_add)
      (simp flip: power_int_add power_int_of_nat)
  have "x / ?u \<le> of_int (2 ^ nat (k - ulp_exp x))"
    using assms(1) unfolding g by (simp add: pos_divide_le_eq)
  then have "round_even (x / ?u) \<le> 2 ^ nat (k - ulp_exp x)"
    by (metis round_even_mono round_even_of_int)
  then have "(of_int (round_even (x / ?u)) :: rat) * ?u \<le> of_int (2 ^ nat (k - ulp_exp x)) * ?u"
    by (intro mult_right_mono) (simp_all only: of_int_le_iff less_imp_le powi2_pos)
  then show ?thesis using False by (simp only: g round_sig_def if_False)
qed simp

lemma round_sig_ge_power:
  assumes "2 powi k \<le> x" "-149 \<le> k"
  shows "2 powi k \<le> round_sig x"
proof -
  have pos: "0 < x" using powi2_pos [of k] assms(1) by linarith
  then have x0: "x \<noteq> 0" by simp
  let ?u = "2 powi ulp_exp x :: rat"
  have il: "k \<le> ilog2 x"
  proof -
    have "(2::rat) powi k < 2 powi (ilog2 x + 1)"
      using ilog2_bounds(2) [OF x0] assms(1) pos by linarith
    then show ?thesis by (simp add: powi2_less_iff)
  qed
  have ulp: "ulp_exp x \<le> max (- 149) (ilog2 x)" by (simp add: ulp_exp_def)
  define j where "j = max (- 149) (ilog2 x)"
  have j: "k \<le> j" "ulp_exp x \<le> j" "2 powi j \<le> x"
    using il ulp ilog2_bounds(1) [OF x0] pos assms by (auto simp: j_def max_def)
  have g: "2 powi j = (of_int (2 ^ nat (j - ulp_exp x)) * ?u :: rat)"
    using j(2) by (simp add: power_int_def [of _ "j - ulp_exp x"] flip: power_int_add)
      (simp flip: power_int_add power_int_of_nat)
  have "of_int (2 ^ nat (j - ulp_exp x)) \<le> x / ?u"
    using j(3) unfolding g by (simp add: pos_le_divide_eq)
  then have "2 ^ nat (j - ulp_exp x) \<le> round_even (x / ?u)"
    by (metis round_even_mono round_even_of_int)
  then have "(of_int (2 ^ nat (j - ulp_exp x)) :: rat) * ?u \<le> of_int (round_even (x / ?u)) * ?u"
    by (intro mult_right_mono) (simp_all only: of_int_le_iff less_imp_le powi2_pos)
  then have "2 powi j \<le> round_sig x" using x0 by (simp only: g round_sig_def if_False)
  with powi2_mono [OF j(1)] show ?thesis by linarith
qed

lemma round_sig_mono_pos:
  assumes "0 < x" "x \<le> y"
  shows "round_sig x \<le> round_sig y"
proof (cases "ulp_exp x = ulp_exp y")
  case True
  have "round_even (x / 2 powi ulp_exp y) \<le> round_even (y / 2 powi ulp_exp y)"
    using assms(2) by (intro round_even_mono divide_right_mono) auto
  then show ?thesis using assms True by (simp add: round_sig_def)
next
  case False
  have "ilog2 x \<le> ilog2 y" using assms by (intro ilog2_mono) auto
  then have "ulp_exp x < ulp_exp y" using False by (auto simp: ulp_exp_def max_def split: if_splits)
  then have lt: "-149 < ilog2 y - 23" "ilog2 x + 1 \<le> ilog2 y"
    by (auto simp: ulp_exp_def max_def split: if_splits)
  have "\<bar>x\<bar> \<le> 2 powi ilog2 y"
    using ilog2_bounds(2) [of x] assms(1) powi2_mono [OF lt(2)] by linarith
  then have "round_sig x \<le> 2 powi ilog2 y"
    using lt(1) by (intro round_sig_le_power) auto
  also have "\<dots> \<le> round_sig y"
    using ilog2_bounds(1) [of y] assms lt(1) by (intro round_sig_ge_power) auto
  finally show ?thesis .
qed

theorem round_sig_mono:
  assumes "x \<le> y"
  shows "round_sig x \<le> round_sig y"
proof -
  consider "0 < x" | "x \<le> 0" "0 \<le> y" | "y < 0" by linarith
  then show ?thesis
  proof cases
    case 1
    then show ?thesis using assms by (rule round_sig_mono_pos)
  next
    case 2
    then show ?thesis
      using round_sig_nonneg [of y] round_sig_nonneg [of "- x"] by (simp add: round_sig_minus)
  next
    case 3
    then show ?thesis
      using round_sig_mono_pos [of "- y" "- x"] assms by (simp add: round_sig_minus)
  qed
qed

section \<open>Operations\<close>

text \<open>The sources never divide by zero and never subtract infinities on a path that is modelled;
  the cases are written out as IEEE has them nevertheless.\<close>

definition f32_of_int :: "int \<Rightarrow> f32" where
  "f32_of_int i = f32_round (of_int i)"

definition f32_neg :: "f32 \<Rightarrow> f32" where
  "f32_neg a = (case a of F32_NaN \<Rightarrow> F32_NaN | F32_Inf s \<Rightarrow> F32_Inf (\<not> s) | F32 x \<Rightarrow> F32 (- x))"

definition f32_add :: "f32 \<Rightarrow> f32 \<Rightarrow> f32" where
  "f32_add a b = (case (a, b) of
      (F32 x, F32 y) \<Rightarrow> f32_round (x + y)
    | (F32_Inf s, F32_Inf t) \<Rightarrow> if s = t then F32_Inf s else F32_NaN
    | (F32_Inf s, F32 _) \<Rightarrow> F32_Inf s
    | (F32 _, F32_Inf s) \<Rightarrow> F32_Inf s
    | _ \<Rightarrow> F32_NaN)"

definition f32_sub :: "f32 \<Rightarrow> f32 \<Rightarrow> f32" where
  "f32_sub a b = f32_add a (f32_neg b)"

definition f32_mul :: "f32 \<Rightarrow> f32 \<Rightarrow> f32" where
  "f32_mul a b = (case (a, b) of
      (F32 x, F32 y) \<Rightarrow> f32_round (x * y)
    | (F32_Inf s, F32_Inf t) \<Rightarrow> F32_Inf (s \<noteq> t)
    | (F32_Inf s, F32 y) \<Rightarrow> if y = 0 then F32_NaN else F32_Inf (s \<noteq> (y < 0))
    | (F32 x, F32_Inf t) \<Rightarrow> if x = 0 then F32_NaN else F32_Inf (t \<noteq> (x < 0))
    | _ \<Rightarrow> F32_NaN)"

text \<open>Division by a zero is given no sign here, so it is left as NaN: no source divides by one.\<close>

definition f32_div :: "f32 \<Rightarrow> f32 \<Rightarrow> f32" where
  "f32_div a b = (case (a, b) of
      (F32 x, F32 y) \<Rightarrow> if y = 0 then F32_NaN else f32_round (x / y)
    | (F32_Inf s, F32 y) \<Rightarrow> F32_Inf (s \<noteq> (y < 0))
    | (F32 x, F32_Inf t) \<Rightarrow> F32 0
    | _ \<Rightarrow> F32_NaN)"

definition f32_is_finite :: "f32 \<Rightarrow> bool" where
  "f32_is_finite a = (case a of F32 _ \<Rightarrow> True | _ \<Rightarrow> False)"

definition f32_is_nan :: "f32 \<Rightarrow> bool" where
  "f32_is_nan a = (case a of F32_NaN \<Rightarrow> True | _ \<Rightarrow> False)"

text \<open>\<open><\<close> and \<open>==\<close>: false whenever a NaN is compared.\<close>

definition f32_less :: "f32 \<Rightarrow> f32 \<Rightarrow> bool" where
  "f32_less a b = (case (a, b) of
      (F32 x, F32 y) \<Rightarrow> x < y
    | (F32_Inf s, F32_Inf t) \<Rightarrow> s \<and> \<not> t
    | (F32_Inf s, F32 _) \<Rightarrow> s
    | (F32 _, F32_Inf t) \<Rightarrow> \<not> t
    | _ \<Rightarrow> False)"

definition f32_le :: "f32 \<Rightarrow> f32 \<Rightarrow> bool" where
  "f32_le a b = (f32_less a b \<or> (a = b \<and> \<not> f32_is_nan a))"

definition round_away :: "rat \<Rightarrow> int" where
  "round_away x = (if 0 \<le> x then \<lfloor>x + 1 / 2\<rfloor> else - \<lfloor>- x + 1 / 2\<rfloor>)"

definition f32_round_away :: "f32 \<Rightarrow> f32" where
  "f32_round_away a = (case a of F32 x \<Rightarrow> F32 (of_int (round_away x)) | _ \<Rightarrow> a)"

definition f32_clamp :: "f32 \<Rightarrow> f32 \<Rightarrow> f32 \<Rightarrow> f32" where
  "f32_clamp a lo hi = (if f32_less a lo then lo else if f32_less hi a then hi else a)"

text \<open>\<open>a as T\<close> for an integer type with the bounds \<open>lo\<close> and \<open>hi\<close>.\<close>

definition f32_to_int :: "int \<Rightarrow> int \<Rightarrow> f32 \<Rightarrow> int" where
  "f32_to_int lo hi a = (case a of
      F32_NaN \<Rightarrow> 0
    | F32_Inf s \<Rightarrow> if s then lo else hi
    | F32 x \<Rightarrow> max lo (min hi (if 0 \<le> x then \<lfloor>x\<rfloor> else - \<lfloor>- x\<rfloor>)))"

lemma f32_round_eq:
  assumes "round_sig x = y" "\<bar>y\<bar> < 2 powi 128"
  shows "f32_round x = F32 y"
  using assms by (simp add: f32_round_def Let_def)

lemma f32_round_small:
  assumes "\<bar>x\<bar> < 2 powi 100"
  shows "f32_round x = F32 (round_sig x)"
proof (rule f32_round_eq [OF refl])
  have "\<bar>round_sig x - x\<bar> \<le> 2 powi 75"
    using round_sig_error_less [OF assms] by simp
  then have "\<bar>round_sig x\<bar> < 2 powi 100 + 2 powi 75" using assms by linarith
  also have "\<dots> < (2 powi 128 :: rat)" by simp
  finally show "\<bar>round_sig x\<bar> < 2 powi 128" .
qed

lemma f32_of_int_exact: "\<bar>i\<bar> \<le> 2 ^ 24 \<Longrightarrow> f32_of_int i = F32 (of_int i)"
proof -
  assume i: "\<bar>i\<bar> \<le> 2 ^ 24"
  have r: "round_sig (of_int i) = of_int i" using round_sig_exact [OF i, of 0] by simp
  have "\<bar>of_int i :: rat\<bar> = of_int \<bar>i\<bar>" by simp
  also have "(of_int \<bar>i\<bar> :: rat) \<le> of_int (2 ^ 24)" using i by (simp only: of_int_le_iff)
  also have "\<dots> < (2 powi 128 :: rat)" by simp
  finally show ?thesis unfolding f32_of_int_def by (intro f32_round_eq r)
qed

lemma round_away_of_int [simp]: "round_away (of_int i) = i"
proof -
  have "\<lfloor>of_int i + 1 / 2 :: rat\<rfloor> = i" "\<lfloor>of_int (- i) + 1 / 2 :: rat\<rfloor> = - i"
    by linarith+
  then show ?thesis by (simp add: round_away_def)
qed

lemma round_away_mono: "x \<le> y \<Longrightarrow> round_away x \<le> round_away y"
  unfolding round_away_def by (auto split: if_splits) linarith+

text \<open>A value within \<open>e\<close> of one that is at least \<open>e\<close> away from a half rounds the same way.\<close>

lemma round_away_near:
  assumes "\<bar>y - x\<bar> < e" "of_int n - 1 / 2 + e \<le> x" "x \<le> of_int n + 1 / 2 - e"
  shows "round_away y = n"
proof -
  have "of_int n - 1 / 2 < y" "y < of_int n + 1 / 2" using assms by linarith+
  then show ?thesis
    unfolding round_away_def by (auto split: if_splits) linarith+
qed

lemma round_sig_of_int: "\<bar>i\<bar> \<le> 2 ^ 24 \<Longrightarrow> round_sig (of_int i) = of_int i"
  using round_sig_exact [of i 0] by simp

lemma f32_arith_simps:
  "f32_add (F32 x) (F32 y) = f32_round (x + y)"
  "f32_sub (F32 x) (F32 y) = f32_round (x - y)"
  "f32_mul (F32 x) (F32 y) = f32_round (x * y)"
  "y \<noteq> 0 \<Longrightarrow> f32_div (F32 x) (F32 y) = f32_round (x / y)"
  "f32_round_away (F32 x) = F32 (of_int (round_away x))"
  "f32_is_finite (F32 x)" "\<not> f32_is_nan (F32 x)"
  "f32_less (F32 x) (F32 y) \<longleftrightarrow> x < y"
  "f32_clamp (F32 x) (F32 y) (F32 z) = F32 (if x < y then y else if z < x then z else x)"
  by (simp_all add: f32_add_def f32_sub_def f32_neg_def f32_mul_def f32_div_def f32_round_away_def
      f32_is_finite_def f32_is_nan_def f32_less_def f32_clamp_def)

lemma f32_to_int_of_int: "f32_to_int lo hi (F32 (of_int i)) = max lo (min hi i)"
  by (simp add: f32_to_int_def)

lemma f32_round_bounded:
  assumes "\<bar>l\<bar> \<le> 2 ^ 24" "\<bar>h\<bar> \<le> 2 ^ 24" "of_int l \<le> x" "x \<le> of_int h"
  shows "f32_round x = F32 (round_sig x) \<and> of_int l \<le> round_sig x \<and> round_sig x \<le> of_int h"
proof -
  have "\<bar>of_int l :: rat\<bar> \<le> 2 ^ 24" "\<bar>of_int h :: rat\<bar> \<le> 2 ^ 24"
    using assms(1,2) by (metis of_int_abs of_int_le_iff of_int_numeral of_int_power)+
  then have "\<bar>x\<bar> \<le> 2 ^ 24" using assms(3,4) by linarith
  then have "\<bar>x\<bar> < 2 powi 100" by (rule order_le_less_trans) simp
  then show ?thesis
    using f32_round_small [of x] round_sig_mono [OF assms(3)] round_sig_mono [OF assms(4)]
      round_sig_of_int [OF assms(1)] round_sig_of_int [OF assms(2)] by simp
qed

end
