(* ===== verification/Capability.thy ===== *)
theory Capability
  imports Rust_Str "HOL-Library.Product_Lexorder"
begin

text \<open>
  \<open>crates/core/src/capability.rs\<close> and the device allowlist of \<open>crates/core/src/lib.rs\<close>: the
  evidence-backed record of what a device exposes. A field is \<open>Known\<close> with the source it was read
  from or \<open>Unknown\<close> with the reason. A capability may be written only by \<open>can_write\<close>: the device is
  supported, the capability is listed, and its first entry is \<open>Available\<close> and writable.
  The lemmas show when a write is allowed, that the channel count is never a truncation, and that
  redaction removes every serial number and nothing else.
\<close>

section \<open>Device identifiers and the allowlist\<close>

datatype device_id = DeviceId (dev_vendor: u16) (dev_product: u16)

definition device_id_display :: "device_id \<Rightarrow> string" where
  "device_id_display d = hex4_lower (dev_vendor d) @ '':'' @ hex4_lower (dev_product d)"

definition KRAKEN_BASE :: device_id where "KRAKEN_BASE = DeviceId 0x1e71 0x300e"
definition RGB_CONTROLLER :: device_id where "RGB_CONTROLLER = DeviceId 0x1e71 0x2021"
definition ALLOWLIST :: "device_id list" where "ALLOWLIST = [KRAKEN_BASE, RGB_CONTROLLER]"

definition is_allowlisted :: "device_id \<Rightarrow> bool" where
  "is_allowlisted d = (d \<in> set ALLOWLIST)"

text \<open>The derived order of \<open>DeviceId\<close>: vendor, then product.\<close>

instantiation device_id :: linorder
begin

definition less_eq_device_id :: "device_id \<Rightarrow> device_id \<Rightarrow> bool" where
  "less_eq_device_id a b = ((dev_vendor a, dev_product a) \<le> (dev_vendor b, dev_product b))"

definition less_device_id :: "device_id \<Rightarrow> device_id \<Rightarrow> bool" where
  "less_device_id a b = ((dev_vendor a, dev_product a) < (dev_vendor b, dev_product b))"

instance
  by standard (auto simp: less_eq_device_id_def less_device_id_def intro: device_id.expand)

end

section \<open>Evidence\<close>

datatype 'a evidenced = Known 'a string | Unknown string string

definition ev_value :: "'a evidenced \<Rightarrow> 'a option" where
  "ev_value e = (case e of Known v _ \<Rightarrow> Some v | Unknown _ _ \<Rightarrow> None)"

definition ev_is_known :: "'a evidenced \<Rightarrow> bool" where
  "ev_is_known e = (case e of Known _ _ \<Rightarrow> True | Unknown _ _ \<Rightarrow> False)"

definition ev_reason :: "'a evidenced \<Rightarrow> string option" where
  "ev_reason e = (case e of Known _ _ \<Rightarrow> None | Unknown r _ \<Rightarrow> Some r)"

lemma ev_simps [simp]:
  "ev_value (Known v s) = Some v" "ev_value (Unknown r s) = None"
  "ev_is_known (Known v s)" "\<not> ev_is_known (Unknown r s)"
  "ev_reason (Known v s) = None" "ev_reason (Unknown r s) = Some r"
  by (simp_all add: ev_value_def ev_is_known_def ev_reason_def)

lemma ev_value_Some_iff: "ev_value e = Some v \<longleftrightarrow> (\<exists>s. e = Known v s)"
  by (cases e) simp_all

lemma ev_known_xor_reason: "ev_is_known e \<longleftrightarrow> ev_reason e = None"
  by (cases e) simp_all

section \<open>Capabilities\<close>

datatype capability_id = LiquidTemperature | PumpSpeed | FanSpeed | PumpDuty | FanDuty | PumpCurve
  | FanCurve | RgbFixedColor | RgbEffects | LcdFrame | LcdDisplayControl

fun capability_label :: "capability_id \<Rightarrow> string" where
  "capability_label LiquidTemperature = ''Liquid temperature''"
| "capability_label PumpSpeed = ''Pump speed''"
| "capability_label FanSpeed = ''Fan speed''"
| "capability_label PumpDuty = ''Pump duty''"
| "capability_label FanDuty = ''Fan duty''"
| "capability_label PumpCurve = ''Pump curve''"
| "capability_label FanCurve = ''Fan curve''"
| "capability_label RgbFixedColor = ''RGB fixed color''"
| "capability_label RgbEffects = ''RGB effects''"
| "capability_label LcdFrame = ''LCD frame transfer''"
| "capability_label LcdDisplayControl = ''LCD display control''"

datatype capability_state =
    Available bool string
  | Unvalidated string
  | Unavailable string

definition is_writable :: "capability_state \<Rightarrow> bool" where
  "is_writable s = (case s of Available w _ \<Rightarrow> w | _ \<Rightarrow> False)"

definition is_readable :: "capability_state \<Rightarrow> bool" where
  "is_readable s = (case s of Available _ _ \<Rightarrow> True | _ \<Rightarrow> False)"

definition blocked_reason :: "capability_state \<Rightarrow> string option" where
  "blocked_reason s = (case s of
      Available w src \<Rightarrow> if w then None
        else Some (''Read-only: no write permission on '' @ src @ ''.'')
    | Unvalidated r \<Rightarrow> Some r
    | Unavailable r \<Rightarrow> Some r)"

lemma blocked_reason_None_iff: "blocked_reason s = None \<longleftrightarrow> is_writable s"
  by (cases s) (simp_all add: blocked_reason_def is_writable_def)

lemma is_writable_readable: "is_writable s \<Longrightarrow> is_readable s"
  by (cases s) (simp_all add: is_readable_def is_writable_def)

lemma is_writable_iff: "is_writable s \<longleftrightarrow> (\<exists>src. s = Available True src)"
  by (cases s) (auto simp: is_writable_def)

record capability =
  cap_id :: capability_id
  cap_state :: capability_state

record usb_endpoint =
  ep_address :: u8
  ep_direction :: string
  ep_transfer :: string
  ep_max_packet_size :: u16
  ep_interval :: u8

record usb_interface =
  if_number :: u8
  if_class :: u8
  if_subclass :: u8
  if_protocol :: u8
  if_driver :: "string evidenced"
  if_endpoints :: "usb_endpoint list"

record usb_identity =
  usb_id :: device_id
  usb_manufacturer :: "string evidenced"
  usb_product :: "string evidenced"
  usb_serial :: "string evidenced"
  usb_firmware :: "string evidenced"
  usb_sysfs_path :: string

record hwmon_attribute =
  attr_name :: string
  attr_path :: string
  attr_readable :: bool
  attr_writable :: bool
  attr_label :: "string evidenced"

record curve_channel =
  cc_temp_index :: u8
  cc_point_count :: u16
  cc_writable :: bool

record hwmon_capabilities =
  hw_driver :: string
  hw_path :: string
  hw_attributes :: "hwmon_attribute list"
  hw_curve_points :: "curve_channel list"

definition hwmon_attribute_named :: "hwmon_capabilities \<Rightarrow> string \<Rightarrow> hwmon_attribute option" where
  "hwmon_attribute_named h n = find (\<lambda>a. attr_name a = n) (hw_attributes h)"

section \<open>What the RGB controller answered\<close>

record rgb_accessory =
  acc_id :: u8
  acc_name :: string

record rgb_channel =
  ch_index :: u8
  ch_accessories :: "rgb_accessory list"
  ch_led_count :: "u16 evidenced"

record rgb_topology =
  rt_node :: "string evidenced"
  rt_firmware :: "string evidenced"
  rt_channels :: "rgb_channel list evidenced"

definition rgb_topology_unavailable :: "string \<Rightarrow> string \<Rightarrow> rgb_topology" where
  "rgb_topology_unavailable reason source =
    \<lparr>rt_node = Unknown reason source, rt_firmware = Unknown reason source,
     rt_channels = Unknown reason source\<rparr>"

definition rgb_topology_silent :: "string \<Rightarrow> string \<Rightarrow> rgb_topology" where
  "rgb_topology_silent node reason =
    \<lparr>rt_node = Known node ''sysfs'', rt_firmware = Unknown reason node,
     rt_channels = Unknown reason node\<rparr>"

text \<open>A count that does not fit the byte a channel is addressed by is unknown.\<close>

definition channel_count :: "rgb_topology \<Rightarrow> u8 option" where
  "channel_count t = (case ev_value (rt_channels t) of
      None \<Rightarrow> None
    | Some cs \<Rightarrow> u8_try_from (length cs))"

section \<open>What the Kraken answered about its panel\<close>

datatype lcd_panel_shape = Circular | Square

record lcd_panel =
  lp_width :: u16
  lp_height :: u16
  lp_shape :: lcd_panel_shape
  lp_pixel_format :: string
  lp_frame_bytes :: u32
  lp_bulk_endpoint :: u8
  lp_bulk_interface :: u8

record lcd_display_settings =
  lds_brightness_percent :: u8
  lds_quarter_turns :: u8

record lcd_topology =
  lt_hid_node :: "string evidenced"
  lt_bulk_node :: "string evidenced"
  lt_firmware :: "string evidenced"
  lt_panel :: "lcd_panel evidenced"
  lt_display :: "lcd_display_settings evidenced"

definition lcd_topology_unavailable :: "string \<Rightarrow> string \<Rightarrow> lcd_topology" where
  "lcd_topology_unavailable reason source =
    \<lparr>lt_hid_node = Unknown reason source, lt_bulk_node = Unknown reason source,
     lt_firmware = Unknown reason source, lt_panel = Unknown reason source,
     lt_display = Unknown reason source\<rparr>"

definition lcd_topology_silent :: "string \<Rightarrow> string evidenced \<Rightarrow> string \<Rightarrow> lcd_topology" where
  "lcd_topology_silent hid_node bulk_node reason =
    \<lparr>lt_hid_node = Known hid_node ''sysfs'', lt_bulk_node = bulk_node,
     lt_firmware = Unknown reason hid_node, lt_panel = Unknown reason hid_node,
     lt_display = Unknown reason hid_node\<rparr>"

definition lcd_answered :: "lcd_topology \<Rightarrow> bool" where
  "lcd_answered t = ev_is_known (lt_display t)"

lemma lcd_silent_not_answered: "\<not> lcd_answered (lcd_topology_silent n b r)"
  by (simp add: lcd_answered_def lcd_topology_silent_def)

section \<open>Devices and the record of the machine\<close>

datatype support_state = Supported | Unsupported string

record device_record =
  dr_support :: support_state
  dr_usb :: usb_identity
  dr_interfaces :: "usb_interface list"
  dr_hwmon :: "hwmon_capabilities option"
  dr_rgb :: "rgb_topology option"
  dr_lcd :: "lcd_topology option"
  dr_capabilities :: "capability list"

definition device_id_of :: "device_record \<Rightarrow> device_id" where
  "device_id_of d = usb_id (dr_usb d)"

definition is_supported :: "device_record \<Rightarrow> bool" where
  "is_supported d = (case dr_support d of Supported \<Rightarrow> True | Unsupported _ \<Rightarrow> False)"

definition capability_of :: "device_record \<Rightarrow> capability_id \<Rightarrow> capability option" where
  "capability_of d i = find (\<lambda>c. cap_id c = i) (dr_capabilities d)"

definition can_write :: "device_record \<Rightarrow> capability_id \<Rightarrow> bool" where
  "can_write d i = (is_supported d \<and>
    (case capability_of d i of None \<Rightarrow> False | Some c \<Rightarrow> is_writable (cap_state c)))"

record probe_context =
  pc_kernel_release :: "string evidenced"
  pc_probed_at_unix_ms :: u64

record rejected_device =
  rd_id :: device_id
  rd_sysfs_path :: string
  rd_reason :: string

record capability_record =
  cr_schema_version :: u32
  cr_context :: probe_context
  cr_devices :: "device_record list"
  cr_rejected :: "rejected_device list"

definition CAPABILITY_SCHEMA_VERSION :: u32 where "CAPABILITY_SCHEMA_VERSION = 3"

definition record_device :: "capability_record \<Rightarrow> device_id \<Rightarrow> device_record option" where
  "record_device r i = find (\<lambda>d. device_id_of d = i) (cr_devices r)"

definition record_supported :: "capability_record \<Rightarrow> device_record list" where
  "record_supported r = filter is_supported (cr_devices r)"

definition redact_device :: "device_record \<Rightarrow> device_record" where
  "redact_device d = d\<lparr>dr_usb := (dr_usb d)\<lparr>usb_serial :=
    Unknown ''redacted'' ''policy:redact-serials''\<rparr>\<rparr>"

definition redact_serials :: "capability_record \<Rightarrow> capability_record" where
  "redact_serials r = r\<lparr>cr_devices := map redact_device (cr_devices r)\<rparr>"

section \<open>What holds of a record\<close>

lemma can_write_iff:
  "can_write d i \<longleftrightarrow> dr_support d = Supported \<and>
    (\<exists>src. capability_of d i = Some \<lparr>cap_id = i, cap_state = Available True src\<rparr>)"
proof -
  have "cap_id c = i" if "capability_of d i = Some c" for c
    using that by (auto simp: capability_of_def dest: find_Some_in)
  then show ?thesis
    by (auto simp: can_write_def is_supported_def is_writable_iff
        split: support_state.splits option.splits) (metis capability.surjective old.unit.exhaust)
qed

lemma channel_count_exact:
  "channel_count t = Some n \<longleftrightarrow>
    (\<exists>cs src. rt_channels t = Known cs src \<and> length cs < 256 \<and> unat n = length cs)"
  by (auto simp: channel_count_def ev_value_Some_iff u8_try_from_Some split: option.splits)

lemma redact_serials_hides:
  "d \<in> set (cr_devices (redact_serials r)) \<Longrightarrow> ev_value (usb_serial (dr_usb d)) = None"
  by (auto simp: redact_serials_def redact_device_def)

lemma redact_device_keeps:
  "device_id_of (redact_device d) = device_id_of d"
  "is_supported (redact_device d) = is_supported d"
  "capability_of (redact_device d) i = capability_of d i"
  "can_write (redact_device d) i = can_write d i"
  by (simp_all add: redact_device_def device_id_of_def is_supported_def capability_of_def can_write_def)

lemma record_device_redact:
  "record_device (redact_serials r) i = map_option redact_device (record_device r i)"
proof -
  have "find (\<lambda>d. device_id_of d = i) (map redact_device ds) =
      map_option redact_device (find (\<lambda>d. device_id_of d = i) ds)" for ds
    by (induction ds) (simp_all add: redact_device_keeps)
  then show ?thesis by (simp add: record_device_def redact_serials_def)
qed

end
