(* ===== verification/Lighting.thy ===== *)
theory Lighting
  imports Capability Wire_Enum Float32
begin

text \<open>
  \<open>crates/core/src/lighting.rs\<close>: colors, brightness, the lighting programs and their validation.
  No wire format appears here. Brightness is a percentage that only \<open>brightness_new\<close> produces;
  \<open>brightness_ok\<close> is what it promises. The wire enums interpret the locale \<open>wire_enum\<close>.
  The lemmas give the round trip of the hexadecimal form, the exact value of a dimmed color, the
  bounds of a mixed one, and the characterisation of what the two validators accept.
\<close>

section \<open>Constants and colors\<close>

definition HEX_COLOR_DIGITS :: nat where "HEX_COLOR_DIGITS = 6"
definition MAX_BRIGHTNESS :: u8 where "MAX_BRIGHTNESS = 100"
definition PROBE_BRIGHTNESS :: u8 where "PROBE_BRIGHTNESS = 10"
definition MIN_COMMAND_INTERVAL_MS :: u64 where "MIN_COMMAND_INTERVAL_MS = 50"

datatype rgb = Rgb (rgb_r: u8) (rgb_g: u8) (rgb_b: u8)

definition BLACK :: rgb where "BLACK = Rgb 0 0 0"

datatype lighting_error =
    ColorDigits nat nat
  | ColorAlphabet string
  | BrightnessOutOfRange u8 u8
  | ChannelUnknown u8 u8
  | ColorCount string nat nat nat
  | DirectionUnsupported string
  | CadenceTooFast u8 u64 u64

definition lighting_error_channel :: "lighting_error \<Rightarrow> u8 option" where
  "lighting_error_channel e = (case e of
      ChannelUnknown c _ \<Rightarrow> Some c
    | CadenceTooFast c _ _ \<Rightarrow> Some c
    | _ \<Rightarrow> None)"

text \<open>\<open>trim_start_matches('#')\<close> strips every leading \<open>#\<close>; \<open>from_str_radix\<close> takes an optional sign.\<close>

definition parse_hex :: "string \<Rightarrow> lighting_error + rgb" where
  "parse_hex value =
    (let trimmed = dropWhile (\<lambda>c. c = CHR ''#'') (trim value) in
     if length trimmed \<noteq> HEX_COLOR_DIGITS
     then Inl (ColorDigits HEX_COLOR_DIGITS (char_count trimmed))
     else (case parse_unsigned 16 (2 ^ 32 - 1) trimmed of
        None \<Rightarrow> Inl (ColorAlphabet trimmed)
      | Some packed \<Rightarrow>
          Inr (Rgb (word_of_nat (packed div 65536 mod 256)) (word_of_nat (packed div 256 mod 256))
            (word_of_nat (packed mod 256)))))"

definition to_hex :: "rgb \<Rightarrow> string" where
  "to_hex c = hex2_upper (rgb_r c) @ hex2_upper (rgb_g c) @ hex2_upper (rgb_b c)"

section \<open>Brightness\<close>

datatype brightness = Brightness (percent: u8)

definition brightness_new :: "u8 \<Rightarrow> lighting_error + brightness" where
  "brightness_new p = (if MAX_BRIGHTNESS < p then Inl (BrightnessOutOfRange p MAX_BRIGHTNESS)
    else Inr (Brightness p))"

definition BRIGHTNESS_FULL :: brightness where "BRIGHTNESS_FULL = Brightness MAX_BRIGHTNESS"
definition BRIGHTNESS_OFF :: brightness where "BRIGHTNESS_OFF = Brightness 0"

definition brightness_ok :: "brightness \<Rightarrow> bool" where
  "brightness_ok b = (percent b \<le> MAX_BRIGHTNESS)"

text \<open>The product and the division are in \<open>u16\<close>, the result is cut to a byte.\<close>

definition scale_channel :: "brightness \<Rightarrow> u8 \<Rightarrow> u8" where
  "scale_channel b c = ucast ((ucast c * ucast (percent b) :: u16) div ucast MAX_BRIGHTNESS)"

definition scaled :: "rgb \<Rightarrow> brightness \<Rightarrow> rgb" where
  "scaled c b = Rgb (scale_channel b (rgb_r c)) (scale_channel b (rgb_g c)) (scale_channel b (rgb_b c))"

definition f32_of_u8 :: "u8 \<Rightarrow> f32" where
  "f32_of_u8 b = f32_of_int (uint b)"

definition f32_as_u8 :: "f32 \<Rightarrow> u8" where
  "f32_as_u8 a = word_of_int (f32_to_int 0 255 a)"

definition mix_channel :: "f32 \<Rightarrow> u8 \<Rightarrow> u8 \<Rightarrow> u8" where
  "mix_channel amount from toward =
    f32_as_u8 (f32_round_away (f32_add (f32_of_u8 from)
      (f32_mul (f32_sub (f32_of_u8 toward) (f32_of_u8 from)) amount)))"

definition mixed :: "rgb \<Rightarrow> rgb \<Rightarrow> f32 \<Rightarrow> rgb" where
  "mixed c toward amount = Rgb (mix_channel amount (rgb_r c) (rgb_r toward))
    (mix_channel amount (rgb_g c) (rgb_g toward)) (mix_channel amount (rgb_b c) (rgb_b toward))"

section \<open>Effects, speeds, directions\<close>

datatype lighting_effect = Breathing | SpectrumWave

definition effect_all :: "lighting_effect list" where "effect_all = [Breathing, SpectrumWave]"

fun effect_key :: "lighting_effect \<Rightarrow> string" where
  "effect_key Breathing = ''breathing''"
| "effect_key SpectrumWave = ''spectrum_wave''"

fun effect_label :: "lighting_effect \<Rightarrow> string" where
  "effect_label Breathing = ''Breathing''"
| "effect_label SpectrumWave = ''Spectrum wave''"

definition effect_from_key :: "string \<Rightarrow> lighting_effect option" where
  "effect_from_key k = (if k = ''breathing'' then Some Breathing
    else if k = ''spectrum_wave'' then Some SpectrumWave else None)"

fun color_range :: "lighting_effect \<Rightarrow> nat \<times> nat" where
  "color_range Breathing = (1, 8)"
| "color_range SpectrumWave = (0, 0)"

fun accepts_direction :: "lighting_effect \<Rightarrow> bool" where
  "accepts_direction Breathing = False"
| "accepts_direction SpectrumWave = True"

datatype effect_speed = Slowest | Slower | Normal | Faster | Fastest

definition speed_all :: "effect_speed list" where
  "speed_all = [Slowest, Slower, Normal, Faster, Fastest]"

fun speed_key :: "effect_speed \<Rightarrow> string" where
  "speed_key Slowest = ''slowest''"
| "speed_key Slower = ''slower''"
| "speed_key Normal = ''normal''"
| "speed_key Faster = ''faster''"
| "speed_key Fastest = ''fastest''"

fun speed_label :: "effect_speed \<Rightarrow> string" where
  "speed_label Slowest = ''Slowest''"
| "speed_label Slower = ''Slower''"
| "speed_label Normal = ''Normal''"
| "speed_label Faster = ''Faster''"
| "speed_label Fastest = ''Fastest''"

definition speed_from_key :: "string \<Rightarrow> effect_speed option" where
  "speed_from_key k = (if k = ''slowest'' then Some Slowest else if k = ''slower'' then Some Slower
    else if k = ''normal'' then Some Normal else if k = ''faster'' then Some Faster
    else if k = ''fastest'' then Some Fastest else None)"

fun speed_index :: "effect_speed \<Rightarrow> nat" where
  "speed_index Slowest = 0"
| "speed_index Slower = 1"
| "speed_index Normal = 2"
| "speed_index Faster = 3"
| "speed_index Fastest = 4"

datatype effect_direction = Forward | Backward

definition direction_all :: "effect_direction list" where "direction_all = [Forward, Backward]"

fun direction_key :: "effect_direction \<Rightarrow> string" where
  "direction_key Forward = ''forward''"
| "direction_key Backward = ''backward''"

fun direction_label :: "effect_direction \<Rightarrow> string" where
  "direction_label Forward = ''Forward''"
| "direction_label Backward = ''Backward''"

definition direction_from_key :: "string \<Rightarrow> effect_direction option" where
  "direction_from_key k = (if k = ''forward'' then Some Forward
    else if k = ''backward'' then Some Backward else None)"

interpretation effect: wire_enum effect_all effect_key effect_from_key
proof
  fix v :: lighting_effect and k
  show "v \<in> set effect_all" by (cases v) (simp_all add: effect_all_def)
  show "distinct (map effect_key effect_all)" by (simp add: effect_all_def)
  show "effect_from_key k = lookup_key effect_key effect_all k"
    by (simp add: effect_from_key_def lookup_key_def effect_all_def)
qed

interpretation speed: wire_enum speed_all speed_key speed_from_key
proof
  fix v :: effect_speed and k
  show "v \<in> set speed_all" by (cases v) (simp_all add: speed_all_def)
  show "distinct (map speed_key speed_all)" by (simp add: speed_all_def)
  show "speed_from_key k = lookup_key speed_key speed_all k"
    by (simp add: speed_from_key_def lookup_key_def speed_all_def)
qed

interpretation direction: wire_enum direction_all direction_key direction_from_key
proof
  fix v :: effect_direction and k
  show "v \<in> set direction_all" by (cases v) (simp_all add: direction_all_def)
  show "distinct (map direction_key direction_all)" by (simp add: direction_all_def)
  show "direction_from_key k = lookup_key direction_key direction_all k"
    by (simp add: direction_from_key_def lookup_key_def direction_all_def)
qed

text \<open>The firmware's numbering is the position in \<open>ALL\<close>.\<close>

lemma speed_index_position: "speed_all ! speed_index s = s" "speed_index s < length speed_all"
  by (cases s; simp add: speed_all_def)+

section \<open>Programs and their validation\<close>

datatype lighting_program =
    LightOff
  | LightFixed rgb brightness
  | LightEffect lighting_effect "rgb list" brightness effect_speed effect_direction

definition required_capability :: "lighting_program \<Rightarrow> capability_id" where
  "required_capability p = (case p of LightEffect _ _ _ _ _ \<Rightarrow> RgbEffects | _ \<Rightarrow> RgbFixedColor)"

definition lighting_summary :: "lighting_program \<Rightarrow> string" where
  "lighting_summary p = (case p of
      LightOff \<Rightarrow> ''off''
    | LightFixed c b \<Rightarrow> ''fixed #'' @ to_hex c @ '' at '' @ show_nat (unat (percent b)) @ ''%''
    | LightEffect e _ _ s d \<Rightarrow>
        if accepts_direction e
        then effect_label e @ '' at '' @ to_lowercase (speed_label s) @ '' speed, '' @
          to_lowercase (direction_label d)
        else effect_label e @ '' at '' @ to_lowercase (speed_label s) @ '' speed'')"

record lighting_command =
  lc_channel :: u8
  lc_program :: lighting_program

definition validate_lighting_program :: "lighting_program \<Rightarrow> lighting_error + unit" where
  "validate_lighting_program p = (case p of
      LightOff \<Rightarrow> Inr ()
    | LightFixed _ _ \<Rightarrow> Inr ()
    | LightEffect effect colors _ _ direction \<Rightarrow>
        (let (mn, mx) = color_range effect in
         if \<not> (mn \<le> length colors \<and> length colors \<le> mx)
         then Inl (ColorCount (effect_label effect) mn mx (length colors))
         else if direction \<noteq> Forward \<and> \<not> accepts_direction effect
         then Inl (DirectionUnsupported (effect_label effect))
         else Inr ()))"

definition validate_command :: "lighting_command \<Rightarrow> u8 \<Rightarrow> lighting_error + unit" where
  "validate_command c available =
    (if lc_channel c = 0 \<or> available < lc_channel c
     then Inl (ChannelUnknown (lc_channel c) available)
     else validate_lighting_program (lc_program c))"

section \<open>What the values promise\<close>

lemma brightness_new_ok: "brightness_new p = Inr b \<Longrightarrow> brightness_ok b \<and> percent b = p"
  by (auto simp: brightness_new_def brightness_ok_def split: if_splits)

lemma brightness_new_Inr_iff: "brightness_new p = Inr b \<longleftrightarrow> p \<le> 100 \<and> b = Brightness p"
  by (auto simp: brightness_new_def MAX_BRIGHTNESS_def not_less)

lemma scale_channel_exact:
  assumes "brightness_ok b"
  shows "unat (scale_channel b c) = unat c * unat (percent b) div 100"
proof -
  have p: "unat (percent b) \<le> 100"
    using assms by (simp add: brightness_ok_def MAX_BRIGHTNESS_def word_le_nat_alt)
  have le: "unat c * unat (percent b) \<le> 255 * 100"
    by (rule mult_le_mono) (simp_all add: p)
  have m: "unat (ucast c * ucast (percent b) :: u16) = unat c * unat (percent b)"
    using le by (simp add: unat_word_ariths)
  have h: "unat (ucast MAX_BRIGHTNESS :: u16) = 100"
    by (simp add: MAX_BRIGHTNESS_def)
  have d: "unat ((ucast c * ucast (percent b) :: u16) div ucast MAX_BRIGHTNESS) =
      unat c * unat (percent b) div 100"
    by (simp only: unat_div m h)
  have "unat c * unat (percent b) div 100 < 256" using le by simp
  then show ?thesis
    unfolding scale_channel_def using d by (simp add: unsigned_ucast_eq take_bit_nat_eq_self_iff)
qed

lemma scale_channel_le: "brightness_ok b \<Longrightarrow> scale_channel b c \<le> c"
proof -
  assume b: "brightness_ok b"
  then have "unat (percent b) \<le> 100"
    by (simp add: brightness_ok_def MAX_BRIGHTNESS_def word_le_nat_alt)
  then have "unat c * unat (percent b) div 100 \<le> unat c * 100 div 100"
    by (intro div_le_mono mult_le_mono) simp_all
  with b show ?thesis by (simp add: word_le_nat_alt scale_channel_exact)
qed

lemma scaled_full [simp]: "scaled c BRIGHTNESS_FULL = c"
proof -
  have "scale_channel BRIGHTNESS_FULL x = x" for x
    by (rule word_unat_eq_iff [THEN iffD2], subst scale_channel_exact)
      (simp_all add: brightness_ok_def BRIGHTNESS_FULL_def MAX_BRIGHTNESS_def)
  then show ?thesis by (cases c) (simp add: scaled_def)
qed

lemma scaled_off [simp]: "scaled c BRIGHTNESS_OFF = BLACK"
proof -
  have "scale_channel BRIGHTNESS_OFF x = 0" for x
    by (rule word_unat_eq_iff [THEN iffD2], subst scale_channel_exact)
      (simp_all add: brightness_ok_def BRIGHTNESS_OFF_def MAX_BRIGHTNESS_def)
  then show ?thesis by (simp add: scaled_def BLACK_def)
qed

lemma validate_lighting_program_iff:
  "validate_lighting_program p = Inr () \<longleftrightarrow>
    (case p of
      LightEffect Breathing cs _ _ d \<Rightarrow> 1 \<le> length cs \<and> length cs \<le> 8 \<and> d = Forward
    | LightEffect SpectrumWave cs _ _ _ \<Rightarrow> cs = []
    | _ \<Rightarrow> True)"
  by (auto simp: validate_lighting_program_def Let_def
      split: lighting_program.splits lighting_effect.splits)

lemma validate_command_iff:
  "validate_command c n = Inr () \<longleftrightarrow>
    1 \<le> unat (lc_channel c) \<and> lc_channel c \<le> n \<and> validate_lighting_program (lc_program c) = Inr ()"
  by (auto simp: validate_command_def not_less unat_gt_0 Suc_le_eq)

section \<open>Round trip of the hexadecimal form\<close>

definition hex_digits :: "rgb \<Rightarrow> nat list" where
  "hex_digits c = [unat (rgb_r c) div 16, unat (rgb_r c) mod 16, unat (rgb_g c) div 16,
    unat (rgb_g c) mod 16, unat (rgb_b c) div 16, unat (rgb_b c) mod 16]"

lemma to_hex_digits: "to_hex c = map digit_char_upper (hex_digits c)"
  by (simp add: to_hex_def hex2_upper_def hex_digits_def)

lemma hex_digits_less: "d \<in> set (hex_digits c) \<Longrightarrow> d < 16"
  by (auto simp: hex_digits_def intro!: less_mult_imp_div_less)

lemma digit_char_upper_not_special:
  "d < 16 \<Longrightarrow> digit_char_upper d \<noteq> CHR ''+'' \<and> digit_char_upper d \<noteq> CHR ''-''
    \<and> digit_char_upper d \<noteq> CHR ''#''"
proof -
  assume d: "d < 16"
  then have "byte (digit_char_upper d) \<noteq> 43" "byte (digit_char_upper d) \<noteq> 45"
    "byte (digit_char_upper d) \<noteq> 35"
    by (auto simp: digit_char_upper_def byte_char_of)
  moreover have "byte (CHR ''+'') = 43" "byte (CHR ''-'') = 45" "byte (CHR ''#'') = 35"
    by (simp_all add: byte_def)
  ultimately show ?thesis by metis
qed

definition hex_value :: "rgb \<Rightarrow> nat" where
  "hex_value c = unat (rgb_r c) * 65536 + unat (rgb_g c) * 256 + unat (rgb_b c)"

lemma hex_digits_value: "foldl (\<lambda>a d. a * 16 + d) 0 (hex_digits c) = hex_value c"
proof -
  have "16 * (unat (rgb_r c) div 16) + unat (rgb_r c) mod 16 = unat (rgb_r c)"
    "16 * (unat (rgb_g c) div 16) + unat (rgb_g c) mod 16 = unat (rgb_g c)"
    "16 * (unat (rgb_b c) div 16) + unat (rgb_b c) mod 16 = unat (rgb_b c)"
    by (rule mult_div_mod_eq)+
  then show ?thesis unfolding hex_digits_def hex_value_def by simp
qed

lemma hex_value_parts:
  "hex_value c div 65536 mod 256 = unat (rgb_r c)"
  "hex_value c div 256 mod 256 = unat (rgb_g c)"
  "hex_value c mod 256 = unat (rgb_b c)"
proof -
  have l: "unat (rgb_r c) < 256" "unat (rgb_g c) < 256" "unat (rgb_b c) < 256" by simp_all
  have "unat (rgb_g c) * 256 + unat (rgb_b c) < 65536" using l by linarith
  then have "hex_value c div 65536 = unat (rgb_r c)"
    unfolding hex_value_def by (simp add: add.assoc)
  then show "hex_value c div 65536 mod 256 = unat (rgb_r c)" by simp
  have gen: "(b + 256 * k) div 256 = k" "(b + 256 * k) mod 256 = b" if "b < 256" for b k :: nat
    using that by simp_all
  have e: "hex_value c = unat (rgb_b c) + 256 * (unat (rgb_r c) * 256 + unat (rgb_g c))"
    by (simp add: hex_value_def)
  show "hex_value c div 256 mod 256 = unat (rgb_g c)"
    unfolding e gen(1) [OF l(3)] by simp
  show "hex_value c mod 256 = unat (rgb_b c)"
    unfolding e by (rule gen(2) [OF l(3)])
qed

lemma parse_unsigned_to_hex: "parse_unsigned 16 (2 ^ 32 - 1) (to_hex c) = Some (hex_value c)"
proof -
  have "hex_value c \<le> 255 * 65536 + 255 * 256 + 255"
    unfolding hex_value_def by (intro add_mono mult_le_mono) simp_all
  then have "hex_value c \<le> 2 ^ 32 - 1" by simp
  then have p: "parse_digits 16 (2 ^ 32 - 1) 0 (to_hex c) = Some (hex_value c)"
    unfolding to_hex_digits
    by (subst parse_digits_map)
      (auto simp: hex_digits_value to_digit_digit_char_upper dest: hex_digits_less)
  have "hd (to_hex c) \<noteq> CHR ''+''"
    using digit_char_upper_not_special [of "hd (hex_digits c)"] hex_digits_less [of "hd (hex_digits c)" c]
    by (simp add: to_hex_digits hex_digits_def)
  with p show ?thesis
    by (simp add: parse_unsigned_def to_hex_digits hex_digits_def del: parse_digits.simps)
qed

text \<open>Whatever is stripped around it, text that comes down to the six digits is that color.\<close>

lemma parse_hex_core:
  assumes "dropWhile (\<lambda>c. c = CHR ''#'') (trim s) = to_hex c"
  shows "parse_hex s = Inr c"
  using assms unfolding parse_hex_def
  by (simp add: HEX_COLOR_DIGITS_def to_hex_digits hex_digits_def parse_unsigned_to_hex
      [unfolded to_hex_digits hex_digits_def, simplified] hex_value_parts)

lemma to_hex_graphic: "\<forall>x \<in> set (to_hex c). ascii_graphic x"
  by (auto simp: to_hex_digits intro!: graphic_digit_upper dest: hex_digits_less)

lemma to_hex_no_hash: "dropWhile (\<lambda>x. x = CHR ''#'') (to_hex c) = to_hex c"
  using digit_char_upper_not_special [of "hd (hex_digits c)"] hex_digits_less [of "hd (hex_digits c)" c]
  by (simp add: to_hex_digits hex_digits_def)

text \<open>The form a stored or typed color takes is read back as the color it was written from,
  with or without the leading \<open>#\<close> the screen shows: \<open>parse_hex\<close> inverts \<open>to_hex\<close> on every color.\<close>

theorem parse_hex_to_hex: "parse_hex (to_hex c) = Inr c \<and> parse_hex (CHR ''#'' # to_hex c) = Inr c"
proof
  show "parse_hex (to_hex c) = Inr c"
    by (rule parse_hex_core) (simp add: trim_graphic [OF to_hex_graphic] to_hex_no_hash)
  have "\<forall>x \<in> set (CHR ''#'' # to_hex c). ascii_graphic x"
    using to_hex_graphic by (simp add: ascii_graphic_def byte_def)
  then show "parse_hex (CHR ''#'' # to_hex c) = Inr c"
    by (intro parse_hex_core) (simp add: trim_graphic to_hex_no_hash)
qed

section \<open>Mixing\<close>

lemma f32_of_u8: "f32_of_u8 b = F32 (of_int (uint b))"
  unfolding f32_of_u8_def using uint_bounded [of b] uint_ge_0 [of b]
  by (intro f32_of_int_exact) simp

lemma mix_channel_between_aux:
  fixes lo hi :: int
  assumes "lo = min (uint p) (uint q)" "hi = max (uint p) (uint q)" "0 \<le> a" "a \<le> 1"
  shows "\<exists>i. mix_channel (F32 a) p q = word_of_int i \<and> lo \<le> i \<and> i \<le> hi"
proof -
  define d where "d = uint q - uint p"
  have b: "0 \<le> uint p" "uint p < 256" "0 \<le> uint q" "uint q < 256"
    using uint_bounded [of p] uint_bounded [of q] by simp_all
  have d255: "\<bar>d\<bar> \<le> 255" using b unfolding d_def by linarith
  have sub: "f32_sub (f32_of_u8 q) (f32_of_u8 p) = F32 (of_int d)"
  proof -
    have "\<bar>d\<bar> \<le> 2 ^ 24" using d255 by simp
    then show ?thesis
      using f32_of_int_exact [of d] by (simp add: f32_of_u8 f32_arith_simps d_def f32_of_int_def)
  qed
  define m where "m = round_sig (of_int d * a)"
  have "of_int (min 0 d) \<le> of_int d * a" "of_int d * a \<le> of_int (max 0 d)"
    using assms(3,4) by (cases "0 \<le> d"; simp add: mult_left_le mult_nonneg_nonneg
        mult_nonpos_nonneg mult_le_cancel_left1)+
  moreover have d24: "\<bar>min 0 d\<bar> \<le> 2 ^ 24" "\<bar>max 0 d\<bar> \<le> 2 ^ 24"
    using d255 by (cases "0 \<le> d"; simp)+
  ultimately have m: "f32_round (of_int d * a) = F32 m" "of_int (min 0 d) \<le> m" "m \<le> of_int (max 0 d)"
    using f32_round_bounded [of "min 0 d" "max 0 d" "of_int d * a"] by (auto simp: m_def)
  define s where "s = round_sig (of_int (uint p) + m)"
  have sm: "of_int lo \<le> of_int (uint p) + m" "of_int (uint p) + m \<le> of_int hi"
    using m(2,3) assms(1,2) by (auto simp: d_def min_def max_def split: if_splits)
  have lh: "\<bar>lo\<bar> \<le> 2 ^ 24" "\<bar>hi\<bar> \<le> 2 ^ 24" "0 \<le> lo" "hi \<le> 255"
    using b assms(1,2) by (auto simp: min_def max_def)
  have s: "f32_round (of_int (uint p) + m) = F32 s" "of_int lo \<le> s" "s \<le> of_int hi"
    using f32_round_bounded [OF lh(1,2) sm] by (auto simp: s_def)
  have r: "lo \<le> round_away s" "round_away s \<le> hi"
    using round_away_mono [OF s(2)] round_away_mono [OF s(3)] by simp_all
  have "mix_channel (F32 a) p q = word_of_int (round_away s)"
    unfolding mix_channel_def sub f32_arith_simps m(1)
    unfolding f32_of_u8 f32_arith_simps s(1) f32_as_u8_def f32_to_int_of_int
    using r lh by simp
  with r show ?thesis by blast
qed

lemma mix_channel_between:
  assumes "0 \<le> a" "a \<le> 1"
  shows "min p q \<le> mix_channel (F32 a) p q" "mix_channel (F32 a) p q \<le> max p q"
proof -
  obtain i where i: "mix_channel (F32 a) p q = word_of_int i"
    "min (uint p) (uint q) \<le> i" "i \<le> max (uint p) (uint q)"
    using mix_channel_between_aux [OF refl refl assms] by blast
  have "0 \<le> i" "i < 2 ^ 8"
    using i(2,3) uint_bounded [of p] uint_bounded [of q] uint_ge_0 [of p] uint_ge_0 [of q]
    by (simp_all only: min_def max_def len_of_numeral_defs split: if_splits) simp_all
  then have "uint (mix_channel (F32 a) p q) = i"
    by (simp add: i(1) uint_word_of_int)
  with i(2,3) show "min p q \<le> mix_channel (F32 a) p q" "mix_channel (F32 a) p q \<le> max p q"
    by (auto simp: word_le_def min_def max_def split: if_splits)
qed

section \<open>What the color properties state\<close>

text \<open>Mixing stays between the two colors: for every amount from 0 to 1, in binary32 with its
  roundings, each channel of \<open>mixed\<close> lies between the channels it was asked to move from and to.\<close>

theorem mixed_between:
  assumes "0 \<le> a" "a \<le> 1"
  shows "min (rgb_r c) (rgb_r t) \<le> rgb_r (mixed c t (F32 a)) \<and>
    rgb_r (mixed c t (F32 a)) \<le> max (rgb_r c) (rgb_r t) \<and>
    min (rgb_g c) (rgb_g t) \<le> rgb_g (mixed c t (F32 a)) \<and>
    rgb_g (mixed c t (F32 a)) \<le> max (rgb_g c) (rgb_g t) \<and>
    min (rgb_b c) (rgb_b t) \<le> rgb_b (mixed c t (F32 a)) \<and>
    rgb_b (mixed c t (F32 a)) \<le> max (rgb_b c) (rgb_b t)"
  using mix_channel_between [OF assms] unfolding mixed_def by simp

theorem mixed_between_witness:
  "0 \<le> (1 / 2 :: rat) \<and> (1 / 2 :: rat) \<le> 1 \<and>
    min 10 200 \<le> rgb_r (mixed (Rgb 10 0 7) (Rgb 200 255 7) (F32 (1 / 2))) \<and>
    rgb_b (mixed (Rgb 10 0 7) (Rgb 200 255 7) (F32 (1 / 2))) \<le> 7"
  using mixed_between [of "1 / 2" "Rgb 10 0 7" "Rgb 200 255 7"] by simp

text \<open>What the parser accepts against what its refusal says. The refusal of a bad digit states
  that only 0-9 and A-F are accepted, but six bytes made of a plus sign and five digits are read as
  a color, because the radix parser takes a leading sign; and any number of leading hash signs is
  stripped, not one.\<close>

theorem parse_hex_accepts_sign:
  "parse_hex ''+7C5CF'' = Inr (Rgb 7 0xC5 0xCF) \<and> parse_hex ''###7C5CFF'' = Inr (Rgb 0x7C 0x5C 0xFF)
    \<and> parse_hex ''-7C5CF'' = Inl (ColorAlphabet ''-7C5CF'')"
proof -
  have t: "trim ''+7C5CF'' = ''+7C5CF''" "trim ''###7C5CFF'' = ''###7C5CFF''"
    "trim ''-7C5CF'' = ''-7C5CF''"
    by (rule trim_graphic, simp add: ascii_graphic_def byte_def)+
  show ?thesis
    by (simp add: parse_hex_def t HEX_COLOR_DIGITS_def parse_unsigned_def to_digit_def byte_def Let_def)
qed

text \<open>The exact set of lighting commands that pass: the channel is one the controller reported,
  counted from 1, and an effect carries as many colors as the firmware takes and a direction only
  where the firmware honors one. Everything else is an error, and the channel is checked first.\<close>

theorem validate_command_accepts_iff:
  "validate_command c n = Inr () \<longleftrightarrow>
    1 \<le> unat (lc_channel c) \<and> unat (lc_channel c) \<le> unat n \<and>
    (case lc_program c of
      LightOff \<Rightarrow> True
    | LightFixed _ _ \<Rightarrow> True
    | LightEffect Breathing cs _ _ d \<Rightarrow> 1 \<le> length cs \<and> length cs \<le> 8 \<and> d = Forward
    | LightEffect SpectrumWave cs _ _ _ \<Rightarrow> cs = [])"
  by (auto simp: validate_command_iff validate_lighting_program_iff word_le_nat_alt
      split: lighting_program.splits lighting_effect.splits)

end
