(* ===== verification/Telemetry.thy ===== *)
theory Telemetry
  imports Lighting
begin

text \<open>
  \<open>crates/core/src/telemetry.rs\<close>: what a sample is worth and what one pass of the collectors
  produced. A missing reading is never a zero: a \<open>reading\<close> is \<open>Valid\<close> with a value or carries the
  typed cause. The cooling \<open>channel\<close> of \<open>profile.rs\<close> is declared here because both this component
  and the profiles are indexed by it.
\<close>

section \<open>Channels and collectors\<close>

datatype channel = Pump | Fan

fun channel_label :: "channel \<Rightarrow> string" where
  "channel_label Pump = ''Pump''"
| "channel_label Fan = ''Fan''"

definition MIN_PUMP_DUTY :: u8 where "MIN_PUMP_DUTY = 51"
definition MIN_FAN_DUTY :: u8 where "MIN_FAN_DUTY = 0"
definition MAX_DUTY :: u8 where "MAX_DUTY = 255"

fun min_duty :: "channel \<Rightarrow> u8" where
  "min_duty Pump = MIN_PUMP_DUTY"
| "min_duty Fan = MIN_FAN_DUTY"

fun duty_capability :: "channel \<Rightarrow> capability_id" where
  "duty_capability Pump = PumpDuty"
| "duty_capability Fan = FanDuty"

fun curve_capability :: "channel \<Rightarrow> capability_id" where
  "curve_capability Pump = PumpCurve"
| "curve_capability Fan = FanCurve"

datatype collector = Kraken | Cpu | Gpu | Memory

fun collector_label :: "collector \<Rightarrow> string" where
  "collector_label Kraken = ''Kraken''"
| "collector_label Cpu = ''CPU''"
| "collector_label Gpu = ''GPU''"
| "collector_label Memory = ''Memory''"

fun channel_rank :: "channel \<Rightarrow> nat" where
  "channel_rank Pump = 0"
| "channel_rank Fan = 1"

fun collector_rank :: "collector \<Rightarrow> nat" where
  "collector_rank Kraken = 0"
| "collector_rank Cpu = 1"
| "collector_rank Gpu = 2"
| "collector_rank Memory = 3"

lemma channel_rank_inj: "channel_rank a = channel_rank b \<Longrightarrow> a = b"
  by (cases a; cases b) simp_all

lemma collector_rank_inj: "collector_rank a = collector_rank b \<Longrightarrow> a = b"
  by (cases a; cases b) simp_all

text \<open>The derived orders, which are the orders of the maps keyed by these enums.\<close>

instantiation channel :: linorder
begin

definition less_eq_channel :: "channel \<Rightarrow> channel \<Rightarrow> bool" where
  "less_eq_channel a b = (channel_rank a \<le> channel_rank b)"

definition less_channel :: "channel \<Rightarrow> channel \<Rightarrow> bool" where
  "less_channel a b = (channel_rank a < channel_rank b)"

instance
  by standard (auto simp: less_eq_channel_def less_channel_def intro: channel_rank_inj)

end

instantiation collector :: linorder
begin

definition less_eq_collector :: "collector \<Rightarrow> collector \<Rightarrow> bool" where
  "less_eq_collector a b = (collector_rank a \<le> collector_rank b)"

definition less_collector :: "collector \<Rightarrow> collector \<Rightarrow> bool" where
  "less_collector a b = (collector_rank a < collector_rank b)"

instance
  by standard (auto simp: less_eq_collector_def less_collector_def intro: collector_rank_inj)

end

definition CHANNELS :: "channel list" where "CHANNELS = [Pump, Fan]"
definition COLLECTORS :: "collector list" where "COLLECTORS = [Kraken, Cpu, Gpu, Memory]"

lemma set_CHANNELS [simp]: "set CHANNELS = UNIV"
  using channel.exhaust by (auto simp: CHANNELS_def)

lemma set_COLLECTORS [simp]: "set COLLECTORS = UNIV"
  using collector.exhaust by (auto simp: COLLECTORS_def)

lemma sorted_CHANNELS: "sorted CHANNELS" "distinct CHANNELS"
  by (simp_all add: CHANNELS_def less_eq_channel_def)

lemma sorted_COLLECTORS: "sorted COLLECTORS" "distinct COLLECTORS"
  by (simp_all add: COLLECTORS_def less_eq_collector_def)

section \<open>Readings\<close>

datatype unavailable = Absent string | Unreadable string | Unparsable string | NoDevice string

fun unavailable_detail :: "unavailable \<Rightarrow> string" where
  "unavailable_detail (Absent d) = d"
| "unavailable_detail (Unreadable d) = d"
| "unavailable_detail (Unparsable d) = d"
| "unavailable_detail (NoDevice d) = d"

datatype 'a reading = Valid 'a | NoReading unavailable

definition reading_value :: "'a reading \<Rightarrow> 'a option" where
  "reading_value r = (case r of Valid v \<Rightarrow> Some v | NoReading _ \<Rightarrow> None)"

definition reading_map :: "('a \<Rightarrow> 'b) \<Rightarrow> 'a reading \<Rightarrow> 'b reading" where
  "reading_map f r = (case r of Valid v \<Rightarrow> Valid (f v) | NoReading c \<Rightarrow> NoReading c)"

definition reading_cause :: "'a reading \<Rightarrow> unavailable option" where
  "reading_cause r = (case r of Valid _ \<Rightarrow> None | NoReading c \<Rightarrow> Some c)"

definition reading_is_valid :: "'a reading \<Rightarrow> bool" where
  "reading_is_valid r = (case r of Valid _ \<Rightarrow> True | NoReading _ \<Rightarrow> False)"

lemma reading_simps [simp]:
  "reading_value (Valid v) = Some v" "reading_value (NoReading c) = None"
  "reading_map f (Valid v) = Valid (f v)" "reading_map f (NoReading c) = NoReading c"
  "reading_cause (Valid v) = None" "reading_cause (NoReading c) = Some c"
  "reading_is_valid (Valid v)" "\<not> reading_is_valid (NoReading c)"
  by (simp_all add: reading_value_def reading_map_def reading_cause_def reading_is_valid_def)

text \<open>A gap survives a conversion as the same gap.\<close>

lemma reading_map_gap: "reading_cause (reading_map f r) = reading_cause r"
  by (cases r) simp_all

definition clamp_percent :: "f32 \<Rightarrow> f32 option" where
  "clamp_percent v = (if f32_is_finite v then Some (f32_clamp v (F32 0) (F32 100)) else None)"

definition reading_percent :: "f32 \<Rightarrow> string \<Rightarrow> f32 reading" where
  "reading_percent v measured = (case clamp_percent v of
      Some p \<Rightarrow> Valid p
    | None \<Rightarrow> NoReading (Unparsable (measured @ '' did not resolve to a finite percentage.'')))"

lemma clamp_percent_cases:
  "clamp_percent (F32 x) = Some (F32 (min 100 (max 0 x)))"
  "clamp_percent F32_NaN = None" "clamp_percent (F32_Inf s) = None"
  by (auto simp: clamp_percent_def f32_is_finite_def f32_arith_simps)

lemma clamp_percent_range:
  "clamp_percent v = Some p \<Longrightarrow> \<exists>x. p = F32 x \<and> 0 \<le> x \<and> x \<le> 100"
  by (cases v) (auto simp: clamp_percent_cases)

datatype pwm_mode = FullSpeed | PwmFixed | PwmCurve

definition pwm_from_kernel :: "u8 \<Rightarrow> pwm_mode option" where
  "pwm_from_kernel v = (if v = 0 then Some FullSpeed else if v = 1 then Some PwmFixed
    else if v = 2 then Some PwmCurve else None)"

fun pwm_to_kernel :: "pwm_mode \<Rightarrow> u8" where
  "pwm_to_kernel FullSpeed = 0"
| "pwm_to_kernel PwmFixed = 1"
| "pwm_to_kernel PwmCurve = 2"

fun pwm_label :: "pwm_mode \<Rightarrow> string" where
  "pwm_label FullSpeed = ''100% failsafe''"
| "pwm_label PwmFixed = ''Fixed''"
| "pwm_label PwmCurve = ''Curve''"

lemma pwm_from_kernel_iff: "pwm_from_kernel v = Some m \<longleftrightarrow> v = pwm_to_kernel m"
  by (cases m) (auto simp: pwm_from_kernel_def)

section \<open>Sections of one pass\<close>

record channel_telemetry =
  ct_channel :: channel
  ct_rpm :: "u32 reading"
  ct_duty :: "u8 reading"
  ct_mode :: "pwm_mode reading"

definition channel_telemetry_unavailable :: "channel \<Rightarrow> unavailable \<Rightarrow> channel_telemetry" where
  "channel_telemetry_unavailable ch cause =
    \<lparr>ct_channel = ch, ct_rpm = NoReading cause, ct_duty = NoReading cause,
     ct_mode = NoReading cause\<rparr>"

definition duty_percent :: "channel_telemetry \<Rightarrow> f32 option" where
  "duty_percent t = map_option (\<lambda>d. f32_mul (f32_div (f32_of_u8 d) (F32 255)) (F32 100))
    (reading_value (ct_duty t))"

record kraken_telemetry =
  kt_at_unix_ms :: u64
  kt_present :: bool
  kt_liquid_temperature_c :: "f32 reading"
  kt_pump :: channel_telemetry
  kt_fan :: channel_telemetry

definition kraken_absent :: "u64 \<Rightarrow> unavailable \<Rightarrow> kraken_telemetry" where
  "kraken_absent stamp cause =
    \<lparr>kt_at_unix_ms = stamp, kt_present = False, kt_liquid_temperature_c = NoReading cause,
     kt_pump = channel_telemetry_unavailable Pump cause,
     kt_fan = channel_telemetry_unavailable Fan cause\<rparr>"

definition kraken_channel :: "kraken_telemetry \<Rightarrow> channel \<Rightarrow> channel_telemetry" where
  "kraken_channel t ch = (case ch of Pump \<Rightarrow> kt_pump t | Fan \<Rightarrow> kt_fan t)"

record memory_usage =
  mu_used_bytes :: u64
  mu_total_bytes :: u64

definition memory_percent :: "memory_usage \<Rightarrow> f32 option" where
  "memory_percent m = (if mu_total_bytes m = 0 then None
    else clamp_percent (f32_mul (f32_div (f32_of_int (uint (mu_used_bytes m)))
      (f32_of_int (uint (mu_total_bytes m)))) (F32 100)))"

record gpu_telemetry =
  gt_at_unix_ms :: u64
  gt_source :: string
  gt_name :: "string reading"
  gt_load_percent :: "f32 reading"
  gt_temperature_c :: "f32 reading"

definition gpu_unavailable :: "u64 \<Rightarrow> unavailable \<Rightarrow> gpu_telemetry" where
  "gpu_unavailable stamp cause =
    \<lparr>gt_at_unix_ms = stamp, gt_source = ''unavailable'', gt_name = NoReading cause,
     gt_load_percent = NoReading cause, gt_temperature_c = NoReading cause\<rparr>"

record system_telemetry =
  st_at_unix_ms :: u64
  st_cpu_load_percent :: "f32 reading"
  st_cpu_temperature_c :: "f32 reading"
  st_memory :: "memory_usage reading"

definition system_unavailable :: "u64 \<Rightarrow> unavailable \<Rightarrow> system_telemetry" where
  "system_unavailable stamp cause =
    \<lparr>st_at_unix_ms = stamp, st_cpu_load_percent = NoReading cause,
     st_cpu_temperature_c = NoReading cause, st_memory = NoReading cause\<rparr>"

record collector_failure =
  cf_collector :: collector
  cf_detail :: string

text \<open>\<open>SafetyAlert\<close> of \<open>telemetry/alerts.rs\<close>; the tracker that raises them is in \<open>Alerts\<close>.\<close>

datatype safety_alert =
    LiquidCritical f32 f32
  | ChannelStalled channel u8 u8 u32

definition alert_channel :: "safety_alert \<Rightarrow> channel option" where
  "alert_channel a = (case a of LiquidCritical _ _ \<Rightarrow> None | ChannelStalled c _ _ _ \<Rightarrow> Some c)"

record telemetry_snapshot =
  ts_sequence :: u64
  ts_at_unix_ms :: u64
  ts_interval_ms :: u64
  ts_kraken :: kraken_telemetry
  ts_system :: system_telemetry
  ts_gpu :: gpu_telemetry
  ts_alerts :: "safety_alert list"
  ts_failed :: "collector_failure list"

definition SAMPLE_INTERVAL_MS :: u64 where "SAMPLE_INTERVAL_MS = 1000"

definition snapshot_unavailable :: "u64 \<Rightarrow> unavailable \<Rightarrow> telemetry_snapshot" where
  "snapshot_unavailable stamp cause =
    \<lparr>ts_sequence = 0, ts_at_unix_ms = stamp, ts_interval_ms = SAMPLE_INTERVAL_MS,
     ts_kraken = kraken_absent stamp cause, ts_system = system_unavailable stamp cause,
     ts_gpu = gpu_unavailable stamp cause, ts_alerts = [], ts_failed = []\<rparr>"

definition snapshot_age_ms :: "telemetry_snapshot \<Rightarrow> u64 \<Rightarrow> u64" where
  "snapshot_age_ms t now = saturating_sub now (ts_at_unix_ms t)"

definition oldest_section_age_ms :: "telemetry_snapshot \<Rightarrow> u64 \<Rightarrow> u64" where
  "oldest_section_age_ms t now =
    (let ages = map (saturating_sub now)
        [kt_at_unix_ms (ts_kraken t), st_at_unix_ms (ts_system t), gt_at_unix_ms (ts_gpu t)]
     in foldl max (hd ages) (tl ages))"

definition snapshot_failure :: "telemetry_snapshot \<Rightarrow> collector \<Rightarrow> collector_failure option" where
  "snapshot_failure t c = find (\<lambda>f. cf_collector f = c) (ts_failed t)"

lemma oldest_section_age:
  "oldest_section_age_ms t now = saturating_sub now
    (min (kt_at_unix_ms (ts_kraken t)) (min (st_at_unix_ms (ts_system t)) (gt_at_unix_ms (ts_gpu t))))"
  by (rule word_unat_eq_iff [THEN iffD2])
    (auto simp: oldest_section_age_ms_def max_def min_def word_le_nat_alt unat_saturating_sub
      split: if_splits)

end
