(* ===== verification/Alerts.thy ===== *)
theory Alerts
  imports Telemetry
begin

text \<open>
  \<open>crates/core/src/telemetry/alerts.rs\<close>: the state machine over the sample stream. The tracker
  keeps one saturating counter of consecutive zero-RPM samples per channel; \<open>tracker_observe\<close>
  folds one sample in and returns the alerts active now. \<open>stall_streak\<close> is the specification of a
  counter over a whole stream, with unreadable samples neither counted nor breaking the streak.
\<close>

definition LIQUID_CRITICAL_C :: f32 where "LIQUID_CRITICAL_C = F32 60"
definition STALL_SAMPLE_COUNT :: u8 where "STALL_SAMPLE_COUNT = 3"

record alert_tracker =
  pump_zero_samples :: u8
  fan_zero_samples :: u8

definition tracker_new :: alert_tracker where
  "tracker_new = \<lparr>pump_zero_samples = 0, fan_zero_samples = 0\<rparr>"

definition commanded_duty :: "channel_telemetry \<Rightarrow> u8 option" where
  "commanded_duty e = (case reading_value (ct_mode e) of
      None \<Rightarrow> None
    | Some FullSpeed \<Rightarrow> Some 255
    | Some _ \<Rightarrow> reading_value (ct_duty e))"

text \<open>The body of the loop over \<open>[Pump, Fan]\<close> for one counter: its new value and the alert raised.\<close>

definition observe_counter :: "channel \<Rightarrow> u8 \<Rightarrow> channel_telemetry \<Rightarrow> u8 \<times> safety_alert list" where
  "observe_counter ch n e = (case (commanded_duty e, reading_value (ct_rpm e)) of
      (Some duty, Some rpm) \<Rightarrow>
        if rpm = 0 \<and> 0 < duty
        then (let n' = saturating_add n 1 in
              (n', if STALL_SAMPLE_COUNT \<le> n' then [ChannelStalled ch duty n' 0] else []))
        else (0, [])
    | _ \<Rightarrow> (n, []))"

definition liquid_alerts :: "kraken_telemetry \<Rightarrow> safety_alert list" where
  "liquid_alerts t = (case reading_value (kt_liquid_temperature_c t) of
      Some temp \<Rightarrow> if f32_le LIQUID_CRITICAL_C temp
        then [LiquidCritical temp LIQUID_CRITICAL_C] else []
    | None \<Rightarrow> [])"

definition tracker_observe ::
    "alert_tracker \<Rightarrow> kraken_telemetry \<Rightarrow> alert_tracker \<times> safety_alert list" where
  "tracker_observe s t =
    (let (p, pa) = observe_counter Pump (pump_zero_samples s) (kraken_channel t Pump);
         (f, fa) = observe_counter Fan (fan_zero_samples s) (kraken_channel t Fan)
     in (\<lparr>pump_zero_samples = p, fan_zero_samples = f\<rparr>, liquid_alerts t @ pa @ fa))"

definition zero_samples :: "alert_tracker \<Rightarrow> channel \<Rightarrow> u8" where
  "zero_samples s ch = (case ch of Pump \<Rightarrow> pump_zero_samples s | Fan \<Rightarrow> fan_zero_samples s)"

text \<open>A whole stream, oldest sample first.\<close>

fun tracker_run :: "alert_tracker \<Rightarrow> kraken_telemetry list \<Rightarrow> alert_tracker" where
  "tracker_run s [] = s"
| "tracker_run s (t # ts) = tracker_run (fst (tracker_observe s t)) ts"

section \<open>Specification\<close>

datatype sample_class = Stopped u8 | Turning | Unknowable

definition classify :: "channel_telemetry \<Rightarrow> sample_class" where
  "classify e = (case (commanded_duty e, reading_value (ct_rpm e)) of
      (Some duty, Some rpm) \<Rightarrow> if rpm = 0 \<and> 0 < duty then Stopped duty else Turning
    | _ \<Rightarrow> Unknowable)"

text \<open>How many of the most recent readable samples, newest first, show the channel stopped.\<close>

fun stall_streak :: "sample_class list \<Rightarrow> nat" where
  "stall_streak [] = 0"
| "stall_streak (Stopped d # cs) = Suc (stall_streak cs)"
| "stall_streak (Turning # cs) = 0"
| "stall_streak (Unknowable # cs) = stall_streak cs"

lemma observe_counter_classify:
  "observe_counter ch n e = (case classify e of
      Stopped duty \<Rightarrow> (saturating_add n 1,
        if 3 \<le> unat (saturating_add n 1) then [ChannelStalled ch duty (saturating_add n 1) 0] else [])
    | Turning \<Rightarrow> (0, [])
    | Unknowable \<Rightarrow> (n, []))"
  by (auto simp: observe_counter_def classify_def STALL_SAMPLE_COUNT_def word_le_nat_alt Let_def
      split: option.splits)

lemma zero_samples_observe:
  "zero_samples (fst (tracker_observe s t)) ch =
    fst (observe_counter ch (zero_samples s ch) (kraken_channel t ch))"
  by (cases ch) (simp_all add: tracker_observe_def zero_samples_def split: prod.split)

lemma tracker_run_append:
  "tracker_run s (ts @ us) = tracker_run (tracker_run s ts) us"
  by (induction ts arbitrary: s) simp_all

lemma tracker_run_streak:
  "unat (zero_samples (tracker_run tracker_new ts) ch) =
    min 255 (stall_streak (rev (map (\<lambda>t. classify (kraken_channel t ch)) ts)))"
proof (induction ts rule: rev_induct)
  case Nil
  then show ?case by (cases ch) (simp_all add: zero_samples_def tracker_new_def)
next
  case (snoc t ts)
  then show ?case
    by (simp add: tracker_run_append zero_samples_observe observe_counter_classify
        unat_saturating_add min_def split: sample_class.split)
qed

lemma tracker_observe_alerts:
  "snd (tracker_observe s t) = liquid_alerts t @
    snd (observe_counter Pump (pump_zero_samples s) (kraken_channel t Pump)) @
    snd (observe_counter Fan (fan_zero_samples s) (kraken_channel t Fan))"
  by (simp add: tracker_observe_def split_beta)

lemma tracker_observe_stall:
  "ChannelStalled ch duty n rpm \<in> set (snd (tracker_observe s t)) \<longleftrightarrow>
    classify (kraken_channel t ch) = Stopped duty \<and> rpm = 0 \<and>
    n = saturating_add (zero_samples s ch) 1 \<and> 3 \<le> unat n"
  by (cases ch)
    (auto simp: tracker_observe_alerts observe_counter_classify liquid_alerts_def zero_samples_def
      split: sample_class.splits option.splits if_splits)

text \<open>The stall alert of a channel is raised by a sample, after any stream of earlier samples,
  exactly when that sample shows the channel stopped under a nonzero commanded duty and, with it, at
  least three of the latest readable samples in a row do. Samples that could not be read neither
  count nor break the streak, and the count the alert carries is the streak, saturated at 255.\<close>

theorem stall_alert_iff_streak:
  "ChannelStalled ch duty n rpm \<in> set (snd (tracker_observe (tracker_run tracker_new ts) t)) \<longleftrightarrow>
    classify (kraken_channel t ch) = Stopped duty \<and> rpm = 0 \<and>
    unat n = min 255 (stall_streak (rev (map (\<lambda>t. classify (kraken_channel t ch)) (ts @ [t])))) \<and>
    3 \<le> stall_streak (rev (map (\<lambda>t. classify (kraken_channel t ch)) (ts @ [t])))"
  by (auto simp: tracker_observe_stall tracker_run_streak unat_saturating_add word_unat_eq_iff)

text \<open>The liquid alert is raised exactly for a reading of at least 60 degrees, and never for a
  reading that is missing or not a number.\<close>

theorem liquid_alert_iff:
  "LiquidCritical temp threshold \<in> set (snd (tracker_observe s t)) \<longleftrightarrow>
    kt_liquid_temperature_c t = Valid temp \<and> threshold = F32 60 \<and>
    (temp = F32_Inf False \<or> (\<exists>x. temp = F32 x \<and> 60 \<le> x))"
proof -
  have c: "LiquidCritical temp threshold \<notin> set (snd (observe_counter ch n e))" for ch n e
    by (auto simp: observe_counter_classify split: sample_class.splits)
  have le: "f32_le (F32 60) x \<longleftrightarrow> x = F32_Inf False \<or> (\<exists>y. x = F32 y \<and> 60 \<le> y)" for x
    by (cases x) (auto simp: f32_le_def f32_less_def f32_is_nan_def)
  show ?thesis
    by (cases "kt_liquid_temperature_c t")
      (auto simp: tracker_observe_alerts c liquid_alerts_def LIQUID_CRITICAL_C_def le)
qed

end
