(* ===== verification/Metric_View.thy ===== *)
theory Metric_View
  imports Telemetry
begin

text \<open>
  \<open>crates/core/src/telemetry/view.rs\<close>: how a sampled metric presents to a reader. \<open>tracked\<close> keeps
  the last valid value with its stamp and the last failure; \<open>tracked_view\<close> ages it against the
  reader's clock. \<open>history\<close> is the bounded series of a chart. The text formatters of the file, which
  print binary floating point in decimal, are not modelled.
\<close>

definition STALE_AFTER_MS :: u64 where "STALE_AFTER_MS = 2000"
definition DROP_AFTER_MS :: u64 where "DROP_AFTER_MS = 10000"
definition HISTORY_WINDOW_MS :: u64 where "HISTORY_WINDOW_MS = 15 * 60 * 1000"

section \<open>Views\<close>

datatype 'a metric_view = Fresh 'a | Stale 'a u64 | NotAvailable "unavailable option"

definition view_value :: "'a metric_view \<Rightarrow> 'a option" where
  "view_value v = (case v of Fresh x \<Rightarrow> Some x | Stale x _ \<Rightarrow> Some x | NotAvailable _ \<Rightarrow> None)"

definition view_map :: "('a \<Rightarrow> 'b) \<Rightarrow> 'a metric_view \<Rightarrow> 'b metric_view" where
  "view_map f v = (case v of
      Fresh x \<Rightarrow> Fresh (f x)
    | Stale x age \<Rightarrow> Stale (f x) age
    | NotAvailable c \<Rightarrow> NotAvailable c)"

definition view_is_stale :: "'a metric_view \<Rightarrow> bool" where
  "view_is_stale v = (case v of Stale _ _ \<Rightarrow> True | _ \<Rightarrow> False)"

definition view_is_unavailable :: "'a metric_view \<Rightarrow> bool" where
  "view_is_unavailable v = (case v of NotAvailable _ \<Rightarrow> True | _ \<Rightarrow> False)"

definition view_qualifier :: "'a metric_view \<Rightarrow> string option" where
  "view_qualifier v = (case v of
      Fresh _ \<Rightarrow> None
    | Stale _ _ \<Rightarrow> Some ''Stale''
    | NotAvailable _ \<Rightarrow> Some ''N/A'')"

definition view_detail :: "'a metric_view \<Rightarrow> string option" where
  "view_detail v = (case v of
      NotAvailable c \<Rightarrow> map_option unavailable_detail c
    | _ \<Rightarrow> None)"

lemma view_map_freshness:
  "view_qualifier (view_map f v) = view_qualifier v" "view_detail (view_map f v) = view_detail v"
  "view_value (view_map f v) = map_option f (view_value v)"
  by (cases v; simp add: view_qualifier_def view_map_def view_detail_def view_value_def)+

section \<open>Tracked metrics\<close>

record 'a tracked =
  tk_last_valid :: "('a \<times> u64) option"
  tk_cause :: "unavailable option"

definition tracked_new :: "'a tracked" where
  "tracked_new = \<lparr>tk_last_valid = None, tk_cause = None\<rparr>"

definition tracked_observe :: "'a tracked \<Rightarrow> 'a reading \<times> u64 \<Rightarrow> 'a tracked" where
  "tracked_observe s e = (case e of
      (Valid v, stamp) \<Rightarrow>
        if (case tk_last_valid s of Some (_, held) \<Rightarrow> stamp < held | None \<Rightarrow> False) then s
        else s\<lparr>tk_last_valid := Some (v, stamp), tk_cause := None\<rparr>
    | (NoReading cause, stamp) \<Rightarrow> s\<lparr>tk_cause := Some cause\<rparr>)"

definition tracked_view :: "'a tracked \<Rightarrow> u64 \<Rightarrow> 'a metric_view" where
  "tracked_view s now = (case tk_last_valid s of
      None \<Rightarrow> NotAvailable (tk_cause s)
    | Some (v, stamp) \<Rightarrow>
        (let age = saturating_sub now stamp in
         if DROP_AFTER_MS \<le> age then NotAvailable (tk_cause s)
         else if STALE_AFTER_MS \<le> age then Stale v age
         else Fresh v))"

definition tracked_run :: "('a reading \<times> u64) list \<Rightarrow> 'a tracked" where
  "tracked_run es = foldl tracked_observe tracked_new es"

text \<open>What the tracker should hold after a stream: of the valid samples, one with the greatest
  stamp, and of those the last observed.\<close>

fun best_sample :: "('a reading \<times> u64) list \<Rightarrow> ('a \<times> u64) option" where
  "best_sample [] = None"
| "best_sample ((NoReading c, t) # es) = best_sample es"
| "best_sample ((Valid v, t) # es) = (case best_sample es of
      None \<Rightarrow> Some (v, t)
    | Some (w, u) \<Rightarrow> if t < u then Some (w, u) else Some (v, t))"

lemma tracked_run_best: "tk_last_valid (tracked_run es) = best_sample (rev es)"
proof (induction es rule: rev_induct)
  case Nil
  then show ?case by (simp add: tracked_run_def tracked_new_def)
next
  case (snoc e es)
  then show ?case
    by (cases e; cases "fst e")
      (auto simp: tracked_run_def tracked_observe_def split: option.splits)
qed

lemma best_sample_None: "best_sample es = None \<longleftrightarrow> (\<forall>w u. (Valid w, u) \<notin> set es)"
  by (induction es rule: best_sample.induct) (auto split: option.splits)

lemma best_sample_max:
  "best_sample es = Some (v, t) \<Longrightarrow>
    (Valid v, t) \<in> set es \<and> (\<forall>w u. (Valid w, u) \<in> set es \<longrightarrow> u \<le> t)"
proof (induction es arbitrary: v t rule: best_sample.induct)
  case (3 x s es)
  show ?case
  proof (cases "best_sample es")
    case None
    with 3 show ?thesis by (auto simp: best_sample_None)
  next
    case (Some p)
    obtain w u where p: "p = (w, u)" by (cases p)
    have ih: "(Valid w, u) \<in> set es" "\<And>y r. (Valid y, r) \<in> set es \<Longrightarrow> r \<le> u"
      using "3.IH" Some p by auto
    show ?thesis
      using "3.prems" Some p ih(1)
      by (auto split: if_splits simp: not_less dest!: ih(2))
  qed
qed auto

section \<open>The chart series\<close>

record history_point =
  hp_at_unix_ms :: u64
  hp_value :: "f32 option"

record history =
  hi_points :: "history_point list"
  hi_window_ms :: u64

definition history_new :: "u64 \<Rightarrow> history" where
  "history_new window = \<lparr>hi_points = [], hi_window_ms = max window 1\<rparr>"

text \<open>The deque is a list, oldest point first; the loop pops the front while it is too old.\<close>

definition history_push :: "history \<Rightarrow> u64 \<times> f32 option \<Rightarrow> history" where
  "history_push h e = (case e of (stamp, v) \<Rightarrow>
    (if hi_points h \<noteq> [] \<and> stamp < hp_at_unix_ms (last (hi_points h)) then h
     else (let cutoff = saturating_sub stamp (hi_window_ms h) in
       h\<lparr>hi_points := dropWhile (\<lambda>p. hp_at_unix_ms p < cutoff)
         (hi_points h @ [\<lparr>hp_at_unix_ms = stamp, hp_value = v\<rparr>])\<rparr>)))"

definition history_ok :: "u64 \<Rightarrow> history \<Rightarrow> bool" where
  "history_ok window h = (hi_window_ms h = max window 1 \<and>
    sorted (map hp_at_unix_ms (hi_points h)) \<and>
    (hi_points h \<noteq> [] \<longrightarrow>
      (\<forall>p \<in> set (hi_points h).
        unat (hp_at_unix_ms (last (hi_points h))) - unat (hp_at_unix_ms p) \<le> unat (max window 1))))"

lemma dropWhile_sorted_ge:
  assumes "sorted (map f xs)"
  shows "\<forall>x \<in> set (dropWhile (\<lambda>x. f x < (c :: 'b::linorder)) xs). c \<le> f x"
  using assms by (induction xs) (auto simp: not_less intro: order_trans)

lemma sorted_dropWhile_map: "sorted (map f xs) \<Longrightarrow> sorted (map f (dropWhile P xs))"
  by (induction xs) auto

lemma history_push_points:
  assumes "\<not> (hi_points h \<noteq> [] \<and> stamp < hp_at_unix_ms (last (hi_points h)))"
  shows "hi_points (history_push h (stamp, v)) =
    dropWhile (\<lambda>p. hp_at_unix_ms p < saturating_sub stamp (hi_window_ms h))
      (hi_points h @ [\<lparr>hp_at_unix_ms = stamp, hp_value = v\<rparr>])"
  using assms by (auto simp: history_push_def Let_def)

lemma history_push_last:
  assumes "\<not> (hi_points h \<noteq> [] \<and> stamp < hp_at_unix_ms (last (hi_points h)))"
  shows "hi_points (history_push h (stamp, v)) \<noteq> []"
    "last (hi_points (history_push h (stamp, v))) = \<lparr>hp_at_unix_ms = stamp, hp_value = v\<rparr>"
proof -
  have "dropWhile (\<lambda>p. hp_at_unix_ms p < c) (ps @ [q]) \<noteq> [] \<and>
      last (dropWhile (\<lambda>p. hp_at_unix_ms p < c) (ps @ [q])) = q"
    if "\<not> hp_at_unix_ms q < c" for c ps and q :: history_point
    using that by (induction ps) auto
  from this [of "\<lparr>hp_at_unix_ms = stamp, hp_value = v\<rparr>"]
  show "hi_points (history_push h (stamp, v)) \<noteq> []"
    "last (hi_points (history_push h (stamp, v))) = \<lparr>hp_at_unix_ms = stamp, hp_value = v\<rparr>"
    by (simp_all only: history_push_points [OF assms]) (simp_all add: not_less)
qed

lemma history_push_ok:
  assumes "history_ok window h"
  shows "history_ok window (history_push h (stamp, v))"
proof (cases "hi_points h \<noteq> [] \<and> stamp < hp_at_unix_ms (last (hi_points h))")
  case True
  then show ?thesis using assms by (simp add: history_push_def)
next
  case False
  define q where "q = \<lparr>hp_at_unix_ms = stamp, hp_value = v\<rparr>"
  have w: "hi_window_ms h = max window 1" and s: "sorted (map hp_at_unix_ms (hi_points h))"
    using assms by (simp_all add: history_ok_def)
  have sq: "sorted (map hp_at_unix_ms (hi_points h @ [q]))"
  proof -
    have "hp_at_unix_ms p \<le> stamp" if "p \<in> set (hi_points h)" for p
    proof -
      have "hp_at_unix_ms p \<le> hp_at_unix_ms (last (hi_points h))"
        using s that by (cases "hi_points h" rule: rev_cases) (auto simp: sorted_append)
      also have "\<dots> \<le> stamp" using False that by auto
      finally show ?thesis .
    qed
    then show ?thesis using s by (simp add: sorted_append q_def)
  qed
  have pts: "hi_points (history_push h (stamp, v)) =
      dropWhile (\<lambda>p. hp_at_unix_ms p < saturating_sub stamp (hi_window_ms h)) (hi_points h @ [q])"
    using history_push_points [OF False] by (simp add: q_def)
  have "unat stamp - unat (hp_at_unix_ms p) \<le> unat (max window 1)"
    if "p \<in> set (hi_points (history_push h (stamp, v)))" for p
    using dropWhile_sorted_ge [OF sq, of "saturating_sub stamp (max window 1)"] that
    unfolding pts w by (auto dest!: bspec simp: word_le_nat_alt unat_saturating_sub)
  moreover have "hi_window_ms (history_push h (stamp, v)) = max window 1"
    using w False by (auto simp: history_push_def Let_def)
  ultimately show ?thesis
    using history_push_last [OF False, of v] sorted_dropWhile_map [OF sq] pts
    by (simp add: history_ok_def)
qed

interpretation history: fold_invariant "history_new window" history_push "history_ok window"
proof
  show "history_ok window (history_new window)" by (simp add: history_ok_def history_new_def)
  show "history_ok window (history_push h e)" if "history_ok window h" for h e
    using history_push_ok [OF that] by (cases e) simp
qed

definition history_run :: "u64 \<Rightarrow> (u64 \<times> f32 option) list \<Rightarrow> history" where
  "history_run window es = foldl history_push (history_new window) es"

section \<open>What the presentation promises\<close>

text \<open>After any stream of readings, what a readout shows is decided by the valid sample with the
  greatest stamp: current under two seconds of age, stale with its age under ten, and nothing from
  there on or when no sample was ever valid. A failed reading never changes the value shown.\<close>

theorem tracked_view_spec:
  "tracked_view (tracked_run es) now = (case best_sample (rev es) of
      None \<Rightarrow> NotAvailable (tk_cause (tracked_run es))
    | Some (v, t) \<Rightarrow>
        if unat now - unat t < 2000 then Fresh v
        else if unat now - unat t < 10000 then Stale v (word_of_nat (unat now - unat t))
        else NotAvailable (tk_cause (tracked_run es)))"
proof -
  have age: "saturating_sub now t = word_of_nat (unat now - unat t)" for t
    using unat_saturating_sub [of now t] by (metis word_nat_cast_inverse)
  have le: "STALE_AFTER_MS \<le> saturating_sub now t \<longleftrightarrow> 2000 \<le> unat now - unat t"
    "DROP_AFTER_MS \<le> saturating_sub now t \<longleftrightarrow> 10000 \<le> unat now - unat t" for t
    by (simp_all only: word_le_nat_alt unat_saturating_sub STALE_AFTER_MS_def DROP_AFTER_MS_def)
      simp_all
  show ?thesis
    unfolding tracked_view_def Let_def le
    unfolding age tracked_run_best
    by (simp split: option.split)
qed

text \<open>A sample stamped ahead of the clock freezes the readout: however many later readings with
  earlier stamps arrive, the value of the early one is still shown as current at every time up to two
  seconds after its stamp. The comment on \<open>observe\<close> calls a frozen readout that never says stale the
  reading the module refuses to show; ignoring the older samples is what freezes it.\<close>

theorem tracked_future_sample_freezes:
  assumes "unat now < unat t + 2000" "\<And>w u. (Valid w, u) \<in> set es \<Longrightarrow> u < t"
  shows "tracked_view (tracked_run ((Valid v, t) # es)) now = Fresh v"
proof -
  have "best_sample (ds @ [(Valid v, t)]) = Some (v, t)"
    if "\<forall>w u. (Valid w, u) \<in> set ds \<longrightarrow> u < t" for ds
    using that by (induction ds rule: best_sample.induct) fastforce+
  then have "best_sample (rev ((Valid v, t) # es)) = Some (v, t)"
    using assms(2) by simp
  then show ?thesis using assms(1) by (simp add: tracked_view_spec)
qed

theorem tracked_future_sample_freezes_witness:
  "tracked_view (tracked_run ((Valid (30 :: nat), 90000) # [(Valid 55, 31000), (Valid 61, 32000)]))
    60000 = Fresh 30"
  by (rule tracked_future_sample_freezes) auto

text \<open>A chart series never reorders and never outgrows its window: after any stream of points,
  in any order of stamps, the kept points are in stamp order and none is older than the newest by
  more than the window.\<close>

theorem history_bounded:
  "sorted (map hp_at_unix_ms (hi_points (history_run window es))) \<and>
   list_all (\<lambda>p. list_all (\<lambda>q. unat (hp_at_unix_ms p) - unat (hp_at_unix_ms q) \<le> max 1 (unat window))
     (hi_points (history_run window es))) (hi_points (history_run window es))"
proof -
  have ok: "history_ok window (history_run window es)"
    unfolding history_run_def by (rule history.inv_run)
  have last: "hp_at_unix_ms p \<le> hp_at_unix_ms (last (hi_points h))"
    if "sorted (map hp_at_unix_ms (hi_points h))" "p \<in> set (hi_points h)" for p h
    using that by (cases "hi_points h" rule: rev_cases) (auto simp: sorted_append)
  have m: "unat (max window 1) = max 1 (unat window)"
    by (auto simp: max_def word_le_nat_alt)
  have "unat (hp_at_unix_ms p) - unat (hp_at_unix_ms q) \<le> max 1 (unat window)"
    if "p \<in> set (hi_points (history_run window es))" "q \<in> set (hi_points (history_run window es))"
    for p q
  proof -
    let ?l = "last (hi_points (history_run window es))"
    have "unat (hp_at_unix_ms p) \<le> unat (hp_at_unix_ms ?l)"
      using ok last [OF _ that(1)] by (simp add: history_ok_def word_le_nat_alt)
    moreover have "unat (hp_at_unix_ms ?l) - unat (hp_at_unix_ms q) \<le> max 1 (unat window)"
      using ok that(2) unfolding m [symmetric] history_ok_def by auto
    ultimately show ?thesis by linarith
  qed
  then show ?thesis using ok by (simp add: history_ok_def list_all_iff)
qed

end
