(* ===== verification/Display.thy ===== *)
theory Display
  imports Telemetry
begin

text \<open>
  \<open>crates/core/src/display.rs\<close>: the typed description of what the panel shows: the mode, the two
  reading slots, the orientation, and the validation of a preset. No pixel and no protocol byte is
  here. A preset names an image by its path only.
\<close>

definition FRAME_INTERVAL_MS :: u64 where "FRAME_INTERVAL_MS = 1000"
definition MAX_IMAGE_DIMENSION :: u32 where "MAX_IMAGE_DIMENSION = 8192"
definition MAX_IMAGE_PIXELS :: u64 where "MAX_IMAGE_PIXELS = 33554432"
definition MAX_IMAGE_PATH_BYTES :: nat where "MAX_IMAGE_PATH_BYTES = 4096"
definition MAX_ANIMATION_FRAMES :: nat where "MAX_ANIMATION_FRAMES = 120"
definition MIN_FRAME_DELAY_MS :: u64 where "MIN_FRAME_DELAY_MS = 80"
definition DEFAULT_FRAME_DELAY_MS :: u64 where "DEFAULT_FRAME_DELAY_MS = 100"

text \<open>The degree sign, U+00B0.\<close>

definition DEGREE :: string where "DEGREE = [CHR 0xC2, CHR 0xB0]"

section \<open>Modes and metrics\<close>

datatype display_mode = DualInfographic | SingleReading | Solid | ImageMode

definition mode_all :: "display_mode list" where
  "mode_all = [DualInfographic, SingleReading, Solid, ImageMode]"

fun mode_key :: "display_mode \<Rightarrow> string" where
  "mode_key DualInfographic = ''dual_infographic''"
| "mode_key SingleReading = ''single_reading''"
| "mode_key Solid = ''solid''"
| "mode_key ImageMode = ''image''"

fun mode_label :: "display_mode \<Rightarrow> string" where
  "mode_label DualInfographic = ''Dual infographic''"
| "mode_label SingleReading = ''Single reading''"
| "mode_label Solid = ''Solid color''"
| "mode_label ImageMode = ''Image or GIF''"

definition mode_from_key :: "string \<Rightarrow> display_mode option" where
  "mode_from_key k = (if k = ''dual_infographic'' then Some DualInfographic
    else if k = ''single_reading'' then Some SingleReading
    else if k = ''solid'' then Some Solid
    else if k = ''image'' then Some ImageMode else None)"

fun reading_slots :: "display_mode \<Rightarrow> nat" where
  "reading_slots DualInfographic = 2"
| "reading_slots SingleReading = 1"
| "reading_slots Solid = 0"
| "reading_slots ImageMode = 0"

definition uses_readings :: "display_mode \<Rightarrow> bool" where
  "uses_readings m = (0 < reading_slots m)"

definition uses_image :: "display_mode \<Rightarrow> bool" where
  "uses_image m = (case m of ImageMode \<Rightarrow> True | _ \<Rightarrow> False)"

definition gradates_band :: "display_mode \<Rightarrow> bool" where
  "gradates_band m = (case m of SingleReading \<Rightarrow> True | _ \<Rightarrow> False)"

datatype lcd_metric = CpuTemperature | GpuTemperature | MetricLiquidTemperature | CpuLoad | GpuLoad

definition metric_all :: "lcd_metric list" where
  "metric_all = [CpuTemperature, GpuTemperature, MetricLiquidTemperature, CpuLoad, GpuLoad]"

fun metric_key :: "lcd_metric \<Rightarrow> string" where
  "metric_key CpuTemperature = ''cpu_temperature''"
| "metric_key GpuTemperature = ''gpu_temperature''"
| "metric_key MetricLiquidTemperature = ''liquid_temperature''"
| "metric_key CpuLoad = ''cpu_load''"
| "metric_key GpuLoad = ''gpu_load''"

fun metric_label :: "lcd_metric \<Rightarrow> string" where
  "metric_label CpuTemperature = ''CPU temperature''"
| "metric_label GpuTemperature = ''GPU temperature''"
| "metric_label MetricLiquidTemperature = ''Liquid temperature''"
| "metric_label CpuLoad = ''CPU load''"
| "metric_label GpuLoad = ''GPU load''"

definition metric_from_key :: "string \<Rightarrow> lcd_metric option" where
  "metric_from_key k = (if k = ''cpu_temperature'' then Some CpuTemperature
    else if k = ''gpu_temperature'' then Some GpuTemperature
    else if k = ''liquid_temperature'' then Some MetricLiquidTemperature
    else if k = ''cpu_load'' then Some CpuLoad
    else if k = ''gpu_load'' then Some GpuLoad else None)"

interpretation mode: wire_enum mode_all mode_key mode_from_key
proof
  fix v :: display_mode and k
  show "v \<in> set mode_all" by (cases v) (simp_all add: mode_all_def)
  show "distinct (map mode_key mode_all)" by (simp add: mode_all_def)
  show "mode_from_key k = lookup_key mode_key mode_all k"
    by (simp add: mode_from_key_def lookup_key_def mode_all_def)
qed

interpretation metric: wire_enum metric_all metric_key metric_from_key
proof
  fix v :: lcd_metric and k
  show "v \<in> set metric_all" by (cases v) (simp_all add: metric_all_def)
  show "distinct (map metric_key metric_all)" by (simp add: metric_all_def)
  show "metric_from_key k = lookup_key metric_key metric_all k"
    by (simp add: metric_from_key_def lookup_key_def metric_all_def)
qed

fun metric_caption :: "lcd_metric \<Rightarrow> string" where
  "metric_caption CpuTemperature = ''CPU''"
| "metric_caption CpuLoad = ''CPU''"
| "metric_caption GpuTemperature = ''GPU''"
| "metric_caption GpuLoad = ''GPU''"
| "metric_caption MetricLiquidTemperature = ''LIQUID''"

fun metric_unit :: "lcd_metric \<Rightarrow> string" where
  "metric_unit CpuTemperature = DEGREE"
| "metric_unit GpuTemperature = DEGREE"
| "metric_unit MetricLiquidTemperature = DEGREE"
| "metric_unit CpuLoad = ''%''"
| "metric_unit GpuLoad = ''%''"

definition metric_full_scale :: "lcd_metric \<Rightarrow> f32" where
  "metric_full_scale m = F32 100"

record metric_sample =
  ms_metric :: lcd_metric
  ms_value :: "f32 option"

definition metric_reading :: "lcd_metric \<Rightarrow> telemetry_snapshot \<Rightarrow> f32 reading" where
  "metric_reading m t = (case m of
      CpuTemperature \<Rightarrow> st_cpu_temperature_c (ts_system t)
    | GpuTemperature \<Rightarrow> gt_temperature_c (ts_gpu t)
    | MetricLiquidTemperature \<Rightarrow> kt_liquid_temperature_c (ts_kraken t)
    | CpuLoad \<Rightarrow> st_cpu_load_percent (ts_system t)
    | GpuLoad \<Rightarrow> gt_load_percent (ts_gpu t))"

definition sample_metric :: "lcd_metric \<Rightarrow> telemetry_snapshot \<Rightarrow> metric_sample" where
  "sample_metric m t = \<lparr>ms_metric = m, ms_value = (case reading_value (metric_reading m t) of
      Some v \<Rightarrow> if f32_is_finite v then Some v else None
    | None \<Rightarrow> None)\<rparr>"

definition sample_unavailable :: "lcd_metric \<Rightarrow> metric_sample" where
  "sample_unavailable m = \<lparr>ms_metric = m, ms_value = None\<rparr>"

definition sample_text :: "metric_sample \<Rightarrow> string" where
  "sample_text s = (case ms_value s of
      Some v \<Rightarrow> show_int (f32_to_int (- (2 ^ 31)) (2 ^ 31 - 1) (f32_round_away v))
    | None \<Rightarrow> ''--'')"

definition sample_fraction :: "metric_sample \<Rightarrow> f32 option" where
  "sample_fraction s = map_option
    (\<lambda>v. f32_clamp (f32_div v (metric_full_scale (ms_metric s))) (F32 0) (F32 1)) (ms_value s)"

section \<open>Orientation\<close>

datatype orientation = Deg0 | Deg90 | Deg180 | Deg270

definition orientation_all :: "orientation list" where
  "orientation_all = [Deg0, Deg90, Deg180, Deg270]"

fun degrees :: "orientation \<Rightarrow> u16" where
  "degrees Deg0 = 0"
| "degrees Deg90 = 90"
| "degrees Deg180 = 180"
| "degrees Deg270 = 270"

definition quarter_turns :: "orientation \<Rightarrow> u8" where
  "quarter_turns q = ucast (degrees q div 90)"

definition orientation_label :: "orientation \<Rightarrow> string" where
  "orientation_label q = show_nat (unat (degrees q)) @ DEGREE"

fun rotated :: "orientation \<Rightarrow> orientation" where
  "rotated Deg0 = Deg90"
| "rotated Deg90 = Deg180"
| "rotated Deg180 = Deg270"
| "rotated Deg270 = Deg0"

lemma rotated_turns: "unat (quarter_turns (rotated q)) = (unat (quarter_turns q) + 1) mod 4"
  by (cases q) (simp_all add: quarter_turns_def)

lemma rotated_four [simp]: "rotated (rotated (rotated (rotated q))) = q"
  by (cases q) simp_all

lemma quarter_turns_less: "unat (quarter_turns q) < 4"
  by (cases q) (simp_all add: quarter_turns_def)

section \<open>Presets\<close>

record reading_slot =
  rs_metric :: lcd_metric
  rs_reading :: rgb
  rs_reading_end :: "rgb option"
  rs_text :: rgb

definition band_end :: "reading_slot \<Rightarrow> rgb" where
  "band_end s = (case rs_reading_end s of Some c \<Rightarrow> c | None \<Rightarrow> rs_reading s)"

text \<open>The array of two slots is a pair.\<close>

record display_preset =
  dp_mode :: display_mode
  dp_readings :: "reading_slot \<times> reading_slot"
  dp_background :: rgb
  dp_logo :: "rgb option"
  dp_orientation :: orientation
  dp_brightness :: brightness
  dp_image :: "string option"

definition default_infographic :: display_preset where
  "default_infographic =
    \<lparr>dp_mode = DualInfographic,
     dp_readings =
      (\<lparr>rs_metric = CpuTemperature, rs_reading = Rgb 0x6B 0x00 0xDE,
        rs_reading_end = Some (Rgb 0xD6 0x00 0xBF), rs_text = Rgb 0xFF 0xFF 0xFF\<rparr>,
       \<lparr>rs_metric = GpuTemperature, rs_reading = Rgb 0xD6 0x00 0xBF,
        rs_reading_end = Some (Rgb 0x6B 0x00 0xDE), rs_text = Rgb 0xFF 0xFF 0xFF\<rparr>),
     dp_background = BLACK, dp_logo = None, dp_orientation = Deg0,
     dp_brightness = BRIGHTNESS_FULL, dp_image = None\<rparr>"

definition solid_preset :: "rgb \<Rightarrow> display_preset" where
  "solid_preset color = default_infographic\<lparr>dp_mode := Solid, dp_background := color\<rparr>"

datatype display_error =
    ColorError string lighting_error
  | ImagePathMissing
  | ImagePathTooLong nat nat
  | ImageUndecodable string string
  | ImageTooLarge u32 u32 u32
  | ImageTooManyPixels u64 u64
  | AnimationTooLong nat
  | PanelUnknown

definition display_error_field :: "display_error \<Rightarrow> string option" where
  "display_error_field e = (case e of
      ColorError f _ \<Rightarrow> Some f
    | PanelUnknown \<Rightarrow> None
    | _ \<Rightarrow> Some ''image'')"

definition validate_preset :: "display_preset \<Rightarrow> display_error + unit" where
  "validate_preset p =
    (if \<not> uses_image (dp_mode p) then Inr ()
     else (case dp_image p of
        None \<Rightarrow> Inl ImagePathMissing
      | Some path \<Rightarrow>
          if path = [] then Inl ImagePathMissing
          else if MAX_IMAGE_PATH_BYTES < length path
          then Inl (ImagePathTooLong (length path) MAX_IMAGE_PATH_BYTES)
          else Inr ()))"

definition preset_samples :: "display_preset \<Rightarrow> telemetry_snapshot \<Rightarrow> metric_sample \<times> metric_sample" where
  "preset_samples p t = (sample_metric (rs_metric (fst (dp_readings p))) t,
    sample_metric (rs_metric (snd (dp_readings p))) t)"

lemma validate_preset_iff:
  "validate_preset p = Inr () \<longleftrightarrow>
    (dp_mode p = ImageMode \<longrightarrow>
      (\<exists>path. dp_image p = Some path \<and> path \<noteq> [] \<and> length path \<le> 4096))"
  by (cases "dp_mode p")
    (auto simp: validate_preset_def uses_image_def MAX_IMAGE_PATH_BYTES_def split: option.splits)

text \<open>What is drawn for a metric that was not read is the marker, never a number.\<close>

lemma sample_value_Some_iff:
  "ms_value (sample_metric m t) = Some v \<longleftrightarrow> metric_reading m t = Valid v \<and> f32_is_finite v"
  by (cases "metric_reading m t") (auto simp: sample_metric_def)

lemma sample_fraction_range:
  "sample_fraction (sample_metric m t) = Some v \<Longrightarrow> \<exists>x. v = F32 x \<and> 0 \<le> x \<and> x \<le> 1"
proof -
  assume "sample_fraction (sample_metric m t) = Some v"
  then obtain w where w: "ms_value (sample_metric m t) = Some w"
    and v: "v = f32_clamp (f32_div w (F32 100)) (F32 0) (F32 1)"
    by (auto simp: sample_fraction_def metric_full_scale_def)
  then obtain x where "w = F32 x"
    by (cases w) (auto simp: sample_value_Some_iff f32_is_finite_def)
  then have "v = f32_clamp (f32_round (x / 100)) (F32 0) (F32 1)"
    by (simp add: v f32_arith_simps)
  then show ?thesis
    by (auto simp: f32_round_def Let_def f32_arith_simps f32_clamp_def f32_less_def)
qed

end
