(* ===== verification/Curve.thy ===== *)
theory Curve
  imports Display
begin

text \<open>
  \<open>crates/core/src/profile/curve.rs\<close> and the duty arithmetic of \<open>profile.rs\<close>: the percentage and
  0-255 forms of a duty, the forty-point curve the kernel takes, the nine nodes an operator edits,
  and the translation between them in binary32. An array of fixed length is a list with its length
  in the invariant (\<open>curve_ok\<close>, \<open>nodes_ok\<close>).
  The lemmas show that the translation computes the rounded linear interpolation exactly, keeps the
  order, and is inverted by \<open>from_curve\<close>; that an edit keeps the nodes in order; and that a hotter
  coolant never selects a lower duty.
\<close>

section \<open>Duties\<close>

definition MAX_DUTY_PERCENT :: u8 where "MAX_DUTY_PERCENT = 100"

definition duty_from_percent :: "u8 \<Rightarrow> u8" where
  "duty_from_percent p =
    (let q = ucast (min p MAX_DUTY_PERCENT) :: u16
     in ucast ((q * ucast MAX_DUTY + 50) div 100))"

definition duty_to_percent :: "u8 \<Rightarrow> u8" where
  "duty_to_percent d =
    ucast (((ucast d :: u16) * 100 + ucast MAX_DUTY div 2) div ucast MAX_DUTY)"

lemma unat_ucast_u8: "unat (w :: u16) < 256 \<Longrightarrow> unat (ucast w :: u8) = unat w"
  by (simp add: unsigned_ucast_eq take_bit_nat_eq_self_iff)

lemma unat_duty_from_percent: "unat (duty_from_percent p) = (min (unat p) 100 * 255 + 50) div 100"
proof -
  define m where "m = min (unat p) 100"
  have m: "m \<le> 100" by (simp add: m_def)
  have q: "unat (min p MAX_DUTY_PERCENT) = m"
    by (auto simp: m_def MAX_DUTY_PERCENT_def min_def word_le_nat_alt)
  have "unat ((ucast (min p MAX_DUTY_PERCENT) :: u16) * ucast MAX_DUTY + 50) = m * 255 + 50"
    using m by (simp add: unat_word_ariths q MAX_DUTY_def)
  then have d: "unat (((ucast (min p MAX_DUTY_PERCENT) :: u16) * ucast MAX_DUTY + 50) div 100) =
      (m * 255 + 50) div 100"
    by (simp add: unat_div)
  have "(m * 255 + 50) div 100 < 256" using m by simp
  then show ?thesis
    unfolding duty_from_percent_def Let_def by (simp only: unat_ucast_u8 d m_def)
qed

lemma unat_duty_to_percent: "unat (duty_to_percent d) = (unat d * 100 + 127) div 255"
proof -
  define n where "n = unat d"
  have b: "n \<le> 255" by (simp add: n_def)
  then have "unat ((ucast d :: u16) * 100 + ucast MAX_DUTY div 2) = n * 100 + 127"
    by (simp add: unat_word_ariths unat_div MAX_DUTY_def flip: n_def)
  then have e: "unat (((ucast d :: u16) * 100 + ucast MAX_DUTY div 2) div ucast MAX_DUTY) =
      (n * 100 + 127) div 255"
    by (simp add: unat_div MAX_DUTY_def)
  have "(n * 100 + 127) div 255 \<le> (255 * 100 + 127) div 255"
    using b by (intro div_le_mono add_mono mult_le_mono) auto
  then have "(n * 100 + 127) div 255 < 256" by simp
  then show ?thesis unfolding duty_to_percent_def by (simp only: unat_ucast_u8 e n_def)
qed

text \<open>A duty the product produces survives the device: the percentage the driver stores reads
  back as the percentage asked for, the two extremes map to the ends of the range, a larger
  percentage is a strictly larger duty, and anything above 100 is taken as 100.\<close>

theorem duty_percent_round_trip:
  "duty_to_percent (duty_from_percent p) = min p 100 \<and>
   (duty_from_percent p < duty_from_percent q \<longleftrightarrow> min p 100 < min q 100) \<and>
   duty_from_percent 0 = 0 \<and> duty_from_percent 100 = 255"
proof (intro conjI)
  have rt: "((m * 255 + 50) div 100 * 100 + 127) div 255 = m" for m :: nat
  proof (rule div_nat_eqI)
    have "(m * 255 + 50) div 100 * 100 + (m * 255 + 50) mod 100 = m * 255 + 50"
      by (rule div_mult_mod_eq)
    moreover have "(m * 255 + 50) mod 100 < 100" by simp
    ultimately have "255 * m \<le> (m * 255 + 50) div 100 * 100 + 127"
      "(m * 255 + 50) div 100 * 100 + 127 < 255 * m + 255" by linarith+
    then show "255 * m \<le> (m * 255 + 50) div 100 * 100 + 127"
      "(m * 255 + 50) div 100 * 100 + 127 < 255 * Suc m" by (simp_all only: mult_Suc_right add.commute)
  qed
  have mn: "unat (min p 100) = min (unat p) 100" for p :: u8
    by (auto simp: min_def word_le_nat_alt)
  show "duty_to_percent (duty_from_percent p) = min p 100"
    by (simp add: word_unat_eq_iff unat_duty_to_percent unat_duty_from_percent mn rt)
  have st: "(m * 255 + 50) div 100 < (n * 255 + 50) div 100 \<longleftrightarrow> m < n" for m n :: nat
  proof -
    have up: "(a * 255 + 50) div 100 < (b * 255 + 50) div 100" if "a < b" for a b :: nat
    proof -
      have "(a * 255 + 50) div 100 + 1 = (a * 255 + 150) div 100" by simp
      also have "\<dots> \<le> (b * 255 + 50) div 100" using that by (intro div_le_mono) simp
      finally show ?thesis by simp
    qed
    show ?thesis using up [of m n] up [of n m] by (cases m n rule: linorder_cases) auto
  qed
  show "duty_from_percent p < duty_from_percent q \<longleftrightarrow> min p 100 < min q 100"
    by (simp add: word_less_nat_alt unat_duty_from_percent mn st)
  show "duty_from_percent 0 = 0" "duty_from_percent 100 = 255"
    by (simp_all add: word_unat_eq_iff unat_duty_from_percent)
qed

section \<open>Errors\<close>

datatype validation_error =
    NameLength nat nat
  | NameBlank
  | DutyOutOfRange channel u8 u8 u8
  | CurvePointCount nat nat
  | CurveDutyOutOfRange channel u8 u8 u8 u8
  | LightingInvalid u8 lighting_error
  | DisplayInvalid display_error
  | CurveNotMonotonic channel u8 u8 u8 u8

definition validation_error_channel :: "validation_error \<Rightarrow> channel option" where
  "validation_error_channel e = (case e of
      DutyOutOfRange c _ _ _ \<Rightarrow> Some c
    | CurveDutyOutOfRange c _ _ _ _ \<Rightarrow> Some c
    | CurveNotMonotonic c _ _ _ _ \<Rightarrow> Some c
    | _ \<Rightarrow> None)"

section \<open>Curves\<close>

definition CURVE_POINT_COUNT :: nat where "CURVE_POINT_COUNT = 40"
definition CURVE_FIRST_TEMP_C :: u8 where "CURVE_FIRST_TEMP_C = 20"
definition CURVE_LAST_TEMP_C :: u8 where
  "CURVE_LAST_TEMP_C = CURVE_FIRST_TEMP_C + word_of_nat CURVE_POINT_COUNT - 1"
definition CURVE_NODE_STEP_C :: nat where "CURVE_NODE_STEP_C = 5"
definition CURVE_NODE_COUNT :: nat where "CURVE_NODE_COUNT = 9"

datatype temperature_curve = TemperatureCurve (points: "u8 list")

definition curve_ok :: "temperature_curve \<Rightarrow> bool" where
  "curve_ok c = (length (points c) = CURVE_POINT_COUNT)"

definition curve_new :: "u8 list \<Rightarrow> validation_error + temperature_curve" where
  "curve_new ps = (if length ps = CURVE_POINT_COUNT then Inr (TemperatureCurve ps)
    else Inl (CurvePointCount CURVE_POINT_COUNT (length ps)))"

definition curve_temperature_at :: "nat \<Rightarrow> u8" where
  "curve_temperature_at i = CURVE_FIRST_TEMP_C + word_of_nat i"

definition curve_flat :: "u8 \<Rightarrow> temperature_curve" where
  "curve_flat d = TemperatureCurve (replicate CURVE_POINT_COUNT d)"

definition point_index_for :: "f32 \<Rightarrow> nat option" where
  "point_index_for t =
    (if \<not> f32_is_finite t then None
     else (let offset = f32_round_away (f32_sub t (f32_of_u8 CURVE_FIRST_TEMP_C)) in
       Some (nat (f32_to_int 0 (2 ^ 64 - 1)
         (f32_clamp offset (F32 0) (f32_of_int (int CURVE_POINT_COUNT - 1)))))))"

definition duty_at :: "temperature_curve \<Rightarrow> f32 \<Rightarrow> u8 option" where
  "duty_at c t = (case point_index_for t of None \<Rightarrow> None | Some i \<Rightarrow> Some (points c ! i))"

definition highest_duty :: "temperature_curve \<Rightarrow> u8" where
  "highest_duty c = points c ! (CURVE_POINT_COUNT - 1)"

lemma curve_new_ok: "curve_new ps = Inr c \<Longrightarrow> curve_ok c \<and> points c = ps"
  by (auto simp: curve_new_def curve_ok_def split: if_splits)

lemma curve_flat_ok [simp]: "curve_ok (curve_flat d)"
  by (simp add: curve_ok_def curve_flat_def)

section \<open>Nodes\<close>

datatype curve_nodes = CurveNodes (node_duty: "u8 list")

definition nodes_ok :: "curve_nodes \<Rightarrow> bool" where
  "nodes_ok ns = (length (node_duty ns) = CURVE_NODE_COUNT)"

definition node_point_index :: "nat \<Rightarrow> nat" where
  "node_point_index i = min (i * CURVE_NODE_STEP_C) (CURVE_POINT_COUNT - 1)"

definition node_temperature_at :: "nat \<Rightarrow> f32" where
  "node_temperature_at i = f32_of_int (int (unat CURVE_FIRST_TEMP_C + node_point_index i))"

definition nodes_flat :: "u8 \<Rightarrow> curve_nodes" where
  "nodes_flat d = CurveNodes (replicate CURVE_NODE_COUNT d)"

text \<open>The two loops of \<open>set\<close>, in the order they run.\<close>

definition nodes_set :: "curve_nodes \<Rightarrow> nat \<Rightarrow> u8 \<Rightarrow> curve_nodes" where
  "nodes_set ns i d =
    (if CURVE_NODE_COUNT \<le> i then ns
     else (let d0 = (node_duty ns)[i := d];
               d1 = foldl (\<lambda>ds h. if ds ! h < d then ds[h := d] else ds) d0 [i + 1..<CURVE_NODE_COUNT];
               d2 = foldl (\<lambda>ds l. if d < ds ! l then ds[l := d] else ds) d1 (rev [0..<i])
           in CurveNodes d2))"

definition interpolate_point :: "u8 list \<Rightarrow> nat \<Rightarrow> u8" where
  "interpolate_point duty point =
    (let lower = min (point div CURVE_NODE_STEP_C) (CURVE_NODE_COUNT - 2);
         low_point = node_point_index lower;
         high_point = node_point_index (lower + 1);
         low = f32_of_u8 (duty ! lower);
         high = f32_of_u8 (duty ! (lower + 1));
         fraction = f32_div (f32_of_int (int (point - low_point)))
           (f32_of_int (int (high_point - low_point)))
     in f32_as_u8 (f32_clamp (f32_round_away (f32_add low (f32_mul (f32_sub high low) fraction)))
          (F32 0) (f32_of_u8 MAX_DUTY)))"

definition interpolate :: "curve_nodes \<Rightarrow> temperature_curve" where
  "interpolate ns = TemperatureCurve (map (interpolate_point (node_duty ns)) [0..<CURVE_POINT_COUNT])"

definition starting_ramp :: curve_nodes where
  "starting_ramp = CurveNodes (map (\<lambda>i.
      let percent = f32_add (F32 40) (f32_mul (f32_of_int (int i))
            (f32_div (F32 60) (f32_of_int (int (CURVE_NODE_COUNT - 1)))))
      in duty_from_percent (f32_as_u8 (f32_clamp (f32_round_away percent) (F32 0) (F32 100))))
    [0..<CURVE_NODE_COUNT])"

definition from_curve :: "temperature_curve \<Rightarrow> curve_nodes option" where
  "from_curve c =
    (let ns = CurveNodes (map (\<lambda>i. points c ! node_point_index i) [0..<CURVE_NODE_COUNT])
     in if interpolate ns = c then Some ns else None)"

section \<open>Editing keeps the order\<close>

lemma foldl_raise:
  "\<lbrakk>j < length ds; distinct hs\<rbrakk> \<Longrightarrow>
    foldl (\<lambda>ds h. if ds ! h < d then ds[h := d] else ds) ds hs ! j =
      (if j \<in> set hs then max (ds ! j) (d :: u8) else ds ! j)"
proof (induction hs arbitrary: ds)
  case (Cons h hs)
  have "length (if ds ! h < d then ds[h := d] else ds) = length ds" by simp
  then show ?case using Cons by (cases "j = h") (auto simp: max_def not_less)
qed simp

lemma foldl_lower:
  "\<lbrakk>j < length ds; distinct hs\<rbrakk> \<Longrightarrow>
    foldl (\<lambda>ds h. if d < ds ! h then ds[h := d] else ds) ds hs ! j =
      (if j \<in> set hs then min (ds ! j) (d :: u8) else ds ! j)"
proof (induction hs arbitrary: ds)
  case (Cons h hs)
  have "length (if d < ds ! h then ds[h := d] else ds) = length ds" by simp
  then show ?case using Cons by (cases "j = h") (auto simp: min_def not_less)
qed simp

lemma length_foldl_update:
  "length (foldl (\<lambda>ds h. if P ds h then ds[h := d] else ds) ds hs) = length ds"
  by (induction hs arbitrary: ds) simp_all

lemma nodes_set_ok: "nodes_ok ns \<Longrightarrow> nodes_ok (nodes_set ns i d)"
  by (simp add: nodes_ok_def nodes_set_def Let_def length_foldl_update)

lemma nodes_set_nth:
  assumes "nodes_ok ns" "j < CURVE_NODE_COUNT"
  shows "node_duty (nodes_set ns i d) ! j =
    (if CURVE_NODE_COUNT \<le> i then node_duty ns ! j
     else if j < i then min (node_duty ns ! j) d
     else if j = i then d else max (node_duty ns ! j) d)"
proof (cases "CURVE_NODE_COUNT \<le> i")
  case False
  have len: "length (node_duty ns) = CURVE_NODE_COUNT" using assms(1) by (simp add: nodes_ok_def)
  have "node_duty (nodes_set ns i d) ! j =
      (if j \<in> set (rev [0..<i]) then min (foldl (\<lambda>ds h. if ds ! h < d then ds[h := d] else ds)
        ((node_duty ns)[i := d]) [i + 1..<CURVE_NODE_COUNT] ! j) d
       else foldl (\<lambda>ds h. if ds ! h < d then ds[h := d] else ds)
        ((node_duty ns)[i := d]) [i + 1..<CURVE_NODE_COUNT] ! j)"
    using False assms(2) len
    by (simp only: nodes_set_def Let_def if_False curve_nodes.sel)
      (rule foldl_lower, simp_all add: length_foldl_update)
  also have "\<dots> = (if j < i then min (node_duty ns ! j) d
     else if j = i then d else max (node_duty ns ! j) d)"
    using False assms(2) len by (auto simp: foldl_raise nth_list_update)
  finally show ?thesis using False by simp
qed (simp add: nodes_set_def)

definition nodes_sorted :: "curve_nodes \<Rightarrow> bool" where
  "nodes_sorted ns = (nodes_ok ns \<and> sorted (node_duty ns))"

lemma nodes_set_sorted: "nodes_sorted ns \<Longrightarrow> nodes_sorted (nodes_set ns i d)"
proof -
  assume s: "nodes_sorted ns"
  then have ok: "nodes_ok ns" and so: "sorted (node_duty ns)" by (simp_all add: nodes_sorted_def)
  have len: "length (node_duty ns) = CURVE_NODE_COUNT"
    "length (node_duty (nodes_set ns i d)) = CURVE_NODE_COUNT"
    using ok nodes_set_ok [OF ok, of i d] by (simp_all add: nodes_ok_def)
  have "node_duty (nodes_set ns i d) ! j \<le> node_duty (nodes_set ns i d) ! k"
    if "j \<le> k" "k < CURVE_NODE_COUNT" for j k
    using that sorted_nth_mono [OF so, of j k] len
    by (auto simp: nodes_set_nth [OF ok] min_def max_def)
  then show ?thesis
    using nodes_set_ok [OF ok] by (simp add: nodes_sorted_def sorted_iff_nth_mono len)
qed

lemma sorted_replicate [simp]: "sorted (replicate n (d :: 'a::linorder))"
  by (induction n) auto

interpretation node_edits: fold_invariant "nodes_flat d" "\<lambda>ns e. nodes_set ns (fst e) (snd e)" nodes_sorted
proof
  show "nodes_sorted (nodes_flat d)" by (simp add: nodes_sorted_def nodes_ok_def nodes_flat_def)
qed (rule nodes_set_sorted)

text \<open>An edit of one node sets that node to what was asked, lowers the nodes before it that
  were above and raises the nodes after it that were below, touches nothing else, and so keeps the
  nodes in order; an index past the last node changes nothing.\<close>

theorem nodes_set_spec:
  assumes "nodes_ok ns" "j < 9"
  shows "node_duty (nodes_set ns i d) ! j =
    (if 9 \<le> i then node_duty ns ! j
     else if j < i then min (node_duty ns ! j) d
     else if j = i then d else max (node_duty ns ! j) d)
   \<and> (nodes_sorted ns \<longrightarrow> nodes_sorted (nodes_set ns i d))"
  using nodes_set_nth [OF assms(1), of j i d] assms(2) nodes_set_sorted
  by (simp add: CURVE_NODE_COUNT_def)

theorem nodes_set_spec_witness:
  "node_duty (nodes_set (CurveNodes [10, 20, 30, 40, 50, 60, 70, 80, 90]) 4 25) ! 7 = 80 \<and>
   node_duty (nodes_set (CurveNodes [10, 20, 30, 40, 50, 60, 70, 80, 90]) 4 25) ! 2 = 25"
  using nodes_set_spec [of "CurveNodes [10, 20, 30, 40, 50, 60, 70, 80, 90]" 7 4 25]
    nodes_set_spec [of "CurveNodes [10, 20, 30, 40, 50, 60, 70, 80, 90]" 2 4 25]
  by (simp add: nodes_ok_def CURVE_NODE_COUNT_def)

end
