(* ===== verification/Interpolation.thy ===== *)
theory Interpolation
  imports Curve
begin

text \<open>
  The translation between the nodes an operator edits and the curve the kernel takes
  (\<open>CurveNodes::interpolate\<close> and \<open>from_curve\<close> of \<open>crates/core/src/profile/curve.rs\<close>), and the point
  a temperature selects. \<open>lerp\<close> is the specification: the linear interpolation in exact integer
  arithmetic, rounded half up. The four binary32 operations of the code compute it exactly.
\<close>

section \<open>The binary32 computation is exact\<close>

definition lerp :: "int \<Rightarrow> int \<Rightarrow> int \<Rightarrow> int \<Rightarrow> int" where
  "lerp low high num n = (2 * (low * n + (high - low) * num) + n) div (2 * n)"

lemma lerp_bounds:
  assumes "0 \<le> num" "num \<le> n" "0 < n" "lo \<le> low" "lo \<le> high" "low \<le> hi" "high \<le> hi"
  shows "lo \<le> lerp low high num n" "lerp low high num n \<le> hi"
proof -
  have e: "low * n + (high - low) * num = low * (n - num) + high * num"
    by (simp add: algebra_simps)
  have "lo * (n - num) + lo * num \<le> low * (n - num) + high * num"
    using assms by (intro add_mono mult_right_mono) auto
  then have l: "lo * n \<le> low * n + (high - low) * num" by (simp add: e algebra_simps)
  have "low * (n - num) + high * num \<le> hi * (n - num) + hi * num"
    using assms by (intro add_mono mult_right_mono) auto
  then have h: "low * n + (high - low) * num \<le> hi * n" by (simp add: e algebra_simps)
  have r: "(2 * (b * n) + n) div (2 * n) = b" for b
  proof -
    have "(n + b * (2 * n)) div (2 * n) = b + n div (2 * n)"
      using assms(3) by (intro div_mult_self1) simp
    then show ?thesis using assms(3) by (simp add: algebra_simps)
  qed
  have "(2 * (lo * n) + n) div (2 * n) \<le> lerp low high num n"
    unfolding lerp_def using l assms(3) by (intro zdiv_mono1) auto
  then show "lo \<le> lerp low high num n" by (simp only: r)
  have "lerp low high num n \<le> (2 * (hi * n) + n) div (2 * n)"
    unfolding lerp_def using h assms(3) by (intro zdiv_mono1) auto
  then show "lerp low high num n \<le> hi" by (simp only: r)
qed

lemma lerp_mono:
  assumes "0 \<le> num" "num \<le> n" "0 < n" "num \<le> num'" "num' \<le> n" "low \<le> high"
  shows "lerp low high num n \<le> lerp low high num' n"
  unfolding lerp_def using assms by (intro zdiv_mono1) (auto intro: mult_left_mono)

text \<open>With a denominator of four every step is exact.\<close>

lemma lerp_f32_4:
  fixes low high num :: int
  assumes "0 \<le> low" "low \<le> 255" "0 \<le> high" "high \<le> 255" "0 \<le> num" "num \<le> 4"
  shows "f32_add (F32 (of_int low)) (f32_mul (f32_sub (F32 (of_int high)) (F32 (of_int low)))
      (f32_div (F32 (of_int num)) (F32 4))) = F32 (of_int low + of_int ((high - low) * num) / 4)"
proof -
  define d where "d = high - low"
  have d: "\<bar>d\<bar> \<le> 255" using assms by (simp add: d_def abs_le_iff)
  have p2: "(2::rat) powi - 2 = 1 / 4" by (simp add: power_int_def power2_eq_square)
  have q: "f32_round (of_int m / 4) = F32 (of_int m / 4)" if "\<bar>m\<bar> \<le> 5000" for m :: int
  proof -
    have s: "round_sig (of_int m / 4) = of_int m / 4"
      using round_sig_exact [of m "-2"] that by (simp add: p2)
    have "\<bar>of_int m :: rat\<bar> = of_int \<bar>m\<bar>" by simp
    also have "\<dots> \<le> (5000 :: rat)" using that by (simp only: of_int_le_numeral_iff)
    finally have "\<bar>of_int m / 4 :: rat\<bar> < 2 powi 100" by simp
    then show ?thesis by (simp add: f32_round_small s)
  qed
  have "\<bar>d * num\<bar> \<le> 255 * 4"
    unfolding abs_mult using d assms by (intro mult_mono) auto
  then have b: "\<bar>d * num\<bar> \<le> 5000" "\<bar>low * 4 + d * num\<bar> \<le> 5000" using assms by linarith+
  have i: "f32_round (of_int high - of_int low) = F32 (of_int d)"
    using f32_of_int_exact [of d] d by (simp add: f32_of_int_def d_def)
  have f: "f32_round (of_int num / 4) = F32 (of_int num / 4)" using assms by (intro q) simp
  have m: "f32_round (of_int d * (of_int num / 4)) = F32 (of_int (d * num) / 4)"
    using q [OF b(1)] by simp
  have a: "f32_round (of_int low + of_int (d * num) / 4) = F32 (of_int low + of_int (d * num) / 4)"
    using q [OF b(2)] by (simp add: add_divide_distrib)
  have e: "f32_div (F32 (of_int num)) (F32 4) = F32 (of_int num / 4)"
    using f by (simp add: f32_arith_simps)
  show ?thesis unfolding f32_arith_simps(1-3) i e m a d_def [symmetric] by simp
qed

text \<open>With a denominator of five the three roundings stay far under the distance to a half.\<close>

lemma lerp_f32_5:
  fixes low high num :: int
  assumes "0 \<le> low" "low \<le> 255" "0 \<le> high" "high \<le> 255" "0 \<le> num" "num \<le> 5"
  shows "\<exists>y. f32_add (F32 (of_int low)) (f32_mul (f32_sub (F32 (of_int high)) (F32 (of_int low)))
      (f32_div (F32 (of_int num)) (F32 5))) = F32 y \<and>
    \<bar>y - (of_int low + of_int ((high - low) * num) / 5)\<bar> < 1 / 10"
proof -
  define d where "d = high - low"
  have d: "\<bar>d\<bar> \<le> 255" using assms by (simp add: d_def abs_le_iff)
  have dr: "\<bar>of_int d :: rat\<bar> \<le> 255"
    using d by (metis of_int_abs of_int_le_numeral_iff)
  have i: "f32_round (of_int high - of_int low) = F32 (of_int d)"
    using f32_of_int_exact [of d] d by (simp add: f32_of_int_def d_def)
  define f :: rat where "f = round_sig (of_int num / 5)"
  have fr: "f32_round (of_int num / 5) = F32 f" "0 \<le> f" "f \<le> 1"
    using f32_round_bounded [of 0 1 "of_int num / 5"] assms by (simp_all add: f_def)
  have fe: "\<bar>f - of_int num / 5\<bar> \<le> 2 powi - 24"
    using round_sig_error_less [of "of_int num / 5" 1] assms by (simp add: f_def)
  have bm: "\<bar>of_int d * f\<bar> \<le> 255"
    unfolding abs_mult using dr fr mult_mono [of "\<bar>of_int d\<bar>" 255 "\<bar>f\<bar>" 1] by simp
  define p where "p = round_sig (of_int d * f)"
  have pr: "f32_round (of_int d * f) = F32 p" "- 255 \<le> p" "p \<le> 255"
    using f32_round_bounded [of "- 255" 255 "of_int d * f"] bm by (simp_all add: p_def)
  have pe: "\<bar>p - of_int d * f\<bar> \<le> 2 powi - 17"
    using round_sig_error_less [of "of_int d * f" 8] bm by (simp add: p_def)
  have lr: "0 \<le> (of_int low :: rat)" "(of_int low :: rat) \<le> 255" using assms by simp_all
  define y where "y = round_sig (of_int low + p)"
  have yr: "f32_round (of_int low + p) = F32 y"
    using f32_round_bounded [of "- 255" 510 "of_int low + p"] pr lr by (simp add: y_def)
  have ye: "\<bar>y - (of_int low + p)\<bar> \<le> 2 powi - 16"
    using round_sig_error_less [of "of_int low + p" 9] pr lr by (simp add: y_def abs_less_iff)
  have de: "\<bar>of_int d * f - of_int (d * num) / 5\<bar> \<le> 255 * 2 powi - 24"
  proof -
    have e: "of_int d * f - of_int (d * num) / 5 = of_int d * (f - of_int num / 5)"
      by (simp add: algebra_simps)
    show ?thesis unfolding e abs_mult by (rule mult_mono [OF dr fe]) simp_all
  qed
  have tiny: "255 * 2 powi - 24 + 2 powi - 17 + 2 powi - 16 < (1 / 10 :: rat)"
    by (simp add: power_int_def power_divide)
  have "\<bar>y - (of_int low + of_int (d * num) / 5)\<bar> < 1 / 10"
    using de pe ye tiny by linarith
  moreover have e: "f32_div (F32 (of_int num)) (F32 5) = F32 f"
    using fr by (simp add: f32_arith_simps)
  ultimately show ?thesis
    unfolding f32_arith_simps(1-3) i e pr(1) yr d_def [symmetric] by blast
qed

lemma lerp_f32:
  fixes low high num n :: int
  assumes "0 \<le> low" "low \<le> 255" "0 \<le> high" "high \<le> 255" "0 \<le> num" "num \<le> n" "n = 4 \<or> n = 5"
  shows "f32_round_away (f32_add (F32 (of_int low)) (f32_mul
      (f32_sub (F32 (of_int high)) (F32 (of_int low))) (f32_div (F32 (of_int num)) (F32 (of_int n))))) =
    F32 (of_int (lerp low high num n))"
  using assms(7)
proof
  assume n: "n = 4"
  define s where "s = low * 4 + (high - low) * num"
  have pos: "0 \<le> s"
  proof -
    have "s = low * (4 - num) + high * num" by (simp add: s_def algebra_simps)
    moreover have "0 \<le> low * (4 - num)" "0 \<le> high * num" using assms n by simp_all
    ultimately show ?thesis by linarith
  qed
  have x: "of_int low + of_int ((high - low) * num) / 4 = (of_int s / 4 :: rat)"
    by (simp add: s_def add_divide_distrib)
  have "\<lfloor>of_int s / 4 + 1 / 2 :: rat\<rfloor> = \<lfloor>of_int (2 * s + 4) / (of_int 8 :: rat)\<rfloor>"
    by (simp add: add_divide_distrib)
  also have "\<dots> = (2 * s + 4) div 8" by (rule floor_divide_of_int_eq)
  finally have "round_away (of_int s / 4) = (2 * s + 4) div 8"
    using pos by (simp add: round_away_def)
  then have "round_away (of_int low + of_int ((high - low) * num) / 4) = lerp low high num 4"
    by (simp only: x) (simp add: lerp_def s_def)
  then show ?thesis
    using lerp_f32_4 [of low high num] assms n by (simp add: f32_arith_simps(5))
next
  assume n: "n = 5"
  define s where "s = low * 5 + (high - low) * num"
  obtain y where y: "f32_add (F32 (of_int low)) (f32_mul (f32_sub (F32 (of_int high))
      (F32 (of_int low))) (f32_div (F32 (of_int num)) (F32 5))) = F32 y"
    "\<bar>y - (of_int low + of_int ((high - low) * num) / 5)\<bar> < 1 / 10"
    using lerp_f32_5 [of low high num] assms n by auto
  have x: "of_int low + of_int ((high - low) * num) / 5 = (of_int s / 5 :: rat)"
    by (simp add: s_def add_divide_distrib)
  define N where "N = (2 * s + 5) div 10"
  have b: "10 * N + 1 \<le> 2 * s + 5" "2 * s + 5 \<le> 10 * N + 9"
    unfolding N_def by presburger+
  have "(of_int (10 * N + 1) :: rat) \<le> of_int (2 * s + 5)" "(of_int (2 * s + 5) :: rat) \<le> of_int (10 * N + 9)"
    using b by (simp_all only: of_int_le_iff)
  then have "of_int N - 1 / 2 + 1 / 10 \<le> (of_int s / 5 :: rat)"
    "(of_int s / 5 :: rat) \<le> of_int N + 1 / 2 - 1 / 10" by simp_all
  then have "round_away y = N" using y(2) unfolding x by (intro round_away_near)
  moreover have "N = lerp low high num 5" by (simp add: N_def lerp_def s_def)
  ultimately show ?thesis using y(1) n by (simp add: f32_arith_simps(5))
qed

section \<open>Points of the curve\<close>

definition segment :: "nat \<Rightarrow> nat" where
  "segment k = min (k div 5) 7"

definition segment_width :: "nat \<Rightarrow> int" where
  "segment_width k = (if k < 35 then 5 else 4)"

definition segment_offset :: "nat \<Rightarrow> int" where
  "segment_offset k = int k - 5 * int (segment k)"

lemma segment_facts:
  assumes "k < 40"
  shows "segment k \<le> 7" "0 \<le> segment_offset k" "segment_offset k \<le> segment_width k"
    "segment_width k = 4 \<or> segment_width k = 5"
    "node_point_index (segment k) = 5 * segment k"
    "int (node_point_index (segment k + 1)) - int (node_point_index (segment k)) = segment_width k"
    "5 * segment k \<le> k"
proof -
  define q where "q = k div 5"
  have q: "q * 5 \<le> k" "k < q * 5 + 5"
    unfolding q_def by presburger+
  have c: "q < 7 \<and> k < 35 \<or> 7 \<le> q \<and> \<not> k < 35" using q by linarith
  have n: "segment k = min q 7" by (simp add: segment_def q_def)
  show "segment k \<le> 7" "0 \<le> segment_offset k" "segment_offset k \<le> segment_width k"
    "segment_width k = 4 \<or> segment_width k = 5" "5 * segment k \<le> k"
    using assms q c by (auto simp: n segment_offset_def segment_width_def)
  show "node_point_index (segment k) = 5 * segment k"
    using c by (auto simp: n node_point_index_def CURVE_NODE_STEP_C_def CURVE_POINT_COUNT_def)
  show "int (node_point_index (segment k + 1)) - int (node_point_index (segment k)) = segment_width k"
    using c by (auto simp: n node_point_index_def segment_width_def CURVE_NODE_STEP_C_def
        CURVE_POINT_COUNT_def)
qed

lemma interpolate_point_lerp:
  assumes "k < 40"
  shows "uint (interpolate_point ds k) =
    lerp (uint (ds ! segment k)) (uint (ds ! (segment k + 1))) (segment_offset k) (segment_width k)"
proof -
  note f = segment_facts [OF assms]
  let ?lo = "uint (ds ! segment k)" and ?hi = "uint (ds ! (segment k + 1))"
  have b: "0 \<le> ?lo" "?lo \<le> 255" "0 \<le> ?hi" "?hi \<le> 255"
    using uint_bounded [of "ds ! segment k"] uint_bounded [of "ds ! (segment k + 1)"] by simp_all
  define L where "L = lerp ?lo ?hi (segment_offset k) (segment_width k)"
  have L: "0 \<le> L" "L \<le> 255"
    unfolding L_def using lerp_bounds [OF f(2,3), of 0 ?lo ?hi 255] f(4) b by auto
  have o1: "f32_of_int (int (k - 5 * segment k)) = F32 (of_int (segment_offset k))"
  proof -
    have "int (k - 5 * segment k) = segment_offset k" using f(7) by (simp add: segment_offset_def)
    moreover have "\<bar>segment_offset k\<bar> \<le> 2 ^ 24" using f(2,3,4) by auto
    ultimately show ?thesis by (simp add: f32_of_int_exact)
  qed
  have o2: "f32_of_int (int (node_point_index (segment k + 1) - 5 * segment k)) =
      F32 (of_int (segment_width k))"
  proof -
    have "int (node_point_index (segment k + 1) - 5 * segment k) = segment_width k"
      using f(4,5,6) by linarith
    moreover have "\<bar>segment_width k\<bar> \<le> 2 ^ 24" using f(4) by auto
    ultimately show ?thesis by (simp add: f32_of_int_exact)
  qed
  have seg: "min (k div CURVE_NODE_STEP_C) (CURVE_NODE_COUNT - 2) = segment k"
    by (simp add: segment_def CURVE_NODE_STEP_C_def CURVE_NODE_COUNT_def)
  have m: "f32_of_u8 MAX_DUTY = F32 255" by (simp add: f32_of_u8 MAX_DUTY_def)
  have "interpolate_point ds k = f32_as_u8 (f32_clamp (F32 (of_int L)) (F32 0) (F32 255))"
    unfolding interpolate_point_def Let_def seg f(5) o1 o2 m f32_of_u8 L_def
    by (subst lerp_f32 [OF b f(2,3,4)]) (simp add: MAX_DUTY_def)
  also have "f32_clamp (F32 (of_int L)) (F32 0) (F32 255) = F32 (of_int L)"
    using L by (simp add: f32_arith_simps)
  finally show ?thesis
    using L by (simp add: f32_as_u8_def f32_to_int_of_int uint_word_of_int L_def)
qed

lemma interpolate_ok [simp]: "curve_ok (interpolate ns)"
  by (simp add: curve_ok_def interpolate_def)

lemma interpolate_nth: "k < 40 \<Longrightarrow> points (interpolate ns) ! k = interpolate_point (node_duty ns) k"
  by (simp add: interpolate_def CURVE_POINT_COUNT_def)

text \<open>The curve drawn from the nodes is the exact linear interpolation: although the code works
  in binary32, with three roundings per point, each of the forty points is the rational value on its
  segment, rounded half up.\<close>

theorem interpolate_exact:
  assumes "k < 40"
  shows "uint (points (interpolate ns) ! k) =
    lerp (uint (node_duty ns ! segment k)) (uint (node_duty ns ! (segment k + 1)))
      (segment_offset k) (segment_width k)"
  using assms by (simp add: interpolate_nth interpolate_point_lerp)

theorem interpolate_exact_witness:
  "uint (points (interpolate (CurveNodes [51, 60, 70, 80, 90, 100, 120, 200, 255])) ! 37) = 228"
  using interpolate_exact [of 37 "CurveNodes [51, 60, 70, 80, 90, 100, 120, 200, 255]"]
  by (simp add: lerp_def segment_def segment_offset_def segment_width_def)

section \<open>Order and inverse\<close>

lemma lerp_ends:
  "0 < n \<Longrightarrow> lerp low high 0 n = low" "0 < n \<Longrightarrow> lerp low high n n = high"
proof -
  assume n: "0 < n"
  have r: "(2 * (b * n) + n) div (2 * n) = b" for b
  proof -
    have "(n + b * (2 * n)) div (2 * n) = b + n div (2 * n)"
      using n by (intro div_mult_self1) simp
    then show ?thesis using n by (simp add: algebra_simps)
  qed
  have "low * n + (high - low) * n = high * n" by (simp add: algebra_simps)
  then show "lerp low high 0 n = low" "lerp low high n n = high" by (simp_all add: lerp_def r)
qed

lemma interpolate_between:
  assumes "nodes_sorted ns" "k < 40"
  shows "node_duty ns ! segment k \<le> points (interpolate ns) ! k"
    "points (interpolate ns) ! k \<le> node_duty ns ! (segment k + 1)"
proof -
  note f = segment_facts [OF assms(2)]
  have "node_duty ns ! segment k \<le> node_duty ns ! (segment k + 1)"
    using assms(1) f(1) by (intro sorted_nth_mono)
      (auto simp: nodes_sorted_def nodes_ok_def CURVE_NODE_COUNT_def)
  then have le: "uint (node_duty ns ! segment k) \<le> uint (node_duty ns ! (segment k + 1))"
    by (simp add: word_le_def)
  have w: "0 < segment_width k" using f(4) by auto
  show "node_duty ns ! segment k \<le> points (interpolate ns) ! k"
    "points (interpolate ns) ! k \<le> node_duty ns ! (segment k + 1)"
    unfolding word_le_def interpolate_nth [OF assms(2)] interpolate_point_lerp [OF assms(2)]
    by (rule lerp_bounds [OF f(2,3) w, where lo = "uint (node_duty ns ! segment k)"
          and hi = "uint (node_duty ns ! (segment k + 1))"]; use le in simp)+
qed

lemma segment_Suc:
  assumes "Suc k < 40"
  shows "segment (Suc k) = segment k \<and> segment_width (Suc k) = segment_width k \<or>
    segment (Suc k) = Suc (segment k)"
proof -
  define q where "q = k div 5"
  have q: "q * 5 \<le> k" "k < q * 5 + 5" unfolding q_def by presburger+
  define r where "r = Suc k div 5"
  have r: "r = q \<and> k < q * 5 + 4 \<or> r = Suc q \<and> k = q * 5 + 4"
    using q unfolding r_def by (cases "k = q * 5 + 4") auto
  have x: "r = q \<Longrightarrow> k \<noteq> 34" using q r by presburger
  have "segment k = min q 7" "segment (Suc k) = min r 7"
    by (simp_all add: segment_def q_def r_def)
  then show ?thesis
    using q r assms x by (auto simp: segment_width_def min_def)
qed

lemma interpolate_sorted:
  assumes "nodes_sorted ns"
  shows "sorted (points (interpolate ns))"
proof -
  have len: "length (points (interpolate ns)) = 40"
    by (simp add: interpolate_def CURVE_POINT_COUNT_def)
  have "points (interpolate ns) ! k \<le> points (interpolate ns) ! Suc k" if k: "Suc k < 40" for k
    using segment_Suc [OF k]
  proof (elim disjE conjE)
    assume s: "segment (Suc k) = segment k" "segment_width (Suc k) = segment_width k"
    have k': "k < 40" using k by simp
    note f = segment_facts [OF k'] and g = segment_facts [OF k]
    have "node_duty ns ! segment k \<le> node_duty ns ! (segment k + 1)"
      using assms f(1) by (intro sorted_nth_mono)
        (auto simp: nodes_sorted_def nodes_ok_def CURVE_NODE_COUNT_def)
    then have "uint (node_duty ns ! segment k) \<le> uint (node_duty ns ! (segment k + 1))"
      by (simp add: word_le_def)
    moreover have "segment_offset k \<le> segment_offset (Suc k)" using s by (simp add: segment_offset_def)
    ultimately show ?thesis
      unfolding word_le_def interpolate_nth [OF k'] interpolate_nth [OF k]
        interpolate_point_lerp [OF k'] interpolate_point_lerp [OF k] s
      using f g s by (intro lerp_mono) auto
  next
    assume s: "segment (Suc k) = Suc (segment k)"
    have "points (interpolate ns) ! k \<le> node_duty ns ! (segment k + 1)"
      using k by (intro interpolate_between [OF assms]) simp
    also have "\<dots> \<le> points (interpolate ns) ! Suc k"
      using interpolate_between(1) [OF assms k] s by simp
    finally show ?thesis .
  qed
  then show ?thesis by (simp add: sorted_iff_nth_Suc len)
qed

lemma interpolate_at_node:
  assumes "i < 9"
  shows "points (interpolate ns) ! node_point_index i = node_duty ns ! i"
proof (cases "i = 8")
  case True
  have "points (interpolate ns) ! 39 = node_duty ns ! 8"
    by (simp add: word_uint_eq_iff interpolate_nth interpolate_point_lerp segment_def
        segment_offset_def segment_width_def lerp_ends)
  then show ?thesis
    by (simp add: True node_point_index_def CURVE_NODE_STEP_C_def CURVE_POINT_COUNT_def)
next
  case False
  then have i: "i < 8" using assms by simp
  have s: "segment (5 * i) = i" "segment_offset (5 * i) = 0"
    using i by (auto simp: segment_def segment_offset_def)
  have "node_point_index i = 5 * i" "5 * i < 40"
    using i by (auto simp: node_point_index_def CURVE_NODE_STEP_C_def CURVE_POINT_COUNT_def)
  then show ?thesis
    by (simp add: word_uint_eq_iff interpolate_nth interpolate_point_lerp s lerp_ends
        segment_width_def)
qed

lemma sampled_nodes:
  assumes "nodes_ok ns"
  shows "map (\<lambda>i. points (interpolate ns) ! node_point_index i) [0..<CURVE_NODE_COUNT] = node_duty ns"
  using assms by (intro nth_equalityI)
    (auto simp: nodes_ok_def CURVE_NODE_COUNT_def interpolate_at_node)

text \<open>Reading nodes back out of a stored curve is the exact inverse of drawing it: every node set
  comes back from its own curve unchanged, and a curve that no node set draws gives nothing, so no
  curve is silently replaced by another on an edit.\<close>

theorem from_curve_inverse:
  assumes "nodes_ok ns"
  shows "from_curve c = Some ns \<longleftrightarrow> c = interpolate ns"
proof
  assume "from_curve c = Some ns"
  then show "c = interpolate ns" by (auto simp: from_curve_def Let_def split: if_splits)
next
  assume "c = interpolate ns"
  then show "from_curve c = Some ns"
    using sampled_nodes [OF assms] by (simp add: from_curve_def Let_def)
qed

theorem from_curve_inverse_witness:
  "from_curve (interpolate (CurveNodes [51, 60, 70, 80, 90, 100, 120, 200, 255])) =
    Some (CurveNodes [51, 60, 70, 80, 90, 100, 120, 200, 255])"
  using from_curve_inverse [of "CurveNodes [51, 60, 70, 80, 90, 100, 120, 200, 255]"]
  by (simp add: nodes_ok_def CURVE_NODE_COUNT_def)

section \<open>The point a temperature selects\<close>

lemma point_index_for_finite:
  "point_index_for (F32 t) = Some (nat (max 0 (min 39 (round_away (round_sig (t - 20))))))"
proof -
  define y where "y = round_sig (t - 20)"
  have c20: "f32_of_u8 CURVE_FIRST_TEMP_C = F32 20" by (simp add: f32_of_u8 CURVE_FIRST_TEMP_C_def)
  have c39: "f32_of_int (int CURVE_POINT_COUNT - 1) = F32 39"
    using f32_of_int_exact [of 39] by (simp add: CURVE_POINT_COUNT_def)
  have cast: "nat (f32_to_int 0 (2 ^ 64 - 1) (f32_clamp (F32 (of_int i)) (F32 0) (F32 39))) =
      nat (max 0 (min 39 i))" for i
    using f32_to_int_of_int [of 0 "2 ^ 64 - 1" 0] f32_to_int_of_int [of 0 "2 ^ 64 - 1" 39]
      f32_to_int_of_int [of 0 "2 ^ 64 - 1" i]
    by (simp add: f32_arith_simps)
  show ?thesis
  proof (cases "\<bar>y\<bar> < 2 powi 128")
    case True
    then have "f32_round (t - 20) = F32 y" by (simp add: f32_round_def y_def)
    then show ?thesis
      unfolding point_index_for_def Let_def c20 c39 f32_arith_simps(2,5,6) y_def [symmetric]
      by (simp only: f32_arith_simps(5,6) cast not_True_eq_False if_False)
  next
    case False
    have big: "(40 :: rat) \<le> 2 powi 128" by simp
    have "round_away y \<le> - 40 \<or> 40 \<le> round_away y"
    proof (cases "y < 0")
      case True
      then have "y \<le> of_int (- 40)" using False big by simp
      from round_away_mono [OF this] show ?thesis by (simp only: round_away_of_int simp_thms)
    next
      case pos: False
      then have "of_int 40 \<le> y" using False big by simp
      from round_away_mono [OF this] show ?thesis by (simp only: round_away_of_int simp_thms)
    qed
    moreover have "round_away y \<le> 0" if "y < 0"
      using round_away_mono [of y "of_int 0"] that unfolding round_away_of_int by simp
    moreover have "0 \<le> round_away y" if "\<not> y < 0"
      using round_away_mono [of "of_int 0" y] that unfolding round_away_of_int by simp
    ultimately have ra: "y < 0 \<and> round_away y \<le> - 40 \<or> \<not> y < 0 \<and> 40 \<le> round_away y"
      by linarith
    have r: "f32_round (t - 20) = F32_Inf (y < 0)"
      using False by (simp add: f32_round_def y_def [symmetric])
    have inf: "f32_clamp (F32_Inf True) (F32 0) (F32 39) = F32 0"
      "f32_clamp (F32_Inf False) (F32 0) (F32 39) = F32 39"
      by (simp_all add: f32_clamp_def f32_less_def)
    show ?thesis
      using ra f32_to_int_of_int [of 0 "2 ^ 64 - 1" 0] f32_to_int_of_int [of 0 "2 ^ 64 - 1" 39]
      by (auto simp: point_index_for_def f32_arith_simps(2,6) c20 c39 r f32_round_away_def inf y_def
          [symmetric] Let_def)
  qed
qed

lemma point_index_for_cases:
  "point_index_for t = None \<longleftrightarrow> \<not> f32_is_finite t"
  by (simp add: point_index_for_def Let_def)

lemma point_index_for_less: "point_index_for t = Some i \<Longrightarrow> i < 40"
proof (cases t)
  case (F32 x)
  then show "point_index_for t = Some i \<Longrightarrow> i < 40" by (auto simp: point_index_for_finite)
qed (auto simp: point_index_for_def f32_is_finite_def)

lemma point_index_for_mono:
  assumes "x \<le> y" "point_index_for (F32 x) = Some i" "point_index_for (F32 y) = Some j"
  shows "i \<le> j"
proof -
  have "round_away (round_sig (x - 20)) \<le> round_away (round_sig (y - 20))"
    using assms(1) by (intro round_away_mono round_sig_mono) simp
  then show ?thesis using assms(2,3) by (auto simp: point_index_for_finite)
qed

lemma point_index_for_integer:
  assumes "20 \<le> i" "i \<le> 59"
  shows "point_index_for (F32 (of_int i)) = Some (nat (i - 20))"
proof -
  have "round_sig (of_int (i - 20)) = of_int (i - 20)"
    using assms by (intro round_sig_of_int) simp
  then have "round_away (round_sig (of_int i - 20)) = i - 20"
    by (metis of_int_diff of_int_numeral round_away_of_int)
  then show ?thesis using assms by (simp add: point_index_for_finite)
qed

end
