(* ===== verification/Profile.thy ===== *)
theory Profile
  imports Interpolation
begin

text \<open>
  \<open>crates/core/src/profile.rs\<close>: cooling programs, named profiles, and the validation every value
  passes before it can reach the hardware. The validators return the first error the code returns.
  The lemmas characterise what each accepts, show that an edited node set draws a curve that
  passes, and that a validated curve never selects a lower duty for a hotter coolant.
\<close>

definition CONFIG_SCHEMA_VERSION :: u32 where "CONFIG_SCHEMA_VERSION = 4"
definition SAFE_PROFILE_NAME :: string where "SAFE_PROFILE_NAME = ''Onboard safe''"
definition PROFILE_NAME_MIN_LEN :: nat where "PROFILE_NAME_MIN_LEN = 1"
definition PROFILE_NAME_MAX_LEN :: nat where "PROFILE_NAME_MAX_LEN = 48"
definition MIN_PROGRAM_INTERVAL_MS :: u64 where "MIN_PROGRAM_INTERVAL_MS = 200"

section \<open>Programs and profiles\<close>

datatype cooling_program =
    Onboard
  | FixedDuty u8 u8
  | CurveProgram temperature_curve temperature_curve

definition required_capabilities :: "cooling_program \<Rightarrow> capability_id list" where
  "required_capabilities p = (case p of
      Onboard \<Rightarrow> []
    | FixedDuty _ _ \<Rightarrow> [PumpDuty, FanDuty]
    | CurveProgram _ _ \<Rightarrow> [PumpCurve, FanCurve])"

record profile =
  pf_name :: string
  pf_program :: cooling_program
  pf_device :: "device_id option"
  pf_lighting :: "lighting_command list"
  pf_display :: "display_preset option"

definition profile_safe :: profile where
  "profile_safe = \<lparr>pf_name = SAFE_PROFILE_NAME, pf_program = Onboard, pf_device = None,
    pf_lighting = [], pf_display = None\<rparr>"

definition is_safe_builtin :: "profile \<Rightarrow> bool" where
  "is_safe_builtin p = (pf_name p = SAFE_PROFILE_NAME \<and> pf_program p = Onboard \<and>
    pf_lighting p = [] \<and> pf_display p = None)"

lemma profile_safe_builtin [simp]: "is_safe_builtin profile_safe"
  by (simp add: is_safe_builtin_def profile_safe_def)

section \<open>Validation\<close>

definition validate_duty :: "channel \<Rightarrow> u8 \<Rightarrow> validation_error + unit" where
  "validate_duty ch v = (if v < min_duty ch then Inl (DutyOutOfRange ch v (min_duty ch) MAX_DUTY)
    else Inr ())"

text \<open>The loop over the points, with the index it has reached and the previous point.\<close>

fun validate_points :: "channel \<Rightarrow> nat \<Rightarrow> (u8 \<times> u8) option \<Rightarrow> u8 list \<Rightarrow> validation_error + unit" where
  "validate_points ch i prev [] = Inr ()"
| "validate_points ch i prev (v # vs) =
    (let t = curve_temperature_at i in
     if v < min_duty ch then Inl (CurveDutyOutOfRange ch t v (min_duty ch) MAX_DUTY)
     else (case prev of
        Some (pv, pt) \<Rightarrow>
          if v < pv then Inl (CurveNotMonotonic ch pv pt v t)
          else validate_points ch (Suc i) (Some (v, t)) vs
      | None \<Rightarrow> validate_points ch (Suc i) (Some (v, t)) vs))"

definition validate_curve :: "channel \<Rightarrow> temperature_curve \<Rightarrow> validation_error + unit" where
  "validate_curve ch c = validate_points ch 0 None (points c)"

definition validate_name :: "string \<Rightarrow> validation_error + unit" where
  "validate_name name =
    (if trim name \<noteq> name \<or> trim name = [] then Inl NameBlank
     else if \<not> (PROFILE_NAME_MIN_LEN \<le> char_count name \<and> char_count name \<le> PROFILE_NAME_MAX_LEN)
     then Inl (NameLength PROFILE_NAME_MIN_LEN PROFILE_NAME_MAX_LEN)
     else Inr ())"

definition validate_program :: "cooling_program \<Rightarrow> validation_error + unit" where
  "validate_program p = (case p of
      Onboard \<Rightarrow> Inr ()
    | FixedDuty pump fan \<Rightarrow>
        (case validate_duty Pump pump of Inl e \<Rightarrow> Inl e | Inr _ \<Rightarrow> validate_duty Fan fan)
    | CurveProgram pump fan \<Rightarrow>
        (case validate_curve Pump pump of Inl e \<Rightarrow> Inl e | Inr _ \<Rightarrow> validate_curve Fan fan))"

fun validate_lighting_list :: "lighting_command list \<Rightarrow> validation_error + unit" where
  "validate_lighting_list [] = Inr ()"
| "validate_lighting_list (c # cs) = (case validate_lighting_program (lc_program c) of
      Inl e \<Rightarrow> Inl (LightingInvalid (lc_channel c) e)
    | Inr _ \<Rightarrow> validate_lighting_list cs)"

definition validate_profile :: "profile \<Rightarrow> validation_error + unit" where
  "validate_profile p = (case validate_name (pf_name p) of
      Inl e \<Rightarrow> Inl e
    | Inr _ \<Rightarrow> (case validate_program (pf_program p) of
        Inl e \<Rightarrow> Inl e
      | Inr _ \<Rightarrow> (case validate_lighting_list (pf_lighting p) of
          Inl e \<Rightarrow> Inl e
        | Inr _ \<Rightarrow> (case pf_display p of
            None \<Rightarrow> Inr ()
          | Some d \<Rightarrow> map_err DisplayInvalid (validate_preset d)))))"

section \<open>Compatibility with a device\<close>

record incompatibility =
  inc_capability :: capability_id
  inc_reason :: string

definition capability_incompatibility ::
    "device_record \<Rightarrow> capability_id \<Rightarrow> incompatibility list" where
  "capability_incompatibility d i = (case capability_of d i of
      Some c \<Rightarrow>
        if is_writable (cap_state c) then []
        else [\<lparr>inc_capability = i, inc_reason = (case blocked_reason (cap_state c) of
          Some r \<Rightarrow> r | None \<Rightarrow> capability_label i @ '' is not writable.'')\<rparr>]
    | None \<Rightarrow> [\<lparr>inc_capability = i,
        inc_reason = capability_label i @ '' is absent from the capability record.''\<rparr>])"

definition program_incompatibilities :: "cooling_program \<Rightarrow> device_record \<Rightarrow> incompatibility list" where
  "program_incompatibilities p d =
    concat (map (capability_incompatibility d) (required_capabilities p))"

definition incompatibilities :: "profile \<Rightarrow> device_record \<Rightarrow> incompatibility list" where
  "incompatibilities p d =
    (case pf_device p of
      Some expected \<Rightarrow>
        if expected \<noteq> device_id_of d
        then [\<lparr>inc_capability = LiquidTemperature,
          inc_reason = ''Profile targets '' @ device_id_display expected @
            '' but the connected device is '' @ device_id_display (device_id_of d) @ ''.''\<rparr>]
        else []
    | None \<Rightarrow> []) @ program_incompatibilities (pf_program p) d"

section \<open>What the validators accept\<close>

lemma validate_duty_iff: "validate_duty ch v = Inr () \<longleftrightarrow> min_duty ch \<le> v"
  by (auto simp: validate_duty_def not_less)

lemma validate_points_iff:
  "validate_points ch i prev vs = Inr () \<longleftrightarrow>
    sorted (case prev of None \<Rightarrow> vs | Some (pv, _) \<Rightarrow> pv # vs) \<and> (\<forall>v \<in> set vs. min_duty ch \<le> v)"
proof (induction vs arbitrary: i prev)
  case Nil
  show ?case by (cases prev) auto
next
  case (Cons v vs)
  show ?case
  proof (cases prev)
    case None
    then show ?thesis using Cons [of "Suc i" "Some (v, curve_temperature_at i)"]
      by (auto simp: Let_def not_less)
  next
    case (Some p)
    then show ?thesis using Cons [of "Suc i" "Some (v, curve_temperature_at i)"]
      by (cases p) (auto simp: Let_def not_less intro: order_trans)
  qed
qed

lemma validate_curve_iff:
  "validate_curve ch c = Inr () \<longleftrightarrow> sorted (points c) \<and> (\<forall>v \<in> set (points c). min_duty ch \<le> v)"
  by (simp add: validate_curve_def validate_points_iff)

text \<open>The error names the first point at fault, with the temperature it stands for.\<close>

lemma validate_points_first:
  "validate_points ch i prev vs = Inl e \<Longrightarrow>
    \<exists>k < length vs. validate_points ch i prev (take k vs) = Inr () \<and>
      (e = CurveDutyOutOfRange ch (curve_temperature_at (i + k)) (vs ! k) (min_duty ch) MAX_DUTY \<and>
        vs ! k < min_duty ch \<or>
       (\<exists>pv pt. e = CurveNotMonotonic ch pv pt (vs ! k) (curve_temperature_at (i + k)) \<and> vs ! k < pv))"
proof (induction ch i prev vs rule: validate_points.induct)
  case (2 ch i prev v vs)
  consider "v < min_duty ch" | pv pt where "\<not> v < min_duty ch" "prev = Some (pv, pt)" "v < pv"
    | "\<not> v < min_duty ch" "\<And>pv pt. prev = Some (pv, pt) \<Longrightarrow> \<not> v < pv"
    by force
  then show ?case
  proof cases
    case 1
    then show ?thesis using 2(3) by (intro exI [of _ 0]) (auto simp: Let_def)
  next
    case 2
    then show ?thesis using "2.prems" by (intro exI [of _ 0]) (auto simp: Let_def)
  next
    case 3
    have step: "validate_points ch i prev (v # ws) =
        validate_points ch (Suc i) (Some (v, curve_temperature_at i)) ws" for ws
      using 3 by (auto simp: Let_def split: option.split)
    have "validate_points ch (Suc i) (Some (v, curve_temperature_at i)) vs = Inl e \<Longrightarrow>
      \<exists>k < length vs. validate_points ch (Suc i) (Some (v, curve_temperature_at i)) (take k vs) = Inr () \<and>
      (e = CurveDutyOutOfRange ch (curve_temperature_at (Suc i + k)) (vs ! k) (min_duty ch) MAX_DUTY \<and>
        vs ! k < min_duty ch \<or>
       (\<exists>pv pt. e = CurveNotMonotonic ch pv pt (vs ! k) (curve_temperature_at (Suc i + k)) \<and> vs ! k < pv))"
      using "2.IH" 3 by (cases prev) auto
    then obtain k where "k < length vs"
      "validate_points ch (Suc i) (Some (v, curve_temperature_at i)) (take k vs) = Inr ()"
      "e = CurveDutyOutOfRange ch (curve_temperature_at (Suc i + k)) (vs ! k) (min_duty ch) MAX_DUTY \<and>
        vs ! k < min_duty ch \<or>
       (\<exists>pv pt. e = CurveNotMonotonic ch pv pt (vs ! k) (curve_temperature_at (Suc i + k)) \<and> vs ! k < pv)"
      using "2.prems" unfolding step by blast
    then show ?thesis
      by (intro exI [of _ "Suc k"]) (simp add: step del: validate_points.simps)
  qed
qed simp

section \<open>Properties\<close>

text \<open>What can reach the hardware. A program passes exactly when it is Onboard, or a fixed pair
  whose pump duty is at least 51 of 255, or a pair of curves that never decrease with the pump curve
  at or above that floor at every point: the pump is never commanded to stop. A refused curve is
  refused at its first bad point, with the temperature of that point in the error.\<close>

theorem validate_program_accepts_iff:
  "validate_program p = Inr () \<longleftrightarrow> (case p of
      Onboard \<Rightarrow> True
    | FixedDuty pump fan \<Rightarrow> 51 \<le> unat pump
    | CurveProgram pump fan \<Rightarrow> sorted (points pump) \<and> sorted (points fan) \<and>
        (\<forall>v \<in> set (points pump). 51 \<le> unat v))"
proof -
  have m: "min_duty Pump \<le> v \<longleftrightarrow> 51 \<le> unat v" "min_duty Fan \<le> v" for v
    by (simp_all add: MIN_PUMP_DUTY_def MIN_FAN_DUTY_def word_le_nat_alt)
  show ?thesis
  proof (cases p)
    case (FixedDuty pump fan)
    show ?thesis using validate_duty_iff [of Pump pump] validate_duty_iff [of Fan fan]
      by (auto simp: FixedDuty validate_program_def m simp del: min_duty.simps split: sum.split)
  next
    case (CurveProgram pump fan)
    show ?thesis using validate_curve_iff [of Pump pump] validate_curve_iff [of Fan fan]
      by (auto simp: CurveProgram validate_program_def m simp del: min_duty.simps split: sum.split)
  qed (simp add: validate_program_def)
qed

theorem validate_program_accepts_iff_witness:
  "validate_program (CurveProgram (curve_flat 51) (curve_flat 0)) = Inr () \<and>
   validate_program (FixedDuty 50 200) \<noteq> Inr ()"
  using validate_program_accepts_iff [of "CurveProgram (curve_flat 51) (curve_flat 0)"]
    validate_program_accepts_iff [of "FixedDuty 50 200"]
  by (simp add: curve_flat_def)

text \<open>Whatever sequence of edits an operator makes from a flat start, the curve the editor draws
  passes validation on the fan, and passes on the pump as long as no edit went below the pump
  floor.\<close>

theorem edited_curve_validates:
  "validate_curve Fan (interpolate (foldl (\<lambda>ns e. nodes_set ns (fst e) (snd e)) (nodes_flat d) es)) = Inr ()
   \<and> ((\<forall>e \<in> set ((0, d) # es). 51 \<le> unat (snd e)) \<longrightarrow>
     validate_curve Pump (interpolate (foldl (\<lambda>ns e. nodes_set ns (fst e) (snd e)) (nodes_flat d) es)) = Inr ())"
proof -
  define run where "run = foldl (\<lambda>ns e. nodes_set ns (fst e) (snd e)) (nodes_flat d)"
  have srt: "nodes_sorted (run es)" unfolding run_def by (rule node_edits.inv_run)
  have fan: "validate_curve Fan (interpolate (run es)) = Inr ()"
    using interpolate_sorted [OF srt] by (simp add: validate_curve_iff MIN_FAN_DUTY_def)
  have floor: "51 \<le> unat (node_duty (run es) ! j)"
    if "\<forall>e \<in> set ((0, d) # es). 51 \<le> unat (snd e)" "j < 9" for j
    using that(1)
  proof (induction es rule: rev_induct)
    case Nil
    then show ?case using that(2) by (simp add: run_def nodes_flat_def CURVE_NODE_COUNT_def)
  next
    case (snoc e es)
    have ok: "nodes_ok (run es)"
      using node_edits.inv_run [of d es] by (simp add: run_def nodes_sorted_def)
    have "run (es @ [e]) = nodes_set (run es) (fst e) (snd e)" by (simp add: run_def)
    then show ?case
      using snoc nodes_set_nth [OF ok, of j "fst e" "snd e"] that(2)
      by (auto simp: CURVE_NODE_COUNT_def min_def max_def)
  qed
  have "validate_curve Pump (interpolate (run es)) = Inr ()"
    if h: "\<forall>e \<in> set ((0, d) # es). 51 \<le> unat (snd e)"
  proof -
    have "51 \<le> unat (points (interpolate (run es)) ! k)" if "k < 40" for k
    proof -
      have "segment k < 9" using segment_facts(1) [OF that] by simp
      from floor [OF h this] show ?thesis
        using interpolate_between(1) [OF srt that] by (simp add: word_le_nat_alt)
    qed
    then have "\<forall>v \<in> set (points (interpolate (run es))). 51 \<le> unat v"
      by (auto simp: in_set_conv_nth interpolate_def CURVE_POINT_COUNT_def)
    then show ?thesis
      using interpolate_sorted [OF srt]
      by (simp add: validate_curve_iff MIN_PUMP_DUTY_def word_le_nat_alt)
  qed
  with fan show ?thesis unfolding run_def by blast
qed

theorem edited_curve_validates_witness:
  "validate_curve Pump (interpolate (nodes_set (nodes_set (nodes_flat 80) 6 200) 2 60)) = Inr ()"
  using edited_curve_validates [of 80 "[(6, 200), (2, 60)]"] by simp

text \<open>A validated curve is safe to follow: it answers for every temperature that is a number,
  a hotter coolant never gets a lower duty, and no temperature gets more than \<open>highest_duty\<close>, the
  duty the fallback uses.\<close>

theorem validated_curve_monotone:
  assumes "curve_ok c" "validate_curve ch c = Inr ()" "x \<le> y"
  shows "\<exists>a b. duty_at c (F32 x) = Some a \<and> duty_at c (F32 y) = Some b \<and> a \<le> b \<and>
    b \<le> highest_duty c \<and> min_duty ch \<le> a"
proof -
  obtain i j where ij: "point_index_for (F32 x) = Some i" "point_index_for (F32 y) = Some j"
    by (simp add: point_index_for_finite)
  have len: "length (points c) = 40" using assms(1) by (simp add: curve_ok_def CURVE_POINT_COUNT_def)
  have b: "i \<le> j" "j < 40" "i < 40"
    using point_index_for_mono [OF assms(3) ij] ij by (auto dest: point_index_for_less)
  have s: "sorted (points c)" "\<forall>v \<in> set (points c). min_duty ch \<le> v"
    using assms(2) by (simp_all add: validate_curve_iff)
  have "points c ! i \<le> points c ! j" "points c ! j \<le> points c ! 39"
    using b len s(1) by (auto intro: sorted_nth_mono)
  moreover have "min_duty ch \<le> points c ! i" using s(2) b len by simp
  ultimately show ?thesis
    using ij by (simp add: duty_at_def highest_duty_def CURVE_POINT_COUNT_def)
qed

theorem validated_curve_monotone_witness:
  "curve_ok (curve_flat 90) \<and> validate_curve Pump (curve_flat 90) = Inr () \<and>
   (\<exists>a b. duty_at (curve_flat 90) (F32 (61 / 2)) = Some a \<and> duty_at (curve_flat 90) (F32 70) = Some b \<and>
     a \<le> b \<and> b \<le> highest_duty (curve_flat 90) \<and> min_duty Pump \<le> a)"
proof -
  have v: "validate_curve Pump (curve_flat 90) = Inr ()"
    by (simp add: validate_curve_iff curve_flat_def MIN_PUMP_DUTY_def)
  show ?thesis
    using v validated_curve_monotone [of "curve_flat 90" Pump "61 / 2" 70] by simp
qed

text \<open>Activation on a device may proceed exactly when the profile targets that device or none and
  every capability the program needs is writable there; on a supported device the latter is the
  record's own write gate, and an Onboard program needs nothing.\<close>

theorem incompatibilities_empty_iff:
  "incompatibilities p d = [] \<longleftrightarrow>
    (pf_device p = None \<or> pf_device p = Some (device_id_of d)) \<and>
    list_all (\<lambda>i. \<exists>c. capability_of d i = Some c \<and> is_writable (cap_state c))
      (required_capabilities (pf_program p))"
proof -
  have "capability_incompatibility d i = [] \<longleftrightarrow>
      (\<exists>c. capability_of d i = Some c \<and> is_writable (cap_state c))" for i
    by (auto simp: capability_incompatibility_def split: option.splits)
  then have "program_incompatibilities (pf_program p) d = [] \<longleftrightarrow>
      list_all (\<lambda>i. \<exists>c. capability_of d i = Some c \<and> is_writable (cap_state c))
        (required_capabilities (pf_program p))"
    by (simp add: program_incompatibilities_def list_all_iff)
  then show ?thesis
    by (auto simp: incompatibilities_def split: option.splits)
qed

lemma program_incompatibilities_Onboard [simp]: "program_incompatibilities Onboard d = []"
  by (simp add: program_incompatibilities_def required_capabilities_def)

end
