(* ===== verification/Ipc.thy ===== *)
theory Ipc
  imports Profile
begin

text \<open>
  \<open>crates/core/src/ipc.rs\<close> and \<open>ipc/frame.rs\<close>: the requests, the responses and their outcomes, the
  typed refusals, and the newline-delimited framing with its ceiling. The JSON encoder and decoder
  (\<open>serde_json\<close>) are parameters of the framing. A byte stream is the bytes it will still deliver and,
  when it ends in an I/O error rather than an end of file, that error.
\<close>

definition PROTOCOL_VERSION :: u32 where "PROTOCOL_VERSION = 9"

section \<open>Outcomes and states\<close>

datatype hardware_state = HwOnboard | HwConfirmed | HwNotApplied string | HwUncertain string

record channel_readback =
  rb_channel :: channel
  rb_mode :: "pwm_mode option"
  rb_duty :: "u8 option"
  rb_curve_points_confirmed :: "u16 option"
  rb_mismatch :: "string option"

definition readback_new :: "channel \<Rightarrow> channel_readback" where
  "readback_new ch = \<lparr>rb_channel = ch, rb_mode = None, rb_duty = None,
    rb_curve_points_confirmed = None, rb_mismatch = None\<rparr>"

definition readback_is_confirmed :: "channel_readback \<Rightarrow> bool" where
  "readback_is_confirmed r = (rb_mismatch r = None \<and> (rb_mode r \<noteq> None \<or> rb_duty r \<noteq> None))"

record apply_outcome =
  ao_hardware :: hardware_state
  ao_writes :: u32
  ao_deduplicated :: bool
  ao_readback :: "channel_readback list"

definition outcome_untouched :: "hardware_state \<Rightarrow> apply_outcome" where
  "outcome_untouched h = \<lparr>ao_hardware = h, ao_writes = 0, ao_deduplicated = False, ao_readback = []\<rparr>"

definition readback_for :: "apply_outcome \<Rightarrow> channel \<Rightarrow> channel_readback option" where
  "readback_for a ch = find (\<lambda>r. rb_channel r = ch) (ao_readback a)"

record lighting_outcome =
  lo_channel :: u8
  lo_program :: lighting_program
  lo_hardware :: hardware_state
  lo_writes :: u32
  lo_deduplicated :: bool

record display_outcome =
  do_preset :: display_preset
  do_hardware :: hardware_state
  do_frames :: u32
  do_deduplicated :: bool
  do_brightness_sent :: bool

record display_state =
  dst_panel :: "lcd_panel option"
  dst_committed :: "display_preset option"
  dst_streaming :: bool
  dst_faulted :: "string option"
  dst_dropped_frames :: u64

record lighting_channel_state =
  lcs_channel :: u8
  lcs_accessories :: "string list"
  lcs_committed :: "lighting_program option"

record activation_outcome =
  act_name :: string
  act_hardware :: hardware_state
  act_applied :: "apply_outcome option"

record ownership_conflict =
  oc_device :: "device_id option"
  oc_resource :: string
  oc_detail :: string

datatype access_mode = ReadWrite | AccessReadOnly "ownership_conflict list"

definition access_is_read_only :: "access_mode \<Rightarrow> bool" where
  "access_is_read_only a = (case a of ReadWrite \<Rightarrow> False | AccessReadOnly _ \<Rightarrow> True)"

record blocked_capability =
  bc_capability :: capability_id
  bc_reason :: string

record device_status =
  ds_id :: device_id
  ds_present :: bool
  ds_owned :: bool
  ds_writable :: "capability_id list"
  ds_blocked :: "blocked_capability list"

datatype config_state = ConfigDefaults | ConfigIsLoaded | ConfigIsRecovered string string string

definition recovery_message :: "config_state \<Rightarrow> string option" where
  "recovery_message c = (case c of
      ConfigIsRecovered detail path action \<Rightarrow>
        Some (''Configuration could not be loaded ('' @ detail @
          ''). Safe defaults are active. The previous file was kept at '' @ path @ ''. '' @ action)
    | _ \<Rightarrow> None)"

record daemon_status =
  dm_daemon_version :: string
  dm_protocol_version :: u32
  dm_access :: access_mode
  dm_devices :: "device_status list"
  dm_active_profile :: string
  dm_config :: config_state
  dm_cooling :: "cooling_program option"
  dm_lighting :: "lighting_channel_state list"
  dm_display :: display_state
  dm_socket_path :: string

datatype ipc_error =
    UnsupportedProtocol u32 u32
  | Malformed string
  | FrameTooLarge nat
  | HandshakeRequired
  | PeerRejected string
  | ValidationFailed validation_error
  | LightingFailed lighting_error
  | DisplayFailed display_error
  | ReadOnlyRefused string
  | Incompatible "incompatibility list"
  | ProfileNotFound string
  | ProfileNameUnavailable string
  | NoDevicePresent
  | IoFailed string

section \<open>Requests\<close>

datatype request =
    ReqHello u32
  | ReqStatus
  | ReqCapabilities
  | ReqProfiles
  | ReqSaveProfile profile
  | ReqActivateProfile string
  | ReqDeleteProfile string
  | ReqTelemetry
  | ReqApplyProgram cooling_program
  | ReqApplyLighting lighting_command
  | ReqApplyDisplay display_preset
  | ReqDiagnostics

section \<open>Framing\<close>

definition MAX_FRAME_BYTES :: nat where "MAX_FRAME_BYTES = 256 * 1024"

datatype frame_error = FrameClosed | FrameOverflow nat | FrameDecode string | FrameIo string

definition as_ipc_error :: "frame_error \<Rightarrow> ipc_error option" where
  "as_ipc_error e = (case e of
      FrameClosed \<Rightarrow> None
    | FrameOverflow n \<Rightarrow> Some (FrameTooLarge n)
    | FrameDecode d \<Rightarrow> Some (Malformed d)
    | FrameIo d \<Rightarrow> Some (IoFailed d))"

definition NEWLINE :: char where "NEWLINE = CHR 0x0A"

text \<open>The bytes to send: \<open>to_vec\<close> is the encoder; the writer itself only moves them.\<close>

definition write_frame :: "('a \<Rightarrow> string + string) \<Rightarrow> 'a \<Rightarrow> frame_error + string" where
  "write_frame to_vec v = (case to_vec v of
      Inl e \<Rightarrow> Inl (FrameDecode e)
    | Inr encoded \<Rightarrow>
        if MAX_FRAME_BYTES < length encoded + 1 then Inl (FrameOverflow MAX_FRAME_BYTES)
        else Inr (encoded @ [NEWLINE]))"

record byte_stream =
  bs_bytes :: string
  bs_error :: "string option"

text \<open>\<open>read_until\<close> under \<open>take\<close>: up to and including the first newline, at most \<open>limit\<close> bytes; an
  error of the stream is met only when it is read past its last byte.\<close>

definition read_until :: "nat \<Rightarrow> byte_stream \<Rightarrow> (string + string) \<times> byte_stream" where
  "read_until limit s =
    (let window = take limit (bs_bytes s);
         line = takeWhile (\<lambda>c. c \<noteq> NEWLINE) window
     in if length line < length window
        then (Inr (line @ [NEWLINE]), s\<lparr>bs_bytes := drop (length line + 1) (bs_bytes s)\<rparr>)
        else if length window < limit
        then (case bs_error s of
            Some e \<Rightarrow> (Inl e, s\<lparr>bs_bytes := []\<rparr>)
          | None \<Rightarrow> (Inr window, s\<lparr>bs_bytes := []\<rparr>))
        else (Inr window, s\<lparr>bs_bytes := drop limit (bs_bytes s)\<rparr>))"

definition read_frame ::
    "(string \<Rightarrow> string + 'a) \<Rightarrow> byte_stream \<Rightarrow> (frame_error + 'a) \<times> byte_stream" where
  "read_frame from_slice s = (case read_until MAX_FRAME_BYTES s of
      (Inl e, s') \<Rightarrow> (Inl (FrameIo e), s')
    | (Inr buffer, s') \<Rightarrow>
        (if buffer = [] then (Inl FrameClosed, s')
         else if last buffer \<noteq> NEWLINE
         then (Inl (if MAX_FRAME_BYTES \<le> length buffer then FrameOverflow MAX_FRAME_BYTES
           else FrameClosed), s')
         else (map_err FrameDecode (from_slice (butlast buffer)), s')))"

lemma read_until_line:
  assumes "NEWLINE \<notin> set line" "length line < limit"
  shows "read_until limit \<lparr>bs_bytes = line @ NEWLINE # rest, bs_error = e\<rparr> =
    (Inr (line @ [NEWLINE]), \<lparr>bs_bytes = rest, bs_error = e\<rparr>)"
proof -
  obtain k where k: "limit = length line + Suc k"
    using assms(2) less_imp_Suc_add by fastforce
  have w: "take limit (line @ NEWLINE # rest) = line @ NEWLINE # take k rest"
    by (simp add: k)
  have t: "takeWhile (\<lambda>c. c \<noteq> NEWLINE) (line @ NEWLINE # take k rest) = line"
    using assms(1) by (subst takeWhile_append2) auto
  show ?thesis by (simp only: read_until_def Let_def byte_stream.simps w t) simp
qed

lemma read_until_length:
  assumes "read_until limit s = (Inr buffer, s')"
  shows "length buffer \<le> limit \<and> bs_bytes s = buffer @ bs_bytes s'"
proof -
  let ?w = "take limit (bs_bytes s)"
  let ?l = "takeWhile (\<lambda>c. c \<noteq> NEWLINE) ?w"
  show ?thesis
  proof (cases "length ?l < length ?w")
    case True
    have nl: "?w ! length ?l = NEWLINE" using True nth_length_takeWhile by blast
    have b: "buffer = ?l @ [NEWLINE]" "bs_bytes s' = drop (length ?l + 1) (bs_bytes s)"
      using assms True by (auto simp: read_until_def Let_def)
    have "take (Suc (length ?l)) ?w = take (length ?l) ?w @ [?w ! length ?l]"
      using True by (rule take_Suc_conv_app_nth)
    then have "buffer = take (Suc (length ?l)) ?w"
      using takeWhile_eq_take [of "\<lambda>c. c \<noteq> NEWLINE" ?w] by (simp add: b nl)
    then have e: "buffer = take (Suc (length ?l)) (bs_bytes s)"
      using True by (simp add: min_def split: if_splits)
    have "bs_bytes s = buffer @ bs_bytes s'"
      unfolding e b(2) by (simp add: append_take_drop_id)
    then show ?thesis using True b(1) by simp
  next
    case False
    then show ?thesis
      using assms by (auto simp: read_until_def Let_def split: if_splits option.splits)
  qed
qed

text \<open>C25: framing is a round trip: whatever frame one end manages to write, the other end reads back
  as the same value and leaves the stream exactly after it, so frames written one after another are
  read one by one. The JSON codec is a parameter: it decodes what it encoded and puts no raw newline
  in its output.\<close>

theorem frame_round_trip:
  assumes "write_frame to_vec v = Inr bytes"
    and "\<And>b. to_vec v = Inr b \<Longrightarrow> from_slice b = Inr v \<and> NEWLINE \<notin> set b"
  shows "read_frame from_slice \<lparr>bs_bytes = bytes @ rest, bs_error = e\<rparr> =
    (Inr v, \<lparr>bs_bytes = rest, bs_error = e\<rparr>)"
proof -
  obtain b where b: "to_vec v = Inr b" "bytes = b @ [NEWLINE]" "length b + 1 \<le> MAX_FRAME_BYTES"
    using assms(1) by (auto simp: write_frame_def not_less split: sum.splits if_splits)
  then have "read_until MAX_FRAME_BYTES \<lparr>bs_bytes = bytes @ rest, bs_error = e\<rparr> =
      (Inr (b @ [NEWLINE]), \<lparr>bs_bytes = rest, bs_error = e\<rparr>)"
    using read_until_line [of b MAX_FRAME_BYTES rest e] assms(2) by simp
  then show ?thesis using assms(2) [OF b(1)] by (simp add: read_frame_def)
qed

text \<open>A concrete codec for the witness: natural numbers in decimal.\<close>

theorem frame_round_trip_witness:
  "read_frame (\<lambda>s. case parse_unsigned 10 99 s of None \<Rightarrow> Inl ''bad'' | Some n \<Rightarrow> Inr n)
     \<lparr>bs_bytes = (''42'' @ [NEWLINE]) @ ''7'', bs_error = None\<rparr> =
   (Inr (42 :: nat), \<lparr>bs_bytes = ''7'', bs_error = None\<rparr>)"
proof (rule frame_round_trip [of "\<lambda>n. Inr (if n = 42 then ''42'' else show_nat n)"])
  show "write_frame (\<lambda>n. Inr (if n = 42 then ''42'' else show_nat n)) (42 :: nat) =
      Inr (''42'' @ [NEWLINE])"
    by (simp add: write_frame_def MAX_FRAME_BYTES_def)
  show "(case parse_unsigned 10 99 b of None \<Rightarrow> Inl ''bad'' | Some n \<Rightarrow> Inr n) = Inr (42 :: nat) \<and>
      NEWLINE \<notin> set b"
    if "(Inr (if (42 :: nat) = 42 then ''42'' else show_nat 42) :: string + string) = Inr b" for b
    using that by (auto simp: parse_unsigned_def to_digit_def byte_def NEWLINE_def Let_def)
qed

text \<open>The ceiling holds while reading: a read never takes more than the limit off the stream,
  a line with no newline within the limit is refused as too large, and a peer that vanishes in the
  middle of a frame is a closed connection, never a value.\<close>

theorem read_frame_bounded:
  "(\<exists>taken. bs_bytes s = taken @ bs_bytes (snd (read_frame from_slice s)) \<and>
     length taken \<le> MAX_FRAME_BYTES) \<and>
   (MAX_FRAME_BYTES \<le> length (bs_bytes s) \<and> NEWLINE \<notin> set (take MAX_FRAME_BYTES (bs_bytes s)) \<longrightarrow>
     fst (read_frame from_slice s) = Inl (FrameOverflow MAX_FRAME_BYTES)) \<and>
   (length (bs_bytes s) < MAX_FRAME_BYTES \<and> NEWLINE \<notin> set (bs_bytes s) \<and> bs_error s = None \<longrightarrow>
     fst (read_frame from_slice s) = Inl FrameClosed)"
proof (intro conjI impI)
  obtain r s' where r: "read_until MAX_FRAME_BYTES s = (r, s')" by force
  have rest: "snd (read_frame from_slice s) = s'"
    by (simp add: read_frame_def r split: sum.split)
  show "\<exists>taken. bs_bytes s = taken @ bs_bytes (snd (read_frame from_slice s)) \<and>
      length taken \<le> MAX_FRAME_BYTES"
  proof (cases r)
    case (Inl e)
    then have "bs_bytes s' = []" "length (bs_bytes s) < MAX_FRAME_BYTES"
      using r by (auto simp: read_until_def Let_def split: if_splits option.splits)
    then show ?thesis unfolding rest by (intro exI [of _ "bs_bytes s"]) simp
  next
    case (Inr buffer)
    then show ?thesis unfolding rest using read_until_length [of MAX_FRAME_BYTES s buffer s'] r by blast
  qed
next
  assume h: "MAX_FRAME_BYTES \<le> length (bs_bytes s) \<and> NEWLINE \<notin> set (take MAX_FRAME_BYTES (bs_bytes s))"
  let ?w = "take MAX_FRAME_BYTES (bs_bytes s)"
  have t: "takeWhile (\<lambda>c. c \<noteq> NEWLINE) ?w = ?w" using h by (intro takeWhile_eq_all_conv [THEN iffD2]) auto
  have len: "length ?w = MAX_FRAME_BYTES" using h by simp
  have ne: "?w \<noteq> []" using len by (auto simp: MAX_FRAME_BYTES_def)
  have "last ?w \<noteq> NEWLINE" using h ne last_in_set by metis
  moreover have "fst (read_until MAX_FRAME_BYTES s) = Inr ?w"
    unfolding read_until_def Let_def t len by simp
  ultimately show "fst (read_frame from_slice s) = Inl (FrameOverflow MAX_FRAME_BYTES)"
    using ne len by (cases "read_until MAX_FRAME_BYTES s") (auto simp: read_frame_def)
next
  assume h: "length (bs_bytes s) < MAX_FRAME_BYTES \<and> NEWLINE \<notin> set (bs_bytes s) \<and> bs_error s = None"
  have t: "takeWhile (\<lambda>c. c \<noteq> NEWLINE) (bs_bytes s) = bs_bytes s"
    using h by (intro takeWhile_eq_all_conv [THEN iffD2]) auto
  have "fst (read_until MAX_FRAME_BYTES s) = Inr (bs_bytes s)"
  proof -
    have tk: "take MAX_FRAME_BYTES (bs_bytes s) = bs_bytes s" using h by simp
    show ?thesis unfolding read_until_def Let_def tk t using h by simp
  qed
  then show "fst (read_frame from_slice s) = Inl FrameClosed"
    using h last_in_set [of "bs_bytes s"]
    by (cases "read_until MAX_FRAME_BYTES s") (auto simp: read_frame_def simp del: last_in_set)
qed

theorem read_frame_bounded_witness:
  "fst (read_frame (\<lambda>s. Inr s) \<lparr>bs_bytes = ''{}'', bs_error = None\<rparr>) = Inl FrameClosed"
  using read_frame_bounded [of "\<lparr>bs_bytes = ''{}'', bs_error = None\<rparr>" "\<lambda>s. Inr s"]
  by (simp add: MAX_FRAME_BYTES_def NEWLINE_def)

end
