(* ===== verification/Diagnostics.thy ===== *)
theory Diagnostics
  imports Ipc "HOL-Library.Sublist"
begin

text \<open>
  \<open>crates/core/src/diagnostics.rs\<close>: the bounded in-memory event log and the redacted export. A JSON
  document is a tree; the conversion of an export to such a tree and back (\<open>serde_json\<close>) is a
  parameter. The lemmas show that the log keeps exactly the newest events up to its capacity and
  that no string of a redacted document contains a registered secret.
\<close>

definition DIAGNOSTICS_SCHEMA_VERSION :: u32 where "DIAGNOSTICS_SCHEMA_VERSION = 1"
definition DEFAULT_CAPACITY :: nat where "DEFAULT_CAPACITY = 512"
definition REDACTION_PLACEHOLDER :: string where "REDACTION_PLACEHOLDER = ''[redacted]''"
definition MIN_SECRET_LEN :: nat where "MIN_SECRET_LEN = 4"

section \<open>Events\<close>

datatype severity = SevInfo | SevWarning | SevError

datatype event_kind =
    DaemonStarted string string
  | DaemonStopping string
  | DeviceDiscovered device_id string
  | DeviceRejected device_id string
  | CapabilityResolved device_id capability_id string
  | OwnershipAcquired device_id string
  | OwnershipConflict "device_id option" string string
  | AccessModeChanged bool string
  | ClientAccepted u32 i32
  | ClientRejected string
  | ClientDisconnected string
  | RequestRejected ipc_error
  | ProfileActivated string hardware_state
  | ProfileSaved string
  | ProfileDeleted string
  | ConfigLoaded string
  | ConfigRecovered string string
  | ProgramApplied hardware_state u32
  | LightingApplied u8 string hardware_state u32
  | DisplayApplied string hardware_state u32
  | CurveDiverged channel i32 u8 u8
  | SessionNotRecorded string
  | CollectorFailed collector string
  | CollectorRecovered collector

definition hardware_severity :: "hardware_state \<Rightarrow> severity" where
  "hardware_severity h = (case h of
      HwUncertain _ \<Rightarrow> SevError
    | HwNotApplied _ \<Rightarrow> SevWarning
    | HwConfirmed \<Rightarrow> SevInfo
    | HwOnboard \<Rightarrow> SevInfo)"

definition severity_of :: "event_kind \<Rightarrow> severity" where
  "severity_of k = (case k of
      DeviceRejected _ _ \<Rightarrow> SevWarning
    | OwnershipConflict _ _ _ \<Rightarrow> SevWarning
    | ClientRejected _ \<Rightarrow> SevWarning
    | RequestRejected _ \<Rightarrow> SevWarning
    | CollectorFailed _ _ \<Rightarrow> SevWarning
    | ConfigRecovered _ _ \<Rightarrow> SevWarning
    | SessionNotRecorded _ \<Rightarrow> SevWarning
    | CurveDiverged _ _ _ _ \<Rightarrow> SevWarning
    | ProgramApplied h _ \<Rightarrow> hardware_severity h
    | LightingApplied _ _ h _ \<Rightarrow> hardware_severity h
    | DisplayApplied _ h _ \<Rightarrow> hardware_severity h
    | AccessModeChanged read_only _ \<Rightarrow> if read_only then SevWarning else SevInfo
    | _ \<Rightarrow> SevInfo)"

record diagnostic_event =
  ev_at_unix_ms :: u64
  ev_severity :: severity
  ev_kind :: event_kind

section \<open>Redaction\<close>

type_synonym redactor = "string list"

definition add_secret :: "redactor \<Rightarrow> string \<Rightarrow> redactor" where
  "add_secret r s = (if MIN_SECRET_LEN \<le> length s \<and> s \<notin> set r then r @ [s] else r)"

text \<open>\<open>str::replace\<close>: left to right, without overlaps. The patterns here are never empty.\<close>

function replace_all :: "string \<Rightarrow> string \<Rightarrow> string \<Rightarrow> string" where
  "replace_all pat to [] = []"
| "replace_all pat to (c # cs) =
    (if pat \<noteq> [] \<and> starts_with pat (c # cs)
     then to @ replace_all pat to (drop (length pat) (c # cs))
     else c # replace_all pat to cs)"
  by pat_completeness auto
termination
  by (relation "measure (\<lambda>(pat, to, s). length s)") auto

definition contains :: "string \<Rightarrow> string \<Rightarrow> bool" where
  "contains s pat = sublist pat s"

definition redact :: "redactor \<Rightarrow> string \<Rightarrow> string" where
  "redact secrets text = foldl (\<lambda>out secret.
      if contains out secret then replace_all secret REDACTION_PLACEHOLDER out else out)
    text secrets"

datatype json = JNull | JBool bool | JNumber int | JString string | JArray "json list"
  | JObject "(string \<times> json) list"

fun redact_json :: "redactor \<Rightarrow> json \<Rightarrow> json" where
  "redact_json r (JString s) = JString (redact r s)"
| "redact_json r (JArray vs) = JArray (map (redact_json r) vs)"
| "redact_json r (JObject kvs) = JObject (map (\<lambda>(k, v). (k, redact_json r v)) kvs)"
| "redact_json r v = v"

fun json_strings :: "json \<Rightarrow> string list" where
  "json_strings (JString s) = [s]"
| "json_strings (JArray vs) = concat (map json_strings vs)"
| "json_strings (JObject kvs) = concat (map (\<lambda>(k, v). json_strings v) kvs)"
| "json_strings v = []"

section \<open>The log\<close>

record diagnostics_log =
  dl_events :: "diagnostic_event list"
  dl_capacity :: nat
  dl_redactor :: redactor

definition log_with_capacity :: "nat \<Rightarrow> diagnostics_log" where
  "log_with_capacity n = \<lparr>dl_events = [], dl_capacity = max n 1, dl_redactor = []\<rparr>"

definition log_add_secret :: "diagnostics_log \<Rightarrow> string \<Rightarrow> diagnostics_log" where
  "log_add_secret l s = l\<lparr>dl_redactor := add_secret (dl_redactor l) s\<rparr>"

text \<open>The loop pops the front until there is room: \<open>drop\<close> of the excess.\<close>

fun pop_until_room :: "nat \<Rightarrow> diagnostic_event list \<Rightarrow> diagnostic_event list" where
  "pop_until_room cap [] = []"
| "pop_until_room cap (e # es) = (if cap \<le> length (e # es) then pop_until_room cap es else e # es)"

definition log_record :: "diagnostics_log \<Rightarrow> u64 \<Rightarrow> event_kind \<Rightarrow> diagnostics_log" where
  "log_record l stamp k = l\<lparr>dl_events := pop_until_room (dl_capacity l) (dl_events l) @
    [\<lparr>ev_at_unix_ms = stamp, ev_severity = severity_of k, ev_kind = k\<rparr>]\<rparr>"

record diagnostics_export =
  de_schema_version :: u32
  de_generated_at_unix_ms :: u64
  de_daemon_version :: string
  de_capabilities :: "capability_record option"
  de_events :: "diagnostic_event list"

definition log_export ::
    "(diagnostics_export \<Rightarrow> json option) \<Rightarrow> (json \<Rightarrow> diagnostics_export option) \<Rightarrow>
     diagnostics_log \<Rightarrow> u64 \<Rightarrow> string \<Rightarrow> capability_record option \<Rightarrow> diagnostics_export" where
  "log_export to_value from_value l generated version capabilities =
    (let export = \<lparr>de_schema_version = DIAGNOSTICS_SCHEMA_VERSION,
           de_generated_at_unix_ms = generated, de_daemon_version = version,
           de_capabilities = map_option redact_serials capabilities,
           de_events = dl_events l\<rparr>
     in (case to_value export of
          None \<Rightarrow> export\<lparr>de_capabilities := None, de_events := []\<rparr>
        | Some v \<Rightarrow> (case from_value (redact_json (dl_redactor l) v) of
            None \<Rightarrow> export\<lparr>de_capabilities := None, de_events := []\<rparr>
          | Some swept \<Rightarrow> swept)))"

section \<open>What redaction removes\<close>

text \<open>A secret that cannot be built out of the placeholder: no bracket in it, and not a piece of the
  word between the brackets. Every USB serial number of four characters or more that holds a digit
  or a capital is one.\<close>

definition redactable :: "string \<Rightarrow> bool" where
  "redactable s = (s \<noteq> [] \<and> CHR ''['' \<notin> set s \<and> CHR '']'' \<notin> set s \<and> \<not> sublist s ''redacted'')"

lemma placeholder_parts: "REDACTION_PLACEHOLDER = CHR ''['' # ''redacted'' @ [CHR '']'']"
  by (simp add: REDACTION_PLACEHOLDER_def)

lemma prefix_replace_all:
  "\<lbrakk>CHR ''['' \<notin> set a; prefix a (replace_all b REDACTION_PLACEHOLDER t)\<rbrakk> \<Longrightarrow> prefix a t"
proof (induction b REDACTION_PLACEHOLDER t arbitrary: a rule: replace_all.induct)
  case (2 b c cs)
  then show ?case
    by (cases a) (auto simp: placeholder_parts split: if_splits)
qed simp

lemma sublist_append_placeholder:
  assumes "redactable a" "sublist a (REDACTION_PLACEHOLDER @ t)"
  shows "sublist a t"
proof -
  obtain u w where uw: "REDACTION_PLACEHOLDER @ t = u @ a @ w"
    using assms(2) by (auto simp: sublist_def)
  have br: "CHR ''['' \<notin> set a" "CHR '']'' \<notin> set a" "a \<noteq> []"
    using assms(1) by (simp_all add: redactable_def)
  from uw consider x where "REDACTION_PLACEHOLDER = u @ x" "x @ t = a @ w"
    | x where "REDACTION_PLACEHOLDER @ x = u" "t = x @ a @ w"
    by (auto simp: append_eq_append_conv2)
  then show ?thesis
  proof cases
    case 2
    then show ?thesis by (simp add: sublist_appendI)
  next
    case 1
    show ?thesis
    proof (cases "x = []")
      case True
      then show ?thesis using 1 by (metis append_Nil sublist_appendI)
    next
      case False
      have lx: "last x = CHR '']''"
        using 1(1) False by (metis last_appendR last_snoc placeholder_parts append_Cons)
      from 1(2) consider y where "x = a @ y" | y where "x @ y = a" "t = y @ w"
        by (auto simp: append_eq_append_conv2)
      then show ?thesis
      proof cases
        case 2
        then have "last x \<in> set a" using False by auto
        then show ?thesis using br(2) lx by simp
      next
        case y: 1
        then have e: "CHR ''['' # ''redacted'' @ [CHR '']''] = u @ a @ y"
          using 1(1) by (simp add: placeholder_parts)
        have "y \<noteq> []"
          using y lx br False by (metis append_Nil2 last_in_set)
        then obtain y' z where y': "y = y' @ [z]" by (cases y rule: rev_cases) auto
        have u: "u \<noteq> []"
        proof
          assume "u = []"
          then have "hd a = CHR ''[''" using e br(3) by (metis append_Nil hd_append2 list.sel(1))
          then show False using br by (metis hd_in_set)
        qed
        then obtain c u' where u': "u = c # u'" by (cases u) auto
        have "''redacted'' = u' @ a @ y'"
          using e unfolding u' y' by (metis append.assoc append_Cons butlast_snoc list.inject)
        then have "sublist a ''redacted''" by (metis sublist_appendI)
        then show ?thesis using assms(1) by (simp add: redactable_def)
      qed
    qed
  qed
qed

lemma replace_all_keeps_out:
  "\<lbrakk>redactable a; \<not> sublist a t\<rbrakk> \<Longrightarrow> \<not> sublist a (replace_all b REDACTION_PLACEHOLDER t)"
proof (induction b REDACTION_PLACEHOLDER t rule: replace_all.induct)
  case (1 b)
  then show ?case by simp
next
  case (2 b c cs)
  have br: "CHR ''['' \<notin> set a" using 2(3) by (simp add: redactable_def)
  show ?case
  proof (cases "b \<noteq> [] \<and> starts_with b (c # cs)")
    case True
    have "\<not> sublist a (drop (length b) (c # cs))"
      using 2(4) by (meson sublist_drop sublist_order.order_trans)
    with True 2(1,3) show ?thesis by (auto dest: sublist_append_placeholder)
  next
    case False
    then have r: "replace_all b REDACTION_PLACEHOLDER (c # cs) =
        c # replace_all b REDACTION_PLACEHOLDER cs" by auto
    have cs: "\<not> sublist a cs" using 2(4) by (simp add: sublist_Cons_right)
    show ?thesis
    proof
      assume "sublist a (replace_all b REDACTION_PLACEHOLDER (c # cs))"
      then have "prefix a (replace_all b REDACTION_PLACEHOLDER (c # cs))"
        using 2(2) [OF False 2(3) cs] by (simp only: r sublist_Cons_right) blast
      then have "prefix a (c # cs)" by (rule prefix_replace_all [OF br])
      then show False using 2(4) by (simp add: prefix_imp_sublist)
    qed
  qed
qed

lemma replace_all_removes:
  "redactable a \<Longrightarrow> \<not> sublist a (replace_all a REDACTION_PLACEHOLDER t)"
proof (induction a REDACTION_PLACEHOLDER t rule: replace_all.induct)
  case (1 a)
  then show ?case by (simp add: redactable_def)
next
  case (2 a c cs)
  have br: "CHR ''['' \<notin> set a" using 2(3) by (simp add: redactable_def)
  show ?case
  proof (cases "a \<noteq> [] \<and> starts_with a (c # cs)")
    case True
    with 2(1,3) show ?thesis by (auto dest: sublist_append_placeholder)
  next
    case False
    then have r: "replace_all a REDACTION_PLACEHOLDER (c # cs) =
        c # replace_all a REDACTION_PLACEHOLDER cs" by auto
    show ?thesis
    proof
      assume "sublist a (replace_all a REDACTION_PLACEHOLDER (c # cs))"
      then have "prefix a (replace_all a REDACTION_PLACEHOLDER (c # cs))"
        using 2(2) [OF False 2(3)] by (simp only: r sublist_Cons_right) blast
      then have "prefix a (c # cs)" by (rule prefix_replace_all [OF br])
      then show False
        using False 2(3) by (auto simp: starts_with_iff prefix_def redactable_def)
    qed
  qed
qed

lemma redact_removes:
  assumes "\<forall>s \<in> set secrets. redactable s"
  shows "\<forall>s \<in> set secrets. \<not> sublist s (redact secrets text)"
  using assms
proof (induction secrets rule: rev_induct)
  case Nil
  then show ?case by simp
next
  case (snoc s ss)
  have step: "redact (ss @ [s]) text = (if contains (redact ss text) s
      then replace_all s REDACTION_PLACEHOLDER (redact ss text) else redact ss text)"
    by (simp add: redact_def)
  show ?case
    using snoc replace_all_removes [of s] replace_all_keeps_out
    by (auto simp: step contains_def)
qed

text \<open>No string anywhere in a redacted document contains a registered secret, however the secrets
  overlap each other in the text and in whatever order they were registered.\<close>

theorem redacted_document_clean:
  assumes "\<forall>s \<in> set secrets. redactable s" "s \<in> set secrets" "t \<in> set (json_strings (redact_json secrets v))"
  shows "\<not> sublist s t"
  using assms(3)
proof (induction v)
  case (JString x)
  then show ?case using redact_removes [OF assms(1)] assms(2) by simp
next
  case (JArray vs)
  then show ?case by auto
next
  case (JObject kvs)
  then show ?case by fastforce
qed simp_all

theorem redacted_document_clean_witness:
  "\<not> sublist ''A0B1'' (redact [''A0B1'', ''1A0B''] ''x1A0B1y'') \<and>
   redact [''A0B1'', ''1A0B''] ''x1A0B1y'' = ''x1[redacted]y''"
proof
  have "\<not> sublist s ''redacted''" if "s \<in> {''A0B1'', ''1A0B''}" for s
    using that by (auto simp: sublist_Cons_right)
  then show "\<not> sublist ''A0B1'' (redact [''A0B1'', ''1A0B''] ''x1A0B1y'')"
    using redacted_document_clean [of "[''A0B1'', ''1A0B'']" "''A0B1''"
        "redact [''A0B1'', ''1A0B''] ''x1A0B1y''" "JString ''x1A0B1y''"]
    by (simp add: redactable_def)
  show "redact [''A0B1'', ''1A0B''] ''x1A0B1y'' = ''x1[redacted]y''"
    by (simp add: redact_def contains_def sublist_Cons_right starts_with_def REDACTION_PLACEHOLDER_def)
qed

section \<open>What the log keeps\<close>

lemma pop_until_room_drop:
  "0 < cap \<Longrightarrow> pop_until_room cap es = drop (Suc (length es) - cap) es"
proof (induction cap es rule: pop_until_room.induct)
  case (2 cap e es)
  then show ?case by (cases "cap \<le> length (e # es)") (auto simp: Suc_diff_le)
qed simp

definition to_event :: "u64 \<times> event_kind \<Rightarrow> diagnostic_event" where
  "to_event p = \<lparr>ev_at_unix_ms = fst p, ev_severity = severity_of (snd p), ev_kind = snd p\<rparr>"

definition log_ok :: "nat \<Rightarrow> diagnostics_log \<Rightarrow> bool" where
  "log_ok n l = (dl_capacity l = max n 1 \<and> length (dl_events l) \<le> max n 1)"

lemma log_record_ok: "log_ok n l \<Longrightarrow> log_ok n (log_record l (fst e) (snd e))"
  by (auto simp: log_ok_def log_record_def pop_until_room_drop)

interpretation diagnostics: fold_invariant "log_with_capacity n"
  "\<lambda>l e. log_record l (fst e) (snd e)" "log_ok n"
proof
  show "log_ok n (log_with_capacity n)" by (simp add: log_ok_def log_with_capacity_def)
qed (rule log_record_ok)

definition log_run :: "nat \<Rightarrow> (u64 \<times> event_kind) list \<Rightarrow> diagnostics_log" where
  "log_run n es = foldl (\<lambda>l e. log_record l (fst e) (snd e)) (log_with_capacity n) es"

text \<open>After any number of events the log holds exactly the newest ones, in the order they were
  recorded and each with the severity of its kind: as many as the capacity, which is never zero, and
  so never more.\<close>

theorem log_keeps_newest:
  "dl_events (log_run n es) = map to_event (drop (length es - max n 1) es) \<and>
   length (dl_events (log_run n es)) \<le> max n 1"
proof
  show "length (dl_events (log_run n es)) \<le> max n 1"
    using diagnostics.inv_run [of n es] by (simp add: log_ok_def log_run_def)
  show "dl_events (log_run n es) = map to_event (drop (length es - max n 1) es)"
  proof (induction es rule: rev_induct)
    case Nil
    then show ?case by (simp add: log_run_def log_with_capacity_def)
  next
    case (snoc e es)
    have cap: "dl_capacity (log_run n es) = max n 1"
      using diagnostics.inv_run [of n es] by (simp add: log_ok_def log_run_def)
    have step: "dl_events (log_run n (es @ [e])) =
        drop (Suc (length (dl_events (log_run n es))) - max n 1) (dl_events (log_run n es)) @ [to_event e]"
      using cap by (simp add: log_run_def log_record_def pop_until_room_drop to_event_def)
    have gen: "drop (Suc (length (drop (length es - m) es)) - m) (map to_event (drop (length es - m) es)) =
        map to_event (drop (Suc (length es) - m) es)" for m
      by (cases "m \<le> length es") (simp_all add: drop_map Suc_diff_le)
    have tail: "map to_event (drop (length (es @ [e]) - m) (es @ [e])) =
        map to_event (drop (Suc (length es) - m) es) @ [to_event e]" if "0 < m" for m
      using that by simp
    show ?case unfolding step snoc length_map gen by (rule tail [symmetric]) simp
  qed
qed

text \<open>Whatever the codec does, an export that could not be swept leaves empty: it carries no
  capability record and no event.\<close>

lemma log_export_unswept:
  assumes "to_value (\<lparr>de_schema_version = DIAGNOSTICS_SCHEMA_VERSION,
      de_generated_at_unix_ms = g, de_daemon_version = v,
      de_capabilities = map_option redact_serials c, de_events = dl_events l\<rparr>) = None"
  shows "de_events (log_export to_value from_value l g v c) = []"
    "de_capabilities (log_export to_value from_value l g v c) = None"
  using assms by (simp_all add: log_export_def Let_def)

end
