(* ===== verification/Io.thy ===== *)
theory Io
  imports Diagnostics
begin

text \<open>
  The outside of the process. Everything the modelled code does to the kernel, to a device or to
  the disk is an event, and the world is the list of the events so far, newest first, with the
  monotonic clock. What the outside answers is a function of that list: an environment. So a device
  may answer anything, may change between two operations and may fail at any of them, and what was
  written, in which order, can be read off the world afterwards.
  \<^item> \<open>attr_env\<close>: the sysfs attribute files (reading, writing);
  \<^item> \<open>hid_env\<close>: one \<open>HidTransport\<close> (64-byte reports in both directions);
  \<^item> \<open>bulk_env\<close>: one \<open>BulkTransport\<close> (the endpoint the pixels go to);
  \<^item> \<open>terminal_env\<close>: the person at the terminal of a probe, who answers a line or nothing;
  \<^item> \<open>clock_env\<close>: the wall clock, and how far the monotonic clock moves between two readings. Two
    readings differ by at least a nanosecond: a system call lies between them everywhere it matters.
\<close>

datatype io_kind = KindNotFound | KindPermissionDenied | KindOther

text \<open>A \<open>std::io::Error\<close>: its kind and the text it displays as.\<close>

datatype io_error = IoError (io_kind: io_kind) (io_display: string)

text \<open>\<open>HidError\<close> of \<open>crates/hardware-linux/src/hid.rs\<close> and \<open>UsbfsError\<close> of \<open>usbfs.rs\<close>, the errors
  of the two transports.\<close>

datatype hid_error =
    NodeAbsent string
  | HidPermissionDenied string
  | HidIo string string
  | NoAnswer string u64
  | ShortWrite nat nat

datatype usbfs_error =
    UsbNodeAbsent string
  | UsbPermissionDenied string
  | DriverBound u8 string
  | UsbBusy u8
  | NotAnOutEndpoint u8
  | PayloadTooLarge nat nat
  | UsbIo string string
  | UsbShortWrite nat nat

datatype io_event =
    AttrRead string
  | AttrWrite string string bool
  | UnixRead
  | MonoRead
  | HidOut "u8 list" bool
  | HidIn bool
  | BulkOut u8 "u8 list" bool
  | FileRead string
  | MakeDirs string bool
  | FileCreate string bool
  | FileMode string bool
  | FileAppend string string bool
  | FileSync string bool
  | FileRename string string bool
  | FileRemove string bool
  | DirSync string
  | NodeOpen string bool
  | InterfaceClaim string u8 bool
  | LockTake string bool
  | SocketBind string bool
  | Slept duration
  | Noted string
  | Asked string string
  | Printed string

record world =
  w_trace :: "io_event list"
  w_now :: instant

definition push_event :: "io_event \<Rightarrow> world \<Rightarrow> world" where
  "push_event e w = w\<lparr>w_trace := e # w_trace w\<rparr>"

lemma push_event_simps [simp]:
  "w_trace (push_event e w) = e # w_trace w" "w_now (push_event e w) = w_now w"
  by (simp_all add: push_event_def)

text \<open>The events of a step, in the order they happened.\<close>

definition trace_since :: "world \<Rightarrow> world \<Rightarrow> io_event list" where
  "trace_since w w' = rev (take (length (w_trace w') - length (w_trace w)) (w_trace w'))"

text \<open>\<open>w'\<close> continues \<open>w\<close> by the events \<open>es\<close>, and the clock did not run back.\<close>

definition extends :: "world \<Rightarrow> io_event list \<Rightarrow> world \<Rightarrow> bool" where
  "extends w es w' = (w_trace w' = rev es @ w_trace w \<and> w_now w \<le> w_now w')"

lemma extends_refl [simp, intro]: "extends w [] w"
  by (simp add: extends_def)

lemma extends_trans: "\<lbrakk>extends w es w'; extends w' fs w''\<rbrakk> \<Longrightarrow> extends w (es @ fs) w''"
  by (simp add: extends_def)

lemma extends_push [simp]: "extends w [e] (push_event e w)"
  by (simp add: extends_def)

lemma trace_since_extends: "extends w es w' \<Longrightarrow> trace_since w w' = es"
  by (simp add: extends_def trace_since_def)

lemma extends_unique: "\<lbrakk>extends w es w'; extends w fs w'\<rbrakk> \<Longrightarrow> es = fs"
  by (simp add: extends_def)

section \<open>Attributes\<close>

record attr_env =
  ae_read :: "io_event list \<Rightarrow> string \<Rightarrow> io_error + string"
  ae_write :: "io_event list \<Rightarrow> string \<Rightarrow> string \<Rightarrow> io_error + unit"
  ae_list :: "io_event list \<Rightarrow> string \<Rightarrow> string list"
  ae_canonical :: "io_event list \<Rightarrow> string \<Rightarrow> string option"

definition attr_read :: "attr_env \<Rightarrow> string \<Rightarrow> world \<Rightarrow> (io_error + string) \<times> world" where
  "attr_read env path w = (ae_read env (w_trace w) path, push_event (AttrRead path) w)"

definition attr_write :: "attr_env \<Rightarrow> string \<Rightarrow> string \<Rightarrow> world \<Rightarrow> (io_error + unit) \<times> world" where
  "attr_write env path bytes w =
    (let r = ae_write env (w_trace w) path bytes
     in (r, push_event (AttrWrite path bytes (is_ok r)) w))"

text \<open>The file names of a directory (none when it cannot be read), and \<open>canonicalize\<close>.\<close>

definition attr_list :: "attr_env \<Rightarrow> string \<Rightarrow> world \<Rightarrow> string list \<times> world" where
  "attr_list env path w = (ae_list env (w_trace w) path, push_event (AttrRead path) w)"

definition attr_canonical :: "attr_env \<Rightarrow> string \<Rightarrow> world \<Rightarrow> string option \<times> world" where
  "attr_canonical env path w = (ae_canonical env (w_trace w) path, push_event (AttrRead path) w)"

section \<open>Transports\<close>

record hid_env =
  he_source :: string
  he_write :: "io_event list \<Rightarrow> u8 list \<Rightarrow> hid_error + unit"
  he_read :: "io_event list \<Rightarrow> nat \<Rightarrow> hid_error + u8 list option"

definition write_report :: "hid_env \<Rightarrow> u8 list \<Rightarrow> world \<Rightarrow> (hid_error + unit) \<times> world" where
  "write_report env report w =
    (let r = he_write env (w_trace w) report in (r, push_event (HidOut report (is_ok r)) w))"

text \<open>A report that arrived or \<open>None\<close> within the timeout.\<close>

definition read_report :: "hid_env \<Rightarrow> duration \<Rightarrow> world \<Rightarrow> (hid_error + u8 list option) \<times> world" where
  "read_report env timeout w =
    (let r = he_read env (w_trace w) timeout in (r, push_event (HidIn (is_ok r)) w))"

record bulk_env =
  be_source :: string
  be_write :: "io_event list \<Rightarrow> u8 \<Rightarrow> u8 list \<Rightarrow> usbfs_error + unit"

definition write_bulk :: "bulk_env \<Rightarrow> u8 \<Rightarrow> u8 list \<Rightarrow> world \<Rightarrow> (usbfs_error + unit) \<times> world" where
  "write_bulk env ep bytes w =
    (let r = be_write env (w_trace w) ep bytes in (r, push_event (BulkOut ep bytes (is_ok r)) w))"

section \<open>Clocks\<close>

record clock_env =
  ce_unix :: "io_event list \<Rightarrow> u64"
  ce_elapsed :: "io_event list \<Rightarrow> nat"

definition now_unix_ms :: "clock_env \<Rightarrow> world \<Rightarrow> u64 \<times> world" where
  "now_unix_ms env w = (ce_unix env (w_trace w), push_event UnixRead w)"

definition instant_now :: "clock_env \<Rightarrow> world \<Rightarrow> instant \<times> world" where
  "instant_now env w =
    (let t = w_now w + 1 + ce_elapsed env (w_trace w) in (t, (push_event MonoRead w)\<lparr>w_now := t\<rparr>))"

definition NANOS_PER_MS :: nat where "NANOS_PER_MS = 1000000"

definition from_millis :: "nat \<Rightarrow> duration" where
  "from_millis ms = ms * NANOS_PER_MS"

definition as_millis :: "duration \<Rightarrow> nat" where
  "as_millis d = d div NANOS_PER_MS"

text \<open>\<open>saturating_duration_since\<close> is the truncated difference of two instants.\<close>

definition duration_since :: "instant \<Rightarrow> instant \<Rightarrow> duration" where
  "duration_since now t = now - t"

text \<open>\<open>std::thread::sleep\<close> takes at least as long as it was asked for; the rest is in the next reading
  of the clock.\<close>

definition sleep :: "duration \<Rightarrow> world \<Rightarrow> world" where
  "sleep d w = push_event (Slept d) (w\<lparr>w_now := w_now w + d\<rparr>)"

section \<open>The terminal\<close>

text \<open>What \<open>read_line\<close> gives: nothing at the end of the input or on an error.\<close>

record terminal_env =
  te_line :: "io_event list \<Rightarrow> string \<Rightarrow> string option"

definition operator_note :: "string \<Rightarrow> world \<Rightarrow> world" where
  "operator_note message w = push_event (Noted message) w"

text \<open>\<open>println!\<close>.\<close>

definition print_line :: "string \<Rightarrow> world \<Rightarrow> world" where
  "print_line s w = push_event (Printed (s @ [CHR 0x0A])) w"

section \<open>What a world shows\<close>

text \<open>The attribute writes, the reports and the bulk transfers of a list of events.\<close>

fun attr_writes :: "io_event list \<Rightarrow> (string \<times> string) list" where
  "attr_writes [] = []"
| "attr_writes (AttrWrite p b ok # es) = (p, b) # attr_writes es"
| "attr_writes (_ # es) = attr_writes es"

fun accepted_writes :: "io_event list \<Rightarrow> nat" where
  "accepted_writes [] = 0"
| "accepted_writes (AttrWrite p b True # es) = Suc (accepted_writes es)"
| "accepted_writes (_ # es) = accepted_writes es"

fun reports_out :: "io_event list \<Rightarrow> u8 list list" where
  "reports_out [] = []"
| "reports_out (HidOut r ok # es) = r # reports_out es"
| "reports_out (_ # es) = reports_out es"

fun bulk_out :: "io_event list \<Rightarrow> (u8 \<times> u8 list) list" where
  "bulk_out [] = []"
| "bulk_out (BulkOut ep b ok # es) = (ep, b) # bulk_out es"
| "bulk_out (_ # es) = bulk_out es"

lemma attr_writes_append [simp]: "attr_writes (es @ fs) = attr_writes es @ attr_writes fs"
  by (induction es rule: attr_writes.induct) simp_all

lemma accepted_writes_append [simp]:
  "accepted_writes (es @ fs) = accepted_writes es + accepted_writes fs"
  by (induction es rule: accepted_writes.induct) simp_all

lemma reports_out_append [simp]: "reports_out (es @ fs) = reports_out es @ reports_out fs"
  by (induction es rule: reports_out.induct) simp_all

lemma bulk_out_append [simp]: "bulk_out (es @ fs) = bulk_out es @ bulk_out fs"
  by (induction es rule: bulk_out.induct) simp_all

text \<open>A step that sends nothing to any device: it only reads attributes and clocks, and sleeps.\<close>

definition silent_event :: "io_event \<Rightarrow> bool" where
  "silent_event e = (case e of AttrRead _ \<Rightarrow> True | UnixRead \<Rightarrow> True | MonoRead \<Rightarrow> True | Slept _ \<Rightarrow> True
    | _ \<Rightarrow> False)"

definition silent :: "world \<Rightarrow> world \<Rightarrow> bool" where
  "silent w w' = (\<exists>es. extends w es w' \<and> list_all silent_event es)"

lemma silent_refl [simp, intro]: "silent w w"
  by (auto simp: silent_def intro: exI [of _ "[]"])

lemma silent_trans: "\<lbrakk>silent w w'; silent w' w''\<rbrakk> \<Longrightarrow> silent w w''"
  unfolding silent_def by (metis extends_trans list_all_append)

lemma silent_push [simp, intro]: "silent_event e \<Longrightarrow> silent w (push_event e w)"
  unfolding silent_def by (intro exI [of _ "[e]"]) simp

lemma silent_attr_read: "silent w (snd (attr_read env p w))"
  by (simp add: attr_read_def silent_event_def)

lemma silent_attr_list: "silent w (snd (attr_list env p w))"
  by (simp add: attr_list_def silent_event_def)

lemma silent_attr_canonical: "silent w (snd (attr_canonical env p w))"
  by (simp add: attr_canonical_def silent_event_def)

lemma silent_unix: "silent w (snd (now_unix_ms env w))"
  by (simp add: now_unix_ms_def silent_event_def)

lemma silent_instant: "silent w (snd (instant_now env w))"
  unfolding silent_def instant_now_def Let_def
  by (intro exI [of _ "[MonoRead]"]) (simp add: extends_def silent_event_def push_event_def)

lemma silent_nothing_sent:
  assumes "silent w w'" "extends w es w'"
  shows "attr_writes es = []" "reports_out es = []" "bulk_out es = []"
proof -
  have "list_all silent_event es"
    using assms unfolding silent_def by (metis extends_unique)
  then show "attr_writes es = []" "reports_out es = []" "bulk_out es = []"
    by (induction es) (auto simp: silent_event_def split: io_event.splits)
qed

section \<open>Steps that may fail\<close>

text \<open>The \<open>?\<close> operator on a step: an error ends the caller with it.\<close>

definition or_return :: "('e + 'a) \<times> world \<Rightarrow> ('a \<Rightarrow> world \<Rightarrow> ('e + 'b) \<times> world) \<Rightarrow> ('e + 'b) \<times> world" where
  "or_return m k = (case m of (Inl e, w) \<Rightarrow> (Inl e, w) | (Inr x, w) \<Rightarrow> k x w)"

lemma or_return_simps [simp]:
  "or_return (Inl e, w) k = (Inl e, w)" "or_return (Inr x, w) k = k x w"
  by (simp_all add: or_return_def)

text \<open>The contract of a step that performs a plan: \<open>keeps w plan ok w'\<close> says what the step from \<open>w\<close> to
  \<open>w'\<close> did of the plan, all of it when \<open>ok\<close>. Whatever the measure of "did", it composes along \<open>?\<close>.\<close>

locale write_plan =
  fixes keeps :: "world \<Rightarrow> 'p list \<Rightarrow> bool \<Rightarrow> world \<Rightarrow> bool"
  assumes keeps_seq: "\<lbrakk>keeps w p True w'; keeps w' q ok w''\<rbrakk> \<Longrightarrow> keeps w (p @ q) ok w''"
    and keeps_fail: "keeps w p False w' \<Longrightarrow> keeps w (p @ q) False w'"
begin

lemma plan_bind:
  assumes "keeps w p (is_ok (fst m)) (snd m)"
    "\<And>x. fst m = Inr x \<Longrightarrow> keeps (snd m) q (is_ok (fst (k x (snd m)))) (snd (k x (snd m)))"
  shows "keeps w (p @ q) (is_ok (fst (or_return m k))) (snd (or_return m k))"
proof (cases m)
  case (Pair r w')
  then show ?thesis
    using assms keeps_fail keeps_seq by (cases r) auto
qed

lemma plan_quiet: "\<lbrakk>keeps w [] True w'; keeps w' p ok w''\<rbrakk> \<Longrightarrow> keeps w p ok w''"
  using keeps_seq [of w "[]" w' p ok w''] by simp

end

end
