(* ===== verification/Hwmon.thy ===== *)
theory Hwmon
  imports Io
begin

text \<open>
  \<open>crates/hardware-linux/src/sysfs.rs\<close> and \<open>hwmon.rs\<close>, with \<open>usb.rs::owning_device\<close>: reading an
  attribute with the cause of a missing value, finding the one hwmon directory of the allowlisted
  cooler, and the readings of that directory. An attribute that is absent, unreadable or malformed
  is never a number. Nothing here writes: every operation is \<open>silent\<close>.
\<close>

named_theorems silent_rules \<open>operations that only read\<close>

lemmas silent_io = silent_attr_read silent_attr_list silent_attr_canonical silent_unix silent_instant

declare silent_io [silent_rules]

section \<open>Reading an attribute\<close>

definition attribute_error :: "string \<Rightarrow> io_error \<Rightarrow> unavailable" where
  "attribute_error path e = (if io_kind e = KindNotFound then Absent (path @ '' does not exist.'')
    else Unreadable (path @ '' could not be read: '' @ io_display e))"

definition read_attribute_detailed ::
    "attr_env \<Rightarrow> string \<Rightarrow> world \<Rightarrow> (unavailable + string) \<times> world" where
  "read_attribute_detailed env path w = (let (raw, w) = attr_read env path w in
    ((case raw of
        Inl e \<Rightarrow> Inl (attribute_error path e)
      | Inr bytes \<Rightarrow>
          if \<not> utf8_valid (map byte bytes) then Inl (Unparsable (path @ '' is not valid UTF-8.''))
          else if trim bytes = [] then Inl (Unparsable (path @ '' is empty.''))
          else Inr (trim bytes)), w))"

definition read_attribute :: "attr_env \<Rightarrow> string \<Rightarrow> world \<Rightarrow> string option \<times> world" where
  "read_attribute env path w =
    (let (r, w) = read_attribute_detailed env path w in (result_ok r, w))"

text \<open>\<open>read_parsed::<T>\<close>: the parser and the type name of \<open>T\<close> are the two instances below.\<close>

definition read_parsed :: "(string \<Rightarrow> 'a option) \<Rightarrow> string \<Rightarrow> attr_env \<Rightarrow> string \<Rightarrow> world \<Rightarrow>
    (unavailable + 'a) \<times> world" where
  "read_parsed parse type_name env path w =
    (let (r, w) = read_attribute_detailed env path w in
     ((case r of
         Inl cause \<Rightarrow> Inl cause
       | Inr t \<Rightarrow> (case parse t of
           Some v \<Rightarrow> Inr v
         | None \<Rightarrow> Inl (Unparsable
             (path @ '' holds '' @ debug_str t @ '', which is not a '' @ type_name @ ''.'')))), w))"

definition parse_u8 :: "string \<Rightarrow> u8 option" where
  "parse_u8 s = map_option word_of_nat (parse_unsigned 10 255 s)"

definition parse_u32 :: "string \<Rightarrow> u32 option" where
  "parse_u32 s = map_option word_of_nat (parse_unsigned 10 (2 ^ 32 - 1) s)"

definition parse_i32 :: "string \<Rightarrow> i32 option" where
  "parse_i32 s = map_option word_of_int (parse_signed 10 (2 ^ 31 - 1) s)"

definition reading_of_result :: "unavailable + 'a \<Rightarrow> 'a reading" where
  "reading_of_result r = (case r of Inr v \<Rightarrow> Valid v | Inl cause \<Rightarrow> NoReading cause)"

definition reading_at :: "(string \<Rightarrow> 'a option) \<Rightarrow> string \<Rightarrow> attr_env \<Rightarrow> string \<Rightarrow> world \<Rightarrow>
    'a reading \<times> world" where
  "reading_at parse type_name env path w =
    (let (r, w) = read_parsed parse type_name env path w in (reading_of_result r, w))"

definition read_hex_u16 :: "attr_env \<Rightarrow> string \<Rightarrow> world \<Rightarrow> u16 option \<times> world" where
  "read_hex_u16 env path w = (let (r, w) = read_attribute env path w in
    (case r of None \<Rightarrow> None | Some t \<Rightarrow> map_option word_of_nat (parse_unsigned 16 65535 t), w))"

definition read_hex_u8 :: "attr_env \<Rightarrow> string \<Rightarrow> world \<Rightarrow> u8 option \<times> world" where
  "read_hex_u8 env path w = (let (r, w) = read_attribute env path w in
    (case r of None \<Rightarrow> None | Some t \<Rightarrow> map_option word_of_nat (parse_unsigned 16 255 t), w))"

text \<open>The entries of one directory, sorted: they share the directory, so the order is the order of
  their names.\<close>

definition sorted_entries :: "attr_env \<Rightarrow> string \<Rightarrow> world \<Rightarrow> string list \<times> world" where
  "sorted_entries env path w =
    (let (names, w) = attr_list env path w in (map (path_join path) (sort names), w))"

lemma silent_read_attribute_detailed [silent_rules]: "silent w (snd (read_attribute_detailed env p w))"
  by (simp add: read_attribute_detailed_def split_beta silent_attr_read)

lemma silent_read_attribute [silent_rules]: "silent w (snd (read_attribute env p w))"
  by (simp add: read_attribute_def split_beta silent_rules)

lemma silent_read_parsed [silent_rules]: "silent w (snd (read_parsed f n env p w))"
  by (simp add: read_parsed_def split_beta silent_rules)

lemma silent_reading_at [silent_rules]: "silent w (snd (reading_at f n env p w))"
  by (simp add: reading_at_def split_beta silent_rules)

lemma silent_read_hex_u16 [silent_rules]: "silent w (snd (read_hex_u16 env p w))"
  by (simp add: read_hex_u16_def split_beta silent_rules)

lemma silent_read_hex_u8 [silent_rules]: "silent w (snd (read_hex_u8 env p w))"
  by (simp add: read_hex_u8_def split_beta silent_rules)

lemma silent_sorted_entries [silent_rules]: "silent w (snd (sorted_entries env p w))"
  by (simp add: sorted_entries_def split_beta silent_rules)

section \<open>The device a hwmon directory belongs to\<close>

text \<open>The loop of \<open>usb::owning_device\<close>: every turn goes to the parent, which is shorter.\<close>

function owning_device_from :: "attr_env \<Rightarrow> string \<Rightarrow> world \<Rightarrow> (device_id \<times> string) option \<times> world" where
  "owning_device_from env current w =
    (let (vendor, w) = read_hex_u16 env (path_join current ''idVendor'') w;
         (product, w) = read_hex_u16 env (path_join current ''idProduct'') w
     in case (vendor, product) of
          (Some v, Some p) \<Rightarrow> (Some (DeviceId v p, current), w)
        | _ \<Rightarrow> (case path_parent current of
            None \<Rightarrow> (None, w)
          | Some parent \<Rightarrow>
              if parent = [] \<or> parent = ''/'' then (None, w)
              else owning_device_from env parent w))"
  by pat_completeness auto
termination
  by (relation "measure (\<lambda>(env, current, w). length current)") (auto simp: path_parent_shorter)

declare owning_device_from.simps [simp del]

definition owning_device :: "attr_env \<Rightarrow> string \<Rightarrow> world \<Rightarrow> (device_id \<times> string) option \<times> world" where
  "owning_device env start w = (let (c, w) = attr_canonical env start w in
    case c of None \<Rightarrow> (None, w) | Some current \<Rightarrow> owning_device_from env current w)"

text \<open>One turn of the loop, without the tuples.\<close>

lemma owning_device_from_step:
  fixes env current w
  defines "r \<equiv> read_hex_u16 env (path_join current ''idVendor'') w"
  defines "s \<equiv> read_hex_u16 env (path_join current ''idProduct'') (snd r)"
  shows "owning_device_from env current w =
    (if fst r \<noteq> None \<and> fst s \<noteq> None
     then (Some (DeviceId (the (fst r)) (the (fst s)), current), snd s)
     else (case path_parent current of
        None \<Rightarrow> (None, snd s)
      | Some parent \<Rightarrow> if parent = [] \<or> parent = ''/'' then (None, snd s)
          else owning_device_from env parent (snd s)))"
  unfolding r_def s_def
  by (subst owning_device_from.simps) (auto simp: split_beta Let_def split: option.split)

lemma silent_owning_device_from [silent_rules]: "silent w (snd (owning_device_from env current w))"
proof (induction current arbitrary: w rule: measure_induct_rule [where f = length])
  case (less current)
  let ?s = "snd (read_hex_u16 env (path_join current ''idProduct'')
    (snd (read_hex_u16 env (path_join current ''idVendor'') w)))"
  have s: "silent w ?s"
    by (blast intro: silent_trans silent_read_hex_u16)
  have ih: "silent ?s (snd (owning_device_from env parent ?s))" if "path_parent current = Some parent" for parent
    by (rule less.IH) (rule path_parent_shorter [OF that])
  show ?case
    using s silent_trans [OF s ih]
    by (subst owning_device_from_step) (simp split: option.split)
qed

lemma silent_owning_device [silent_rules]: "silent w (snd (owning_device env start w))"
  using silent_trans [OF silent_attr_canonical silent_owning_device_from]
  by (simp add: owning_device_def split_beta silent_rules split: option.split)

lemma owning_device_from_evidence:
  assumes "owning_device_from env current w = (Some (d, path), w')"
  shows "\<exists>u v u' v'. read_hex_u16 env (path_join path ''idVendor'') u = (Some (dev_vendor d), u') \<and>
    read_hex_u16 env (path_join path ''idProduct'') v = (Some (dev_product d), v')"
  using assms
proof (induction current arbitrary: w rule: measure_induct_rule [where f = length])
  case (less current)
  let ?r = "read_hex_u16 env (path_join current ''idVendor'') w"
  let ?s = "read_hex_u16 env (path_join current ''idProduct'') (snd ?r)"
  show ?case
  proof (cases "fst ?r \<noteq> None \<and> fst ?s \<noteq> None")
    case True
    then obtain v p where vp: "fst ?r = Some v" "fst ?s = Some p" by auto
    then have "d = DeviceId v p" "path = current"
      using less.prems by (simp_all add: owning_device_from_step [of env current w])
    then show ?thesis using vp
      by (metis device_id.sel(1) device_id.sel(2) prod.collapse)
  next
    case False
    then obtain parent where p: "path_parent current = Some parent"
      "owning_device_from env parent (snd ?s) = (Some (d, path), w')"
      using less.prems
      by (auto simp: owning_device_from_step [of env current w] split: option.splits if_splits)
    show ?thesis
      by (rule less.IH [OF path_parent_shorter [OF p(1)] p(2)])
  qed
qed

section \<open>Finding the cooler\<close>

definition KRAKEN_DRIVER :: string where "KRAKEN_DRIVER = ''kraken2023''"

record hwmon_instance =
  hi_device :: device_id
  hi_driver :: string
  hi_path :: string

text \<open>The loop of \<open>discover\<close> over the entries of \<open>class/hwmon\<close>.\<close>

fun discover_entries :: "attr_env \<Rightarrow> string list \<Rightarrow> world \<Rightarrow> hwmon_instance list \<times> world" where
  "discover_entries env [] w = ([], w)"
| "discover_entries env (entry # entries) w =
    (let (driver, w) = read_attribute env (path_join entry ''name'') w in
     case driver of
       None \<Rightarrow> discover_entries env entries w
     | Some driver \<Rightarrow>
         (let (owner, w) = owning_device env (path_join entry ''device'') w in
          case owner of
            None \<Rightarrow> discover_entries env entries w
          | Some (device, _) \<Rightarrow>
              (let (canonical, w) = attr_canonical env entry w;
                   (rest, w) = discover_entries env entries w
               in (\<lparr>hi_device = device, hi_driver = driver,
                     hi_path = (case canonical of Some p \<Rightarrow> p | None \<Rightarrow> entry)\<rparr> # rest, w))))"

definition discover :: "attr_env \<Rightarrow> string \<Rightarrow> world \<Rightarrow> hwmon_instance list \<times> world" where
  "discover env sysfs w =
    (let (entries, w) = sorted_entries env (path_join sysfs ''class/hwmon'') w
     in discover_entries env entries w)"

text \<open>A bound instance is the path of its directory.\<close>

datatype kraken_hwmon = KrakenHwmon (kh_path: string)

definition locate :: "attr_env \<Rightarrow> string \<Rightarrow> world \<Rightarrow> kraken_hwmon option \<times> world" where
  "locate env sysfs w = (let (found, w) = discover env sysfs w in
    (map_option (\<lambda>i. KrakenHwmon (hi_path i))
      (find (\<lambda>i. hi_device i = KRAKEN_BASE \<and> hi_driver i = KRAKEN_DRIVER) found), w))"

lemma silent_discover_entries [silent_rules]: "silent w (snd (discover_entries env entries w))"
proof (induction entries arbitrary: w)
  case (Cons entry entries)
  let ?a = "snd (read_attribute env (path_join entry ''name'') w)"
  let ?b = "snd (owning_device env (path_join entry ''device'') ?a)"
  let ?c = "snd (attr_canonical env entry ?b)"
  have a: "silent w ?a" by (rule silent_rules)
  have b: "silent w ?b" by (rule silent_trans [OF a silent_owning_device])
  have c: "silent w ?c" by (rule silent_trans [OF b silent_attr_canonical])
  show ?case
    using silent_trans [OF a Cons.IH] silent_trans [OF b Cons.IH] silent_trans [OF c Cons.IH]
    by (auto simp: split_beta Let_def split: option.split)
qed simp

lemma silent_discover [silent_rules]: "silent w (snd (discover env sysfs w))"
  using silent_trans [OF silent_sorted_entries silent_discover_entries]
  by (simp add: discover_def split_beta)

lemma silent_locate [silent_rules]: "silent w (snd (locate env sysfs w))"
  by (simp add: locate_def split_beta silent_rules)

lemma discover_entries_driver:
  "i \<in> set (fst (discover_entries env entries w)) \<Longrightarrow>
   \<exists>entry \<in> set entries. \<exists>u. fst (read_attribute env (path_join entry ''name'') u) = Some (hi_driver i) \<and>
     (\<exists>v p. fst (owning_device env (path_join entry ''device'') v) = Some (hi_device i, p))"
proof (induction entries arbitrary: w)
  case (Cons entry entries)
  show ?case
  proof (cases "\<exists>u. i \<in> set (fst (discover_entries env entries u))")
    case True
    then show ?thesis using Cons.IH by fastforce
  next
    case False
    then show ?thesis using Cons.prems
      by (fastforce simp: split_beta Let_def split: option.splits)
  qed
qed simp

section \<open>Attributes of the cooler\<close>

fun channel_index :: "channel \<Rightarrow> u8" where
  "channel_index Pump = 1"
| "channel_index Fan = 2"

definition rpm_attribute :: "channel \<Rightarrow> string" where
  "rpm_attribute ch = ''fan'' @ show_nat (unat (channel_index ch)) @ ''_input''"

definition duty_attribute :: "channel \<Rightarrow> string" where
  "duty_attribute ch = ''pwm'' @ show_nat (unat (channel_index ch))"

definition mode_attribute :: "channel \<Rightarrow> string" where
  "mode_attribute ch = ''pwm'' @ show_nat (unat (channel_index ch)) @ ''_enable''"

definition curve_point_attribute :: "channel \<Rightarrow> nat \<Rightarrow> string" where
  "curve_point_attribute ch index =
    ''temp'' @ show_nat (unat (channel_index ch)) @ ''_auto_point'' @ show_nat (index + 1) @ ''_pwm''"

definition LIQUID_TEMPERATURE_ATTRIBUTE :: string where
  "LIQUID_TEMPERATURE_ATTRIBUTE = ''temp1_input''"

definition hwmon_attr :: "kraken_hwmon \<Rightarrow> string \<Rightarrow> string" where
  "hwmon_attr h name = path_join (kh_path h) name"

text \<open>\<open>tempN_auto_pointM_pwm\<close> parsed back to its channel, as the capability record does.\<close>

definition parse_curve_point :: "string \<Rightarrow> u8 option" where
  "parse_curve_point name = (case strip_prefix ''temp'' name of
      None \<Rightarrow> None
    | Some rest \<Rightarrow> (case split_once ''_auto_point'' rest of
        None \<Rightarrow> None
      | Some (index, rest) \<Rightarrow> (case strip_suffix ''_pwm'' rest of
          None \<Rightarrow> None
        | Some point \<Rightarrow> (case parse_unsigned 10 65535 point of
            None \<Rightarrow> None
          | Some _ \<Rightarrow> parse_u8 index))))"

definition curve_is_complete :: "curve_channel \<Rightarrow> bool" where
  "curve_is_complete c = (unat (cc_point_count c) = CURVE_POINT_COUNT)"

section \<open>Readings of the cooler\<close>

definition liquid_temperature_c :: "attr_env \<Rightarrow> kraken_hwmon \<Rightarrow> world \<Rightarrow> f32 reading \<times> world" where
  "liquid_temperature_c env h w =
    (let (r, w) = read_parsed parse_i32 ''i32'' env (hwmon_attr h LIQUID_TEMPERATURE_ATTRIBUTE) w in
     (case r of
        Inr millidegrees \<Rightarrow> Valid (f32_div (f32_of_int (sint millidegrees)) (F32 1000))
      | Inl cause \<Rightarrow> NoReading cause, w))"

definition hwmon_rpm :: "attr_env \<Rightarrow> kraken_hwmon \<Rightarrow> channel \<Rightarrow> world \<Rightarrow> u32 reading \<times> world" where
  "hwmon_rpm env h ch = reading_at parse_u32 ''u32'' env (hwmon_attr h (rpm_attribute ch))"

definition hwmon_duty :: "attr_env \<Rightarrow> kraken_hwmon \<Rightarrow> channel \<Rightarrow> world \<Rightarrow> u8 reading \<times> world" where
  "hwmon_duty env h ch = reading_at parse_u8 ''u8'' env (hwmon_attr h (duty_attribute ch))"

definition hwmon_mode :: "attr_env \<Rightarrow> kraken_hwmon \<Rightarrow> channel \<Rightarrow> world \<Rightarrow> pwm_mode reading \<times> world" where
  "hwmon_mode env h ch w =
    (let path = hwmon_attr h (mode_attribute ch);
         (r, w) = read_parsed parse_u8 ''u8'' env path w
     in (case r of
           Inr v \<Rightarrow> (case pwm_from_kernel v of
               Some mode \<Rightarrow> Valid mode
             | None \<Rightarrow> NoReading (Unparsable (path @ '' reports control mode '' @ show_nat (unat v) @
                 '', which this build does not recognize.'')))
         | Inl cause \<Rightarrow> NoReading cause, w))"

text \<open>The loop over the forty points, which stops at the first one that cannot be read.\<close>

fun read_curve_points :: "attr_env \<Rightarrow> kraken_hwmon \<Rightarrow> channel \<Rightarrow> nat list \<Rightarrow> world \<Rightarrow>
    (unavailable + u8 list) \<times> world" where
  "read_curve_points env h ch [] w = (Inr [], w)"
| "read_curve_points env h ch (i # is) w =
    (let (r, w) = read_parsed parse_u8 ''u8'' env (hwmon_attr h (curve_point_attribute ch i)) w in
     case r of
       Inl cause \<Rightarrow> (Inl cause, w)
     | Inr d \<Rightarrow> (let (rest, w) = read_curve_points env h ch is w in
         (case rest of Inl cause \<Rightarrow> Inl cause | Inr ds \<Rightarrow> Inr (d # ds), w)))"

definition hwmon_curve :: "attr_env \<Rightarrow> kraken_hwmon \<Rightarrow> channel \<Rightarrow> world \<Rightarrow>
    (unavailable + temperature_curve) \<times> world" where
  "hwmon_curve env h ch w =
    (let (r, w) = read_curve_points env h ch [0..<CURVE_POINT_COUNT] w in
     (case r of Inl cause \<Rightarrow> Inl cause | Inr ds \<Rightarrow> Inr (TemperatureCurve ds), w))"

definition read_channel_telemetry :: "attr_env \<Rightarrow> kraken_hwmon \<Rightarrow> channel \<Rightarrow> world \<Rightarrow>
    channel_telemetry \<times> world" where
  "read_channel_telemetry env h ch w =
    (let (rpm, w) = hwmon_rpm env h ch w;
         (duty, w) = hwmon_duty env h ch w;
         (mode, w) = hwmon_mode env h ch w
     in (\<lparr>ct_channel = ch, ct_rpm = rpm, ct_duty = duty, ct_mode = mode\<rparr>, w))"

definition read_kraken_telemetry :: "attr_env \<Rightarrow> kraken_hwmon \<Rightarrow> u64 \<Rightarrow> world \<Rightarrow>
    kraken_telemetry \<times> world" where
  "read_kraken_telemetry env h at_unix_ms w =
    (let (liquid, w) = liquid_temperature_c env h w;
         (pump, w) = read_channel_telemetry env h Pump w;
         (fan, w) = read_channel_telemetry env h Fan w
     in (\<lparr>kt_at_unix_ms = at_unix_ms, kt_present = True, kt_liquid_temperature_c = liquid,
           kt_pump = pump, kt_fan = fan\<rparr>, w))"

lemma silent_liquid_temperature_c [silent_rules]: "silent w (snd (liquid_temperature_c env h w))"
  by (simp add: liquid_temperature_c_def split_beta silent_rules)

lemma silent_hwmon_rpm [silent_rules]: "silent w (snd (hwmon_rpm env h ch w))"
  by (simp add: hwmon_rpm_def silent_rules)

lemma silent_hwmon_duty [silent_rules]: "silent w (snd (hwmon_duty env h ch w))"
  by (simp add: hwmon_duty_def silent_rules)

lemma silent_hwmon_mode [silent_rules]: "silent w (snd (hwmon_mode env h ch w))"
  by (simp add: hwmon_mode_def split_beta Let_def silent_rules)

lemma silent_read_curve_points [silent_rules]: "silent w (snd (read_curve_points env h ch is w))"
proof (induction "is" arbitrary: w)
  case (Cons i js)
  show ?case
    using silent_trans [OF silent_read_parsed Cons.IH] silent_read_parsed
    by (auto simp: split_beta Let_def split: sum.split)
qed simp

lemma silent_hwmon_curve [silent_rules]: "silent w (snd (hwmon_curve env h ch w))"
  by (simp add: hwmon_curve_def split_beta silent_rules)

lemma silent_read_channel_telemetry [silent_rules]:
  "silent w (snd (read_channel_telemetry env h ch w))"
  unfolding read_channel_telemetry_def split_beta Let_def snd_conv
  by (intro silent_trans [OF silent_trans [OF silent_hwmon_rpm silent_hwmon_duty] silent_hwmon_mode])

lemma silent_read_kraken_telemetry [silent_rules]:
  "silent w (snd (read_kraken_telemetry env h t w))"
  unfolding read_kraken_telemetry_def split_beta Let_def snd_conv
  by (intro silent_trans [OF silent_trans [OF silent_liquid_temperature_c
      silent_read_channel_telemetry] silent_read_channel_telemetry])

lemma read_curve_points_length:
  "fst (read_curve_points env h ch is w) = Inr ds \<Longrightarrow> length ds = length is"
  by (induction "is" arbitrary: w ds) (auto simp: split_beta Let_def split: sum.splits)

text \<open>A curve is read whole or not at all.\<close>

lemma hwmon_curve_ok: "fst (hwmon_curve env h ch w) = Inr c \<Longrightarrow> curve_ok c"
  by (auto simp: hwmon_curve_def split_beta curve_ok_def split: sum.splits
      dest!: read_curve_points_length)

section \<open>What the readings are worth\<close>

lemma parse_u8_iff: "parse_u8 s = Some d \<longleftrightarrow> parse_unsigned 10 255 s = Some (unat d)"
proof
  assume "parse_u8 s = Some d"
  then obtain n where "parse_unsigned 10 255 s = Some n" "d = word_of_nat n"
    by (auto simp: parse_u8_def)
  then show "parse_unsigned 10 255 s = Some (unat d)"
    using parse_unsigned_bound [of 10 255 s n] by (simp add: unat_of_nat)
qed (simp add: parse_u8_def)

lemma read_attribute_detailed_ok:
  "fst (read_attribute_detailed env p w) = Inr t \<longleftrightarrow>
   (\<exists>bytes. ae_read env (w_trace w) p = Inr bytes \<and> utf8_valid (map byte bytes) \<and>
      trim bytes = t \<and> t \<noteq> [])"
  by (auto simp: read_attribute_detailed_def attr_read_def split: sum.split)

lemma read_parsed_ok:
  "fst (read_parsed f n env p w) = Inr v \<longleftrightarrow>
   (\<exists>t. fst (read_attribute_detailed env p w) = Inr t \<and> f t = Some v)"
  by (auto simp: read_parsed_def split_beta split: sum.split option.split)

lemma read_attribute_some:
  "fst (read_attribute env p w) = Some t \<longleftrightarrow> fst (read_attribute_detailed env p w) = Inr t"
  by (auto simp: read_attribute_def split_beta result_ok_def split: sum.split)

lemma reading_of_result_valid: "reading_of_result r = Valid v \<longleftrightarrow> r = Inr v"
  by (cases r) (simp_all add: reading_of_result_def)

text \<open>A duty is reported exactly when the attribute was read, is UTF-8, and its trimmed text
  parses as a byte; the reading is that byte. Every other content is a typed gap, never a zero, and
  taking the reading writes nothing.\<close>

theorem hwmon_duty_valid_iff:
  "(fst (hwmon_duty env h ch w) = Valid d \<longleftrightarrow>
    (\<exists>bytes. ae_read env (w_trace w) (hwmon_attr h (duty_attribute ch)) = Inr bytes \<and>
      utf8_valid (map byte bytes) \<and> trim bytes \<noteq> [] \<and>
      parse_unsigned 10 255 (trim bytes) = Some (unat d))) \<and>
   silent w (snd (hwmon_duty env h ch w))"
proof -
  have "fst (hwmon_duty env h ch w) = Valid d \<longleftrightarrow>
      fst (read_parsed parse_u8 ''u8'' env (hwmon_attr h (duty_attribute ch)) w) = Inr d"
    by (simp add: hwmon_duty_def reading_at_def split_beta reading_of_result_valid)
  also have "\<dots> \<longleftrightarrow> (\<exists>bytes. ae_read env (w_trace w) (hwmon_attr h (duty_attribute ch)) = Inr bytes \<and>
      utf8_valid (map byte bytes) \<and> trim bytes \<noteq> [] \<and>
      parse_unsigned 10 255 (trim bytes) = Some (unat d))"
    by (auto simp: read_parsed_ok read_attribute_detailed_ok parse_u8_iff)
  finally show ?thesis using silent_hwmon_duty by simp
qed

text \<open>A cooler is located only on evidence: an entry of the hwmon class whose \<open>name\<close> attribute
  reads \<open>kraken2023\<close> and whose device directory, or an ancestor of it, reads the identifiers of the
  allowlisted cooler. Locating it writes nothing.\<close>

theorem locate_needs_evidence:
  "silent w (snd (locate env sysfs w)) \<and>
   (case fst (locate env sysfs w) of None \<Rightarrow> True
    | Some h \<Rightarrow> \<exists>entry u dir u1 u2 u3 u4.
        fst (read_attribute env (path_join entry ''name'') u) = Some ''kraken2023'' \<and>
        read_hex_u16 env (path_join dir ''idVendor'') u1 = (Some 0x1e71, u2) \<and>
        read_hex_u16 env (path_join dir ''idProduct'') u3 = (Some 0x300e, u4))"
proof (cases "fst (locate env sysfs w)")
  case None
  then show ?thesis by (simp add: silent_rules)
next
  case (Some h)
  let ?es = "sorted_entries env (path_join sysfs ''class/hwmon'') w"
  obtain i where i: "i \<in> set (fst (discover_entries env (fst ?es) (snd ?es)))"
    "hi_device i = KRAKEN_BASE" "hi_driver i = KRAKEN_DRIVER"
    using Some by (auto simp: locate_def discover_def split_beta dest!: find_Some_in)
  obtain entry u v p where e: "fst (read_attribute env (path_join entry ''name'') u) = Some (hi_driver i)"
    "fst (owning_device env (path_join entry ''device'') v) = Some (hi_device i, p)"
    using discover_entries_driver [OF i(1)] by blast
  obtain cur where "fst (owning_device_from env cur (snd (attr_canonical env (path_join entry ''device'') v))) =
      Some (hi_device i, p)"
    using e(2) by (auto simp: owning_device_def split_beta split: option.splits)
  then obtain w' where "owning_device_from env cur
      (snd (attr_canonical env (path_join entry ''device'') v)) = (Some (hi_device i, p), w')"
    by (metis prod.collapse)
  from owning_device_from_evidence [OF this] show ?thesis
    using e(1) Some unfolding i(2,3) KRAKEN_BASE_def KRAKEN_DRIVER_def device_id.sel
    by (simp add: silent_rules) blast
qed

lemma strip_prefix_append [simp]: "strip_prefix p (p @ s) = Some s"
  by (simp add: strip_prefix_def)

lemma strip_suffix_append [simp]: "strip_suffix p (s @ p) = Some s"
  by (simp add: strip_suffix_def)

lemma split_once_first:
  "c \<notin> set a \<Longrightarrow> split_once (c # p) (a @ c # p @ b) = Some (a, b)"
proof (induction a)
  case Nil
  then show ?case using starts_with_append [of "c # p" b] by simp
next
  case (Cons d a)
  then show ?case by (auto simp: starts_with_def)
qed

text \<open>The name of a curve point parses back to its channel, for every point the ABI can number:
  the writer and the reader of these attributes agree.\<close>

theorem curve_point_name_round_trip:
  assumes "index < 65535"
  shows "parse_curve_point (curve_point_attribute ch index) = Some (channel_index ch)"
proof -
  let ?n = "show_nat (unat (channel_index ch))"
  have "byte c < 58" if "c \<in> set ?n" for c
    using that by (auto simp: show_nat_def digit_char_def byte_char_of dest!: digits_rev_less)
  from this [of "CHR ''_''"] have under: "CHR ''_'' \<notin> set ?n"
    by (auto simp: byte_def)
  have "parse_u8 ?n = Some (channel_index ch)"
    using parse_show_nat [of "unat (channel_index ch)" 255] by (simp add: parse_u8_iff)
  moreover have "parse_unsigned 10 65535 (show_nat (index + 1)) = Some (index + 1)"
    using assms by (intro parse_show_nat) simp
  moreover have "strip_prefix ''temp'' (curve_point_attribute ch index) =
      Some (?n @ ''_auto_point'' @ show_nat (index + 1) @ ''_pwm'')"
    using strip_prefix_append [of "''temp''"] by (simp only: curve_point_attribute_def)
  moreover have "split_once ''_auto_point'' (?n @ ''_auto_point'' @ show_nat (index + 1) @ ''_pwm'') =
      Some (?n, show_nat (index + 1) @ ''_pwm'')"
    using split_once_first [OF under, of "''auto_point''" "show_nat (index + 1) @ ''_pwm''"] by simp
  ultimately show ?thesis
    by (simp add: parse_curve_point_def)
qed

theorem curve_point_name_round_trip_witness:
  "parse_curve_point (curve_point_attribute Pump 39) = Some 1"
  using curve_point_name_round_trip [of 39 Pump] by simp

end
