(* ===== verification/Usb_Sysfs.thy ===== *)
theory Usb_Sysfs
  imports Hwmon
begin

text \<open>
  The rest of \<open>crates/hardware-linux/src/sysfs.rs\<close>, \<open>usb.rs\<close> and \<open>hwmon.rs\<close>: permission tests, the bound
  driver of a directory, the devices on the bus with their identity, interfaces and endpoints, the
  node of a HID device, and the attribute sweep of a hwmon directory. All of it only reads. A walk that
  stops early stops reading there. Paths are displayed as they are.
\<close>

section \<open>Permissions, links and names\<close>

text \<open>What the system calls other than reading answer: \<open>access(2)\<close>, \<open>stat(2)\<close> and \<open>readlink(2)\<close>.\<close>

record access_env =
  ax_readable :: "io_event list \<Rightarrow> string \<Rightarrow> bool"
  ax_writable :: "io_event list \<Rightarrow> string \<Rightarrow> bool"
  ax_is_file :: "io_event list \<Rightarrow> string \<Rightarrow> bool"
  ax_exists :: "io_event list \<Rightarrow> string \<Rightarrow> bool"
  ax_link :: "io_event list \<Rightarrow> string \<Rightarrow> string option"
  ax_is_dir :: "io_event list \<Rightarrow> string \<Rightarrow> bool"

definition ask_path :: "(io_event list \<Rightarrow> string \<Rightarrow> 'a) \<Rightarrow> string \<Rightarrow> world \<Rightarrow> 'a \<times> world" where
  "ask_path answer path w = (answer (w_trace w) path, push_event (AttrRead path) w)"

definition path_readable :: "access_env \<Rightarrow> string \<Rightarrow> world \<Rightarrow> bool \<times> world" where
  "path_readable ax = ask_path (ax_readable ax)"

definition path_writable :: "access_env \<Rightarrow> string \<Rightarrow> world \<Rightarrow> bool \<times> world" where
  "path_writable ax = ask_path (ax_writable ax)"

text \<open>\<open>Path::file_name\<close>: the last component, unless it is \<open>..\<close>. Empty components and \<open>.\<close> are no
  components.\<close>

fun path_components :: "string \<Rightarrow> string list" where
  "path_components [] = [[]]"
| "path_components (c # cs) =
    (if c = CHR ''/'' then [] # path_components cs
     else (c # hd (path_components cs)) # tl (path_components cs))"

definition path_file_name :: "string \<Rightarrow> string option" where
  "path_file_name p =
    (let cs = filter (\<lambda>c. c \<noteq> [] \<and> c \<noteq> ''.'') (path_components p)
     in if cs = [] \<or> last cs = ''..'' then None else Some (last cs))"

definition to_str :: "string \<Rightarrow> string option" where
  "to_str s = (if utf8_valid (map byte s) then Some s else None)"

text \<open>The name of an entry, when it has one in UTF-8.\<close>

definition entry_name :: "string \<Rightarrow> string option" where
  "entry_name entry = Option.bind (path_file_name entry) to_str"

text \<open>\<open>to_string_lossy\<close>: every maximal part of an ill-formed sequence becomes U+FFFD. \<open>utf8_step\<close> is the
  length of the sequence a text starts with, and whether it is well-formed.\<close>

definition utf8_step :: "nat list \<Rightarrow> nat \<times> bool" where
  "utf8_step bs = (case bs of
      [] \<Rightarrow> (0, True)
    | a # r \<Rightarrow>
        (let tail = (\<lambda>b. 0x80 \<le> b \<and> b \<le> 0xBF);
             second = (\<lambda>b. (if a = 0xE0 then 0xA0 else if a = 0xF0 then 0x90 else 0x80) \<le> b \<and>
               b \<le> (if a = 0xED then 0x9F else if a = 0xF4 then 0x8F else 0xBF));
             wanted = (if a < 0x80 then 1 else if 0xC2 \<le> a \<and> a \<le> 0xDF then 2
               else if 0xE0 \<le> a \<and> a \<le> 0xEF then 3 else if 0xF0 \<le> a \<and> a \<le> 0xF4 then 4 else 0);
             found = (if wanted \<le> 1 then 1
               else case r of [] \<Rightarrow> 1
                 | b # r' \<Rightarrow> if \<not> second b then 1 else 2 + length (takeWhile tail (take (wanted - 2) r')))
         in (found, found = wanted)))"

lemma utf8_step_pos: "bs \<noteq> [] \<Longrightarrow> 0 < fst (utf8_step bs)"
  by (cases bs) (auto simp: utf8_step_def Let_def split: list.splits)

function to_string_lossy :: "string \<Rightarrow> string" where
  "to_string_lossy s = (if s = [] then []
    else (let (n, ok) = utf8_step (map byte s)
      in (if ok then take n s else map char_of [0xEF, 0xBF, 0xBD :: nat]) @ to_string_lossy (drop n s)))"
  by pat_completeness auto
termination
  by (relation "measure length") (auto dest: sym simp: prod_eq_iff utf8_step_pos)

declare to_string_lossy.simps [simp del]

definition bound_driver :: "access_env \<Rightarrow> string \<Rightarrow> world \<Rightarrow> string option \<times> world" where
  "bound_driver ax path w = (let (target, w) = ask_path (ax_link ax) (path_join path ''driver'') w in
    (case target of None \<Rightarrow> None | Some t \<Rightarrow> map_option to_string_lossy (path_file_name t), w))"

lemma silent_ask_path [silent_rules]: "silent w (snd (ask_path f p w))"
  by (simp add: ask_path_def silent_event_def)

lemma silent_path_readable [silent_rules]: "silent w (snd (path_readable ax p w))"
  by (simp add: path_readable_def silent_rules)

lemma silent_path_writable [silent_rules]: "silent w (snd (path_writable ax p w))"
  by (simp add: path_writable_def silent_rules)

lemma silent_bound_driver [silent_rules]: "silent w (snd (bound_driver ax p w))"
  by (simp add: bound_driver_def split_beta silent_rules)

section \<open>Walking entries\<close>

text \<open>\<open>filter_map\<close> and \<open>find_map\<close> over entries that are read one after the other.\<close>

fun filter_map_entries :: "('a \<Rightarrow> world \<Rightarrow> 'b option \<times> world) \<Rightarrow> 'a list \<Rightarrow> world \<Rightarrow> 'b list \<times> world" where
  "filter_map_entries f [] w = ([], w)"
| "filter_map_entries f (e # es) w =
    (let (r, w) = f e w; (rest, w) = filter_map_entries f es w
     in (case r of None \<Rightarrow> rest | Some x \<Rightarrow> x # rest, w))"

fun find_map_entries :: "('a \<Rightarrow> world \<Rightarrow> 'b option \<times> world) \<Rightarrow> 'a list \<Rightarrow> world \<Rightarrow> 'b option \<times> world" where
  "find_map_entries f [] w = (None, w)"
| "find_map_entries f (e # es) w =
    (let (r, w) = f e w in case r of Some x \<Rightarrow> (Some x, w) | None \<Rightarrow> find_map_entries f es w)"

text \<open>A step followed by another, the first one's \<open>None\<close> ending both.\<close>

definition and_then_some :: "'a option \<times> world \<Rightarrow> ('a \<Rightarrow> world \<Rightarrow> 'b option \<times> world) \<Rightarrow> 'b option \<times> world" where
  "and_then_some m k = (case m of (None, w) \<Rightarrow> (None, w) | (Some x, w) \<Rightarrow> k x w)"

lemma silent_filter_map_entries [silent_rules]:
  assumes "\<And>e w. silent w (snd (f e w))"
  shows "silent w (snd (filter_map_entries f es w))"
proof (induction es arbitrary: w)
  case (Cons e es)
  show ?case
    using silent_trans [OF assms Cons.IH] by (simp add: split_beta Let_def)
qed simp

lemma silent_find_map_entries [silent_rules]:
  assumes "\<And>e w. silent w (snd (f e w))"
  shows "silent w (snd (find_map_entries f es w))"
proof (induction es arbitrary: w)
  case (Cons e es)
  show ?case
    using assms [of w e] silent_trans [OF assms Cons.IH]
    by (auto simp: split_beta Let_def split: option.split)
qed simp

lemma silent_and_then_some [silent_rules]:
  assumes "silent w (snd m)" "\<And>x w. silent w (snd (k x w))"
  shows "silent w (snd (and_then_some m k))"
  using assms silent_trans [OF assms] by (cases m) (auto simp: and_then_some_def split: option.split)

section \<open>Devices on the bus\<close>

record discovered_device =
  dd_id :: device_id
  dd_path :: string

definition discovered_at :: "attr_env \<Rightarrow> string \<Rightarrow> world \<Rightarrow> discovered_device option \<times> world" where
  "discovered_at env path w =
    and_then_some (read_hex_u16 env (path_join path ''idVendor'') w) (\<lambda>vendor w.
    and_then_some (read_hex_u16 env (path_join path ''idProduct'') w) (\<lambda>product w.
      (Some \<lparr>dd_id = DeviceId vendor product, dd_path = path\<rparr>, w)))"

definition usb_enumerate :: "attr_env \<Rightarrow> string \<Rightarrow> world \<Rightarrow> discovered_device list \<times> world" where
  "usb_enumerate env sysfs w =
    (let (entries, w) = sorted_entries env (path_join sysfs ''bus/usb/devices'') w
     in filter_map_entries (discovered_at env) entries w)"

definition identity_field :: "attr_env \<Rightarrow> string \<Rightarrow> string \<Rightarrow> world \<Rightarrow> string evidenced \<times> world" where
  "identity_field env path name w = (let (r, w) = read_attribute env (path_join path name) w in
    (case r of
       Some v \<Rightarrow> Known v (path @ ''/'' @ name)
     | None \<Rightarrow> Unknown (name @ '' is not exposed by the device'') (path @ ''/'' @ name), w))"

definition usb_identity_of :: "attr_env \<Rightarrow> device_id \<Rightarrow> string \<Rightarrow> world \<Rightarrow> usb_identity \<times> world" where
  "usb_identity_of env i path w =
    (let (manufacturer, w) = identity_field env path ''manufacturer'' w;
         (product, w) = identity_field env path ''product'' w;
         (serial, w) = identity_field env path ''serial'' w;
         (firmware, w) = identity_field env path ''bcdDevice'' w
     in (\<lparr>usb_id = i, usb_manufacturer = manufacturer, usb_product = product, usb_serial = serial,
           usb_firmware = firmware, usb_sysfs_path = path\<rparr>, w))"

section \<open>Interfaces\<close>

text \<open>The interface directories of a device are the entries named \<open><device>:...\<close>.\<close>

definition interface_dirs :: "attr_env \<Rightarrow> string \<Rightarrow> world \<Rightarrow> string list \<times> world" where
  "interface_dirs env device w = (case entry_name device of
      None \<Rightarrow> ([], w)
    | Some device_name \<Rightarrow> (let (entries, w) = sorted_entries env device w in
        (filter (\<lambda>e. case entry_name e of None \<Rightarrow> False
           | Some name \<Rightarrow> starts_with (device_name @ '':'') name) entries, w)))"

text \<open>The driver bound to the first interface directory that carries the number.\<close>

definition numbered :: "attr_env \<Rightarrow> u8 \<Rightarrow> string \<Rightarrow> world \<Rightarrow> string option \<times> world" where
  "numbered env interface entry w =
    (let (n, w) = read_hex_u8 env (path_join entry ''bInterfaceNumber'') w
     in (if n = Some interface then Some entry else None, w))"

definition interface_driver :: "attr_env \<Rightarrow> access_env \<Rightarrow> string \<Rightarrow> u8 \<Rightarrow> world \<Rightarrow> string option \<times> world" where
  "interface_driver env ax device interface w =
    (let (dirs, w) = interface_dirs env device w
     in and_then_some (find_map_entries (numbered env interface) dirs w) (bound_driver ax))"

definition or_default :: "'a \<Rightarrow> 'a option \<times> world \<Rightarrow> 'a \<times> world" where
  "or_default v m = (case m of (r, w) \<Rightarrow> (case r of Some x \<Rightarrow> x | None \<Rightarrow> v, w))"

definition endpoint_at :: "attr_env \<Rightarrow> string \<Rightarrow> world \<Rightarrow> usb_endpoint option \<times> world" where
  "endpoint_at env entry w =
    and_then_some (read_hex_u8 env (path_join entry ''bEndpointAddress'') w) (\<lambda>address w.
      (let (direction, w) = or_default [] (read_attribute env (path_join entry ''direction'') w);
           (transfer, w) = or_default [] (read_attribute env (path_join entry ''type'') w);
           (packet, w) = or_default 0 (read_hex_u16 env (path_join entry ''wMaxPacketSize'') w);
           (interval, w) = or_default 0 (read_hex_u8 env (path_join entry ''bInterval'') w)
       in (Some \<lparr>ep_address = address, ep_direction = direction, ep_transfer = transfer,
             ep_max_packet_size = packet, ep_interval = interval\<rparr>, w)))"

definition endpoints :: "attr_env \<Rightarrow> string \<Rightarrow> world \<Rightarrow> usb_endpoint list \<times> world" where
  "endpoints env interface w =
    (let (entries, w) = sorted_entries env interface w;
         entries = filter (\<lambda>e. case entry_name e of None \<Rightarrow> False | Some n \<Rightarrow> starts_with ''ep_'' n) entries;
         (found, w) = filter_map_entries (endpoint_at env) entries w
     in (sort_key ep_address found, w))"

definition interface_at :: "attr_env \<Rightarrow> access_env \<Rightarrow> string \<Rightarrow> world \<Rightarrow> usb_interface option \<times> world" where
  "interface_at env ax entry w =
    and_then_some (read_hex_u8 env (path_join entry ''bInterfaceNumber'') w) (\<lambda>number w.
      (let (cls, w) = or_default 0xff (read_hex_u8 env (path_join entry ''bInterfaceClass'') w);
           (subclass, w) = or_default 0 (read_hex_u8 env (path_join entry ''bInterfaceSubClass'') w);
           (protocol, w) = or_default 0 (read_hex_u8 env (path_join entry ''bInterfaceProtocol'') w);
           (driver, w) = bound_driver ax entry w;
           (eps, w) = endpoints env entry w
       in (Some \<lparr>if_number = number, if_class = cls, if_subclass = subclass, if_protocol = protocol,
             if_driver = (case driver of
                 Some d \<Rightarrow> Known d (entry @ ''/driver'')
               | None \<Rightarrow> Unknown ''no kernel driver is bound to this interface'' (entry @ ''/driver'')),
             if_endpoints = eps\<rparr>, w)))"

definition interfaces :: "attr_env \<Rightarrow> access_env \<Rightarrow> string \<Rightarrow> world \<Rightarrow> usb_interface list \<times> world" where
  "interfaces env ax path w =
    (let (dirs, w) = interface_dirs env path w;
         (found, w) = filter_map_entries (interface_at env ax) dirs w
     in (sort_key if_number found, w))"

text \<open>The walk device, interface, HID device, \<open>hidraw\<close>, which stops at the first node.\<close>

definition hidraw_name :: "string \<Rightarrow> world \<Rightarrow> string option \<times> world" where
  "hidraw_name node w = (case entry_name node of
      Some name \<Rightarrow> (if starts_with ''hidraw'' name then Some (path_join ''/dev'' name) else None, w)
    | None \<Rightarrow> (None, w))"

definition hidraw_node :: "attr_env \<Rightarrow> string \<Rightarrow> world \<Rightarrow> string option \<times> world" where
  "hidraw_node env device w =
    (let (dirs, w) = interface_dirs env device w
     in find_map_entries (\<lambda>interface w. (let (entries, w) = sorted_entries env interface w
          in find_map_entries (\<lambda>entry w. (let (nodes, w) = sorted_entries env (path_join entry ''hidraw'') w
               in find_map_entries hidraw_name nodes w)) entries w)) dirs w)"

lemma silent_or_default [silent_rules]: "silent w (snd m) \<Longrightarrow> silent w (snd (or_default v m))"
  by (simp add: or_default_def split_beta)

lemma silent_let [silent_rules]:
  "\<lbrakk>silent w (snd m); \<And>x w. silent w (snd (f x w))\<rbrakk> \<Longrightarrow> silent w (snd (case m of (x, w) \<Rightarrow> f x w))"
  using silent_trans by (cases m) auto

lemma silent_done [silent_rules]: "silent w (snd (x, w))"
  by simp

lemma silent_if [silent_rules]:
  "\<lbrakk>c \<Longrightarrow> silent w (snd x); \<not> c \<Longrightarrow> silent w (snd y)\<rbrakk> \<Longrightarrow> silent w (snd (if c then x else y))"
  by simp

lemma silent_case_option [silent_rules]:
  "\<lbrakk>silent w (snd x); \<And>v. silent w (snd (f v))\<rbrakk> \<Longrightarrow>
   silent w (snd (case r of None \<Rightarrow> x | Some v \<Rightarrow> f v))"
  by (cases r) simp_all

lemma silent_discovered_at [silent_rules]: "silent w (snd (discovered_at env p w))"
  unfolding discovered_at_def by (intro silent_rules)

lemma silent_usb_enumerate [silent_rules]: "silent w (snd (usb_enumerate env sysfs w))"
  unfolding usb_enumerate_def Let_def by (intro silent_rules)

lemma silent_identity_field [silent_rules]: "silent w (snd (identity_field env p n w))"
  unfolding identity_field_def Let_def by (intro silent_rules)

lemma silent_usb_identity_of [silent_rules]: "silent w (snd (usb_identity_of env i p w))"
  unfolding usb_identity_of_def Let_def by (intro silent_rules)

lemma silent_interface_dirs [silent_rules]: "silent w (snd (interface_dirs env p w))"
  by (simp add: interface_dirs_def split_beta silent_rules split: option.split)

lemma silent_numbered [silent_rules]: "silent w (snd (numbered env i p w))"
  unfolding numbered_def Let_def by (intro silent_rules)

lemma silent_interface_driver [silent_rules]: "silent w (snd (interface_driver env ax p i w))"
  unfolding interface_driver_def Let_def by (intro silent_rules)

lemma silent_endpoint_at [silent_rules]: "silent w (snd (endpoint_at env p w))"
  unfolding endpoint_at_def Let_def by (intro silent_rules)

lemma silent_endpoints [silent_rules]: "silent w (snd (endpoints env p w))"
  unfolding endpoints_def Let_def by (intro silent_rules)

lemma silent_interface_at [silent_rules]: "silent w (snd (interface_at env ax p w))"
  unfolding interface_at_def Let_def by (intro silent_rules)

lemma silent_interfaces [silent_rules]: "silent w (snd (interfaces env ax p w))"
  unfolding interfaces_def Let_def by (intro silent_rules)

lemma silent_hidraw_name [silent_rules]: "silent w (snd (hidraw_name p w))"
  by (simp add: hidraw_name_def split: option.split)

lemma silent_hidraw_node [silent_rules]: "silent w (snd (hidraw_node env p w))"
  unfolding hidraw_node_def Let_def by (intro silent_rules)

section \<open>The attribute sweep of a hwmon directory\<close>

definition label_for :: "attr_env \<Rightarrow> string \<Rightarrow> string \<Rightarrow> world \<Rightarrow> string evidenced \<times> world" where
  "label_for env directory attribute w = (case strip_suffix ''_input'' attribute of
      None \<Rightarrow> (Unknown ''attribute has no label'' (attribute @ '' (no label)''), w)
    | Some stem \<Rightarrow>
        (let label_file = path_join directory (stem @ ''_label'');
             (label, w) = read_attribute env label_file w
         in (case label of
               Some l \<Rightarrow> Known l label_file
             | None \<Rightarrow> Unknown ''driver publishes no label for this reading'' label_file, w)))"

text \<open>One more point of a channel.\<close>

definition count_point :: "u8 \<Rightarrow> bool \<Rightarrow> curve_channel list \<Rightarrow> curve_channel list" where
  "count_point index writable channels =
    (case find (\<lambda>c. cc_temp_index c = index) channels of
       Some c \<Rightarrow> replace_or_push (\<lambda>c. cc_temp_index c = index)
         \<lparr>cc_temp_index = index, cc_point_count = cc_point_count c + 1,
          cc_writable = (cc_writable c \<and> writable)\<rparr> channels
     | None \<Rightarrow> channels @ [\<lparr>cc_temp_index = index, cc_point_count = 1, cc_writable = writable\<rparr>])"

fun count_points :: "access_env \<Rightarrow> string list \<Rightarrow> curve_channel list \<Rightarrow> world \<Rightarrow> curve_channel list \<times> world" where
  "count_points ax [] channels w = (channels, w)"
| "count_points ax (entry # entries) channels w =
    (case Option.bind (entry_name entry) parse_curve_point of
       None \<Rightarrow> count_points ax entries channels w
     | Some index \<Rightarrow> (let (writable, w) = path_writable ax entry w
         in count_points ax entries (count_point index writable channels) w))"

definition curve_channels :: "attr_env \<Rightarrow> access_env \<Rightarrow> string \<Rightarrow> world \<Rightarrow> curve_channel list \<times> world" where
  "curve_channels env ax directory w =
    (let (entries, w) = sorted_entries env directory w;
         (channels, w) = count_points ax entries [] w
     in (sort_key cc_temp_index channels, w))"

definition hwmon_attribute_at :: "attr_env \<Rightarrow> access_env \<Rightarrow> string \<Rightarrow> string \<Rightarrow> world \<Rightarrow>
    hwmon_attribute option \<times> world" where
  "hwmon_attribute_at env ax directory entry w = (case entry_name entry of
      None \<Rightarrow> (None, w)
    | Some name \<Rightarrow>
        (let (is_file, w) = ask_path (ax_is_file ax) entry w in
         if \<not> is_file \<or> name = ''uevent'' \<or> contains name ''auto_point'' then (None, w)
         else (let (readable, w) = path_readable ax entry w;
                   (writable, w) = path_writable ax entry w;
                   (label, w) = label_for env directory name w
           in (Some \<lparr>attr_name = name, attr_path = entry, attr_readable = readable,
                 attr_writable = writable, attr_label = label\<rparr>, w))))"

definition read_capabilities :: "attr_env \<Rightarrow> access_env \<Rightarrow> hwmon_instance \<Rightarrow> world \<Rightarrow>
    hwmon_capabilities \<times> world" where
  "read_capabilities env ax i w =
    (let resolved = hi_path i;
         (entries, w) = sorted_entries env resolved w;
         (attributes, w) = filter_map_entries (hwmon_attribute_at env ax resolved) entries w;
         (points, w) = curve_channels env ax resolved w
     in (\<lparr>hw_driver = hi_driver i, hw_path = resolved, hw_attributes = attributes,
           hw_curve_points = points\<rparr>, w))"

definition attribute_path :: "hwmon_capabilities \<Rightarrow> string \<Rightarrow> string" where
  "attribute_path h name = path_join (hw_path h) name"

lemma silent_label_for [silent_rules]: "silent w (snd (label_for env d a w))"
  by (simp add: label_for_def split_beta Let_def silent_rules split: option.split)

lemma silent_count_points [silent_rules]: "silent w (snd (count_points ax entries channels w))"
proof (induction entries arbitrary: channels w)
  case (Cons entry entries)
  show ?case
    using Cons.IH silent_trans [OF silent_path_writable Cons.IH]
    by (auto simp: split_beta Let_def split: option.split)
qed simp

lemma silent_curve_channels [silent_rules]: "silent w (snd (curve_channels env ax d w))"
  unfolding curve_channels_def Let_def by (intro silent_rules)

lemma silent_hwmon_attribute_at [silent_rules]: "silent w (snd (hwmon_attribute_at env ax d e w))"
  unfolding hwmon_attribute_at_def Let_def by (intro silent_rules)

lemma silent_read_capabilities [silent_rules]: "silent w (snd (read_capabilities env ax i w))"
  unfolding read_capabilities_def Let_def by (intro silent_rules)

section \<open>On a tree that does not change\<close>

text \<open>What the kernel answers does not depend on when it is asked.\<close>

definition unchanging :: "attr_env \<Rightarrow> access_env \<Rightarrow> bool" where
  "unchanging env ax = (\<forall>t p. ae_read env t p = ae_read env [] p \<and> ae_list env t p = ae_list env [] p \<and>
    ax_writable ax t p = ax_writable ax [] p \<and> ax_link ax t p = ax_link ax [] p)"

named_theorems steady \<open>answers that do not depend on the moment\<close>

lemma steady_read_attribute [steady]:
  assumes "unchanging env ax"
  shows "fst (read_attribute env p w) = fst (read_attribute env p v)"
proof -
  have "ae_read env (w_trace w) p = ae_read env (w_trace v) p"
    using assms unfolding unchanging_def by metis
  then show ?thesis by (simp add: read_attribute_def read_attribute_detailed_def attr_read_def)
qed

lemma steady_read_hex [steady]:
  assumes "unchanging env ax"
  shows "fst (read_hex_u8 env p w) = fst (read_hex_u8 env p v)"
  using steady_read_attribute [OF assms, of p w v] by (simp add: read_hex_u8_def split_beta)

lemma steady_bound_driver [steady]:
  assumes "unchanging env ax"
  shows "fst (bound_driver ax p w) = fst (bound_driver ax p v)"
proof -
  have "ax_link ax (w_trace w) q = ax_link ax (w_trace v) q" for q
    using assms unfolding unchanging_def by metis
  then show ?thesis by (simp add: bound_driver_def ask_path_def)
qed

lemma steady_sorted_entries [steady]:
  assumes "unchanging env ax"
  shows "fst (sorted_entries env p w) = fst (sorted_entries env p v)"
proof -
  have "ae_list env (w_trace w) p = ae_list env (w_trace v) p"
    using assms unfolding unchanging_def by metis
  then show ?thesis by (simp add: sorted_entries_def attr_list_def)
qed

lemma steady_interface_dirs [steady]:
  assumes "unchanging env ax"
  shows "fst (interface_dirs env p w) = fst (interface_dirs env p v)"
  using steady_sorted_entries [OF assms, of p w v] by (simp add: interface_dirs_def split_beta split: option.split)

lemma find_filter: "find P xs = (case filter P xs of [] \<Rightarrow> None | x # _ \<Rightarrow> Some x)"
  by (induction xs) simp_all

lemma find_sort_key: "find (\<lambda>x. f x = k) (sort_key f xs) = find (\<lambda>x. f x = k) xs"
  by (simp add: find_filter sort_key_stable)

text \<open>The first interface of a number in the record and the driver a claim would refuse on.\<close>

lemma driver_evidence: "ev_value (case r of Some d \<Rightarrow> Known d s | None \<Rightarrow> Unknown t s) = r"
  by (cases r) simp_all

lemma interface_at_parts:
  "fst (interface_at env ax e w) = None \<longleftrightarrow> fst (read_hex_u8 env (path_join e ''bInterfaceNumber'') w) = None"
  "fst (interface_at env ax e w) = Some i \<Longrightarrow>
    fst (read_hex_u8 env (path_join e ''bInterfaceNumber'') w) = Some (if_number i) \<and>
    (\<exists>u. ev_value (if_driver i) = fst (bound_driver ax e u))"
proof -
  show "fst (interface_at env ax e w) = None \<longleftrightarrow>
      fst (read_hex_u8 env (path_join e ''bInterfaceNumber'') w) = None"
    by (cases "read_hex_u8 env (path_join e ''bInterfaceNumber'') w")
      (auto simp: interface_at_def and_then_some_def split_beta Let_def split: option.splits)
next
  assume "fst (interface_at env ax e w) = Some i"
  then show "fst (read_hex_u8 env (path_join e ''bInterfaceNumber'') w) = Some (if_number i) \<and>
      (\<exists>u. ev_value (if_driver i) = fst (bound_driver ax e u))"
    by (cases "read_hex_u8 env (path_join e ''bInterfaceNumber'') w";
        cases "fst (read_hex_u8 env (path_join e ''bInterfaceNumber'') w)")
      (auto simp: interface_at_def and_then_some_def split_beta Let_def driver_evidence)
qed

lemma found_interface:
  assumes "unchanging env ax"
  shows "Option.bind (fst (find_map_entries (numbered env n) es w)) (\<lambda>e. fst (bound_driver ax e u)) =
    Option.bind (find (\<lambda>i. if_number i = n) (fst (filter_map_entries (interface_at env ax) es v)))
      (\<lambda>i. ev_value (if_driver i))"
proof (induction es arbitrary: w v)
  case (Cons e es)
  let ?n = "\<lambda>w. fst (read_hex_u8 env (path_join e ''bInterfaceNumber'') w)"
  have n: "?n w = ?n v" by (rule steady_read_hex [OF assms])
  show ?case
  proof (cases "fst (interface_at env ax e v)")
    case None
    then have "?n w = None" using n interface_at_parts(1) by metis
    then show ?thesis using None Cons.IH by (simp add: numbered_def split_beta Let_def)
  next
    case (Some i)
    obtain u' where i: "?n v = Some (if_number i)" "ev_value (if_driver i) = fst (bound_driver ax e u')"
      using interface_at_parts(2) [OF Some] by blast
    then show ?thesis using Some n Cons.IH steady_bound_driver [OF assms, of e u' u]
      by (simp add: numbered_def split_beta Let_def)
  qed
qed simp

lemma and_then_some_fst:
  "fst (and_then_some m k) = Option.bind (fst m) (\<lambda>x. fst (k x (snd m)))"
  by (cases m) (auto simp: and_then_some_def split: option.split)

lemma interface_driver_recorded:
  assumes "unchanging env ax"
  shows "fst (interface_driver env ax device n w) =
    Option.bind (find (\<lambda>i. if_number i = n) (fst (interfaces env ax device v))) (\<lambda>i. ev_value (if_driver i))"
proof -
  have bd: "Option.bind r (\<lambda>e. fst (bound_driver ax e u)) = Option.bind r (\<lambda>e. fst (bound_driver ax e w))" for r u
    by (cases r) (auto intro: steady_bound_driver [OF assms])
  have "fst (interface_driver env ax device n w) =
      Option.bind (fst (find_map_entries (numbered env n) (fst (interface_dirs env device w))
        (snd (interface_dirs env device w)))) (\<lambda>e. fst (bound_driver ax e w))"
    unfolding interface_driver_def
    by (simp add: split_beta and_then_some_fst Let_def) (rule bd)
  also have "\<dots> = Option.bind (find (\<lambda>i. if_number i = n)
      (fst (filter_map_entries (interface_at env ax) (fst (interface_dirs env device v))
        (snd (interface_dirs env device v))))) (\<lambda>i. ev_value (if_driver i))"
    unfolding steady_interface_dirs [OF assms, of device w v] by (rule found_interface [OF assms])
  finally show ?thesis
    by (simp add: interfaces_def split_beta Let_def find_sort_key)
qed

text \<open>The channel the sweep counts: how many of its points the directory holds, and whether all of
  them are writable.\<close>

definition curve_files :: "u8 \<Rightarrow> string list \<Rightarrow> string list" where
  "curve_files index es = filter (\<lambda>e. Option.bind (entry_name e) parse_curve_point = Some index) es"

lemma find_count_point:
  "find (\<lambda>c. cc_temp_index c = k) (count_point i wr cs) =
    (if i = k then Some (case find (\<lambda>c. cc_temp_index c = k) cs of
        None \<Rightarrow> \<lparr>cc_temp_index = k, cc_point_count = 1, cc_writable = wr\<rparr>
      | Some c \<Rightarrow> \<lparr>cc_temp_index = k, cc_point_count = cc_point_count c + 1, cc_writable = (cc_writable c \<and> wr)\<rparr>)
     else find (\<lambda>c. cc_temp_index c = k) cs)"
proof -
  have snoc: "find P (xs @ [x]) = (case find P xs of None \<Rightarrow> if P x then Some x else None | Some y \<Rightarrow> Some y)"
    for P and xs :: "curve_channel list" and x
    by (induction xs) simp_all
  show ?thesis
  proof (cases "find (\<lambda>c. cc_temp_index c = i) cs")
    case None
    then show ?thesis by (auto simp: count_point_def snoc split: option.split)
  next
    case (Some c)
    have "find (\<lambda>c. cc_temp_index c = k) (replace_or_push (\<lambda>c. cc_temp_index c = i) d cs) =
        (if i = k then Some d else find (\<lambda>c. cc_temp_index c = k) cs)" if "cc_temp_index d = i" for d
      using that find_replace_or_push [of "\<lambda>c. cc_temp_index c = i" d cs]
        find_replace_or_push_other [of "\<lambda>c. cc_temp_index c = k" d "\<lambda>c. cc_temp_index c = i" cs]
      by auto
    then show ?thesis using Some by (auto simp: count_point_def)
  qed
qed

lemma count_points_spec:
  assumes "unchanging env ax"
  shows "find (\<lambda>c. cc_temp_index c = k) (fst (count_points ax es cs w)) =
    (case (find (\<lambda>c. cc_temp_index c = k) cs, curve_files k es) of
       (None, []) \<Rightarrow> None
     | (None, fs) \<Rightarrow> Some \<lparr>cc_temp_index = k, cc_point_count = word_of_nat (length fs),
         cc_writable = list_all (ax_writable ax []) fs\<rparr>
     | (Some c, fs) \<Rightarrow> Some \<lparr>cc_temp_index = k, cc_point_count = cc_point_count c + word_of_nat (length fs),
         cc_writable = (cc_writable c \<and> list_all (ax_writable ax []) fs)\<rparr>)"
proof (induction es arbitrary: cs w)
  case Nil
  have "c = \<lparr>cc_temp_index = k, cc_point_count = cc_point_count c, cc_writable = cc_writable c\<rparr>"
    if "find (\<lambda>c. cc_temp_index c = k) cs = Some c" for c
    using find_Some_in [OF that] by simp
  then show ?case by (auto simp: curve_files_def split: option.split)
next
  case (Cons e es)
  have wr: "fst (path_writable ax e u) = ax_writable ax [] e" for u
    using assms by (simp add: path_writable_def ask_path_def unchanging_def)
  show ?case
  proof (cases "Option.bind (entry_name e) parse_curve_point")
    case None
    then show ?thesis using Cons.IH by (simp add: curve_files_def)
  next
    case (Some i)
    have step: "fst (count_points ax (e # es) cs w) =
        fst (count_points ax es (count_point i (ax_writable ax [] e) cs) (snd (path_writable ax e w)))"
      using Some wr by (simp add: split_beta)
    show ?thesis
      unfolding step Cons.IH find_count_point
      using Some by (auto simp: curve_files_def split: option.split list.split)
  qed
qed

lemma curve_channels_spec:
  assumes "unchanging env ax"
  shows "find (\<lambda>c. cc_temp_index c = k) (fst (curve_channels env ax directory w)) =
    (let fs = curve_files k (fst (sorted_entries env directory w)) in
     if fs = [] then None
     else Some \<lparr>cc_temp_index = k, cc_point_count = word_of_nat (length fs),
       cc_writable = list_all (ax_writable ax []) fs\<rparr>)"
  unfolding curve_channels_def
  by (simp add: split_beta Let_def find_sort_key count_points_spec [OF assms] split: list.split)

end
