(* ===== verification/Cooling_Control.thy ===== *)
theory Cooling_Control
  imports Hwmon Interpolation
begin

text \<open>
  \<open>crates/hardware-linux/src/control.rs\<close>: the only code that writes to the thermal path. Each
  operation takes the attribute environment and the world and returns its result with the world
  after it; a failed write is an early return, as the \<open>?\<close> of the source.
  \<open>wrote w plan ok w'\<close> is the contract the operations are stated with: the step from \<open>w\<close> to \<open>w'\<close>
  touched nothing but attributes and wrote exactly \<open>plan\<close>, in order; when it stopped on an error it
  wrote a prefix of it whose last write is the one that was refused.
\<close>

section \<open>The contract of a sequence of writes\<close>

definition attr_event :: "io_event \<Rightarrow> bool" where
  "attr_event e = (case e of AttrWrite _ _ _ \<Rightarrow> True | _ \<Rightarrow> silent_event e)"

definition wrote :: "world \<Rightarrow> (string \<times> string) list \<Rightarrow> bool \<Rightarrow> world \<Rightarrow> bool" where
  "wrote w plan ok w' = (\<exists>es. extends w es w' \<and> list_all attr_event es \<and>
    (if ok then attr_writes es = plan \<and> accepted_writes es = length plan
     else (\<exists>n < length plan. attr_writes es = take (Suc n) plan \<and> accepted_writes es = n)))"

lemma silent_events:
  "list_all silent_event es \<Longrightarrow> attr_writes es = [] \<and> accepted_writes es = 0 \<and> list_all attr_event es"
  by (induction es) (auto simp: silent_event_def attr_event_def split: io_event.splits)

lemma wrote_silent: "silent w w' \<Longrightarrow> wrote w [] True w'"
  unfolding silent_def wrote_def by (auto dest: silent_events)

lemma wrote_seq:
  assumes "wrote w p True w'" "wrote w' q ok w''"
  shows "wrote w (p @ q) ok w''"
proof -
  obtain es where es: "extends w es w'" "list_all attr_event es" "attr_writes es = p"
    "accepted_writes es = length p"
    using assms(1) by (auto simp: wrote_def)
  obtain fs where fs: "extends w' fs w''" "list_all attr_event fs"
    "if ok then attr_writes fs = q \<and> accepted_writes fs = length q
     else (\<exists>n < length q. attr_writes fs = take (Suc n) q \<and> accepted_writes fs = n)"
    using assms(2) by (auto simp: wrote_def)
  have "\<exists>n < length (p @ q). attr_writes (es @ fs) = take (Suc n) (p @ q) \<and> accepted_writes (es @ fs) = n"
    if no: "\<not> ok"
  proof -
    obtain n where "n < length q" "attr_writes fs = take (Suc n) q" "accepted_writes fs = n"
      using fs(3) no by auto
    then show ?thesis using es
      by (intro exI [of _ "length p + n"]) (simp add: Suc_diff_le)
  qed
  then show ?thesis
    unfolding wrote_def using extends_trans [OF es(1) fs(1)] es fs
    by (intro exI [of _ "es @ fs"]) auto
qed

lemma wrote_fail:
  assumes "wrote w p False w'"
  shows "wrote w (p @ q) False w'"
proof -
  obtain es n where e: "extends w es w'" "list_all attr_event es" "n < length p"
    "attr_writes es = take (Suc n) p" "accepted_writes es = n"
    using assms by (auto simp: wrote_def)
  then have "attr_writes es = take (Suc n) (p @ q)" by simp
  then show ?thesis using e unfolding wrote_def
    by (intro exI [of _ es]) (auto intro!: exI [of _ n])
qed

interpretation attr_plan: write_plan wrote
  by unfold_locales (fact wrote_seq, fact wrote_fail)

lemma silent_wrote: "\<lbrakk>silent w w'; wrote w' p ok w''\<rbrakk> \<Longrightarrow> wrote w p ok w''"
  by (rule attr_plan.plan_quiet [OF wrote_silent])

lemma wrote_then_silent: "\<lbrakk>wrote w p True w'; silent w' w''\<rbrakk> \<Longrightarrow> wrote w p True w''"
  using wrote_seq [OF _ wrote_silent, of w p w' w''] by simp

lemma wrote_accepted:
  "\<lbrakk>wrote w p True w'; extends w es w'\<rbrakk> \<Longrightarrow> attr_writes es = p \<and> accepted_writes es = length p"
  unfolding wrote_def by (metis extends_unique)

section \<open>Failures and results\<close>

record write_failure =
  wf_attribute :: string
  wf_detail :: string

definition write_failure_display :: "write_failure \<Rightarrow> string" where
  "write_failure_display f = wf_attribute f @ '': '' @ wf_detail f"

record applied =
  ap_readback :: channel_readback
  ap_writes :: u32

record channel_snapshot =
  cs_channel :: channel
  cs_mode :: "pwm_mode option"
  cs_duty :: "u8 option"
  cs_curve :: "temperature_curve option"

definition with_curve :: "channel_snapshot \<Rightarrow> temperature_curve option \<Rightarrow> channel_snapshot" where
  "with_curve s c = (if cs_curve s = None then s\<lparr>cs_curve := c\<rparr> else s)"

definition restores_behavior :: "channel_snapshot \<Rightarrow> bool" where
  "restores_behavior s = (case cs_mode s of
      None \<Rightarrow> False
    | Some FullSpeed \<Rightarrow> True
    | Some PwmFixed \<Rightarrow> cs_duty s \<noteq> None
    | Some PwmCurve \<Rightarrow> cs_curve s \<noteq> None)"

definition describe_io :: "string \<Rightarrow> io_error \<Rightarrow> string" where
  "describe_io path e = (case io_kind e of
      KindPermissionDenied \<Rightarrow> ''permission denied on '' @ path @ ''. Check the installed udev rule.''
    | KindNotFound \<Rightarrow> path @ '' does not exist.''
    | _ \<Rightarrow> path @ '' could not be written: '' @ io_display e)"

definition describe_mode :: "pwm_mode option \<Rightarrow> string" where
  "describe_mode m = (case m of Some mode \<Rightarrow> pwm_label mode | None \<Rightarrow> ''unreadable'')"

definition describe_duty :: "u8 option \<Rightarrow> string" where
  "describe_duty d = (case d of Some duty \<Rightarrow> show_nat (unat duty) | None \<Rightarrow> ''unreadable'')"

section \<open>Operations\<close>

text \<open>The write of one attribute: \<open>write_attribute\<close> under \<open>CoolingControl::write\<close>.\<close>

definition control_write :: "attr_env \<Rightarrow> kraken_hwmon \<Rightarrow> string \<Rightarrow> u8 \<Rightarrow> world \<Rightarrow>
    (write_failure + unit) \<times> world" where
  "control_write env h attribute v w =
    (let path = hwmon_attr h attribute;
         (r, w) = attr_write env path (show_nat (unat v)) w
     in (map_err (\<lambda>e. \<lparr>wf_attribute = attribute, wf_detail = describe_io path e\<rparr>) r, w))"

definition snapshot :: "attr_env \<Rightarrow> kraken_hwmon \<Rightarrow> channel \<Rightarrow> world \<Rightarrow> channel_snapshot \<times> world" where
  "snapshot env h ch w =
    (let (mode, w) = hwmon_mode env h ch w;
         (duty, w) = hwmon_duty env h ch w;
         (curve, w) = hwmon_curve env h ch w
     in (\<lparr>cs_channel = ch, cs_mode = reading_value mode, cs_duty = reading_value duty,
           cs_curve = result_ok curve\<rparr>, w))"

definition read_back :: "attr_env \<Rightarrow> kraken_hwmon \<Rightarrow> channel \<Rightarrow> world \<Rightarrow> channel_readback \<times> world" where
  "read_back env h ch w =
    (let (mode, w) = hwmon_mode env h ch w;
         (duty, w) = hwmon_duty env h ch w
     in ((readback_new ch)\<lparr>rb_mode := reading_value mode, rb_duty := reading_value duty\<rparr>, w))"

definition applied_of :: "channel_readback \<Rightarrow> string list \<Rightarrow> u32 \<Rightarrow> applied" where
  "applied_of rb mismatches writes =
    \<lparr>ap_readback = (if mismatches = [] then rb
       else rb\<lparr>rb_mismatch := Some (join ''; '' mismatches)\<rparr>),
     ap_writes = writes\<rparr>"

definition mode_mismatch :: "channel \<Rightarrow> pwm_mode option \<Rightarrow> string \<Rightarrow> string" where
  "mode_mismatch ch m wanted =
    mode_attribute ch @ '' reads back as '' @ describe_mode m @ '', not '' @ wanted"

definition apply_fixed :: "attr_env \<Rightarrow> kraken_hwmon \<Rightarrow> channel \<Rightarrow> u8 \<Rightarrow> world \<Rightarrow>
    (write_failure + applied) \<times> world" where
  "apply_fixed env h ch duty w =
    or_return (control_write env h (duty_attribute ch) duty w) (\<lambda>_ w.
    or_return (control_write env h (mode_attribute ch) (pwm_to_kernel PwmFixed) w) (\<lambda>_ w.
      (let (rb, w) = read_back env h ch w;
           mismatches =
             (if rb_mode rb \<noteq> Some PwmFixed then [mode_mismatch ch (rb_mode rb) ''direct PWM''] else []) @
             (if rb_duty rb \<noteq> Some duty
              then [duty_attribute ch @ '' reads back as '' @ describe_duty (rb_duty rb) @
                    '', not '' @ show_nat (unat duty)]
              else [])
       in (Inr (applied_of rb mismatches 2), w))))"

definition transition_duty :: "attr_env \<Rightarrow> kraken_hwmon \<Rightarrow> channel \<Rightarrow> temperature_curve \<Rightarrow> world \<Rightarrow>
    u8 \<times> world" where
  "transition_duty env h ch curve w =
    (let (duty, w) = hwmon_duty env h ch w in
     case reading_value duty of
       Some d \<Rightarrow> (max d (min_duty ch), w)
     | None \<Rightarrow>
         (let (liquid, w) = liquid_temperature_c env h w;
              d = (case reading_value liquid of
                  None \<Rightarrow> highest_duty curve
                | Some t \<Rightarrow> (case duty_at curve t of None \<Rightarrow> highest_duty curve | Some d \<Rightarrow> d))
          in (max d (min_duty ch), w)))"

text \<open>The loop over the points, from \<open>index\<close> on.\<close>

fun write_points :: "attr_env \<Rightarrow> kraken_hwmon \<Rightarrow> channel \<Rightarrow> nat \<Rightarrow> u8 list \<Rightarrow> world \<Rightarrow>
    (write_failure + unit) \<times> world" where
  "write_points env h ch index [] w = (Inr (), w)"
| "write_points env h ch index (d # ds) w =
    or_return (control_write env h (curve_point_attribute ch index) d w) (\<lambda>_ w.
      write_points env h ch (Suc index) ds w)"

definition leave_curve_mode :: "attr_env \<Rightarrow> kraken_hwmon \<Rightarrow> channel \<Rightarrow> temperature_curve \<Rightarrow> world \<Rightarrow>
    (write_failure + u32) \<times> world" where
  "leave_curve_mode env h ch curve w =
    (let (mode, w) = hwmon_mode env h ch w in
     if reading_value mode = Some PwmCurve then
       (let (holding, w) = transition_duty env h ch curve w in
        or_return (control_write env h (duty_attribute ch) holding w) (\<lambda>_ w.
        or_return (control_write env h (mode_attribute ch) (pwm_to_kernel PwmFixed) w) (\<lambda>_ w.
          (Inr 2, w))))
     else (Inr 0, w))"

definition stage_curve :: "attr_env \<Rightarrow> kraken_hwmon \<Rightarrow> channel \<Rightarrow> temperature_curve \<Rightarrow> world \<Rightarrow>
    (write_failure + u32) \<times> world" where
  "stage_curve env h ch curve w =
    or_return (leave_curve_mode env h ch curve w) (\<lambda>writes w.
    or_return (write_points env h ch 0 (points curve) w) (\<lambda>_ w.
      (Inr (writes + word_of_nat CURVE_POINT_COUNT), w)))"

text \<open>The check of \<open>apply_curve\<close> after its writes: how many points read back as written.\<close>

definition confirmed_points :: "temperature_curve \<Rightarrow> temperature_curve \<Rightarrow> nat" where
  "confirmed_points written curve = length (filter (\<lambda>(a, b). a = b) (zip (points written) (points curve)))"

definition apply_curve :: "attr_env \<Rightarrow> kraken_hwmon \<Rightarrow> channel \<Rightarrow> temperature_curve \<Rightarrow> world \<Rightarrow>
    (write_failure + applied) \<times> world" where
  "apply_curve env h ch curve w =
    or_return (stage_curve env h ch curve w) (\<lambda>writes w.
    or_return (control_write env h (mode_attribute ch) (pwm_to_kernel PwmCurve) w) (\<lambda>_ w.
      (let (rb, w) = read_back env h ch w;
           (written, w) = hwmon_curve env h ch w;
           (rb, unconfirmed) = (case written of
               Inl _ \<Rightarrow> (rb, [])
             | Inr c \<Rightarrow> (let n = confirmed_points c curve in
                 (rb\<lparr>rb_curve_points_confirmed := Some (word_of_nat n)\<rparr>,
                  if n \<noteq> CURVE_POINT_COUNT
                  then [show_nat n @ '' of '' @ show_nat CURVE_POINT_COUNT @
                        '' curve points read back as written'']
                  else [])));
           mismatches = unconfirmed @
             (if rb_mode rb \<noteq> Some PwmCurve then [mode_mismatch ch (rb_mode rb) ''curve control''] else [])
       in (Inr (applied_of rb mismatches (writes + 1)), w))))"

text \<open>The three conditional writes of \<open>restore\<close>, each preceded by the reading it is guarded by.\<close>

definition restore_curve :: "attr_env \<Rightarrow> kraken_hwmon \<Rightarrow> channel_snapshot \<Rightarrow> world \<Rightarrow>
    (write_failure + unit) \<times> world" where
  "restore_curve env h s w =
    (case (cs_mode s, cs_curve s) of
      (Some PwmCurve, Some curve) \<Rightarrow>
        or_return (stage_curve env h (cs_channel s) curve w) (\<lambda>_ w. (Inr (), w))
    | _ \<Rightarrow> (Inr (), w))"

definition restore_duty :: "attr_env \<Rightarrow> kraken_hwmon \<Rightarrow> channel_snapshot \<Rightarrow> world \<Rightarrow>
    (write_failure + unit) \<times> world" where
  "restore_duty env h s w =
    (case cs_duty s of
      None \<Rightarrow> (Inr (), w)
    | Some duty \<Rightarrow> (let (now, w) = hwmon_duty env h (cs_channel s) w in
        if reading_value now \<noteq> Some duty
        then control_write env h (duty_attribute (cs_channel s)) duty w
        else (Inr (), w)))"

definition restore_mode :: "attr_env \<Rightarrow> kraken_hwmon \<Rightarrow> channel_snapshot \<Rightarrow> world \<Rightarrow>
    (write_failure + unit) \<times> world" where
  "restore_mode env h s w =
    (case cs_mode s of
      None \<Rightarrow> (Inr (), w)
    | Some mode \<Rightarrow> (let (now, w) = hwmon_mode env h (cs_channel s) w in
        if reading_value now \<noteq> Some mode
        then control_write env h (mode_attribute (cs_channel s)) (pwm_to_kernel mode) w
        else (Inr (), w)))"

text \<open>What \<open>restore\<close> can prove afterwards.\<close>

definition restore_confirmed :: "attr_env \<Rightarrow> kraken_hwmon \<Rightarrow> channel_snapshot \<Rightarrow> world \<Rightarrow> bool \<times> world" where
  "restore_confirmed env h s w =
    (let ch = cs_channel s;
         (mode_ok, w) = (case cs_mode s of
             None \<Rightarrow> (True, w)
           | Some mode \<Rightarrow> (let (now, w) = hwmon_mode env h ch w in (reading_value now = Some mode, w)));
         (read, w) = hwmon_curve env h ch w;
         curve_ok = (case (cs_curve s, read) of (Some c, Inr r) \<Rightarrow> r = c | _ \<Rightarrow> True);
         (duty_ok, w) = (case (cs_mode s, cs_duty s) of
             (Some PwmFixed, Some duty) \<Rightarrow>
               (let (now, w) = hwmon_duty env h ch w in (reading_value now = Some duty, w))
           | _ \<Rightarrow> (True, w))
     in (restores_behavior s \<and> mode_ok \<and> curve_ok \<and> duty_ok, w))"

definition restore :: "attr_env \<Rightarrow> kraken_hwmon \<Rightarrow> channel_snapshot \<Rightarrow> world \<Rightarrow>
    (write_failure + bool) \<times> world" where
  "restore env h s w =
    or_return (restore_curve env h s w) (\<lambda>_ w.
    or_return (restore_duty env h s w) (\<lambda>_ w.
    or_return (restore_mode env h s w) (\<lambda>_ w.
      (let (confirmed, w) = restore_confirmed env h s w in (Inr confirmed, w)))))"

section \<open>What each operation writes\<close>

text \<open>A result together with the world it left: the operation performed the plan.\<close>

definition performs :: "world \<Rightarrow> (string \<times> string) list \<Rightarrow> ('e + 'a) \<times> world \<Rightarrow> bool" where
  "performs w plan r = wrote w plan (is_ok (fst r)) (snd r)"

definition line :: "kraken_hwmon \<Rightarrow> string \<Rightarrow> u8 \<Rightarrow> string \<times> string" where
  "line h name v = (hwmon_attr h name, show_nat (unat v))"

lemma performs_bind:
  assumes "performs w p m" "\<And>x. fst m = Inr x \<Longrightarrow> performs (snd m) q (k x (snd m))"
  shows "performs w (p @ q) (or_return m k)"
  using assms attr_plan.plan_bind [of w p m q k] by (simp add: performs_def)

lemma performs_return: "silent w w' \<Longrightarrow> performs w [] (Inr x, w')"
  by (simp add: performs_def wrote_silent)

lemma performs_after: "\<lbrakk>silent w w'; performs w' p r\<rbrakk> \<Longrightarrow> performs w p r"
  by (simp add: performs_def silent_wrote)

lemma performs_ok: "performs w p (Inr x, w') \<longleftrightarrow> wrote w p True w'"
  by (simp add: performs_def)

lemma performs_err: "performs w p (Inl e, w') \<longleftrightarrow> wrote w p False w'"
  by (simp add: performs_def)

lemma performs_control_write: "performs w [line h name v] (control_write env h name v w)"
proof -
  let ?r = "ae_write env (w_trace w) (hwmon_attr h name) (show_nat (unat v))"
  have "extends w [AttrWrite (hwmon_attr h name) (show_nat (unat v)) (is_ok ?r)]
      (snd (control_write env h name v w))"
    by (simp add: control_write_def attr_write_def Let_def)
  moreover have "is_ok (fst (control_write env h name v w)) = is_ok ?r"
    by (cases ?r) (simp_all add: control_write_def attr_write_def Let_def)
  ultimately show ?thesis
    unfolding performs_def wrote_def line_def
    by (intro exI [of _ "[AttrWrite (hwmon_attr h name) (show_nat (unat v)) (is_ok ?r)]"])
      (cases "is_ok ?r", simp_all add: attr_event_def)
qed

fun point_lines :: "kraken_hwmon \<Rightarrow> channel \<Rightarrow> nat \<Rightarrow> u8 list \<Rightarrow> (string \<times> string) list" where
  "point_lines h ch index [] = []"
| "point_lines h ch index (d # ds) = line h (curve_point_attribute ch index) d # point_lines h ch (Suc index) ds"

lemma length_point_lines [simp]: "length (point_lines h ch i ds) = length ds"
  by (induction ds arbitrary: i) simp_all

lemma performs_write_points: "performs w (point_lines h ch i ds) (write_points env h ch i ds w)"
proof (induction ds arbitrary: i w)
  case Nil
  then show ?case by (simp add: performs_return)
next
  case (Cons d ds)
  have "performs w ([line h (curve_point_attribute ch i) d] @ point_lines h ch (Suc i) ds)
      (write_points env h ch i (d # ds) w)"
    unfolding write_points.simps
    by (intro performs_bind performs_control_write Cons.IH)
  then show ?case by simp
qed

definition running_curve :: "attr_env \<Rightarrow> kraken_hwmon \<Rightarrow> channel \<Rightarrow> world \<Rightarrow> bool" where
  "running_curve env h ch w = (reading_value (fst (hwmon_mode env h ch w)) = Some PwmCurve)"

text \<open>The two writes that leave curve mode, when the channel runs a curve.\<close>

definition leave_plan :: "attr_env \<Rightarrow> kraken_hwmon \<Rightarrow> channel \<Rightarrow> temperature_curve \<Rightarrow> world \<Rightarrow>
    (string \<times> string) list" where
  "leave_plan env h ch curve w = (if running_curve env h ch w
    then [line h (duty_attribute ch) (fst (transition_duty env h ch curve (snd (hwmon_mode env h ch w)))),
          line h (mode_attribute ch) 1]
    else [])"

lemma silent_transition_duty [silent_rules]: "silent w (snd (transition_duty env h ch curve w))"
  using silent_trans [OF silent_hwmon_duty silent_liquid_temperature_c] silent_hwmon_duty
  by (simp add: transition_duty_def split_beta Let_def split: option.split)

lemma transition_duty_floor: "min_duty ch \<le> fst (transition_duty env h ch curve w)"
  by (simp add: transition_duty_def split_beta Let_def split: option.split)

lemma leave_curve_mode_spec:
  "performs w (leave_plan env h ch curve w) (leave_curve_mode env h ch curve w)"
  "fst (leave_curve_mode env h ch curve w) = Inr n \<Longrightarrow>
   n = word_of_nat (length (leave_plan env h ch curve w))"
proof -
  let ?w1 = "snd (hwmon_mode env h ch w)"
  let ?t = "transition_duty env h ch curve ?w1"
  have s: "silent w ?w1" "silent w (snd ?t)"
    by (blast intro: silent_rules silent_trans)+
  have two: "performs (snd ?t) ([line h (duty_attribute ch) (fst ?t)] @ [line h (mode_attribute ch) 1] @ [])
      (or_return (control_write env h (duty_attribute ch) (fst ?t) (snd ?t)) (\<lambda>_ w.
       or_return (control_write env h (mode_attribute ch) (pwm_to_kernel PwmFixed) w) (\<lambda>_ w. (Inr (2 :: u32), w))))"
    using performs_control_write [of _ h "mode_attribute ch" 1 env]
    by (intro performs_bind performs_control_write performs_return silent_refl) simp_all
  show "performs w (leave_plan env h ch curve w) (leave_curve_mode env h ch curve w)"
  proof (cases "running_curve env h ch w")
    case True
    then show ?thesis
      using performs_after [OF s(2) two]
      by (simp add: leave_plan_def running_curve_def leave_curve_mode_def split_beta)
  next
    case False
    then show ?thesis
      using performs_return [OF s(1)]
      by (simp add: leave_plan_def running_curve_def leave_curve_mode_def split_beta)
  qed
  show "fst (leave_curve_mode env h ch curve w) = Inr n \<Longrightarrow>
      n = word_of_nat (length (leave_plan env h ch curve w))"
    by (auto simp: leave_plan_def running_curve_def leave_curve_mode_def split_beta Let_def or_return_def
        split: if_splits sum.splits)
qed

lemma stage_curve_spec:
  "performs w (leave_plan env h ch curve w @ point_lines h ch 0 (points curve)) (stage_curve env h ch curve w)"
  "\<lbrakk>curve_ok curve; fst (stage_curve env h ch curve w) = Inr n\<rbrakk> \<Longrightarrow>
   n = word_of_nat (length (leave_plan env h ch curve w @ point_lines h ch 0 (points curve)))"
proof -
  have "performs w (leave_plan env h ch curve w @ point_lines h ch 0 (points curve) @ [])
      (stage_curve env h ch curve w)"
    unfolding stage_curve_def
    by (intro performs_bind leave_curve_mode_spec(1) performs_write_points performs_return silent_refl)
  then show "performs w (leave_plan env h ch curve w @ point_lines h ch 0 (points curve)) (stage_curve env h ch curve w)"
    by simp
  show "\<lbrakk>curve_ok curve; fst (stage_curve env h ch curve w) = Inr n\<rbrakk> \<Longrightarrow>
     n = word_of_nat (length (leave_plan env h ch curve w @ point_lines h ch 0 (points curve)))"
    using leave_curve_mode_spec(2) [of env h ch curve w]
    by (auto simp: stage_curve_def curve_ok_def or_return_def split_beta split: sum.splits)
qed

lemma silent_read_back [silent_rules]: "silent w (snd (read_back env h ch w))"
  using silent_trans [OF silent_hwmon_mode silent_hwmon_duty]
  by (simp add: read_back_def split_beta Let_def)

definition fixed_plan :: "kraken_hwmon \<Rightarrow> channel \<Rightarrow> u8 \<Rightarrow> (string \<times> string) list" where
  "fixed_plan h ch duty = [line h (duty_attribute ch) duty, line h (mode_attribute ch) 1]"

definition curve_plan :: "attr_env \<Rightarrow> kraken_hwmon \<Rightarrow> channel \<Rightarrow> temperature_curve \<Rightarrow> world \<Rightarrow>
    (string \<times> string) list" where
  "curve_plan env h ch curve w = leave_plan env h ch curve w @ point_lines h ch 0 (points curve) @
    [line h (mode_attribute ch) 2]"

lemma performs_apply_fixed: "performs w (fixed_plan h ch duty) (apply_fixed env h ch duty w)"
proof -
  have "performs w ([line h (duty_attribute ch) duty] @ [line h (mode_attribute ch) 1] @ [])
      (apply_fixed env h ch duty w)"
    unfolding apply_fixed_def split_beta Let_def
    using performs_control_write [of _ h "mode_attribute ch" 1 env]
    by (intro performs_bind performs_control_write performs_return
        silent_read_back) simp_all
  then show ?thesis by (simp add: fixed_plan_def)
qed

lemma performs_apply_curve: "performs w (curve_plan env h ch curve w) (apply_curve env h ch curve w)"
proof -
  have "performs w ((leave_plan env h ch curve w @ point_lines h ch 0 (points curve)) @
      [line h (mode_attribute ch) 2] @ []) (apply_curve env h ch curve w)"
    unfolding apply_curve_def split_beta Let_def
    using performs_control_write [of _ h "mode_attribute ch" 2 env]
    by (intro performs_bind stage_curve_spec(1) performs_return
        silent_trans [OF silent_read_back silent_hwmon_curve]) simp_all
  then show ?thesis by (simp add: curve_plan_def)
qed

definition channel_attributes :: "kraken_hwmon \<Rightarrow> channel \<Rightarrow> string set" where
  "channel_attributes h ch = hwmon_attr h ` (insert (duty_attribute ch) (insert (mode_attribute ch)
    (range (curve_point_attribute ch))))"

lemma line_allowed:
  "fst (line h (duty_attribute ch) v) \<in> channel_attributes h ch"
  "fst (line h (mode_attribute ch) v) \<in> channel_attributes h ch"
  "fst (line h (curve_point_attribute ch i) v) \<in> channel_attributes h ch"
  by (auto simp: line_def channel_attributes_def)

lemma point_lines_allowed: "fst ` set (point_lines h ch i ds) \<subseteq> channel_attributes h ch"
  by (induction ds arbitrary: i) (auto simp: line_allowed)

lemma leave_plan_allowed: "fst ` set (leave_plan env h ch curve w) \<subseteq> channel_attributes h ch"
  by (auto simp: leave_plan_def line_allowed)

lemma performs_restore_curve:
  "\<exists>plan. performs w plan (restore_curve env h s w) \<and> fst ` set plan \<subseteq> channel_attributes h (cs_channel s)"
proof (cases "\<exists>c. cs_mode s = Some PwmCurve \<and> cs_curve s = Some c")
  case True
  then obtain c where c: "cs_mode s = Some PwmCurve" "cs_curve s = Some c" by blast
  let ?plan = "leave_plan env h (cs_channel s) c w @ point_lines h (cs_channel s) 0 (points c)"
  have "performs w (?plan @ []) (restore_curve env h s w)"
    unfolding restore_curve_def c option.case prod.case pwm_mode.case
    by (intro performs_bind stage_curve_spec(1) performs_return silent_refl)
  moreover have "fst ` set (?plan @ []) \<subseteq> channel_attributes h (cs_channel s)"
    using leave_plan_allowed [of env h "cs_channel s" c w] point_lines_allowed [of h "cs_channel s" 0 "points c"]
    by (auto simp del: point_lines.simps)
  ultimately show ?thesis by blast
next
  case False
  then have "restore_curve env h s w = (Inr (), w)"
    by (auto simp: restore_curve_def split: option.split pwm_mode.split)
  then show ?thesis using performs_return [OF silent_refl] by (intro exI [of _ "[]"]) auto
qed

lemma performs_restore_duty:
  "\<exists>plan. performs w plan (restore_duty env h s w) \<and> fst ` set plan \<subseteq> channel_attributes h (cs_channel s)"
proof (cases "cs_duty s")
  case None
  then show ?thesis
    by (intro exI [of _ "[]"]) (simp add: restore_duty_def performs_return)
next
  case (Some d)
  show ?thesis
  proof (cases "reading_value (fst (hwmon_duty env h (cs_channel s) w)) = Some d")
    case True
    then show ?thesis
      by (intro exI [of _ "[]"]) (simp add: restore_duty_def Some split_beta performs_return silent_rules)
  next
    case False
    then show ?thesis
      by (intro exI [of _ "[line h (duty_attribute (cs_channel s)) d]"])
        (simp add: restore_duty_def Some split_beta line_allowed
          performs_after [OF silent_hwmon_duty performs_control_write])
  qed
qed

lemma performs_restore_mode:
  "\<exists>plan. performs w plan (restore_mode env h s w) \<and> fst ` set plan \<subseteq> channel_attributes h (cs_channel s)"
proof (cases "cs_mode s")
  case None
  then show ?thesis
    by (intro exI [of _ "[]"]) (simp add: restore_mode_def performs_return)
next
  case (Some m)
  show ?thesis
  proof (cases "reading_value (fst (hwmon_mode env h (cs_channel s) w)) = Some m")
    case True
    then show ?thesis
      by (intro exI [of _ "[]"]) (simp add: restore_mode_def Some split_beta performs_return silent_rules)
  next
    case False
    then show ?thesis
      by (intro exI [of _ "[line h (mode_attribute (cs_channel s)) (pwm_to_kernel m)]"])
        (simp add: restore_mode_def Some split_beta line_allowed
          performs_after [OF silent_hwmon_mode performs_control_write])
  qed
qed

lemma silent_restore_confirmed [silent_rules]: "silent w (snd (restore_confirmed env h s w))"
proof -
  let ?w1 = "snd (case cs_mode s of None \<Rightarrow> (True, w)
    | Some mode \<Rightarrow> (let (now, w) = hwmon_mode env h (cs_channel s) w in (reading_value now = Some mode, w)))"
  have a: "silent w ?w1" by (simp add: split_beta silent_rules split: option.split)
  let ?w2 = "snd (hwmon_curve env h (cs_channel s) ?w1)"
  have b: "silent w ?w2" by (rule silent_trans [OF a silent_hwmon_curve])
  show ?thesis
    using b silent_trans [OF b silent_hwmon_duty]
    by (auto simp: restore_confirmed_def Let_def split_beta split: option.split pwm_mode.split)
qed

lemma performs_restore:
  "\<exists>plan. performs w plan (restore env h s w) \<and> fst ` set plan \<subseteq> channel_attributes h (cs_channel s)"
proof -
  let ?a = "restore_curve env h s w"
  let ?b = "restore_duty env h s (snd ?a)"
  let ?c = "restore_mode env h s (snd ?b)"
  obtain p where p: "performs w p ?a" "fst ` set p \<subseteq> channel_attributes h (cs_channel s)"
    using performs_restore_curve by blast
  obtain q where q: "performs (snd ?a) q ?b" "fst ` set q \<subseteq> channel_attributes h (cs_channel s)"
    using performs_restore_duty by blast
  obtain r where r: "performs (snd ?b) r ?c" "fst ` set r \<subseteq> channel_attributes h (cs_channel s)"
    using performs_restore_mode by blast
  have "performs w (p @ q @ r @ []) (restore env h s w)"
    unfolding restore_def split_beta Let_def
    by (intro performs_bind p(1) q(1) r(1) performs_return silent_restore_confirmed)
  then show ?thesis using p(2) q(2) r(2)
    by (intro exI [of _ "p @ q @ r @ []"]) auto
qed

section \<open>Readbacks\<close>

lemma applied_of_simps [simp]:
  "ap_writes (applied_of rb ms n) = n"
  "rb_mode (ap_readback (applied_of rb ms n)) = rb_mode rb"
  "rb_duty (ap_readback (applied_of rb ms n)) = rb_duty rb"
  "rb_channel (ap_readback (applied_of rb ms n)) = rb_channel rb"
  "rb_curve_points_confirmed (ap_readback (applied_of rb ms n)) = rb_curve_points_confirmed rb"
  "rb_mismatch rb = None \<Longrightarrow> rb_mismatch (ap_readback (applied_of rb ms n)) = None \<longleftrightarrow> ms = []"
  by (simp_all add: applied_of_def)

lemma read_back_fields:
  "rb_mismatch (fst (read_back env h ch w)) = None"
  "rb_channel (fst (read_back env h ch w)) = ch"
  "rb_curve_points_confirmed (fst (read_back env h ch w)) = None"
  by (simp_all add: read_back_def split_beta Let_def readback_new_def)

lemma apply_fixed_readback:
  "fst (apply_fixed env h ch duty w) = Inr a \<Longrightarrow> ap_writes a = 2 \<and> rb_channel (ap_readback a) = ch \<and>
   (rb_mismatch (ap_readback a) = None \<longleftrightarrow>
     rb_mode (ap_readback a) = Some PwmFixed \<and> rb_duty (ap_readback a) = Some duty)"
  by (auto simp: apply_fixed_def or_return_def split_beta Let_def read_back_fields
      split: sum.splits if_splits)

lemma confirmed_points_le: "confirmed_points a b \<le> length (points a)"
  unfolding confirmed_points_def
  by (rule order_trans [OF length_filter_le]) simp

lemma confirmed_word: "curve_ok a \<Longrightarrow>
  (word_of_nat (confirmed_points a b) :: u16) = word_of_nat CURVE_POINT_COUNT \<longleftrightarrow>
  confirmed_points a b = CURVE_POINT_COUNT"
  using confirmed_points_le [of a b]
  by (simp add: curve_ok_def CURVE_POINT_COUNT_def word_unat_eq_iff unat_of_nat)

lemma apply_curve_readback:
  "fst (apply_curve env h ch curve w) = Inr a \<Longrightarrow>
   ap_writes a = word_of_nat (length (leave_plan env h ch curve w) + CURVE_POINT_COUNT + 1) \<and>
   rb_channel (ap_readback a) = ch \<and>
   (rb_mismatch (ap_readback a) = None \<longleftrightarrow> rb_mode (ap_readback a) = Some PwmCurve \<and>
     rb_curve_points_confirmed (ap_readback a) \<in> {None, Some (word_of_nat CURVE_POINT_COUNT)})"
proof -
  assume a: "fst (apply_curve env h ch curve w) = Inr a"
  let ?s = "stage_curve env h ch curve w"
  let ?m = "control_write env h (mode_attribute ch) (pwm_to_kernel PwmCurve) (snd ?s)"
  let ?rb = "read_back env h ch (snd ?m)"
  let ?c = "fst (hwmon_curve env h ch (snd ?rb))"
  obtain n where n: "fst ?s = Inr n"
    using a by (auto simp: apply_curve_def or_return_def split_beta split: sum.splits)
  have count: "n = word_of_nat (length (leave_plan env h ch curve w) + CURVE_POINT_COUNT)"
    using n leave_curve_mode_spec(2) [of env h ch curve w]
    by (auto simp: stage_curve_def or_return_def split_beta split: sum.splits)
  show ?thesis
  proof (cases ?c)
    case (Inl e)
    then show ?thesis using a n count
      by (auto simp: apply_curve_def or_return_def split_beta Let_def read_back_fields
          split: sum.splits if_splits)
  next
    case (Inr c)
    then have "curve_ok c" by (rule hwmon_curve_ok)
    then show ?thesis using a n count Inr
      by (auto simp: apply_curve_def or_return_def split_beta Let_def read_back_fields confirmed_word
          simp del: of_nat_add split: sum.splits if_splits)
  qed
qed

section \<open>A driver\<close>

text \<open>The attributes of a driver that accepts every write, keeps the last one of each file and
  reads the duty files back through a conversion \<open>f\<close>: the identity for a driver that stores the byte,
  \<open>stored_as_percent\<close> for one that stores a percentage and converts both ways.\<close>

fun last_written :: "io_event list \<Rightarrow> string \<Rightarrow> string option" where
  "last_written [] q = None"
| "last_written (AttrWrite p b ok # es) q = (if ok \<and> p = q then Some b else last_written es q)"
| "last_written (_ # es) q = last_written es q"

definition driver_env :: "(u8 \<Rightarrow> u8) \<Rightarrow> string list \<Rightarrow> (string \<Rightarrow> io_error + string) \<Rightarrow> attr_env" where
  "driver_env f duty_files init =
    \<lparr>ae_read = (\<lambda>trace path. case last_written trace path of
        None \<Rightarrow> init path
      | Some b \<Rightarrow> Inr ((case parse_u8 b of
            Some d \<Rightarrow> if path \<in> set duty_files then show_nat (unat (f d)) else b
          | None \<Rightarrow> b) @ [CHR 0x0A])),
     ae_write = (\<lambda>trace path b. Inr ()),
     ae_list = (\<lambda>trace path. []),
     ae_canonical = (\<lambda>trace path. None)\<rparr>"

definition stored_as_percent :: "u8 \<Rightarrow> u8" where
  "stored_as_percent d = duty_from_percent (duty_to_percent d)"

lemma trim_graphic_newline:
  assumes "\<forall>c \<in> set s. ascii_graphic c" "s \<noteq> []"
  shows "trim (s @ [CHR 0x0A]) = s"
proof -
  define xs where "xs = map (\<lambda>c. [c]) s"
  have ch: "chars (s @ [CHR 0x0A]) = xs @ [[CHR 0x0A]]"
    unfolding xs_def using assms(1) by (subst chars_ascii) (auto simp: ascii_graphic_def byte_def)
  have w: "\<not> is_whitespace x" if "x \<in> set xs" for x
    using assms(1) that by (auto simp: xs_def is_whitespace_def ascii_graphic_def)
  have n: "is_whitespace [CHR 0x0A]" by (simp add: is_whitespace_def byte_def)
  have ne: "xs \<noteq> []" using assms(2) by (simp add: xs_def)
  have d1: "dropWhile is_whitespace (xs @ [[CHR 0x0A]]) = xs @ [[CHR 0x0A]]"
    using ne w [of "hd xs"] by (cases xs) simp_all
  have d2: "dropWhile is_whitespace (rev xs) = rev xs"
    using ne w [of "last xs"] by (cases xs rule: rev_cases) simp_all
  have "trim (s @ [CHR 0x0A]) = concat xs"
    by (simp add: trim_def ch d1 d2 n)
  then show ?thesis by (simp add: xs_def)
qed

lemma read_driver_number:
  assumes "last_written (w_trace w) path = Some (show_nat (unat (b :: u8)))"
    "v = (if path \<in> set duties then f b else b)"
  shows "fst (read_parsed parse_u8 ''u8'' (driver_env f duties init) path w) = Inr v"
proof -
  have p: "parse_u8 (show_nat (unat c)) = Some c" for c :: u8
    by (simp add: parse_u8_iff parse_show_nat)
  have raw: "ae_read (driver_env f duties init) (w_trace w) path = Inr (show_nat (unat v) @ [CHR 0x0A])"
    using assms by (simp add: driver_env_def p)
  have g: "\<forall>c \<in> set (show_nat (unat v)). ascii_graphic c"
    using graphic_show_nat by blast
  have u: "utf8_valid (map byte (show_nat (unat v) @ [CHR 0x0A]))"
    using g by (intro utf8_valid_ascii) (auto simp: ascii_graphic_def byte_def)
  show ?thesis
    using raw u by (auto simp: read_parsed_ok read_attribute_detailed_ok p trim_graphic_newline [OF g])
qed

lemma hwmon_attr_eq: "\<lbrakk>\<not> starts_with ''/'' a; \<not> starts_with ''/'' b\<rbrakk> \<Longrightarrow>
    hwmon_attr h a = hwmon_attr h b \<longleftrightarrow> a = b"
  by (auto simp: hwmon_attr_def path_join_def)

lemma duty_mode_distinct: "hwmon_attr h (duty_attribute ch) \<noteq> hwmon_attr h (mode_attribute ch)"
  by (subst hwmon_attr_eq) (simp_all add: duty_attribute_def mode_attribute_def starts_with_def)

lemma silent_last_written: "silent w w' \<Longrightarrow> last_written (w_trace w') q = last_written (w_trace w) q"
proof -
  assume "silent w w'"
  then obtain es where "w_trace w' = rev es @ w_trace w" "list_all silent_event (rev es)"
    by (auto simp: silent_def extends_def)
  moreover have "list_all silent_event fs \<Longrightarrow> last_written (fs @ t) q = last_written t q" for fs t
    by (induction fs) (auto simp: silent_event_def split: io_event.splits)
  ultimately show ?thesis by simp
qed

lemma driver_write:
  "fst (control_write (driver_env f duties init) h name v w) = Inr ()"
  "last_written (w_trace (snd (control_write (driver_env f duties init) h name v w))) q =
    (if q = hwmon_attr h name then Some (show_nat (unat v)) else last_written (w_trace w) q)"
  by (auto simp: control_write_def attr_write_def driver_env_def)

lemma apply_fixed_kept:
  "case fst (apply_fixed (driver_env f [hwmon_attr h (duty_attribute ch)] init) h ch duty w) of
     Inl _ \<Rightarrow> False
   | Inr a \<Rightarrow> rb_duty (ap_readback a) = Some (f duty) \<and> rb_mode (ap_readback a) = Some PwmFixed \<and>
       (rb_mismatch (ap_readback a) = None \<longleftrightarrow> f duty = duty)"
proof -
  let ?env = "driver_env f [hwmon_attr h (duty_attribute ch)] init"
  let ?d = "hwmon_attr h (duty_attribute ch)" and ?m = "hwmon_attr h (mode_attribute ch)"
  let ?w1 = "snd (control_write ?env h (duty_attribute ch) duty w)"
  let ?w2 = "snd (control_write ?env h (mode_attribute ch) 1 ?w1)"
  let ?w3 = "snd (hwmon_mode ?env h ch ?w2)"
  have lw: "last_written (w_trace ?w2) ?m = Some (show_nat (unat (1 :: u8)))"
    "last_written (w_trace ?w3) ?d = Some (show_nat (unat duty))"
    by (simp_all add: driver_write silent_last_written [OF silent_hwmon_mode] duty_mode_distinct)
  have mode: "fst (hwmon_mode ?env h ch ?w2) = Valid PwmFixed"
    using read_driver_number [OF lw(1), of 1 "[?d]" f init] duty_mode_distinct [of h ch]
    by (simp add: hwmon_mode_def split_beta Let_def pwm_from_kernel_def)
  have dut: "fst (hwmon_duty ?env h ch ?w3) = Valid (f duty)"
    using read_driver_number [OF lw(2), of "f duty" "[?d]" f init]
    by (simp add: hwmon_duty_def reading_at_def split_beta reading_of_result_def)
  have ok: "fst (control_write ?env h (duty_attribute ch) duty w) = Inr ()"
    "fst (control_write ?env h (mode_attribute ch) 1 ?w1) = Inr ()"
    by (rule driver_write)+
  have rb: "fst (read_back ?env h ch ?w2) =
      (readback_new ch)\<lparr>rb_mode := Some PwmFixed, rb_duty := Some (f duty)\<rparr>"
    by (simp add: read_back_def split_beta Let_def mode dut)
  show ?thesis
    by (simp add: apply_fixed_def or_return_def split_beta Let_def ok rb readback_new_def)
qed

section \<open>Properties\<close>

text \<open>A fixed duty is two writes, \<open>pwmN\<close> before \<open>pwmN_enable\<close>; a failure stops at the write that
  was refused. The count reported is the number of writes, and the readback is without a mismatch
  exactly when the device reports direct PWM at the very duty asked for.\<close>

theorem apply_fixed_sequence:
  "performs w [(hwmon_attr h (duty_attribute ch), show_nat (unat duty)),
      (hwmon_attr h (mode_attribute ch), show_nat 1)] (apply_fixed env h ch duty w) \<and>
   (case fst (apply_fixed env h ch duty w) of
      Inl _ \<Rightarrow> True
    | Inr a \<Rightarrow> ap_writes a = 2 \<and> rb_channel (ap_readback a) = ch \<and>
        (rb_mismatch (ap_readback a) = None \<longleftrightarrow>
          rb_mode (ap_readback a) = Some PwmFixed \<and> rb_duty (ap_readback a) = Some duty))"
  using performs_apply_fixed [of w h ch duty env] apply_fixed_readback [of env h ch duty w]
  by (auto simp: fixed_plan_def line_def split: sum.split)

text \<open>A curve is programmed by one transfer. If the channel runs a curve it is first held at a
  duty no lower than its minimum and put in direct mode; then the points are written in order; only
  then is the mode switched to curve. A failure stops at the write that was refused, so the mode is
  never switched over a half-written curve. The count reported is the number of writes.\<close>

theorem apply_curve_sequence:
  "\<exists>hold pre. min_duty ch \<le> hold \<and>
    pre = (if running_curve env h ch w
      then [(hwmon_attr h (duty_attribute ch), show_nat (unat hold)),
            (hwmon_attr h (mode_attribute ch), show_nat 1)] else []) \<and>
    performs w (pre @ point_lines h ch 0 (points curve) @ [(hwmon_attr h (mode_attribute ch), show_nat 2)])
      (apply_curve env h ch curve w) \<and>
    (case fst (apply_curve env h ch curve w) of
       Inl _ \<Rightarrow> True
     | Inr a \<Rightarrow> ap_writes a = word_of_nat (length pre + CURVE_POINT_COUNT + 1) \<and>
         rb_channel (ap_readback a) = ch \<and>
         (rb_mismatch (ap_readback a) = None \<longleftrightarrow> rb_mode (ap_readback a) = Some PwmCurve \<and>
           rb_curve_points_confirmed (ap_readback a) \<in> {None, Some (word_of_nat CURVE_POINT_COUNT)}))"
proof (intro exI conjI)
  let ?hold = "fst (transition_duty env h ch curve (snd (hwmon_mode env h ch w)))"
  show "min_duty ch \<le> ?hold" by (rule transition_duty_floor)
  show "leave_plan env h ch curve w = (if running_curve env h ch w
      then [(hwmon_attr h (duty_attribute ch), show_nat (unat ?hold)),
            (hwmon_attr h (mode_attribute ch), show_nat 1)] else [])"
    by (simp add: leave_plan_def line_def)
  show "performs w (leave_plan env h ch curve w @ point_lines h ch 0 (points curve) @
      [(hwmon_attr h (mode_attribute ch), show_nat 2)]) (apply_curve env h ch curve w)"
    using performs_apply_curve [of w env h ch curve] by (simp add: curve_plan_def line_def)
qed (use apply_curve_readback [of env h ch curve w] in \<open>auto split: sum.split simp del: of_nat_add\<close>)

text \<open>A restoration writes only the duty, the mode and the curve points of the snapshot's channel,
  and it is reported as proven only when the snapshot determines the channel's behavior.\<close>

theorem restore_stays_on_channel:
  "(\<exists>plan. performs w plan (restore env h s w) \<and> fst ` set plan \<subseteq> channel_attributes h (cs_channel s)) \<and>
   (case fst (restore env h s w) of Inr True \<Rightarrow> restores_behavior s | _ \<Rightarrow> True)"
  using performs_restore [of w env h s]
  by (auto simp: restore_def or_return_def restore_confirmed_def split_beta Let_def
      split: sum.splits bool.splits)

text \<open>On a driver that accepts every write, a fixed duty reads back as written exactly when the
  driver's conversion keeps it. A driver that keeps the byte confirms every duty.\<close>

theorem apply_fixed_confirms_iff_kept:
  "case fst (apply_fixed (driver_env f [hwmon_attr h (duty_attribute ch)] init) h ch duty w) of
     Inl _ \<Rightarrow> False
   | Inr a \<Rightarrow> rb_duty (ap_readback a) = Some (f duty) \<and> rb_mode (ap_readback a) = Some PwmFixed \<and>
       (rb_mismatch (ap_readback a) = None \<longleftrightarrow> f duty = duty)"
  by (rule apply_fixed_kept)

text \<open>A duty the profiles accept may have no percentage: 52 on the pump is valid, a driver that
  stores percentages answers 51, and the write is then reported as not having read back.\<close>

theorem off_grid_duty_mismatches:
  "validate_duty Pump 52 = Inr () \<and> stored_as_percent 52 = 51 \<and>
   (case fst (apply_fixed (driver_env stored_as_percent [hwmon_attr h (duty_attribute Pump)] init)
        h Pump 52 w) of
      Inl _ \<Rightarrow> False
    | Inr a \<Rightarrow> rb_mismatch (ap_readback a) \<noteq> None)"
proof -
  have s: "stored_as_percent 52 = 51"
    unfolding stored_as_percent_def word_unat_eq_iff unat_duty_from_percent unat_duty_to_percent by simp
  have v: "validate_duty Pump 52 = Inr ()"
    by (simp add: validate_duty_def MIN_PUMP_DUTY_def)
  show ?thesis
    using apply_fixed_kept [where f = stored_as_percent and ch = Pump and duty = 52 and h = h and init = init and w = w] s v
    by (auto split: sum.splits)
qed

end
