(* ===== verification/Pacing.thy ===== *)
theory Pacing
  imports Io
begin

text \<open>
  The cadence contract the executors of the cooler and of the controller share. Each keeps the
  instant of its last write; a step either sends nothing and leaves that stamp alone, or is taken at
  least the floor after it and stamps itself. \<open>writing_instants\<close> runs a list of stamped commands and
  keeps the instants of the steps that sent something; the locale's lemma is that any two consecutive
  ones are the floor apart, whatever the commands and whatever the device answers.
\<close>

definition silent_step :: "world \<Rightarrow> world \<Rightarrow> bool" where
  "silent_step w w' = list_all silent_event (trace_since w w')"

lemma silent_step_silent: "silent w w' \<Longrightarrow> silent_step w w'"
  by (auto simp: silent_def silent_step_def dest: trace_since_extends)

fun writing_instants :: "(instant \<Rightarrow> 'c \<Rightarrow> 's \<Rightarrow> world \<Rightarrow> 's \<times> world) \<Rightarrow> (instant \<times> 'c) list \<Rightarrow>
    's \<Rightarrow> world \<Rightarrow> instant list" where
  "writing_instants exec [] s w = []"
| "writing_instants exec ((now, c) # cs) s w =
    (let (s', w') = exec now c s w in
     (if silent_step w w' then [] else [now]) @ writing_instants exec cs s' w')"

definition floor_passed :: "duration \<Rightarrow> instant option \<Rightarrow> instant \<Rightarrow> bool" where
  "floor_passed d last_write now =
    (case last_write of None \<Rightarrow> True | Some t \<Rightarrow> d \<le> duration_since now t)"

definition paced :: "duration \<Rightarrow> instant \<Rightarrow> instant option \<Rightarrow> world \<Rightarrow> instant option \<Rightarrow> world \<Rightarrow> bool" where
  "paced d now last_write w last_write' w' =
    ((silent w w' \<and> last_write' = last_write) \<or>
     (floor_passed d last_write now \<and> last_write' = Some now))"

lemma paced_silent [intro]: "silent w w' \<Longrightarrow> paced d now l w l w'"
  by (simp add: paced_def)

locale paced_writer =
  fixes exec :: "instant \<Rightarrow> 'c \<Rightarrow> 's \<Rightarrow> world \<Rightarrow> 's \<times> world"
    and last_write :: "'s \<Rightarrow> instant option"
    and cadence :: duration
  assumes paced_step: "exec now c s w = (s', w') \<Longrightarrow>
    paced cadence now (last_write s) w (last_write s') w'"
begin

lemma spaced_after:
  "case last_write s of
     None \<Rightarrow> successively (\<lambda>a b. cadence \<le> b - a) (writing_instants exec cs s w)
   | Some t \<Rightarrow> successively (\<lambda>a b. cadence \<le> b - a) (t # writing_instants exec cs s w)"
proof (induction cs arbitrary: s w)
  case Nil
  then show ?case by (simp split: option.split)
next
  case (Cons c cs)
  obtain now k where c: "c = (now, k)" by (cases c)
  obtain s' w' where e: "exec now k s w = (s', w')" by (cases "exec now k s w")
  have p: "paced cadence now (last_write s) w (last_write s') w'" by (rule paced_step [OF e])
  have ih: "case last_write s' of
      None \<Rightarrow> successively (\<lambda>a b. cadence \<le> b - a) (writing_instants exec cs s' w')
    | Some t \<Rightarrow> successively (\<lambda>a b. cadence \<le> b - a) (t # writing_instants exec cs s' w')"
    by (rule Cons.IH)
  show ?case
  proof (cases "silent w w' \<and> last_write s' = last_write s")
    case True
    then show ?thesis using ih silent_step_silent by (simp add: c e split: option.splits)
  next
    case False
    then have f: "floor_passed cadence (last_write s) now" "last_write s' = Some now"
      using p by (auto simp: paced_def)
    have tail: "successively (\<lambda>a b. cadence \<le> b - a) (now # writing_instants exec cs s' w')"
      using ih f(2) by simp
    then have rest: "successively (\<lambda>a b. cadence \<le> b - a) (writing_instants exec cs s' w')"
      by (cases "writing_instants exec cs s' w'") simp_all
    have skip: "successively (\<lambda>a b. cadence \<le> b - a) (t # writing_instants exec cs s' w')"
      if "cadence \<le> now - t" for t
    proof (cases "writing_instants exec cs s' w'")
      case (Cons u us)
      then have "cadence \<le> u - now" "successively (\<lambda>a b. cadence \<le> b - a) (u # us)"
        using tail by simp_all
      moreover have "cadence \<le> u - t" using that \<open>cadence \<le> u - now\<close> by linarith
      ultimately show ?thesis using Cons by simp
    qed simp
    show ?thesis
      using f tail rest skip by (auto simp: c e floor_passed_def duration_since_def split: option.split)
  qed
qed

lemma spaced: "successively (\<lambda>a b. cadence \<le> b - a) (writing_instants exec cs s w)"
proof -
  have "successively (\<lambda>a b. cadence \<le> b - a) xs" if "successively (\<lambda>a b. cadence \<le> b - a) (t # xs)"
    for t :: nat and xs using that by (cases xs) simp_all
  then show ?thesis using spaced_after [where s = s and cs = cs and w = w] by (auto split: option.splits)
qed

end

end
