(* ===== verification/Cooling_Executor.thy ===== *)
theory Cooling_Executor
  imports Cooling_Control Pacing
begin

text \<open>
  \<open>crates/daemon/src/cooling.rs\<close>: the sole writer of the thermal path. It keeps the program it last
  committed on each channel and the instant of its last write. A program already in place is not
  written again, a write sooner than the cadence floor is refused, a transaction that fails midway
  is undone from snapshots taken before its first write, and a readback that disagrees takes the
  channels off the record.
  The \<open>BTreeMap\<close> of commits is a map over the two channels; it is iterated in the order of
  \<open>CHANNELS\<close>. The wall clock each commit is stamped with is \<open>clock_env\<close>.
\<close>

section \<open>State\<close>

definition CURVE_SETTLE_MS :: u64 where "CURVE_SETTLE_MS = 5000"
definition CURVE_DUTY_TOLERANCE :: u8 where "CURVE_DUTY_TOLERANCE = 3"

datatype target = TFixed u8 | TCurve temperature_curve

fun target_mode :: "target \<Rightarrow> pwm_mode" where
  "target_mode (TFixed _) = PwmFixed"
| "target_mode (TCurve _) = PwmCurve"

record commit =
  cm_target :: target
  cm_at_unix_ms :: u64

record curve_divergence =
  cd_channel :: channel
  cd_liquid_temperature_mc :: int
  cd_expected :: u8
  cd_reported :: u8

record cooling_executor =
  cx_sysfs :: string
  cx_control :: "kraken_hwmon option"
  cx_committed :: "channel \<Rightarrow> commit option"
  cx_last_write :: "instant option"

definition cooling_open :: "attr_env \<Rightarrow> string \<Rightarrow> world \<Rightarrow> cooling_executor \<times> world" where
  "cooling_open env sysfs w = (let (c, w) = locate env sysfs w in
    (\<lparr>cx_sysfs = sysfs, cx_control = c, cx_committed = Map.empty, cx_last_write = None\<rparr>, w))"

definition cooling_forget :: "cooling_executor \<Rightarrow> cooling_executor" where
  "cooling_forget x = x\<lparr>cx_committed := Map.empty, cx_control := None\<rparr>"

definition cooling_resolve :: "attr_env \<Rightarrow> cooling_executor \<Rightarrow> world \<Rightarrow>
    kraken_hwmon option \<times> cooling_executor \<times> world" where
  "cooling_resolve env x w = (case cx_control x of
      Some h \<Rightarrow> (Some h, x, w)
    | None \<Rightarrow> (let (c, w) = locate env (cx_sysfs x) w in (c, x\<lparr>cx_control := c\<rparr>, w)))"

definition committed_target :: "cooling_executor \<Rightarrow> channel \<Rightarrow> target option" where
  "committed_target x ch = map_option cm_target (cx_committed x ch)"

definition committed_curve :: "cooling_executor \<Rightarrow> channel \<Rightarrow> temperature_curve option" where
  "committed_curve x ch = (case cx_committed x ch of
      None \<Rightarrow> None
    | Some c \<Rightarrow> (case cm_target c of TCurve curve \<Rightarrow> Some curve | TFixed _ \<Rightarrow> None))"

definition committed_program :: "cooling_executor \<Rightarrow> cooling_program option" where
  "committed_program x = (case (committed_target x Pump, committed_target x Fan) of
      (Some (TFixed pump), Some (TFixed fan)) \<Rightarrow> Some (FixedDuty pump fan)
    | (Some (TCurve pump), Some (TCurve fan)) \<Rightarrow> Some (CurveProgram pump fan)
    | _ \<Rightarrow> None)"

definition cooling_commit :: "clock_env \<Rightarrow> channel \<Rightarrow> target \<Rightarrow> cooling_executor \<Rightarrow> world \<Rightarrow>
    cooling_executor \<times> world" where
  "cooling_commit clk ch t x w = (let (now, w) = now_unix_ms clk w in
    (x\<lparr>cx_committed := (cx_committed x)(ch \<mapsto> \<lparr>cm_target = t, cm_at_unix_ms = now\<rparr>)\<rparr>, w))"

definition uncommit :: "channel \<Rightarrow> cooling_executor \<Rightarrow> cooling_executor" where
  "uncommit ch x = x\<lparr>cx_committed := (cx_committed x)(ch := None)\<rparr>"

section \<open>Applying a program\<close>

text \<open>The targets of a program, \<open>None\<close> for the one that leaves the device on what it runs.\<close>

definition program_targets :: "cooling_program \<Rightarrow> (channel \<times> target) list option" where
  "program_targets p = (case p of
      Onboard \<Rightarrow> None
    | FixedDuty pump fan \<Rightarrow> Some [(Pump, TFixed pump), (Fan, TFixed fan)]
    | CurveProgram pump fan \<Rightarrow> Some [(Pump, TCurve pump), (Fan, TCurve fan)])"

fun take_snapshots :: "attr_env \<Rightarrow> kraken_hwmon \<Rightarrow> cooling_executor \<Rightarrow> (channel \<times> target) list \<Rightarrow> world \<Rightarrow>
    channel_snapshot list \<times> world" where
  "take_snapshots env h x [] w = ([], w)"
| "take_snapshots env h x ((ch, t) # ts) w =
    (let (s, w) = snapshot env h ch w;
         (ss, w) = take_snapshots env h x ts w
     in (with_curve s (committed_curve x ch) # ss, w))"

definition already_applied :: "attr_env \<Rightarrow> kraken_hwmon \<Rightarrow> cooling_executor \<Rightarrow> channel \<Rightarrow> target \<Rightarrow> world \<Rightarrow>
    channel_readback option \<times> world" where
  "already_applied env h x ch t w =
    (if committed_target x ch \<noteq> Some t then (None, w)
     else (let (mode, w) = hwmon_mode env h ch w in
       case reading_value mode of
         None \<Rightarrow> (None, w)
       | Some mode \<Rightarrow>
           if mode \<noteq> target_mode t then (None, w)
           else (let (duty, w) = hwmon_duty env h ch w;
                     wrong = (case t of TFixed expected \<Rightarrow> reading_value duty \<noteq> Some expected
                                      | TCurve _ \<Rightarrow> False)
                 in (if wrong then None
                     else Some ((readback_new ch)\<lparr>rb_mode := Some mode, rb_duty := reading_value duty\<rparr>), w))))"

fun check_settled :: "attr_env \<Rightarrow> kraken_hwmon \<Rightarrow> cooling_executor \<Rightarrow> (channel \<times> target) list \<Rightarrow> world \<Rightarrow>
    channel_readback option list \<times> world" where
  "check_settled env h x [] w = ([], w)"
| "check_settled env h x ((ch, t) # ts) w =
    (let (r, w) = already_applied env h x ch t w;
         (rs, w) = check_settled env h x ts w
     in (r # rs, w))"

definition refuse_for_cadence :: "instant \<Rightarrow> channel_readback option list \<Rightarrow> cooling_executor \<Rightarrow>
    apply_outcome option" where
  "refuse_for_cadence now settled x =
    (if list_all (\<lambda>r. r \<noteq> None) settled then None
     else (case cx_last_write x of
       None \<Rightarrow> None
     | Some last_write \<Rightarrow>
         (let elapsed = duration_since now last_write in
          if from_millis (unat MIN_PROGRAM_INTERVAL_MS) \<le> elapsed then None
          else Some (outcome_untouched (HwNotApplied
            (''Refused: '' @ show_nat (as_millis elapsed) @
             '' ms since the last write to the cooler, and the firmware is given at least '' @
             show_nat (unat MIN_PROGRAM_INTERVAL_MS) @
             '' ms between programs. Nothing was written. Try again in a moment.''))))))"

definition write_target :: "attr_env \<Rightarrow> kraken_hwmon \<Rightarrow> channel \<Rightarrow> target \<Rightarrow> world \<Rightarrow>
    (write_failure + applied) \<times> world" where
  "write_target env h ch t = (case t of
      TFixed duty \<Rightarrow> apply_fixed env h ch duty
    | TCurve curve \<Rightarrow> apply_curve env h ch curve)"

text \<open>The loop of \<open>abort\<close> over the snapshots: whether all were restored, and the details.\<close>

definition record_restored :: "clock_env \<Rightarrow> channel_snapshot \<Rightarrow> cooling_executor \<Rightarrow> world \<Rightarrow>
    cooling_executor \<times> world" where
  "record_restored clk s x w = (case (cs_mode s, cs_curve s, cs_duty s) of
      (Some PwmCurve, Some curve, _) \<Rightarrow> cooling_commit clk (cs_channel s) (TCurve curve) x w
    | (Some PwmFixed, _, Some duty) \<Rightarrow> cooling_commit clk (cs_channel s) (TFixed duty) x w
    | _ \<Rightarrow> (uncommit (cs_channel s) x, w))"

fun restore_all :: "attr_env \<Rightarrow> clock_env \<Rightarrow> kraken_hwmon \<Rightarrow> channel_snapshot list \<Rightarrow>
    bool \<Rightarrow> string list \<Rightarrow> cooling_executor \<Rightarrow> world \<Rightarrow> bool \<times> string list \<times> cooling_executor \<times> world" where
  "restore_all env clk h [] restored details x w = (restored, details, x, w)"
| "restore_all env clk h (s # ss) restored details x w =
    (let (r, w) = restore env h s w in
     case r of
       Inr True \<Rightarrow>
         (let (x, w) = record_restored clk s x w in restore_all env clk h ss restored details x w)
     | Inr False \<Rightarrow> restore_all env clk h ss False
         (details @ [channel_label (cs_channel s) @ '' could not be confirmed back on its previous program.''])
         (uncommit (cs_channel s) x) w
     | Inl failure \<Rightarrow> restore_all env clk h ss False
         (details @ [''Restoring '' @ channel_label (cs_channel s) @ '' failed: '' @
            write_failure_display failure])
         (uncommit (cs_channel s) x) w)"

definition cooling_abort :: "attr_env \<Rightarrow> clock_env \<Rightarrow> kraken_hwmon \<Rightarrow> channel_snapshot list \<Rightarrow>
    write_failure \<Rightarrow> u32 \<Rightarrow> channel_readback list \<Rightarrow> cooling_executor \<Rightarrow> world \<Rightarrow>
    apply_outcome \<times> cooling_executor \<times> world" where
  "cooling_abort env clk h snapshots failure writes readback x w =
    (let (restored, details, x, w) = restore_all env clk h snapshots True [] x w;
         what = write_failure_display failure;
         hardware =
           (if restored then HwNotApplied
              (''The write failed at '' @ what @ ''. Every channel was restored to the program it was '' @
               ''running, confirmed by readback, and no further write was sent.'')
            else HwUncertain
              (''The write failed at '' @ what @ ''. '' @ join '' '' details @ '' The hardware state cannot '' @
               ''be confirmed and no further write is sent until a readback succeeds.''))
     in (\<lparr>ao_hardware = hardware, ao_writes = writes, ao_deduplicated = False,
          ao_readback = readback\<rparr>, x, w))"

definition readback_mismatches :: "channel_readback list \<Rightarrow> string list" where
  "readback_mismatches rbs = List.map_filter (\<lambda>entry. map_option
    (\<lambda>detail. channel_label (rb_channel entry) @ '': '' @ detail) (rb_mismatch entry)) rbs"

definition settle :: "(channel \<times> target) list \<Rightarrow> u32 \<Rightarrow> channel_readback list \<Rightarrow> cooling_executor \<Rightarrow>
    apply_outcome \<times> cooling_executor" where
  "settle targets writes readback x =
    (let mismatched = readback_mismatches readback;
         (hardware, x) =
           (if mismatched = [] then (HwConfirmed, x)
            else (HwUncertain
                (''The write completed but the hardware did not read back as written. '' @
                 join '' '' mismatched),
              fold (\<lambda>(ch, _) x. uncommit ch x) targets x))
     in (\<lparr>ao_hardware = hardware, ao_writes = writes, ao_deduplicated = (writes = 0),
          ao_readback = readback\<rparr>, x))"

text \<open>The write loop: \<open>Inl\<close> is the early return through \<open>abort\<close>.\<close>

fun write_targets :: "attr_env \<Rightarrow> clock_env \<Rightarrow> instant \<Rightarrow> kraken_hwmon \<Rightarrow> channel_snapshot list \<Rightarrow>
    ((channel \<times> target) \<times> channel_readback option) list \<Rightarrow> u32 \<Rightarrow> channel_readback list \<Rightarrow>
    cooling_executor \<Rightarrow> world \<Rightarrow>
    (apply_outcome + u32 \<times> channel_readback list) \<times> cooling_executor \<times> world" where
  "write_targets env clk now h snaps [] writes rbs x w = (Inr (writes, rbs), x, w)"
| "write_targets env clk now h snaps (((ch, t), Some current) # ts) writes rbs x w =
    write_targets env clk now h snaps ts writes (rbs @ [current]) x w"
| "write_targets env clk now h snaps (((ch, t), None) # ts) writes rbs x w =
    (let x = x\<lparr>cx_last_write := Some now\<rparr>;
         (r, w) = write_target env h ch t w
     in case r of
          Inr a \<Rightarrow>
            (let (x, w) = cooling_commit clk ch t x w in
             write_targets env clk now h snaps ts (writes + ap_writes a) (rbs @ [ap_readback a]) x w)
        | Inl failure \<Rightarrow>
            (let (o1, x, w) = cooling_abort env clk h snaps failure writes rbs x w in (Inl o1, x, w)))"

definition NO_COOLER :: string where
  "NO_COOLER = ''No kraken2023 hwmon instance is bound to an allowlisted device, so nothing was written.''"

definition cooling_apply :: "attr_env \<Rightarrow> clock_env \<Rightarrow> instant \<Rightarrow> cooling_program \<Rightarrow> cooling_executor \<Rightarrow>
    world \<Rightarrow> apply_outcome \<times> cooling_executor \<times> world" where
  "cooling_apply env clk now program x w =
    (case program_targets program of
       None \<Rightarrow> (outcome_untouched HwOnboard, x, w)
     | Some targets \<Rightarrow>
         (let (control, x, w) = cooling_resolve env x w in
          case control of
            None \<Rightarrow> (outcome_untouched (HwNotApplied NO_COOLER), x, w)
          | Some h \<Rightarrow>
              (let (snaps, w) = take_snapshots env h x targets w;
                   (settled, w) = check_settled env h x targets w
               in case refuse_for_cadence now settled x of
                    Some refusal \<Rightarrow> (refusal, x, w)
                  | None \<Rightarrow>
                      (let (r, x, w) = write_targets env clk now h snaps (zip targets settled) 0 [] x w in
                       case r of
                         Inl o1 \<Rightarrow> (o1, x, w)
                       | Inr (writes, readback) \<Rightarrow>
                           (let (o1, x) = settle targets writes readback x in (o1, x, w))))))"

section \<open>Checking a committed curve\<close>

definition accepts_duty :: "temperature_curve \<Rightarrow> f32 \<Rightarrow> u8 \<Rightarrow> bool" where
  "accepts_duty curve liquid reported = (case point_index_for liquid of
      None \<Rightarrow> True
    | Some center \<Rightarrow>
        (let first = center - 1;
             last_i = min (center + 1) (CURVE_POINT_COUNT - 1);
             window = take (last_i + 1 - first) (drop first (points curve))
         in case window of
              [] \<Rightarrow> True
            | d # ds \<Rightarrow>
                (let low = foldl min d ds; high = foldl max d ds in
                 saturating_sub low CURVE_DUTY_TOLERANCE \<le> reported \<and>
                 reported \<le> saturating_add high CURVE_DUTY_TOLERANCE)))"

text \<open>One turn of the loop of \<open>verify_curves\<close>.\<close>

definition curve_check :: "kraken_telemetry \<Rightarrow> f32 \<Rightarrow> u64 \<Rightarrow> channel \<Rightarrow> commit \<Rightarrow> curve_divergence option" where
  "curve_check kraken liquid now_ms ch c = (case cm_target c of
      TFixed _ \<Rightarrow> None
    | TCurve curve \<Rightarrow>
        if saturating_sub now_ms (cm_at_unix_ms c) < CURVE_SETTLE_MS then None
        else if reading_value (ct_mode (kraken_channel kraken ch)) \<noteq> Some PwmCurve then None
        else (case (reading_value (ct_duty (kraken_channel kraken ch)), duty_at curve liquid) of
            (Some reported, Some expected) \<Rightarrow>
              if accepts_duty curve liquid reported then None
              else Some \<lparr>cd_channel = ch,
                cd_liquid_temperature_mc =
                  f32_to_int (- (2 ^ 31)) (2 ^ 31 - 1) (f32_round_away (f32_mul liquid (F32 1000))),
                cd_expected = expected, cd_reported = reported\<rparr>
          | _ \<Rightarrow> None))"

definition verify_curves :: "kraken_telemetry \<Rightarrow> u64 \<Rightarrow> cooling_executor \<Rightarrow>
    curve_divergence list \<times> cooling_executor" where
  "verify_curves kraken now_ms x = (case reading_value (kt_liquid_temperature_c kraken) of
      None \<Rightarrow> ([], x)
    | Some liquid \<Rightarrow>
        (let diverged = List.map_filter (\<lambda>ch. case cx_committed x ch of
               None \<Rightarrow> None | Some c \<Rightarrow> curve_check kraken liquid now_ms ch c) CHANNELS
         in (diverged, fold (\<lambda>d x. uncommit (cd_channel d) x) diverged x)))"

section \<open>Reading before writing\<close>

lemma silent_snapshot [silent_rules]: "silent w (snd (snapshot env h ch w))"
  unfolding snapshot_def split_beta Let_def snd_conv
  by (intro silent_trans [OF silent_trans [OF silent_hwmon_mode silent_hwmon_duty] silent_hwmon_curve])

lemma silent_take_snapshots [silent_rules]: "silent w (snd (take_snapshots env h x ts w))"
proof (induction ts arbitrary: w)
  case (Cons t ts)
  then show ?case
    using silent_trans [OF silent_snapshot Cons.IH] by (cases t) (simp add: split_beta Let_def)
qed simp

lemma silent_already_applied [silent_rules]: "silent w (snd (already_applied env h x ch t w))"
  using silent_hwmon_mode silent_trans [OF silent_hwmon_mode silent_hwmon_duty]
  by (auto simp: already_applied_def split_beta Let_def split: option.split)

lemma silent_check_settled [silent_rules]: "silent w (snd (check_settled env h x ts w))"
proof (induction ts arbitrary: w)
  case (Cons t ts)
  then show ?case
    using silent_trans [OF silent_already_applied Cons.IH] by (cases t) (simp add: split_beta Let_def)
qed simp

lemma length_check_settled [simp]: "length (fst (check_settled env h x ts w)) = length ts"
proof (induction ts arbitrary: w)
  case (Cons t ts)
  then show ?case by (cases t) (simp add: split_beta Let_def)
qed simp

lemma cooling_resolve_facts:
  assumes "cooling_resolve env x w = (c, x', w')"
  shows "silent w w'" "cx_last_write x' = cx_last_write x" "cx_committed x' = cx_committed x"
    "cx_control x' = c"
  using assms silent_locate [of w env "cx_sysfs x"]
  by (auto simp: cooling_resolve_def split_beta split: option.splits)

lemma cooling_commit_facts:
  assumes "cooling_commit clk ch t x w = (x', w')"
  shows "silent w w'" "cx_last_write x' = cx_last_write x" "cx_control x' = cx_control x"
    "committed_target x' = (committed_target x)(ch \<mapsto> t)"
  using assms silent_unix [of w clk]
  by (auto simp: cooling_commit_def split_beta committed_target_def fun_eq_iff)

lemma uncommit_facts [simp]:
  "cx_last_write (uncommit ch x) = cx_last_write x" "cx_control (uncommit ch x) = cx_control x"
  "committed_target (uncommit ch x) = (committed_target x)(ch := None)"
  "cx_committed (uncommit ch x) = (cx_committed x)(ch := None)"
  by (simp_all add: uncommit_def committed_target_def fun_eq_iff)

section \<open>The stamp of the last write\<close>

lemma record_restored_stamp [simp]:
  "cx_last_write (fst (record_restored clk s x w)) = cx_last_write x"
  by (auto simp: record_restored_def cooling_commit_def split_beta
      split: option.split pwm_mode.split)

lemma restore_all_stamp:
  "cx_last_write (fst (snd (snd (restore_all env clk h ss r d x w)))) = cx_last_write x"
proof (induction ss arbitrary: r d x w)
  case (Cons s ss)
  then show ?case by (simp add: split_beta Let_def split: sum.split bool.split)
qed simp

lemma cooling_abort_stamp:
  "cx_last_write (fst (snd (cooling_abort env clk h ss f n rbs x w))) = cx_last_write x"
  by (simp add: cooling_abort_def split_beta Let_def restore_all_stamp)

lemma write_targets_stamp:
  "cx_last_write (fst (snd (write_targets env clk now h snaps ts n rbs x w))) =
   (if list_all (\<lambda>p. snd p \<noteq> None) ts then cx_last_write x else Some now)"
proof (induction env clk now h snaps ts n rbs x w rule: write_targets.induct)
  case (3 env clk now h snaps ch t ts writes rbs x w)
  obtain r w1 where r: "write_target env h ch t w = (r, w1)" by (cases "write_target env h ch t w")
  show ?case
  proof (cases r)
    case (Inl f)
    then show ?thesis
      using cooling_abort_stamp [of env clk h snaps f writes rbs "x\<lparr>cx_last_write := Some now\<rparr>" w1]
      by (simp add: r split_beta Let_def)
  next
    case (Inr a)
    obtain x2 w2 where c: "cooling_commit clk ch t (x\<lparr>cx_last_write := Some now\<rparr>) w1 = (x2, w2)"
      by (cases "cooling_commit clk ch t (x\<lparr>cx_last_write := Some now\<rparr>) w1")
    then have "cx_last_write x2 = Some now" using cooling_commit_facts(2) by fastforce
    then show ?thesis using "3.IH" [OF refl refl r [symmetric] Inr refl c [symmetric]]
      by (simp add: r Inr c Let_def)
  qed
qed simp_all

lemma write_targets_settled:
  "list_all (\<lambda>p. snd p \<noteq> None) ts \<Longrightarrow>
   write_targets env clk now h snaps ts n rbs x w = (Inr (n, rbs @ map (the \<circ> snd) ts), x, w)"
  by (induction env clk now h snaps ts n rbs x w rule: write_targets.induct) simp_all

lemma fold_uncommit_stamp [simp]:
  "cx_last_write (fold (\<lambda>(ch, _). uncommit ch) ts x) = cx_last_write x"
  by (induction ts arbitrary: x) auto

lemma settle_stamp [simp]: "cx_last_write (snd (settle ts n rbs x)) = cx_last_write x"
  by (simp add: settle_def Let_def split_beta)

lemma list_all_zip_snd:
  "length xs = length ys \<Longrightarrow> list_all (\<lambda>p. snd p \<noteq> None) (zip xs ys) \<longleftrightarrow> list_all (\<lambda>r. r \<noteq> None) ys"
  by (induction xs ys rule: list_induct2) auto

text \<open>An application either writes nothing and leaves the stamp alone, or comes after the floor.\<close>

lemma cooling_apply_paced:
  assumes "cooling_apply env clk now program x w = (out, x', w')"
  shows "paced (from_millis (unat MIN_PROGRAM_INTERVAL_MS)) now (cx_last_write x) w (cx_last_write x') w'"
proof (cases "program_targets program")
  case None
  then show ?thesis using assms by (auto simp: cooling_apply_def)
next
  case (Some ts)
  obtain c x1 w1 where res: "cooling_resolve env x w = (c, x1, w1)"
    by (cases "cooling_resolve env x w")
  note rf = cooling_resolve_facts [OF res]
  show ?thesis
  proof (cases c)
    case None
    then show ?thesis using assms Some res rf by (auto simp: cooling_apply_def)
  next
    case (Some h)
    let ?snaps = "take_snapshots env h x1 ts w1"
    let ?set = "check_settled env h x1 ts (snd ?snaps)"
    have quiet: "silent w (snd ?set)"
      by (rule silent_trans [OF rf(1) silent_trans [OF silent_take_snapshots silent_check_settled]])
    show ?thesis
    proof (cases "refuse_for_cadence now (fst ?set) x1")
      case (Some refusal)
      then show ?thesis
        using assms \<open>program_targets program = Some ts\<close> res \<open>c = Some h\<close> rf(2) quiet
        by (auto simp: cooling_apply_def split_beta Let_def)
    next
      case None
      let ?wt = "write_targets env clk now h (fst ?snaps) (zip ts (fst ?set)) 0 [] x1 (snd ?set)"
      have x': "cx_last_write x' = cx_last_write (fst (snd ?wt))"
        and w': "w' = snd (snd ?wt)"
        using assms \<open>program_targets program = Some ts\<close> res \<open>c = Some h\<close> None
        by (auto simp: cooling_apply_def split_beta Let_def split: sum.splits)
      show ?thesis
      proof (cases "list_all (\<lambda>r. r \<noteq> None) (fst ?set)")
        case True
        then have "list_all (\<lambda>p. snd p \<noteq> None) (zip ts (fst ?set))" by (subst list_all_zip_snd) simp_all
        then show ?thesis using x' w' quiet rf(2) write_targets_settled by fastforce
      next
        case False
        then have "cx_last_write x' = Some now"
          unfolding x' write_targets_stamp by (subst list_all_zip_snd) simp_all
        moreover have "floor_passed (from_millis (unat MIN_PROGRAM_INTERVAL_MS)) (cx_last_write x) now"
          using None False rf(2)
          by (auto simp: refuse_for_cadence_def floor_passed_def Let_def split: option.splits if_splits)
        ultimately show ?thesis by (simp add: paced_def)
      qed
    qed
  qed
qed

text \<open>The commands the daemon gives the executor, stamped with the instant of the call.\<close>

datatype cooling_command = CoolApply cooling_program | CoolForget | CoolVerify kraken_telemetry u64

definition cooling_exec :: "attr_env \<Rightarrow> clock_env \<Rightarrow> instant \<Rightarrow> cooling_command \<Rightarrow> cooling_executor \<Rightarrow>
    world \<Rightarrow> cooling_executor \<times> world" where
  "cooling_exec env clk now c x w = (case c of
      CoolApply p \<Rightarrow> snd (cooling_apply env clk now p x w)
    | CoolForget \<Rightarrow> (cooling_forget x, w)
    | CoolVerify kraken ms \<Rightarrow> (snd (verify_curves kraken ms x), w))"

lemma fold_uncommit_divergence:
  "cx_committed (fold (\<lambda>d. uncommit (cd_channel d)) ds x) ch =
    (if ch \<in> cd_channel ` set ds then None else cx_committed x ch)"
  "cx_last_write (fold (\<lambda>d. uncommit (cd_channel d)) ds x) = cx_last_write x"
  by (induction ds arbitrary: x) auto

lemma verify_curves_stamp [simp]: "cx_last_write (snd (verify_curves k ms x)) = cx_last_write x"
  by (simp add: verify_curves_def Let_def fold_uncommit_divergence split: option.split)

interpretation cooler: paced_writer "cooling_exec env clk" cx_last_write
  "from_millis (unat MIN_PROGRAM_INTERVAL_MS)"
proof
  fix now c s w s' w'
  assume e: "cooling_exec env clk now c s w = (s', w')"
  show "paced (from_millis (unat MIN_PROGRAM_INTERVAL_MS)) now (cx_last_write s) w (cx_last_write s') w'"
  proof (cases c)
    case (CoolApply p)
    then show ?thesis using e cooling_apply_paced
      by (cases "cooling_apply env clk now p s w") (auto simp: cooling_exec_def)
  qed (use e in \<open>auto simp: cooling_exec_def cooling_forget_def paced_def\<close>)
qed

section \<open>What an outcome says\<close>

text \<open>The readback proves the channel on the target.\<close>

definition proved :: "channel \<Rightarrow> target \<Rightarrow> channel_readback \<Rightarrow> bool" where
  "proved ch t rb = (rb_channel rb = ch \<and> rb_mode rb = Some (target_mode t) \<and>
    (case t of
       TFixed d \<Rightarrow> rb_duty rb = Some d
     | TCurve _ \<Rightarrow> rb_curve_points_confirmed rb \<in> {None, Some (word_of_nat CURVE_POINT_COUNT)}))"

lemma write_target_proved:
  "\<lbrakk>fst (write_target env h ch t w) = Inr a; rb_mismatch (ap_readback a) = None\<rbrakk> \<Longrightarrow>
   proved ch t (ap_readback a)"
  using apply_fixed_readback [of env h ch _ w a] apply_curve_readback [of env h ch _ w a]
  by (cases t) (simp_all add: write_target_def proved_def)

lemma write_target_count:
  "fst (write_target env h ch t w) = Inr a \<Longrightarrow> ap_writes a \<in> {2, 41, 43}"
  using apply_fixed_readback [of env h ch _ w a] apply_curve_readback [of env h ch _ w a]
  by (cases t) (auto simp: write_target_def CURVE_POINT_COUNT_def leave_plan_def)

definition settled_sound :: "cooling_executor \<Rightarrow> (channel \<times> target) \<Rightarrow> channel_readback option \<Rightarrow> bool" where
  "settled_sound x ct r = (case r of None \<Rightarrow> True
    | Some rb \<Rightarrow> committed_target x (fst ct) = Some (snd ct) \<and> proved (fst ct) (snd ct) rb \<and>
        rb_mismatch rb = None)"

lemma already_applied_sound: "settled_sound x (ch, t) (fst (already_applied env h x ch t w))"
  by (cases t) (auto simp: settled_sound_def already_applied_def proved_def readback_new_def split_beta Let_def
      split: option.splits if_splits)

lemma check_settled_sound: "list_all2 (settled_sound x) ts (fst (check_settled env h x ts w))"
proof (induction ts arbitrary: w)
  case (Cons t ts)
  then show ?case
    using already_applied_sound by (cases t) (simp add: split_beta Let_def)
qed simp

lemma settled_sound_commit:
  "\<lbrakk>settled_sound x ct r; committed_target x' (fst ct) = committed_target x (fst ct)\<rbrakk> \<Longrightarrow> settled_sound x' ct r"
  by (simp add: settled_sound_def split: option.splits)

text \<open>One turn of the write loop that did not fail.\<close>

lemma write_targets_turn:
  assumes "write_targets env clk now h snaps (((ch, t), None) # ts) n rbs x w = (Inr (n', rbs'), x', w')"
  obtains a w1 x2 w2 where
    "write_target env h ch t w = (Inr a, w1)"
    "cooling_commit clk ch t (x\<lparr>cx_last_write := Some now\<rparr>) w1 = (x2, w2)"
    "write_targets env clk now h snaps ts (n + ap_writes a) (rbs @ [ap_readback a]) x2 w2 = (Inr (n', rbs'), x', w')"
  using assms by (auto simp: Let_def split_beta split: sum.splits) (metis prod.collapse)

lemma write_targets_record:
  assumes "write_targets env clk now h snaps ts n rbs x w = (Inr (n', rbs'), x', w')"
    "distinct (map (fst \<circ> fst) ts)" "list_all (\<lambda>(ct, r). settled_sound x ct r) ts"
  shows "(\<exists>new. rbs' = rbs @ new \<and>
        list_all2 (\<lambda>(ct, _) rb. rb_mismatch rb = None \<longrightarrow> proved (fst ct) (snd ct) rb) ts new) \<and>
      list_all (\<lambda>(ct, _). committed_target x' (fst ct) = Some (snd ct)) ts \<and>
      (\<forall>ch. ch \<notin> (fst \<circ> fst) ` set ts \<longrightarrow> committed_target x' ch = committed_target x ch)"
  using assms
proof (induction ts arbitrary: n rbs x w)
  case Nil
  then show ?case by simp
next
  case (Cons e ts)
  obtain ch t r where e: "e = ((ch, t), r)" by (cases e) auto
  show ?case
  proof (cases r)
    case (Some rb)
    then have p: "write_targets env clk now h snaps ts n (rbs @ [rb]) x w = (Inr (n', rbs'), x', w')"
      using Cons.prems(1) by (simp add: e)
    have s: "committed_target x ch = Some t" "proved ch t rb"
      using Cons.prems(3) by (simp_all add: e Some settled_sound_def)
    obtain new where "rbs' = rbs @ [rb] @ new"
      "list_all2 (\<lambda>(ct, _) rb. rb_mismatch rb = None \<longrightarrow> proved (fst ct) (snd ct) rb) ts new"
      "list_all (\<lambda>(ct, _). committed_target x' (fst ct) = Some (snd ct)) ts"
      "\<forall>ch. ch \<notin> (fst \<circ> fst) ` set ts \<longrightarrow> committed_target x' ch = committed_target x ch"
      using Cons.IH [OF p] Cons.prems(2,3) by auto
    then show ?thesis using s Cons.prems(2)
      by (auto simp: e Some intro!: exI [of _ "rb # new"])
  next
    case None
    obtain a w1 x2 w2 where t1: "write_target env h ch t w = (Inr a, w1)"
      "cooling_commit clk ch t (x\<lparr>cx_last_write := Some now\<rparr>) w1 = (x2, w2)"
      "write_targets env clk now h snaps ts (n + ap_writes a) (rbs @ [ap_readback a]) x2 w2 = (Inr (n', rbs'), x', w')"
      using write_targets_turn [OF Cons.prems(1) [unfolded e None]] by blast
    have c2: "committed_target x2 = (committed_target x)(ch \<mapsto> t)"
      using cooling_commit_facts(4) [OF t1(2)] by (simp add: committed_target_def fun_eq_iff)
    have "list_all (\<lambda>(ct, r). settled_sound x2 ct r) ts"
      using Cons.prems(2,3) unfolding list_all_iff
      by (auto simp: e c2 intro: settled_sound_commit [of x] dest!: bspec)
        (metis (mono_tags, lifting) c2 comp_apply fst_conv fun_upd_other imageI settled_sound_commit)
    then obtain new where "rbs' = rbs @ [ap_readback a] @ new"
      "list_all2 (\<lambda>(ct, _) rb. rb_mismatch rb = None \<longrightarrow> proved (fst ct) (snd ct) rb) ts new"
      "list_all (\<lambda>(ct, _). committed_target x' (fst ct) = Some (snd ct)) ts"
      "\<forall>ch. ch \<notin> (fst \<circ> fst) ` set ts \<longrightarrow> committed_target x' ch = committed_target x2 ch"
      using Cons.IH [OF t1(3)] Cons.prems(2) by auto
    then show ?thesis
      using write_target_proved [of env h ch t w a] t1(1) Cons.prems(2) c2
      by (auto simp: e None intro!: exI [of _ "ap_readback a # new"])
  qed
qed

lemma readback_mismatches_empty:
  "readback_mismatches rbs = [] \<longleftrightarrow> list_all (\<lambda>rb. rb_mismatch rb = None) rbs"
  by (induction rbs) (auto simp: readback_mismatches_def map_filter_simps split: option.splits)

lemma fold_uncommit_targets:
  "committed_target (fold (\<lambda>(ch, _). uncommit ch) ts x) ch =
   (if ch \<in> fst ` set ts then None else committed_target x ch)"
  by (induction ts arbitrary: x) (auto split: if_splits)

lemma settle_outcome:
  assumes "settle ts n rbs x = (out, x')"
  shows "if list_all (\<lambda>rb. rb_mismatch rb = None) rbs
    then ao_hardware out = HwConfirmed \<and> x' = x
    else (\<exists>m. ao_hardware out = HwUncertain m) \<and> (\<forall>ch \<in> fst ` set ts. committed_target x' ch = None)"
    "ao_writes out = n" "ao_readback out = rbs" "ao_deduplicated out = (n = 0)"
  using assms fold_uncommit_targets [of ts x]
  by (auto simp: settle_def Let_def readback_mismatches_empty split: if_splits)

section \<open>The record after a failed transaction\<close>

lemma record_restored_other:
  assumes "record_restored clk s x w = (x', w')"
  shows "ch \<noteq> cs_channel s \<Longrightarrow> committed_target x' ch = committed_target x ch" "silent w w'"
  using assms silent_unix [of w clk]
  by (auto simp: record_restored_def cooling_commit_def split_beta committed_target_def
      split: option.splits pwm_mode.splits)

lemma restore_all_record:
  assumes "restore_all env clk h ss r d x w = (r', d', x', w')" "distinct (map cs_channel ss)"
  shows "(r' \<longrightarrow> r) \<and> (r \<and> \<not> r' \<longrightarrow> (\<exists>s \<in> set ss. committed_target x' (cs_channel s) = None)) \<and>
    (\<forall>ch. ch \<notin> cs_channel ` set ss \<longrightarrow> committed_target x' ch = committed_target x ch)"
  using assms
proof (induction ss arbitrary: r d x w)
  case Nil
  then show ?case by simp
next
  case (Cons s ss)
  obtain res w1 where res: "restore env h s w = (res, w1)" by (cases "restore env h s w")
  show ?case
  proof (cases "res = Inr True")
    case True
    obtain x2 w2 where rr: "record_restored clk s x w1 = (x2, w2)" by (cases "record_restored clk s x w1")
    have "restore_all env clk h ss r d x2 w2 = (r', d', x', w')"
      using Cons.prems(1) by (simp add: res True rr)
    from Cons.IH [OF this] show ?thesis
      using Cons.prems(2) record_restored_other(1) [OF rr] by auto
  next
    case False
    obtain d2 where "restore_all env clk h ss False d2 (uncommit (cs_channel s) x) w1 = (r', d', x', w')"
      using Cons.prems(1) False by (auto simp: res split: sum.splits bool.splits)
    from Cons.IH [OF this] show ?thesis
      using Cons.prems(2) by auto
  qed
qed

lemma take_snapshots_channels: "map cs_channel (fst (take_snapshots env h x ts w)) = map fst ts"
proof (induction ts arbitrary: w)
  case (Cons t ts)
  have "cs_channel (with_curve (fst (snapshot env h ch w)) c) = ch" for ch w c
    by (simp add: with_curve_def snapshot_def split_beta Let_def)
  then show ?case using Cons by (cases t) (simp add: split_beta Let_def)
qed simp

lemma cooling_abort_outcome:
  assumes "cooling_abort env clk h ss f n rbs x w = (out, x', w')" "distinct (map cs_channel ss)"
  shows "(\<exists>m. ao_hardware out = HwNotApplied m) \<or>
    ((\<exists>m. ao_hardware out = HwUncertain m) \<and> (\<exists>s \<in> set ss. committed_target x' (cs_channel s) = None))"
    "\<not> ao_deduplicated out"
proof -
  obtain r d x1 w1 where r: "restore_all env clk h ss True [] x w = (r, d, x1, w1)"
    by (cases "restore_all env clk h ss True [] x w") auto
  then have "x' = x1" "r \<Longrightarrow> \<exists>m. ao_hardware out = HwNotApplied m"
    "\<not> r \<Longrightarrow> \<exists>m. ao_hardware out = HwUncertain m" "\<not> ao_deduplicated out"
    using assms(1) by (auto simp: cooling_abort_def Let_def)
  then show "(\<exists>m. ao_hardware out = HwNotApplied m) \<or>
    ((\<exists>m. ao_hardware out = HwUncertain m) \<and> (\<exists>s \<in> set ss. committed_target x' (cs_channel s) = None))"
    "\<not> ao_deduplicated out"
    using restore_all_record [OF r assms(2)] by auto
qed

lemma write_targets_abort:
  assumes "write_targets env clk now h snaps ts n rbs x w = (Inl out, x', w')"
    "distinct (map cs_channel snaps)"
  shows "((\<exists>m. ao_hardware out = HwNotApplied m) \<or>
    ((\<exists>m. ao_hardware out = HwUncertain m) \<and> (\<exists>s \<in> set snaps. committed_target x' (cs_channel s) = None))) \<and>
    \<not> ao_deduplicated out"
  using assms(1)
proof (induction ts arbitrary: n rbs x w)
  case (Cons e ts)
  obtain ch t r where e: "e = ((ch, t), r)" by (cases e) auto
  show ?case
  proof (cases r)
    case (Some rb)
    then show ?thesis using Cons by (simp add: e)
  next
    case None
    obtain res w1 where wt: "write_target env h ch t w = (res, w1)" by (cases "write_target env h ch t w")
    show ?thesis
    proof (cases res)
      case (Inl f)
      then have "cooling_abort env clk h snaps f n rbs (x\<lparr>cx_last_write := Some now\<rparr>) w1 = (out, x', w')"
        using Cons.prems by (auto simp: e None wt Let_def split_beta prod_eq_iff)
      then show ?thesis using cooling_abort_outcome [OF _ assms(2)] by metis
    next
      case (Inr a)
      obtain x2 w2 where "cooling_commit clk ch t (x\<lparr>cx_last_write := Some now\<rparr>) w1 = (x2, w2)"
        by (cases "cooling_commit clk ch t (x\<lparr>cx_last_write := Some now\<rparr>) w1")
      then show ?thesis using Cons by (auto simp: e None wt Inr Let_def)
    qed
  qed
qed simp

lemma write_targets_count:
  assumes "write_targets env clk now h snaps ts n rbs x w = (Inr (n', rbs'), x', w')"
    "unat n + 43 * length ts < 1000"
  shows "unat n + 2 * length (filter (\<lambda>e. snd e = None) ts) \<le> unat n'"
  using assms
proof (induction ts arbitrary: n rbs x w)
  case (Cons e ts)
  obtain ch t r where e: "e = ((ch, t), r)" by (cases e) auto
  show ?case
  proof (cases r)
    case (Some rb)
    then have p: "write_targets env clk now h snaps ts n (rbs @ [rb]) x w = (Inr (n', rbs'), x', w')"
      using Cons.prems(1) by (simp add: e)
    have "unat n + 43 * length ts < 1000" using Cons.prems(2) by simp
    from Cons.IH [OF p this] show ?thesis by (simp only: e Some filter.simps snd_conv option.distinct if_False)
  next
    case None
    obtain a w1 x2 w2 where t1: "write_target env h ch t w = (Inr a, w1)"
      "write_targets env clk now h snaps ts (n + ap_writes a) (rbs @ [ap_readback a]) x2 w2 = (Inr (n', rbs'), x', w')"
      by (rule write_targets_turn [OF Cons.prems(1) [unfolded e None]])
    have c: "2 \<le> unat (ap_writes a)" "unat (ap_writes a) \<le> 43"
      using write_target_count [of env h ch t w a] t1(1) by auto
    have room: "unat n + 43 + 43 * length ts < 1000" using Cons.prems(2) by simp
    then have s: "unat (n + ap_writes a) = unat n + unat (ap_writes a)"
      using c(2) by (simp add: unat_plus_if')
    have "unat (n + ap_writes a) + 43 * length ts < 1000" using room c(2) unfolding s by linarith
    from Cons.IH [OF t1(2) this] show ?thesis
      using c(1) unfolding s by (simp add: e None)
  qed
qed simp

section \<open>Where it writes\<close>

definition confined :: "string set \<Rightarrow> world \<Rightarrow> world \<Rightarrow> bool" where
  "confined A w w' = (\<exists>es. extends w es w' \<and> list_all attr_event es \<and> fst ` set (attr_writes es) \<subseteq> A)"

lemma confined_silent: "silent w w' \<Longrightarrow> confined A w w'"
  unfolding silent_def confined_def using silent_events by fastforce

lemma confined_trans: "\<lbrakk>confined A w w'; confined A w' w''\<rbrakk> \<Longrightarrow> confined A w w''"
  unfolding confined_def
proof (elim exE conjE)
  fix es fs
  assume "extends w es w'" "extends w' fs w''" "list_all attr_event es" "list_all attr_event fs"
    "fst ` set (attr_writes es) \<subseteq> A" "fst ` set (attr_writes fs) \<subseteq> A"
  then show "\<exists>es. extends w es w'' \<and> list_all attr_event es \<and> fst ` set (attr_writes es) \<subseteq> A"
    by (intro exI [of _ "es @ fs"]) (auto intro: extends_trans)
qed

lemma confined_performs:
  assumes "performs w plan r" "fst ` set plan \<subseteq> A"
  shows "confined A w (snd r)"
proof -
  obtain es n where "extends w es (snd r)" "list_all attr_event es" "attr_writes es = take n plan"
    using assms(1) by (auto simp: performs_def wrote_def split: if_splits) (metis take_all_iff order_refl)
  moreover from this have "fst ` set (attr_writes es) \<subseteq> A"
    using assms(2) set_take_subset [of n plan] by auto
  ultimately show ?thesis unfolding confined_def by blast
qed

definition thermal_attributes :: "kraken_hwmon \<Rightarrow> string set" where
  "thermal_attributes h = channel_attributes h Pump \<union> channel_attributes h Fan"

lemma channel_in_thermal: "channel_attributes h ch \<subseteq> thermal_attributes h"
  by (cases ch) (auto simp: thermal_attributes_def)

lemma confined_write_target: "confined (thermal_attributes h) w (snd (write_target env h ch t w))"
proof (cases t)
  case (TFixed d)
  have "fst ` set (fixed_plan h ch d) \<subseteq> thermal_attributes h"
    using channel_in_thermal [of h ch] line_allowed [of h ch] by (auto simp: fixed_plan_def)
  then show ?thesis using confined_performs [OF performs_apply_fixed] by (simp add: write_target_def TFixed)
next
  case (TCurve c)
  have "fst ` set (curve_plan env h ch c w) \<subseteq> thermal_attributes h"
    using channel_in_thermal [of h ch] line_allowed [of h ch] leave_plan_allowed [of env h ch c w]
      point_lines_allowed [of h ch 0 "points c"]
    unfolding curve_plan_def set_append image_Un list.set image_insert image_empty by blast
  then show ?thesis using confined_performs [OF performs_apply_curve] by (simp add: write_target_def TCurve)
qed

lemma confined_restore: "confined (thermal_attributes h) w (snd (restore env h s w))"
  using performs_restore [of w env h s] confined_performs channel_in_thermal by (metis order_trans)

lemma confined_restore_all:
  "confined (thermal_attributes h) w (snd (snd (snd (restore_all env clk h ss r d x w))))"
proof (induction ss arbitrary: r d x w)
  case Nil
  then show ?case by (simp add: confined_silent)
next
  case (Cons s ss)
  obtain res w1 where res: "restore env h s w = (res, w1)" by (cases "restore env h s w")
  have c: "confined (thermal_attributes h) w w1"
    using confined_restore [of h w env s] by (simp add: res)
  obtain x2 w2 where rr: "record_restored clk s x w1 = (x2, w2)" by (cases "record_restored clk s x w1")
  have c2: "confined (thermal_attributes h) w w2"
    by (rule confined_trans [OF c confined_silent [OF record_restored_other(2) [OF rr]]])
  show ?case
    using confined_trans [OF c Cons.IH] confined_trans [OF c2 Cons.IH]
    by (auto simp: res rr split: sum.split bool.split)
qed

lemma confined_write_targets:
  "confined (thermal_attributes h) w (snd (snd (write_targets env clk now h snaps ts n rbs x w)))"
proof (induction ts arbitrary: n rbs x w)
  case Nil
  then show ?case by (simp add: confined_silent)
next
  case (Cons e ts)
  obtain ch t r where e: "e = ((ch, t), r)" by (cases e) auto
  show ?case
  proof (cases r)
    case (Some rb)
    then show ?thesis using Cons by (simp add: e)
  next
    case None
    obtain res w1 where wt: "write_target env h ch t w = (res, w1)" by (cases "write_target env h ch t w")
    have c: "confined (thermal_attributes h) w w1"
      using confined_write_target [of h w env ch t] by (simp add: wt)
    show ?thesis
    proof (cases res)
      case (Inl f)
      then show ?thesis
        using confined_trans [OF c confined_restore_all]
        by (simp add: e None wt Let_def split_beta cooling_abort_def)
    next
      case (Inr a)
      obtain x2 w2 where cc: "cooling_commit clk ch t (x\<lparr>cx_last_write := Some now\<rparr>) w1 = (x2, w2)"
        by (cases "cooling_commit clk ch t (x\<lparr>cx_last_write := Some now\<rparr>) w1")
      have "confined (thermal_attributes h) w w2"
        by (rule confined_trans [OF c confined_silent [OF cooling_commit_facts(1) [OF cc]]])
      then show ?thesis using confined_trans [OF _ Cons.IH]
        by (simp add: e None wt Inr Let_def cc)
    qed
  qed
qed

section \<open>Properties\<close>

text \<open>The parts of an application of a program with targets, on a bound cooler.\<close>

lemma program_targets_distinct: "program_targets p = Some ts \<Longrightarrow> distinct (map fst ts) \<and> length ts = 2 \<and>
    fst ` set ts = UNIV"
  using set_CHANNELS
  by (cases p) (auto simp: program_targets_def CHANNELS_def simp del: set_CHANNELS)

lemma cooling_apply_cases:
  assumes "cooling_apply env clk now program x w = (out, x', w')" "program_targets program = Some ts"
  obtains (unbound) "out = outcome_untouched (HwNotApplied NO_COOLER)" "silent w w'"
      "cx_control x' = None" "cx_committed x' = cx_committed x"
  | (refused) h m where "out = outcome_untouched (HwNotApplied m)" "silent w w'" "cx_control x' = Some h"
      "cx_committed x' = cx_committed x"
  | (aborted) h snaps settled x1 w1 where
      "write_targets env clk now h snaps (zip ts settled) 0 [] x1 w1 = (Inl out, x', w')"
      "map cs_channel snaps = map fst ts" "silent w w1" "cx_control x1 = Some h"
  | (finished) h snaps settled x1 w1 n rbs x2 where
      "write_targets env clk now h snaps (zip ts settled) 0 [] x1 w1 = (Inr (n, rbs), x2, w')"
      "list_all2 (settled_sound x1) ts settled" "settle ts n rbs x2 = (out, x')" "silent w w1"
      "cx_committed x1 = cx_committed x" "cx_control x1 = Some h" "length settled = length ts"
      "cx_last_write x1 = cx_last_write x"
proof -
  obtain c x1 w0 where res: "cooling_resolve env x w = (c, x1, w0)" by (cases "cooling_resolve env x w")
  note rf = cooling_resolve_facts [OF res]
  show thesis
  proof (cases c)
    case None
    then show thesis using unbound assms res rf by (auto simp: cooling_apply_def)
  next
    case (Some h)
    let ?snaps = "take_snapshots env h x1 ts w0"
    let ?set = "check_settled env h x1 ts (snd ?snaps)"
    let ?wt = "write_targets env clk now h (fst ?snaps) (zip ts (fst ?set)) 0 [] x1 (snd ?set)"
    have quiet: "silent w (snd ?set)"
      by (rule silent_trans [OF rf(1) silent_trans [OF silent_take_snapshots silent_check_settled]])
    have eq: "cooling_apply env clk now program x w =
        (case refuse_for_cadence now (fst ?set) x1 of
           Some refusal \<Rightarrow> (refusal, x1, snd ?set)
         | None \<Rightarrow> (case fst ?wt of
             Inl o1 \<Rightarrow> (o1, fst (snd ?wt), snd (snd ?wt))
           | Inr (n, rbs) \<Rightarrow> (fst (settle ts n rbs (fst (snd ?wt))), snd (settle ts n rbs (fst (snd ?wt))),
               snd (snd ?wt))))"
      by (auto simp: cooling_apply_def assms(2) res Some split_beta Let_def split: option.split sum.split)
    show thesis
    proof (cases "refuse_for_cadence now (fst ?set) x1")
      case (Some refusal)
      then obtain m where "refusal = outcome_untouched (HwNotApplied m)"
        by (auto simp: refuse_for_cadence_def Let_def split: if_splits option.splits)
      then show thesis using refused assms(1) eq Some \<open>c = Some h\<close> rf quiet by auto
    next
      case None
      show thesis
      proof (cases "fst ?wt")
        case (Inl o1)
        then have "?wt = (Inl out, x', w')" using assms(1) eq None by (auto simp: prod_eq_iff)
        then show thesis using aborted take_snapshots_channels quiet rf(4) \<open>c = Some h\<close> by blast
      next
        case (Inr p)
        then obtain n rbs where "?wt = (Inr (n, rbs), fst (snd ?wt), w')"
          "settle ts n rbs (fst (snd ?wt)) = (out, x')"
          using assms(1) eq None by (cases p) (simp_all add: prod_eq_iff)
        then show thesis
          using finished check_settled_sound quiet rf(2,3,4) \<open>c = Some h\<close> length_check_settled by metis
      qed
    qed
  qed
qed

lemma write_targets_control:
  "cx_control (fst (snd (write_targets env clk now h snaps ts n rbs x w))) = cx_control x"
proof (induction ts arbitrary: n rbs x w)
  case (Cons e ts)
  have rr: "cx_control (fst (record_restored clk s x w)) = cx_control x" for s x w
    by (auto simp: record_restored_def cooling_commit_def split_beta split: option.split pwm_mode.split)
  have ra: "cx_control (fst (snd (snd (restore_all env clk h ss r d x w)))) = cx_control x" for ss r d x w
    by (induction ss arbitrary: r d x w) (simp_all add: split_beta Let_def rr split: sum.split bool.split)
  have cc: "cx_control (fst (cooling_commit clk ch t x w)) = cx_control x" for ch t x w
    by (simp add: cooling_commit_def split_beta)
  obtain ch t r where e: "e = ((ch, t), r)" by (cases e) auto
  show ?case
    using Cons by (cases r) (simp_all add: e Let_def split_beta cooling_abort_def ra cc split: sum.split)
qed simp

lemma settle_control [simp]: "cx_control (snd (settle ts n rbs x)) = cx_control x"
proof -
  have "cx_control (fold (\<lambda>(ch, _). uncommit ch) ts x) = cx_control x"
    by (induction ts arbitrary: x) auto
  then show ?thesis by (simp add: settle_def Let_def)
qed

text \<open>C1: Whatever commands the daemon gives the cooling executor, at whatever instants and whatever
  the device answers, two calls that send anything are at least the cadence floor of 200 ms apart.\<close>

theorem cooling_writes_spaced:
  "successively (\<lambda>a b. from_millis 200 \<le> b - a) (writing_instants (cooling_exec env clk) cs x w)"
  using cooler.spaced [of env clk cs x w] by (simp add: MIN_PROGRAM_INTERVAL_MS_def)

text \<open>C2: The executor's record is honest. An application reported confirmed has read back every
  channel on its target and is what the executor then reports as committed; one reported uncertain
  is never reported as committed; one that changed nothing on purpose is the onboard program.\<close>

theorem cooling_record_honest:
  "case cooling_apply env clk now program x w of (out, x', w') \<Rightarrow>
    (case ao_hardware out of
       HwOnboard \<Rightarrow> program = Onboard \<and> x' = x \<and> w' = w
     | HwConfirmed \<Rightarrow> committed_program x' = Some program \<and>
         (case program_targets program of None \<Rightarrow> False
          | Some ts \<Rightarrow> list_all2 (\<lambda>(ch, t) rb. proved ch t rb \<and> rb_mismatch rb = None) ts (ao_readback out))
     | HwUncertain _ \<Rightarrow> committed_program x' = None
     | HwNotApplied _ \<Rightarrow> \<not> ao_deduplicated out)"
proof (cases "program_targets program")
  case None
  then show ?thesis
    by (cases program) (auto simp: cooling_apply_def program_targets_def outcome_untouched_def)
next
  case (Some ts)
  note d = program_targets_distinct [OF Some]
  obtain out x' w' where a: "cooling_apply env clk now program x w = (out, x', w')"
    by (cases "cooling_apply env clk now program x w")
  have off: "committed_program x' = None" if "committed_target x' ch = None" for ch
    using that by (cases ch) (auto simp: committed_program_def split: option.split target.split)
  from a Some show ?thesis
  proof (cases rule: cooling_apply_cases)
    case (aborted h snaps settled x1 w1)
    have "distinct (map cs_channel snaps)" using aborted(2) d by simp
    from write_targets_abort [OF aborted(1) this] show ?thesis
      using off by (auto simp: a)
  next
    case (finished h snaps settled x1 w1 n rbs x2)
    have len: "length ts = length settled" using finished(7) by simp
    have "map (fst \<circ> fst) (zip ts settled) = map fst ts"
      using len by (simp flip: map_map)
    then have dz: "distinct (map (fst \<circ> fst) (zip ts settled))" using d by simp
    have ss: "list_all (\<lambda>(ct, r). settled_sound x1 ct r) (zip ts settled)"
      using finished(2) by (auto simp: list_all2_iff list_all_iff)
    obtain new where new: "rbs = new"
      "list_all2 (\<lambda>(ct, _) rb. rb_mismatch rb = None \<longrightarrow> proved (fst ct) (snd ct) rb) (zip ts settled) new"
      "list_all (\<lambda>(ct, _). committed_target x2 (fst ct) = Some (snd ct)) (zip ts settled)"
      using write_targets_record [OF finished(1) dz ss] by auto
    have com: "list_all (\<lambda>ct. committed_target x2 (fst ct) = Some (snd ct)) ts"
      using new(3) len by (auto simp: list_all_length)
    have pr: "list_all2 (\<lambda>ct rb. rb_mismatch rb = None \<longrightarrow> proved (fst ct) (snd ct) rb) ts rbs"
      using new(1,2) len by (auto simp: list_all2_conv_all_nth)
    show ?thesis
    proof (cases "list_all (\<lambda>rb. rb_mismatch rb = None) rbs")
      case True
      then have "ao_hardware out = HwConfirmed" "x' = x2" "ao_readback out = rbs"
        using settle_outcome [OF finished(3)] by simp_all
      moreover have "committed_program x2 = Some program"
        using com Some by (auto simp: program_targets_def committed_program_def split: cooling_program.splits)
      moreover have "list_all2 (\<lambda>(ch, t) rb. proved ch t rb \<and> rb_mismatch rb = None) ts rbs"
        using pr True by (auto simp: list_all2_conv_all_nth list_all_length split_beta)
      ultimately show ?thesis using Some by (simp add: a)
    next
      case False
      then show ?thesis
        using settle_outcome [OF finished(3)] off d by (auto simp: a)
    qed
  qed (auto simp: a outcome_untouched_def)
qed

text \<open>An application is reported as deduplicated exactly when it is confirmed without a write, and
  then it sent nothing: it only read, and the record and the cadence stamp are what they were.\<close>

theorem cooling_deduplicated_is_silent:
  "case cooling_apply env clk now program x w of (out, x', w') \<Rightarrow>
    ao_deduplicated out \<longleftrightarrow>
    (ao_hardware out = HwConfirmed \<and> ao_writes out = 0 \<and> silent w w' \<and>
      cx_committed x' = cx_committed x \<and> cx_last_write x' = cx_last_write x)"
proof (cases "program_targets program")
  case None
  then show ?thesis
    by (cases program) (auto simp: cooling_apply_def program_targets_def outcome_untouched_def)
next
  case (Some ts)
  obtain out x' w' where a: "cooling_apply env clk now program x w = (out, x', w')"
    by (cases "cooling_apply env clk now program x w")
  from a Some show ?thesis
  proof (cases rule: cooling_apply_cases)
    case (aborted h snaps settled x1 w1)
    have "distinct (map cs_channel snaps)" using aborted(2) program_targets_distinct [OF Some] by simp
    from write_targets_abort [OF aborted(1) this] show ?thesis by (auto simp: a)
  next
    case (finished h snaps settled x1 w1 n rbs x2)
    show ?thesis
    proof (cases "n = 0")
      case True
      have "length (zip ts settled) = 2" using finished(7) program_targets_distinct [OF Some] by simp
      then have "2 * length (filter (\<lambda>e. snd e = None) (zip ts settled)) \<le> 0"
        using write_targets_count [OF finished(1)] True by simp
      then have all: "list_all (\<lambda>e. snd e \<noteq> None) (zip ts settled)"
        by (auto simp: list_all_iff filter_empty_conv)
      note w = write_targets_settled [OF all, of env clk now h snaps 0 "[]" x1 w1]
      have e: "x2 = x1" "w' = w1" "rbs = map (the \<circ> snd) (zip ts settled)"
        using finished(1) unfolding w by auto
      have "list_all (\<lambda>rb. rb_mismatch rb = None) rbs"
        using finished(2) all unfolding e(3)
        by (fastforce simp: list_all_iff list_all2_iff settled_sound_def split: option.splits)
      then have o1: "ao_hardware out = HwConfirmed" "x' = x1" "ao_writes out = 0"
        using settle_outcome [OF finished(3)] e True by simp_all
      then show ?thesis using settle_outcome(4) [OF finished(3)] finished(4,5,8) e True by (simp add: a)
    next
      case False
      then show ?thesis using settle_outcome(2,4) [OF finished(3)] by (simp add: a)
    qed
  qed (auto simp: a outcome_untouched_def)
qed

lemma cooling_confined:
  "case cooling_apply env clk now program x w of (out, x', w') \<Rightarrow>
    (case cx_control x' of None \<Rightarrow> silent w w' | Some h \<Rightarrow> confined (thermal_attributes h) w w')"
proof (cases "program_targets program")
  case None
  then show ?thesis
    by (auto simp: cooling_apply_def confined_silent split: option.split)
next
  case (Some ts)
  obtain out x' w' where a: "cooling_apply env clk now program x w = (out, x', w')"
    by (cases "cooling_apply env clk now program x w")
  from a Some show ?thesis
  proof (cases rule: cooling_apply_cases)
    case (aborted h snaps settled x1 w1)
    then have "cx_control x' = Some h" "confined (thermal_attributes h) w1 w'"
      using write_targets_control [of env clk now h snaps "zip ts settled" 0 "[]" x1 w1]
        confined_write_targets [of h w1 env clk now snaps "zip ts settled" 0 "[]" x1] by simp_all
    then show ?thesis using confined_trans [OF confined_silent [OF aborted(3)]] by (simp add: a)
  next
    case (finished h snaps settled x1 w1 n rbs x2)
    then have "cx_control x2 = Some h" "confined (thermal_attributes h) w1 w'"
      using write_targets_control [of env clk now h snaps "zip ts settled" 0 "[]" x1 w1]
        confined_write_targets [of h w1 env clk now snaps "zip ts settled" 0 "[]" x1] by simp_all
    moreover have "cx_control x' = cx_control x2" using settle_control [of ts n rbs x2] finished(3) by simp
    ultimately show ?thesis using confined_trans [OF confined_silent [OF finished(4)]] by (simp add: a)
  qed (auto simp: a confined_silent)
qed

text \<open>C23: An application writes nowhere but to the duty, the mode and the curve points of the two
  channels of the bound cooler, restorations included; with no cooler bound it writes nothing.\<close>

theorem cooling_apply_confined:
  "case cooling_apply env clk now program x w of (out, x', w') \<Rightarrow>
    (case cx_control x' of None \<Rightarrow> silent w w' | Some h \<Rightarrow> confined (thermal_attributes h) w w')"
  by (rule cooling_confined)

text \<open>Checking the committed curves takes exactly the diverged channels off the record, names each
  once, and leaves the other commits as they were; with no liquid temperature it decides nothing.\<close>

theorem verify_curves_exact:
  "case verify_curves kraken now_ms x of (diverged, x') \<Rightarrow>
    distinct (map cd_channel diverged) \<and>
    (\<forall>ch. cx_committed x' ch =
      (case reading_value (kt_liquid_temperature_c kraken) of
         None \<Rightarrow> cx_committed x ch
       | Some liquid \<Rightarrow> (case cx_committed x ch of
           None \<Rightarrow> None
         | Some c \<Rightarrow> (case curve_check kraken liquid now_ms ch c of None \<Rightarrow> Some c | Some _ \<Rightarrow> None)))) \<and>
    (\<forall>ch. ch \<in> cd_channel ` set diverged \<longleftrightarrow> cx_committed x' ch \<noteq> cx_committed x ch)"
proof -
  have ch: "curve_check kraken l now_ms c m = Some d \<Longrightarrow> cd_channel d = c" for l c m d
    by (auto simp: curve_check_def split: target.splits if_splits option.splits)
  show ?thesis
  proof (cases "reading_value (kt_liquid_temperature_c kraken)")
    case None
    then show ?thesis by (simp add: verify_curves_def)
  next
    case (Some l)
    define f where "f c = (case cx_committed x c of None \<Rightarrow> None
      | Some m \<Rightarrow> curve_check kraken l now_ms c m)" for c
    have f: "f c = Some d \<Longrightarrow> cd_channel d = c" for c d
      using ch by (auto simp: f_def split: option.splits)
    have mem: "c \<in> cd_channel ` set (List.map_filter f CHANNELS) \<longleftrightarrow> f c \<noteq> None" for c
      using f by (cases c) (auto simp: CHANNELS_def map_filter_simps split: option.splits)
    have dist: "distinct (map cd_channel (List.map_filter f CHANNELS))"
      using f by (auto simp: CHANNELS_def map_filter_simps split: option.splits)
    have v: "verify_curves kraken now_ms x = (List.map_filter f CHANNELS,
        fold (\<lambda>d x. uncommit (cd_channel d) x) (List.map_filter f CHANNELS) x)"
      by (simp add: verify_curves_def Some Let_def f_def [abs_def])
    show ?thesis
      unfolding v prod.case using dist
      by (simp add: fold_uncommit_divergence mem Some) (auto simp: f_def split: option.splits)
  qed
qed

end
