(* ===== verification/Hid_Link.thy ===== *)
theory Hid_Link
  imports Io
begin

text \<open>
  \<open>crates/hardware-linux/src/hid.rs\<close> and the transfer guard of \<open>usbfs.rs\<close>: the 64-byte reports both
  devices speak, and the exchange both are interrogated with. The device behind a transport is
  \<open>hid_env\<close>: which report arrives next is its choice, so the exchange is stated for a device that
  answers in any order, interleaves reports of its own, falls silent or fails.
\<close>

definition REPORT_BYTES :: nat where "REPORT_BYTES = 64"
definition ANSWER_TIMEOUT :: duration where "ANSWER_TIMEOUT = from_millis 2000"
definition MAX_QUERY_READS :: nat where "MAX_QUERY_READS = 12"
definition FIRMWARE_REQUEST :: "u8 \<times> u8" where "FIRMWARE_REQUEST = (0x10, 0x01)"
definition FIRMWARE_ANSWER :: "u8 \<times> u8" where "FIRMWARE_ANSWER = (0x11, 0x01)"
definition FIRMWARE_OFFSET :: nat where "FIRMWARE_OFFSET = 0x11"

definition hid_error_display :: "hid_error \<Rightarrow> string" where
  "hid_error_display e = (case e of
      NodeAbsent reason \<Rightarrow> ''no hidraw node exists for the controller: '' @ reason
    | HidPermissionDenied path \<Rightarrow> ''permission denied on '' @ path @ ''. Check the installed udev rule.''
    | HidIo path detail \<Rightarrow> path @ '': '' @ detail
    | NoAnswer expected waited_ms \<Rightarrow> ''the controller sent no '' @ expected @ '' answer within '' @
        show_nat (unat waited_ms) @ '' ms''
    | ShortWrite written expected \<Rightarrow> ''the controller accepted '' @ show_nat written @ '' of '' @
        show_nat expected @ '' bytes'')"

definition silence :: "string \<Rightarrow> string" where
  "silence what = hid_error_display (NoAnswer what (word_of_nat (as_millis ANSWER_TIMEOUT)))"

definition answered :: "'a option \<Rightarrow> string \<Rightarrow> string \<Rightarrow> 'a evidenced" where
  "answered v subject source = (case v of
      Some v \<Rightarrow> Known v source
    | None \<Rightarrow> Unknown (silence subject) source)"

definition empty_report :: "u8 list" where "empty_report = replicate REPORT_BYTES 0"

definition query_report :: "u8 \<times> u8 \<Rightarrow> u8 list" where
  "query_report identifier = empty_report[0 := fst identifier, 1 := snd identifier]"

definition answers :: "u8 list \<Rightarrow> u8 \<times> u8 \<Rightarrow> bool" where
  "answers report identifier = (report ! 0 = fst identifier \<and> report ! 1 = snd identifier)"

section \<open>The exchange\<close>

fun send_requests :: "hid_env \<Rightarrow> ((u8 \<times> u8) \<times> (u8 \<times> u8)) list \<Rightarrow> world \<Rightarrow> (hid_error + unit) \<times> world" where
  "send_requests env [] w = (Inr (), w)"
| "send_requests env ((request, _) # es) w =
    (case write_report env (query_report request) w of
       (Inl e, w) \<Rightarrow> (Inl e, w)
     | (Inr _, w) \<Rightarrow> send_requests env es w)"

text \<open>The reading loop, with the reads it has left.\<close>

fun collect_answers :: "hid_env \<Rightarrow> ((u8 \<times> u8) \<times> (u8 \<times> u8)) list \<Rightarrow> nat \<Rightarrow> u8 list option list \<Rightarrow> world \<Rightarrow>
    (hid_error + u8 list option list) \<times> world" where
  "collect_answers env es 0 received w = (Inr received, w)"
| "collect_answers env es (Suc n) received w =
    (if list_all (\<lambda>r. r \<noteq> None) received then (Inr received, w)
     else (case read_report env ANSWER_TIMEOUT w of
       (Inl e, w) \<Rightarrow> (Inl e, w)
     | (Inr None, w) \<Rightarrow> (Inr received, w)
     | (Inr (Some report), w) \<Rightarrow>
         collect_answers env es n
           (case position (\<lambda>(_, answer). answers report answer) es of
              Some slot \<Rightarrow> received[slot := Some report]
            | None \<Rightarrow> received) w))"

definition ask :: "hid_env \<Rightarrow> ((u8 \<times> u8) \<times> (u8 \<times> u8)) list \<Rightarrow> world \<Rightarrow>
    (hid_error + u8 list option list) \<times> world" where
  "ask env exchanges w = (case send_requests env exchanges w of
      (Inl e, w) \<Rightarrow> (Inl e, w)
    | (Inr _, w) \<Rightarrow> collect_answers env exchanges MAX_QUERY_READS (replicate (length exchanges) None) w)"

section \<open>Firmware revisions\<close>

definition firmware :: "u8 list \<Rightarrow> string" where
  "firmware report = show_nat (unat (report ! FIRMWARE_OFFSET)) @ ''.'' @
    show_nat (unat (report ! (FIRMWARE_OFFSET + 1))) @ ''.'' @
    show_nat (unat (report ! (FIRMWARE_OFFSET + 2)))"

definition firmware_major :: "string \<Rightarrow> u8 option" where
  "firmware_major f = map_option word_of_nat (parse_unsigned 10 255 (takeWhile (\<lambda>c. c \<noteq> CHR ''.'') f))"

section \<open>The bulk endpoint\<close>

definition MAX_BULK_CHUNK :: nat where "MAX_BULK_CHUNK = 2 * 1024 * 1024"

definition check_transfer :: "u8 \<Rightarrow> u8 list \<Rightarrow> usbfs_error + unit" where
  "check_transfer endpoint payload =
    (if and endpoint 0x80 \<noteq> 0 then Inl (NotAnOutEndpoint endpoint)
     else if MAX_BULK_CHUNK < length payload then Inl (PayloadTooLarge (length payload) MAX_BULK_CHUNK)
     else Inr ())"

definition usb_write_bulk :: "bulk_env \<Rightarrow> u8 \<Rightarrow> u8 list \<Rightarrow> world \<Rightarrow> (usbfs_error + unit) \<times> world" where
  "usb_write_bulk env endpoint payload w = (case check_transfer endpoint payload of
      Inl e \<Rightarrow> (Inl e, w)
    | Inr _ \<Rightarrow> write_bulk env endpoint payload w)"

definition usbfs_error_display :: "usbfs_error \<Rightarrow> string" where
  "usbfs_error_display e = (case e of
      UsbNodeAbsent reason \<Rightarrow> ''no usbfs node exists for the device: '' @ reason
    | UsbPermissionDenied path \<Rightarrow> ''permission denied on '' @ path @ ''. Check the installed udev rule.''
    | DriverBound interface driver \<Rightarrow> ''interface '' @ show_nat (unat interface) @ '' is bound to '' @
        driver @ '' and will not be claimed''
    | UsbBusy interface \<Rightarrow> ''interface '' @ show_nat (unat interface) @
        '' is already claimed by another process''
    | NotAnOutEndpoint endpoint \<Rightarrow> ''endpoint 0x'' @
        [digit_char (unat endpoint div 16), digit_char (unat endpoint mod 16)] @
        '' is an IN endpoint and cannot be written''
    | PayloadTooLarge bytes limit \<Rightarrow> ''a transfer of '' @ show_nat bytes @ '' bytes exceeds the '' @
        show_nat limit @ '' byte ceiling and will not be split''
    | UsbIo path detail \<Rightarrow> path @ '': '' @ detail
    | UsbShortWrite written expected \<Rightarrow> ''the device accepted '' @ show_nat written @ '' of '' @
        show_nat expected @ '' bytes'')"

section \<open>Facts\<close>

lemma length_empty_report [simp]: "length empty_report = 64"
  by (simp add: empty_report_def REPORT_BYTES_def)

lemma length_query_report [simp]: "length (query_report i) = 64"
  by (simp add: query_report_def)

lemma answers_query: "answers (query_report i) i"
  by (simp add: answers_def query_report_def)

text \<open>The reports read by a step.\<close>

fun reports_in :: "io_event list \<Rightarrow> nat" where
  "reports_in [] = 0"
| "reports_in (HidIn ok # es) = Suc (reports_in es)"
| "reports_in (_ # es) = reports_in es"

lemma reports_in_append [simp]: "reports_in (es @ fs) = reports_in es + reports_in fs"
  by (induction es rule: reports_in.induct) simp_all

definition hid_only :: "io_event \<Rightarrow> bool" where
  "hid_only e = (case e of HidOut _ _ \<Rightarrow> True | HidIn _ \<Rightarrow> True | _ \<Rightarrow> False)"

lemma hid_only_simps [simp]: "hid_only (HidOut r ok)" "hid_only (HidIn ok)"
  by (simp_all add: hid_only_def)

lemma send_requests_trace:
  "\<exists>n xs. extends w xs (snd (send_requests env es w)) \<and> list_all hid_only xs \<and>
     reports_out xs = take n (map (\<lambda>e. query_report (fst e)) es) \<and> reports_in xs = 0 \<and>
     (is_ok (fst (send_requests env es w)) \<longrightarrow> n = length es)"
proof (induction es arbitrary: w)
  case Nil
  then show ?case by (intro exI [of _ 0] exI [of _ "[]"]) simp
next
  case (Cons e es)
  obtain request answer where e: "e = (request, answer)" by (cases e)
  obtain r w1 where wr: "write_report env (query_report request) w = (r, w1)"
    by (cases "write_report env (query_report request) w")
  then have x: "extends w [HidOut (query_report request) (is_ok r)] w1"
    by (auto simp: write_report_def Let_def)
  show ?case
  proof (cases r)
    case (Inl f)
    then show ?thesis using x
      by (intro exI [of _ 1] exI [of _ "[HidOut (query_report request) (is_ok r)]"])
        (simp add: e wr)
  next
    case (Inr u)
    obtain n xs where ih: "extends w1 xs (snd (send_requests env es w1))" "list_all hid_only xs"
      "reports_out xs = take n (map (\<lambda>e. query_report (fst e)) es)" "reports_in xs = 0"
      "is_ok (fst (send_requests env es w1)) \<longrightarrow> n = length es"
      using Cons.IH by blast
    show ?thesis using extends_trans [OF x ih(1)] ih Inr
      by (intro exI [of _ "Suc n"] exI [of _ "HidOut (query_report request) (is_ok r) # xs"])
        (simp add: e wr)
  qed
qed

definition slots_sound :: "((u8 \<times> u8) \<times> (u8 \<times> u8)) list \<Rightarrow> u8 list option list \<Rightarrow> bool" where
  "slots_sound es received = list_all2 (\<lambda>e r. case r of None \<Rightarrow> True | Some report \<Rightarrow> answers report (snd e))
    es received"

lemma slots_sound_put:
  assumes "slots_sound es received" "position (\<lambda>(_, answer). answers report answer) es = Some slot"
  shows "slots_sound es (received[slot := Some report])"
proof -
  have "slot < length es" "answers report (snd (es ! slot))"
    using position_Some [OF assms(2)] by (auto simp: split_beta)
  then show ?thesis using assms(1)
    by (auto simp: slots_sound_def list_all2_conv_all_nth nth_list_update)
qed

lemma collect_answers_trace:
  assumes "slots_sound es received"
  shows "\<exists>xs. extends w xs (snd (collect_answers env es n received w)) \<and> list_all hid_only xs \<and>
    reports_out xs = [] \<and> reports_in xs \<le> n \<and>
    (case fst (collect_answers env es n received w) of Inl _ \<Rightarrow> True | Inr got \<Rightarrow> slots_sound es got)"
  using assms
proof (induction n arbitrary: received w)
  case 0
  then show ?case by (intro exI [of _ "[]"]) simp
next
  case (Suc n)
  obtain r w1 where rd: "read_report env ANSWER_TIMEOUT w = (r, w1)"
    by (cases "read_report env ANSWER_TIMEOUT w")
  then have x: "extends w [HidIn (is_ok r)] w1"
    by (auto simp: read_report_def Let_def)
  show ?case
  proof (cases "list_all (\<lambda>r. r \<noteq> None) received")
    case True
    then show ?thesis using Suc.prems by (intro exI [of _ "[]"]) simp
  next
    case more: False
    have one: ?thesis if "\<And>report. r \<noteq> Inr (Some report)"
      using that more x rd Suc.prems
      by (intro exI [of _ "[HidIn (is_ok r)]"])
        (cases r; auto split: option.split)
    show ?thesis
    proof (cases "\<exists>report. r = Inr (Some report)")
      case True
      then obtain report where r: "r = Inr (Some report)" by blast
      let ?next = "case position (\<lambda>(_, answer). answers report answer) es of
        Some slot \<Rightarrow> received[slot := Some report] | None \<Rightarrow> received"
      have "slots_sound es ?next"
        using Suc.prems slots_sound_put by (auto split: option.split)
      then obtain xs where "extends w1 xs (snd (collect_answers env es n ?next w1))" "list_all hid_only xs"
        "reports_out xs = []" "reports_in xs \<le> n"
        "case fst (collect_answers env es n ?next w1) of Inl _ \<Rightarrow> True | Inr got \<Rightarrow> slots_sound es got"
        using Suc.IH by blast
      moreover have "collect_answers env es (Suc n) received w = collect_answers env es n ?next w1"
        using more rd r by simp
      ultimately show ?thesis using extends_trans [OF x]
        by (intro exI [of _ "HidIn (is_ok r) # xs"]) simp
    qed (use one in blast)
  qed
qed

text \<open>Interrogating a device sends the requests, each once and in order, before any answer is
  read, and nothing else; it reads at most twelve reports however many the device streams, and every
  answer it returns carries the identifier of the request it is returned for.\<close>

theorem ask_bounded_and_matched:
  "\<exists>n xs. extends w xs (snd (ask env es w)) \<and> list_all hid_only xs \<and>
     reports_out xs = take n (map (\<lambda>e. query_report (fst e)) es) \<and> reports_in xs \<le> 12 \<and>
     (case fst (ask env es w) of
        Inl _ \<Rightarrow> True
      | Inr got \<Rightarrow> n = length es \<and>
          list_all2 (\<lambda>e r. case r of None \<Rightarrow> True | Some report \<Rightarrow> answers report (snd e)) es got)"
proof -
  obtain r w1 where sr: "send_requests env es w = (r, w1)" by (cases "send_requests env es w")
  obtain n xs where s: "extends w xs w1" "list_all hid_only xs"
    "reports_out xs = take n (map (\<lambda>e. query_report (fst e)) es)" "reports_in xs = 0"
    "is_ok r \<longrightarrow> n = length es"
    using send_requests_trace [of w env es] by (auto simp: sr)
  show ?thesis
  proof (cases r)
    case (Inl e)
    then show ?thesis using s by (intro exI [of _ n] exI [of _ xs]) (simp add: ask_def sr)
  next
    case (Inr u)
    have "slots_sound es (replicate (length es) None)"
      by (simp add: slots_sound_def list_all2_conv_all_nth)
    from collect_answers_trace [OF this, of w1 env MAX_QUERY_READS] obtain ys where
      y: "extends w1 ys (snd (ask env es w))" "list_all hid_only ys" "reports_out ys = []"
        "reports_in ys \<le> MAX_QUERY_READS"
        "case fst (ask env es w) of Inl _ \<Rightarrow> True | Inr got \<Rightarrow> slots_sound es got"
      using Inr by (auto simp: ask_def sr)
    show ?thesis using s y extends_trans [OF s(1) y(1)] Inr
      by (intro exI [of _ n] exI [of _ "xs @ ys"])
        (auto simp: MAX_QUERY_READS_def slots_sound_def split: sum.splits)
  qed
qed

lemma firmware_major_of: "firmware_major (firmware report) = Some (report ! FIRMWARE_OFFSET)"
proof -
  let ?s = "show_nat (unat (report ! FIRMWARE_OFFSET))"
  have "c \<noteq> CHR ''.''" if "c \<in> set ?s" for c
  proof -
    have "48 \<le> byte c" using that
      by (auto simp: show_nat_def digit_char_def byte_char_of dest!: digits_rev_less)
    then show ?thesis by (auto simp: byte_def)
  qed
  then have "takeWhile (\<lambda>c. c \<noteq> CHR ''.'') (?s @ CHR ''.'' # t) = ?s" for t
    by (simp add: takeWhile_append1)
  then have "takeWhile (\<lambda>c. c \<noteq> CHR ''.'') (firmware report) = ?s"
    by (simp add: firmware_def)
  then show ?thesis
    by (simp add: firmware_major_def parse_show_nat)
qed

end
