(* ===== verification/Rgb_Link.thy ===== *)
theory Rgb_Link
  imports Hid_Link
begin

text \<open>
  \<open>crates/hardware-linux/src/rgb.rs\<close>: the wire format of the RGB controller, the query for its
  firmware and topology, and the one place a lighting program becomes bytes. \<open>topology_answer\<close> is the
  encoder the sources keep beside the decoder \<open>channels_of\<close>; the two are proved inverse.
\<close>

datatype rgb_error =
    RgbTransport hid_error
  | UnknownChannel u8
  | TooManyColors nat nat

definition rgb_error_display :: "rgb_error \<Rightarrow> string" where
  "rgb_error_display e = (case e of
      RgbTransport h \<Rightarrow> hid_error_display h
    | UnknownChannel ch \<Rightarrow> ''channel '' @ show_nat (unat ch) @ '' is not addressable on this controller''
    | TooManyColors colors limit \<Rightarrow> ''the program carries '' @ show_nat colors @
        '' colors, and one report holds at most '' @ show_nat limit)"

definition MAX_CHANNELS :: nat where "MAX_CHANNELS = 3"
definition MAX_ACCESSORIES_PER_CHANNEL :: nat where "MAX_ACCESSORIES_PER_CHANNEL = 6"

definition RGB_VALIDATED_FIRMWARE :: "string list" where "RGB_VALIDATED_FIRMWARE = [''1.5.0'']"

definition rgb_is_validated_firmware :: "string \<Rightarrow> bool" where
  "rgb_is_validated_firmware f = (f \<in> set RGB_VALIDATED_FIRMWARE)"

section \<open>The wire format\<close>

definition LIGHTING_REQUEST :: "u8 \<times> u8" where "LIGHTING_REQUEST = (0x20, 0x03)"
definition LIGHTING_ANSWER :: "u8 \<times> u8" where "LIGHTING_ANSWER = (0x21, 0x03)"
definition COLOR_COMMAND :: "u8 \<times> u8" where "COLOR_COMMAND = (0x2a, 0x04)"
definition CHANNEL_COUNT_OFFSET :: nat where "CHANNEL_COUNT_OFFSET = 14"
definition ACCESSORY_OFFSET :: nat where "ACCESSORY_OFFSET = 15"
definition FOOTER_BYTES :: nat where "FOOTER_BYTES = 9"
definition FOOTER_OFFSET :: nat where "FOOTER_OFFSET = REPORT_BYTES - FOOTER_BYTES"
definition MAX_COLORS :: nat where "MAX_COLORS = (FOOTER_OFFSET - 7) div 3"

lemmas wire_offsets = FOOTER_OFFSET_def FOOTER_BYTES_def REPORT_BYTES_def MAX_COLORS_def

definition accessory_name :: "u8 \<Rightarrow> string" where
  "accessory_name i =
    (if i = 0x01 then ''HUE+ LED Strip'' else if i = 0x02 then ''AER RGB 1''
     else if i = 0x04 then ''HUE 2 LED Strip 300 mm'' else if i = 0x05 then ''HUE 2 LED Strip 250 mm''
     else if i = 0x06 then ''HUE 2 LED Strip 200 mm'' else if i = 0x07 then ''HUE 2 Cable Comb''
     else if i = 0x09 then ''HUE 2 Underglow 300 mm'' else if i = 0x0a then ''HUE 2 Underglow 200 mm''
     else if i = 0x0b then ''AER RGB 2 120 mm'' else if i = 0x0c then ''AER RGB 2 140 mm''
     else if i = 0x10 then ''Kraken X Pump Ring'' else if i = 0x11 then ''Kraken X Pump Logo''
     else if i = 0x13 then ''F120 RGB'' else if i = 0x14 then ''F140 RGB''
     else if i = 0x17 then ''F140 RGB Core'' else if i = 0x1b then ''F240 RGB Core''
     else if i = 0x1d then ''F360 RGB Core''
     else ''Unknown accessory 0x'' @ [digit_char (unat i div 16), digit_char (unat i mod 16)])"

text \<open>\<open>map_while\<close> over the slots of one channel: it stops at the padding, or past the report.\<close>

fun accessories_from :: "u8 list \<Rightarrow> nat \<Rightarrow> nat \<Rightarrow> rgb_accessory list" where
  "accessories_from report offset 0 = []"
| "accessories_from report offset (Suc n) =
    (if offset < length report \<and> report ! offset \<noteq> 0
     then \<lparr>acc_id = report ! offset, acc_name = accessory_name (report ! offset)\<rparr> #
       accessories_from report (Suc offset) n
     else [])"

definition channel_of :: "u8 list \<Rightarrow> nat \<Rightarrow> rgb_channel" where
  "channel_of report c =
    \<lparr>ch_index = word_of_nat c + 1,
     ch_accessories = accessories_from report (ACCESSORY_OFFSET + c * MAX_ACCESSORIES_PER_CHANNEL)
       MAX_ACCESSORIES_PER_CHANNEL,
     ch_led_count = Unknown ''the controller reports accessory identifiers, not LED counts''
       ''hidraw report 0x21 0x03''\<rparr>"

definition channels_of :: "u8 list \<Rightarrow> rgb_channel list" where
  "channels_of report = map (channel_of report) [0..<min (unat (report ! CHANNEL_COUNT_OFFSET)) MAX_CHANNELS]"

record encoding =
  en_mode :: u8
  en_speed :: "u8 \<times> u8"
  en_variant :: u8
  en_colors :: "rgb list"

fun speed_values :: "lighting_effect \<Rightarrow> (u8 \<times> u8) list" where
  "speed_values Breathing = [(0x28, 0), (0x1e, 0), (0x14, 0), (0x0a, 0), (0x04, 0)]"
| "speed_values SpectrumWave = [(0x5e, 1), (0x2c, 1), (0xfa, 0), (0x96, 0), (0x50, 0)]"

definition encode_program :: "lighting_program \<Rightarrow> encoding" where
  "encode_program p = (case p of
      LightOff \<Rightarrow> \<lparr>en_mode = 0, en_speed = (0, 0), en_variant = 0, en_colors = [BLACK]\<rparr>
    | LightFixed color b \<Rightarrow>
        \<lparr>en_mode = 0, en_speed = (0x32, 0), en_variant = 0, en_colors = [scaled color b]\<rparr>
    | LightEffect effect colors b speed _ \<Rightarrow>
        (let table = speed_values effect;
             step = table ! min (speed_index speed) (length table - 1)
         in case effect of
              Breathing \<Rightarrow> \<lparr>en_mode = 0x07, en_speed = step, en_variant = 0x08,
                en_colors = map (\<lambda>c. scaled c b) colors\<rparr>
            | SpectrumWave \<Rightarrow> \<lparr>en_mode = 0x02, en_speed = step, en_variant = 0, en_colors = [BLACK]\<rparr>))"

text \<open>The loop that lays the colors out from \<open>index\<close> on, each green, red, blue.\<close>

fun put_colors :: "nat \<Rightarrow> rgb list \<Rightarrow> u8 list \<Rightarrow> u8 list" where
  "put_colors index [] report = report"
| "put_colors index (c # cs) report =
    (let offset = 7 + index * 3 in
     put_colors (Suc index) cs
       (report[offset := rgb_g c, offset + 1 := rgb_r c, offset + 2 := rgb_b c]))"

definition is_backward :: "lighting_program \<Rightarrow> bool" where
  "is_backward p = (case p of LightEffect _ _ _ _ Backward \<Rightarrow> True | _ \<Rightarrow> False)"

definition color_command :: "u8 \<Rightarrow> lighting_program \<Rightarrow> rgb_error + u8 list" where
  "color_command cbit p =
    (let en = encode_program p in
     if MAX_COLORS < length (en_colors en) then Inl (TooManyColors (length (en_colors en)) MAX_COLORS)
     else Inr
       ((put_colors 0 (en_colors en)
          (empty_report[0 := fst COLOR_COMMAND, 1 := snd COLOR_COMMAND, 2 := cbit, 3 := cbit,
             4 := en_mode en, 5 := fst (en_speed en), 6 := snd (en_speed en)]))
        [FOOTER_OFFSET := if is_backward p then 0x02 else 0,
         FOOTER_OFFSET + 1 := word_of_nat (length (en_colors en)),
         FOOTER_OFFSET + 2 := en_variant en,
         FOOTER_OFFSET + 3 := 0x08,
         FOOTER_OFFSET + 4 := 0x03]))"

definition channel_bit :: "u8 \<Rightarrow> u8 option" where
  "channel_bit ch = (if 1 \<le> ch \<and> unat ch \<le> MAX_CHANNELS then Some (push_bit (unat (ch - 1)) 1) else None)"

text \<open>The loops of \<open>topology_answer\<close>: over the slots of one channel, and over the channels. A slot
  past the report is dropped, as \<open>get_mut\<close> drops it.\<close>

fun put_slots :: "nat \<Rightarrow> u8 list \<Rightarrow> u8 list \<Rightarrow> u8 list" where
  "put_slots offset [] report = report"
| "put_slots offset (i # is) report = put_slots (Suc offset) is (report[offset := i])"

fun put_channels :: "nat \<Rightarrow> u8 list list \<Rightarrow> u8 list \<Rightarrow> u8 list" where
  "put_channels c [] report = report"
| "put_channels c (ids # cs) report =
    put_channels (Suc c) cs
      (put_slots (ACCESSORY_OFFSET + c * MAX_ACCESSORIES_PER_CHANNEL)
        (take MAX_ACCESSORIES_PER_CHANNEL ids) report)"

definition topology_answer :: "u8 list list \<Rightarrow> u8 list" where
  "topology_answer cs = put_channels 0 cs
    (empty_report[0 := fst LIGHTING_ANSWER, 1 := snd LIGHTING_ANSWER,
       CHANNEL_COUNT_OFFSET := word_of_nat (length cs)])"

section \<open>Talking to the controller\<close>

record rgb_inventory =
  inv_firmware :: "string option"
  inv_channels :: "rgb_channel list option"

definition rgb_query :: "hid_env \<Rightarrow> world \<Rightarrow> (rgb_error + rgb_inventory) \<times> world" where
  "rgb_query env w =
    (let (r, w) = ask env [(FIRMWARE_REQUEST, FIRMWARE_ANSWER), (LIGHTING_REQUEST, LIGHTING_ANSWER)] w
     in (case r of
           Inl e \<Rightarrow> Inl (RgbTransport e)
         | Inr got \<Rightarrow> Inr \<lparr>inv_firmware = map_option firmware (got ! 0),
             inv_channels = map_option channels_of (got ! 1)\<rparr>, w))"

definition rgb_encode :: "u8 \<Rightarrow> lighting_program \<Rightarrow> rgb_error + u8 list" where
  "rgb_encode ch p = (case channel_bit ch of
      None \<Rightarrow> Inl (UnknownChannel ch)
    | Some cbit \<Rightarrow> color_command cbit p)"

definition rgb_apply :: "hid_env \<Rightarrow> u8 \<Rightarrow> lighting_program \<Rightarrow> world \<Rightarrow> (rgb_error + u8 list) \<times> world" where
  "rgb_apply env ch p w = (case rgb_encode ch p of
      Inl e \<Rightarrow> (Inl e, w)
    | Inr report \<Rightarrow>
        (let (r, w) = write_report env report w in
         (case r of Inl e \<Rightarrow> Inl (RgbTransport e) | Inr _ \<Rightarrow> Inr report, w)))"

definition rgb_inspect :: "hid_env \<Rightarrow> world \<Rightarrow> rgb_topology \<times> world" where
  "rgb_inspect env w =
    (let source = he_source env; (r, w) = rgb_query env w in
     (case r of
        Inl e \<Rightarrow> rgb_topology_silent source (rgb_error_display e)
      | Inr inventory \<Rightarrow>
          \<lparr>rt_node = Known source ''sysfs'',
           rt_firmware = answered (inv_firmware inventory) ''firmware'' (source @ '' report 0x11 0x01''),
           rt_channels = answered (inv_channels inventory) ''lighting topology''
             (source @ '' report 0x21 0x03'')\<rparr>, w))"

section \<open>Layout of the color command\<close>

lemma length_put_colors [simp]: "length (put_colors i cs r) = length r"
  by (induction i cs r rule: put_colors.induct) (simp_all add: Let_def)

lemma put_colors_outside:
  "j < 7 + i * 3 \<or> 7 + (i + length cs) * 3 \<le> j \<Longrightarrow> put_colors i cs r ! j = r ! j"
  by (induction i cs r rule: put_colors.induct) (auto simp: Let_def)

lemma put_colors_inside:
  "\<lbrakk>k < length cs; 7 + (i + length cs) * 3 \<le> length r\<rbrakk> \<Longrightarrow>
   put_colors i cs r ! (7 + (i + k) * 3) = rgb_g (cs ! k) \<and>
   put_colors i cs r ! (7 + (i + k) * 3 + 1) = rgb_r (cs ! k) \<and>
   put_colors i cs r ! (7 + (i + k) * 3 + 2) = rgb_b (cs ! k)"
proof (induction i cs r arbitrary: k rule: put_colors.induct)
  case (2 i c cs r)
  show ?case
  proof (cases k)
    case 0
    have "put_colors (Suc i) cs s ! j = s ! j" if "j < 7 + Suc i * 3" for s j
      using that by (intro put_colors_outside) simp
    then show ?thesis using 0 "2.prems" by (simp add: Let_def)
  next
    case (Suc m)
    then show ?thesis using "2.IH" [OF refl, of m] "2.prems" by (simp add: Let_def)
  qed
qed simp

text \<open>Reading a color command back: the channel bits, the mode, the speed, the colors its footer
  counts, the direction and the variant.\<close>

definition command_colors :: "u8 list \<Rightarrow> rgb list" where
  "command_colors report = map (\<lambda>k. Rgb (report ! (7 + k * 3 + 1)) (report ! (7 + k * 3)) (report ! (7 + k * 3 + 2)))
    [0..<unat (report ! (FOOTER_OFFSET + 1))]"

lemma nth_header:
  "j < 7 \<Longrightarrow> put_colors 0 cs r ! j = r ! j"
  by (intro put_colors_outside) simp

text \<open>The color command has one shape. It fails exactly when the program carries more colors than
  fit; otherwise it is 64 bytes: the identifier, the channel bit twice, the mode and speed of the
  program, then the program's colors, which read back from the bytes as they were, and the footer
  with the direction, the count and the variant, which the colors never reach.\<close>

theorem color_command_layout:
  "case color_command cbit p of
     Inl e \<Rightarrow> e = TooManyColors (length (en_colors (encode_program p))) 16 \<and>
       16 < length (en_colors (encode_program p))
   | Inr report \<Rightarrow> length (en_colors (encode_program p)) \<le> 16 \<and> length report = 64 \<and>
       take 7 report = [0x2a, 0x04, cbit, cbit, en_mode (encode_program p),
         fst (en_speed (encode_program p)), snd (en_speed (encode_program p))] \<and>
       command_colors report = en_colors (encode_program p) \<and>
       take 5 (drop 55 report) = [if is_backward p then 2 else 0,
         word_of_nat (length (en_colors (encode_program p))), en_variant (encode_program p), 8, 3]"
proof -
  define en where "en = encode_program p"
  define base where "base = empty_report[0 := 0x2a, 1 := 0x04, 2 := cbit, 3 := cbit,
    4 := en_mode en, 5 := fst (en_speed en), 6 := snd (en_speed en)]"
  show ?thesis
  proof (cases "length (en_colors en) \<le> 16")
    case False
    then show ?thesis by (simp add: color_command_def Let_def wire_offsets en_def)
  next
    case True
    define mid where "mid = put_colors 0 (en_colors en) base"
    define out where "out = mid[55 := if is_backward p then 2 else 0,
      56 := word_of_nat (length (en_colors en)), 57 := en_variant en, 58 := 8, 59 := 3]"
    have cc: "color_command cbit p = Inr out"
      using True by (simp add: color_command_def Let_def wire_offsets en_def [symmetric]
          COLOR_COMMAND_def base_def mid_def out_def)
    have lm: "length mid = 64" by (simp add: mid_def base_def)
    have lo: "length out = 64" by (simp add: out_def lm)
    have head: "out ! j = base ! j" if "j < 7" for j
      using that nth_header [of j "en_colors en" base] by (simp add: out_def mid_def)
    have t7: "take 7 out = [0x2a, 0x04, cbit, cbit, en_mode en, fst (en_speed en), snd (en_speed en)]"
    proof (rule nth_equalityI)
      fix j assume "j < length (take 7 out)"
      then have "j < 7" by simp
      then show "take 7 out ! j = [0x2a, 0x04, cbit, cbit, en_mode en, fst (en_speed en), snd (en_speed en)] ! j"
        using head [of j] by (auto simp: less_Suc_eq numeral_eq_Suc base_def)
    qed (simp add: lo)
    have foot: "take 5 (drop 55 out) = [if is_backward p then 2 else 0,
        word_of_nat (length (en_colors en)), en_variant en, 8, 3]"
    proof (rule nth_equalityI)
      fix j assume "j < length (take 5 (drop 55 out))"
      then have "j < 5" by simp
      then show "take 5 (drop 55 out) ! j = [if is_backward p then 2 else 0,
          word_of_nat (length (en_colors en)), en_variant en, 8, 3] ! j"
        using lo lm by (auto simp: less_Suc_eq numeral_eq_Suc out_def)
    qed (simp add: lo)
    have cnt: "out ! 56 = word_of_nat (length (en_colors en))" by (simp add: out_def lm)
    have n: "unat (word_of_nat (length (en_colors en)) :: u8) = length (en_colors en)"
      using True by (simp add: unat_of_nat)
    have cols: "command_colors out = en_colors en"
    proof (rule nth_equalityI)
      show "length (command_colors out) = length (en_colors en)"
        by (simp add: command_colors_def wire_offsets cnt n)
      fix k assume "k < length (command_colors out)"
      then have k: "k < length (en_colors en)" by (simp add: command_colors_def wire_offsets cnt n)
      then have "7 + k * 3 + 2 < 55" using True by simp
      then have "out ! (7 + k * 3 + i) = mid ! (7 + k * 3 + i)" if "i \<le> 2" for i
        using that by (simp add: out_def)
      from this [of 0] this [of 1] this [of 2]
      have "out ! (7 + k * 3) = rgb_g (en_colors en ! k)" "out ! (7 + k * 3 + 1) = rgb_r (en_colors en ! k)"
        "out ! (7 + k * 3 + 2) = rgb_b (en_colors en ! k)"
        using put_colors_inside [of k "en_colors en" 0 base] k True by (simp_all add: mid_def base_def)
      then show "command_colors out ! k = en_colors en ! k"
        using k by (simp add: command_colors_def wire_offsets cnt n)
    qed
    show ?thesis
      using True lo t7 cols foot unfolding cc sum.case en_def [symmetric] by simp
  qed
qed

section \<open>The topology answer\<close>

lemma length_put_slots [simp]: "length (put_slots off ids r) = length r"
  by (induction off ids r rule: put_slots.induct) simp_all

lemma put_slots_nth:
  "off + length ids \<le> length r \<Longrightarrow> put_slots off ids r ! j =
    (if off \<le> j \<and> j < off + length ids then ids ! (j - off) else r ! j)"
proof (induction off ids r rule: put_slots.induct)
  case (2 off i ids r)
  then show ?case
    by (cases "j = off") (auto simp: nth_Cons' Suc_diff_le not_le less_Suc_eq_le)
qed auto

lemma length_put_channels [simp]: "length (put_channels c cs r) = length r"
  by (induction c cs r rule: put_channels.induct) simp_all

lemma put_channels_nth:
  assumes "length r = 64" "c + length cs \<le> 3" "list_all (\<lambda>ids. length ids \<le> 6) cs"
  shows "put_channels c cs r ! j =
    (if 15 + c * 6 \<le> j \<and> (j - 15) div 6 < c + length cs \<and> (j - 15) mod 6 < length (cs ! ((j - 15) div 6 - c))
     then cs ! ((j - 15) div 6 - c) ! ((j - 15) mod 6) else r ! j)"
  using assms
proof (induction c cs r rule: put_channels.induct)
  case (1 c r)
  then show ?case by auto
next
  case (2 c ids cs r)
  let ?r = "put_slots (15 + c * 6) ids r"
  have take6: "take 6 ids = ids" using "2.prems" by simp
  have ih: "put_channels (Suc c) cs ?r ! j =
    (if 15 + Suc c * 6 \<le> j \<and> (j - 15) div 6 < Suc c + length cs \<and> (j - 15) mod 6 < length (cs ! ((j - 15) div 6 - Suc c))
     then cs ! ((j - 15) div 6 - Suc c) ! ((j - 15) mod 6) else ?r ! j)"
    using "2.IH" "2.prems" by (simp add: ACCESSORY_OFFSET_def MAX_ACCESSORIES_PER_CHANNEL_def take6)
  have room: "15 + c * 6 + length ids \<le> length r" using "2.prems" by simp
  have sl: "?r ! j = (if 15 + c * 6 \<le> j \<and> j < 15 + c * 6 + length ids then ids ! (j - (15 + c * 6)) else r ! j)"
    using room by (rule put_slots_nth)
  consider (below) "j < 15 + c * 6" | (here) "15 + c * 6 \<le> j" "j < 15 + Suc c * 6" | (above) "15 + Suc c * 6 \<le> j"
    by linarith
  then show ?case
  proof cases
    case below
    then show ?thesis using sl ih by (simp add: ACCESSORY_OFFSET_def MAX_ACCESSORIES_PER_CHANNEL_def take6)
  next
    case here
    define k where "k = j - (15 + c * 6)"
    have k: "j = 15 + c * 6 + k" "k < 6" using here by (simp_all add: k_def)
    then have "(j - 15) div 6 = c" "(j - 15) mod 6 = k" by simp_all
    then show ?thesis using sl ih k
      by (simp add: ACCESSORY_OFFSET_def MAX_ACCESSORIES_PER_CHANNEL_def take6)
  next
    case above
    have lid: "length ids \<le> 6" using "2.prems"(3) by simp
    have d: "Suc c \<le> (j - 15) div 6" using above by (simp add: less_eq_div_iff_mult_less_eq)
    then have "(ids # cs) ! ((j - 15) div 6 - c) = cs ! ((j - 15) div 6 - Suc c)"
      by (simp add: nth_Cons' )
    moreover have "?r ! j = r ! j" using sl above lid by simp
    ultimately show ?thesis using ih above d
      by (simp add: ACCESSORY_OFFSET_def MAX_ACCESSORIES_PER_CHANNEL_def take6)
  qed
qed

lemma accessories_from_ids:
  assumes "\<And>k. k < length ids \<Longrightarrow> off + k < length report \<and> report ! (off + k) = ids ! k"
    "0 \<notin> set ids" "length ids \<le> n"
    "length ids < n \<Longrightarrow> off + length ids < length report \<Longrightarrow> report ! (off + length ids) = 0"
  shows "map acc_id (accessories_from report off n) = ids"
  using assms
proof (induction ids arbitrary: off n)
  case Nil
  then show ?case by (cases n) auto
next
  case (Cons i ids)
  obtain m where m: "n = Suc m" using Cons.prems(3) by (cases n) auto
  have h: "off < length report" "report ! off = i" "i \<noteq> 0"
    using Cons.prems(1) [of 0] Cons.prems(2) by auto
  have "map acc_id (accessories_from report (Suc off) m) = ids"
  proof (rule Cons.IH)
    fix k assume "k < length ids"
    then show "Suc off + k < length report \<and> report ! (Suc off + k) = ids ! k"
      using Cons.prems(1) [of "Suc k"] by simp
  qed (use Cons.prems m in auto)
  then show ?case using h by (simp add: m)
qed

text \<open>The topology the sources encode is the topology they decode: up to three channels of up to
  six accessories each, none numbered zero, come back as the same lists, on channels numbered from 1.\<close>

theorem topology_round_trip:
  assumes "length cs \<le> 3" "list_all (\<lambda>ids. length ids \<le> 6 \<and> 0 \<notin> set ids) cs"
  shows "map (map acc_id \<circ> ch_accessories) (channels_of (topology_answer cs)) = cs \<and>
    map ch_index (channels_of (topology_answer cs)) = map (\<lambda>c. word_of_nat (c + 1)) [0..<length cs]"
proof -
  define base where "base = empty_report[0 := 0x21, 1 := 0x03, 14 := word_of_nat (length cs)]"
  have t: "topology_answer cs = put_channels 0 cs base"
    by (simp add: topology_answer_def base_def LIGHTING_ANSWER_def CHANNEL_COUNT_OFFSET_def)
  have lb: "length base = 64" by (simp add: base_def)
  have six: "list_all (\<lambda>ids. length ids \<le> 6) cs" using assms(2) by (auto simp: list_all_iff)
  note nth = put_channels_nth [of base 0 cs, OF lb _ six, simplified, OF assms(1)]
  have pad: "base ! j = 0" if "15 \<le> j" "j < 64" for j
    using that by (simp add: base_def empty_report_def REPORT_BYTES_def)
  have cnt: "unat (topology_answer cs ! 14) = length cs"
    using assms(1) by (simp add: t nth) (simp add: base_def unat_of_nat)
  have acc: "map acc_id (ch_accessories (channel_of (topology_answer cs) c)) = cs ! c" if c: "c < length cs" for c
  proof -
    have l6: "length (cs ! c) \<le> 6" "0 \<notin> set (cs ! c)"
      using assms(2) c by (auto simp: list_all_length)
    have at_slot: "topology_answer cs ! (15 + c * 6 + k) = (if k < length (cs ! c) then cs ! c ! k else 0)"
      if "k < 6" for k
    proof -
      have "(15 + c * 6 + k - 15) div 6 = c" "(15 + c * 6 + k - 15) mod 6 = k" using that by simp_all
      moreover have "15 + c * 6 + k < 64" using that c assms(1) by simp
      ultimately show ?thesis using c pad [of "15 + c * 6 + k"] by (simp add: t nth)
    qed
    have "15 + c * 6 + 6 \<le> 64" using c assms(1) by simp
    then have "map acc_id (accessories_from (topology_answer cs) (15 + c * 6) 6) = cs ! c"
      using l6 at_slot by (intro accessories_from_ids) (auto simp: t lb)
    then show ?thesis
      by (simp add: channel_of_def ACCESSORY_OFFSET_def MAX_ACCESSORIES_PER_CHANNEL_def)
  qed
  have ch: "channels_of (topology_answer cs) = map (channel_of (topology_answer cs)) [0..<length cs]"
    using assms(1) cnt by (simp add: channels_of_def CHANNEL_COUNT_OFFSET_def MAX_CHANNELS_def)
  have "map (map acc_id \<circ> ch_accessories) (channels_of (topology_answer cs)) = map (\<lambda>c. cs ! c) [0..<length cs]"
    unfolding ch by (auto simp: acc)
  then show ?thesis unfolding map_nth ch by (simp add: channel_of_def)
qed

theorem topology_round_trip_witness:
  "map (map acc_id \<circ> ch_accessories) (channels_of (topology_answer [[0x17, 0x13], [], [0x17]])) =
    [[0x17, 0x13], [], [0x17]]"
  using topology_round_trip [of "[[0x17, 0x13], [], [0x17]]"] by simp

section \<open>Sending a program\<close>

lemma channel_bit_cases:
  "channel_bit ch = (if ch = 1 then Some 1 else if ch = 2 then Some 2 else if ch = 3 then Some 4 else None)"
proof (cases "1 \<le> ch \<and> unat ch \<le> 3")
  case True
  then have "unat ch = 1 \<or> unat ch = 2 \<or> unat ch = 3" by (auto simp: word_le_nat_alt)
  then have "ch = 1 \<or> ch = 2 \<or> ch = 3" by (auto simp: word_unat_eq_iff)
  then show ?thesis by (auto simp: channel_bit_def MAX_CHANNELS_def)
next
  case False
  then show ?thesis by (auto simp: channel_bit_def MAX_CHANNELS_def)
qed

text \<open>A command the validation accepts for a controller of at most three channels always encodes:
  to 64 bytes addressed by the one bit of its channel, twice. No accepted command is refused later.\<close>

theorem validated_command_encodes:
  assumes "validate_command c n = Inr ()" "unat n \<le> 3"
  shows "\<exists>report. rgb_encode (lc_channel c) (lc_program c) = Inr report \<and> length report = 64 \<and>
    report ! 2 = report ! 3 \<and> unat (report ! 2) = 2 ^ (unat (lc_channel c) - 1)"
proof -
  have v: "1 \<le> unat (lc_channel c)" "unat (lc_channel c) \<le> 3"
    "validate_lighting_program (lc_program c) = Inr ()"
    using assms by (auto simp: validate_command_iff word_le_nat_alt)
  have "unat (lc_channel c) = 1 \<or> unat (lc_channel c) = 2 \<or> unat (lc_channel c) = 3" using v by auto
  then have "lc_channel c = 1 \<or> lc_channel c = 2 \<or> lc_channel c = 3" by (auto simp: word_unat_eq_iff)
  then obtain cbit where b: "channel_bit (lc_channel c) = Some cbit" "unat cbit = 2 ^ (unat (lc_channel c) - 1)"
    by (auto simp: channel_bit_cases)
  have len: "length (en_colors (encode_program (lc_program c))) \<le> 16"
    using v(3) by (auto simp: encode_program_def validate_lighting_program_iff Let_def
        split: lighting_program.splits lighting_effect.splits)
  obtain report where r: "color_command cbit (lc_program c) = Inr report"
    using len by (auto simp: color_command_def Let_def wire_offsets)
  have "length report = 64 \<and> report ! 2 = cbit \<and> report ! 3 = cbit"
    using r nth_header [of 2] nth_header [of 3] by (auto simp: color_command_def Let_def wire_offsets split: if_splits)
  then show ?thesis using b r by (auto simp: rgb_encode_def)
qed

theorem validated_command_encodes_witness:
  "\<exists>report. rgb_encode 2 (LightFixed (Rgb 255 0 0) (Brightness 100)) = Inr report \<and> length report = 64"
  using validated_command_encodes
    [of "\<lparr>lc_channel = 2, lc_program = LightFixed (Rgb 255 0 0) (Brightness 100)\<rparr>" 3]
  by (auto simp: validate_command_iff validate_lighting_program_iff)

lemma rgb_apply_trace:
  "case rgb_encode ch p of
     Inl e \<Rightarrow> rgb_apply env ch p w = (Inl e, w)
   | Inr report \<Rightarrow> (\<exists>ok. extends w [HidOut report ok] (snd (rgb_apply env ch p w)) \<and>
       is_ok (fst (rgb_apply env ch p w)) = ok \<and> (fst (rgb_apply env ch p w) = Inr report \<longleftrightarrow> ok))"
proof (cases "rgb_encode ch p")
  case (Inr report)
  then show ?thesis
    by (cases "he_write env (w_trace w) report")
      (auto simp: rgb_apply_def write_report_def Let_def intro: extends_push)
qed (simp add: rgb_apply_def)

end
