(* ===== verification/Lcd_Link.thy ===== *)
theory Lcd_Link
  imports Hid_Link
begin

text \<open>
  \<open>crates/hardware-linux/src/lcd.rs\<close>: the wire format of the Kraken's panel and the transfer of one
  frame over both halves of the transport. \<open>await_ack\<close> loops on the clock, which advances between two
  readings of it, so the loop is a total function: its measure is the time left to the deadline.
\<close>

definition PANEL_WIDTH :: u16 where "PANEL_WIDTH = 240"
definition PANEL_HEIGHT :: u16 where "PANEL_HEIGHT = 240"
definition PANEL_SHAPE :: lcd_panel_shape where "PANEL_SHAPE = Square"
definition PIXEL_FORMAT :: string where "PIXEL_FORMAT = ''RGB565 big-endian''"
definition FRAME_BYTES :: nat where "FRAME_BYTES = unat PANEL_WIDTH * unat PANEL_HEIGHT * 2"
definition BULK_ENDPOINT :: u8 where "BULK_ENDPOINT = 0x02"
definition BULK_INTERFACE :: u8 where "BULK_INTERFACE = 0"
definition SUPPORTED_FIRMWARE_MAJOR :: u8 where "SUPPORTED_FIRMWARE_MAJOR = 2"
definition LCD_VALIDATED_FIRMWARE :: "string list" where "LCD_VALIDATED_FIRMWARE = [''2.0.0'']"

definition lcd_is_validated_firmware :: "string \<Rightarrow> bool" where
  "lcd_is_validated_firmware f = (f \<in> set LCD_VALIDATED_FIRMWARE)"

definition candidate_panel :: lcd_panel where
  "candidate_panel = \<lparr>lp_width = PANEL_WIDTH, lp_height = PANEL_HEIGHT, lp_shape = PANEL_SHAPE,
    lp_pixel_format = PIXEL_FORMAT, lp_frame_bytes = word_of_nat FRAME_BYTES,
    lp_bulk_endpoint = BULK_ENDPOINT, lp_bulk_interface = BULK_INTERFACE\<rparr>"

datatype lcd_error =
    LcdHid hid_error
  | LcdBulk usbfs_error
  | FrameSize nat nat

definition lcd_error_display :: "lcd_error \<Rightarrow> string" where
  "lcd_error_display e = (case e of
      LcdHid h \<Rightarrow> hid_error_display h
    | LcdBulk u \<Rightarrow> usbfs_error_display u
    | FrameSize actual expected \<Rightarrow> ''the frame is '' @ show_nat actual @
        '' bytes, and this panel takes exactly '' @ show_nat expected)"

section \<open>The wire format\<close>

definition DISPLAY_INFO_REQUEST :: "u8 \<times> u8" where "DISPLAY_INFO_REQUEST = (0x30, 0x01)"
definition DISPLAY_INFO_ANSWER :: "u8 \<times> u8" where "DISPLAY_INFO_ANSWER = (0x31, 0x01)"
definition DISPLAY_CONTROL :: "u8 \<times> u8" where "DISPLAY_CONTROL = (0x30, 0x02)"
definition TRANSFER_START :: "u8 \<times> u8" where "TRANSFER_START = (0x36, 0x01)"
definition TRANSFER_END :: "u8 \<times> u8" where "TRANSFER_END = (0x36, 0x02)"
definition TRANSFER_ANSWER :: u8 where "TRANSFER_ANSWER = 0x37"
definition BRIGHTNESS_OFFSET :: nat where "BRIGHTNESS_OFFSET = 0x18"
definition ORIENTATION_OFFSET :: nat where "ORIENTATION_OFFSET = 0x1a"

definition BULK_MAGIC :: "u8 list" where
  "BULK_MAGIC = [0x12, 0xfa, 0x01, 0xe8, 0xab, 0xcd, 0xef, 0x98, 0x76, 0x54, 0x32, 0x10]"

definition BULK_KIND_STATIC :: u8 where "BULK_KIND_STATIC = 0x06"

definition display_control :: "brightness \<Rightarrow> orientation \<Rightarrow> u8 list" where
  "display_control b turn = empty_report[0 := fst DISPLAY_CONTROL, 1 := snd DISPLAY_CONTROL,
    2 := 0x01, 3 := percent b, 6 := 0x01, 7 := quarter_turns turn]"

definition transfer_start :: "u8 list" where
  "transfer_start = empty_report[0 := fst TRANSFER_START, 1 := snd TRANSFER_START, 2 := 0, 3 := 0x01,
    4 := BULK_KIND_STATIC]"

definition transfer_end :: "u8 list" where
  "transfer_end = query_report TRANSFER_END"

text \<open>\<open>u32::to_le_bytes\<close>.\<close>

definition to_le_bytes :: "u32 \<Rightarrow> u8 list" where
  "to_le_bytes n = map (\<lambda>i. ucast (drop_bit (8 * i) n)) [0..<4]"

definition bulk_header :: "u32 \<Rightarrow> u8 list" where
  "bulk_header payload_bytes = BULK_MAGIC @ [BULK_KIND_STATIC, 0, 0, 0] @ to_le_bytes payload_bytes"

definition display_settings :: "u8 list \<Rightarrow> lcd_display_settings option" where
  "display_settings report =
    (let b = report ! BRIGHTNESS_OFFSET; q = report ! ORIENTATION_OFFSET in
     if b \<le> 100 \<and> q \<le> 3
     then Some \<lparr>lds_brightness_percent = b, lds_quarter_turns = q\<rparr> else None)"

definition display_info_answer :: "u8 \<Rightarrow> u8 \<Rightarrow> u8 list" where
  "display_info_answer b q = empty_report[0 := fst DISPLAY_INFO_ANSWER, 1 := snd DISPLAY_INFO_ANSWER,
    BRIGHTNESS_OFFSET := b, ORIENTATION_OFFSET := q]"

section \<open>Asking the panel\<close>

record lcd_inventory =
  li_firmware :: "string option"
  li_display :: "lcd_display_settings option"

definition lcd_query :: "hid_env \<Rightarrow> world \<Rightarrow> (lcd_error + lcd_inventory) \<times> world" where
  "lcd_query env w =
    (let (r, w) = ask env [(FIRMWARE_REQUEST, FIRMWARE_ANSWER), (DISPLAY_INFO_REQUEST, DISPLAY_INFO_ANSWER)] w
     in (case r of
           Inl e \<Rightarrow> Inl (LcdHid e)
         | Inr got \<Rightarrow> Inr \<lparr>li_firmware = map_option firmware (got ! 0),
             li_display = Option.bind (got ! 1) display_settings\<rparr>, w))"

definition lcd_inspect :: "hid_env \<Rightarrow> string evidenced \<Rightarrow> world \<Rightarrow> lcd_topology \<times> world" where
  "lcd_inspect env bulk_node w =
    (let source = he_source env; (r, w) = lcd_query env w in
     (case r of
        Inl e \<Rightarrow> lcd_topology_silent source bulk_node (lcd_error_display e)
      | Inr inventory \<Rightarrow>
          \<lparr>lt_hid_node = Known source ''sysfs'', lt_bulk_node = bulk_node,
           lt_firmware = answered (li_firmware inventory) ''firmware'' (source @ '' report 0x11 0x01''),
           lt_panel = (case li_display inventory of
               Some _ \<Rightarrow> Known candidate_panel
                 (''candidate for 1e71:300e from liquidctl kraken3.py; this device reports no '' @
                  ''resolution of its own'')
             | None \<Rightarrow> Unknown ''the device did not answer the display report, so it may carry no panel''
                 (source @ '' report 0x31 0x01'')),
           lt_display = answered (li_display inventory) ''display settings''
             (source @ '' report 0x31 0x01'')\<rparr>, w))"

section \<open>Sending a frame\<close>

definition SEQUENCES_PER_FRAME :: u8 where "SEQUENCES_PER_FRAME = 2"
definition TRANSFER_ACK_TIMEOUT :: duration where "TRANSFER_ACK_TIMEOUT = from_millis 50"

text \<open>Both halves of the transport, and the clock the waits are measured on.\<close>

record lcd_link =
  ll_hid :: hid_env
  ll_bulk :: bulk_env
  ll_clock :: clock_env

record frame_report =
  fr_start :: "u8 list"
  fr_header :: "u8 list"
  fr_payload_bytes :: nat
  fr_end :: "u8 list"
  fr_sequences :: u8
  fr_acknowledged :: u8

definition link_source :: "lcd_link \<Rightarrow> string" where
  "link_source l = he_source (ll_hid l) @ '' and '' @ be_source (ll_bulk l)"

definition link_topology :: "lcd_link \<Rightarrow> world \<Rightarrow> lcd_topology \<times> world" where
  "link_topology l w = lcd_inspect (ll_hid l) (Known (be_source (ll_bulk l)) ''usbfs'') w"

definition set_display :: "lcd_link \<Rightarrow> brightness \<Rightarrow> world \<Rightarrow> (lcd_error + u8 list) \<times> world" where
  "set_display l b w =
    (let report = display_control b Deg0;
         (r, w) = write_report (ll_hid l) report w
     in (case r of Inl e \<Rightarrow> Inl (LcdHid e) | Inr _ \<Rightarrow> Inr report, w))"

lemma instant_now_advances: "w_now w < w_now (snd (instant_now c w))"
  "w_now (snd (instant_now c w)) = fst (instant_now c w)"
  by (simp_all add: instant_now_def Let_def)

lemma read_report_now [simp]: "w_now (snd (read_report h t w)) = w_now w"
  by (simp add: read_report_def Let_def)

function await_until :: "lcd_link \<Rightarrow> instant \<Rightarrow> u8 \<times> u8 \<Rightarrow> world \<Rightarrow> bool \<times> world" where
  "await_until l deadline command w =
    (let (now, w) = instant_now (ll_clock l) w in
     if deadline \<le> now then (False, w)
     else (case read_report (ll_hid l) (deadline - now) w of
         (Inr (Some report), w) \<Rightarrow>
           if report ! 0 = TRANSFER_ANSWER \<and> report ! 1 = snd command then (True, w)
           else await_until l deadline command w
       | (_, w) \<Rightarrow> (False, w)))"
  by pat_completeness auto
termination
proof (relation "measure (\<lambda>(l, deadline, command, w). deadline - w_now w)")
  fix l :: lcd_link and deadline :: instant and command :: "u8 \<times> u8"
    and w w1 w2 :: world and x now r y report
  assume i: "x = instant_now (ll_clock l) w" "(now, w1) = x" "\<not> deadline \<le> now"
    and r: "(r, w2) = read_report (ll_hid l) (deadline - now) w1"
  have e: "w1 = snd (instant_now (ll_clock l) w)" "now = fst (instant_now (ll_clock l) w)"
    using i(1,2) by (metis snd_conv, metis fst_conv)
  have "w_now w < w_now w1" "w_now w1 = now"
    unfolding e by (rule instant_now_advances)+
  moreover have "w_now w2 = w_now w1"
    using r read_report_now [of "ll_hid l" "deadline - now" w1] by (metis snd_conv)
  ultimately show "((l, deadline, command, w2), l, deadline, command, w)
      \<in> measure (\<lambda>(l, deadline, command, w). deadline - w_now w)"
    using i(3) by simp
qed simp

declare await_until.simps [simp del]

definition await_ack :: "lcd_link \<Rightarrow> u8 \<times> u8 \<Rightarrow> world \<Rightarrow> bool \<times> world" where
  "await_ack l command w =
    (let (now, w) = instant_now (ll_clock l) w in await_until l (now + TRANSFER_ACK_TIMEOUT) command w)"

text \<open>One sequence of the transfer, and the loop over the sequences with the acknowledgements so far.\<close>

definition hid_step :: "lcd_link \<Rightarrow> u8 list \<Rightarrow> world \<Rightarrow> (lcd_error + unit) \<times> world" where
  "hid_step l report w = (let (r, w) = write_report (ll_hid l) report w in (map_err LcdHid r, w))"

definition bulk_step :: "lcd_link \<Rightarrow> u8 list \<Rightarrow> world \<Rightarrow> (lcd_error + unit) \<times> world" where
  "bulk_step l bytes w = (let (r, w) = usb_write_bulk (ll_bulk l) BULK_ENDPOINT bytes w in (map_err LcdBulk r, w))"

fun send_sequences :: "lcd_link \<Rightarrow> u8 list \<Rightarrow> nat \<Rightarrow> u8 \<Rightarrow> world \<Rightarrow> (lcd_error + u8) \<times> world" where
  "send_sequences l payload 0 acknowledged w = (Inr acknowledged, w)"
| "send_sequences l payload (Suc n) acknowledged w =
    or_return (hid_step l transfer_start w) (\<lambda>_ w.
      (let (a, w) = await_ack l TRANSFER_START w in
       or_return (bulk_step l (bulk_header (word_of_nat (length payload))) w) (\<lambda>_ w.
       or_return (bulk_step l payload w) (\<lambda>_ w.
       or_return (hid_step l transfer_end w) (\<lambda>_ w.
         (let (b, w) = await_ack l TRANSFER_END w in
          send_sequences l payload n
            (acknowledged + (if a then 1 else 0) + (if b then 1 else 0)) w))))))"

definition send_frame :: "lcd_link \<Rightarrow> u8 list \<Rightarrow> world \<Rightarrow> (lcd_error + frame_report) \<times> world" where
  "send_frame l payload w =
    (if length payload \<noteq> FRAME_BYTES then (Inl (FrameSize (length payload) FRAME_BYTES), w)
     else (let (r, w) = send_sequences l payload (unat SEQUENCES_PER_FRAME) 0 w in
       (case r of
          Inl e \<Rightarrow> Inl e
        | Inr acknowledged \<Rightarrow> Inr \<lparr>fr_start = transfer_start,
            fr_header = bulk_header (word_of_nat (length payload)), fr_payload_bytes = length payload,
            fr_end = transfer_end, fr_sequences = SEQUENCES_PER_FRAME,
            fr_acknowledged = acknowledged\<rparr>, w)))"

section \<open>What goes on the wire\<close>

datatype wire_item = WireHid "u8 list" | WireBulk u8 "u8 list"

fun wire :: "io_event list \<Rightarrow> wire_item list" where
  "wire [] = []"
| "wire (HidOut r ok # es) = WireHid r # wire es"
| "wire (BulkOut ep b ok # es) = WireBulk ep b # wire es"
| "wire (_ # es) = wire es"

lemma wire_append [simp]: "wire (es @ fs) = wire es @ wire fs"
  by (induction es rule: wire.induct) simp_all

text \<open>The step put exactly a prefix of \<open>plan\<close> on the wire, and all of it when it succeeded.\<close>

definition sends :: "world \<Rightarrow> wire_item list \<Rightarrow> bool \<Rightarrow> world \<Rightarrow> bool" where
  "sends w plan ok w' = (\<exists>es n. extends w es w' \<and> wire es = take n plan \<and> (ok \<longrightarrow> n = length plan))"

lemma sends_seq: "\<lbrakk>sends w p True w'; sends w' q ok w''\<rbrakk> \<Longrightarrow> sends w (p @ q) ok w''"
  unfolding sends_def
proof (elim exE conjE)
  fix es fs n m
  assume "extends w es w'" "wire es = take n p" "True \<longrightarrow> n = length p"
    "extends w' fs w''" "wire fs = take m q" "ok \<longrightarrow> m = length q"
  then show "\<exists>es n. extends w es w'' \<and> wire es = take n (p @ q) \<and> (ok \<longrightarrow> n = length (p @ q))"
    by (intro exI [of _ "es @ fs"] exI [of _ "length p + m"]) (auto intro: extends_trans)
qed

lemma sends_fail: "sends w p False w' \<Longrightarrow> sends w (p @ q) False w'"
  unfolding sends_def
proof (elim exE conjE)
  fix es n
  assume "extends w es w'" "wire es = take n p"
  then show "\<exists>es n. extends w es w' \<and> wire es = take n (p @ q) \<and> (False \<longrightarrow> n = length (p @ q))"
    by (intro exI [of _ es] exI [of _ "min n (length p)"]) (auto simp: min_def)
qed

interpretation wire_plan: write_plan sends
  by unfold_locales (fact sends_seq, fact sends_fail)

lemma sends_hid_step: "sends w [WireHid r] (is_ok (fst (hid_step l r w))) (snd (hid_step l r w))"
  unfolding sends_def hid_step_def write_report_def
  by (intro exI [of _ "[HidOut r (is_ok (he_write (ll_hid l) (w_trace w) r))]"] exI [of _ 1])
    (simp add: Let_def)

lemma sends_bulk_step: "sends w [WireBulk BULK_ENDPOINT b] (is_ok (fst (bulk_step l b w))) (snd (bulk_step l b w))"
proof (cases "check_transfer BULK_ENDPOINT b")
  case (Inl e)
  then show ?thesis unfolding sends_def
    by (intro exI [of _ "[]"] exI [of _ 0]) (simp add: bulk_step_def usb_write_bulk_def)
next
  case (Inr u)
  then show ?thesis unfolding sends_def
    by (intro exI [of _ "[BulkOut BULK_ENDPOINT b (is_ok (be_write (ll_bulk l) (w_trace w) BULK_ENDPOINT b))]"]
        exI [of _ 1]) (simp add: bulk_step_def usb_write_bulk_def write_bulk_def Let_def)
qed

lemma sends_instant: "sends w [] True (snd (instant_now c w))"
  unfolding sends_def
  by (intro exI [of _ "[MonoRead]"] exI [of _ 0]) (simp add: instant_now_def Let_def extends_def)

lemma sends_read: "sends w [] True (snd (read_report h t w))"
  unfolding sends_def
  by (intro exI [of _ "[HidIn (is_ok (he_read h (w_trace w) t))]"] exI [of _ 0])
    (simp add: read_report_def Let_def)

lemma sends_await_until: "sends w [] True (snd (await_until l deadline command w))"
proof (induction w rule: measure_induct_rule [where f = "\<lambda>w. deadline - w_now w"])
  case (less w)
  let ?i = "instant_now (ll_clock l) w"
  let ?r = "read_report (ll_hid l) (deadline - fst ?i) (snd ?i)"
  have a: "sends w [] True (snd ?r)"
    using sends_seq [OF sends_instant sends_read] by simp
  have rec: "sends w [] True (snd (await_until l deadline command (snd ?r)))" if "\<not> deadline \<le> fst ?i"
  proof -
    have "deadline - w_now (snd ?r) < deadline - w_now w"
      using that instant_now_advances [where w = w and c = "ll_clock l"] by simp
    from less.IH [OF this] show ?thesis using sends_seq [OF a] by fastforce
  qed
  show ?case
    using a rec sends_instant
    by (subst await_until.simps) (auto simp: split_beta Let_def split: sum.split option.split)
qed

lemma sends_await_ack: "sends w [] True (snd (await_ack l command w))"
  using sends_seq [OF sends_instant sends_await_until] by (simp add: await_ack_def split_beta)

definition one_sequence :: "u8 list \<Rightarrow> wire_item list" where
  "one_sequence payload = [WireHid transfer_start,
    WireBulk BULK_ENDPOINT (bulk_header (word_of_nat (length payload))),
    WireBulk BULK_ENDPOINT payload, WireHid transfer_end]"

lemma sends_sequences:
  "sends w (concat (replicate n (one_sequence payload))) (is_ok (fst (send_sequences l payload n k w)))
     (snd (send_sequences l payload n k w))"
proof (induction n arbitrary: k w)
  case 0
  then show ?case by (auto simp: sends_def intro: exI [of _ "[]"])
next
  case (Suc n)
  have "sends w ([WireHid transfer_start] @
      [WireBulk BULK_ENDPOINT (bulk_header (word_of_nat (length payload)))] @
      [WireBulk BULK_ENDPOINT payload] @ [WireHid transfer_end] @ concat (replicate n (one_sequence payload)))
    (is_ok (fst (send_sequences l payload (Suc n) k w))) (snd (send_sequences l payload (Suc n) k w))"
    unfolding send_sequences.simps split_beta Let_def
    by (rule wire_plan.plan_bind, rule sends_hid_step, rule wire_plan.plan_quiet [OF sends_await_ack],
        rule wire_plan.plan_bind, rule sends_bulk_step, rule wire_plan.plan_bind, rule sends_bulk_step,
        rule wire_plan.plan_bind, rule sends_hid_step, rule wire_plan.plan_quiet [OF sends_await_ack],
        rule Suc.IH)
  then show ?case by (simp add: one_sequence_def)
qed

section \<open>Properties\<close>


text \<open>The header ahead of the pixels is 20 bytes: the magic, the kind, three zeros, and the length
  of the payload in little-endian order, which reads back as the length.\<close>

theorem bulk_header_layout:
  "length (bulk_header n) = 20 \<and> take 12 (bulk_header n) = BULK_MAGIC \<and>
   take 4 (drop 12 (bulk_header n)) = [0x06, 0, 0, 0] \<and>
   horner_sum unat 256 (drop 16 (bulk_header n)) = unat n"
proof -
  have b: "unat (ucast (drop_bit (8 * i) n) :: u8) = unat n div 256 ^ i mod 256" for i
  proof -
    have "unat (drop_bit (8 * i) n) = unat n div 2 ^ (8 * i)"
      using unat_bound [of n]
      by (subst unsigned_drop_bit_eq) (simp add: drop_bit_eq_div take_bit_nat_eq_self)
    also have "(2 :: nat) ^ (8 * i) = 256 ^ i" by (simp add: power_mult)
    finally show ?thesis by (simp only: unsigned_ucast_eq take_bit_eq_mod) simp
  qed
  define q1 where "q1 = unat n div 256"
  define q2 where "q2 = q1 div 256"
  define q3 where "q3 = q2 div 256"
  have q: "unat n div 256 ^ 1 = q1" "unat n div 256 ^ 2 = q2" "unat n div 256 ^ 3 = q3"
    by (simp_all add: q1_def q2_def q3_def div_mult2_eq [symmetric])
  have "unat n < 2 ^ 32" using unat_bound [of n] by simp
  then have q3: "q3 mod 256 = q3"
    by (simp add: q1_def q2_def q3_def div_mult2_eq [symmetric] less_mult_imp_div_less)
  have "unat n mod 256 + 256 * (q1 mod 256 + 256 * (q2 mod 256 + 256 * (q3 mod 256))) = unat n"
    unfolding q3 unfolding q3_def unfolding q2_def unfolding q1_def by (simp only: mod_mult_div_eq)
  moreover have "to_le_bytes n = map (\<lambda>i. ucast (drop_bit (8 * i) n)) [0, 1, 2, 3]"
    by (simp add: to_le_bytes_def upt_rec)
  then have "map unat (to_le_bytes n) = [unat n mod 256, q1 mod 256, q2 mod 256, q3 mod 256]"
    using b [of 0] b [of 1, unfolded q] b [of 2, unfolded q] b [of 3, unfolded q] by simp
  moreover have "horner_sum unat 256 xs = horner_sum id 256 (map unat xs)" for xs :: "u8 list"
    by (induction xs) simp_all
  moreover have "length (to_le_bytes n) = 4" by (simp add: to_le_bytes_def)
  ultimately show ?thesis
    by (simp add: bulk_header_def BULK_MAGIC_def BULK_KIND_STATIC_def)
qed

text \<open>The display answer the sources encode decodes to the same brightness and turn when they are
  in range, and to nothing when either is not.\<close>

theorem display_answer_round_trip:
  "display_settings (display_info_answer b q) =
    (if unat b \<le> 100 \<and> unat q \<le> 3 then Some \<lparr>lds_brightness_percent = b, lds_quarter_turns = q\<rparr> else None)"
  by (simp add: display_settings_def display_info_answer_def BRIGHTNESS_OFFSET_def ORIENTATION_OFFSET_def
      word_le_nat_alt Let_def)

end
