(* ===== verification/Gates.thy ===== *)
theory Gates
  imports Rgb_Link Lcd_Link
begin

text \<open>
  \<open>crates/hardware-linux/src/gates.rs\<close>: what a device answered, resolved into the capabilities a write
  needs. Each ladder goes from the cheapest evidence to the strongest and ends at the list of firmware
  revisions the product has driven.
\<close>

definition replace_capabilities :: "device_record \<Rightarrow> capability_id list \<Rightarrow> capability list \<Rightarrow> device_record" where
  "replace_capabilities d replaced fresh =
    d\<lparr>dr_capabilities := filter (\<lambda>c. cap_id c \<notin> set replaced) (dr_capabilities d) @ fresh\<rparr>"

definition firmware_gate :: "string evidenced \<Rightarrow> (string \<Rightarrow> bool) \<Rightarrow> string \<Rightarrow> capability_state option" where
  "firmware_gate fw is_validated subject = (case ev_value fw of
      None \<Rightarrow> Some (Unvalidated (''The '' @ subject @ '' did not report a firmware revision, so its command set '' @
        ''cannot be matched against a validated one.''))
    | Some f \<Rightarrow> if is_validated f then None
        else Some (Unvalidated (''Firmware '' @ f @ '' is not validated for this operation.'')))"

definition or_reason :: "string option \<Rightarrow> string \<Rightarrow> string" where
  "or_reason r otherwise = (case r of Some s \<Rightarrow> s | None \<Rightarrow> otherwise)"

section \<open>The panel\<close>

definition lcd_state :: "lcd_topology option \<Rightarrow> capability_state" where
  "lcd_state topology = (case topology of
      None \<Rightarrow> Unvalidated ''The panel transport is not recorded yet.''
    | Some t \<Rightarrow> (case ev_value (lt_hid_node t) of
        None \<Rightarrow> Unavailable (or_reason (ev_reason (lt_hid_node t)) ''The device exposes no usable node.'')
      | Some node \<Rightarrow>
          if \<not> lcd_answered t
          then Unvalidated (''The panel did not answer, so this unit may carry no display. '' @
            or_reason (ev_reason (lt_display t)) ''No reason was recorded.'')
          else if (case ev_value (lt_firmware t) of
              Some f \<Rightarrow> firmware_major f \<noteq> Some SUPPORTED_FIRMWARE_MAJOR | None \<Rightarrow> False)
          then Unvalidated (''Firmware '' @ the (ev_value (lt_firmware t)) @ '' is not the '' @
            show_nat (unat SUPPORTED_FIRMWARE_MAJOR) @ ''.x generation this transfer sequence '' @
            ''was written for.'')
          else (case firmware_gate (lt_firmware t) lcd_is_validated_firmware ''panel'' of
              Some refusal \<Rightarrow> refusal
            | None \<Rightarrow> Available True node)))"

definition lcd_capabilities :: "lcd_topology option \<Rightarrow> capability list" where
  "lcd_capabilities topology =
    (let control = lcd_state topology;
         frame = (case (control, topology) of
             (Available _ _, Some t) \<Rightarrow>
               if \<not> ev_is_known (lt_bulk_node t)
               then Unavailable (or_reason (ev_reason (lt_bulk_node t)) ''The bulk interface could not be claimed.'')
               else control
           | _ \<Rightarrow> control)
     in [\<lparr>cap_id = LcdFrame, cap_state = frame\<rparr>, \<lparr>cap_id = LcdDisplayControl, cap_state = control\<rparr>])"

text \<open>The first device with the identifier, replaced in place.\<close>

fun update_device :: "device_id \<Rightarrow> (device_record \<Rightarrow> device_record) \<Rightarrow> device_record list \<Rightarrow> device_record list" where
  "update_device i f [] = []"
| "update_device i f (d # ds) = (if device_id_of d = i then f d # ds else d # update_device i f ds)"

definition attach_lcd_topology :: "capability_record \<Rightarrow> lcd_topology \<Rightarrow> capability_record" where
  "attach_lcd_topology r t = r\<lparr>cr_devices := update_device KRAKEN_BASE
    (\<lambda>d. (replace_capabilities d [LcdFrame, LcdDisplayControl] (lcd_capabilities (Some t)))\<lparr>dr_lcd := Some t\<rparr>)
    (cr_devices r)\<rparr>"

section \<open>The RGB controller\<close>

definition rgb_state :: "rgb_topology option \<Rightarrow> capability_state" where
  "rgb_state topology = (case topology of
      None \<Rightarrow> Unvalidated ''The channel topology and packet format are not recorded yet.''
    | Some t \<Rightarrow> (case ev_value (rt_node t) of
        None \<Rightarrow> Unavailable (or_reason (ev_reason (rt_node t)) ''The controller exposes no usable node.'')
      | Some node \<Rightarrow> (case ev_reason (rt_channels t) of
          Some reason \<Rightarrow> Unvalidated (''The channel topology is not readable. '' @ reason)
        | None \<Rightarrow>
            if (case channel_count t of Some n \<Rightarrow> n | None \<Rightarrow> 0) = 0
            then Unvalidated ''The controller reported zero lighting channels.''
            else (case firmware_gate (rt_firmware t) rgb_is_validated_firmware ''controller'' of
                Some refusal \<Rightarrow> refusal
              | None \<Rightarrow> Available True node))))"

definition rgb_capabilities :: "rgb_topology option \<Rightarrow> capability list" where
  "rgb_capabilities topology =
    (let state = rgb_state topology in
     map (\<lambda>i. \<lparr>cap_id = i, cap_state = state\<rparr>) [RgbFixedColor, RgbEffects])"

definition attach_rgb_topology :: "capability_record \<Rightarrow> rgb_topology \<Rightarrow> capability_record" where
  "attach_rgb_topology r t = r\<lparr>cr_devices := update_device RGB_CONTROLLER
    (\<lambda>d. (replace_capabilities d [RgbFixedColor, RgbEffects] (rgb_capabilities (Some t)))\<lparr>dr_rgb := Some t\<rparr>)
    (cr_devices r)\<rparr>"

section \<open>When a gate opens\<close>

lemma firmware_gate_open: "firmware_gate fw ok s = None \<longleftrightarrow> (\<exists>f src. fw = Known f src \<and> ok f)"
  by (cases fw) (auto simp: firmware_gate_def)

lemma firmware_gate_shut: "firmware_gate fw ok s = Some st \<Longrightarrow> \<not> is_writable st"
  by (cases fw) (auto simp: firmware_gate_def is_writable_def split: if_splits)

lemma record_device_update:
  "find (\<lambda>d. device_id_of d = i) (update_device j f ds) =
    (if i = j then map_option f (find (\<lambda>d. device_id_of d = i) ds) else find (\<lambda>d. device_id_of d = i) ds)"
  if "\<And>d. device_id_of (f d) = device_id_of d"
  using that by (induction ds) auto

lemma find_filter_not: "find P (filter Q xs @ ys) = find P ys" if "\<And>x. P x \<Longrightarrow> \<not> Q x"
  using that by (induction xs) auto

lemma find_filter_keep: "find P (filter Q xs @ ys) = find P xs"
  if "\<And>x. P x \<Longrightarrow> Q x" "\<And>y. y \<in> set ys \<Longrightarrow> \<not> P y"
  using that by (induction xs) (auto simp: find_None_iff)

lemma capability_of_replaced:
  "capability_of (replace_capabilities d ids fresh) i =
    (if i \<in> set ids then find (\<lambda>c. cap_id c = i) fresh else capability_of d i)"
  if "cap_id ` set fresh \<subseteq> set ids"
proof (cases "i \<in> set ids")
  case True
  then have "find (\<lambda>c. cap_id c = i) (filter (\<lambda>c. cap_id c \<notin> set ids) (dr_capabilities d) @ fresh) =
      find (\<lambda>c. cap_id c = i) fresh"
    by (intro find_filter_not) simp
  then show ?thesis using True by (simp add: capability_of_def replace_capabilities_def)
next
  case False
  moreover have "\<And>c. c \<in> set fresh \<Longrightarrow> cap_id c \<noteq> i" using that False by auto
  ultimately have "find (\<lambda>c. cap_id c = i) (filter (\<lambda>c. cap_id c \<notin> set ids) (dr_capabilities d) @ fresh) =
      find (\<lambda>c. cap_id c = i) (dr_capabilities d)"
    by (intro find_filter_keep) auto
  then show ?thesis using False by (simp add: capability_of_def replace_capabilities_def)
qed

lemma lcd_state_open:
  "is_writable (lcd_state (Some t)) \<longleftrightarrow>
    ev_is_known (lt_hid_node t) \<and> lcd_answered t \<and>
    (case ev_value (lt_firmware t) of None \<Rightarrow> False
     | Some f \<Rightarrow> firmware_major f = Some SUPPORTED_FIRMWARE_MAJOR \<and> lcd_is_validated_firmware f)"
proof -
  have w: "is_writable (Available True n)" "\<not> is_writable (Unvalidated r)" "\<not> is_writable (Unavailable r)" for n r
    by (simp_all add: is_writable_def)
  show ?thesis
    by (cases "lt_hid_node t"; cases "lt_firmware t")
      (auto simp: lcd_state_def w firmware_gate_def)
qed

lemma rgb_state_open:
  "is_writable (rgb_state (Some t)) \<longleftrightarrow>
    ev_is_known (rt_node t) \<and> (case channel_count t of None \<Rightarrow> False | Some n \<Rightarrow> n \<noteq> 0) \<and>
    (case ev_value (rt_firmware t) of None \<Rightarrow> False | Some f \<Rightarrow> rgb_is_validated_firmware f)"
proof -
  have w: "is_writable (Available True n)" "\<not> is_writable (Unvalidated r)" "\<not> is_writable (Unavailable r)" for n r
    by (simp_all add: is_writable_def)
  show ?thesis
    by (cases "rt_node t"; cases "rt_firmware t"; cases "rt_channels t")
      (auto simp: rgb_state_def w firmware_gate_def channel_count_def split: option.splits)
qed

text \<open>When a light or the panel may be written. After the answer of a controller is folded into the
  record, its lighting capabilities are writable exactly when the node is known, the controller
  listed at least one and at most 255 channels, and its firmware is one the product has driven; the
  two panel capabilities likewise need an answering panel of the supported firmware generation and a
  validated revision, and the frame also the claimed bulk interface.\<close>

theorem attached_topology_gates:
  "(case record_device (attach_rgb_topology r t) RGB_CONTROLLER of
      None \<Rightarrow> record_device r RGB_CONTROLLER = None
    | Some d \<Rightarrow> can_write d RgbFixedColor = can_write d RgbEffects \<and>
        can_write d RgbFixedColor = (is_supported d \<and> ev_is_known (rt_node t) \<and>
          (case channel_count t of None \<Rightarrow> False | Some n \<Rightarrow> n \<noteq> 0) \<and>
          (case ev_value (rt_firmware t) of None \<Rightarrow> False | Some f \<Rightarrow> rgb_is_validated_firmware f))) \<and>
   (case record_device (attach_lcd_topology r lt) KRAKEN_BASE of
      None \<Rightarrow> record_device r KRAKEN_BASE = None
    | Some d \<Rightarrow>
        can_write d LcdDisplayControl = (is_supported d \<and> ev_is_known (lt_hid_node lt) \<and> lcd_answered lt \<and>
          (case ev_value (lt_firmware lt) of None \<Rightarrow> False
           | Some f \<Rightarrow> firmware_major f = Some SUPPORTED_FIRMWARE_MAJOR \<and> lcd_is_validated_firmware f)) \<and>
        can_write d LcdFrame = (can_write d LcdDisplayControl \<and> ev_is_known (lt_bulk_node lt)))"
proof -
  let ?rgb = "\<lambda>d. (replace_capabilities d [RgbFixedColor, RgbEffects] (rgb_capabilities (Some t)))\<lparr>dr_rgb := Some t\<rparr>"
  let ?lcd = "\<lambda>d. (replace_capabilities d [LcdFrame, LcdDisplayControl] (lcd_capabilities (Some lt)))\<lparr>dr_lcd := Some lt\<rparr>"
  have id: "device_id_of (?rgb d) = device_id_of d" "device_id_of (?lcd d) = device_id_of d" for d
    by (simp_all add: device_id_of_def replace_capabilities_def)
  have sup: "is_supported (?rgb d) = is_supported d" "is_supported (?lcd d) = is_supported d" for d
    by (simp_all add: is_supported_def replace_capabilities_def)
  have cap: "capability_of (d\<lparr>dr_rgb := a\<rparr>) i = capability_of d i"
    "capability_of (d\<lparr>dr_lcd := b\<rparr>) i = capability_of d i" for d a b i
    by (simp_all add: capability_of_def)
  have rc: "capability_of (?rgb d) i = (if i \<in> {RgbFixedColor, RgbEffects}
      then Some \<lparr>cap_id = i, cap_state = rgb_state (Some t)\<rparr> else capability_of d i)" for d i
    unfolding cap by (subst capability_of_replaced) (auto simp: rgb_capabilities_def Let_def)
  have lc: "capability_of (?lcd d) LcdFrame = Some (hd (lcd_capabilities (Some lt)))"
    "capability_of (?lcd d) LcdDisplayControl = Some \<lparr>cap_id = LcdDisplayControl, cap_state = lcd_state (Some lt)\<rparr>" for d
    unfolding cap by (subst capability_of_replaced; auto simp: lcd_capabilities_def Let_def)+
  have fr: "is_writable (cap_state (hd (lcd_capabilities (Some lt)))) =
      (is_writable (lcd_state (Some lt)) \<and> ev_is_known (lt_bulk_node lt))"
    by (cases "lcd_state (Some lt)") (auto simp: lcd_capabilities_def Let_def is_writable_def)
  show ?thesis
    by (auto simp: record_device_def attach_rgb_topology_def attach_lcd_topology_def
        record_device_update [OF id(1)] record_device_update [OF id(2)] can_write_def rc lc sup fr
        rgb_state_open lcd_state_open split: option.splits)
qed

end
