(* ===== verification/Probe.thy ===== *)
theory Probe
  imports Usb_Sysfs Gates
begin

text \<open>
  \<open>crates/hardware-linux/src/probe.rs\<close>: the capability record of a machine, from what sysfs publishes.
  A device outside the allowlist is listed as rejected and nothing of it is read beyond its
  identifiers. What the record lets a client write is exactly what the kernel said is writable;
  everything a device has to be asked for starts out refused.
\<close>

record probe_env =
  pe_attr :: attr_env
  pe_access :: access_env
  pe_clock :: clock_env
  pe_release :: string

definition device_path :: "capability_record \<Rightarrow> device_id \<Rightarrow> string option" where
  "device_path r i = (case record_device r i of
      None \<Rightarrow> None
    | Some d \<Rightarrow> if is_supported d then Some (usb_sysfs_path (dr_usb d)) else None)"

definition probe_hidraw_node :: "attr_env \<Rightarrow> capability_record \<Rightarrow> device_id \<Rightarrow> world \<Rightarrow>
    string option \<times> world" where
  "probe_hidraw_node env r i w = (case device_path r i of
      None \<Rightarrow> (None, w)
    | Some path \<Rightarrow> hidraw_node env path w)"

definition kernel_release :: "string \<Rightarrow> string evidenced" where
  "kernel_release release = (case to_str release of
      Some r \<Rightarrow> if r \<noteq> [] then Known r ''uname(2)''
        else Unknown ''kernel release is not readable'' ''uname(2)''
    | None \<Rightarrow> Unknown ''kernel release is not readable'' ''uname(2)'')"

section \<open>The capabilities of the cooler\<close>

definition reading_capability :: "hwmon_capabilities \<Rightarrow> capability_id \<Rightarrow> string \<Rightarrow> capability" where
  "reading_capability h i attribute = \<lparr>cap_id = i, cap_state =
    (case hwmon_attribute_named h attribute of
       Some a \<Rightarrow> if attr_readable a then Available False (attr_path a)
         else Unavailable (attr_path a @ '' is present but not readable.'')
     | None \<Rightarrow> Unavailable (attribute @ '' is absent from '' @ hw_path h @ ''.''))\<rparr>"

definition control_capability :: "hwmon_capabilities \<Rightarrow> capability_id \<Rightarrow> string \<Rightarrow> capability" where
  "control_capability h i attribute = \<lparr>cap_id = i, cap_state =
    (case hwmon_attribute_named h attribute of
       Some a \<Rightarrow> Available (attr_writable a) (attr_path a)
     | None \<Rightarrow> Unavailable (attribute @ '' is absent from '' @ hw_path h @ ''.''))\<rparr>"

definition curve_points_of :: "hwmon_capabilities \<Rightarrow> u8 \<Rightarrow> curve_channel option" where
  "curve_points_of h temp_index = find (\<lambda>c. cc_temp_index c = temp_index) (hw_curve_points h)"

definition curve_capability_of :: "hwmon_capabilities \<Rightarrow> capability_id \<Rightarrow> u8 \<Rightarrow> capability" where
  "curve_capability_of h i temp_index = \<lparr>cap_id = i, cap_state =
    (case curve_points_of h temp_index of
       Some c \<Rightarrow>
         if curve_is_complete c then Available (cc_writable c)
           (attribute_path h (''temp'' @ show_nat (unat temp_index) @ ''_auto_point*_pwm''))
         else Unavailable (''temp'' @ show_nat (unat temp_index) @ '' exposes '' @
           show_nat (unat (cc_point_count c)) @ '' curve points, not the 40 the ABI requires.'')
     | None \<Rightarrow> Unavailable (''temp'' @ show_nat (unat temp_index) @ '' exposes no curve points.''))\<rparr>"

definition kraken_capabilities :: "hwmon_capabilities option \<Rightarrow> capability list" where
  "kraken_capabilities hwmon = (case hwmon of
      None \<Rightarrow> map (\<lambda>i. \<lparr>cap_id = i, cap_state =
          Unavailable (''No '' @ KRAKEN_DRIVER @ '' hwmon instance is bound to this device.'')\<rparr>)
        [LiquidTemperature, PumpSpeed, FanSpeed, PumpDuty, FanDuty, PumpCurve, FanCurve]
    | Some h \<Rightarrow>
        [reading_capability h LiquidTemperature ''temp1_input'',
         reading_capability h PumpSpeed ''fan1_input'',
         reading_capability h FanSpeed ''fan2_input'',
         control_capability h PumpDuty ''pwm1'',
         control_capability h FanDuty ''pwm2'',
         curve_capability_of h PumpCurve 1,
         curve_capability_of h FanCurve 2])"

definition capabilities_for :: "device_id \<Rightarrow> hwmon_capabilities option \<Rightarrow> capability list" where
  "capabilities_for i hwmon =
    (if i = KRAKEN_BASE then kraken_capabilities hwmon @ lcd_capabilities None
     else if i = RGB_CONTROLLER then rgb_capabilities None
     else [])"

section \<open>The probe\<close>

definition probe_device :: "attr_env \<Rightarrow> access_env \<Rightarrow> hwmon_instance list \<Rightarrow> discovered_device \<Rightarrow> world \<Rightarrow>
    device_record \<times> world" where
  "probe_device env ax instances d w =
    (let (hwmon, w) = (case find (\<lambda>i. hi_device i = dd_id d) instances of
           None \<Rightarrow> (None, w)
         | Some i \<Rightarrow> (let (h, w) = read_capabilities env ax i w in (Some h, w)));
         (usb, w) = usb_identity_of env (dd_id d) (dd_path d) w;
         (ifs, w) = interfaces env ax (dd_path d) w
     in (\<lparr>dr_support = Supported, dr_usb = usb, dr_interfaces = ifs, dr_hwmon = hwmon, dr_rgb = None,
           dr_lcd = None, dr_capabilities = capabilities_for (dd_id d) hwmon\<rparr>, w))"

fun probe_devices :: "attr_env \<Rightarrow> access_env \<Rightarrow> hwmon_instance list \<Rightarrow> discovered_device list \<Rightarrow> world \<Rightarrow>
    device_record list \<times> rejected_device list \<times> world" where
  "probe_devices env ax instances [] w = ([], [], w)"
| "probe_devices env ax instances (d # ds) w =
    (if \<not> is_allowlisted (dd_id d) then
       (let (devices, rejected, w) = probe_devices env ax instances ds w in
        (devices, \<lparr>rd_id = dd_id d, rd_sysfs_path = dd_path d,
           rd_reason = ''Device is not on the validated allowlist. Nothing was opened.''\<rparr> # rejected, w))
     else
       (let (device, w) = probe_device env ax instances d w;
            (devices, rejected, w) = probe_devices env ax instances ds w
        in (device # devices, rejected, w)))"

definition probe :: "probe_env \<Rightarrow> string \<Rightarrow> world \<Rightarrow> capability_record \<times> world" where
  "probe pe sysfs w =
    (let (instances, w) = discover (pe_attr pe) sysfs w;
         (found, w) = usb_enumerate (pe_attr pe) sysfs w;
         (devices, rejected, w) = probe_devices (pe_attr pe) (pe_access pe) instances found w;
         (now, w) = now_unix_ms (pe_clock pe) w
     in (\<lparr>cr_schema_version = CAPABILITY_SCHEMA_VERSION,
           cr_context = \<lparr>pc_kernel_release = kernel_release (pe_release pe), pc_probed_at_unix_ms = now\<rparr>,
           cr_devices = devices, cr_rejected = rejected\<rparr>, w))"

lemma silent_probe_hidraw_node [silent_rules]: "silent w (snd (probe_hidraw_node env r i w))"
  by (simp add: probe_hidraw_node_def silent_rules split: option.split)

lemma silent_probe_device [silent_rules]: "silent w (snd (probe_device env ax instances d w))"
  unfolding probe_device_def Let_def by (intro silent_rules)

lemma silent_probe_devices [silent_rules]: "silent w (snd (snd (probe_devices env ax instances ds w)))"
proof (induction ds arbitrary: w)
  case (Cons d ds)
  show ?case
    using Cons.IH silent_trans [OF silent_probe_device Cons.IH] by (simp add: split_beta Let_def)
qed simp

lemma silent_probe [silent_rules]: "silent w (snd (probe pe sysfs w))"
proof -
  obtain instances w1 where i: "discover (pe_attr pe) sysfs w = (instances, w1)"
    by (cases "discover (pe_attr pe) sysfs w")
  obtain found w2 where f: "usb_enumerate (pe_attr pe) sysfs w1 = (found, w2)"
    by (cases "usb_enumerate (pe_attr pe) sysfs w1")
  obtain ds rs w3 where p: "probe_devices (pe_attr pe) (pe_access pe) instances found w2 = (ds, rs, w3)"
    by (cases "probe_devices (pe_attr pe) (pe_access pe) instances found w2")
  have "silent w w1" "silent w1 w2" "silent w2 w3"
    using silent_discover [of w "pe_attr pe" sysfs] silent_usb_enumerate [of w1 "pe_attr pe" sysfs]
      silent_probe_devices [of w2 "pe_attr pe" "pe_access pe" instances found] i f p by simp_all
  then have "silent w (snd (now_unix_ms (pe_clock pe) w3))"
    by (blast intro: silent_trans silent_unix)
  then show ?thesis
    by (simp add: probe_def i f p split_beta)
qed

section \<open>What the record says\<close>

text \<open>What the evidence of one device allows.\<close>

definition evidence_allows :: "hwmon_capabilities \<Rightarrow> capability_id \<Rightarrow> bool" where
  "evidence_allows h i =
    (let attribute = (\<lambda>n. case hwmon_attribute_named h n of None \<Rightarrow> False | Some a \<Rightarrow> attr_writable a);
         curve = (\<lambda>k. case curve_points_of h k of None \<Rightarrow> False
           | Some c \<Rightarrow> curve_is_complete c \<and> cc_writable c)
     in case i of PumpDuty \<Rightarrow> attribute ''pwm1'' | FanDuty \<Rightarrow> attribute ''pwm2''
       | PumpCurve \<Rightarrow> curve 1 | FanCurve \<Rightarrow> curve 2 | _ \<Rightarrow> False)"

definition probed_well :: "device_record \<Rightarrow> bool" where
  "probed_well d = (is_supported d \<and> is_allowlisted (device_id_of d) \<and> dr_rgb d = None \<and> dr_lcd d = None \<and>
    dr_capabilities d = capabilities_for (device_id_of d) (dr_hwmon d))"

lemma probe_device_well:
  "is_allowlisted (dd_id d) \<Longrightarrow> probed_well (fst (probe_device env ax instances d w))"
  by (auto simp: probe_device_def probed_well_def split_beta Let_def device_id_of_def is_supported_def
      usb_identity_of_def)

lemma probe_devices_well:
  "list_all probed_well (fst (probe_devices env ax instances ds w)) \<and>
   list_all (\<lambda>r. \<not> is_allowlisted (rd_id r)) (fst (snd (probe_devices env ax instances ds w))) \<and>
   length (fst (probe_devices env ax instances ds w)) +
     length (fst (snd (probe_devices env ax instances ds w))) = length ds"
  by (induction ds arbitrary: w) (auto simp: split_beta Let_def probe_device_well)

lemma unopened_topologies:
  "\<not> is_writable (lcd_state None)" "\<not> is_writable (rgb_state None)"
  by (simp_all add: lcd_state_def rgb_state_def is_writable_def)

lemma writable_states:
  "is_writable (Available b s) = b" "\<not> is_writable (Unvalidated r)" "\<not> is_writable (Unavailable r)"
  by (simp_all add: is_writable_def)

lemma capability_ids:
  "cap_id (reading_capability h i a) = i" "cap_id (control_capability h i a) = i"
  "cap_id (curve_capability_of h i k) = i"
  by (simp_all add: reading_capability_def control_capability_def curve_capability_of_def)

lemma capability_states:
  "\<not> is_writable (cap_state (reading_capability h i a))"
  "is_writable (cap_state (control_capability h i a)) =
    (case hwmon_attribute_named h a of None \<Rightarrow> False | Some e \<Rightarrow> attr_writable e)"
  "is_writable (cap_state (curve_capability_of h i k)) =
    (case curve_points_of h k of None \<Rightarrow> False | Some c \<Rightarrow> curve_is_complete c \<and> cc_writable c)"
  by (auto simp: reading_capability_def control_capability_def curve_capability_of_def writable_states
      split: option.split)

lemma kraken_can_write:
  "(case find (\<lambda>c. cap_id c = i) (kraken_capabilities hwmon @ lcd_capabilities None) of
      None \<Rightarrow> False | Some c \<Rightarrow> is_writable (cap_state c)) =
   (case hwmon of None \<Rightarrow> False | Some h \<Rightarrow> evidence_allows h i)"
proof -
  have lcd: "lcd_capabilities None = [\<lparr>cap_id = LcdFrame, cap_state = lcd_state None\<rparr>,
      \<lparr>cap_id = LcdDisplayControl, cap_state = lcd_state None\<rparr>]"
    by (simp add: lcd_capabilities_def lcd_state_def Let_def)
  show ?thesis
  proof (cases hwmon)
    case None
    then show ?thesis
      by (cases i) (simp_all add: kraken_capabilities_def lcd unopened_topologies writable_states)
  next
    case (Some h)
    then show ?thesis
      by (cases i) (simp_all add: kraken_capabilities_def lcd unopened_topologies capability_ids
          capability_states evidence_allows_def Let_def)
  qed
qed

lemma probed_can_write:
  assumes "probed_well d"
  shows "can_write d i \<longleftrightarrow> device_id_of d = KRAKEN_BASE \<and>
    (case dr_hwmon d of None \<Rightarrow> False | Some h \<Rightarrow> evidence_allows h i)"
proof -
  have caps: "dr_capabilities d = capabilities_for (device_id_of d) (dr_hwmon d)" "is_supported d"
    using assms by (simp_all add: probed_well_def)
  consider "device_id_of d = KRAKEN_BASE" | "device_id_of d = RGB_CONTROLLER" "KRAKEN_BASE \<noteq> RGB_CONTROLLER"
    using assms by (auto simp: probed_well_def is_allowlisted_def ALLOWLIST_def KRAKEN_BASE_def RGB_CONTROLLER_def)
  then show ?thesis
  proof cases
    case 1
    then show ?thesis using caps kraken_can_write
      by (simp add: can_write_def capability_of_def capabilities_for_def)
  next
    case 2
    then show ?thesis using caps
      by (cases i) (simp_all add: can_write_def capability_of_def capabilities_for_def
          rgb_capabilities_def Let_def unopened_topologies)
  qed
qed


end
