(* ===== verification/Device_Nodes.thy ===== *)
theory Device_Nodes
  imports Probe
begin

text \<open>
  Opening the nodes of a device: \<open>Hidraw::open\<close> and \<open>drain\<close> of \<open>crates/hardware-linux/src/hid.rs\<close>,
  \<open>Usbfs::claim\<close> of \<open>usbfs.rs\<close>, and the two \<open>connect\<close> functions of \<open>rgb.rs\<close> and \<open>lcd.rs\<close>, which end in
  the evidence of a topology and a transport when the device answered. Which open and which claim the
  kernel grants is the environment's choice; what reaches a device on the way is only questions.
\<close>

section \<open>Nodes\<close>

datatype errno = ErrAccess | ErrPerm | ErrBusy | ErrOther string

text \<open>What the kernel answers to opening and claiming, whether a stale report is still queued, and the
  devices behind the nodes.\<close>

record node_env =
  nd_open :: "io_event list \<Rightarrow> string \<Rightarrow> io_error option"
  nd_stale :: "io_event list \<Rightarrow> bool"
  nd_claim :: "io_event list \<Rightarrow> string \<Rightarrow> u8 \<Rightarrow> errno option"
  nd_hid :: "string \<Rightarrow> hid_env"
  nd_bulk :: "string \<Rightarrow> bulk_env"
  nd_clock :: clock_env
  nd_usbfs_root :: string

definition open_node :: "node_env \<Rightarrow> string \<Rightarrow> world \<Rightarrow> io_error option \<times> world" where
  "open_node nd path w =
    (let e = nd_open nd (w_trace w) path in (e, push_event (NodeOpen path (e = None)) w))"

definition hid_error_of_io :: "string \<Rightarrow> io_error \<Rightarrow> hid_error" where
  "hid_error_of_io path e = (case io_kind e of
      KindPermissionDenied \<Rightarrow> HidPermissionDenied path
    | KindNotFound \<Rightarrow> NodeAbsent (path @ '' does not exist'')
    | KindOther \<Rightarrow> HidIo path (io_display e))"

definition hidraw_open :: "node_env \<Rightarrow> string \<Rightarrow> world \<Rightarrow> (hid_error + hid_env) \<times> world" where
  "hidraw_open nd path w = (let (e, w) = open_node nd path w in
    (case e of
       None \<Rightarrow> Inr ((nd_hid nd path)\<lparr>he_source := path\<rparr>)
     | Some e \<Rightarrow> Inl (hid_error_of_io path e), w))"

definition MAX_DRAINED_REPORTS :: nat where "MAX_DRAINED_REPORTS = 64"

fun drain :: "node_env \<Rightarrow> nat \<Rightarrow> world \<Rightarrow> world" where
  "drain nd 0 w = w"
| "drain nd (Suc n) w =
    (let more = nd_stale nd (w_trace w); w = push_event (HidIn more) w
     in if more then drain nd n w else w)"

section \<open>Claiming the bulk interface\<close>

definition usbfs_error_of_io :: "string \<Rightarrow> io_error \<Rightarrow> usbfs_error" where
  "usbfs_error_of_io path e = (case io_kind e of
      KindPermissionDenied \<Rightarrow> UsbPermissionDenied path
    | KindNotFound \<Rightarrow> UsbNodeAbsent (path @ '' does not exist'')
    | KindOther \<Rightarrow> UsbIo path (io_display e))"

definition usbfs_error_of_errno :: "string \<Rightarrow> u8 \<Rightarrow> errno \<Rightarrow> usbfs_error" where
  "usbfs_error_of_errno path interface e = (case e of
      ErrAccess \<Rightarrow> UsbPermissionDenied path
    | ErrPerm \<Rightarrow> UsbPermissionDenied path
    | ErrBusy \<Rightarrow> UsbBusy interface
    | ErrOther detail \<Rightarrow> UsbIo path detail)"

text \<open>\<open>{:03}\<close> of a 16-bit value.\<close>

definition show_nat_3 :: "nat \<Rightarrow> string" where
  "show_nat_3 n = (let s = show_nat n in replicate (3 - length s) (CHR ''0'') @ s)"

definition read_u16 :: "attr_env \<Rightarrow> string \<Rightarrow> world \<Rightarrow> nat option \<times> world" where
  "read_u16 env path w = (let (r, w) = read_attribute env path w in
    (Option.bind r (parse_unsigned 10 65535), w))"

definition node_in :: "attr_env \<Rightarrow> string \<Rightarrow> string \<Rightarrow> world \<Rightarrow> string option \<times> world" where
  "node_in env root_dir device w =
    and_then_some (read_u16 env (path_join device ''busnum'') w) (\<lambda>bus w.
    and_then_some (read_u16 env (path_join device ''devnum'') w) (\<lambda>address w.
      (Some (path_join (path_join root_dir (show_nat_3 bus)) (show_nat_3 address)), w)))"

definition claim_interface :: "node_env \<Rightarrow> string \<Rightarrow> u8 \<Rightarrow> world \<Rightarrow> errno option \<times> world" where
  "claim_interface nd path interface w =
    (let e = nd_claim nd (w_trace w) path interface
     in (e, push_event (InterfaceClaim path interface (e = None)) w))"

definition usbfs_claim :: "attr_env \<Rightarrow> access_env \<Rightarrow> node_env \<Rightarrow> string \<Rightarrow> u8 \<Rightarrow> world \<Rightarrow>
    (usbfs_error + bulk_env) \<times> world" where
  "usbfs_claim env ax nd device interface w =
    (let (driver, w) = interface_driver env ax device interface w in
     case driver of
       Some d \<Rightarrow> (Inl (DriverBound interface d), w)
     | None \<Rightarrow> (let (node, w) = node_in env (nd_usbfs_root nd) device w in
         case node of
           None \<Rightarrow> (Inl (UsbNodeAbsent (device @ '' publishes no busnum/devnum pair'')), w)
         | Some path \<Rightarrow> (let (e, w) = open_node nd path w in
             case e of
               Some e \<Rightarrow> (Inl (usbfs_error_of_io path e), w)
             | None \<Rightarrow> (let (e, w) = claim_interface nd path interface w in
                 (case e of
                    Some e \<Rightarrow> Inl (usbfs_error_of_errno path interface e)
                  | None \<Rightarrow> Inr ((nd_bulk nd path)\<lparr>be_source :=
                      path @ '' interface '' @ show_nat (unat interface)\<rparr>), w)))))"

section \<open>Connecting\<close>

definition rgb_connect :: "node_env \<Rightarrow> string option \<Rightarrow> world \<Rightarrow> rgb_topology \<times> hid_env option \<times> world" where
  "rgb_connect nd node w = (case node of
      None \<Rightarrow> (rgb_topology_unavailable ''the kernel exposed no hidraw node for this controller'' ''sysfs'',
        None, w)
    | Some path \<Rightarrow> (let (r, w) = hidraw_open nd path w in
        case r of
          Inl e \<Rightarrow> (rgb_topology_silent path (hid_error_display e), None, w)
        | Inr link \<Rightarrow>
            (let w = drain nd MAX_DRAINED_REPORTS w; (t, w) = rgb_inspect link w
             in (t, if ev_is_known (rt_channels t) then Some link else None, w))))"

definition claim_bulk :: "attr_env \<Rightarrow> access_env \<Rightarrow> node_env \<Rightarrow> string option \<Rightarrow> world \<Rightarrow>
    (string + bulk_env) \<times> world" where
  "claim_bulk env ax nd device w = (case device of
      Some d \<Rightarrow> (let (r, w) = usbfs_claim env ax nd d BULK_INTERFACE w in (map_err usbfs_error_display r, w))
    | None \<Rightarrow> (Inl ''the device publishes no usbfs node for its bulk interface'', w))"

definition lcd_connect :: "attr_env \<Rightarrow> access_env \<Rightarrow> node_env \<Rightarrow> string option \<Rightarrow> string option \<Rightarrow> world \<Rightarrow>
    lcd_topology \<times> lcd_link option \<times> world" where
  "lcd_connect env ax nd device hid_node w = (case hid_node of
      None \<Rightarrow> (lcd_topology_unavailable ''the kernel exposed no hidraw node for this device'' ''sysfs'', None, w)
    | Some path \<Rightarrow> (let (r, w) = hidraw_open nd path w in
        case r of
          Inl e \<Rightarrow> (lcd_topology_silent path
            (Unknown ''not attempted: the display commands could not be opened first'' ''usbfs'')
            (hid_error_display e), None, w)
        | Inr hid \<Rightarrow>
            (let w = drain nd MAX_DRAINED_REPORTS w;
                 (bulk, w) = claim_bulk env ax nd device w;
                 bulk_node = (case bulk of
                     Inr b \<Rightarrow> Known (be_source b) ''usbfs'' | Inl reason \<Rightarrow> Unknown reason ''usbfs'');
                 (t, w) = lcd_inspect hid bulk_node w
             in (t, (case bulk of
                   Inr b \<Rightarrow> if lcd_answered t
                     then Some \<lparr>ll_hid = hid, ll_bulk = b, ll_clock = nd_clock nd\<rparr> else None
                 | Inl _ \<Rightarrow> None), w))))"

section \<open>Only questions\<close>

text \<open>The interfaces claimed by a list of events.\<close>

fun interfaces_claimed :: "io_event list \<Rightarrow> u8 list" where
  "interfaces_claimed [] = []"
| "interfaces_claimed (InterfaceClaim p i ok # es) = i # interfaces_claimed es"
| "interfaces_claimed (_ # es) = interfaces_claimed es"

lemma interfaces_claimed_append [simp]:
  "interfaces_claimed (es @ fs) = interfaces_claimed es @ interfaces_claimed fs"
  by (induction es rule: interfaces_claimed.induct) simp_all

definition QUESTIONS :: "u8 list list" where
  "QUESTIONS = map query_report [FIRMWARE_REQUEST, LIGHTING_REQUEST, DISPLAY_INFO_REQUEST]"

text \<open>A step that sends at most \<open>n\<close> reports, all of them questions, writes no attribute and no bulk data,
  and claims no interface but the one the pixels go to.\<close>

definition asks :: "nat \<Rightarrow> world \<Rightarrow> world \<Rightarrow> bool" where
  "asks n w w' = (\<exists>es. extends w es w' \<and> attr_writes es = [] \<and> bulk_out es = [] \<and>
    length (reports_out es) \<le> n \<and> list_all (\<lambda>r. r \<in> set QUESTIONS) (reports_out es) \<and>
    list_all (\<lambda>i. i = BULK_INTERFACE) (interfaces_claimed es))"

lemma asks_refl [simp, intro]: "asks n w w"
  unfolding asks_def by (intro exI [of _ "[]"]) simp

lemma asks_trans: "\<lbrakk>asks n w v; asks m v u\<rbrakk> \<Longrightarrow> asks (n + m) w u"
  unfolding asks_def
proof (elim exE conjE)
  fix es fs
  assume "extends w es v" "extends v fs u" and "attr_writes es = []" "bulk_out es = []"
    "length (reports_out es) \<le> n" "list_all (\<lambda>r. r \<in> set QUESTIONS) (reports_out es)"
    "list_all (\<lambda>i. i = BULK_INTERFACE) (interfaces_claimed es)" and "attr_writes fs = []" "bulk_out fs = []"
    "length (reports_out fs) \<le> m" "list_all (\<lambda>r. r \<in> set QUESTIONS) (reports_out fs)"
    "list_all (\<lambda>i. i = BULK_INTERFACE) (interfaces_claimed fs)"
  then show "\<exists>es. extends w es u \<and> attr_writes es = [] \<and> bulk_out es = [] \<and> length (reports_out es) \<le> n + m \<and>
      list_all (\<lambda>r. r \<in> set QUESTIONS) (reports_out es) \<and>
      list_all (\<lambda>i. i = BULK_INTERFACE) (interfaces_claimed es)"
    by (intro exI [of _ "es @ fs"]) (simp add: extends_trans)
qed

lemma asks_then: "\<lbrakk>asks 0 w v; asks n v u\<rbrakk> \<Longrightarrow> asks n w u"
  using asks_trans [of 0 w v n u] by simp

lemma asks_more: "\<lbrakk>asks n w v; n \<le> m\<rbrakk> \<Longrightarrow> asks m w v"
  unfolding asks_def by (blast intro: order_trans)

lemma asks_push:
  "\<lbrakk>attr_writes [e] = []; bulk_out [e] = []; reports_out [e] = []; interfaces_claimed [e] = []\<rbrakk> \<Longrightarrow>
    asks n w (push_event e w)"
  unfolding asks_def by (intro exI [of _ "[e]"]) simp

lemma silent_claims: "list_all silent_event es \<Longrightarrow> interfaces_claimed es = []"
  by (induction es) (auto simp: silent_event_def split: io_event.splits)

lemma silent_asks: "silent w v \<Longrightarrow> asks n w v"
proof -
  assume s: "silent w v"
  then obtain es where es: "extends w es v" "list_all silent_event es" by (auto simp: silent_def)
  show "asks n w v"
    using es(1) silent_nothing_sent [OF s es(1)] silent_claims [OF es(2)]
    unfolding asks_def by (intro exI [of _ es]) simp
qed

lemma asks_open_node: "asks n w (snd (open_node nd p w))"
  by (simp add: open_node_def Let_def asks_push)

lemma asks_hidraw_open: "asks n w (snd (hidraw_open nd p w))"
  by (simp add: hidraw_open_def split_beta asks_open_node)

lemma asks_drain: "asks 0 w (drain nd n w)"
proof (induction n arbitrary: w)
  case (Suc n)
  have "asks 0 w (push_event (HidIn b) w)" for b by (rule asks_push) simp_all
  then have "asks 0 w (drain nd n (push_event (HidIn b) w))" for b by (rule asks_then) (rule Suc)
  then show ?case using \<open>\<And>b. asks 0 w (push_event (HidIn b) w)\<close> by (simp add: Let_def)
qed simp

lemma hid_only_claims: "list_all hid_only es \<Longrightarrow> attr_writes es = [] \<and> bulk_out es = [] \<and> interfaces_claimed es = []"
  by (induction es) (auto simp: hid_only_def split: io_event.splits)

text \<open>An exchange of questions, whatever is answered.\<close>

lemma asks_ask:
  assumes "list_all (\<lambda>e. query_report (fst e) \<in> set QUESTIONS) es"
  shows "asks (length es) w (snd (ask env es w))"
proof -
  obtain r w1 where sr: "send_requests env es w = (r, w1)" by fastforce
  obtain n xs where s: "extends w xs w1" "list_all hid_only xs"
    "reports_out xs = take n (map (\<lambda>e. query_report (fst e)) es)"
    using send_requests_trace [of w env es] by (auto simp: sr)
  have q: "list_all (\<lambda>r. r \<in> set QUESTIONS) (take n (map (\<lambda>e. query_report (fst e)) es))"
    using assms by (auto simp: list_all_iff dest!: in_set_takeD)
  have sent: "asks (length es) w w1"
    using s q hid_only_claims [OF s(2)] unfolding asks_def by (intro exI [of _ xs]) simp
  have "asks 0 w1 (snd (collect_answers env es m got w1))" if sound: "slots_sound es got" for m got
  proof -
    obtain ys where "extends w1 ys (snd (collect_answers env es m got w1))" "list_all hid_only ys"
      "reports_out ys = []"
      using collect_answers_trace [OF sound] by blast
    then show ?thesis using hid_only_claims [of ys] unfolding asks_def by (intro exI [of _ ys]) simp
  qed
  moreover have "slots_sound es (replicate (length es) None)"
    by (simp add: slots_sound_def list_all2_conv_all_nth)
  ultimately have "asks (length es + 0) w (snd (collect_answers env es m (replicate (length es) None) w1))" for m
    by (intro asks_trans [OF sent]) blast
  then show ?thesis using sent by (cases r) (simp_all add: ask_def sr)
qed

lemma asks_rgb_inspect: "asks 2 w (snd (rgb_inspect env w))"
  using asks_ask [of "[(FIRMWARE_REQUEST, FIRMWARE_ANSWER), (LIGHTING_REQUEST, LIGHTING_ANSWER)]" w env]
  by (simp add: rgb_inspect_def rgb_query_def split_beta Let_def QUESTIONS_def numeral_2_eq_2)

lemma asks_lcd_inspect: "asks 2 w (snd (lcd_inspect env b w))"
  using asks_ask [of "[(FIRMWARE_REQUEST, FIRMWARE_ANSWER), (DISPLAY_INFO_REQUEST, DISPLAY_INFO_ANSWER)]" w env]
  by (simp add: lcd_inspect_def lcd_query_def split_beta Let_def QUESTIONS_def numeral_2_eq_2)

lemma asks_rgb_connect: "asks 2 w (snd (snd (rgb_connect nd node w)))"
proof (cases node)
  case (Some path)
  obtain r w1 where o1: "hidraw_open nd path w = (r, w1)" by fastforce
  have a: "asks 0 w w1" using asks_hidraw_open [of 0 w nd path] o1 by simp
  have "asks 2 w (snd (rgb_inspect link (drain nd n w1)))" for link n
    by (rule asks_then [OF a asks_then [OF asks_drain asks_rgb_inspect]])
  then show ?thesis using asks_more [OF a]
    by (cases r) (simp_all add: rgb_connect_def Some o1 split_beta Let_def)
qed (simp add: rgb_connect_def)

lemma silent_node_in: "silent w (snd (node_in env r d w))"
  unfolding node_in_def read_u16_def Let_def by (intro silent_rules)

text \<open>Nothing of an interface a driver is bound to is opened or claimed.\<close>

lemma claim_refuses_bound:
  assumes "fst (interface_driver env ax device i w) = Some d"
  shows "fst (usbfs_claim env ax nd device i w) = Inl (DriverBound i d) \<and>
    silent w (snd (usbfs_claim env ax nd device i w))"
  using assms silent_interface_driver [of w env ax device i]
  by (cases "interface_driver env ax device i w") (simp add: usbfs_claim_def)

lemma asks_usbfs_claim: "asks 0 w (snd (usbfs_claim env ax nd device BULK_INTERFACE w))"
proof -
  obtain driver w1 where d: "interface_driver env ax device BULK_INTERFACE w = (driver, w1)" by fastforce
  obtain node w2 where n: "node_in env (nd_usbfs_root nd) device w1 = (node, w2)" by fastforce
  have "silent w w1" "silent w1 w2"
    using silent_interface_driver [of w env ax device BULK_INTERFACE]
      silent_node_in [of w1 env "nd_usbfs_root nd" device] d n by simp_all
  then have a: "asks 0 w w1" "asks 0 w w2" by (blast intro: silent_asks silent_trans)+
  have o3: "asks 0 w (snd (open_node nd p w2))" for p
    by (rule asks_then [OF a(2) asks_open_node])
  have "asks 0 v (snd (claim_interface nd p BULK_INTERFACE v))" for p v
    unfolding asks_def claim_interface_def Let_def
    by (intro exI [of _ "[InterfaceClaim p BULK_INTERFACE (nd_claim nd (w_trace v) p BULK_INTERFACE = None)]"]) simp
  then have "asks 0 w (snd (claim_interface nd p BULK_INTERFACE (snd (open_node nd p w2))))" for p
    by (rule asks_then [OF o3])
  then show ?thesis
    using a o3 by (simp add: usbfs_claim_def d n split_beta split: option.split)
qed

lemma asks_lcd_connect: "asks 2 w (snd (snd (lcd_connect env ax nd device node w)))"
proof (cases node)
  case (Some path)
  obtain r w1 where o1: "hidraw_open nd path w = (r, w1)" by fastforce
  have a: "asks 0 w w1" using asks_hidraw_open [of 0 w nd path] o1 by simp
  have c: "asks 0 v (snd (claim_bulk env ax nd device v))" for v
    using asks_usbfs_claim by (simp add: claim_bulk_def split_beta split: option.split)
  have "asks 2 w (snd (lcd_inspect link b (snd (claim_bulk env ax nd device (drain nd n w1)))))"
    for link b n
    by (rule asks_then [OF a asks_then [OF asks_drain asks_then [OF c asks_lcd_inspect]]])
  then show ?thesis using asks_more [OF a]
    by (cases r) (simp_all add: lcd_connect_def Some o1 split_beta Let_def)
qed (simp add: lcd_connect_def)

end
