(* ===== verification/Error_Text.thy ===== *)
theory Error_Text
  imports Ipc
begin

text \<open>
  The sentences of the typed errors (the \<open>#[error(..)]\<close> attributes of \<open>lighting.rs\<close>, \<open>display.rs\<close>,
  \<open>profile.rs\<close> and \<open>ipc.rs\<close> in \<open>crates/core/src\<close>). The executors and the daemon put them into the
  outcomes and the diagnostics an operator reads.
\<close>

definition show_u8 :: "u8 \<Rightarrow> string" where "show_u8 b = show_nat (unat b)"
definition show_u32 :: "u32 \<Rightarrow> string" where "show_u32 b = show_nat (unat b)"
definition show_u64 :: "u64 \<Rightarrow> string" where "show_u64 b = show_nat (unat b)"

definition lighting_error_display :: "lighting_error \<Rightarrow> string" where
  "lighting_error_display e = (case e of
      ColorDigits expected actual \<Rightarrow> ''Enter '' @ show_nat expected @
        '' hexadecimal digits, for example 7C5CFF. Got '' @ show_nat actual @ ''.''
    | ColorAlphabet v \<Rightarrow> ''Only the digits 0-9 and the letters A-F are accepted, got '' @ v @ ''.''
    | BrightnessOutOfRange v mx \<Rightarrow> ''Brightness '' @ show_u8 v @ '' is outside the accepted range 0-'' @
        show_u8 mx @ ''.''
    | ChannelUnknown ch available \<Rightarrow> ''Channel '' @ show_u8 ch @ '' does not exist. This controller exposes '' @
        show_u8 available @ ''.''
    | ColorCount effect mn mx actual \<Rightarrow> effect @ '' accepts '' @ show_nat mn @ ''-'' @ show_nat mx @
        '' colors, got '' @ show_nat actual @ ''.''
    | DirectionUnsupported effect \<Rightarrow> effect @
        '' ignores direction on this firmware, so it must stay forward.''
    | CadenceTooFast ch minimum elapsed \<Rightarrow> ''Commands to channel '' @ show_u8 ch @
        '' are limited to one every '' @ show_u64 minimum @ '' ms; the last one was '' @
        show_u64 elapsed @ '' ms ago.'')"

definition display_error_display :: "display_error \<Rightarrow> string" where
  "display_error_display e = (case e of
      ColorError field source \<Rightarrow> field @ '': '' @ lighting_error_display source
    | ImagePathMissing \<Rightarrow> ''Image mode needs a file to display.''
    | ImagePathTooLong bytes mx \<Rightarrow> ''Image path is '' @ show_nat bytes @ '' bytes, above the '' @
        show_nat mx @ '' byte limit.''
    | ImageUndecodable path detail \<Rightarrow> path @ '' could not be decoded as an image: '' @ detail
    | ImageTooLarge wd ht mx \<Rightarrow> ''Image is '' @ show_u32 wd @ ''x'' @ show_u32 ht @ '', above the '' @
        show_u32 mx @ ''x'' @ show_u32 mx @ '' limit.''
    | ImageTooManyPixels px mx \<Rightarrow> ''Image carries '' @ show_u64 px @ '' pixels, above the '' @
        show_u64 mx @ '' this product decodes.''
    | AnimationTooLong mx \<Rightarrow> ''The animation has more than '' @ show_nat mx @
        '' frames, which is more than this panel holds.''
    | PanelUnknown \<Rightarrow> ''The panel geometry is not known, so no frame can be laid out.'')"

definition validation_error_display :: "validation_error \<Rightarrow> string" where
  "validation_error_display e = (case e of
      NameLength mn mx \<Rightarrow> ''Profile name must be '' @ show_nat mn @ ''-'' @ show_nat mx @ '' characters.''
    | NameBlank \<Rightarrow> ''Profile name must not be blank or padded with whitespace.''
    | DutyOutOfRange ch v mn mx \<Rightarrow> channel_label ch @ '' duty '' @ show_u8 v @
        '' is outside the accepted range '' @ show_u8 mn @ ''-'' @ show_u8 mx @ ''.''
    | CurvePointCount expected actual \<Rightarrow> ''A curve must contain exactly '' @ show_nat expected @
        '' points, got '' @ show_nat actual @ ''.''
    | CurveDutyOutOfRange ch t v mn mx \<Rightarrow> channel_label ch @ '' curve duty at '' @ show_u8 t @ '' C is '' @
        show_u8 v @ '', outside the accepted range '' @ show_u8 mn @ ''-'' @ show_u8 mx @ ''.''
    | LightingInvalid ch source \<Rightarrow> ''Lighting on channel '' @ show_u8 ch @ '' is invalid: '' @
        lighting_error_display source
    | DisplayInvalid source \<Rightarrow> ''The panel preset is invalid: '' @ display_error_display source
    | CurveNotMonotonic ch pv pt v t \<Rightarrow> channel_label ch @
        '' curve duty must never decrease as temperature rises: '' @ show_u8 pv @ '' at '' @ show_u8 pt @
        '' C then '' @ show_u8 v @ '' at '' @ show_u8 t @ '' C.'')"

definition ipc_error_display :: "ipc_error \<Rightarrow> string" where
  "ipc_error_display e = (case e of
      UnsupportedProtocol requested supported \<Rightarrow> ''Client protocol '' @ show_u32 requested @
        '' is not supported. This daemon speaks '' @ show_u32 supported @ ''.''
    | Malformed detail \<Rightarrow> ''Request could not be parsed: '' @ detail
    | FrameTooLarge mx \<Rightarrow> ''Request exceeds the '' @ show_nat mx @ '' byte frame limit.''
    | HandshakeRequired \<Rightarrow> ''Request rejected before the protocol handshake completed.''
    | PeerRejected reason \<Rightarrow> ''Local peer rejected: '' @ reason
    | ValidationFailed v \<Rightarrow> validation_error_display v
    | LightingFailed l \<Rightarrow> lighting_error_display l
    | DisplayFailed d \<Rightarrow> display_error_display d
    | ReadOnlyRefused reason \<Rightarrow> ''Controls are read-only: '' @ reason
    | Incompatible details \<Rightarrow> ''Profile is incompatible with the connected hardware.''
    | ProfileNotFound name \<Rightarrow> ''No profile named '' @ name @ ''.''
    | ProfileNameUnavailable name \<Rightarrow> ''The name '' @ name @ '' is reserved for the built-in safe profile.''
    | NoDevicePresent \<Rightarrow> ''No supported device is present.''
    | IoFailed detail \<Rightarrow> ''Local operation failed: '' @ detail)"

end
