(* ===== verification/Lighting_Executor.thy ===== *)
theory Lighting_Executor
  imports Rgb_Link Pacing Error_Text
begin

text \<open>
  \<open>crates/daemon/src/lighting.rs\<close>: the sole writer of the RGB controller. It keeps the program last
  committed on each channel and the instant of the last report to each channel. The controller
  acknowledges nothing, so the record is all there is: a repeat of it sends nothing, a command sooner
  than the channel's cadence floor is refused, and a failed write clears the record of every channel.
\<close>

section \<open>State and operations\<close>

record channel_report =
  cp_index :: u8
  cp_accessories :: "string list"

record lighting_executor =
  lx_transport :: "hid_env option"
  lx_channels :: "channel_report list"
  lx_committed :: "u8 \<Rightarrow> lighting_program option"
  lx_last_sent :: "u8 \<Rightarrow> instant option"

definition lighting_absent :: lighting_executor where
  "lighting_absent = \<lparr>lx_transport = None, lx_channels = [], lx_committed = Map.empty,
    lx_last_sent = Map.empty\<rparr>"

definition lighting_connected :: "hid_env \<Rightarrow> rgb_channel list \<Rightarrow> lighting_executor" where
  "lighting_connected transport channels = \<lparr>lx_transport = Some transport,
    lx_channels = map (\<lambda>c. \<lparr>cp_index = ch_index c, cp_accessories = map acc_name (ch_accessories c)\<rparr>) channels,
    lx_committed = Map.empty, lx_last_sent = Map.empty\<rparr>"

text \<open>\<open>len() as u8\<close> truncates.\<close>

definition lighting_channel_count :: "lighting_executor \<Rightarrow> u8" where
  "lighting_channel_count x = word_of_nat (length (lx_channels x))"

definition lighting_state :: "lighting_executor \<Rightarrow> lighting_channel_state list" where
  "lighting_state x = map (\<lambda>c. \<lparr>lcs_channel = cp_index c, lcs_accessories = cp_accessories c,
    lcs_committed = lx_committed x (cp_index c)\<rparr>) (lx_channels x)"

definition minimum_command_interval :: duration where
  "minimum_command_interval = from_millis (unat MIN_COMMAND_INTERVAL_MS)"

definition lighting_answer :: "lighting_command \<Rightarrow> hardware_state \<Rightarrow> u32 \<Rightarrow> lighting_outcome" where
  "lighting_answer c h writes = \<lparr>lo_channel = lc_channel c, lo_program = lc_program c,
    lo_hardware = h, lo_writes = writes, lo_deduplicated = (writes = 0 \<and> h = HwConfirmed)\<rparr>"

definition lighting_refuse_for_cadence ::
    "instant \<Rightarrow> lighting_command \<Rightarrow> lighting_executor \<Rightarrow> lighting_outcome option" where
  "lighting_refuse_for_cadence now c x = (case lx_last_sent x (lc_channel c) of
      None \<Rightarrow> None
    | Some last_sent \<Rightarrow>
        (let elapsed = duration_since now last_sent in
         if minimum_command_interval \<le> elapsed then None
         else Some (lighting_answer c (HwNotApplied
           (lighting_error_display (CadenceTooFast (lc_channel c) MIN_COMMAND_INTERVAL_MS
              (word_of_nat (as_millis elapsed))) @
            '' Nothing was sent. Try again in a moment.'')) 0)))"

definition lighting_apply :: "instant \<Rightarrow> lighting_command \<Rightarrow> lighting_executor \<Rightarrow> world \<Rightarrow>
    lighting_outcome \<times> lighting_executor \<times> world" where
  "lighting_apply now c x w =
    (if lx_committed x (lc_channel c) = Some (lc_program c) then (lighting_answer c HwConfirmed 0, x, w)
     else (case lighting_refuse_for_cadence now c x of
       Some refusal \<Rightarrow> (refusal, x, w)
     | None \<Rightarrow> (case lx_transport x of
         None \<Rightarrow> (lighting_answer c (HwNotApplied ''No lighting controller is connected.'') 0, x, w)
       | Some transport \<Rightarrow>
           (let (r, w) = rgb_apply transport (lc_channel c) (lc_program c) w in
            case r of
              Inr _ \<Rightarrow> (lighting_answer c HwConfirmed 1,
                x\<lparr>lx_last_sent := (lx_last_sent x)(lc_channel c \<mapsto> now),
                  lx_committed := (lx_committed x)(lc_channel c \<mapsto> lc_program c)\<rparr>, w)
            | Inl e \<Rightarrow> (lighting_answer c (HwUncertain (rgb_error_display e)) 0,
                x\<lparr>lx_last_sent := (lx_last_sent x)(lc_channel c \<mapsto> now), lx_committed := Map.empty\<rparr>, w)))))"

section \<open>What one command does\<close>

lemma lighting_apply_cases [consumes 1, case_names repeated refused unbound sent failed]:
  assumes "lighting_apply now c x w = (out, x', w')"
  obtains
    "lx_committed x (lc_channel c) = Some (lc_program c)" "out = lighting_answer c HwConfirmed 0"
      "x' = x" "w' = w"
  | t m where "lx_committed x (lc_channel c) \<noteq> Some (lc_program c)" "lx_last_sent x (lc_channel c) = Some t"
      "now - t < minimum_command_interval" "out = lighting_answer c (HwNotApplied m) 0" "x' = x" "w' = w"
  | m where "lx_transport x = None" "out = lighting_answer c (HwNotApplied m) 0" "x' = x" "w' = w"
  | env report where "lx_committed x (lc_channel c) \<noteq> Some (lc_program c)" "lx_transport x = Some env"
      "floor_passed minimum_command_interval (lx_last_sent x (lc_channel c)) now"
      "rgb_encode (lc_channel c) (lc_program c) = Inr report" "extends w [HidOut report True] w'"
      "out = lighting_answer c HwConfirmed 1" "lx_last_sent x' = (lx_last_sent x)(lc_channel c \<mapsto> now)"
      "lx_committed x' = (lx_committed x)(lc_channel c \<mapsto> lc_program c)"
      "lx_transport x' = lx_transport x" "lx_channels x' = lx_channels x"
  | env e es where "lx_committed x (lc_channel c) \<noteq> Some (lc_program c)" "lx_transport x = Some env"
      "floor_passed minimum_command_interval (lx_last_sent x (lc_channel c)) now"
      "case rgb_encode (lc_channel c) (lc_program c) of
         Inl _ \<Rightarrow> es = [] | Inr report \<Rightarrow> es = [HidOut report False]"
      "extends w es w'" "out = lighting_answer c (HwUncertain (rgb_error_display e)) 0"
      "lx_last_sent x' = (lx_last_sent x)(lc_channel c \<mapsto> now)" "lx_committed x' = Map.empty"
      "lx_transport x' = lx_transport x" "lx_channels x' = lx_channels x"
proof (cases "lx_committed x (lc_channel c) = Some (lc_program c)")
  case True
  then show thesis using that(1) assms by (simp add: lighting_apply_def)
next
  case new: False
  show thesis
  proof (cases "lighting_refuse_for_cadence now c x")
    case (Some refusal)
    then have o1: "out = refusal" "x' = x" "w' = w" using assms new by (simp_all add: lighting_apply_def)
    obtain t where t: "lx_last_sent x (lc_channel c) = Some t"
      using Some by (cases "lx_last_sent x (lc_channel c)") (simp_all add: lighting_refuse_for_cadence_def)
    have "now - t < minimum_command_interval" "\<exists>m. refusal = lighting_answer c (HwNotApplied m) 0"
      using Some by (auto simp: lighting_refuse_for_cadence_def t Let_def duration_since_def split: if_splits)
    then show thesis using that(2) [OF new t] o1 by metis
  next
    case None
    then have fl: "floor_passed minimum_command_interval (lx_last_sent x (lc_channel c)) now"
      by (auto simp: lighting_refuse_for_cadence_def floor_passed_def Let_def split: option.splits if_splits)
    show thesis
    proof (cases "lx_transport x")
      case None
      then have "out = lighting_answer c (HwNotApplied ''No lighting controller is connected.'') 0"
        "x' = x" "w' = w"
        using assms new \<open>lighting_refuse_for_cadence now c x = None\<close> by (simp_all add: lighting_apply_def)
      then show thesis using that(3) None by blast
    next
      case (Some env)
      note a = assms [unfolded lighting_apply_def, simplified new None Some, simplified]
      let ?r = "rgb_apply env (lc_channel c) (lc_program c) w"
      note tr = rgb_apply_trace [of env "lc_channel c" "lc_program c" w]
      show thesis
      proof (cases "fst ?r")
        case (Inr report)
        then show thesis using a tr that(4) new Some fl
          by (cases "rgb_encode (lc_channel c) (lc_program c)") (auto simp: split_beta Let_def)
      next
        case (Inl e)
        then show thesis using a tr that(5) [OF new Some fl]
          by (cases "rgb_encode (lc_channel c) (lc_program c)") (auto simp: split_beta Let_def)
      qed
    qed
  qed
qed

section \<open>Pacing\<close>

text \<open>The executor on the commands of one channel keeps the cadence contract: other channels have
  their own stamp.\<close>

definition lighting_exec :: "u8 \<Rightarrow> instant \<Rightarrow> lighting_program \<Rightarrow> lighting_executor \<Rightarrow> world \<Rightarrow>
    lighting_executor \<times> world" where
  "lighting_exec ch now p x w = snd (lighting_apply now \<lparr>lc_channel = ch, lc_program = p\<rparr> x w)"

interpretation lamp: paced_writer "lighting_exec ch" "\<lambda>x. lx_last_sent x ch" minimum_command_interval
  for ch
proof
  fix now p x w x' w'
  assume "lighting_exec ch now p x w = (x', w')"
  then obtain out where a: "lighting_apply now \<lparr>lc_channel = ch, lc_program = p\<rparr> x w = (out, x', w')"
    by (cases "lighting_apply now \<lparr>lc_channel = ch, lc_program = p\<rparr> x w") (simp add: lighting_exec_def)
  then show "paced minimum_command_interval now (lx_last_sent x ch) w (lx_last_sent x' ch) w'"
    by (cases rule: lighting_apply_cases) (auto simp: paced_def)
qed

text \<open>A command to one channel leaves the stamps of the others alone.\<close>

lemma lighting_stamp_local:
  "\<lbrakk>lighting_apply now c x w = (out, x', w'); ch \<noteq> lc_channel c\<rbrakk> \<Longrightarrow> lx_last_sent x' ch = lx_last_sent x ch"
  by (cases rule: lighting_apply_cases) auto

section \<open>Properties\<close>

text \<open>Whatever programs a channel is asked for and whatever the controller does, two commands that
  put a report on the wire are at least the controller's floor of 50 ms apart.\<close>

theorem lighting_reports_spaced:
  "successively (\<lambda>a b. from_millis 50 \<le> b - a) (writing_instants (lighting_exec ch) cs x w)"
  using lamp.spaced [of ch cs x w] by (simp add: minimum_command_interval_def MIN_COMMAND_INTERVAL_MS_def)

text \<open>What one command does. Confirmed with one write is exactly one accepted report, the encoding
  of the program for its channel, and the channel is then recorded on it; deduplicated is a repeat of
  the record that sends nothing; not applied changes and sends nothing; uncertain is a refused or
  unencodable report, after which the record of every channel is empty. Nothing else is ever sent.\<close>

theorem lighting_apply_spec:
  "case lighting_apply now c x w of (out, x', w') \<Rightarrow>
     lo_deduplicated out = (lx_committed x (lc_channel c) = Some (lc_program c)) \<and>
     (case lo_hardware out of
        HwOnboard \<Rightarrow> False
      | HwNotApplied _ \<Rightarrow> x' = x \<and> w' = w \<and> lo_writes out = 0
      | HwConfirmed \<Rightarrow> lx_committed x' = (lx_committed x)(lc_channel c \<mapsto> lc_program c) \<and>
          (if lo_deduplicated out then x' = x \<and> w' = w
           else lo_writes out = 1 \<and> (case rgb_encode (lc_channel c) (lc_program c) of
               Inl _ \<Rightarrow> False
             | Inr report \<Rightarrow> extends w [HidOut report True] w'))
      | HwUncertain _ \<Rightarrow> lx_committed x' = Map.empty \<and> lo_writes out = 0 \<and>
          (case rgb_encode (lc_channel c) (lc_program c) of
             Inl _ \<Rightarrow> extends w [] w'
           | Inr report \<Rightarrow> extends w [HidOut report False] w'))"
proof -
  obtain out x' w' where a: "lighting_apply now c x w = (out, x', w')"
    by (cases "lighting_apply now c x w")
  from a show ?thesis
  proof (cases rule: lighting_apply_cases)
    case (unbound m)
    then show ?thesis using a by (auto simp: lighting_answer_def lighting_apply_def split: if_splits)
  next
    case (failed env e es)
    then show ?thesis
      by (cases "rgb_encode (lc_channel c) (lc_program c)") (simp_all add: a lighting_answer_def)
  qed (auto simp: a lighting_answer_def)
qed

end
