(* ===== verification/Display_Executor.thy ===== *)
theory Display_Executor
  imports Lcd_Link Error_Text
begin

text \<open>
  \<open>crates/daemon/src/display.rs\<close>: the sole sender of frames to the panel. It keeps the preset the
  operator asked for, the frame the panel holds, the brightness last set, why the stream stopped, and
  the animation playing. The renderer (\<open>crates/lcd-renderer\<close>) enters through \<open>panel_renderer\<close>: the
  bytes of a picture, and the frames of an image file, read at the point of the trace it is called
  at. The loop of \<open>advance_animation\<close> walks the delays of the frames, so it may not end on arbitrary
  ones: it is a partial function, and the locale \<open>paced_frames\<close> shows it ends for a renderer that
  keeps its promise about delays.
\<close>

section \<open>State\<close>

record panel_renderer =
  pr_render :: "display_preset \<Rightarrow> metric_sample \<times> metric_sample \<Rightarrow> lcd_panel \<Rightarrow> display_error + u8 list"
  pr_frames :: "io_event list \<Rightarrow> display_preset \<Rightarrow> lcd_panel \<Rightarrow> display_error + (u8 list \<times> duration) list"

record committed_frame =
  cf_preset :: display_preset
  cf_frame :: "u8 list"

record animation_frame =
  af_bytes :: "u8 list"
  af_delay :: duration

record animation =
  an_frames :: "animation_frame list"
  an_cursor :: nat
  an_due :: instant

record display_executor =
  dx_link :: "lcd_link option"
  dx_panel :: "lcd_panel option"
  dx_active :: "display_preset option"
  dx_committed :: "committed_frame option"
  dx_brightness :: "brightness option"
  dx_faulted :: "string option"
  dx_dropped :: u64
  dx_animation :: "animation option"

definition display_absent :: display_executor where
  "display_absent = \<lparr>dx_link = None, dx_panel = None, dx_active = None, dx_committed = None,
    dx_brightness = None, dx_faulted = None, dx_dropped = 0, dx_animation = None\<rparr>"

definition display_connected :: "lcd_link \<Rightarrow> lcd_panel \<Rightarrow> display_executor" where
  "display_connected l p = display_absent\<lparr>dx_link := Some l, dx_panel := Some p\<rparr>"

definition is_connected :: "display_executor \<Rightarrow> bool" where
  "is_connected x = (dx_link x \<noteq> None \<and> dx_panel x \<noteq> None)"

definition display_committed :: "display_executor \<Rightarrow> display_preset option" where
  "display_committed x = map_option cf_preset (dx_committed x)"

definition is_streaming :: "display_executor \<Rightarrow> bool" where
  "is_streaming x =
    (if \<not> is_connected x \<or> dx_faulted x \<noteq> None then False
     else dx_animation x \<noteq> None \<or>
       (case dx_active x of None \<Rightarrow> False | Some p \<Rightarrow> uses_readings (dp_mode p)))"

definition display_state_of :: "display_executor \<Rightarrow> display_state" where
  "display_state_of x = \<lparr>dst_panel = dx_panel x, dst_committed = display_committed x,
    dst_streaming = is_streaming x, dst_faulted = dx_faulted x, dst_dropped_frames = dx_dropped x\<rparr>"

definition drop_frame :: "display_executor \<Rightarrow> display_executor" where
  "drop_frame x = x\<lparr>dx_dropped := saturating_add (dx_dropped x) 1\<rparr>"

definition display_forget :: "display_executor \<Rightarrow> display_executor" where
  "display_forget x = x\<lparr>dx_committed := None, dx_brightness := None, dx_faulted := None\<rparr>"

section \<open>One frame\<close>

definition panel_absent :: "display_preset \<Rightarrow> display_outcome" where
  "panel_absent p = \<lparr>do_preset = p, do_hardware = HwNotApplied ''No panel answered on this device.'',
    do_frames = 0, do_deduplicated = False, do_brightness_sent = False\<rparr>"

definition display_uncertain :: "display_preset \<Rightarrow> lcd_error \<Rightarrow> bool \<Rightarrow> display_executor \<Rightarrow>
    display_outcome \<times> display_executor" where
  "display_uncertain p e brightness_sent x =
    (\<lparr>do_preset = p, do_hardware = HwUncertain (lcd_error_display e), do_frames = 0,
      do_deduplicated = False, do_brightness_sent = brightness_sent\<rparr>, x\<lparr>dx_committed := None\<rparr>)"

text \<open>The part of \<open>send_bytes\<close> after the brightness.\<close>

definition send_picture :: "lcd_link \<Rightarrow> display_preset \<Rightarrow> u8 list \<Rightarrow> bool \<Rightarrow> display_executor \<Rightarrow> world \<Rightarrow>
    display_outcome \<times> display_executor \<times> world" where
  "send_picture l p frame brightness_sent x w =
    (if map_option cf_frame (dx_committed x) = Some frame
     then (\<lparr>do_preset = p, do_hardware = HwConfirmed, do_frames = 0, do_deduplicated = True,
            do_brightness_sent = brightness_sent\<rparr>, x, w)
     else (case send_frame l frame w of
         (Inr _, w) \<Rightarrow>
           (\<lparr>do_preset = p, do_hardware = HwConfirmed, do_frames = 1, do_deduplicated = False,
             do_brightness_sent = brightness_sent\<rparr>,
            x\<lparr>dx_committed := Some \<lparr>cf_preset = p, cf_frame = frame\<rparr>\<rparr>, w)
       | (Inl e, w) \<Rightarrow> (let (o1, x) = display_uncertain p e brightness_sent x in (o1, x, w))))"

definition send_bytes :: "display_preset \<Rightarrow> u8 list \<Rightarrow> display_executor \<Rightarrow> world \<Rightarrow>
    display_outcome \<times> display_executor \<times> world" where
  "send_bytes p frame x w = (case dx_link x of
      None \<Rightarrow> (panel_absent p, x, w)
    | Some l \<Rightarrow>
        (if dx_brightness x \<noteq> Some (dp_brightness p)
         then (case set_display l (dp_brightness p) w of
             (Inl e, w) \<Rightarrow> (let (o1, x) = display_uncertain p e False x in (o1, x, w))
           | (Inr _, w) \<Rightarrow> send_picture l p frame True (x\<lparr>dx_brightness := Some (dp_brightness p)\<rparr>) w)
         else send_picture l p frame False x w))"

definition display_send :: "panel_renderer \<Rightarrow> display_preset \<Rightarrow> metric_sample \<times> metric_sample \<Rightarrow>
    display_executor \<Rightarrow> world \<Rightarrow> (display_error + display_outcome) \<times> display_executor \<times> world" where
  "display_send rr p samples x w = (case dx_panel x of
      None \<Rightarrow> (Inr (panel_absent p), x, w)
    | Some panel \<Rightarrow> (case pr_render rr p samples panel of
        Inl e \<Rightarrow> (Inl e, x, w)
      | Inr frame \<Rightarrow> (let (o1, x, w) = send_bytes p frame x w in (Inr o1, x, w))))"

section \<open>Applying a preset\<close>

definition start_image :: "panel_renderer \<Rightarrow> clock_env \<Rightarrow> display_preset \<Rightarrow>
    display_executor \<Rightarrow> world \<Rightarrow> (display_error + display_outcome) \<times> display_executor \<times> world" where
  "start_image rr clk p x w = (case dx_panel x of
      None \<Rightarrow> (Inr (panel_absent p), x, w)
    | Some panel \<Rightarrow> (case pr_frames rr (w_trace w) p panel of
        Inl e \<Rightarrow> (Inl e, x, w)
      | Inr fs \<Rightarrow> (case map (\<lambda>(b, d). \<lparr>af_bytes = b, af_delay = d\<rparr>) fs of
          [] \<Rightarrow> (Inr (panel_absent p), x, w)
        | first # rest \<Rightarrow>
            (let (o1, x, w) = send_bytes p (af_bytes first) x w in
             if rest \<noteq> []
             then (let (now, w) = instant_now clk w in
               (Inr o1, x\<lparr>dx_animation := Some \<lparr>an_frames = first # rest, an_cursor = 0,
                  an_due = now + af_delay first\<rparr>\<rparr>, w))
             else (Inr o1, x, w)))))"

definition display_apply :: "panel_renderer \<Rightarrow> clock_env \<Rightarrow> display_preset \<Rightarrow> metric_sample \<times> metric_sample \<Rightarrow>
    display_executor \<Rightarrow> world \<Rightarrow> (display_error + display_outcome) \<times> display_executor \<times> world" where
  "display_apply rr clk p samples x w =
    (let x = x\<lparr>dx_faulted := None, dx_animation := None\<rparr>;
         (r, x, w) = (if uses_image (dp_mode p) then start_image rr clk p x w
                      else display_send rr p samples x w)
     in case r of
          Inl e \<Rightarrow> (Inl e, x, w)
        | Inr o1 \<Rightarrow> (Inr o1, x\<lparr>dx_active := Some p\<rparr>, w))"

section \<open>The ticks\<close>

text \<open>The loop of \<open>advance_animation\<close>; \<open>None\<close> is a loop that does not return, or the remainder by zero
  of an animation without frames. The cursor is a remainder, so the frame it names is always there.\<close>

partial_function (option) walk_clock :: "animation_frame list \<Rightarrow> instant \<Rightarrow> nat \<Rightarrow> instant \<Rightarrow> u32 \<Rightarrow>
    (nat \<times> instant \<times> u32) option" where
  "walk_clock frames now cursor due skipped =
    (if frames = [] then None
     else (let cursor = (cursor + 1) mod length frames;
               due = due + af_delay (frames ! cursor)
           in if now < due then Some (cursor, due, skipped)
              else walk_clock frames now cursor due (skipped + 1)))"

definition advance_animation :: "instant \<Rightarrow> display_executor \<Rightarrow> world \<Rightarrow>
    (instant option \<times> display_executor \<times> world) option" where
  "advance_animation now x w =
    (if \<not> is_streaming x then Some (None, x, w)
     else (case dx_animation x of
       None \<Rightarrow> Some (None, x, w)
     | Some a \<Rightarrow>
         (if now < an_due a then Some (Some (an_due a), x, w)
          else (case walk_clock (an_frames a) now (an_cursor a) (an_due a) 0 of
            None \<Rightarrow> None
          | Some (cursor, due, skipped) \<Rightarrow>
              (let x = x\<lparr>dx_animation := Some (a\<lparr>an_cursor := cursor, an_due := due\<rparr>)\<rparr> in
               case dx_active x of
                 None \<Rightarrow> Some (None, x, w)
               | Some p \<Rightarrow>
                   (let x = (drop_frame ^^ unat skipped) x;
                        (o1, x, w) = send_bytes p (af_bytes (an_frames a ! cursor)) x w
                    in case do_hardware o1 of
                         HwUncertain reason \<Rightarrow> Some (None, x\<lparr>dx_faulted := Some reason\<rparr>, w)
                       | _ \<Rightarrow> Some (Some due, x, w)))))))"

definition display_refresh :: "panel_renderer \<Rightarrow> metric_sample \<times> metric_sample \<Rightarrow>
    display_executor \<Rightarrow> world \<Rightarrow> display_outcome option \<times> display_executor \<times> world" where
  "display_refresh rr samples x w =
    (if \<not> is_streaming x \<or> dx_animation x \<noteq> None then (None, x, w)
     else (case dx_active x of
       None \<Rightarrow> (None, x, w)
     | Some p \<Rightarrow>
         (let (r, x, w) = display_send rr p samples x w in
          case r of
            Inr o1 \<Rightarrow> (Some o1, (case do_hardware o1 of
                HwUncertain reason \<Rightarrow> x\<lparr>dx_faulted := Some reason\<rparr> | _ \<Rightarrow> x), w)
          | Inl e \<Rightarrow> (None, x\<lparr>dx_faulted := Some (display_error_display e)\<rparr>, w))))"

section \<open>What one frame does\<close>

lemma sends_set_display:
  "sends w [WireHid (display_control b Deg0)] (is_ok (fst (set_display l b w))) (snd (set_display l b w))"
  unfolding sends_def set_display_def write_report_def
  by (intro exI [of _ "[HidOut (display_control b Deg0)
      (is_ok (he_write (ll_hid l) (w_trace w) (display_control b Deg0)))]"] exI [of _ 1])
    (simp add: Let_def split: sum.split)

lemma sends_none [simp, intro]: "sends w [] ok w"
  unfolding sends_def by (intro exI [of _ "[]"] exI [of _ 0]) simp

lemma sends_frame:
  "sends w (one_sequence f @ one_sequence f) (is_ok (fst (send_frame l f w))) (snd (send_frame l f w))"
proof (cases "length f = FRAME_BYTES")
  case False
  then show ?thesis
    unfolding sends_def by (intro exI [of _ "[]"] exI [of _ 0]) (simp add: send_frame_def)
next
  case True
  have "concat (replicate 2 (one_sequence f)) = one_sequence f @ one_sequence f"
    by (simp add: numeral_eq_Suc)
  moreover have "is_ok (fst (send_frame l f w)) = is_ok (fst (send_sequences l f 2 0 w))"
    "snd (send_frame l f w) = snd (send_sequences l f 2 0 w)"
    using True by (simp_all add: send_frame_def SEQUENCES_PER_FRAME_def split_beta Let_def split: sum.split)
  ultimately show ?thesis using sends_sequences [of w 2 f l 0] by simp
qed

definition brightness_plan :: "brightness option \<Rightarrow> brightness \<Rightarrow> wire_item list" where
  "brightness_plan held b = (if held = Some b then [] else [WireHid (display_control b Deg0)])"

definition frame_plan :: "u8 list option \<Rightarrow> u8 list \<Rightarrow> wire_item list" where
  "frame_plan held f = (if held = Some f then [] else one_sequence f @ one_sequence f)"

lemma send_picture_cases [consumes 1, case_names repeated sent failed]:
  assumes "send_picture l p f bs x w = (out, x', w')"
  obtains
    "map_option cf_frame (dx_committed x) = Some f" "x' = x" "w' = w"
      "out = \<lparr>do_preset = p, do_hardware = HwConfirmed, do_frames = 0, do_deduplicated = True,
        do_brightness_sent = bs\<rparr>"
  | "map_option cf_frame (dx_committed x) \<noteq> Some f" "is_ok (fst (send_frame l f w))"
      "w' = snd (send_frame l f w)" "x' = x\<lparr>dx_committed := Some \<lparr>cf_preset = p, cf_frame = f\<rparr>\<rparr>"
      "out = \<lparr>do_preset = p, do_hardware = HwConfirmed, do_frames = 1, do_deduplicated = False,
        do_brightness_sent = bs\<rparr>"
  | e where "map_option cf_frame (dx_committed x) \<noteq> Some f" "\<not> is_ok (fst (send_frame l f w))"
      "w' = snd (send_frame l f w)" "(out, x') = display_uncertain p e bs x"
proof (cases "map_option cf_frame (dx_committed x) = Some f")
  case True
  then show thesis using that(1) assms by (simp add: send_picture_def)
next
  case False
  obtain r w1 where s: "send_frame l f w = (r, w1)" by (cases "send_frame l f w")
  note a = assms [unfolded send_picture_def, simplified False s, simplified]
  show thesis
  proof (cases r)
    case (Inl e)
    then have "w' = w1" "(out, x') = display_uncertain p e bs x"
      using a by (auto simp: split_beta prod_eq_iff)
    then show thesis using that(3) [OF False] s Inl by simp
  next
    case (Inr u)
    then show thesis using that(2) [OF False] s a by simp
  qed
qed

lemma send_bytes_cases [consumes 2, case_names dim_failed picture]:
  assumes "send_bytes p f x w = (out, x', w')" "dx_link x = Some l"
  obtains
    e where "dx_brightness x \<noteq> Some (dp_brightness p)" "\<not> is_ok (fst (set_display l (dp_brightness p) w))"
      "w' = snd (set_display l (dp_brightness p) w)" "(out, x') = display_uncertain p e False x"
  | bs x1 w1 where "send_picture l p f bs x1 w1 = (out, x', w')"
      "x1 = x\<lparr>dx_brightness := Some (dp_brightness p)\<rparr>"
      "bs = (dx_brightness x \<noteq> Some (dp_brightness p))"
      "sends w (brightness_plan (dx_brightness x) (dp_brightness p)) True w1"
      "w1 = (if bs then snd (set_display l (dp_brightness p) w) else w)"
      "bs \<longrightarrow> is_ok (fst (set_display l (dp_brightness p) w))"
proof (cases "dx_brightness x = Some (dp_brightness p)")
  case True
  moreover from True have "x = x\<lparr>dx_brightness := Some (dp_brightness p)\<rparr>" by simp
  ultimately show thesis using that(2) [of False x w] assms
    by (simp add: send_bytes_def brightness_plan_def)
next
  case False
  obtain r w1 where s: "set_display l (dp_brightness p) w = (r, w1)"
    by (cases "set_display l (dp_brightness p) w")
  have d: "sends w [WireHid (display_control (dp_brightness p) Deg0)] (is_ok r) w1"
    using sends_set_display [of w "dp_brightness p" l] by (simp add: s)
  note a = assms(1) [unfolded send_bytes_def, simplified assms(2) False s, simplified False, simplified]
  show thesis
  proof (cases r)
    case (Inl e)
    then have "w' = w1" "(out, x') = display_uncertain p e False x"
      using a by (auto simp: s split_beta prod_eq_iff)
    then show thesis using that(1) [OF False] s Inl by simp
  next
    case (Inr u)
    then show thesis using that(2) [of True] d a False by (simp add: s brightness_plan_def)
  qed
qed

text \<open>What sending one picture does. With no link nothing is sent or recorded. Otherwise the wire
  sees the brightness report when the recorded brightness differs, then the picture, twice in full,
  when the panel does not already hold it; a failure leaves a prefix of exactly that, and Confirmed
  means all of it left. Confirmed records the picture and the brightness; Uncertain drops the record
  of the picture.\<close>

theorem send_bytes_spec:
  "case send_bytes p f x w of (out, x', w') \<Rightarrow>
    (case dx_link x of
       None \<Rightarrow> out = panel_absent p \<and> x' = x \<and> w' = w
     | Some l \<Rightarrow>
         sends w (brightness_plan (dx_brightness x) (dp_brightness p) @
             frame_plan (map_option cf_frame (dx_committed x)) f) (do_hardware out = HwConfirmed) w' \<and>
         (case do_hardware out of
            HwConfirmed \<Rightarrow> map_option cf_frame (dx_committed x') = Some f \<and>
              dx_brightness x' = Some (dp_brightness p) \<and>
              do_deduplicated out = (map_option cf_frame (dx_committed x) = Some f) \<and>
              do_frames out = (if do_deduplicated out then 0 else 1) \<and>
              do_brightness_sent out = (dx_brightness x \<noteq> Some (dp_brightness p))
          | HwUncertain _ \<Rightarrow> dx_committed x' = None \<and> do_frames out = 0 \<and> \<not> do_deduplicated out
          | _ \<Rightarrow> False))"
proof (cases "dx_link x")
  case None
  then show ?thesis by (simp add: send_bytes_def)
next
  case (Some l)
  obtain out x' w' where a: "send_bytes p f x w = (out, x', w')" by (cases "send_bytes p f x w")
  from a Some show ?thesis
  proof (cases rule: send_bytes_cases)
    case (dim_failed e)
    have "sends w (brightness_plan (dx_brightness x) (dp_brightness p)) False w'"
      using sends_set_display [of w "dp_brightness p" l] dim_failed by (simp add: brightness_plan_def)
    then show ?thesis
      using dim_failed(4) sends_fail by (simp add: a Some display_uncertain_def)
  next
    case (picture bs x1 w1)
    let ?b = "brightness_plan (dx_brightness x) (dp_brightness p)"
    have c: "dx_committed x1 = dx_committed x" "dx_brightness x1 = Some (dp_brightness p)"
      using picture(2) by simp_all
    from picture(1) show ?thesis
    proof (cases rule: send_picture_cases)
      case repeated
      then show ?thesis using picture(3,4) c by (simp add: a Some frame_plan_def)
    next
      case sent
      then have "sends w1 (one_sequence f @ one_sequence f) True w'" using sends_frame [of w1 f l] by simp
      from sends_seq [OF picture(4) this] show ?thesis
        using sent(1,4,5) c picture(3) by (auto simp: a Some frame_plan_def)
    next
      case (failed e)
      then have "sends w1 (one_sequence f @ one_sequence f) False w'" using sends_frame [of w1 f l] by simp
      from sends_seq [OF picture(4) this] show ?thesis
        using failed(1,4) c by (auto simp: a Some frame_plan_def display_uncertain_def)
    qed
  qed
qed

text \<open>The record of the brightness is only ever replaced by a report that was accepted. A report
  that failed, and may have reached the panel all the same, leaves the earlier brightness on record,
  so a later preset with that earlier brightness sends no brightness report.\<close>

theorem failed_brightness_stays_recorded:
  "case send_bytes p f x w of (out, x', w') \<Rightarrow>
    (if do_brightness_sent out then dx_brightness x' = Some (dp_brightness p)
     else dx_brightness x' = dx_brightness x \<and>
       (case dx_brightness x of
          None \<Rightarrow> True
        | Some b \<Rightarrow> \<not> do_brightness_sent (fst (send_bytes (q\<lparr>dp_brightness := b\<rparr>) g x' w'))))"
proof (cases "dx_link x")
  case None
  then show ?thesis by (simp add: send_bytes_def panel_absent_def split: option.split)
next
  case (Some l)
  obtain out x' w' where a: "send_bytes p f x w = (out, x', w')" by (cases "send_bytes p f x w")
  have later: "\<not> do_brightness_sent (fst (send_bytes (q\<lparr>dp_brightness := b\<rparr>) g y v))"
    if "dx_brightness y = Some b" for b y v
    using that by (auto simp: send_bytes_def send_picture_def panel_absent_def display_uncertain_def
        split_beta split: option.split sum.split)
  from a Some show ?thesis
  proof (cases rule: send_bytes_cases)
    case (dim_failed e)
    then show ?thesis using later by (auto simp: a display_uncertain_def split: option.split)
  next
    case (picture bs x1 w1)
    from picture(1) have "do_brightness_sent out = bs \<and> dx_brightness x' = Some (dp_brightness p)"
      using picture(2) by (cases rule: send_picture_cases) (simp_all add: display_uncertain_def)
    then show ?thesis using later picture(3) by (auto simp: a)
  qed
qed

section \<open>The animation clock\<close>

text \<open>The delays of the \<open>n\<close> frames after the cursor.\<close>

definition passed :: "animation_frame list \<Rightarrow> nat \<Rightarrow> nat \<Rightarrow> duration" where
  "passed frames cursor n = (\<Sum>i \<leftarrow> [1..<Suc n]. af_delay (frames ! ((cursor + i) mod length frames)))"

lemma passed_step:
  "passed frames cursor (Suc n) =
    af_delay (frames ! ((cursor + 1) mod length frames)) + passed frames ((cursor + 1) mod length frames) n"
proof -
  have "[1..<Suc (Suc n)] = 1 # map Suc [1..<Suc n]" by (simp add: upt_conv_Cons map_Suc_upt del: upt_Suc)
  moreover have "(cursor + Suc i) mod length frames = ((cursor + 1) mod length frames + i) mod length frames"
    for i by (simp add: mod_simps)
  ultimately show ?thesis by (simp add: passed_def o_def del: upt_Suc)
qed

definition delays_ok :: "duration \<Rightarrow> animation_frame list \<Rightarrow> bool" where
  "delays_ok d frames = (frames \<noteq> [] \<and> list_all (\<lambda>f. d \<le> af_delay f) frames)"

lemma walk_clock_stops:
  assumes "delays_ok d frames" "0 < d"
  shows "\<exists>n. walk_clock frames now cursor due k =
      Some ((cursor + Suc n) mod length frames, due + passed frames cursor (Suc n), k + word_of_nat n) \<and>
    now < due + passed frames cursor (Suc n) \<and> (n = 0 \<or> due + passed frames cursor n \<le> now)"
  using assms
proof (induction "Suc now - due" arbitrary: cursor due k rule: less_induct)
  case less
  let ?c = "(cursor + 1) mod length frames"
  let ?due = "due + af_delay (frames ! ?c)"
  have ne: "frames \<noteq> []" and pos: "d \<le> af_delay (frames ! ?c)"
    using less.prems by (auto simp: delays_ok_def list_all_length)
  have one: "passed frames cursor (Suc 0) = af_delay (frames ! ?c)" by (simp add: passed_def)
  show ?case
  proof (cases "now < ?due")
    case True
    then show ?thesis
      using ne by (intro exI [of _ 0], subst walk_clock.simps) (simp add: Let_def passed_def)
  next
    case False
    then have "Suc now - ?due < Suc now - due" using pos less.prems(2) by linarith
    from less.hyps [OF this less.prems] obtain n where n:
      "walk_clock frames now ?c ?due (k + 1) =
        Some ((?c + Suc n) mod length frames, ?due + passed frames ?c (Suc n), k + 1 + word_of_nat n)"
      "now < ?due + passed frames ?c (Suc n)" "n = 0 \<or> ?due + passed frames ?c n \<le> now"
      by blast
    have "walk_clock frames now cursor due k = walk_clock frames now ?c ?due (k + 1)"
      using ne False by (subst walk_clock.simps) (simp add: Let_def)
    moreover have "(?c + Suc n) mod length frames = (cursor + Suc (Suc n)) mod length frames"
      using mod_add_left_eq [of "cursor + 1" "length frames" "Suc n"] by simp
    moreover have "?due + passed frames ?c m = due + passed frames cursor (Suc m)" for m
      by (simp add: passed_step)
    moreover have "due + passed frames cursor (Suc 0) \<le> now" using False one by simp
    ultimately show ?thesis using n by (intro exI [of _ "Suc n"]) (auto simp: algebra_simps)
  qed
qed

text \<open>An animation catches up with the clock: whenever a tick comes, the walk over the frames ends,
  on the first frame whose slot is not over yet, having passed exactly the frames slept through; the
  next one is due after now. It needs every delay to be positive, which the renderer ensures.\<close>

theorem animation_catches_up:
  assumes "delays_ok d frames" "0 < d"
  shows "\<exists>n. walk_clock frames now cursor due 0 =
      Some ((cursor + Suc n) mod length frames, due + passed frames cursor (Suc n), word_of_nat n) \<and>
    now < due + passed frames cursor (Suc n) \<and> (n = 0 \<or> due + passed frames cursor n \<le> now)"
  using walk_clock_stops [OF assms, of now cursor due 0] by simp

theorem animation_catches_up_witness:
  "\<exists>n. walk_clock [\<lparr>af_bytes = [], af_delay = 80\<rparr>, \<lparr>af_bytes = [1], af_delay = 120\<rparr>] 1000 0 900 0 =
    Some (Suc n mod 2, 900 + passed [\<lparr>af_bytes = [], af_delay = 80\<rparr>, \<lparr>af_bytes = [1], af_delay = 120\<rparr>] 0 (Suc n),
      word_of_nat n)"
  using animation_catches_up [of 80 "[\<lparr>af_bytes = [], af_delay = 80\<rparr>, \<lparr>af_bytes = [1], af_delay = 120\<rparr>]"
      1000 0 900]
  by (auto simp: delays_ok_def numeral_2_eq_2)

section \<open>Runs of the executor\<close>

datatype display_command =
    DApply display_preset "metric_sample \<times> metric_sample"
  | DRefresh "metric_sample \<times> metric_sample"
  | DAdvance instant
  | DForget
  | DDrop

fun is_tick :: "display_command \<Rightarrow> bool" where
  "is_tick (DRefresh _) = True"
| "is_tick (DAdvance _) = True"
| "is_tick DDrop = True"
| "is_tick _ = False"

fun display_step :: "panel_renderer \<Rightarrow> clock_env \<Rightarrow> display_command \<Rightarrow> display_executor \<Rightarrow> world \<Rightarrow>
    (display_executor \<times> world) option" where
  "display_step rr clk (DApply p s) x w = Some (snd (display_apply rr clk p s x w))"
| "display_step rr clk (DRefresh s) x w = Some (snd (display_refresh rr s x w))"
| "display_step rr clk (DAdvance now) x w = map_option snd (advance_animation now x w)"
| "display_step rr clk DForget x w = Some (display_forget x, w)"
| "display_step rr clk DDrop x w = Some (drop_frame x, w)"

fun run_display :: "panel_renderer \<Rightarrow> clock_env \<Rightarrow> display_command list \<Rightarrow> display_executor \<Rightarrow> world \<Rightarrow>
    (display_executor \<times> world) option" where
  "run_display rr clk [] x w = Some (x, w)"
| "run_display rr clk (c # cs) x w = (case display_step rr clk c x w of
      None \<Rightarrow> None
    | Some (x', w') \<Rightarrow> run_display rr clk cs x' w')"

text \<open>The writes to either transport that did not go through.\<close>

fun refused_writes :: "io_event list \<Rightarrow> nat" where
  "refused_writes [] = 0"
| "refused_writes (HidOut r ok # es) = (if ok then 0 else 1) + refused_writes es"
| "refused_writes (BulkOut ep b ok # es) = (if ok then 0 else 1) + refused_writes es"
| "refused_writes (_ # es) = refused_writes es"

lemma refused_writes_append [simp]: "refused_writes (es @ fs) = refused_writes es + refused_writes fs"
  by (induction es rule: refused_writes.induct) simp_all

text \<open>A step that met at most one refused write, and none when it succeeded; it composes along \<open>?\<close>.\<close>

definition one_refusal :: "world \<Rightarrow> unit list \<Rightarrow> bool \<Rightarrow> world \<Rightarrow> bool" where
  "one_refusal w plan ok w' = (\<exists>es. extends w es w' \<and> refused_writes es \<le> (if ok then 0 else 1))"

interpretation refusals: write_plan one_refusal
proof
  show "one_refusal w (p @ q) ok w''" if "one_refusal w p True w'" "one_refusal w' q ok w''" for w p w' q ok w''
    using that unfolding one_refusal_def
    by (elim exE conjE) (rule exI, rule conjI, rule extends_trans, assumption, assumption, simp)
  show "one_refusal w (p @ q) False w'" if "one_refusal w p False w'" for w p w' q
    using that by (simp add: one_refusal_def)
qed

lemma one_refusal_refl [intro]: "one_refusal w p ok w"
  unfolding one_refusal_def by (intro exI [of _ "[]"]) simp

lemma one_refusal_event:
  "\<lbrakk>extends w [e] w'; refused_writes [e] \<le> (if ok then 0 else 1)\<rbrakk> \<Longrightarrow> one_refusal w p ok w'"
  unfolding one_refusal_def by blast

lemma is_ok_map_err [simp]: "is_ok (map_err f r) = is_ok r"
  by (cases r) simp_all

lemma refusal_hid_step: "one_refusal w [] (is_ok (fst (hid_step l r w))) (snd (hid_step l r w))"
  by (rule one_refusal_event [where e = "HidOut r (is_ok (he_write (ll_hid l) (w_trace w) r))"])
    (simp_all add: hid_step_def write_report_def Let_def)

lemma refusal_set_display: "one_refusal w [] (is_ok (fst (set_display l b w))) (snd (set_display l b w))"
  by (rule one_refusal_event [where e = "HidOut (display_control b Deg0)
      (is_ok (he_write (ll_hid l) (w_trace w) (display_control b Deg0)))"])
    (simp_all add: set_display_def write_report_def Let_def split: sum.split)

lemma refusal_bulk_step: "one_refusal w [] (is_ok (fst (bulk_step l b w))) (snd (bulk_step l b w))"
proof (cases "check_transfer BULK_ENDPOINT b")
  case (Inl e)
  then show ?thesis by (simp add: bulk_step_def usb_write_bulk_def one_refusal_refl)
next
  case (Inr u)
  then show ?thesis
    by (intro one_refusal_event [where e = "BulkOut BULK_ENDPOINT b
        (is_ok (be_write (ll_bulk l) (w_trace w) BULK_ENDPOINT b))"])
      (simp_all add: bulk_step_def usb_write_bulk_def write_bulk_def Let_def)
qed

lemma refusal_instant: "one_refusal w [] True (snd (instant_now c w))"
  by (rule one_refusal_event [where e = MonoRead]) (simp_all add: instant_now_def Let_def extends_def)

lemma refusal_await_until: "one_refusal w [] True (snd (await_until l deadline command w))"
proof (induction w rule: measure_induct_rule [where f = "\<lambda>w. deadline - w_now w"])
  case (less w)
  let ?i = "instant_now (ll_clock l) w"
  let ?r = "read_report (ll_hid l) (deadline - fst ?i) (snd ?i)"
  have "one_refusal (snd ?i) [] True (snd ?r)"
    by (rule one_refusal_event [where e = "HidIn (is_ok (he_read (ll_hid l) (w_trace (snd ?i)) (deadline - fst ?i)))"])
      (simp_all add: read_report_def Let_def)
  then have a: "one_refusal w [] True (snd ?r)"
    using refusals.plan_quiet [OF refusal_instant] by blast
  have rec: "one_refusal w [] True (snd (await_until l deadline command (snd ?r)))" if "\<not> deadline \<le> fst ?i"
  proof -
    have "deadline - w_now (snd ?r) < deadline - w_now w"
      using that instant_now_advances [where w = w and c = "ll_clock l"] by simp
    from less.IH [OF this] show ?thesis by (rule refusals.plan_quiet [OF a])
  qed
  show ?case
    using a rec refusal_instant
    by (subst await_until.simps) (auto simp: split_beta Let_def split: sum.split option.split)
qed

lemma refusal_await_ack: "one_refusal w [] True (snd (await_ack l command w))"
  using refusals.plan_quiet [OF refusal_instant refusal_await_until] by (simp add: await_ack_def split_beta)

lemma refusal_sequences:
  "one_refusal w [] (is_ok (fst (send_sequences l payload n k w))) (snd (send_sequences l payload n k w))"
proof (induction n arbitrary: k w)
  case 0
  then show ?case by (auto intro: one_refusal_refl)
next
  case (Suc n)
  have "one_refusal w ([] @ [] @ [] @ [] @ [])
    (is_ok (fst (send_sequences l payload (Suc n) k w))) (snd (send_sequences l payload (Suc n) k w))"
    unfolding send_sequences.simps split_beta Let_def
    by (rule refusals.plan_bind, rule refusal_hid_step, rule refusals.plan_quiet [OF refusal_await_ack],
        rule refusals.plan_bind, rule refusal_bulk_step, rule refusals.plan_bind, rule refusal_bulk_step,
        rule refusals.plan_bind, rule refusal_hid_step, rule refusals.plan_quiet [OF refusal_await_ack],
        rule Suc.IH)
  then show ?case by simp
qed

lemma refusal_frame: "one_refusal w [] (is_ok (fst (send_frame l f w))) (snd (send_frame l f w))"
  using refusal_sequences [of w l f "unat SEQUENCES_PER_FRAME" 0]
  by (auto simp: send_frame_def split_beta Let_def intro: one_refusal_refl split: sum.split)

definition is_uncertain :: "hardware_state \<Rightarrow> bool" where
  "is_uncertain h = (case h of HwUncertain _ \<Rightarrow> True | _ \<Rightarrow> False)"

lemma refusal_send_bytes:
  assumes "send_bytes p f x w = (out, x', w')"
  shows "one_refusal w [] (\<not> is_uncertain (do_hardware out)) w'"
proof (cases "dx_link x")
  case None
  then show ?thesis using assms by (auto simp: send_bytes_def one_refusal_refl)
next
  case (Some l)
  from assms Some show ?thesis
  proof (cases rule: send_bytes_cases)
    case (dim_failed e)
    then show ?thesis using refusal_set_display [of w l "dp_brightness p"]
      by (simp add: display_uncertain_def is_uncertain_def)
  next
    case (picture bs x1 w1)
    have d: "one_refusal w [] True w1"
      using picture(5,6) refusal_set_display [of w l "dp_brightness p"] one_refusal_refl by auto
    from picture(1) have "one_refusal w1 [] (\<not> is_uncertain (do_hardware out)) w'"
      using refusal_frame [of w1 l f]
      by (cases rule: send_picture_cases) (auto simp: display_uncertain_def is_uncertain_def one_refusal_refl)
    then show ?thesis by (rule refusals.plan_quiet [OF d])
  qed
qed

text \<open>Only a step that leaves the stream stopped met a refusal.\<close>

lemma tick_refusal:
  assumes "is_tick c" "display_step rr clk c x w = Some (x', w')"
  shows "one_refusal w [] (dx_faulted x' = None) w' \<and> (case dx_faulted x of None \<Rightarrow> True
    | Some _ \<Rightarrow> dx_faulted x' \<noteq> None \<and> w' = w)"
proof -
  have dropf: "dx_faulted ((drop_frame ^^ n) y) = dx_faulted y" for n y
    by (induction n) (simp_all add: drop_frame_def)
  have keep: "dx_faulted y' = dx_faulted y" if "send_bytes p f y v = (o1, y', v')" for p f y v o1 y' v'
    using that by (auto simp: send_bytes_def send_picture_def display_uncertain_def split_beta
        split: option.splits if_splits sum.splits)
  show ?thesis
  proof (cases "is_streaming x")
    case False
    then show ?thesis using assms
      by (cases c) (auto simp: display_refresh_def advance_animation_def drop_frame_def one_refusal_refl
          split: option.split)
  next
    case True
    then have nf: "dx_faulted x = None" by (simp add: is_streaming_def split: if_splits)
    show ?thesis
    proof (cases c)
      case (DRefresh s)
      show ?thesis
      proof (cases "dx_animation x = None \<and> dx_active x \<noteq> None \<and> dx_panel x \<noteq> None")
        case False
        then consider "dx_animation x \<noteq> None" | "dx_animation x = None" "dx_active x = None"
          | p where "dx_animation x = None" "dx_active x = Some p" "dx_panel x = None" by auto
        then show ?thesis using assms True nf
          by cases (auto simp: DRefresh display_refresh_def display_send_def panel_absent_def one_refusal_refl)
      next
        case go: True
        then obtain p panel where p: "dx_active x = Some p" "dx_panel x = Some panel" by auto
        show ?thesis
        proof (cases "pr_render rr p s panel")
          case (Inl e)
          then show ?thesis using assms True nf go
            by (auto simp: DRefresh display_refresh_def display_send_def p one_refusal_refl)
        next
          case (Inr f)
          obtain o1 y v where b: "send_bytes p f x w = (o1, y, v)" by (cases "send_bytes p f x w")
          then show ?thesis using assms True nf go Inr refusal_send_bytes [OF b] keep [OF b]
            by (cases "do_hardware o1") (auto simp: DRefresh display_refresh_def display_send_def p is_uncertain_def)
        qed
      qed
    next
      case (DAdvance now)
      obtain r where r: "advance_animation now x w = Some (r, x', w')"
        using assms(2) by (auto simp: DAdvance)
      show ?thesis
      proof (cases "dx_animation x")
        case None
        then show ?thesis using r True nf by (auto simp: advance_animation_def one_refusal_refl)
      next
        case (Some a)
        show ?thesis
        proof (cases "now < an_due a \<or> dx_active x = None")
          case True
          then show ?thesis using r \<open>is_streaming x\<close> nf Some
            by (auto simp: advance_animation_def one_refusal_refl Let_def split: if_splits option.splits)
        next
          case False
          then obtain p where p: "dx_active x = Some p" "\<not> now < an_due a" by auto
          obtain cursor due k where wc: "walk_clock (an_frames a) now (an_cursor a) (an_due a) 0 =
              Some (cursor, due, k)"
            using r \<open>is_streaming x\<close> Some p by (auto simp: advance_animation_def split: option.splits)
          let ?y = "(drop_frame ^^ unat k) (x\<lparr>dx_animation := Some (a\<lparr>an_cursor := cursor, an_due := due\<rparr>)\<rparr>)"
          obtain o1 y v where b: "send_bytes p (af_bytes (an_frames a ! cursor)) ?y w = (o1, y, v)"
            by (cases "send_bytes p (af_bytes (an_frames a ! cursor)) ?y w")
          then show ?thesis
            using r \<open>is_streaming x\<close> Some p nf wc refusal_send_bytes [OF b] keep [OF b]
            by (cases "do_hardware o1") (auto simp: advance_animation_def Let_def dropf is_uncertain_def)
        qed
      qed
    qed (use assms nf in \<open>auto simp: drop_frame_def one_refusal_refl\<close>)
  qed
qed

lemma tick_faulted_run:
  "\<lbrakk>run_display rr clk (filter is_tick cs) x w = Some (x', w'); dx_faulted x \<noteq> None\<rbrakk> \<Longrightarrow> dx_faulted x' \<noteq> None"
proof (induction cs arbitrary: x w)
  case (Cons c cs)
  show ?case
  proof (cases "is_tick c")
    case True
    then obtain x1 w1 where s: "display_step rr clk c x w = Some (x1, w1)"
      "run_display rr clk (filter is_tick cs) x1 w1 = Some (x', w')"
      using Cons.prems by (auto split: option.splits)
    then show ?thesis using tick_refusal [OF True s(1)] Cons by auto
  qed (use Cons in auto)
qed simp


section \<open>Every run returns\<close>

definition animation_ok :: "duration \<Rightarrow> display_executor \<Rightarrow> bool" where
  "animation_ok d x = (case dx_animation x of None \<Rightarrow> True | Some a \<Rightarrow> delays_ok d (an_frames a))"

text \<open>The promise of the renderer the loop rests on: no frame is shorter than a floor.\<close>

locale paced_frames =
  fixes rr :: panel_renderer
    and floor :: duration
  assumes floor_pos: "0 < floor"
    and frames_paced: "pr_frames rr es p panel = Inr fs \<Longrightarrow> list_all (\<lambda>(b, d). floor \<le> d) fs"
begin

lemma send_bytes_animation:
  "send_bytes p f x w = (out, x', w') \<Longrightarrow> dx_animation x' = dx_animation x"
  by (auto simp: send_bytes_def send_picture_def display_uncertain_def split_beta
      split: option.splits if_splits sum.splits)

lemma display_send_animation:
  "display_send rr p s x w = (r, x', w') \<Longrightarrow> dx_animation x' = dx_animation x"
  using send_bytes_animation
  by (cases "dx_panel x") (auto simp: display_send_def split_beta split: sum.splits,
    metis prod.collapse)

lemma start_image_ok:
  assumes "start_image rr clk p x w = (r, x', w')" "animation_ok floor x"
  shows "animation_ok floor x'"
proof (cases "dx_panel x")
  case None
  then show ?thesis using assms by (auto simp: start_image_def)
next
  case (Some panel)
  show ?thesis
  proof (cases "pr_frames rr (w_trace w) p panel")
    case (Inl e)
    then show ?thesis using assms Some by (auto simp: start_image_def)
  next
    case (Inr fs)
    define frames where "frames = map (\<lambda>(b, d). \<lparr>af_bytes = b, af_delay = d\<rparr>) fs"
    have paced: "list_all (\<lambda>f. floor \<le> af_delay f) frames"
      using frames_paced [OF Inr] by (auto simp: frames_def list_all_iff split_beta)
    have a: "(case frames of [] \<Rightarrow> (Inr (panel_absent p), x, w)
        | first # rest \<Rightarrow>
            (let (o1, x, w) = send_bytes p (af_bytes first) x w in
             if rest \<noteq> []
             then (let (now, w) = instant_now clk w in
               (Inr o1, x\<lparr>dx_animation := Some \<lparr>an_frames = first # rest, an_cursor = 0,
                  an_due = now + af_delay first\<rparr>\<rparr>, w))
             else (Inr o1, x, w))) = (r, x', w')"
      using assms(1) by (simp add: start_image_def Some Inr frames_def)
    show ?thesis
    proof (cases frames)
      case Nil
      then show ?thesis using a assms(2) by simp
    next
      case (Cons first rest)
      obtain o1 x1 w1 where b: "send_bytes p (af_bytes first) x w = (o1, x1, w1)"
        by (cases "send_bytes p (af_bytes first) x w")
      have k: "dx_animation x1 = dx_animation x" by (rule send_bytes_animation [OF b])
      have ok: "delays_ok floor (first # rest)" using paced Cons by (simp add: delays_ok_def)
      have "x' = x1 \<or> (\<exists>c t. dx_animation x' = Some \<lparr>an_frames = first # rest, an_cursor = c, an_due = t\<rparr>)"
        using a b Cons by (auto simp: split_beta Let_def split: if_splits)
      then show ?thesis using ok k assms(2) by (auto simp: animation_ok_def)
    qed
  qed
qed

lemma step_ok:
  assumes "animation_ok floor x"
  shows "\<exists>x' w'. display_step rr clk c x w = Some (x', w') \<and> animation_ok floor x'"
proof (cases c)
  case (DApply p s)
  let ?x = "x\<lparr>dx_faulted := None, dx_animation := None\<rparr>"
  obtain r x1 w1 where e: "(if uses_image (dp_mode p) then start_image rr clk p ?x w
      else display_send rr p s ?x w) = (r, x1, w1)"
    by (cases "if uses_image (dp_mode p) then start_image rr clk p ?x w else display_send rr p s ?x w")
  have "animation_ok floor ?x" by (simp add: animation_ok_def)
  then have "animation_ok floor x1"
    using e start_image_ok display_send_animation
    by (auto simp: animation_ok_def split: if_splits)
  then show ?thesis using e
    by (cases r) (simp_all add: DApply display_apply_def Let_def animation_ok_def)
next
  case (DRefresh s)
  have "dx_animation (fst (snd (display_refresh rr s x w))) = dx_animation x"
  proof -
    have "dx_animation (fst (snd (display_send rr p s x w))) = dx_animation x" for p
      using display_send_animation by (metis prod.collapse)
    then show ?thesis
      by (auto simp: display_refresh_def split_beta Let_def split: option.split sum.split hardware_state.split)
  qed
  then show ?thesis using assms
    by (cases "display_refresh rr s x w") (auto simp: DRefresh animation_ok_def)
next
  case (DAdvance now)
  have dropa: "dx_animation ((drop_frame ^^ n) y) = dx_animation y" for n y
    by (induction n) (simp_all add: drop_frame_def)
  show ?thesis
  proof (cases "is_streaming x \<and> dx_animation x \<noteq> None \<and> dx_active x \<noteq> None")
    case False
    then consider "\<not> is_streaming x \<or> dx_animation x = None"
      | a where "is_streaming x" "dx_animation x = Some a" "dx_active x = None"
      by (cases "is_streaming x"; cases "dx_animation x") auto
    then show ?thesis
    proof cases
      case 2
      then have "delays_ok floor (an_frames a)" using assms by (simp add: animation_ok_def)
      then show ?thesis using 2 assms walk_clock_stops [OF _ floor_pos, of "an_frames a" now "an_cursor a" "an_due a" 0]
        by (auto simp: DAdvance advance_animation_def animation_ok_def)
    qed (use assms in \<open>auto simp: DAdvance advance_animation_def\<close>)
  next
    case True
    then obtain a p where ap: "dx_animation x = Some a" "dx_active x = Some p" by auto
    have d: "delays_ok floor (an_frames a)" using assms ap by (simp add: animation_ok_def)
    obtain cursor due k where wc: "walk_clock (an_frames a) now (an_cursor a) (an_due a) 0 =
        Some (cursor, due, k)"
      using walk_clock_stops [OF d floor_pos, of now "an_cursor a" "an_due a" 0] by blast
    let ?y = "(drop_frame ^^ unat k) (x\<lparr>dx_animation := Some (a\<lparr>an_cursor := cursor, an_due := due\<rparr>)\<rparr>)"
    obtain o1 y v where b: "send_bytes p (af_bytes (an_frames a ! cursor)) ?y w = (o1, y, v)"
      by (cases "send_bytes p (af_bytes (an_frames a ! cursor)) ?y w")
    have "animation_ok floor y"
      using send_bytes_animation [OF b] d by (simp add: animation_ok_def dropa)
    then show ?thesis using True ap wc b assms
      by (cases "do_hardware o1") (auto simp: DAdvance advance_animation_def Let_def animation_ok_def)
  qed
qed (use assms in \<open>auto simp: animation_ok_def display_forget_def drop_frame_def\<close>)

lemma run_returns: "animation_ok floor x \<Longrightarrow> run_display rr clk cs x w \<noteq> None"
proof (induction cs arbitrary: x w)
  case (Cons c cs)
  then show ?case using step_ok [OF Cons.prems, of clk c w] by auto
qed simp

lemma connected_run_returns: "run_display rr clk cs (display_connected l p) w \<noteq> None"
  by (rule run_returns) (simp add: animation_ok_def display_connected_def display_absent_def)

end

end
