(* ===== verification/File_Store.thy ===== *)
theory File_Store
  imports Io
begin

text \<open>
  The files the daemon keeps. A file is its bytes, whether they have been flushed to the disk since
  the last change, and whether only its owner may read it. The files at any moment are a function of
  the events so far: \<open>files_at\<close> replays them over the files the process found. Which operation fails,
  and how much of a failing write lands, is the environment's choice (\<open>fe_fault\<close>, \<open>fe_short\<close>).
\<close>

record stored_file =
  fl_bytes :: string
  fl_synced :: bool
  fl_private :: bool

type_synonym files = "string \<Rightarrow> stored_file option"

record fs_env =
  fe_files :: files
  fe_fault :: "io_event list \<Rightarrow> io_event \<Rightarrow> io_error option"
  fe_short :: "io_event list \<Rightarrow> nat"
  fe_pid :: u32

text \<open>What an event does to the files. Creating a file that exists empties it.\<close>

fun file_effect :: "io_event \<Rightarrow> files \<Rightarrow> files" where
  "file_effect (FileCreate p True) f = f(p \<mapsto> \<lparr>fl_bytes = [], fl_synced = False,
     fl_private = (case f p of None \<Rightarrow> False | Some fl \<Rightarrow> fl_private fl)\<rparr>)"
| "file_effect (FileMode p True) f = f(p := map_option (\<lambda>fl. fl\<lparr>fl_private := True\<rparr>) (f p))"
| "file_effect (FileAppend p s _) f =
     f(p := map_option (\<lambda>fl. fl\<lparr>fl_bytes := fl_bytes fl @ s, fl_synced := False\<rparr>) (f p))"
| "file_effect (FileSync p True) f = f(p := map_option (\<lambda>fl. fl\<lparr>fl_synced := True\<rparr>) (f p))"
| "file_effect (FileRename p q True) f = (f(p := None))(q := f p)"
| "file_effect (FileRemove p True) f = f(p := None)"
| "file_effect _ f = f"

text \<open>The files after a list of events, newest first.\<close>

definition files_at :: "files \<Rightarrow> io_event list \<Rightarrow> files" where
  "files_at f es = foldr file_effect es f"

definition files_now :: "fs_env \<Rightarrow> world \<Rightarrow> files" where
  "files_now env w = files_at (fe_files env) (w_trace w)"

lemma files_now_push [simp]: "files_now env (push_event e w) = file_effect e (files_now env w)"
  by (simp add: files_now_def files_at_def)

section \<open>Operations\<close>

definition fs_do :: "fs_env \<Rightarrow> (bool \<Rightarrow> io_event) \<Rightarrow> world \<Rightarrow> (io_error + unit) \<times> world" where
  "fs_do env op w = (case fe_fault env (w_trace w) (op True) of
      None \<Rightarrow> (Inr (), push_event (op True) w)
    | Some e \<Rightarrow> (Inl e, push_event (op False) w))"

text \<open>\<open>write_all\<close>: a failing write may have put a part of the bytes into the file.\<close>

definition fs_append :: "fs_env \<Rightarrow> string \<Rightarrow> string \<Rightarrow> world \<Rightarrow> (io_error + unit) \<times> world" where
  "fs_append env p s w = (case fe_fault env (w_trace w) (FileAppend p s True) of
      None \<Rightarrow> (Inr (), push_event (FileAppend p s True) w)
    | Some e \<Rightarrow> (Inl e, push_event (FileAppend p (take (fe_short env (w_trace w)) s) False) w))"

definition not_found :: io_error where
  "not_found = IoError KindNotFound ''No such file or directory (os error 2)''"

text \<open>\<open>rename\<close> fails on a file that is not there.\<close>

definition fs_rename :: "fs_env \<Rightarrow> string \<Rightarrow> string \<Rightarrow> world \<Rightarrow> (io_error + unit) \<times> world" where
  "fs_rename env p q w =
    (if files_now env w p = None then (Inl not_found, push_event (FileRename p q False) w)
     else fs_do env (FileRename p q) w)"

text \<open>\<open>create_dir_all\<close> of the empty path does nothing.\<close>

definition fs_make_dirs :: "fs_env \<Rightarrow> string \<Rightarrow> world \<Rightarrow> (io_error + unit) \<times> world" where
  "fs_make_dirs env p w = (if p = [] then (Inr (), w) else fs_do env (MakeDirs p) w)"

text \<open>\<open>read_to_string\<close>, which refuses bytes that are not UTF-8, and \<open>exists\<close>, false on any error.\<close>

definition fs_read :: "fs_env \<Rightarrow> string \<Rightarrow> world \<Rightarrow> (io_error + string) \<times> world" where
  "fs_read env p w =
    ((case fe_fault env (w_trace w) (FileRead p) of
        Some e \<Rightarrow> Inl e
      | None \<Rightarrow> (case files_now env w p of
          None \<Rightarrow> Inl not_found
        | Some fl \<Rightarrow> if utf8_valid (map byte (fl_bytes fl)) then Inr (fl_bytes fl)
            else Inl (IoError KindOther ''stream did not contain valid UTF-8''))),
     push_event (FileRead p) w)"

definition fs_exists :: "fs_env \<Rightarrow> string \<Rightarrow> world \<Rightarrow> bool \<times> world" where
  "fs_exists env p w =
    (fe_fault env (w_trace w) (FileRead p) = None \<and> files_now env w p \<noteq> None, push_event (FileRead p) w)"

section \<open>Paths\<close>

text \<open>The last component of a path that does not end in a slash, and the rest up to it.\<close>

definition base_name :: "string \<Rightarrow> string" where
  "base_name p = rev (takeWhile (\<lambda>c. c \<noteq> CHR ''/'') (rev p))"

definition dir_part :: "string \<Rightarrow> string" where
  "dir_part p = rev (dropWhile (\<lambda>c. c \<noteq> CHR ''/'') (rev p))"

definition has_file_name :: "string \<Rightarrow> bool" where
  "has_file_name p = (base_name p \<noteq> [] \<and> base_name p \<noteq> ''.'' \<and> base_name p \<noteq> ''..'')"

text \<open>The name without its last extension; a leading dot starts no extension.\<close>

definition file_stem :: "string \<Rightarrow> string" where
  "file_stem n =
    (let rest = dropWhile (\<lambda>c. c \<noteq> CHR ''.'') (rev n) in
     if rest = [] \<or> tl rest = [] then n else rev (tl rest))"

definition with_extension :: "string \<Rightarrow> string \<Rightarrow> string" where
  "with_extension p ext =
    (if has_file_name p then dir_part p @ file_stem (base_name p) @ ''.'' @ ext else p)"

lemma dir_base [simp]: "dir_part p @ base_name p = p"
proof -
  have "rev (base_name p) @ rev (dir_part p) = rev p" by (simp add: base_name_def dir_part_def)
  then show ?thesis by (metis rev_append rev_rev_ident)
qed

text \<open>An extension with a dot inside never gives back the same path.\<close>

lemma with_extension_other:
  assumes "has_file_name p" "CHR ''.'' \<in> set ext"
  shows "with_extension p ext \<noteq> p"
proof
  assume eq: "with_extension p ext = p"
  let ?n = "base_name p"
  let ?q = "\<lambda>c. c \<noteq> CHR ''.''"
  have "dir_part p @ file_stem ?n @ ''.'' @ ext = dir_part p @ ?n"
    using eq assms(1) by (simp add: with_extension_def)
  then have n: "file_stem ?n @ ''.'' @ ext = ?n" by (simp only: same_append_eq)
  let ?rest = "dropWhile ?q (rev ?n)"
  show False
  proof (cases "?rest = [] \<or> tl ?rest = []")
    case True
    then have "file_stem ?n = ?n" by (auto simp: file_stem_def Let_def)
    then have "length (file_stem ?n @ ''.'' @ ext) = length (file_stem ?n)" using n by simp
    then show False by simp
  next
    case False
    then have s: "file_stem ?n = rev (tl ?rest)" unfolding file_stem_def Let_def by (simp only: if_False)
    have hd: "hd ?rest = CHR ''.''" using False hd_dropWhile [of ?q "rev ?n"] by auto
    have r: "rev ?n = takeWhile ?q (rev ?n) @ CHR ''.'' # tl ?rest"
      using False takeWhile_dropWhile_id [of ?q "rev ?n"] hd by (metis list.collapse)
    have "?n = rev (rev ?n)" by simp
    also have "\<dots> = rev (takeWhile ?q (rev ?n) @ CHR ''.'' # tl ?rest)" by (rule arg_cong [OF r])
    also have "\<dots> = file_stem ?n @ CHR ''.'' # rev (takeWhile ?q (rev ?n))"
      unfolding s by simp
    finally have "file_stem ?n @ CHR ''.'' # rev (takeWhile ?q (rev ?n)) = file_stem ?n @ CHR ''.'' # ext"
      using n by simp
    then have "ext = rev (takeWhile ?q (rev ?n))" by (simp only: same_append_eq list.inject)
    then have "set ext = set (takeWhile ?q (rev ?n))" by simp
    then show False using assms(2) by (auto dest: set_takeWhileD)
  qed
qed

section \<open>Facts\<close>

text \<open>The files an event may change.\<close>

fun touched :: "io_event \<Rightarrow> string list" where
  "touched (FileCreate p _) = [p]"
| "touched (FileMode p _) = [p]"
| "touched (FileAppend p _ _) = [p]"
| "touched (FileSync p _) = [p]"
| "touched (FileRename p q _) = [p, q]"
| "touched (FileRemove p _) = [p]"
| "touched _ = []"

lemma file_effect_untouched: "p \<notin> set (touched e) \<Longrightarrow> file_effect e f p = f p"
  by (induction e f rule: file_effect.induct) auto

lemma files_at_untouched:
  "list_all (\<lambda>e. p \<notin> set (touched e)) es \<Longrightarrow> files_at f (rev es @ tr) p = files_at f tr p"
proof (induction es arbitrary: tr)
  case (Cons e es)
  then have "files_at f (rev es @ e # tr) p = files_at f (e # tr) p" by simp
  then show ?case using Cons.prems by (simp add: files_at_def file_effect_untouched)
qed simp

lemma files_now_extends: "extends w es w' \<Longrightarrow> files_now env w' = files_at (fe_files env) (rev es @ w_trace w)"
  by (simp add: files_now_def extends_def)

end
