(* ===== verification/Config_Store.thy ===== *)
theory Config_Store
  imports File_Store Error_Text
begin

text \<open>
  \<open>crates/daemon/src/config.rs\<close> and \<open>config/document.rs\<close>: the configuration the daemon holds, how the
  file behind it is read, validated and replaced, and what a start replays. The TOML encoder and
  decoder (the \<open>toml\<close> crate with the derived \<open>serde\<close> instances) are a parameter, \<open>toml_codec\<close>.
  The lemmas show that a save replaces the file in one step at every point a crash could fall on,
  that memory and disk stay the same document whatever fails, and what a start replays.
\<close>

section \<open>The document\<close>

record session_state =
  ss_program :: "cooling_program option"
  ss_lighting :: "lighting_command list"
  ss_display :: "display_preset option"

definition session_default :: session_state where
  "session_default = \<lparr>ss_program = None, ss_lighting = [], ss_display = None\<rparr>"

definition session_is_empty :: "session_state \<Rightarrow> bool" where
  "session_is_empty s = (ss_program s = None \<and> ss_lighting s = [] \<and> ss_display s = None)"

definition session_channel :: "session_state \<Rightarrow> u8 \<Rightarrow> lighting_command option" where
  "session_channel s ch = find (\<lambda>held. lc_channel held = ch) (ss_lighting s)"

record config_document =
  doc_schema_version :: u32
  doc_active_profile :: string
  doc_profiles :: "profile list"
  doc_session :: session_state

definition document_default :: config_document where
  "document_default = \<lparr>doc_schema_version = CONFIG_SCHEMA_VERSION,
    doc_active_profile = SAFE_PROFILE_NAME, doc_profiles = [], doc_session = session_default\<rparr>"

datatype config_error =
    ParseError string
  | EncodeError string
  | UnsupportedSchema u32 u32
  | InvalidProfile string validation_error
  | MissingActiveProfile string
  | DuplicateProfile string
  | ConfigIo io_error

definition config_error_display :: "config_error \<Rightarrow> string" where
  "config_error_display e = (case e of
      ParseError d \<Rightarrow> ''configuration file is not valid TOML: '' @ d
    | EncodeError d \<Rightarrow> ''configuration could not be encoded as TOML: '' @ d
    | UnsupportedSchema found supported \<Rightarrow> ''configuration declares schema '' @ show_u32 found @
        '', this build understands '' @ show_u32 supported
    | InvalidProfile name source \<Rightarrow> ''profile '' @ name @ '' is invalid: '' @ validation_error_display source
    | MissingActiveProfile name \<Rightarrow> ''active profile '' @ name @ '' is not in the file''
    | DuplicateProfile name \<Rightarrow> ''duplicate profile name '' @ name
    | ConfigIo e \<Rightarrow> io_display e)"

record toml_codec =
  tm_encode :: "config_document \<Rightarrow> string + string"
  tm_decode :: "string \<Rightarrow> string + config_document"

section \<open>Reading\<close>

text \<open>The loop over the profiles, with the names seen.\<close>

fun check_profiles :: "profile list \<Rightarrow> string list \<Rightarrow> config_error + string list" where
  "check_profiles [] seen = Inr seen"
| "check_profiles (p # ps) seen =
    (if pf_name p = SAFE_PROFILE_NAME \<or> pf_name p \<in> set seen then Inl (DuplicateProfile (pf_name p))
     else (case validate_profile p of
         Inl source \<Rightarrow> Inl (InvalidProfile (pf_name p) source)
       | Inr _ \<Rightarrow> check_profiles ps (seen @ [pf_name p])))"

definition check_document :: "config_document \<Rightarrow> config_error + config_document" where
  "check_document d =
    (if CONFIG_SCHEMA_VERSION < doc_schema_version d \<or> doc_schema_version d = 0
     then Inl (UnsupportedSchema (doc_schema_version d) CONFIG_SCHEMA_VERSION)
     else (case check_profiles (doc_profiles d) [] of
         Inl e \<Rightarrow> Inl e
       | Inr seen \<Rightarrow>
           if doc_active_profile d \<noteq> SAFE_PROFILE_NAME \<and> doc_active_profile d \<notin> set seen
           then Inl (MissingActiveProfile (doc_active_profile d))
           else Inr d))"

definition read_document :: "toml_codec \<Rightarrow> fs_env \<Rightarrow> string \<Rightarrow> world \<Rightarrow>
    (config_error + config_document option) \<times> world" where
  "read_document tm env path w = (case fs_read env path w of
      (Inl e, w) \<Rightarrow> (if io_kind e = KindNotFound then Inr None else Inl (ConfigIo e), w)
    | (Inr raw, w) \<Rightarrow> (case tm_decode tm raw of
        Inl e \<Rightarrow> (Inl (ParseError e), w)
      | Inr d \<Rightarrow> (case check_document d of Inl e \<Rightarrow> (Inl e, w) | Inr d \<Rightarrow> (Inr (Some d), w))))"

definition preserve :: "fs_env \<Rightarrow> clock_env \<Rightarrow> string \<Rightarrow> world \<Rightarrow> string option \<times> world" where
  "preserve env clk path w =
    (let (there, w) = fs_exists env path w in
     if \<not> there then (None, w)
     else (let (stamp, w) = now_unix_ms clk w;
               target = with_extension path (''corrupt.'' @ show_u64 stamp);
               (r, w) = fs_rename env path target w
           in (case r of Inl _ \<Rightarrow> None | Inr _ \<Rightarrow> Some target, w)))"

section \<open>Replacing the file\<close>

definition config_io :: "(io_error + 'a) \<times> world \<Rightarrow> (config_error + 'a) \<times> world" where
  "config_io m = (map_err ConfigIo (fst m), snd m)"

definition temporary_path :: "fs_env \<Rightarrow> string \<Rightarrow> string" where
  "temporary_path env path = with_extension path (''tmp.'' @ show_u32 (fe_pid env))"

definition sync_parent :: "string \<Rightarrow> world \<Rightarrow> world" where
  "sync_parent path w = (case path_parent path of
      None \<Rightarrow> w | Some parent \<Rightarrow> push_event (DirSync parent) w)"

definition replace_file :: "fs_env \<Rightarrow> string \<Rightarrow> world \<Rightarrow> (config_error + unit) \<times> world" where
  "replace_file env path w =
    (case fs_rename env (temporary_path env path) path w of
       (Inl e, w) \<Rightarrow> (Inl (ConfigIo e), snd (fs_do env (FileRemove (temporary_path env path)) w))
     | (Inr _, w) \<Rightarrow> (Inr (), sync_parent path w))"

definition write_atomically :: "toml_codec \<Rightarrow> fs_env \<Rightarrow> string \<Rightarrow> config_document \<Rightarrow> world \<Rightarrow>
    (config_error + unit) \<times> world" where
  "write_atomically tm env path d w =
    (case tm_encode tm d of
       Inl e \<Rightarrow> (Inl (EncodeError e), w)
     | Inr encoded \<Rightarrow>
         or_return (case path_parent path of
             None \<Rightarrow> (Inr (), w)
           | Some parent \<Rightarrow> config_io (fs_make_dirs env parent w)) (\<lambda>_ w.
         or_return (config_io (fs_do env (FileCreate (temporary_path env path)) w)) (\<lambda>_ w.
         or_return (config_io (fs_do env (FileMode (temporary_path env path)) w)) (\<lambda>_ w.
         or_return (config_io (fs_append env (temporary_path env path) encoded w)) (\<lambda>_ w.
         or_return (config_io (fs_do env (FileSync (temporary_path env path)) w)) (\<lambda>_ w.
         replace_file env path w))))))"

section \<open>The configuration in memory\<close>

record restored_program =
  pr_program :: cooling_program
  pr_profile :: "string option"

record configuration =
  cfg_path :: string
  cfg_document :: config_document
  cfg_state :: config_state

definition RECOVERY_ACTION :: string where
  "RECOVERY_ACTION = ''Save a profile to write a fresh configuration, or inspect the '' @
    ''preserved file and restore it manually.''"

definition config_load :: "toml_codec \<Rightarrow> fs_env \<Rightarrow> clock_env \<Rightarrow> string \<Rightarrow> world \<Rightarrow> configuration \<times> world" where
  "config_load tm env clk path w = (case read_document tm env path w of
      (Inr (Some d), w) \<Rightarrow> (\<lparr>cfg_path = path, cfg_document = d, cfg_state = ConfigIsLoaded\<rparr>, w)
    | (Inr None, w) \<Rightarrow> (\<lparr>cfg_path = path, cfg_document = document_default, cfg_state = ConfigDefaults\<rparr>, w)
    | (Inl e, w) \<Rightarrow>
        (let (preserved, w) = preserve env clk path w in
         (\<lparr>cfg_path = path, cfg_document = document_default,
           cfg_state = ConfigIsRecovered (config_error_display e)
             (case preserved of Some p \<Rightarrow> p | None \<Rightarrow> path) RECOVERY_ACTION\<rparr>, w)))"

definition config_profiles :: "configuration \<Rightarrow> profile list" where
  "config_profiles c = profile_safe # doc_profiles (cfg_document c)"

definition config_profile :: "configuration \<Rightarrow> string \<Rightarrow> profile option" where
  "config_profile c name = find (\<lambda>p. pf_name p = name) (config_profiles c)"

definition active_profile :: "configuration \<Rightarrow> profile" where
  "active_profile c = (case config_profile c (doc_active_profile (cfg_document c)) of
      Some p \<Rightarrow> p | None \<Rightarrow> profile_safe)"

definition config_commit :: "toml_codec \<Rightarrow> fs_env \<Rightarrow> configuration \<Rightarrow> world \<Rightarrow>
    (config_error + unit) \<times> configuration \<times> world" where
  "config_commit tm env c w =
    (let c = c\<lparr>cfg_document := (cfg_document c)\<lparr>doc_schema_version := CONFIG_SCHEMA_VERSION\<rparr>\<rparr> in
     case write_atomically tm env (cfg_path c) (cfg_document c) w of
       (Inl e, w) \<Rightarrow> (Inl e, c, w)
     | (Inr _, w) \<Rightarrow>
         (Inr (), (if cfg_state c = ConfigDefaults then c\<lparr>cfg_state := ConfigIsLoaded\<rparr> else c), w))"

definition commit_change :: "toml_codec \<Rightarrow> fs_env \<Rightarrow> (config_document \<Rightarrow> config_document) \<Rightarrow>
    configuration \<Rightarrow> world \<Rightarrow> (config_error + unit) \<times> configuration \<times> world" where
  "commit_change tm env change c w =
    (let previous = cfg_document c;
         (r, c, w) = config_commit tm env (c\<lparr>cfg_document := change (cfg_document c)\<rparr>) w
     in case r of
          Inr _ \<Rightarrow> (Inr (), c, w)
        | Inl e \<Rightarrow> (Inl e, c\<lparr>cfg_document := previous\<rparr>, w))"

definition put_profile :: "profile \<Rightarrow> config_document \<Rightarrow> config_document" where
  "put_profile p d = d\<lparr>doc_profiles := replace_or_push (\<lambda>q. pf_name q = pf_name p) p (doc_profiles d)\<rparr>"

definition save_profile :: "toml_codec \<Rightarrow> fs_env \<Rightarrow> profile \<Rightarrow> configuration \<Rightarrow> world \<Rightarrow>
    (config_error + unit) \<times> configuration \<times> world" where
  "save_profile tm env p c w = (case validate_profile p of
      Inl source \<Rightarrow> (Inl (InvalidProfile (pf_name p) source), c, w)
    | Inr _ \<Rightarrow>
        if pf_name p = SAFE_PROFILE_NAME then (Inl (DuplicateProfile (pf_name p)), c, w)
        else commit_change tm env (put_profile p) c w)"

definition activate :: "toml_codec \<Rightarrow> fs_env \<Rightarrow> string \<Rightarrow> configuration \<Rightarrow> world \<Rightarrow>
    (config_error + profile) \<times> configuration \<times> world" where
  "activate tm env name c w = (case config_profile c name of
      None \<Rightarrow> (Inl (MissingActiveProfile name), c, w)
    | Some p \<Rightarrow>
        (let (r, c, w) = commit_change tm env (\<lambda>d. d\<lparr>doc_active_profile := pf_name p\<rparr>) c w in
         (case r of Inl e \<Rightarrow> Inl e | Inr _ \<Rightarrow> Inr p, c, w)))"

definition drop_profile :: "string \<Rightarrow> config_document \<Rightarrow> config_document" where
  "drop_profile name d =
    (let d = d\<lparr>doc_profiles := filter (\<lambda>p. pf_name p \<noteq> name) (doc_profiles d)\<rparr> in
     if doc_active_profile d = name then d\<lparr>doc_active_profile := SAFE_PROFILE_NAME\<rparr> else d)"

definition delete_profile :: "toml_codec \<Rightarrow> fs_env \<Rightarrow> string \<Rightarrow> configuration \<Rightarrow> world \<Rightarrow>
    (config_error + string option) \<times> configuration \<times> world" where
  "delete_profile tm env name c w =
    (if name = SAFE_PROFILE_NAME then (Inl (MissingActiveProfile name), c, w)
     else if \<not> list_ex (\<lambda>p. pf_name p = name) (doc_profiles (cfg_document c))
     then (Inl (MissingActiveProfile name), c, w)
     else (let was_active = (doc_active_profile (cfg_document c) = name);
               (r, c, w) = commit_change tm env (drop_profile name) c w
           in (case r of Inl e \<Rightarrow> Inl e | Inr _ \<Rightarrow> Inr (if was_active then Some SAFE_PROFILE_NAME else None),
               c, w)))"

section \<open>What a start replays, and what a commit records\<close>

definition lighting_to_restore :: "configuration \<Rightarrow> lighting_command list" where
  "lighting_to_restore c =
    (let session = doc_session (cfg_document c);
         commands = map (\<lambda>k. case session_channel session (lc_channel k) of
             Some committed \<Rightarrow> committed | None \<Rightarrow> k) (pf_lighting (active_profile c))
     in fold (\<lambda>k held. if list_ex (\<lambda>h. lc_channel h = lc_channel k) held then held else held @ [k])
          (ss_lighting session) commands)"

definition program_to_restore :: "configuration \<Rightarrow> restored_program option" where
  "program_to_restore c =
    (let held = (case ss_program (doc_session (cfg_document c)) of
         Some program \<Rightarrow> \<lparr>pr_program = program, pr_profile = None\<rparr>
       | None \<Rightarrow> (let p = active_profile c in \<lparr>pr_program = pf_program p, pr_profile = Some (pf_name p)\<rparr>))
     in if pr_program held \<noteq> Onboard then Some held else None)"

definition display_to_restore :: "configuration \<Rightarrow> display_preset option" where
  "display_to_restore c = (case ss_display (doc_session (cfg_document c)) of
      Some p \<Rightarrow> Some p | None \<Rightarrow> pf_display (active_profile c))"

definition edit_session :: "(session_state \<Rightarrow> session_state) \<Rightarrow> config_document \<Rightarrow> config_document" where
  "edit_session f d = d\<lparr>doc_session := f (doc_session d)\<rparr>"

definition record_program :: "toml_codec \<Rightarrow> fs_env \<Rightarrow> cooling_program \<Rightarrow> configuration \<Rightarrow> world \<Rightarrow>
    (config_error + unit) \<times> configuration \<times> world" where
  "record_program tm env p c w =
    (if ss_program (doc_session (cfg_document c)) = Some p then (Inr (), c, w)
     else commit_change tm env (edit_session (\<lambda>s. s\<lparr>ss_program := Some p\<rparr>)) c w)"

definition record_display :: "toml_codec \<Rightarrow> fs_env \<Rightarrow> display_preset \<Rightarrow> configuration \<Rightarrow> world \<Rightarrow>
    (config_error + unit) \<times> configuration \<times> world" where
  "record_display tm env p c w =
    (if ss_display (doc_session (cfg_document c)) = Some p then (Inr (), c, w)
     else commit_change tm env (edit_session (\<lambda>s. s\<lparr>ss_display := Some p\<rparr>)) c w)"

definition record_lighting :: "toml_codec \<Rightarrow> fs_env \<Rightarrow> lighting_command \<Rightarrow> configuration \<Rightarrow> world \<Rightarrow>
    (config_error + unit) \<times> configuration \<times> world" where
  "record_lighting tm env k c w =
    (if session_channel (doc_session (cfg_document c)) (lc_channel k) = Some k then (Inr (), c, w)
     else commit_change tm env (edit_session (\<lambda>s. s\<lparr>ss_lighting :=
       replace_or_push (\<lambda>held. lc_channel held = lc_channel k) k (ss_lighting s)\<rparr>)) c w)"

section \<open>One save, at every point a crash could fall on\<close>

lemma fs_do_ok: "fst (fs_do env op w) = Inr u \<Longrightarrow> snd (fs_do env op w) = push_event (op True) w"
  by (auto simp: fs_do_def split: option.splits)

lemma fs_append_ok:
  "fst (fs_append env p s w) = Inr u \<Longrightarrow> snd (fs_append env p s w) = push_event (FileAppend p s True) w"
  by (auto simp: fs_append_def split: option.splits)

lemma extends_snoc: "extends w es w' \<Longrightarrow> extends w (es @ [e]) (push_event e w')"
  by (simp add: extends_def)

text \<open>\<open>saves\<close>: a failed attempt never named the file in an event that changes files; a finished one
  renamed over it, once, a file holding exactly the new bytes, flushed and private.\<close>

definition spares :: "string \<Rightarrow> io_event list \<Rightarrow> bool" where
  "spares path es = list_all (\<lambda>e. path \<notin> set (touched e) \<or> (\<exists>p. e = FileRename p path False)) es"

definition new_file :: "string \<Rightarrow> stored_file" where
  "new_file s = \<lparr>fl_bytes = s, fl_synced = True, fl_private = True\<rparr>"

definition saves :: "fs_env \<Rightarrow> string \<Rightarrow> string \<Rightarrow> world \<Rightarrow> bool \<Rightarrow> world \<Rightarrow> bool" where
  "saves env path s w ok w' =
    (if ok then \<exists>es fs w1. extends w es w1 \<and> spares path es \<and>
         files_now env w1 (temporary_path env path) = Some (new_file s) \<and>
         extends w1 (FileRename (temporary_path env path) path True # fs) w' \<and> spares path fs
     else \<exists>es. extends w es w' \<and> spares path es)"

lemma spares_append [simp]: "spares path (es @ fs) = (spares path es \<and> spares path fs)"
  by (simp add: spares_def)

lemma spares_rename_failed [simp]: "spares path (FileRename p path False # es) = spares path es"
  by (simp add: spares_def)

lemma files_at_spared: "spares path es \<Longrightarrow> files_at f (rev es @ tr) path = files_at f tr path"
proof (induction es arbitrary: tr)
  case (Cons e es)
  then have "files_at f (rev es @ e # tr) path = files_at f (e # tr) path" by (simp add: spares_def)
  also have "\<dots> = files_at f tr path"
    using Cons.prems by (auto simp: files_at_def spares_def file_effect_untouched)
  finally show ?case by simp
qed simp

lemma spares_take: "spares path es \<Longrightarrow> spares path (take n es)"
  unfolding spares_def list_all_iff by (meson in_set_takeD)

text \<open>The file at every moment of a save: the old one until the rename, the new one after it.\<close>

lemma saves_prefix:
  assumes "saves env path s w ok w'" "path \<noteq> temporary_path env path"
  shows "\<exists>es. extends w es w' \<and>
    (\<forall>n. let now = files_at (fe_files env) (rev (take n es) @ w_trace w) path in
       now = files_now env w path \<or> ok \<and> now = Some (new_file s)) \<and>
    files_now env w' path = (if ok then Some (new_file s) else files_now env w path)"
proof (cases ok)
  case False
  then obtain es where es: "extends w es w'" "spares path es" using assms by (auto simp: saves_def)
  have "files_at (fe_files env) (rev (take n es) @ w_trace w) path = files_now env w path" for n
    using files_at_spared [OF spares_take [OF es(2)]] by (simp add: files_now_def)
  moreover from this [of "length es"] have "files_now env w' path = files_now env w path"
    using files_now_extends [OF es(1)] by simp
  ultimately show ?thesis using es False by (auto simp: Let_def)
next
  case True
  let ?r = "FileRename (temporary_path env path) path True"
  obtain es fs w1 where e: "extends w es w1" "spares path es"
    "files_now env w1 (temporary_path env path) = Some (new_file s)"
    "extends w1 (?r # fs) w'" "spares path fs"
    using assms True by (auto simp: saves_def)
  have all: "extends w (es @ ?r # fs) w'" by (rule extends_trans [OF e(1,4)])
  have after: "files_at (fe_files env) (rev (take k fs) @ ?r # rev es @ w_trace w) path = Some (new_file s)" for k
    using files_at_spared [OF spares_take [OF e(5)], of "fe_files env" k "?r # rev es @ w_trace w"]
      e(3) files_now_extends [OF e(1)] by (simp add: files_at_def)
  have pre: "files_at (fe_files env) (rev (take n (es @ ?r # fs)) @ w_trace w) path =
      (if n \<le> length es then files_now env w path else Some (new_file s))" for n
  proof (cases "n \<le> length es")
    case True
    then show ?thesis using files_at_spared [OF spares_take [OF e(2)]] by (simp add: files_now_def)
  next
    case False
    then obtain k where "n = length es + Suc k" by (metis add_Suc_right less_imp_Suc_add not_le)
    then show ?thesis using after [of k] by simp
  qed
  have "files_now env w' path = Some (new_file s)"
    using pre [of "length (es @ ?r # fs)"] files_now_extends [OF all] by simp
  then show ?thesis using all pre True
    by (intro exI [of _ "es @ ?r # fs"]) (auto simp: Let_def)
qed

lemma temporary_path_other:
  "has_file_name path \<Longrightarrow> temporary_path env path \<noteq> path"
  unfolding temporary_path_def by (rule with_extension_other) simp_all

text \<open>The steps before the rename: none touches the file itself.\<close>

definition kept :: "string \<Rightarrow> world \<Rightarrow> world \<Rightarrow> bool" where
  "kept path w v = (\<exists>es. extends w es v \<and> spares path es)"

lemma kept_refl [intro]: "kept path w w"
  unfolding kept_def by (intro exI [of _ "[]"]) (simp add: spares_def)

lemma kept_trans: "\<lbrakk>kept path w v; kept path v u\<rbrakk> \<Longrightarrow> kept path w u"
  unfolding kept_def by (metis extends_trans spares_append)

lemma kept_push: "path \<notin> set (touched e) \<Longrightarrow> kept path w (push_event e w)"
  unfolding kept_def by (intro exI [of _ "[e]"]) (simp add: spares_def)

lemma kept_fs_do: "path \<notin> set (touched (op True)) \<Longrightarrow> path \<notin> set (touched (op False)) \<Longrightarrow>
    kept path w (snd (fs_do env op w))"
  by (simp add: fs_do_def kept_push split: option.split)

lemma kept_append: "path \<noteq> p \<Longrightarrow> kept path w (snd (fs_append env p s w))"
  by (simp add: fs_append_def kept_push split: option.split)

lemma kept_make_dirs: "kept path w (snd (fs_make_dirs env p w))"
  by (auto simp: fs_make_dirs_def intro: kept_fs_do)

lemma kept_sync_parent: "kept path w (sync_parent p w)"
  by (auto simp: sync_parent_def kept_push split: option.split)

lemma config_io_simps [simp]: "snd (config_io m) = snd m" "fst (config_io m) = Inr u \<longleftrightarrow> fst m = Inr u"
  by (simp_all add: config_io_def)

lemma saves_or_return:
  assumes "kept path w v" "kept path v (snd m)"
    "\<And>x. \<lbrakk>fst m = Inr x; kept path w (snd m)\<rbrakk> \<Longrightarrow>
      saves env path s w (is_ok (fst (k x (snd m)))) (snd (k x (snd m)))"
  shows "saves env path s w (is_ok (fst (or_return m k))) (snd (or_return m k))"
  using assms kept_trans [OF assms(1,2)]
  by (cases m; cases "fst m") (auto simp: saves_def kept_def)

lemma saves_replace:
  assumes "kept path w v" "files_now env v (temporary_path env path) = Some (new_file s)"
    "temporary_path env path \<noteq> path"
  shows "saves env path s w (is_ok (fst (replace_file env path v))) (snd (replace_file env path v))"
proof -
  let ?t = "temporary_path env path"
  obtain es where es: "extends w es v" "spares path es" using assms(1) by (auto simp: kept_def)
  show ?thesis
  proof (cases "fe_fault env (w_trace v) (FileRename ?t path True)")
    case None
    then have r: "replace_file env path v = (Inr (), sync_parent path (push_event (FileRename ?t path True) v))"
      by (simp add: replace_file_def fs_rename_def assms(2) fs_do_def)
    obtain fs where "extends (push_event (FileRename ?t path True) v) fs
        (sync_parent path (push_event (FileRename ?t path True) v))" "spares path fs"
      using kept_sync_parent unfolding kept_def by blast
    then have "extends v (FileRename ?t path True # fs) (snd (replace_file env path v)) \<and> spares path fs"
      using r by (simp add: extends_def)
    then show ?thesis using es assms(2) r by (auto simp: saves_def)
  next
    case (Some e)
    let ?v = "push_event (FileRename ?t path False) v"
    have r: "replace_file env path v = (Inl (ConfigIo e), snd (fs_do env (FileRemove ?t) ?v))"
      using Some by (simp add: replace_file_def fs_rename_def assms(2) fs_do_def)
    have "kept path v ?v"
      unfolding kept_def by (intro exI [of _ "[FileRename ?t path False]"]) (simp add: spares_def)
    moreover have "kept path ?v (snd (fs_do env (FileRemove ?t) ?v))"
      using assms(3) by (intro kept_fs_do) auto
    ultimately have "kept path w (snd (replace_file env path v))"
      using kept_trans assms(1) r by (metis snd_conv)
    then show ?thesis by (auto simp: saves_def r kept_def)
  qed
qed

lemma saves_write:
  assumes "has_file_name path" "tm_encode tm d = Inr s"
  shows "saves env path s w (is_ok (fst (write_atomically tm env path d w)))
    (snd (write_atomically tm env path d w))"
proof -
  let ?t = "temporary_path env path"
  have ne: "?t \<noteq> path" by (rule temporary_path_other [OF assms(1)])
  show ?thesis
    unfolding write_atomically_def assms(2) sum.case
  proof (rule saves_or_return [OF kept_refl], goal_cases)
    case 1
    then show ?case using kept_make_dirs by (auto split: option.split)
  next
    case (2 u1)
    let ?w1 = "snd (case path_parent path of None \<Rightarrow> (Inr (), w)
      | Some p \<Rightarrow> config_io (fs_make_dirs env p w))"
    show ?case
    proof (rule saves_or_return [OF 2(2)], goal_cases)
      case (2 u2)
      note f2 = 2(1)
      show ?case
      proof (rule saves_or_return [OF 2(2)], goal_cases)
        case (2 u3)
        note f3 = 2(1)
        show ?case
        proof (rule saves_or_return [OF 2(2)], goal_cases)
          case (2 u4)
          note f4 = 2(1)
          show ?case
          proof (rule saves_or_return [OF 2(2)], goal_cases)
            case (2 u5)
            note f5 = 2(1)
            show ?case
              by (rule saves_replace [OF 2(2) _ ne])
                (use f2 f3 f4 f5 in \<open>simp add: fs_do_ok fs_append_ok new_file_def\<close>)
          qed (use ne in \<open>auto intro!: kept_fs_do\<close>)
        qed (use ne in \<open>auto intro!: kept_append\<close>)
      qed (use ne in \<open>auto intro!: kept_fs_do\<close>)
    qed (use ne in \<open>auto intro!: kept_fs_do\<close>)
  qed
qed

text \<open>C27: A save replaces the file in one step. At every moment of it, whichever operations fail, the
  file is the old one or, once and for all, one that holds exactly the new document, flushed to the
  disk and readable by its owner only; it is the new one at the end exactly when success is reported.\<close>

theorem save_is_atomic:
  assumes "has_file_name path"
  shows "case write_atomically tm env path d w of (r, w') \<Rightarrow> \<exists>es. extends w es w' \<and>
    (\<forall>n. let now = files_at (fe_files env) (rev (take n es) @ w_trace w) path in
       now = files_now env w path \<or>
       (case tm_encode tm d of Inl _ \<Rightarrow> False | Inr s \<Rightarrow> is_ok r \<and> now = Some (new_file s))) \<and>
    (if is_ok r then case tm_encode tm d of Inl _ \<Rightarrow> False | Inr s \<Rightarrow> files_now env w' path = Some (new_file s)
     else files_now env w' path = files_now env w path)"
proof (cases "tm_encode tm d")
  case (Inl e)
  then show ?thesis
    by (auto simp: write_atomically_def files_now_def Let_def intro!: exI [of _ "[]"])
next
  case (Inr s)
  obtain r w' where wr: "write_atomically tm env path d w = (r, w')"
    by (cases "write_atomically tm env path d w")
  then have "saves env path s w (is_ok r) w'" using saves_write [OF assms Inr, of env w] by simp
  from saves_prefix [OF this temporary_path_other [OF assms, of env, symmetric]]
  show ?thesis by (auto simp: wr Inr)
qed

text \<open>A disk on which nothing fails, and a codec that knows one document.\<close>

definition calm_disk :: fs_env where
  "calm_disk = \<lparr>fe_files = Map.empty, fe_fault = (\<lambda>_ _. None), fe_short = (\<lambda>_. 0), fe_pid = 7\<rparr>"

definition default_codec :: toml_codec where
  "default_codec = \<lparr>tm_encode = (\<lambda>d. if d = document_default then Inr ''d'' else Inl ''unknown''),
    tm_decode = (\<lambda>s. if s = ''d'' then Inr document_default else Inl ''unknown'')\<rparr>"

definition world_start :: world where "world_start = \<lparr>w_trace = [], w_now = 0\<rparr>"

theorem save_is_atomic_witness:
  "case write_atomically default_codec calm_disk ''/kori/config.toml'' document_default world_start of (r, w') \<Rightarrow>
    files_now calm_disk w' ''/kori/config.toml'' = (if is_ok r then Some (new_file ''d'') else None)"
proof -
  have "has_file_name ''/kori/config.toml''" by (simp add: has_file_name_def base_name_def)
  from save_is_atomic [OF this, where tm = default_codec and d = document_default and w = world_start and env = calm_disk] show ?thesis
    by (auto simp: default_codec_def files_now_def files_at_def calm_disk_def world_start_def split: if_splits)
qed

section \<open>Valid documents\<close>

definition document_ok :: "config_document \<Rightarrow> bool" where
  "document_ok d =
    (doc_schema_version d \<noteq> 0 \<and> doc_schema_version d \<le> CONFIG_SCHEMA_VERSION \<and>
     distinct (map pf_name (doc_profiles d)) \<and>
     list_all (\<lambda>p. pf_name p \<noteq> SAFE_PROFILE_NAME \<and> validate_profile p = Inr ()) (doc_profiles d) \<and>
     doc_active_profile d \<in> set (SAFE_PROFILE_NAME # map pf_name (doc_profiles d)))"

lemma check_profiles_iff:
  "check_profiles ps seen = Inr names \<longleftrightarrow>
    names = seen @ map pf_name ps \<and> distinct (map pf_name ps) \<and> set seen \<inter> set (map pf_name ps) = {} \<and>
    list_all (\<lambda>p. pf_name p \<noteq> SAFE_PROFILE_NAME \<and> validate_profile p = Inr ()) ps"
proof (induction ps arbitrary: seen)
  case (Cons p ps)
  show ?case
    by (cases "validate_profile p") (auto simp: Cons.IH)
qed auto

lemma check_document_iff: "check_document d = Inr d' \<longleftrightarrow> d' = d \<and> document_ok d"
proof -
  have "check_profiles (doc_profiles d) [] = Inr (map pf_name (doc_profiles d)) \<or>
      (\<exists>e. check_profiles (doc_profiles d) [] = Inl e)"
    by (cases "check_profiles (doc_profiles d) []") (auto simp: check_profiles_iff)
  then show ?thesis
    using check_profiles_iff [of "doc_profiles d" "[]" "map pf_name (doc_profiles d)"]
    by (auto simp: check_document_def document_ok_def not_less split: if_splits)
qed

lemma document_default_ok: "document_ok document_default"
  by (simp add: document_ok_def document_default_def CONFIG_SCHEMA_VERSION_def)

lemma config_load_ok: "document_ok (cfg_document (fst (config_load tm env clk path w)))"
  by (auto simp: config_load_def read_document_def split_beta check_document_iff document_default_ok Let_def
      split: sum.split option.split dest: sym)

section \<open>Commands\<close>

datatype config_command =
    CSave profile
  | CActivate string
  | CDelete string
  | CProgram cooling_program
  | CDisplay display_preset
  | CLighting lighting_command

fun config_step :: "toml_codec \<Rightarrow> fs_env \<Rightarrow> config_command \<Rightarrow> configuration \<Rightarrow> world \<Rightarrow>
    bool \<times> configuration \<times> world" where
  "config_step tm env (CSave p) c w = (let (r, c, w) = save_profile tm env p c w in (is_ok r, c, w))"
| "config_step tm env (CActivate n) c w = (let (r, c, w) = activate tm env n c w in (is_ok r, c, w))"
| "config_step tm env (CDelete n) c w = (let (r, c, w) = delete_profile tm env n c w in (is_ok r, c, w))"
| "config_step tm env (CProgram p) c w = (let (r, c, w) = record_program tm env p c w in (is_ok r, c, w))"
| "config_step tm env (CDisplay p) c w = (let (r, c, w) = record_display tm env p c w in (is_ok r, c, w))"
| "config_step tm env (CLighting k) c w = (let (r, c, w) = record_lighting tm env k c w in (is_ok r, c, w))"

text \<open>What each command asks of the document: nothing it may refuse, \<open>None\<close>; otherwise the edit. An
  edit is written under the current schema, one that changes nothing is not written at all.\<close>

definition written :: "config_document \<Rightarrow> config_document" where
  "written d = d\<lparr>doc_schema_version := CONFIG_SCHEMA_VERSION\<rparr>"

fun requested :: "config_command \<Rightarrow> config_document \<Rightarrow> config_document option" where
  "requested (CSave p) d = (if validate_profile p = Inr () \<and> pf_name p \<noteq> SAFE_PROFILE_NAME
     then Some (written (put_profile p d)) else None)"
| "requested (CActivate n) d = (if n \<in> set (SAFE_PROFILE_NAME # map pf_name (doc_profiles d))
     then Some (written (d\<lparr>doc_active_profile := n\<rparr>)) else None)"
| "requested (CDelete n) d = (if n \<noteq> SAFE_PROFILE_NAME \<and> n \<in> set (map pf_name (doc_profiles d))
     then Some (written (drop_profile n d)) else None)"
| "requested (CProgram p) d = (if ss_program (doc_session d) = Some p then Some d
     else Some (written (edit_session (\<lambda>s. s\<lparr>ss_program := Some p\<rparr>) d)))"
| "requested (CDisplay p) d = (if ss_display (doc_session d) = Some p then Some d
     else Some (written (edit_session (\<lambda>s. s\<lparr>ss_display := Some p\<rparr>) d)))"
| "requested (CLighting k) d = (if session_channel (doc_session d) (lc_channel k) = Some k then Some d
     else Some (written (edit_session (\<lambda>s. s\<lparr>ss_lighting :=
       replace_or_push (\<lambda>held. lc_channel held = lc_channel k) k (ss_lighting s)\<rparr>) d)))"

text \<open>The abstract store: a command takes effect completely, or is refused or fails and does nothing.\<close>

inductive store_step :: "config_document \<Rightarrow> config_command \<Rightarrow> bool \<Rightarrow> config_document \<Rightarrow> bool" where
  applied: "requested k d = Some d' \<Longrightarrow> store_step d k True d'"
| refused: "store_step d k False d"

inductive_cases store_step_True: "store_step d k True d'"
inductive_cases store_step_False: "store_step d k False d'"

lemma requested_ok: "\<lbrakk>document_ok d; requested k d = Some d'\<rbrakk> \<Longrightarrow> document_ok d'"
proof (cases k)
  case (CSave p)
  assume d: "document_ok d" "requested k d = Some d'"
  then have p: "validate_profile p = Inr ()" "pf_name p \<noteq> SAFE_PROFILE_NAME" "d' = written (put_profile p d)"
    by (auto simp: CSave split: if_splits)
  have "set (replace_or_push (\<lambda>q. pf_name q = pf_name p) p (doc_profiles d)) \<subseteq> insert p (set (doc_profiles d))"
    by (rule set_replace_or_push)
  then show ?thesis using d(1) p
    by (auto simp: document_ok_def written_def put_profile_def distinct_replace_or_push map_replace_or_push
        CONFIG_SCHEMA_VERSION_def list_all_iff)
qed (auto simp: document_ok_def written_def drop_profile_def edit_session_def CONFIG_SCHEMA_VERSION_def
    Let_def list_all_iff distinct_map_filter split: if_splits)

text \<open>Every command is its request, written and rolled back as a whole.\<close>

definition attempted :: "toml_codec \<Rightarrow> fs_env \<Rightarrow> configuration \<Rightarrow> world \<Rightarrow> config_document \<Rightarrow>
    bool \<Rightarrow> configuration \<Rightarrow> world \<Rightarrow> bool" where
  "attempted tm env c w d ok c' w' =
    ((ok, w') = (is_ok (fst (write_atomically tm env (cfg_path c) d w)),
        snd (write_atomically tm env (cfg_path c) d w)) \<and>
     cfg_path c' = cfg_path c \<and> cfg_document c' = (if ok then d else cfg_document c))"

lemma commit_change_attempts:
  assumes "commit_change tm env change c w = (r, c', w')"
  shows "attempted tm env c w (written (change (cfg_document c))) (is_ok r) c' w'"
proof -
  obtain q v where "write_atomically tm env (cfg_path c) (written (change (cfg_document c))) w = (q, v)"
    by (cases "write_atomically tm env (cfg_path c) (written (change (cfg_document c))) w")
  then show ?thesis using assms
    by (cases q) (auto simp: commit_change_def config_commit_def attempted_def written_def Let_def split: if_splits)
qed

lemma config_profile_iff:
  "config_profile c n = None \<longleftrightarrow> n \<notin> set (SAFE_PROFILE_NAME # map pf_name (doc_profiles (cfg_document c)))"
  "config_profile c n = Some p \<Longrightarrow> pf_name p = n"
  by (auto simp: config_profile_def config_profiles_def profile_safe_def find_None_iff dest: find_Some_in
      split: if_splits)

lemma config_step_attempts:
  assumes "config_step tm env k c w = (ok, c', w')"
  shows "case requested k (cfg_document c) of
      None \<Rightarrow> \<not> ok \<and> c' = c \<and> w' = w
    | Some d \<Rightarrow> (ok \<and> d = cfg_document c \<and> c' = c \<and> w' = w) \<or> attempted tm env c w d ok c' w'"
proof (cases k)
  case (CActivate n)
  obtain r c1 w1 where cc: "commit_change tm env (\<lambda>d. d\<lparr>doc_active_profile := n\<rparr>) c w = (r, c1, w1)"
    by (cases "commit_change tm env (\<lambda>d. d\<lparr>doc_active_profile := n\<rparr>) c w")
  show ?thesis
  proof (cases "config_profile c n")
    case None
    then show ?thesis using assms config_profile_iff(1) [of c n] by (simp add: CActivate activate_def)
  next
    case (Some p)
    then have "n \<in> set (SAFE_PROFILE_NAME # map pf_name (doc_profiles (cfg_document c)))"
      using config_profile_iff(1) [of c n] by (metis option.distinct(1))
    moreover have "pf_name p = n" by (rule config_profile_iff(2) [OF Some])
    ultimately show ?thesis using assms Some cc commit_change_attempts [OF cc]
      by (cases r) (auto simp: CActivate activate_def)
  qed
next
  case (CDelete n)
  obtain r c1 w1 where cc: "commit_change tm env (drop_profile n) c w = (r, c1, w1)"
    by (cases "commit_change tm env (drop_profile n) c w")
  have ex: "list_ex (\<lambda>p. pf_name p = n) ps \<longleftrightarrow> n \<in> set (map pf_name ps)" for ps
    by (auto simp: list_ex_iff)
  show ?thesis using assms cc commit_change_attempts [OF cc]
    by (cases r) (auto simp: CDelete delete_profile_def ex Let_def split: if_splits)
qed (use assms in \<open>auto simp: save_profile_def record_program_def record_display_def record_lighting_def
    split_beta prod_eq_iff split: sum.splits if_splits
    intro!: commit_change_attempts [OF surjective_pairing [THEN trans]]\<close>)

section \<open>Memory, disk and restarts\<close>

fun run_config :: "toml_codec \<Rightarrow> fs_env \<Rightarrow> config_command list \<Rightarrow> configuration \<Rightarrow> world \<Rightarrow>
    configuration \<times> world" where
  "run_config tm env [] c w = (c, w)"
| "run_config tm env (k # ks) c w = (let (ok, c, w) = config_step tm env k c w in run_config tm env ks c w)"

lemma config_step_ok:
  assumes "config_step tm env k c w = (ok, c', w')" "document_ok (cfg_document c)"
  shows "document_ok (cfg_document c')"
  using config_step_attempts [OF assms(1)] requested_ok [OF assms(2)] assms(2)
  by (auto simp: attempted_def split: option.splits)

lemma run_config_ok:
  "document_ok (cfg_document c) \<Longrightarrow> document_ok (cfg_document (fst (run_config tm env ks c w)))"
proof (induction ks arbitrary: c w)
  case (Cons k ks)
  then show ?case using config_step_ok
    by (cases "config_step tm env k c w") auto
qed simp

text \<open>C28: The document in memory is valid from the first load on, whatever the file held, whatever is
  asked and whatever fails: a known schema, distinct names, none of them the reserved one, profiles
  that all validate, and an active profile that exists.\<close>

theorem document_always_valid:
  "case config_load tm env clk path w of (c, w1) \<Rightarrow> document_ok (cfg_document (fst (run_config tm env ks c w1)))"
  using run_config_ok [OF config_load_ok] by (simp add: split_beta)

text \<open>The document the file stands for, the abstraction of the disk: with no file, the defaults.\<close>

definition disk_document :: "toml_codec \<Rightarrow> files \<Rightarrow> string \<Rightarrow> config_document option" where
  "disk_document tm f path = (case f path of
      None \<Rightarrow> Some document_default
    | Some fl \<Rightarrow> (case tm_decode tm (fl_bytes fl) of Inl _ \<Rightarrow> None | Inr d \<Rightarrow> Some d))"

definition codec_faithful :: "toml_codec \<Rightarrow> bool" where
  "codec_faithful tm = (\<forall>d. case tm_encode tm d of Inl _ \<Rightarrow> True | Inr s \<Rightarrow> tm_decode tm s = Inr d)"

lemma attempted_disk:
  assumes "attempted tm env c w d ok c' w'" "has_file_name (cfg_path c)" "codec_faithful tm"
    "disk_document tm (files_now env w) (cfg_path c) = Some (cfg_document c)"
  shows "disk_document tm (files_now env w') (cfg_path c) = Some (cfg_document c') \<and>
    (\<exists>es. extends w es w' \<and> (\<forall>n. disk_document tm (files_at (fe_files env) (rev (take n es) @ w_trace w)) (cfg_path c)
        \<in> {Some (cfg_document c), Some (cfg_document c')}))"
proof -
  have ok: "ok = is_ok (fst (write_atomically tm env (cfg_path c) d w))"
    "w' = snd (write_atomically tm env (cfg_path c) d w)" "cfg_document c' = (if ok then d else cfg_document c)"
    using assms(1) by (auto simp: attempted_def)
  show ?thesis
  proof (cases "tm_encode tm d")
    case (Inl e)
    then have "\<not> ok \<and> w' = w" using ok by (simp add: write_atomically_def)
    then show ?thesis using assms(4) ok(3)
      by (auto simp: files_now_def intro!: exI [of _ "[]"])
  next
    case (Inr s)
    then have dec: "tm_decode tm s = Inr d"
      using assms(3) by (auto simp: codec_faithful_def dest!: spec [of _ d])
    have "saves env (cfg_path c) s w ok w'" unfolding ok(1,2) by (rule saves_write [OF assms(2) Inr])
    from saves_prefix [OF this temporary_path_other [OF assms(2), of env, symmetric]] obtain es where
      es: "extends w es w'"
        "\<And>n. files_at (fe_files env) (rev (take n es) @ w_trace w) (cfg_path c) = files_now env w (cfg_path c) \<or>
          ok \<and> files_at (fe_files env) (rev (take n es) @ w_trace w) (cfg_path c) = Some (new_file s)"
        "files_now env w' (cfg_path c) = (if ok then Some (new_file s) else files_now env w (cfg_path c))"
      by (auto simp: Let_def)
    have new: "disk_document tm f (cfg_path c) = Some d" if "f (cfg_path c) = Some (new_file s)" for f
      using that dec by (simp add: disk_document_def new_file_def)
    have old: "disk_document tm f (cfg_path c) = Some (cfg_document c)"
      if "f (cfg_path c) = files_now env w (cfg_path c)" for f
      using that assms(4) by (simp add: disk_document_def)
    have "disk_document tm (files_at (fe_files env) (rev (take n es) @ w_trace w)) (cfg_path c)
        \<in> {Some (cfg_document c), Some (cfg_document c')}" for n
      using es(2) [of n] old new ok(3) by auto
    moreover have "disk_document tm (files_now env w') (cfg_path c) = Some (cfg_document c')"
      using es(3) old new ok(3) by (cases ok) auto
    ultimately show ?thesis using es(1) by blast
  qed
qed

text \<open>C29: The configuration refines a store whose every command takes effect completely or not at all.
  As long as the file stands for the document in memory, each command takes the store from one
  document to the next, in memory and on disk alike, and at every moment in between the disk stands
  for one of the two. What is reported is what happened.\<close>

theorem config_refines_store:
  assumes "codec_faithful tm" "has_file_name (cfg_path c)"
    "disk_document tm (files_now env w) (cfg_path c) = Some (cfg_document c)"
  shows "case config_step tm env k c w of (ok, c', w') \<Rightarrow>
    store_step (cfg_document c) k ok (cfg_document c') \<and> cfg_path c' = cfg_path c \<and>
    disk_document tm (files_now env w') (cfg_path c) = Some (cfg_document c') \<and>
    (\<exists>es. extends w es w' \<and> (\<forall>n. disk_document tm (files_at (fe_files env) (rev (take n es) @ w_trace w)) (cfg_path c)
      \<in> {Some (cfg_document c), Some (cfg_document c')}))"
proof -
  obtain ok c' w' where s: "config_step tm env k c w = (ok, c', w')" by (cases "config_step tm env k c w")
  have idle: ?thesis if "c' = c" "w' = w" "store_step (cfg_document c) k ok (cfg_document c')"
    using that assms(3) by (auto simp: s files_now_def intro!: exI [of _ "[]"])
  show ?thesis
  proof (cases "requested k (cfg_document c)")
    case None
    then show ?thesis using config_step_attempts [OF s] idle store_step.refused by auto
  next
    case (Some d)
    show ?thesis
    proof (cases "attempted tm env c w d ok c' w'")
      case True
      then have "store_step (cfg_document c) k ok (cfg_document c')" "cfg_path c' = cfg_path c"
        using store_step.applied [OF Some] store_step.refused by (auto simp: attempted_def)
      then show ?thesis using attempted_disk [OF True assms(2,1,3)] by (simp add: s)
    next
      case False
      then have "ok" "d = cfg_document c" "c' = c" "w' = w"
        using config_step_attempts [OF s] by (auto simp: Some)
      then show ?thesis using idle store_step.applied [OF Some] by simp
    qed
  qed
qed

theorem config_refines_store_witness:
  "case config_step default_codec calm_disk (CActivate SAFE_PROFILE_NAME)
      \<lparr>cfg_path = ''/kori/config.toml'', cfg_document = document_default, cfg_state = ConfigDefaults\<rparr> world_start
    of (ok, c', w') \<Rightarrow> store_step document_default (CActivate SAFE_PROFILE_NAME) ok (cfg_document c') \<and>
      disk_document default_codec (files_now calm_disk w') ''/kori/config.toml'' = Some (cfg_document c')"
proof -
  have "has_file_name ''/kori/config.toml''" by (simp add: has_file_name_def base_name_def)
  moreover have "codec_faithful default_codec" by (simp add: codec_faithful_def default_codec_def)
  moreover have "disk_document default_codec (files_now calm_disk world_start) ''/kori/config.toml'' =
      Some document_default"
    by (simp add: disk_document_def files_now_def files_at_def calm_disk_def world_start_def)
  ultimately show ?thesis
    using config_refines_store [where tm = default_codec and c = "\<lparr>cfg_path = ''/kori/config.toml'',
        cfg_document = document_default, cfg_state = ConfigDefaults\<rparr>" and env = calm_disk and w = world_start
        and k = "CActivate SAFE_PROFILE_NAME"]
    by (auto split: prod.splits simp del: config_step.simps)
qed

text \<open>What a start replays. On every channel of the lighting, and for the panel and the thermal
  path, what the session committed last is put before what the active profile holds; a program that
  reaches no attribute is not replayed at all.\<close>

theorem restore_precedence:
  "find (\<lambda>k. lc_channel k = ch) (lighting_to_restore c) =
     (case session_channel (doc_session (cfg_document c)) ch of
        Some k \<Rightarrow> Some k | None \<Rightarrow> find (\<lambda>k. lc_channel k = ch) (pf_lighting (active_profile c))) \<and>
   display_to_restore c = (case ss_display (doc_session (cfg_document c)) of
        Some p \<Rightarrow> Some p | None \<Rightarrow> pf_display (active_profile c)) \<and>
   (case program_to_restore c of
      None \<Rightarrow> (case ss_program (doc_session (cfg_document c)) of
          Some p \<Rightarrow> p = Onboard | None \<Rightarrow> pf_program (active_profile c) = Onboard)
    | Some r \<Rightarrow> pr_program r \<noteq> Onboard \<and>
        (case ss_program (doc_session (cfg_document c)) of
           Some p \<Rightarrow> r = \<lparr>pr_program = p, pr_profile = None\<rparr>
         | None \<Rightarrow> r = \<lparr>pr_program = pf_program (active_profile c), pr_profile = Some (pf_name (active_profile c))\<rparr>))"
proof -
  let ?s = "doc_session (cfg_document c)"
  let ?p = "\<lambda>ch k. lc_channel k = ch"
  let ?f = "\<lambda>k held. if list_ex (\<lambda>h. lc_channel h = lc_channel k) held then held else held @ [k]"
  have sc: "session_channel ?s ch = Some k \<Longrightarrow> lc_channel k = ch" for ch k
    by (auto simp: session_channel_def dest: find_Some_in)
  have fapp: "find (?p ch) (xs @ ys) = (case find (?p ch) xs of Some k \<Rightarrow> Some k | None \<Rightarrow> find (?p ch) ys)"
    for xs ys by (induction xs) auto
  have put: "find (?p ch) (?f k held) =
      (case find (?p ch) held of Some h \<Rightarrow> Some h | None \<Rightarrow> find (?p ch) [k])" for k held
  proof (cases "list_ex (\<lambda>h. lc_channel h = lc_channel k) held \<and> lc_channel k = ch")
    case True
    then have "find (?p ch) held \<noteq> None" by (auto simp: find_None_iff list_ex_iff)
    then show ?thesis using True by (auto split: option.split)
  next
    case False
    then show ?thesis by (auto simp: fapp split: option.split)
  qed
  have fold: "find (?p ch) (fold ?f ks held) =
      (case find (?p ch) held of Some h \<Rightarrow> Some h | None \<Rightarrow> find (?p ch) ks)" for ks held
  proof (induction ks arbitrary: held)
    case (Cons k ks)
    show ?case by (simp only: fold.simps o_apply Cons.IH put) (auto split: option.split)
  qed (simp split: option.split)
  have base: "find (?p ch) (map (\<lambda>k. case session_channel ?s (lc_channel k) of Some committed \<Rightarrow> committed | None \<Rightarrow> k) ks) =
      (case find (?p ch) ks of None \<Rightarrow> None | Some k \<Rightarrow>
         (case session_channel ?s ch of Some committed \<Rightarrow> Some committed | None \<Rightarrow> Some k))" for ks
    by (induction ks) (auto split: option.splits dest: sc)
  have "find (?p ch) (lighting_to_restore c) = (case session_channel ?s ch of
      Some k \<Rightarrow> Some k | None \<Rightarrow> find (?p ch) (pf_lighting (active_profile c)))"
    unfolding lighting_to_restore_def Let_def fold base
    by (auto simp: session_channel_def split: option.split)
  then show ?thesis
    by (auto simp: display_to_restore_def program_to_restore_def Let_def split: option.split)
qed

end
