(* ===== verification/System_Sensors.thy ===== *)
theory System_Sensors
  imports Usb_Sysfs
begin

text \<open>
  \<open>crates/hardware-linux/src/sensors.rs\<close> and \<open>gpu.rs\<close>: processor load, processor temperature and memory
  from \<open>/proc\<close> and one hwmon attribute, and the graphics card over NVML. The load is the busy share of
  the ticks between two readings of \<open>/proc/stat\<close>; the collector keeps the earlier one. The sum of the
  counters is \<open>u64\<close> addition of a release build, which wraps. NVML is a library of the driver: what it
  answers is \<open>nvml_env\<close>.
\<close>

section \<open>Lines and words\<close>

text \<open>\<open>str::lines\<close>: a line ends at a newline, with or without a carriage return before it; a carriage
  return at the very end of the text belongs to the last line.\<close>

definition strip_cr :: "string \<Rightarrow> string" where
  "strip_cr l = (if l \<noteq> [] \<and> last l = CHR 0x0D then butlast l else l)"

function str_lines :: "string \<Rightarrow> string list" where
  "str_lines s = (if s = [] then []
    else (let line = takeWhile (\<lambda>c. c \<noteq> CHR 0x0A) s; rest = dropWhile (\<lambda>c. c \<noteq> CHR 0x0A) s
      in if rest = [] then [line] else strip_cr line # str_lines (tl rest)))"
  by pat_completeness auto
termination
proof (relation "measure length", simp)
  fix s line rest :: string
  assume "rest = dropWhile (\<lambda>c. c \<noteq> CHR 0x0A) s" "rest \<noteq> []"
  then have "length (tl rest) < length rest" "length rest \<le> length s"
    using length_dropWhile_le [of "\<lambda>c. c \<noteq> CHR 0x0A" s] by (simp_all add: length_greater_0_conv [symmetric])
  then show "(tl rest, s) \<in> measure length" by simp
qed

declare str_lines.simps [simp del]

text \<open>\<open>split_whitespace\<close>: the maximal runs of characters that are not white space.\<close>

function char_words :: "string list \<Rightarrow> string list" where
  "char_words cs = (let cs = dropWhile is_whitespace cs in
    if cs = [] then []
    else concat (takeWhile (\<lambda>c. \<not> is_whitespace c) cs) # char_words (dropWhile (\<lambda>c. \<not> is_whitespace c) cs))"
  by pat_completeness auto
termination
proof (relation "measure length", simp)
  fix cs x :: "string list"
  assume x: "x = dropWhile is_whitespace cs" "x \<noteq> []"
  then obtain c r where c: "x = c # r" "\<not> is_whitespace c"
    by (metis dropWhile_eq_Cons_conv neq_Nil_conv)
  have "length (dropWhile (\<lambda>c. \<not> is_whitespace c) x) \<le> length r"
    using c length_dropWhile_le [of "\<lambda>c. \<not> is_whitespace c" r] by simp
  moreover have "length x \<le> length cs"
    using length_dropWhile_le [of is_whitespace cs] x(1) by simp
  ultimately show "(dropWhile (\<lambda>c. \<not> is_whitespace c) x, cs) \<in> measure length"
    using c(1) by simp
qed

declare char_words.simps [simp del]

definition split_whitespace :: "string \<Rightarrow> string list" where
  "split_whitespace s = char_words (chars s)"

definition parse_u64 :: "string \<Rightarrow> u64 option" where
  "parse_u64 s = map_option word_of_nat (parse_unsigned 10 (2 ^ 64 - 1) s)"

text \<open>\<open>collect::<Result<_, _>>\<close>: every value or none.\<close>

fun collect_some :: "'a option list \<Rightarrow> 'a list option" where
  "collect_some [] = Some []"
| "collect_some (x # xs) = Option.bind x (\<lambda>v. map_option (Cons v) (collect_some xs))"

section \<open>The processor\<close>

definition CPU_TEMPERATURE_DRIVERS :: "string list" where
  "CPU_TEMPERATURE_DRIVERS = [''k10temp'']"

record cpu_times =
  cpu_idle :: u64
  cpu_total :: u64

record system_sensors =
  ss_proc_root :: string
  ss_cpu_temperature :: "string option"
  ss_previous :: "cpu_times option"

definition cpu_times_in :: "string \<Rightarrow> string \<Rightarrow> unavailable + cpu_times" where
  "cpu_times_in path t = (case find (starts_with ''cpu '') (str_lines t) of
      None \<Rightarrow> Inl (Unparsable (path @ '' has no aggregate cpu line.''))
    | Some line \<Rightarrow> (case collect_some (map parse_u64 (drop 1 (split_whitespace line))) of
        None \<Rightarrow> Inl (Unparsable (path @ '' publishes a cpu field that is not a number.''))
      | Some counters \<Rightarrow>
          if length counters < 5 then Inl (Unparsable (path @ '' publishes '' @ show_nat (length counters) @
            '' cpu fields, fewer than the five required.''))
          else Inr \<lparr>cpu_idle = counters ! 3 + counters ! 4, cpu_total = sum_list counters\<rparr>))"

definition read_cpu_times :: "attr_env \<Rightarrow> string \<Rightarrow> world \<Rightarrow> (unavailable + cpu_times) \<times> world" where
  "read_cpu_times env path w = (let (r, w) = read_attribute_detailed env path w in
    (case r of Inl cause \<Rightarrow> Inl cause | Inr t \<Rightarrow> cpu_times_in path t, w))"

text \<open>The search for a temperature, which stops at the first recognized driver that publishes one.\<close>

definition cpu_temperature_at :: "attr_env \<Rightarrow> access_env \<Rightarrow> string \<Rightarrow> world \<Rightarrow> string option \<times> world" where
  "cpu_temperature_at env ax entry w =
    and_then_some (read_attribute env (path_join entry ''name'') w) (\<lambda>name w.
      if name \<notin> set CPU_TEMPERATURE_DRIVERS then (None, w)
      else (let (exists, w) = ask_path (ax_exists ax) (path_join entry ''temp1_input'') w
        in (if exists then Some (path_join entry ''temp1_input'') else None, w)))"

definition cpu_temperature_path :: "attr_env \<Rightarrow> access_env \<Rightarrow> string \<Rightarrow> world \<Rightarrow> string option \<times> world" where
  "cpu_temperature_path env ax sysfs w =
    (let (entries, w) = sorted_entries env (path_join sysfs ''class/hwmon'') w
     in find_map_entries (cpu_temperature_at env ax) entries w)"

definition stat_path :: "system_sensors \<Rightarrow> string" where
  "stat_path s = path_join (ss_proc_root s) ''stat''"

definition meminfo_path :: "system_sensors \<Rightarrow> string" where
  "meminfo_path s = path_join (ss_proc_root s) ''meminfo''"

definition sensors_open :: "attr_env \<Rightarrow> access_env \<Rightarrow> string \<Rightarrow> string \<Rightarrow> world \<Rightarrow> system_sensors \<times> world" where
  "sensors_open env ax sysfs proc w =
    (let (temperature, w) = cpu_temperature_path env ax sysfs w;
         s = \<lparr>ss_proc_root = proc, ss_cpu_temperature = temperature, ss_previous = None\<rparr>;
         (times, w) = read_cpu_times env (stat_path s) w
     in (s\<lparr>ss_previous := result_ok times\<rparr>, w))"

definition busy_percent :: "u64 \<Rightarrow> u64 \<Rightarrow> f32" where
  "busy_percent busy ticks =
    f32_mul (f32_div (f32_of_int (uint busy)) (f32_of_int (uint ticks))) (F32 100)"

definition cpu_load_percent :: "attr_env \<Rightarrow> system_sensors \<Rightarrow> world \<Rightarrow> f32 reading \<times> system_sensors \<times> world" where
  "cpu_load_percent env s w =
    (let path = stat_path s; (r, w) = read_cpu_times env path w
     in case r of
          Inl cause \<Rightarrow> (NoReading cause, s, w)
        | Inr current \<Rightarrow> (case ss_previous s of
            None \<Rightarrow> (NoReading (Unreadable (path @ '' has not been sampled twice yet.'')),
              s\<lparr>ss_previous := Some current\<rparr>, w)
          | Some previous \<Rightarrow>
              (let ticks = saturating_sub (cpu_total current) (cpu_total previous);
                   idle = saturating_sub (cpu_idle current) (cpu_idle previous)
               in if ticks = 0
                  then (NoReading (Unreadable (path @ '' advanced by zero ticks between samples.'')), s, w)
                  else (reading_percent (busy_percent (saturating_sub ticks idle) ticks) path,
                    s\<lparr>ss_previous := Some current\<rparr>, w))))"

definition cpu_temperature_c :: "attr_env \<Rightarrow> system_sensors \<Rightarrow> world \<Rightarrow> f32 reading \<times> world" where
  "cpu_temperature_c env s w = (case ss_cpu_temperature s of
      None \<Rightarrow> (NoReading (Absent (''No '' @ join '' or '' CPU_TEMPERATURE_DRIVERS @
        '' hwmon instance publishes a CPU temperature on this machine.'')), w)
    | Some path \<Rightarrow> (let (r, w) = read_attribute_detailed env path w in
        (case r of
           Inl cause \<Rightarrow> NoReading cause
         | Inr t \<Rightarrow> (case parse_i32 t of
             Some m \<Rightarrow> Valid (f32_div (f32_of_int (sint m)) (F32 1000))
           | None \<Rightarrow> NoReading (Unparsable (path @ '' holds '' @ debug_str t @ ''.''))), w)))"

section \<open>Memory\<close>

text \<open>\<open>checked_mul(1024)\<close>.\<close>

definition kib_to_bytes :: "u64 \<Rightarrow> u64 option" where
  "kib_to_bytes v = (if unat v * 1024 < 2 ^ 64 then Some (v * 1024) else None)"

definition meminfo_field :: "string \<Rightarrow> string \<Rightarrow> u64 option" where
  "meminfo_field t key = Option.bind (find (starts_with (key @ '':'')) (str_lines t)) (\<lambda>line.
    case split_whitespace line of
      _ # v # _ \<Rightarrow> Option.bind (parse_u64 v) kib_to_bytes
    | _ \<Rightarrow> None)"

definition memory_in :: "string \<Rightarrow> string \<Rightarrow> memory_usage reading" where
  "memory_in path t = (case (meminfo_field t ''MemTotal'', meminfo_field t ''MemAvailable'') of
      (Some installed, Some available) \<Rightarrow>
        if 0 < installed then Valid \<lparr>mu_used_bytes = saturating_sub installed available, mu_total_bytes = installed\<rparr>
        else NoReading (Unparsable (path @ '' does not publish both MemTotal and MemAvailable.''))
    | _ \<Rightarrow> NoReading (Unparsable (path @ '' does not publish both MemTotal and MemAvailable.'')))"

definition sensors_memory :: "attr_env \<Rightarrow> system_sensors \<Rightarrow> world \<Rightarrow> memory_usage reading \<times> world" where
  "sensors_memory env s w = (let (r, w) = read_attribute_detailed env (meminfo_path s) w in
    (case r of Inl cause \<Rightarrow> NoReading cause | Inr t \<Rightarrow> memory_in (meminfo_path s) t, w))"

definition sensors_telemetry :: "attr_env \<Rightarrow> u64 \<Rightarrow> system_sensors \<Rightarrow> world \<Rightarrow>
    system_telemetry \<times> system_sensors \<times> world" where
  "sensors_telemetry env at_unix_ms s w =
    (let (load, s, w) = cpu_load_percent env s w;
         (temperature, w) = cpu_temperature_c env s w;
         (memory, w) = sensors_memory env s w
     in (\<lparr>st_at_unix_ms = at_unix_ms, st_cpu_load_percent = load, st_cpu_temperature_c = temperature,
           st_memory = memory\<rparr>, s, w))"

section \<open>The graphics card\<close>

text \<open>One answer of NVML is an error text or a value; \<open>nv_library\<close> is the library itself.\<close>

record nvml_env =
  nv_library :: "string + unit"
  nv_device :: "io_event list \<Rightarrow> string + unit"
  nv_name :: "io_event list \<Rightarrow> string + string"
  nv_utilization :: "io_event list \<Rightarrow> string + u32"
  nv_temperature :: "io_event list \<Rightarrow> string + u32"

type_synonym gpu_sensor = "unavailable + unit"

definition gpu_open :: "nvml_env \<Rightarrow> gpu_sensor" where
  "gpu_open nv = map_err (\<lambda>e. Absent (''NVML is not available on this machine: '' @ e @
    ''. GPU metrics stay unavailable and every other metric keeps updating.'')) (nv_library nv)"

definition gpu_field :: "string + 'a \<Rightarrow> string \<Rightarrow> ('a \<Rightarrow> 'b reading) \<Rightarrow> 'b reading" where
  "gpu_field answer what f = (case answer of
      Inr v \<Rightarrow> f v
    | Inl e \<Rightarrow> NoReading (Unreadable (''NVML did not report '' @ what @ '': '' @ e)))"

definition gpu_sample :: "nvml_env \<Rightarrow> gpu_sensor \<Rightarrow> u64 \<Rightarrow> io_event list \<Rightarrow> gpu_telemetry" where
  "gpu_sample nv sensor at_unix_ms t = (case sensor of
      Inl cause \<Rightarrow> gpu_unavailable at_unix_ms cause
    | Inr _ \<Rightarrow> (case nv_device nv t of
        Inl e \<Rightarrow> gpu_unavailable at_unix_ms (Absent (''NVML exposes no device at index 0: '' @ e))
      | Inr _ \<Rightarrow>
          \<lparr>gt_at_unix_ms = at_unix_ms, gt_source = ''NVML'',
           gt_name = gpu_field (nv_name nv t) ''a device name'' Valid,
           gt_load_percent = gpu_field (nv_utilization nv t) ''utilization''
             (\<lambda>u. reading_percent (f32_of_int (uint u)) ''NVML utilization''),
           gt_temperature_c = gpu_field (nv_temperature nv t) ''a die temperature''
             (\<lambda>d. Valid (f32_of_int (uint d)))\<rparr>))"

section \<open>What a sample says\<close>

lemma silent_read_cpu_times [silent_rules]: "silent w (snd (read_cpu_times env p w))"
  by (simp add: read_cpu_times_def split_beta silent_rules)

lemma silent_cpu_load_percent: "silent w (snd (snd (cpu_load_percent env s w)))"
  by (auto simp: cpu_load_percent_def split_beta Let_def silent_rules split: sum.split option.split)

lemma silent_cpu_temperature_c [silent_rules]: "silent w (snd (cpu_temperature_c env s w))"
  by (auto simp: cpu_temperature_c_def split_beta silent_rules split: option.split)

lemma silent_sensors_memory [silent_rules]: "silent w (snd (sensors_memory env s w))"
  by (simp add: sensors_memory_def split_beta silent_rules)

lemma silent_sensors_telemetry: "silent w (snd (snd (sensors_telemetry env t s w)))"
  unfolding sensors_telemetry_def Let_def split_beta snd_conv
  by (intro silent_trans [OF silent_trans [OF silent_cpu_load_percent silent_cpu_temperature_c]
      silent_sensors_memory])

lemma silent_cpu_temperature_at [silent_rules]: "silent w (snd (cpu_temperature_at env ax e w))"
  unfolding cpu_temperature_at_def Let_def by (intro silent_rules)

lemma silent_cpu_temperature_path [silent_rules]: "silent w (snd (cpu_temperature_path env ax sysfs w))"
  unfolding cpu_temperature_path_def Let_def by (intro silent_rules)

lemma silent_sensors_open: "silent w (snd (sensors_open env ax sysfs proc w))"
  unfolding sensors_open_def Let_def by (intro silent_rules)

lemma reading_percent_cases:
  "reading_percent v m = Valid p \<Longrightarrow> \<exists>x. p = F32 x \<and> 0 \<le> x \<and> x \<le> 100"
  by (auto simp: reading_percent_def split: option.splits dest: clamp_percent_range)

text \<open>The published figures of one sample, in their ranges.\<close>

definition system_in_range :: "system_telemetry \<Rightarrow> bool" where
  "system_in_range t =
    ((case st_cpu_load_percent t of NoReading _ \<Rightarrow> True
      | Valid p \<Rightarrow> (case p of F32 x \<Rightarrow> 0 \<le> x \<and> x \<le> 100 | _ \<Rightarrow> False)) \<and>
     (case st_cpu_temperature_c t of NoReading _ \<Rightarrow> True | Valid p \<Rightarrow> (case p of F32 x \<Rightarrow> True | _ \<Rightarrow> False)) \<and>
     (case st_memory t of NoReading _ \<Rightarrow> True
      | Valid m \<Rightarrow> 0 < mu_total_bytes m \<and> mu_used_bytes m \<le> mu_total_bytes m))"

lemma f32_round_le_power:
  assumes "\<bar>x\<bar> \<le> 2 powi k" "-149 \<le> k" "k < 100"
  obtains y where "f32_round x = F32 y" "\<bar>y\<bar> \<le> 2 powi k" "0 \<le> x \<Longrightarrow> 0 \<le> y"
proof
  have "(2 :: rat) powi k < 2 powi 100" using assms(3) by (intro power_int_strict_increasing) simp_all
  then show "f32_round x = F32 (round_sig x)" using assms(1) by (intro f32_round_small) linarith
  show "\<bar>round_sig x\<bar> \<le> 2 powi k"
    using round_sig_le_power [OF assms(1,2)] round_sig_le_power [of "- x" k] assms(1,2)
    by (simp add: round_sig_minus abs_le_iff)
  show "0 \<le> round_sig x" if "0 \<le> x" using that by (rule round_sig_nonneg)
qed

lemma f32_of_millis: "\<exists>y. f32_div (f32_of_int (sint (m :: i32))) (F32 1000) = F32 y"
proof -
  have "- (2 ^ 31) \<le> sint m" "sint m < 2 ^ 31"
    using sint_range_size [of m] by (simp_all add: word_size)
  then have "\<bar>sint m\<bar> \<le> 2 ^ 31" by linarith
  then have "of_int \<bar>sint m\<bar> \<le> (of_int (2 ^ 31) :: rat)" by (simp only: of_int_le_iff)
  then have "\<bar>of_int (sint m) :: rat\<bar> \<le> 2 powi 31" by simp
  then obtain y where y: "f32_round (of_int (sint m)) = F32 y" "\<bar>y\<bar> \<le> 2 powi 31"
    by (rule f32_round_le_power) simp_all
  have "\<bar>y / 1000\<bar> \<le> 2 powi 31" using y(2) by simp
  then obtain z where "f32_round (y / 1000) = F32 z"
    by (rule f32_round_le_power) simp_all
  then show ?thesis using y(1) by (simp add: f32_of_int_def f32_arith_simps)
qed

lemma f32_of_millis_finite:
  "case f32_div (f32_of_int (sint (m :: i32))) (F32 1000) of F32 x \<Rightarrow> True | _ \<Rightarrow> False"
  using f32_of_millis [of m] by auto

lemma f32_of_u64:
  obtains y where "f32_of_int (uint (v :: u64)) = F32 y" "0 \<le> y" "y \<le> 2 powi 64" "v \<noteq> 0 \<Longrightarrow> 1 \<le> y"
proof -
  have v: "0 \<le> uint v" "uint v < 2 ^ 64" using uint_range_size [of v] by (simp_all add: word_size)
  have nn: "0 \<le> (of_int (uint v) :: rat)" using v(1) by (simp only: of_int_0_le_iff)
  have "of_int (uint v) \<le> (of_int (2 ^ 64) :: rat)" using v(2) by (simp only: of_int_le_iff)
  then have le: "\<bar>of_int (uint v) :: rat\<bar> \<le> 2 powi 64"
    unfolding abs_of_nonneg [OF nn] by (simp only: of_int_power of_int_numeral power_int_numeral)
  then obtain y where y: "f32_round (of_int (uint v)) = F32 y" "\<bar>y\<bar> \<le> 2 powi 64"
    "0 \<le> (of_int (uint v) :: rat) \<Longrightarrow> 0 \<le> y"
    by (rule f32_round_le_power) simp_all
  have "1 \<le> y" if "v \<noteq> 0"
  proof -
    have "1 \<le> uint v" using that v(1) by (metis int_one_le_iff_zero_less order_le_less uint_0_iff)
    then have "(of_int 1 :: rat) \<le> of_int (uint v)" by (simp only: of_int_le_iff)
    then have "(2 :: rat) powi 0 \<le> of_int (uint v)" by (simp only: power_int_0_right of_int_1)
    then have "2 powi 0 \<le> round_sig (of_int (uint v))" by (rule round_sig_ge_power) simp
    moreover have "f32_round (of_int (uint v)) = F32 (round_sig (of_int (uint v)))"
      using le
      by (intro f32_round_small) (rule order_le_less_trans, assumption, simp)
    ultimately show ?thesis using y(1) by simp
  qed
  then show ?thesis using that y(1,2) y(3) [OF nn] by (auto simp: f32_of_int_def abs_le_iff)
qed

lemma busy_percent_finite:
  assumes "ticks \<noteq> 0"
  shows "\<exists>y. busy_percent busy ticks = F32 y"
proof -
  obtain a where a: "f32_of_int (uint busy) = F32 a" "0 \<le> a" "a \<le> 2 powi 64" by (rule f32_of_u64 [of busy]) blast
  obtain b where b: "f32_of_int (uint ticks) = F32 b" "0 \<le> b" "1 \<le> b"
    using assms by (metis f32_of_u64)
  have "a / b \<le> a" using a(2) b(3) by (simp add: divide_le_eq mult_left_le order_trans mult_le_cancel_left1)
  then have "\<bar>a / b\<bar> \<le> 2 powi 64" using a b by simp
  then obtain c where c: "f32_round (a / b) = F32 c" "\<bar>c\<bar> \<le> 2 powi 64"
    by (rule f32_round_le_power) simp_all
  have "\<bar>c * 100\<bar> \<le> 2 powi 71" using c(2) by (simp add: abs_mult)
  then obtain d where "f32_round (c * 100) = F32 d"
    by (rule f32_round_le_power) simp_all
  then show ?thesis using a b c by (simp add: busy_percent_def f32_arith_simps)
qed

lemma reading_percent_finite: "reading_is_valid (reading_percent (F32 y) m)"
  by (simp add: reading_percent_def clamp_percent_cases)

lemma reading_percent_range:
  "case reading_percent v m of NoReading _ \<Rightarrow> True | Valid p \<Rightarrow> (case p of F32 x \<Rightarrow> 0 \<le> x \<and> x \<le> 100 | _ \<Rightarrow> False)"
  using reading_percent_cases [of v m] by (cases "reading_percent v m") auto

definition ticked :: "system_sensors \<Rightarrow> unavailable + cpu_times \<Rightarrow> bool" where
  "ticked s r = (case (r, ss_previous s) of
      (Inr current, Some previous) \<Rightarrow> cpu_total previous < cpu_total current
    | _ \<Rightarrow> False)"

lemma cpu_load_cases:
  "(case cpu_load_percent env s w of (load, s', w') \<Rightarrow>
    (case load of NoReading _ \<Rightarrow> True
      | Valid p \<Rightarrow> (case p of F32 x \<Rightarrow> 0 \<le> x \<and> x \<le> 100 | _ \<Rightarrow> False)) \<and>
    reading_is_valid load = ticked s (fst (read_cpu_times env (stat_path s) w)) \<and>
    s' = s\<lparr>ss_previous := (case fst (read_cpu_times env (stat_path s) w) of
        Inl _ \<Rightarrow> ss_previous s
      | Inr current \<Rightarrow> if ss_previous s = None \<or> ticked s (Inr current) then Some current
          else ss_previous s)\<rparr>)"
proof (cases "fst (read_cpu_times env (stat_path s) w)")
  case (Inr current)
  show ?thesis
  proof (cases "ss_previous s")
    case (Some previous)
    let ?t = "saturating_sub (cpu_total current) (cpu_total previous)"
    let ?b = "saturating_sub ?t (saturating_sub (cpu_idle current) (cpu_idle previous))"
    have t: "?t = 0 \<longleftrightarrow> \<not> cpu_total previous < cpu_total current"
      by (simp add: saturating_sub_eq_0 not_less)
    have valid: "reading_is_valid (reading_percent (busy_percent ?b ?t) p)" if "?t \<noteq> 0" for p
      using busy_percent_finite [OF that, of ?b] reading_percent_finite by auto
    show ?thesis
      using Inr Some t valid reading_percent_range [of "busy_percent ?b ?t" "stat_path s"]
      by (auto simp: cpu_load_percent_def split_beta Let_def ticked_def)
  qed (simp add: cpu_load_percent_def split_beta Let_def ticked_def Inr)
qed (simp add: cpu_load_percent_def split_beta Let_def ticked_def)

lemma memory_in_range:
  "case memory_in p t of NoReading _ \<Rightarrow> True
   | Valid m \<Rightarrow> 0 < mu_total_bytes m \<and> mu_used_bytes m \<le> mu_total_bytes m"
  by (auto simp: memory_in_def split: option.split)

text \<open>Every figure of a sample of the machine is in its range whatever \<open>/proc\<close> holds: the load
  between 0 and 100, the temperature a finite number, no more memory used than installed and some
  installed. A load is published exactly when both readings parsed and the counter of all ticks
  advanced between them; the earlier reading is replaced only by one that was used or was the first,
  so a reading inside one tick or a file that cannot be read does not shorten the next interval.
  Taking the sample writes nothing.\<close>

theorem system_sample_spec:
  "silent w (snd (snd (sensors_telemetry env now s w))) \<and>
   (case sensors_telemetry env now s w of (t, s', w') \<Rightarrow>
     system_in_range t \<and> st_at_unix_ms t = now \<and>
     reading_is_valid (st_cpu_load_percent t) = ticked s (fst (read_cpu_times env (stat_path s) w)) \<and>
     s' = s\<lparr>ss_previous := (case fst (read_cpu_times env (stat_path s) w) of
         Inl _ \<Rightarrow> ss_previous s
       | Inr current \<Rightarrow> if ss_previous s = None \<or> ticked s (Inr current) then Some current
           else ss_previous s)\<rparr>)"
proof -
  obtain load s1 w1 where l: "cpu_load_percent env s w = (load, s1, w1)"
    by (cases "cpu_load_percent env s w")
  have temperature: "case fst (cpu_temperature_c env s1 w1) of NoReading _ \<Rightarrow> True
      | Valid p \<Rightarrow> (case p of F32 x \<Rightarrow> True | _ \<Rightarrow> False)"
    by (auto simp: cpu_temperature_c_def split_beta f32_of_millis_finite split: option.split sum.split)
  have memory: "case fst (sensors_memory env s1 v) of NoReading _ \<Rightarrow> True
      | Valid m \<Rightarrow> 0 < mu_total_bytes m \<and> mu_used_bytes m \<le> mu_total_bytes m" for v
    using memory_in_range by (simp add: sensors_memory_def split_beta split: sum.split)
  show ?thesis
    using cpu_load_cases [where env = env and s = s and w = w] temperature memory silent_sensors_telemetry [of w env now s]
    by (simp add: sensors_telemetry_def l split_beta Let_def system_in_range_def)
qed

end
