(* ===== verification/Sampler.thy ===== *)
theory Sampler
  imports System_Sensors Alerts
begin

text \<open>
  \<open>crates/daemon/src/telemetry.rs\<close>: the three collectors and the state they publish into. A collector
  samples outside the lock, so what reaches the shared state is a sequence of finished passes in the
  order the lock was taken: a section, or the detail of the panic that was caught. A panic may leave the
  collector half updated, so its state after one is arbitrary. The threads and their sleep are not
  modelled; \<open>nap_slices\<close> is how the wait between two passes is cut.
\<close>

section \<open>The shared state\<close>

record sampler_state =
  sm_sequence :: u64
  sm_kraken :: kraken_telemetry
  sm_alerts :: "safety_alert list"
  sm_system :: system_telemetry
  sm_gpu :: gpu_telemetry
  sm_failures :: "collector_failure list"

definition sampler_new :: "u64 \<Rightarrow> sampler_state" where
  "sampler_new now =
    (let waiting = Unreadable ''The first sample has not completed yet.''
     in \<lparr>sm_sequence = 0, sm_kraken = kraken_absent now waiting, sm_alerts = [],
         sm_system = system_unavailable now waiting, sm_gpu = gpu_unavailable now waiting,
         sm_failures = []\<rparr>)"

definition set_failure :: "collector \<Rightarrow> string option \<Rightarrow> sampler_state \<Rightarrow> sampler_state" where
  "set_failure c detail s =
    (let others = filter (\<lambda>f. cf_collector f \<noteq> c) (sm_failures s)
     in s\<lparr>sm_failures := (case detail of
          Some d \<Rightarrow> others @ [\<lparr>cf_collector = c, cf_detail = d\<rparr>]
        | None \<Rightarrow> others)\<rparr>)"

definition sampler_snapshot :: "clock_env \<Rightarrow> u64 \<Rightarrow> sampler_state option \<Rightarrow> world \<Rightarrow> telemetry_snapshot \<times> world" where
  "sampler_snapshot clock interval_ms locked w =
    (let (now, w) = now_unix_ms clock w in
     (case locked of
        None \<Rightarrow> snapshot_unavailable now (Unreadable ''The sampler state is unavailable.'')
      | Some s \<Rightarrow>
          \<lparr>ts_sequence = sm_sequence s, ts_at_unix_ms = now, ts_interval_ms = interval_ms,
           ts_kraken = sm_kraken s, ts_system = sm_system s, ts_gpu = sm_gpu s,
           ts_alerts = sm_alerts s, ts_failed = sm_failures s\<rparr>, w))"

section \<open>One pass published\<close>

datatype telemetry_section =
    KrakenSection kraken_telemetry "safety_alert list"
  | SystemSection system_telemetry
  | GpuSection gpu_telemetry

text \<open>The collector a section is published under; memory is sampled with the processor.\<close>

fun section_collector :: "telemetry_section \<Rightarrow> collector" where
  "section_collector (KrakenSection _ _) = Kraken"
| "section_collector (SystemSection _) = Cpu"
| "section_collector (GpuSection _) = Gpu"

fun put_section :: "telemetry_section \<Rightarrow> sampler_state \<Rightarrow> sampler_state" where
  "put_section (KrakenSection t alerts) s = s\<lparr>sm_kraken := t, sm_alerts := alerts\<rparr>"
| "put_section (SystemSection t) s = s\<lparr>sm_system := t\<rparr>"
| "put_section (GpuSection t) s = s\<lparr>sm_gpu := t\<rparr>"

definition panic_text :: "collector \<Rightarrow> string \<Rightarrow> string" where
  "panic_text c detail = ''The '' @ collector_label c @ '' collector panicked and was isolated: '' @ detail @
    ''. Its readings age out while every other collector keeps running.''"

text \<open>The payload of a panic: a string of either kind, or nothing readable.\<close>

definition panic_detail :: "string option \<Rightarrow> string" where
  "panic_detail payload = (case payload of Some message \<Rightarrow> message | None \<Rightarrow> ''no message'')"

datatype pass = Finished telemetry_section | Panicked collector "string option"

fun pass_collector :: "pass \<Rightarrow> collector" where
  "pass_collector (Finished x) = section_collector x"
| "pass_collector (Panicked c _) = c"

fun publish :: "pass \<Rightarrow> sampler_state \<Rightarrow> sampler_state" where
  "publish (Finished x) s =
    (let s = put_section x (set_failure (section_collector x) None s)
     in s\<lparr>sm_sequence := sm_sequence s + 1\<rparr>)"
| "publish (Panicked c payload) s = set_failure c (Some (panic_text c (panic_detail payload))) s"

section \<open>The collectors\<close>

record kraken_collector =
  kc_hwmon :: "kraken_hwmon option"
  kc_tracker :: alert_tracker

definition kraken_collector_start :: "attr_env \<Rightarrow> string \<Rightarrow> world \<Rightarrow> kraken_collector \<times> world" where
  "kraken_collector_start env sysfs w = (let (h, w) = locate env sysfs w in
    (\<lparr>kc_hwmon = h, kc_tracker = tracker_new\<rparr>, w))"

definition gone :: "kraken_telemetry \<Rightarrow> bool" where
  "gone t = (\<not> reading_is_valid (kt_liquid_temperature_c t) \<and> \<not> reading_is_valid (ct_rpm (kt_pump t)) \<and>
    \<not> reading_is_valid (ct_rpm (kt_fan t)))"

definition kraken_sample :: "attr_env \<Rightarrow> string \<Rightarrow> u64 \<Rightarrow> kraken_collector \<Rightarrow> world \<Rightarrow>
    telemetry_section \<times> kraken_collector \<times> world" where
  "kraken_sample env sysfs now c w =
    (let (h, w) = (case kc_hwmon c of Some h \<Rightarrow> (Some h, w) | None \<Rightarrow> locate env sysfs w)
     in case h of
          None \<Rightarrow> (KrakenSection (kraken_absent now
              (NoDevice ''No kraken2023 hwmon instance is bound to an allowlisted device.'')) [],
            c\<lparr>kc_hwmon := None\<rparr>, w)
        | Some i \<Rightarrow>
            (let (t, w) = read_kraken_telemetry env i now w;
                 (tracker, alerts) = tracker_observe (kc_tracker c) t
             in (KrakenSection t alerts,
                 \<lparr>kc_hwmon = (if gone t then None else Some i), kc_tracker = tracker\<rparr>, w)))"

record collectors =
  co_kraken :: kraken_collector
  co_system :: system_sensors
  co_gpu :: gpu_sensor

record sampler_env =
  sv_attr :: attr_env
  sv_clock :: clock_env
  sv_nvml :: nvml_env
  sv_sysfs :: string

definition system_sample :: "sampler_env \<Rightarrow> u64 \<Rightarrow> collectors \<Rightarrow> world \<Rightarrow> pass \<times> collectors \<times> world" where
  "system_sample en now co w = (let (t, s, w) = sensors_telemetry (sv_attr en) now (co_system co) w in
    (Finished (SystemSection t), co\<lparr>co_system := s\<rparr>, w))"

definition cooler_sample :: "sampler_env \<Rightarrow> u64 \<Rightarrow> collectors \<Rightarrow> world \<Rightarrow> pass \<times> collectors \<times> world" where
  "cooler_sample en now co w = (let (x, k, w) = kraken_sample (sv_attr en) (sv_sysfs en) now (co_kraken co) w in
    (Finished x, co\<lparr>co_kraken := k\<rparr>, w))"

definition card_sample :: "sampler_env \<Rightarrow> u64 \<Rightarrow> collectors \<Rightarrow> world \<Rightarrow> pass \<times> collectors \<times> world" where
  "card_sample en now co w =
    (Finished (GpuSection (gpu_sample (sv_nvml en) (co_gpu co) now (w_trace w))), co, w)"

text \<open>What happens to the sampler: a thread finishes a pass, or panics in one and is left in any state.\<close>

datatype sampler_op = CoolerPass | SystemPass | CardPass | PanicIn collector "string option" collectors

definition sampler_pass :: "sampler_env \<Rightarrow> sampler_op \<Rightarrow> collectors \<Rightarrow> world \<Rightarrow> pass \<times> collectors \<times> world" where
  "sampler_pass en k co w = (let (now, w) = now_unix_ms (sv_clock en) w in
    case k of
      CoolerPass \<Rightarrow> cooler_sample en now co w
    | SystemPass \<Rightarrow> system_sample en now co w
    | CardPass \<Rightarrow> card_sample en now co w
    | PanicIn c payload co' \<Rightarrow> (Panicked c payload, co', w))"

fun run_sampler :: "sampler_env \<Rightarrow> sampler_op list \<Rightarrow> sampler_state \<Rightarrow> collectors \<Rightarrow> world \<Rightarrow>
    sampler_state \<times> collectors \<times> world" where
  "run_sampler en [] s co w = (s, co, w)"
| "run_sampler en (k # ks) s co w =
    (let (p, co, w) = sampler_pass en k co w in run_sampler en ks (publish p s) co w)"

section \<open>The wait\<close>

definition SHUTDOWN_GRANULARITY :: duration where "SHUTDOWN_GRANULARITY = from_millis 50"

text \<open>The slices of a wait nobody interrupts.\<close>

function nap_slices :: "duration \<Rightarrow> duration list" where
  "nap_slices remaining = (if remaining = 0 then []
    else (let slice = min remaining SHUTDOWN_GRANULARITY in slice # nap_slices (remaining - slice)))"
  by pat_completeness auto
termination
  by (relation "measure id") (auto simp: SHUTDOWN_GRANULARITY_def from_millis_def NANOS_PER_MS_def)

declare nap_slices.simps [simp del]

lemma nap_slices_whole:
  "sum_list (nap_slices d) = d \<and> list_all (\<lambda>n. 0 < n \<and> n \<le> SHUTDOWN_GRANULARITY) (nap_slices d)"
proof (induction d rule: nap_slices.induct)
  case (1 d)
  then show ?case
    by (subst (1 2) nap_slices.simps)
      (auto simp: Let_def SHUTDOWN_GRANULARITY_def from_millis_def NANOS_PER_MS_def)
qed

section \<open>Isolation\<close>

definition failure_of :: "sampler_state \<Rightarrow> collector \<Rightarrow> string option" where
  "failure_of s c = map_option cf_detail (find (\<lambda>f. cf_collector f = c) (sm_failures s))"

text \<open>The part of the shared state one collector owns.\<close>

definition collector_view :: "collector \<Rightarrow> sampler_state \<Rightarrow>
    telemetry_section option \<times> string option" where
  "collector_view c s =
    ((case c of Kraken \<Rightarrow> Some (KrakenSection (sm_kraken s) (sm_alerts s))
      | Cpu \<Rightarrow> Some (SystemSection (sm_system s)) | Gpu \<Rightarrow> Some (GpuSection (sm_gpu s)) | Memory \<Rightarrow> None),
     failure_of s c)"

lemma find_filter_id: "(\<And>x. P x \<Longrightarrow> Q x) \<Longrightarrow> find P (filter Q xs) = find P xs"
  by (induction xs) auto

lemma find_snoc: "find P (xs @ [x]) = (case find P xs of None \<Rightarrow> if P x then Some x else None | Some y \<Rightarrow> Some y)"
  by (induction xs) simp_all

lemma find_filter_none: "find (\<lambda>f. g f = c) (filter (\<lambda>f. g f \<noteq> c) xs) = None"
  by (induction xs) auto

lemma failure_of_set:
  "failure_of (set_failure c d s) c' = (if c' = c then d else failure_of s c')"
proof (cases "c' = c")
  case True
  then show ?thesis
    by (auto simp: failure_of_def set_failure_def Let_def find_snoc find_filter_none split: option.split)
next
  case False
  then have "find (\<lambda>f. cf_collector f = c') (filter (\<lambda>f. cf_collector f \<noteq> c) (sm_failures s)) =
      find (\<lambda>f. cf_collector f = c') (sm_failures s)"
    by (intro find_filter_id) auto
  then show ?thesis using False
    by (auto simp: failure_of_def set_failure_def Let_def find_snoc split: option.split)
qed

lemma failure_of_update [simp]:
  "failure_of (s\<lparr>sm_sequence := n\<rparr>) c = failure_of s c" "failure_of (s\<lparr>sm_kraken := t\<rparr>) c = failure_of s c"
  "failure_of (s\<lparr>sm_alerts := a\<rparr>) c = failure_of s c" "failure_of (s\<lparr>sm_system := m\<rparr>) c = failure_of s c"
  "failure_of (s\<lparr>sm_gpu := g\<rparr>) c = failure_of s c"
  by (simp_all add: failure_of_def)

lemma set_failure_fields [simp]:
  "sm_kraken (set_failure c d s) = sm_kraken s" "sm_alerts (set_failure c d s) = sm_alerts s"
  "sm_system (set_failure c d s) = sm_system s" "sm_gpu (set_failure c d s) = sm_gpu s"
  "sm_sequence (set_failure c d s) = sm_sequence s"
  by (simp_all add: set_failure_def Let_def)

text \<open>What a pass makes of the view of its own collector.\<close>

definition view_step :: "pass \<Rightarrow> telemetry_section option \<times> string option \<Rightarrow>
    telemetry_section option \<times> string option" where
  "view_step p v = (case p of
      Finished x \<Rightarrow> (Some x, None)
    | Panicked c payload \<Rightarrow> (fst v, Some (panic_text c (panic_detail payload))))"

lemma publish_view:
  "collector_view c (publish p s) =
    (if pass_collector p = c then view_step p (collector_view c s) else collector_view c s)"
proof (cases p)
  case (Finished x)
  then show ?thesis
    by (cases x; cases c) (simp_all add: collector_view_def view_step_def Let_def failure_of_set)
next
  case (Panicked d payload)
  then show ?thesis
    by (cases c) (auto simp: collector_view_def view_step_def failure_of_set)
qed

lemma publish_sequence:
  "sm_sequence (publish p s) = sm_sequence s + (case p of Finished _ \<Rightarrow> 1 | Panicked _ _ \<Rightarrow> 0)"
proof (cases p)
  case (Finished x)
  then show ?thesis by (cases x) (simp_all add: Let_def)
qed simp

text \<open>C20: The collectors do not reach into each other. Whatever the order in which passes of several
  collectors are published, what one of them shows is its own passes alone, folded in their own order:
  its last finished section, and as its failure the panic of its last pass, if that was one. A panic
  changes nothing but that entry, and the sequence counts the finished passes.\<close>

theorem collectors_isolated:
  "collector_view c (fold publish ps (sampler_new now)) =
     fold view_step (filter (\<lambda>p. pass_collector p = c) ps) (collector_view c (sampler_new now)) \<and>
   sm_sequence (fold publish ps (sampler_new now)) =
     word_of_nat (length (filter (\<lambda>p. case p of Finished _ \<Rightarrow> True | Panicked _ _ \<Rightarrow> False) ps))"
proof -
  have "collector_view c (fold publish ps s) =
      fold view_step (filter (\<lambda>p. pass_collector p = c) ps) (collector_view c s)" for s
    by (induction ps arbitrary: s) (auto simp: publish_view)
  moreover have "sm_sequence (fold publish ps s) = sm_sequence s +
      word_of_nat (length (filter (\<lambda>p. case p of Finished _ \<Rightarrow> True | Panicked _ _ \<Rightarrow> False) ps))" for s
    by (induction ps arbitrary: s) (auto simp: publish_sequence split: pass.split)
  ultimately show ?thesis by (simp add: sampler_new_def Let_def)
qed

section \<open>A whole run\<close>

definition sampler_ok :: "sampler_state \<Rightarrow> bool" where
  "sampler_ok s = (distinct (map cf_collector (sm_failures s)) \<and>
    (sm_alerts s = [] \<or> kt_present (sm_kraken s)))"

lemma set_failure_distinct:
  "distinct (map cf_collector (sm_failures s)) \<Longrightarrow> distinct (map cf_collector (sm_failures (set_failure c d s)))"
  by (auto simp: set_failure_def Let_def distinct_map inj_on_def split: option.split)

lemma kraken_sample_section:
  "\<exists>t alerts. fst (kraken_sample env sysfs now c w) = KrakenSection t alerts \<and>
    (alerts = [] \<or> kt_present t) \<and> kt_at_unix_ms t = now"
  by (auto simp: kraken_sample_def split_beta Let_def kraken_absent_def read_kraken_telemetry_def
      split: option.split)

lemma silent_kraken_sample: "silent w (snd (snd (kraken_sample env sysfs now c w)))"
  using silent_trans [OF silent_locate silent_read_kraken_telemetry] silent_locate silent_read_kraken_telemetry
  by (auto simp: kraken_sample_def split_beta Let_def split: option.split)

lemma sampler_pass_step:
  assumes "sampler_ok s"
  shows "sampler_ok (publish (fst (sampler_pass en k co w)) s) \<and>
    silent w (snd (snd (sampler_pass en k co w)))"
proof -
  let ?now = "fst (now_unix_ms (sv_clock en) w)"
  let ?w = "snd (now_unix_ms (sv_clock en) w)"
  have u: "silent w ?w" by (rule silent_unix)
  have d: "distinct (map cf_collector (sm_failures (set_failure c x s)))" for c x
    using assms by (intro set_failure_distinct) (simp add: sampler_ok_def)
  have p: "sm_alerts s = [] \<or> kt_present (sm_kraken s)" using assms by (simp add: sampler_ok_def)
  show ?thesis
  proof (cases k)
    case CoolerPass
    obtain t alerts where x: "fst (kraken_sample (sv_attr en) (sv_sysfs en) ?now (co_kraken co) ?w) =
        KrakenSection t alerts" "alerts = [] \<or> kt_present t"
      using kraken_sample_section by blast
    show ?thesis
      using CoolerPass x d silent_trans [OF u silent_kraken_sample]
      by (auto simp: sampler_pass_def cooler_sample_def split_beta Let_def sampler_ok_def)
  next
    case SystemPass
    then show ?thesis using d p silent_trans [OF u silent_sensors_telemetry]
      by (simp add: sampler_pass_def system_sample_def split_beta Let_def sampler_ok_def)
  next
    case CardPass
    then show ?thesis using d p u
      by (simp add: sampler_pass_def card_sample_def split_beta Let_def sampler_ok_def)
  next
    case (PanicIn c payload co')
    then show ?thesis using d p u
      by (simp add: sampler_pass_def split_beta Let_def sampler_ok_def)
  qed
qed

lemma sampler_run_ok:
  "sampler_ok s \<Longrightarrow> sampler_ok (fst (run_sampler en ks s co w)) \<and>
    silent w (snd (snd (run_sampler en ks s co w)))"
proof (induction ks arbitrary: s co w)
  case (Cons k ks)
  show ?case
    using sampler_pass_step [OF Cons.prems, of en k co w] Cons.IH silent_trans
    by (auto simp: split_beta Let_def)
qed simp

text \<open>C21: Telemetry never writes. Over any interleaving of passes and panics, from any state a panic left a
  collector in, the sampler sends nothing and writes no attribute; the failures it reports name each
  collector at most once; and an alert stands only over a sample of a cooler that was there.\<close>

theorem sampling_only_reads:
  "silent w (snd (snd (run_sampler en ks (sampler_new now) co w))) \<and>
   sampler_ok (fst (run_sampler en ks (sampler_new now) co w))"
proof -
  have "sampler_ok (sampler_new now)"
    by (simp add: sampler_ok_def sampler_new_def Let_def)
  then show ?thesis using sampler_run_ok by blast
qed

end
