(* ===== verification/Daemon.thy ===== *)
theory Daemon
  imports Cooling_Executor Lighting_Executor Display_Executor Config_Store
begin

text \<open>
  \<open>crates/daemon/src/state.rs\<close>: the state of one daemon and the handler of every typed request. The
  server holds the daemon in a mutex, so the requests and the ticks come one after the other: a run is
  a list of them. What surrounds the daemon is \<open>daemon_env\<close>: the attribute files, the disk, the
  clocks, the TOML and JSON codecs, the renderer, and the latest snapshot of the sampler, whose
  threads publish it. Every write path has the same shape, a chain of gates before the executor, the
  executor, the event, and the session record.
\<close>

section \<open>State\<close>

record daemon_env =
  en_attr :: attr_env
  en_fs :: fs_env
  en_clock :: clock_env
  en_toml :: toml_codec
  en_renderer :: panel_renderer
  en_snapshot :: "io_event list \<Rightarrow> telemetry_snapshot"
  en_to_json :: "diagnostics_export \<Rightarrow> json option"
  en_from_json :: "json \<Rightarrow> diagnostics_export option"
  en_version :: string

record daemon =
  dn_socket :: string
  dn_capabilities :: capability_record
  dn_locks :: "device_id list"
  dn_conflicts :: "ownership_conflict list"
  dn_config :: configuration
  dn_diagnostics :: diagnostics_log
  dn_cooling :: cooling_executor
  dn_lighting :: lighting_executor
  dn_display :: display_executor
  dn_reported :: "collector \<Rightarrow> string option"

datatype response =
    RespHello u32 string
  | RespStatus daemon_status
  | RespCapabilities capability_record
  | RespProfiles string "profile list"
  | RespActivated activation_outcome
  | RespSaved string
  | RespDeleted string "string option"
  | RespTelemetry telemetry_snapshot
  | RespApplied apply_outcome
  | RespLit lighting_outcome
  | RespShown display_outcome
  | RespDiagnostics diagnostics_export
  | RespError ipc_error

definition note_event :: "daemon_env \<Rightarrow> event_kind \<Rightarrow> daemon \<Rightarrow> world \<Rightarrow> daemon \<times> world" where
  "note_event en k d w = (let (now, w) = now_unix_ms (en_clock en) w in
    (d\<lparr>dn_diagnostics := log_record (dn_diagnostics d) now k\<rparr>, w))"

section \<open>The gates\<close>

datatype read_only = Held "ownership_conflict list" | NothingWritable

definition NO_WRITABLE :: string where
  "NO_WRITABLE = ''No writable control attribute is available to this user. '' @
    ''Check the installed udev rule.''"

definition into_conflicts :: "read_only \<Rightarrow> ownership_conflict list" where
  "into_conflicts r = (case r of
      Held conflicts \<Rightarrow> conflicts
    | NothingWritable \<Rightarrow> [\<lparr>oc_device = None, oc_resource = ''hwmon'', oc_detail = NO_WRITABLE\<rparr>])"

definition read_only_text :: "read_only \<Rightarrow> string" where
  "read_only_text r = join '' '' (map oc_detail (into_conflicts r))"

definition has_writable_capability :: "daemon \<Rightarrow> bool" where
  "has_writable_capability d = list_ex
    (\<lambda>v. list_ex (\<lambda>c. is_writable (cap_state c)) (dr_capabilities v)) (record_supported (dn_capabilities d))"

definition daemon_read_only :: "daemon \<Rightarrow> read_only option" where
  "daemon_read_only d =
    (if dn_conflicts d \<noteq> [] then Some (Held (dn_conflicts d))
     else if has_writable_capability d then None
     else Some NothingWritable)"

definition daemon_access_mode :: "daemon \<Rightarrow> access_mode" where
  "daemon_access_mode d = (case daemon_read_only d of
      None \<Rightarrow> ReadWrite | Some cause \<Rightarrow> AccessReadOnly (into_conflicts cause))"

definition read_only_reason :: "daemon \<Rightarrow> string option" where
  "read_only_reason d = map_option read_only_text (daemon_read_only d)"

definition require_write_access :: "daemon \<Rightarrow> ipc_error + unit" where
  "require_write_access d = (case read_only_reason d of
      None \<Rightarrow> Inr () | Some reason \<Rightarrow> Inl (ReadOnlyRefused reason))"

definition supported_device :: "daemon \<Rightarrow> device_id \<Rightarrow> ipc_error + device_record" where
  "supported_device d i = (case record_device (dn_capabilities d) i of
      None \<Rightarrow> Inl NoDevicePresent
    | Some v \<Rightarrow> if is_supported v then Inr v else Inl NoDevicePresent)"

definition require_writable :: "device_record \<Rightarrow> capability_id \<Rightarrow> ipc_error + unit" where
  "require_writable v i =
    (if can_write v i then Inr ()
     else Inl (Incompatible [\<lparr>inc_capability = i, inc_reason =
       (case Option.bind (capability_of v i) (\<lambda>c. blocked_reason (cap_state c)) of
          Some r \<Rightarrow> r
        | None \<Rightarrow> capability_label i @ '' is absent from the capability record.'')\<rparr>]))"

definition ipc_of_config_error :: "config_error \<Rightarrow> ipc_error" where
  "ipc_of_config_error e = (case e of
      InvalidProfile _ source \<Rightarrow> ValidationFailed source
    | MissingActiveProfile name \<Rightarrow> ProfileNotFound name
    | DuplicateProfile name \<Rightarrow> ProfileNameUnavailable name
    | other \<Rightarrow> IoFailed (config_error_display other))"

section \<open>The session record\<close>

definition remember :: "daemon_env \<Rightarrow> config_command \<Rightarrow> daemon \<Rightarrow> world \<Rightarrow> daemon \<times> world" where
  "remember en k d w =
    (let (r, c, w) = (case k of
         CProgram p \<Rightarrow> record_program (en_toml en) (en_fs en) p (dn_config d) w
       | CLighting k \<Rightarrow> record_lighting (en_toml en) (en_fs en) k (dn_config d) w
       | CDisplay p \<Rightarrow> record_display (en_toml en) (en_fs en) p (dn_config d) w
       | _ \<Rightarrow> (Inr (), dn_config d, w));
         d = d\<lparr>dn_config := c\<rparr>
     in case r of
          Inr _ \<Rightarrow> (d, w)
        | Inl e \<Rightarrow> note_event en (SessionNotRecorded (config_error_display e)) d w)"

definition remember_if_confirmed :: "daemon_env \<Rightarrow> hardware_state \<Rightarrow> config_command \<Rightarrow> daemon \<Rightarrow> world \<Rightarrow>
    daemon \<times> world" where
  "remember_if_confirmed en h k d w = (if h = HwConfirmed then remember en k d w else (d, w))"

section \<open>The three write paths\<close>

definition cool :: "daemon_env \<Rightarrow> cooling_program \<Rightarrow> daemon \<Rightarrow> world \<Rightarrow> apply_outcome \<times> daemon \<times> world" where
  "cool en p d w =
    (let (now, w) = instant_now (en_clock en) w;
         (o1, x, w) = cooling_apply (en_attr en) (en_clock en) now p (dn_cooling d) w
     in (o1, d\<lparr>dn_cooling := x\<rparr>, w))"

definition execute_gates :: "cooling_program \<Rightarrow> daemon \<Rightarrow> ipc_error + unit" where
  "execute_gates p d = (case supported_device d KRAKEN_BASE of
      Inl e \<Rightarrow> Inl e
    | Inr v \<Rightarrow>
        if program_incompatibilities p v \<noteq> [] then Inl (Incompatible (program_incompatibilities p v))
        else require_write_access d)"

definition execute :: "daemon_env \<Rightarrow> cooling_program \<Rightarrow> daemon \<Rightarrow> world \<Rightarrow>
    (ipc_error + apply_outcome) \<times> daemon \<times> world" where
  "execute en p d w = (case validate_program p of
      Inl e \<Rightarrow> (Inl (ValidationFailed e), d, w)
    | Inr _ \<Rightarrow>
        if p = Onboard then (let (o1, d, w) = cool en p d w in (Inr o1, d, w))
        else (case execute_gates p d of
            Inl e \<Rightarrow> (Inl e, d, w)
          | Inr _ \<Rightarrow>
              (let (o1, d, w) = cool en p d w;
                   (d, w) = note_event en (ProgramApplied (ao_hardware o1) (ao_writes o1)) d w;
                   (d, w) = remember_if_confirmed en (ao_hardware o1) (CProgram p) d w
               in (Inr o1, d, w))))"

definition illuminate_gates :: "lighting_command \<Rightarrow> daemon \<Rightarrow> ipc_error + unit" where
  "illuminate_gates c d = (case validate_command c (lighting_channel_count (dn_lighting d)) of
      Inl e \<Rightarrow> Inl (LightingFailed e)
    | Inr _ \<Rightarrow> (case supported_device d RGB_CONTROLLER of
        Inl e \<Rightarrow> Inl e
      | Inr v \<Rightarrow> (case require_writable v (required_capability (lc_program c)) of
          Inl e \<Rightarrow> Inl e
        | Inr _ \<Rightarrow> require_write_access d)))"

definition illuminate :: "daemon_env \<Rightarrow> lighting_command \<Rightarrow> daemon \<Rightarrow> world \<Rightarrow>
    (ipc_error + lighting_outcome) \<times> daemon \<times> world" where
  "illuminate en c d w = (case illuminate_gates c d of
      Inl e \<Rightarrow> (Inl e, d, w)
    | Inr _ \<Rightarrow>
        (let (now, w) = instant_now (en_clock en) w;
             (o1, x, w) = lighting_apply now c (dn_lighting d) w;
             d = d\<lparr>dn_lighting := x\<rparr>;
             (d, w) = note_event en (LightingApplied (lo_channel o1) (lighting_summary (lo_program o1))
               (lo_hardware o1) (lo_writes o1)) d w;
             (d, w) = remember_if_confirmed en (lo_hardware o1) (CLighting c) d w
         in (Inr o1, d, w)))"

definition show_gates :: "display_preset \<Rightarrow> daemon \<Rightarrow> ipc_error + unit" where
  "show_gates p d = (case validate_preset p of
      Inl e \<Rightarrow> Inl (DisplayFailed e)
    | Inr _ \<Rightarrow> (case supported_device d KRAKEN_BASE of
        Inl e \<Rightarrow> Inl e
      | Inr v \<Rightarrow> (case require_writable v LcdFrame of
          Inl e \<Rightarrow> Inl e
        | Inr _ \<Rightarrow> (case require_writable v LcdDisplayControl of
            Inl e \<Rightarrow> Inl e
          | Inr _ \<Rightarrow> require_write_access d))))"

definition show_preset :: "daemon_env \<Rightarrow> display_preset \<Rightarrow> daemon \<Rightarrow> world \<Rightarrow>
    (ipc_error + display_outcome) \<times> daemon \<times> world" where
  "show_preset en p d w = (case show_gates p d of
      Inl e \<Rightarrow> (Inl e, d, w)
    | Inr _ \<Rightarrow>
        (let samples = preset_samples p (en_snapshot en (w_trace w));
             (r, x, w) = display_apply (en_renderer en) (en_clock en) p samples (dn_display d) w;
             d = d\<lparr>dn_display := x\<rparr>
         in case r of
              Inl e \<Rightarrow> (Inl (DisplayFailed e), d, w)
            | Inr o1 \<Rightarrow>
                (let (d, w) = note_event en (DisplayApplied (mode_key (dp_mode p)) (do_hardware o1)
                       (do_frames o1)) d w;
                     (d, w) = remember_if_confirmed en (do_hardware o1) (CDisplay p) d w
                 in (Inr o1, d, w))))"

section \<open>Replaying\<close>

definition replay_program :: "daemon_env \<Rightarrow> restored_program \<Rightarrow> daemon \<Rightarrow> world \<Rightarrow>
    apply_outcome \<times> daemon \<times> world" where
  "replay_program en held d w =
    (let (r, d, w) = execute en (pr_program held) d w;
         (o1, unreported) = (case r of
             Inr o1 \<Rightarrow> (o1, None)
           | Inl e \<Rightarrow> (outcome_untouched (HwNotApplied (ipc_error_display e)), Some (HwNotApplied (ipc_error_display e))));
         (now, w) = now_unix_ms (en_clock en) w;
         d = (case pr_profile held of
             Some name \<Rightarrow> d\<lparr>dn_diagnostics := log_record (dn_diagnostics d) now (ProfileActivated name (ao_hardware o1))\<rparr>
           | None \<Rightarrow> (case unreported of
               Some h \<Rightarrow> d\<lparr>dn_diagnostics := log_record (dn_diagnostics d) now (ProgramApplied h 0)\<rparr>
             | None \<Rightarrow> d))
     in (o1, d, w))"

definition replay_display :: "daemon_env \<Rightarrow> display_preset option \<Rightarrow> daemon \<Rightarrow> world \<Rightarrow> daemon \<times> world" where
  "replay_display en preset d w = (case preset of
      None \<Rightarrow> (d, w)
    | Some p \<Rightarrow>
        (let (r, d, w) = show_preset en p d w in
         case r of
           Inr _ \<Rightarrow> (d, w)
         | Inl e \<Rightarrow> note_event en (DisplayApplied (mode_key (dp_mode p))
             (HwNotApplied (ipc_error_display e)) 0) d w))"

fun replay_lighting :: "daemon_env \<Rightarrow> lighting_command list \<Rightarrow> daemon \<Rightarrow> world \<Rightarrow> daemon \<times> world" where
  "replay_lighting en [] d w = (d, w)"
| "replay_lighting en (c # cs) d w =
    (let (r, d, w) = illuminate en c d w;
         (d, w) = (case r of
             Inr _ \<Rightarrow> (d, w)
           | Inl e \<Rightarrow> note_event en (LightingApplied (lc_channel c) (lighting_summary (lc_program c))
               (HwNotApplied (ipc_error_display e)) 0) d w)
     in replay_lighting en cs d w)"

definition restore_active_profile :: "daemon_env \<Rightarrow> daemon \<Rightarrow> world \<Rightarrow> daemon \<times> world" where
  "restore_active_profile en d w =
    (let (d, w) = replay_lighting en (lighting_to_restore (dn_config d)) d w;
         (d, w) = replay_display en (display_to_restore (dn_config d)) d w
     in case program_to_restore (dn_config d) of
          None \<Rightarrow> (d, w)
        | Some held \<Rightarrow> snd (replay_program en held d w))"

end
