(* ===== verification/Daemon_Requests.thy ===== *)
theory Daemon_Requests
  imports Daemon
begin

text \<open>
  The rest of \<open>crates/daemon/src/state.rs\<close>: the status, the typed requests, the profile commands, and
  the daemon's own clock. A tick settles what the hardware owns (is the cooler there, does it run the
  curve it was given, which collector fails) and redraws the panel; an animation has a clock of its
  own. \<open>daemon_op\<close> is everything the server may do to the daemon, and a run is a list of them.
\<close>

section \<open>Status\<close>

definition device_status_of :: "daemon \<Rightarrow> device_record \<Rightarrow> device_status" where
  "device_status_of d v =
    \<lparr>ds_id = device_id_of v, ds_present = True,
     ds_owned = list_all (\<lambda>c. oc_device c \<noteq> Some (device_id_of v)) (dn_conflicts d),
     ds_writable = List.map_filter
       (\<lambda>c. if blocked_reason (cap_state c) = None then Some (cap_id c) else None) (dr_capabilities v),
     ds_blocked = List.map_filter
       (\<lambda>c. map_option (\<lambda>r. \<lparr>bc_capability = cap_id c, bc_reason = r\<rparr>) (blocked_reason (cap_state c)))
       (dr_capabilities v)\<rparr>"

definition status :: "daemon_env \<Rightarrow> daemon \<Rightarrow> daemon_status" where
  "status en d =
    \<lparr>dm_daemon_version = en_version en, dm_protocol_version = PROTOCOL_VERSION,
     dm_access = daemon_access_mode d,
     dm_devices = map (device_status_of d) (record_supported (dn_capabilities d)),
     dm_active_profile = doc_active_profile (cfg_document (dn_config d)),
     dm_config = cfg_state (dn_config d),
     dm_cooling = committed_program (dn_cooling d),
     dm_lighting = lighting_state (dn_lighting d),
     dm_display = display_state_of (dn_display d),
     dm_socket_path = dn_socket d\<rparr>"

section \<open>Profiles\<close>

definition save_profile_request :: "daemon_env \<Rightarrow> profile \<Rightarrow> daemon \<Rightarrow> world \<Rightarrow> response \<times> daemon \<times> world" where
  "save_profile_request en p d w =
    (let (r, c, w) = save_profile (en_toml en) (en_fs en) p (dn_config d) w;
         d = d\<lparr>dn_config := c\<rparr>
     in case r of
          Inl e \<Rightarrow> (RespError (ipc_of_config_error e), d, w)
        | Inr _ \<Rightarrow> (let (d, w) = note_event en (ProfileSaved (pf_name p)) d w
            in (RespSaved (pf_name p), d, w)))"

definition targets_for :: "profile \<Rightarrow> daemon \<Rightarrow> device_record list" where
  "targets_for p d = filter
    (\<lambda>v. case pf_device p of
        Some i \<Rightarrow> device_id_of v = i
      | None \<Rightarrow> list_ex (\<lambda>k. capability_of v k \<noteq> None) (required_capabilities (pf_program p)))
    (record_supported (dn_capabilities d))"

definition activation_gates :: "profile \<Rightarrow> daemon \<Rightarrow> ipc_error + unit" where
  "activation_gates p d =
    (if pf_program p = Onboard then Inr ()
     else (let targets = targets_for p d;
               details = concat (map (incompatibilities p) targets)
           in if targets = [] then Inl NoDevicePresent
              else if details \<noteq> [] then Inl (Incompatible details)
              else require_write_access d))"

definition activate_profile :: "daemon_env \<Rightarrow> string \<Rightarrow> daemon \<Rightarrow> world \<Rightarrow> response \<times> daemon \<times> world" where
  "activate_profile en name d w = (case config_profile (dn_config d) name of
      None \<Rightarrow> (RespError (ProfileNotFound name), d, w)
    | Some p \<Rightarrow> (case activation_gates p d of
        Inl e \<Rightarrow> (RespError e, d, w)
      | Inr _ \<Rightarrow>
          (let (r, c, w) = activate (en_toml en) (en_fs en) name (dn_config d) w;
               d = d\<lparr>dn_config := c\<rparr>
           in case r of
                Inl e \<Rightarrow> (RespError (ipc_of_config_error e), d, w)
              | Inr p \<Rightarrow>
                  (let (d, w) = replay_lighting en (pf_lighting p) d w;
                       (d, w) = replay_display en (pf_display p) d w;
                       (applied, d, w) = replay_program en
                         \<lparr>pr_program = pf_program p, pr_profile = Some (pf_name p)\<rparr> d w
                   in (RespActivated \<lparr>act_name = pf_name p, act_hardware = ao_hardware applied,
                         act_applied = Some applied\<rparr>, d, w)))))"

definition delete_profile_request :: "daemon_env \<Rightarrow> string \<Rightarrow> daemon \<Rightarrow> world \<Rightarrow> response \<times> daemon \<times> world" where
  "delete_profile_request en name d w =
    (let (r, c, w) = delete_profile (en_toml en) (en_fs en) name (dn_config d) w;
         d = d\<lparr>dn_config := c\<rparr>
     in case r of
          Inl e \<Rightarrow> (RespError (ipc_of_config_error e), d, w)
        | Inr instead \<Rightarrow> (let (d, w) = note_event en (ProfileDeleted name) d w
            in (RespDeleted name instead, d, w)))"

section \<open>Requests\<close>

definition reply_with :: "('a \<Rightarrow> response) \<Rightarrow> (ipc_error + 'a) \<times> daemon \<times> world \<Rightarrow> response \<times> daemon \<times> world" where
  "reply_with f m = (let (r, d, w) = m in (case r of Inl e \<Rightarrow> RespError e | Inr x \<Rightarrow> f x, d, w))"

fun dispatch :: "daemon_env \<Rightarrow> request \<Rightarrow> daemon \<Rightarrow> world \<Rightarrow> response \<times> daemon \<times> world" where
  "dispatch en (ReqHello v) d w =
    ((if v \<noteq> PROTOCOL_VERSION then RespError (UnsupportedProtocol v PROTOCOL_VERSION)
      else RespHello PROTOCOL_VERSION (en_version en)), d, w)"
| "dispatch en ReqStatus d w = (RespStatus (status en d), d, w)"
| "dispatch en ReqCapabilities d w = (RespCapabilities (dn_capabilities d), d, w)"
| "dispatch en ReqProfiles d w =
    (RespProfiles (doc_active_profile (cfg_document (dn_config d))) (config_profiles (dn_config d)), d, w)"
| "dispatch en (ReqSaveProfile p) d w = save_profile_request en p d w"
| "dispatch en (ReqActivateProfile name) d w = activate_profile en name d w"
| "dispatch en (ReqDeleteProfile name) d w = delete_profile_request en name d w"
| "dispatch en ReqTelemetry d w = (RespTelemetry (en_snapshot en (w_trace w)), d, w)"
| "dispatch en (ReqApplyProgram p) d w = reply_with RespApplied (execute en p d w)"
| "dispatch en (ReqApplyLighting c) d w = reply_with RespLit (illuminate en c d w)"
| "dispatch en (ReqApplyDisplay p) d w = reply_with RespShown (show_preset en p d w)"
| "dispatch en ReqDiagnostics d w =
    (let (now, w) = now_unix_ms (en_clock en) w in
      (RespDiagnostics (log_export (en_to_json en) (en_from_json en) (dn_diagnostics d) now (en_version en)
         (Some (dn_capabilities d))), d, w))"

definition handle :: "daemon_env \<Rightarrow> request \<Rightarrow> daemon \<Rightarrow> world \<Rightarrow> response \<times> daemon \<times> world" where
  "handle en q d w =
    (let (r, d, w) = dispatch en q d w in
     case r of
       RespError e \<Rightarrow> (let (d, w) = note_event en (RequestRejected e) d w in (r, d, w))
     | _ \<Rightarrow> (r, d, w))"

section \<open>The daemon's own clock\<close>

fun note_events :: "daemon_env \<Rightarrow> event_kind list \<Rightarrow> daemon \<Rightarrow> world \<Rightarrow> daemon \<times> world" where
  "note_events en [] d w = (d, w)"
| "note_events en (k # ks) d w = (let (d, w) = note_event en k d w in note_events en ks d w)"

text \<open>The failures of a snapshot by collector; a later entry of a collector replaces an earlier one.\<close>

definition current_failures :: "telemetry_snapshot \<Rightarrow> collector \<Rightarrow> string option" where
  "current_failures s = map_of (rev (map (\<lambda>f. (cf_collector f, cf_detail f)) (ts_failed s)))"

definition health_events :: "(collector \<Rightarrow> string option) \<Rightarrow> (collector \<Rightarrow> string option) \<Rightarrow> event_kind list" where
  "health_events reported current =
    List.map_filter (\<lambda>c. case current c of
        Some detail \<Rightarrow> if reported c \<noteq> Some detail then Some (CollectorFailed c detail) else None
      | None \<Rightarrow> None) COLLECTORS @
    List.map_filter (\<lambda>c. if reported c \<noteq> None \<and> current c = None then Some (CollectorRecovered c) else None)
      COLLECTORS"

definition record_collector_health :: "daemon_env \<Rightarrow> telemetry_snapshot \<Rightarrow> daemon \<Rightarrow> world \<Rightarrow> daemon \<times> world" where
  "record_collector_health en s d w =
    (let current = current_failures s;
         (d, w) = note_events en (health_events (dn_reported d) current) d w
     in (d\<lparr>dn_reported := current\<rparr>, w))"

definition divergence_event :: "curve_divergence \<Rightarrow> event_kind" where
  "divergence_event v =
    CurveDiverged (cd_channel v) (word_of_int (cd_liquid_temperature_mc v)) (cd_expected v) (cd_reported v)"

definition reconcile :: "daemon_env \<Rightarrow> telemetry_snapshot \<Rightarrow> daemon \<Rightarrow> world \<Rightarrow> daemon \<times> world" where
  "reconcile en s d w =
    (let (d, w) =
       (if \<not> kt_present (ts_kraken s)
        then (d\<lparr>dn_cooling := cooling_forget (dn_cooling d), dn_display := display_forget (dn_display d)\<rparr>, w)
        else (let (now, w) = now_unix_ms (en_clock en) w;
                  (diverged, x) = verify_curves (ts_kraken s) now (dn_cooling d)
              in (d\<lparr>dn_cooling := x,
                    dn_diagnostics := fold (\<lambda>v l. log_record l now (divergence_event v)) diverged
                      (dn_diagnostics d)\<rparr>, w)))
     in record_collector_health en s d w)"

definition tick :: "daemon_env \<Rightarrow> daemon \<Rightarrow> world \<Rightarrow> daemon \<times> world" where
  "tick en d w =
    (let s = en_snapshot en (w_trace w);
         (d, w) = reconcile en s d w
     in if \<not> kt_present (ts_kraken s) then (d, w)
        else (case dx_active (dn_display d) of
          None \<Rightarrow> (d, w)
        | Some p \<Rightarrow>
            (let (r, x, w) = display_refresh (en_renderer en) (preset_samples p s) (dn_display d) w;
                 d = d\<lparr>dn_display := x\<rparr>
             in case r of
                  Some o1 \<Rightarrow>
                    (if 0 < do_frames o1
                     then note_event en (DisplayApplied (mode_key (dp_mode p)) (do_hardware o1) (do_frames o1)) d w
                     else (d, w))
                | None \<Rightarrow> (d, w))))"

definition drop_display_frame :: "daemon \<Rightarrow> daemon" where
  "drop_display_frame d = d\<lparr>dn_display := drop_frame (dn_display d)\<rparr>"

definition tick_animation :: "instant \<Rightarrow> daemon \<Rightarrow> world \<Rightarrow> (instant option \<times> daemon \<times> world) option" where
  "tick_animation now d w = map_option (\<lambda>(due, x, w). (due, d\<lparr>dn_display := x\<rparr>, w))
    (advance_animation now (dn_display d) w)"

section \<open>Runs\<close>

datatype daemon_op =
    OpRequest request
  | OpTick
  | OpDropFrame
  | OpAnimate instant
  | OpClientRejected string
  | OpClientAccepted u32 i32
  | OpClientDisconnected string

fun daemon_step :: "daemon_env \<Rightarrow> daemon_op \<Rightarrow> daemon \<Rightarrow> world \<Rightarrow> (daemon \<times> world) option" where
  "daemon_step en (OpRequest q) d w = Some (snd (handle en q d w))"
| "daemon_step en OpTick d w = Some (tick en d w)"
| "daemon_step en OpDropFrame d w = Some (drop_display_frame d, w)"
| "daemon_step en (OpAnimate now) d w = map_option snd (tick_animation now d w)"
| "daemon_step en (OpClientRejected reason) d w = Some (note_event en (ClientRejected reason) d w)"
| "daemon_step en (OpClientAccepted uid pid) d w = Some (note_event en (ClientAccepted uid pid) d w)"
| "daemon_step en (OpClientDisconnected detail) d w = Some (note_event en (ClientDisconnected detail) d w)"

fun run_daemon :: "daemon_env \<Rightarrow> daemon_op list \<Rightarrow> daemon \<Rightarrow> world \<Rightarrow> (daemon \<times> world) option" where
  "run_daemon en [] d w = Some (d, w)"
| "run_daemon en (k # ks) d w = (case daemon_step en k d w of
      None \<Rightarrow> None
    | Some (d', w') \<Rightarrow> run_daemon en ks d' w')"

end
