(* ===== verification/Daemon_Safety.thy ===== *)
theory Daemon_Safety
  imports Daemon_Requests
begin

text \<open>
  What holds of the daemon over any sequence of requests and ticks. The locale \<open>daemon_relation\<close> is
  the contract of its parts: a relation between a state of the daemon and a later one that every
  effect keeps (the clock, the disk, the records, an executor behind its gates) is kept by every
  request, every tick and every run. It is interpreted on two relations of the model: what a daemon
  without write access sends, and the validity of the configuration in memory.
\<close>

section \<open>The contract of the parts\<close>

locale request_relation =
  fixes en :: daemon_env
    and R :: "daemon \<times> world \<Rightarrow> daemon \<times> world \<Rightarrow> bool"
  assumes refl: "R s s"
    and trans: "\<lbrakk>R s t; R t u\<rbrakk> \<Longrightarrow> R s u"
    and clock: "silent w w' \<Longrightarrow> R (d, w) (d, w')"
    and logged: "R (d, w) (d\<lparr>dn_diagnostics := l\<rparr>, w)"
    and config: "config_step (en_toml en) (en_fs en) k (dn_config d) w = (ok, c, w') \<Longrightarrow>
      R (d, w) (d\<lparr>dn_config := c\<rparr>, w')"
    and cooled: "p = Onboard \<or> require_write_access d = Inr () \<Longrightarrow>
      cooling_apply (en_attr en) (en_clock en) now p (dn_cooling d) w = (o1, x, w') \<Longrightarrow>
      R (d, w) (d\<lparr>dn_cooling := x\<rparr>, w')"
    and lit: "require_write_access d = Inr () \<Longrightarrow>
      lighting_apply now lc (dn_lighting d) w = (o2, y, w') \<Longrightarrow> R (d, w) (d\<lparr>dn_lighting := y\<rparr>, w')"
    and shown: "require_write_access d = Inr () \<Longrightarrow>
      display_apply (en_renderer en) (en_clock en) pr sm (dn_display d) w = (o3, z, w') \<Longrightarrow>
      R (d, w) (d\<lparr>dn_display := z\<rparr>, w')"
begin

lemma noted: "R s (d, w) \<Longrightarrow> R s (note_event en k d w)"
proof -
  have "R (d, w) (d, snd (now_unix_ms (en_clock en) w))" by (rule clock [OF silent_unix])
  moreover have "R (d, v) (d\<lparr>dn_diagnostics := l\<rparr>, v)" for v l
    by (rule logged)
  ultimately show "R s (d, w) \<Longrightarrow> R s (note_event en k d w)"
    unfolding note_event_def split_beta Let_def by (blast intro: trans)
qed

lemma remembered: "R s (d, w) \<Longrightarrow> R s (remember en k d w)"
proof -
  assume s: "R s (d, w)"
  let ?m = "case k of CProgram p \<Rightarrow> record_program (en_toml en) (en_fs en) p (dn_config d) w
     | CLighting k \<Rightarrow> record_lighting (en_toml en) (en_fs en) k (dn_config d) w
     | CDisplay p \<Rightarrow> record_display (en_toml en) (en_fs en) p (dn_config d) w
     | _ \<Rightarrow> (Inr (), dn_config d, w)"
  obtain r c v where m: "?m = (r, c, v)" by (cases ?m)
  have "R (d, w) (d\<lparr>dn_config := c\<rparr>, v)"
  proof (cases "\<exists>ok. config_step (en_toml en) (en_fs en) k (dn_config d) w = (ok, c, v)")
    case True
    then show ?thesis using config by blast
  next
    case False
    then have "c = dn_config d \<and> v = w" using m by (cases k) (auto simp: split_beta)
    then show ?thesis using refl by simp
  qed
  then have "R s (d\<lparr>dn_config := c\<rparr>, v)" by (rule trans [OF s])
  then show "R s (remember en k d w)"
    using noted by (cases r) (simp_all add: remember_def m)
qed

lemma execute_keeps: "R s (d, w) \<Longrightarrow> R s (snd (execute en p d w))"
proof -
  assume s: "R s (d, w)"
  obtain now v where t: "instant_now (en_clock en) w = (now, v)" by fastforce
  obtain o1 x u where a: "cooling_apply (en_attr en) (en_clock en) now p (dn_cooling d) v = (o1, x, u)"
    by (cases "cooling_apply (en_attr en) (en_clock en) now p (dn_cooling d) v")
  have v: "R s (d, v)" using trans [OF s clock] silent_instant [of w "en_clock en"] t by simp
  have c: "R s (snd (cool en p d w))" if "p = Onboard \<or> require_write_access d = Inr ()"
    using trans [OF v cooled [OF that a]] by (simp add: cool_def t a)
  have g: "execute_gates p d = Inr u \<Longrightarrow> require_write_access d = Inr ()" for u
    by (auto simp: execute_gates_def split: sum.splits if_splits)
  show ?thesis
    using s c g remembered noted
    by (auto simp: execute_def remember_if_confirmed_def split_beta Let_def split: sum.split prod.split)
qed

lemma illuminate_keeps: "R s (d, w) \<Longrightarrow> R s (snd (illuminate en k d w))"
proof -
  assume s: "R s (d, w)"
  obtain now v where t: "instant_now (en_clock en) w = (now, v)" by fastforce
  obtain o2 y u where a: "lighting_apply now k (dn_lighting d) v = (o2, y, u)"
    by (cases "lighting_apply now k (dn_lighting d) v")
  have v: "R s (d, v)" using trans [OF s clock] silent_instant [of w "en_clock en"] t by simp
  have g: "illuminate_gates k d = Inr i \<Longrightarrow> require_write_access d = Inr ()" for i
    by (auto simp: illuminate_gates_def split: sum.splits)
  show ?thesis
    using s trans [OF v lit [OF g a]] remembered noted
    by (auto simp: illuminate_def remember_if_confirmed_def t a split_beta Let_def split: sum.split prod.split)
qed

lemma show_keeps: "R s (d, w) \<Longrightarrow> R s (snd (show_preset en p d w))"
proof -
  assume s: "R s (d, w)"
  let ?sm = "preset_samples p (en_snapshot en (w_trace w))"
  obtain r z u where a: "display_apply (en_renderer en) (en_clock en) p ?sm (dn_display d) w = (r, z, u)"
    by (cases "display_apply (en_renderer en) (en_clock en) p ?sm (dn_display d) w")
  have g: "show_gates p d = Inr i \<Longrightarrow> require_write_access d = Inr ()" for i
    by (auto simp: show_gates_def split: sum.splits)
  have st: "R s (d\<lparr>dn_display := z\<rparr>, u)" if "require_write_access d = Inr ()"
    using trans [OF s shown [OF that a]] .
  show ?thesis
    using s st g remembered noted
    by (auto simp: show_preset_def remember_if_confirmed_def a split_beta Let_def split: sum.split prod.split)
qed

lemma replay_program_keeps: "R s (d, w) \<Longrightarrow> R s (snd (replay_program en held d w))"
proof -
  assume s: "R s (d, w)"
  obtain r d' w' where e: "execute en (pr_program held) d w = (r, d', w')"
    by (cases "execute en (pr_program held) d w")
  have k: "R s (d', w')" using execute_keeps [OF s, of "pr_program held"] e by simp
  have "R s (d', snd (now_unix_ms (en_clock en) w'))" using trans [OF k clock [OF silent_unix]] .
  moreover have "R s (d'\<lparr>dn_diagnostics := log_record (dn_diagnostics d') (fst (now_unix_ms (en_clock en) w')) kind\<rparr>,
      snd (now_unix_ms (en_clock en) w'))" for kind
    using noted [OF k, of kind] by (simp add: note_event_def split_beta)
  ultimately show ?thesis
    by (auto simp: replay_program_def e split_beta Let_def split: sum.split option.split)
qed

lemma noted_eq: "\<lbrakk>note_event en k d w = (d', w'); R s (d, w)\<rbrakk> \<Longrightarrow> R s (d', w')"
  using noted [of s d w k] by simp

lemma replay_display_keeps: "R s (d, w) \<Longrightarrow> R s (replay_display en preset d w)"
proof (cases preset)
  case (Some p)
  assume s: "R s (d, w)"
  obtain r d' w' where i: "show_preset en p d w = (r, d', w')" by (cases "show_preset en p d w")
  have "R s (d', w')" using show_keeps [OF s, of p] i by simp
  then show ?thesis using noted by (cases r) (simp_all add: replay_display_def Some i)
qed (simp add: replay_display_def)

lemma replay_lighting_keeps: "R s (d, w) \<Longrightarrow> R s (replay_lighting en ks d w)"
proof (induction ks arbitrary: d w)
  case (Cons k ks)
  obtain r d' w' where i: "illuminate en k d w = (r, d', w')" by (cases "illuminate en k d w")
  have k: "R s (d', w')" using illuminate_keeps [OF Cons.prems, of k] i by simp
  show ?case
  proof (cases r)
    case (Inl e)
    obtain d'' w'' where n: "note_event en (LightingApplied (lc_channel k) (lighting_summary (lc_program k))
        (HwNotApplied (ipc_error_display e)) 0) d' w' = (d'', w'')"
      by fastforce
    show ?thesis using Cons.IH [OF noted_eq [OF n k]] by (simp add: i Inl n)
  next
    case (Inr x)
    then show ?thesis using Cons.IH [OF k] by (simp add: i)
  qed
qed simp

lemma restore_keeps: "R s (d, w) \<Longrightarrow> R s (restore_active_profile en d w)"
  unfolding restore_active_profile_def split_beta Let_def
  using replay_program_keeps replay_display_keeps replay_lighting_keeps
  by (auto split: option.split)

lemma config_edit_keeps:
  "\<lbrakk>R s (d, w); config_step (en_toml en) (en_fs en) k (dn_config d) w = (ok, c, w')\<rbrakk> \<Longrightarrow>
    R s (d\<lparr>dn_config := c\<rparr>, w')"
  by (rule trans, assumption, rule config)

lemma save_keeps: "R s (d, w) \<Longrightarrow> R s (snd (save_profile_request en p d w))"
proof -
  assume s: "R s (d, w)"
  obtain r c v where m: "save_profile (en_toml en) (en_fs en) p (dn_config d) w = (r, c, v)"
    by (cases "save_profile (en_toml en) (en_fs en) p (dn_config d) w")
  have "R s (d\<lparr>dn_config := c\<rparr>, v)"
    by (rule config_edit_keeps [OF s, where k = "CSave p" and ok = "is_ok r"]) (simp add: m)
  then show ?thesis
    using noted by (cases r) (auto simp: save_profile_request_def m split_beta Let_def)
qed

lemma delete_keeps: "R s (d, w) \<Longrightarrow> R s (snd (delete_profile_request en n d w))"
proof -
  assume s: "R s (d, w)"
  obtain r c v where m: "delete_profile (en_toml en) (en_fs en) n (dn_config d) w = (r, c, v)"
    by (cases "delete_profile (en_toml en) (en_fs en) n (dn_config d) w")
  have "R s (d\<lparr>dn_config := c\<rparr>, v)"
    by (rule config_edit_keeps [OF s, where k = "CDelete n" and ok = "is_ok r"]) (simp add: m)
  then show ?thesis
    using noted by (cases r) (auto simp: delete_profile_request_def m split_beta Let_def)
qed

lemma activate_keeps: "R s (d, w) \<Longrightarrow> R s (snd (activate_profile en n d w))"
proof -
  assume s: "R s (d, w)"
  obtain r c v where m: "activate (en_toml en) (en_fs en) n (dn_config d) w = (r, c, v)"
    by (cases "activate (en_toml en) (en_fs en) n (dn_config d) w")
  have c: "R s (d\<lparr>dn_config := c\<rparr>, v)"
    by (rule config_edit_keeps [OF s, where k = "CActivate n" and ok = "is_ok r"]) (simp add: m)
  have "R s (snd (replay_program en held (fst s2) (snd s2)))" if "R s s2" for held s2
    using that replay_program_keeps by simp
  moreover have "R s (replay_display en preset (fst s2) (snd s2))" if "R s s2" for preset s2
    using that replay_display_keeps by simp
  ultimately show ?thesis
    using s c replay_lighting_keeps [OF c]
    by (auto simp: activate_profile_def m split_beta Let_def split: option.split sum.split)
qed

lemma dispatch_keeps: "R s (d, w) \<Longrightarrow> R s (snd (dispatch en q d w))"
  using execute_keeps illuminate_keeps show_keeps save_keeps delete_keeps activate_keeps
    trans [OF _ clock [OF silent_unix]]
  by (cases q) (simp_all add: reply_with_def split_beta Let_def)

lemma handle_keeps: "R s (d, w) \<Longrightarrow> R s (snd (handle en q d w))"
proof -
  assume s: "R s (d, w)"
  obtain r d' w' where "dispatch en q d w = (r, d', w')" by (cases "dispatch en q d w")
  then show ?thesis
    using dispatch_keeps [OF s, of q] noted by (cases r) (simp_all add: handle_def split_beta)
qed

end

text \<open>With the daemon's own clock: the records it settles and the ticks of the panel.\<close>

fun needs_access :: "display_command \<Rightarrow> bool" where
  "needs_access (DApply _ _) = True"
| "needs_access _ = False"

locale daemon_relation = request_relation +
  assumes reported: "R (d, w) (d\<lparr>dn_reported := r\<rparr>, w)"
    and settled: "R (d, w) (d\<lparr>dn_cooling := snd (verify_curves tele ms (dn_cooling d))\<rparr>, w)"
      "R (d, w) (d\<lparr>dn_cooling := cooling_forget (dn_cooling d)\<rparr>, w)"
    and ticked: "\<not> needs_access dc \<Longrightarrow>
      display_step (en_renderer en) (en_clock en) dc (dn_display d) w = Some (z, w') \<Longrightarrow>
      R (d, w) (d\<lparr>dn_display := z\<rparr>, w')"
begin

lemma note_events_keeps: "R s (d, w) \<Longrightarrow> R s (note_events en ks d w)"
proof (induction ks arbitrary: d w)
  case (Cons k ks)
  obtain d' w' where n: "note_event en k d w = (d', w')" by fastforce
  then have "R s (d', w')" using noted [OF Cons.prems, of k] by simp
  then show ?case using Cons.IH by (simp add: n)
qed simp

lemma health_keeps: "R s (d, w) \<Longrightarrow> R s (record_collector_health en t d w)"
proof -
  assume s: "R s (d, w)"
  let ?ks = "health_events (dn_reported d) (current_failures t)"
  obtain d' w' where n: "note_events en ?ks d w = (d', w')" by fastforce
  then have "R s (d', w')" using note_events_keeps [OF s, of ?ks] by simp
  then have "R s (d'\<lparr>dn_reported := current_failures t\<rparr>, w')"
    by (rule trans [OF _ reported])
  then show ?thesis by (simp add: record_collector_health_def n)
qed

lemma reconcile_keeps: "R s (d, w) \<Longrightarrow> R s (reconcile en t d w)"
proof -
  assume s: "R s (d, w)"
  have "R s (d\<lparr>dn_cooling := cooling_forget (dn_cooling d)\<rparr>, w)" by (rule trans [OF s settled(2)])
  then have gone: "R s (d\<lparr>dn_cooling := cooling_forget (dn_cooling d), dn_display := display_forget (dn_display d)\<rparr>, w)"
    by (rule trans) (use ticked [where dc = DForget and d = "d\<lparr>dn_cooling := cooling_forget (dn_cooling d)\<rparr>"] in simp)
  obtain now v where u: "now_unix_ms (en_clock en) w = (now, v)" by fastforce
  let ?x = "snd (verify_curves (ts_kraken t) now (dn_cooling d))"
  have "R s (d, v)" using trans [OF s clock [OF silent_unix [of w "en_clock en"]]] u by simp
  then have "R s (d\<lparr>dn_cooling := ?x\<rparr>, v)" by (rule trans [OF _ settled(1)])
  then have here: "R s (d\<lparr>dn_cooling := ?x, dn_diagnostics := l\<rparr>, v)" for l
    by (rule trans) (use logged [where d = "d\<lparr>dn_cooling := ?x\<rparr>" and l = l and w = v] in simp)
  show ?thesis
    using gone here health_keeps by (simp add: reconcile_def u split_beta Let_def)
qed

lemma tick_keeps: "R s (d, w) \<Longrightarrow> R s (tick en d w)"
proof -
  assume s: "R s (d, w)"
  define t where "t = en_snapshot en (w_trace w)"
  obtain d' w' where r: "reconcile en t d w = (d', w')" by fastforce
  have k: "R s (d', w')" using reconcile_keeps [OF s, of t] r by simp
  show ?thesis
  proof (cases "\<not> kt_present (ts_kraken t) \<or> dx_active (dn_display d') = None")
    case True
    then show ?thesis using k by (auto simp: tick_def r simp flip: t_def)
  next
    case False
    then obtain p where p: "dx_active (dn_display d') = Some p" "kt_present (ts_kraken t)" by auto
    obtain o1 x v where f: "display_refresh (en_renderer en) (preset_samples p t) (dn_display d') w' = (o1, x, v)"
      by (cases "display_refresh (en_renderer en) (preset_samples p t) (dn_display d') w'")
    have "R s (d'\<lparr>dn_display := x\<rparr>, v)"
      by (rule trans [OF k ticked [where dc = "DRefresh (preset_samples p t)"]]) (simp_all add: f)
    then show ?thesis
      using noted p by (cases o1) (auto simp: tick_def r f Let_def simp flip: t_def)
  qed
qed

lemma step_keeps: "\<lbrakk>daemon_step en k d w = Some (d', w'); R s (d, w)\<rbrakk> \<Longrightarrow> R s (d', w')"
proof -
  assume k: "daemon_step en k d w = Some (d', w')" and s: "R s (d, w)"
  show "R s (d', w')"
  proof (cases k)
    case OpDropFrame
    then show ?thesis
      using k trans [OF s ticked [where dc = DDrop]] by (simp add: drop_display_frame_def)
  next
    case (OpAnimate now)
    then obtain due x where a: "advance_animation now (dn_display d) w = Some (due, x, w')"
      "d' = d\<lparr>dn_display := x\<rparr>"
      using k by (auto simp: tick_animation_def)
    show ?thesis
      unfolding a(2) by (rule trans [OF s ticked [where dc = "DAdvance now"]]) (simp_all add: a(1))
  next
    case (OpRequest q)
    then show ?thesis using k handle_keeps [OF s, of q] by simp
  qed (use k tick_keeps [OF s] noted_eq [OF _ s] in auto)
qed

lemma run_keeps: "\<lbrakk>run_daemon en ks d w = Some (d', w'); R s (d, w)\<rbrakk> \<Longrightarrow> R s (d', w')"
proof (induction ks arbitrary: d w)
  case (Cons k ks)
  then obtain d1 w1 where k: "daemon_step en k d w = Some (d1, w1)" "run_daemon en ks d1 w1 = Some (d', w')"
    by (auto split: option.splits)
  show ?case by (rule Cons.IH [OF k(2) step_keeps [OF k(1) Cons.prems(2)]])
qed simp

end

section \<open>Sending nothing\<close>

definition nothing_sent :: "world \<Rightarrow> world \<Rightarrow> bool" where
  "nothing_sent w w' =
    (\<exists>es. extends w es w' \<and> attr_writes es = [] \<and> reports_out es = [] \<and> bulk_out es = [])"

lemma nothing_sent_refl [simp, intro]: "nothing_sent w w"
  unfolding nothing_sent_def by (intro exI [of _ "[]"]) simp

lemma nothing_sent_trans: "\<lbrakk>nothing_sent w v; nothing_sent v u\<rbrakk> \<Longrightarrow> nothing_sent w u"
  unfolding nothing_sent_def
  by (elim exE conjE) (rule exI, rule conjI, rule extends_trans, assumption, assumption, simp)

lemma silent_unsent: "silent w w' \<Longrightarrow> nothing_sent w w'"
  using silent_nothing_sent unfolding nothing_sent_def silent_def by blast

lemma nothing_sent_push:
  "\<lbrakk>attr_writes [e] = []; reports_out [e] = []; bulk_out [e] = []\<rbrakk> \<Longrightarrow> nothing_sent w (push_event e w)"
  unfolding nothing_sent_def by (intro exI [of _ "[e]"]) simp

interpretation unsent: write_plan "\<lambda>w (p :: unit list) ok w'. nothing_sent w w'"
  by unfold_locales (auto intro: nothing_sent_trans)

lemma unsent_fs_do:
  "(\<And>ok. attr_writes [op ok] = [] \<and> reports_out [op ok] = [] \<and> bulk_out [op ok] = []) \<Longrightarrow>
    nothing_sent w (snd (fs_do env op w))"
  by (simp add: fs_do_def nothing_sent_push split: option.split)

lemma unsent_append: "nothing_sent w (snd (fs_append env p s w))"
  by (simp add: fs_append_def nothing_sent_push split: option.split)

lemma unsent_make_dirs: "nothing_sent w (snd (fs_make_dirs env p w))"
  by (simp add: fs_make_dirs_def unsent_fs_do)

lemma unsent_replace: "nothing_sent w (snd (replace_file env path w))"
proof -
  have r: "nothing_sent w (snd (fs_rename env p q w))" for p q
    by (simp add: fs_rename_def unsent_fs_do nothing_sent_push)
  have "nothing_sent v (snd (fs_do env (FileRemove (temporary_path env path)) v))" for v
    by (simp add: unsent_fs_do)
  moreover have "nothing_sent v (sync_parent path v)" for v
    by (simp add: sync_parent_def nothing_sent_push split: option.split)
  ultimately show ?thesis
    using nothing_sent_trans [OF r]
    by (auto simp: replace_file_def split: prod.split sum.split) (metis r snd_conv nothing_sent_trans)+
qed

lemma unsent_write: "nothing_sent w (snd (write_atomically tm env path doc w))"
proof (cases "tm_encode tm doc")
  case (Inr s)
  show ?thesis
    unfolding write_atomically_def Inr sum.case
    by (intro unsent.plan_bind)
      (auto simp: unsent_fs_do unsent_append unsent_make_dirs unsent_replace split: option.split)
qed (simp add: write_atomically_def)

text \<open>A change of the configuration is one save, and a change that fails leaves it as it was.\<close>

lemma commit_change_cases:
  "nothing_sent w (snd (snd (commit_change tm env f c w)))"
  "fst (commit_change tm env f c w) = Inl e \<Longrightarrow> fst (snd (commit_change tm env f c w)) = c"
proof -
  let ?c = "c\<lparr>cfg_document := f (cfg_document c)\<lparr>doc_schema_version := CONFIG_SCHEMA_VERSION\<rparr>\<rparr>"
  obtain r v where m: "write_atomically tm env (cfg_path c) (cfg_document ?c) w = (r, v)" by fastforce
  have "nothing_sent w v" using unsent_write [of w tm env "cfg_path c" "cfg_document ?c"] m by simp
  then show "nothing_sent w (snd (snd (commit_change tm env f c w)))"
    "fst (commit_change tm env f c w) = Inl e \<Longrightarrow> fst (snd (commit_change tm env f c w)) = c"
    using m by (cases r; simp add: commit_change_def config_commit_def Let_def)+
qed

lemma commit_change_unsent: "snd (commit_change tm env f c w) = (c', w') \<Longrightarrow> nothing_sent w w'"
  using commit_change_cases(1) [where w = w and tm = tm and env = env and f = f and c = c] by simp

lemma config_step_unsent: "config_step tm env k c w = (ok, c', w') \<Longrightarrow> nothing_sent w w'"
  by (cases k) (auto simp: activate_def save_profile_def delete_profile_def record_program_def
      record_display_def record_lighting_def split_beta Let_def
      split: option.splits sum.splits if_splits intro: commit_change_unsent)

lemma edits_unsent:
  "nothing_sent w (snd (snd (save_profile tm env p c w)))"
  "nothing_sent w (snd (snd (delete_profile tm env n c w)))"
  "nothing_sent w (snd (snd (activate tm env n c w)))"
proof -
  show "nothing_sent w (snd (snd (save_profile tm env p c w)))"
    using config_step_unsent [where k = "CSave p" and c = c and tm = tm and env = env]
    by (cases "save_profile tm env p c w") simp
  show "nothing_sent w (snd (snd (delete_profile tm env n c w)))"
    using config_step_unsent [where k = "CDelete n" and c = c and tm = tm and env = env]
    by (cases "delete_profile tm env n c w") simp
  show "nothing_sent w (snd (snd (activate tm env n c w)))"
    using config_step_unsent [where k = "CActivate n" and c = c and tm = tm and env = env]
    by (cases "activate tm env n c w") simp
qed

lemma refused_config:
  "fst (save_profile tm env p c w) = Inl e \<Longrightarrow> fst (snd (save_profile tm env p c w)) = c"
  "fst (activate tm env n c w) = Inl e \<Longrightarrow> fst (snd (activate tm env n c w)) = c"
  "fst (delete_profile tm env n c w) = Inl e \<Longrightarrow> fst (snd (delete_profile tm env n c w)) = c"
  using commit_change_cases(2)
  by (auto simp: save_profile_def activate_def delete_profile_def split_beta Let_def
      split: option.splits sum.splits if_splits)

section \<open>A daemon without write access\<close>

definition same_holders :: "daemon \<Rightarrow> daemon \<Rightarrow> bool" where
  "same_holders d d' = (dn_capabilities d' = dn_capabilities d \<and> dn_conflicts d' = dn_conflicts d)"

lemma same_holders_access: "same_holders d d' \<Longrightarrow> daemon_read_only d' = daemon_read_only d"
  by (simp add: same_holders_def daemon_read_only_def has_writable_capability_def)

lemma write_access_iff: "require_write_access d = Inr () \<longleftrightarrow> daemon_read_only d = None"
  by (simp add: require_write_access_def read_only_reason_def split: option.split)

definition quiet_request :: "daemon \<times> world \<Rightarrow> daemon \<times> world \<Rightarrow> bool" where
  "quiet_request s t = (same_holders (fst s) (fst t) \<and>
    (daemon_read_only (fst s) \<noteq> None \<longrightarrow> nothing_sent (snd s) (snd t)))"

interpretation quiet: request_relation en quiet_request
proof
  show "quiet_request s u" if "quiet_request s t" "quiet_request t u" for s t u
    using that same_holders_access [of "fst s" "fst t"] nothing_sent_trans
    by (auto simp: quiet_request_def same_holders_def)
  show "quiet_request (d, w) (d, w')" if "silent w w'" for d w w'
    using that by (simp add: quiet_request_def silent_unsent same_holders_def)
  show "quiet_request (d, w) (d\<lparr>dn_cooling := x\<rparr>, w')"
    if "p = Onboard \<or> require_write_access d = Inr ()"
      "cooling_apply (en_attr en) (en_clock en) now p (dn_cooling d) w = (o1, x, w')" for p d now w o1 x w'
    using that
    by (auto simp: quiet_request_def same_holders_def write_access_iff cooling_apply_def program_targets_def)
  show "quiet_request (d, w) (d\<lparr>dn_config := c\<rparr>, w')"
    if "config_step (en_toml en) (en_fs en) k (dn_config d) w = (ok, c, w')" for k d w ok c w'
    using config_step_unsent [OF that] by (simp add: quiet_request_def same_holders_def)
qed (auto simp: quiet_request_def same_holders_def write_access_iff)

definition display_idle :: "display_executor \<Rightarrow> bool" where
  "display_idle x = (dx_active x = None \<and> dx_animation x = None)"

definition keeps_still :: "daemon \<times> world \<Rightarrow> daemon \<times> world \<Rightarrow> bool" where
  "keeps_still s t = (same_holders (fst s) (fst t) \<and>
    (daemon_read_only (fst s) \<noteq> None \<and> display_idle (dn_display (fst s)) \<longrightarrow>
      nothing_sent (snd s) (snd t) \<and> display_idle (dn_display (fst t))))"

lemma idle_step:
  assumes "display_idle x" "\<not> needs_access c"
  shows "\<exists>x'. display_step rr clk c x w = Some (x', w) \<and> display_idle x'"
proof -
  have "\<not> is_streaming x" using assms(1) by (simp add: is_streaming_def display_idle_def)
  then show ?thesis
    using assms by (cases c) (auto simp: display_idle_def display_refresh_def advance_animation_def
      display_forget_def drop_frame_def)
qed

interpretation still: daemon_relation en keeps_still
proof
  show "keeps_still s u" if "keeps_still s t" "keeps_still t u" for s t u
    using that same_holders_access [of "fst s" "fst t"] nothing_sent_trans
    by (auto simp: keeps_still_def same_holders_def)
  show "keeps_still (d, w) (d, w')" if "silent w w'" for d w w'
    using that by (simp add: keeps_still_def silent_unsent same_holders_def)
  show "keeps_still (d, w) (d\<lparr>dn_cooling := x\<rparr>, w')"
    if "p = Onboard \<or> require_write_access d = Inr ()"
      "cooling_apply (en_attr en) (en_clock en) now p (dn_cooling d) w = (o1, x, w')" for p d now w o1 x w'
    using that
    by (auto simp: keeps_still_def same_holders_def write_access_iff cooling_apply_def program_targets_def)
  show "keeps_still (d, w) (d\<lparr>dn_config := c\<rparr>, w')"
    if "config_step (en_toml en) (en_fs en) k (dn_config d) w = (ok, c, w')" for k d w ok c w'
    using config_step_unsent [OF that] by (simp add: keeps_still_def same_holders_def)
  show "keeps_still (d, w) (d\<lparr>dn_display := z\<rparr>, w')"
    if "\<not> needs_access dc"
      "display_step (en_renderer en) (en_clock en) dc (dn_display d) w = Some (z, w')" for dc d w z w'
    using that idle_step [of "dn_display d" dc "en_renderer en" "en_clock en" w]
    by (auto simp: keeps_still_def same_holders_def)
qed (auto simp: keeps_still_def same_holders_def write_access_iff)

lemma idle_run_returns:
  "\<lbrakk>daemon_read_only d \<noteq> None; display_idle (dn_display d)\<rbrakk> \<Longrightarrow> \<exists>d' w'. run_daemon en ks d w = Some (d', w')"
proof (induction ks arbitrary: d w)
  case (Cons k ks)
  have "\<exists>d' w'. daemon_step en k d w = Some (d', w')"
    using idle_step [OF Cons.prems(2), of "DAdvance now" "en_renderer en" "en_clock en" w for now]
    by (cases k) (simp_all add: tick_animation_def, fastforce)
  then obtain d' w' where k: "daemon_step en k d w = Some (d', w')" by blast
  have "keeps_still (d, w) (d', w')" by (rule still.step_keeps [OF k]) (simp add: keeps_still_def same_holders_def)
  then have "daemon_read_only d' \<noteq> None" "display_idle (dn_display d')"
    using Cons.prems same_holders_access [of d d'] by (auto simp: keeps_still_def)
  then show ?case using Cons.IH k by simp
qed simp

text \<open>C30: A daemon that another process keeps from its devices, or that may write nothing, sends
  nothing. Over any sequence of requests, ticks and animation steps from a panel that was never drawn
  on, every operation returns, no attribute is written and no report or frame leaves, and the reason
  the status gives stays the one every refusal carries.\<close>

theorem read_only_daemon_sends_nothing:
  "case daemon_read_only d of
     None \<Rightarrow> daemon_access_mode d = ReadWrite \<and> require_write_access d = Inr ()
   | Some cause \<Rightarrow>
       daemon_access_mode d = AccessReadOnly (into_conflicts cause) \<and>
       require_write_access d = Inl (ReadOnlyRefused (read_only_text cause)) \<and>
       (if display_idle (dn_display d)
        then \<exists>d' w'. run_daemon en ks d w = Some (d', w') \<and> nothing_sent w w' \<and>
          daemon_read_only d' = Some cause
        else True)"
proof (cases "daemon_read_only d")
  case (Some cause)
  show ?thesis
  proof (cases "display_idle (dn_display d)")
    case True
    then obtain d' w' where r: "run_daemon en ks d w = Some (d', w')" using idle_run_returns Some by blast
    have "keeps_still (d, w) (d', w')"
      by (rule still.run_keeps [OF r]) (simp add: keeps_still_def same_holders_def)
    then show ?thesis
      using r Some True same_holders_access [of d d']
      by (simp add: keeps_still_def daemon_access_mode_def require_write_access_def read_only_reason_def)
  qed (simp add: Some daemon_access_mode_def require_write_access_def read_only_reason_def)
qed (simp add: daemon_access_mode_def require_write_access_def read_only_reason_def)

lemma note_event_unsent: "nothing_sent w (snd (note_event en k d w))"
  by (simp add: note_event_def split_beta silent_unsent silent_unix)

lemma handle_unsent:
  "nothing_sent w (snd (snd (dispatch en q d w))) \<Longrightarrow> nothing_sent w (snd (snd (handle en q d w)))"
  by (cases "dispatch en q d w"; cases "fst (dispatch en q d w)")
    (auto simp: handle_def split_beta Let_def intro: nothing_sent_trans note_event_unsent)


end
