(* ===== verification/Daemon_Behaviour.thy ===== *)
theory Daemon_Behaviour
  imports Daemon_Safety
begin

text \<open>
  What single requests and ticks of \<open>crates/daemon/src/state.rs\<close> do: a rejection, the log of the
  collectors, and two corners of the clock and of the session record where the code does not do what
  its comments say.
\<close>

section \<open>Rejections\<close>

text \<open>The daemon after a rejection: one event more, and the part of the display that a preset which
  could not be rendered gives up.\<close>

definition rejected :: "daemon_env \<Rightarrow> request \<Rightarrow> ipc_error \<Rightarrow> daemon \<Rightarrow> daemon \<Rightarrow> bool" where
  "rejected en q e d d' =
    (\<exists>now. d' = d\<lparr>dn_diagnostics := log_record (dn_diagnostics d) now (RequestRejected e)\<rparr> \<or>
      (case q of
         ReqApplyDisplay p \<Rightarrow> (case e of DisplayFailed _ \<Rightarrow>
           d' = d\<lparr>dn_diagnostics := log_record (dn_diagnostics d) now (RequestRejected e),
                  dn_display := (dn_display d)\<lparr>dx_faulted := None, dx_animation := None\<rparr>\<rparr>
           | _ \<Rightarrow> False)
       | _ \<Rightarrow> False))"

lemma unsent_clock: "nothing_sent w (push_event UnixRead w)"
  by (rule nothing_sent_push) simp_all

lemma display_apply_error:
  "display_apply rr clk p s x w = (Inl e, x', w') \<Longrightarrow> x' = x\<lparr>dx_faulted := None, dx_animation := None\<rparr> \<and> w' = w"
  by (auto simp: display_apply_def start_image_def display_send_def split_beta Let_def
      split: if_splits option.splits sum.splits list.splits)

lemma execute_error: "execute en p d w = (Inl e, d', w') \<Longrightarrow> d' = d \<and> w' = w"
  by (auto simp: execute_def split_beta Let_def split: sum.splits if_splits)

lemma illuminate_error: "illuminate en c d w = (Inl e, d', w') \<Longrightarrow> d' = d \<and> w' = w"
  by (auto simp: illuminate_def split_beta Let_def split: sum.splits)

lemma show_error:
  assumes "show_preset en p d w = (Inl e, d', w')"
  shows "w' = w \<and> (d' = d \<or>
    (\<exists>f. e = DisplayFailed f) \<and>
      d' = d\<lparr>dn_display := (dn_display d)\<lparr>dx_faulted := None, dx_animation := None\<rparr>\<rparr>)"
proof (cases "show_gates p d")
  case (Inr u)
  let ?m = "display_apply (en_renderer en) (en_clock en) p (preset_samples p (en_snapshot en (w_trace w)))
    (dn_display d) w"
  obtain r x v where m: "?m = (r, x, v)" by (cases ?m)
  then show ?thesis
    using assms display_apply_error [of "en_renderer en" "en_clock en" p _ "dn_display d" w]
    by (cases r) (auto simp: show_preset_def Inr split_beta Let_def)
qed (use assms in \<open>simp add: show_preset_def\<close>)

lemma profile_request_error:
  "save_profile_request en p d w = (RespError e, d', w') \<Longrightarrow> d' = d \<and> nothing_sent w w'"
  "delete_profile_request en n d w = (RespError e, d', w') \<Longrightarrow> d' = d \<and> nothing_sent w w'"
proof -
  show "d' = d \<and> nothing_sent w w'" if "save_profile_request en p d w = (RespError e, d', w')"
    using that edits_unsent(1) [of w "en_toml en" "en_fs en" p "dn_config d"]
      refused_config(1) [of "en_toml en" "en_fs en" p "dn_config d" w]
    by (cases "fst (save_profile (en_toml en) (en_fs en) p (dn_config d) w)")
      (auto simp: save_profile_request_def split_beta Let_def)
  show "d' = d \<and> nothing_sent w w'" if "delete_profile_request en n d w = (RespError e, d', w')"
    using that edits_unsent(2) [of w "en_toml en" "en_fs en" n "dn_config d"]
      refused_config(3) [of "en_toml en" "en_fs en" n "dn_config d" w]
    by (cases "fst (delete_profile (en_toml en) (en_fs en) n (dn_config d) w)")
      (auto simp: delete_profile_request_def split_beta Let_def)
qed

lemma activate_error:
  assumes "activate_profile en n d w = (RespError e, d', w')"
  shows "d' = d \<and> nothing_sent w w'"
proof (cases "config_profile (dn_config d) n")
  case (Some p)
  show ?thesis
  proof (cases "activation_gates p d")
    case (Inr u)
    then show ?thesis
      using assms Some edits_unsent(3) [of w "en_toml en" "en_fs en" n "dn_config d"]
        refused_config(2) [of "en_toml en" "en_fs en" n "dn_config d" w]
      by (cases "fst (activate (en_toml en) (en_fs en) n (dn_config d) w)")
        (auto simp: activate_profile_def split_beta Let_def)
  qed (use assms Some in \<open>simp add: activate_profile_def\<close>)
qed (use assms in \<open>simp add: activate_profile_def\<close>)

lemma dispatch_error:
  assumes "dispatch en q d w = (RespError e, d', w')"
  shows "nothing_sent w w' \<and> (d' = d \<or> (case q of
      ReqApplyDisplay p \<Rightarrow> (case e of DisplayFailed _ \<Rightarrow>
        d' = d\<lparr>dn_display := (dn_display d)\<lparr>dx_faulted := None, dx_animation := None\<rparr>\<rparr> | _ \<Rightarrow> False)
    | _ \<Rightarrow> False))"
proof (cases q)
  case (ReqApplyProgram p)
  then show ?thesis
    using assms execute_error [of en p d w] by (cases "execute en p d w"; cases "fst (execute en p d w)")
      (auto simp: reply_with_def)
next
  case (ReqApplyLighting c)
  then show ?thesis
    using assms illuminate_error [of en c d w]
    by (cases "illuminate en c d w"; cases "fst (illuminate en c d w)") (auto simp: reply_with_def)
next
  case (ReqApplyDisplay p)
  then show ?thesis
    using assms show_error [of en p d w]
    by (cases "show_preset en p d w"; cases "fst (show_preset en p d w)") (auto simp: reply_with_def)
next
  case (ReqSaveProfile p)
  then show ?thesis using assms profile_request_error(1) by simp
next
  case (ReqDeleteProfile n)
  then show ?thesis using assms profile_request_error(2) by simp
next
  case (ReqActivateProfile n)
  then show ?thesis using assms activate_error by simp
qed (use assms in \<open>auto simp: split_beta split: if_splits\<close>)


section \<open>The log of the collectors\<close>

text \<open>What a reader of the log believes about the collectors, and that every event is news to him.\<close>

fun told :: "event_kind \<Rightarrow> (collector \<Rightarrow> string option) \<Rightarrow> collector \<Rightarrow> string option" where
  "told (CollectorFailed c detail) t = t(c := Some detail)"
| "told (CollectorRecovered c) t = t(c := None)"
| "told _ t = t"

fun all_news :: "event_kind list \<Rightarrow> (collector \<Rightarrow> string option) \<Rightarrow> bool" where
  "all_news [] t = True"
| "all_news (k # ks) t = (told k t \<noteq> t \<and> all_news ks (told k t))"

lemma all_news_append: "all_news (ks @ js) t = (all_news ks t \<and> all_news js (fold told ks t))"
  by (induction ks arbitrary: t) simp_all

lemma map_filter_Cons:
  "List.map_filter f (x # xs) = (case f x of None \<Rightarrow> [] | Some y \<Rightarrow> [y]) @ List.map_filter f xs"
  by (simp add: List.map_filter_def split: option.split)

lemma news_Cons:
  fixes f :: "collector \<Rightarrow> event_kind option"
  defines "u \<equiv> \<lambda>c t. case f c of None \<Rightarrow> t | Some k \<Rightarrow> told k t"
  shows "all_news (List.map_filter f (c # cs)) t =
      ((case f c of None \<Rightarrow> True | Some k \<Rightarrow> told k t \<noteq> t) \<and> all_news (List.map_filter f cs) (u c t))"
    "fold told (List.map_filter f (c # cs)) t = fold told (List.map_filter f cs) (u c t)"
  by (cases "f c"; simp add: map_filter_Cons u_def)+

lemma failures_are_news:
  fixes reported current :: "collector \<Rightarrow> string option"
  defines "f \<equiv> \<lambda>c. case current c of
      Some detail \<Rightarrow> if reported c \<noteq> Some detail then Some (CollectorFailed c detail) else None
    | None \<Rightarrow> None"
  assumes "distinct cs" "\<And>c. c \<in> set cs \<Longrightarrow> t c = reported c"
  shows "all_news (List.map_filter f cs) t"
    "fold told (List.map_filter f cs) t = (\<lambda>c. if c \<in> set cs \<and> current c \<noteq> None then current c else t c)"
proof -
  have "all_news (List.map_filter f cs) t \<and>
      fold told (List.map_filter f cs) t = (\<lambda>c. if c \<in> set cs \<and> current c \<noteq> None then current c else t c)"
    using assms(2,3)
  proof (induction cs arbitrary: t)
    case (Cons c cs)
    let ?t = "case f c of None \<Rightarrow> t | Some k \<Rightarrow> told k t"
    have t: "?t = (if current c \<noteq> None then t(c := current c) else t)"
      using Cons.prems(2) [of c] by (auto simp: f_def split: option.splits)
    have "all_news (List.map_filter f cs) ?t \<and> fold told (List.map_filter f cs) ?t =
        (\<lambda>c. if c \<in> set cs \<and> current c \<noteq> None then current c else ?t c)"
      using Cons.prems by (intro Cons.IH) (auto simp: t)
    moreover have "f c = Some k \<Longrightarrow> told k t \<noteq> t" for k
      using Cons.prems(2) [of c] by (auto simp: f_def fun_eq_iff split: option.splits if_splits)
    ultimately show ?case
      using Cons.prems(1) unfolding news_Cons by (auto simp: t fun_eq_iff split: option.split)
  qed (simp add: List.map_filter_def)
  then show "all_news (List.map_filter f cs) t"
    "fold told (List.map_filter f cs) t = (\<lambda>c. if c \<in> set cs \<and> current c \<noteq> None then current c else t c)"
    by simp_all
qed

lemma recoveries_are_news:
  fixes reported current :: "collector \<Rightarrow> string option"
  defines "f \<equiv> \<lambda>c. if reported c \<noteq> None \<and> current c = None then Some (CollectorRecovered c) else None"
  assumes "distinct cs" "\<And>c. \<lbrakk>c \<in> set cs; current c = None\<rbrakk> \<Longrightarrow> t c = reported c"
  shows "all_news (List.map_filter f cs) t"
    "fold told (List.map_filter f cs) t = (\<lambda>c. if c \<in> set cs \<and> current c = None then None else t c)"
proof -
  have "all_news (List.map_filter f cs) t \<and>
      fold told (List.map_filter f cs) t = (\<lambda>c. if c \<in> set cs \<and> current c = None then None else t c)"
    using assms(2,3)
  proof (induction cs arbitrary: t)
    case (Cons c cs)
    let ?t = "case f c of None \<Rightarrow> t | Some k \<Rightarrow> told k t"
    have t: "?t = (if current c = None then t(c := None) else t)"
      using Cons.prems(2) [of c] by (auto simp: f_def fun_eq_iff)
    have "all_news (List.map_filter f cs) ?t \<and> fold told (List.map_filter f cs) ?t =
        (\<lambda>c. if c \<in> set cs \<and> current c = None then None else ?t c)"
      using Cons.prems by (intro Cons.IH) (auto simp: t)
    moreover have "f c = Some k \<Longrightarrow> told k t \<noteq> t" for k
      using Cons.prems(2) [of c] by (auto simp: f_def fun_eq_iff split: if_splits)
    ultimately show ?case
      using Cons.prems(1) unfolding news_Cons by (auto simp: t fun_eq_iff split: option.split)
  qed (simp add: List.map_filter_def)
  then show "all_news (List.map_filter f cs) t"
    "fold told (List.map_filter f cs) t = (\<lambda>c. if c \<in> set cs \<and> current c = None then None else t c)"
    by simp_all
qed

lemma health_events_news:
  "all_news (health_events reported current) reported \<and> fold told (health_events reported current) reported = current"
proof -
  have d: "distinct COLLECTORS" "c \<in> set COLLECTORS" for c by (cases c; simp add: COLLECTORS_def)+
  note f = failures_are_news [where reported = reported and current = current and t = reported, OF d(1)]
  let ?t = "\<lambda>c. if c \<in> set COLLECTORS \<and> current c \<noteq> None then current c else reported c"
  note r = recoveries_are_news [where reported = reported and current = current and t = ?t, OF d(1)]
  have t: "?t c = reported c" if "current c = None" for c using that by simp
  have c: "(\<lambda>c. if c \<in> set COLLECTORS \<and> current c = None then None else ?t c) = current"
    using d(2) by (simp add: fun_eq_iff)
  show ?thesis
    unfolding health_events_def all_news_append fold_append o_apply f(2) [OF refl]
    using f(1) [OF refl] r(1) [OF t] r(2) [OF t] c by simp
qed

text \<open>The daemon's health record over the snapshots of successive ticks.\<close>

fun run_health :: "daemon_env \<Rightarrow> telemetry_snapshot list \<Rightarrow> daemon \<Rightarrow> world \<Rightarrow> daemon \<times> world" where
  "run_health en [] d w = (d, w)"
| "run_health en (s # ss) d w = (let (d, w) = record_collector_health en s d w in run_health en ss d w)"

definition logs :: "(u64 \<times> event_kind) list \<Rightarrow> daemon \<Rightarrow> daemon \<Rightarrow> bool" where
  "logs es d d' = (dn_diagnostics d' = fold (\<lambda>(now, k) l. log_record l now k) es (dn_diagnostics d))"

lemma note_events_log:
  "note_events en ks d w = (d', w') \<Longrightarrow> \<exists>es. map snd es = ks \<and> logs es d d' \<and>
    dn_reported d' = dn_reported d \<and> dn_display d' = dn_display d \<and> nothing_sent w w'"
proof (induction ks arbitrary: d w)
  case (Cons k ks)
  let ?now = "ce_unix (en_clock en) (w_trace w)"
  let ?d = "d\<lparr>dn_diagnostics := log_record (dn_diagnostics d) ?now k\<rparr>"
  have "note_events en ks ?d (push_event UnixRead w) = (d', w')"
    using Cons.prems by (simp add: note_event_def now_unix_ms_def)
  from Cons.IH [OF this] obtain es where "map snd es = ks" "logs es ?d d'" "dn_reported d' = dn_reported d"
    "dn_display d' = dn_display d" "nothing_sent (push_event UnixRead w) w'"
    by auto
  then show ?case
    by (intro exI [of _ "(?now, k) # es"])
      (auto simp: logs_def intro: nothing_sent_trans [OF unsent_clock])
qed (auto simp: logs_def)

text \<open>C33: The log tells the health of the collectors exactly. Over any sequence of samples, the events
  that are logged are about what changed and nothing else: each one is news to a reader of those
  before it (a standing fault is not repeated, a recovery follows a fault), and after them the reader
  knows of every collector whether it fails and with which detail.\<close>

theorem collector_log_exact:
  "\<exists>es. logs es d (fst (run_health en ss d w)) \<and>
     all_news (map snd es) (dn_reported d) \<and>
     fold told (map snd es) (dn_reported d) = dn_reported (fst (run_health en ss d w)) \<and>
     dn_reported (fst (run_health en ss d w)) =
       (if ss = [] then dn_reported d else current_failures (last ss))"
proof (induction ss arbitrary: d w)
  case Nil
  show ?case by (intro exI [of _ "[]"]) (simp add: logs_def)
next
  case (Cons s ss)
  let ?ks = "health_events (dn_reported d) (current_failures s)"
  obtain d1 w1 where n: "note_events en ?ks d w = (d1, w1)" by fastforce
  obtain es where es: "map snd es = ?ks" "logs es d d1" using note_events_log [OF n] by auto
  let ?d = "d1\<lparr>dn_reported := current_failures s\<rparr>"
  have r: "run_health en (s # ss) d w = run_health en ss ?d w1"
    by (simp add: record_collector_health_def n)
  obtain fs where fs: "logs fs ?d (fst (run_health en ss ?d w1))" "all_news (map snd fs) (current_failures s)"
    "fold told (map snd fs) (current_failures s) = dn_reported (fst (run_health en ss ?d w1))"
    "dn_reported (fst (run_health en ss ?d w1)) = (if ss = [] then current_failures s else current_failures (last ss))"
    using Cons.IH [of ?d w1] by auto
  show ?case
    unfolding r using es fs health_events_news [of "dn_reported d" "current_failures s"]
    by (intro exI [of _ "es @ fs"]) (auto simp: logs_def all_news_append)
qed

section \<open>A cooler that is gone\<close>

lemma walk_clock_some:
  assumes "0 < least" "delays_ok least frames"
  shows "\<exists>c due k. walk_clock frames now cursor due0 k0 = Some (c, due, k)"
  using walk_clock_stops [OF assms(2,1), of now cursor due0 k0] by blast

lemma send_bytes_first_report:
  assumes "dx_link x = Some l" "dx_brightness x = None"
  shows "\<exists>es. extends w es (snd (snd (send_bytes p f x w))) \<and>
    reports_out es \<noteq> [] \<and> hd (reports_out es) = display_control (dp_brightness p) Deg0"
proof -
  obtain r v where d: "set_display l (dp_brightness p) w = (r, v)" by fastforce
  then have "\<exists>ok. v = push_event (HidOut (display_control (dp_brightness p) Deg0) ok) w"
    by (auto simp: set_display_def write_report_def Let_def split: sum.splits)
  then obtain ok where v: "v = push_event (HidOut (display_control (dp_brightness p) Deg0) ok) w" by blast
  let ?x = "x\<lparr>dx_brightness := Some (dp_brightness p)\<rparr>"
  have "\<exists>es. extends v es (snd (snd (send_bytes p f x w)))"
  proof (cases r)
    case (Inl e)
    then show ?thesis using assms d by (auto simp: send_bytes_def display_uncertain_def intro: exI [of _ "[]"])
  next
    case (Inr u)
    have "\<exists>es. extends v es (snd (send_frame l f v))" using sends_frame unfolding sends_def by blast
    then show ?thesis
      using assms d Inr
      by (auto simp: send_bytes_def send_picture_def display_uncertain_def split_beta Let_def
          split: sum.split intro: exI [of _ "[]"])
  qed
  then obtain es where "extends v es (snd (snd (send_bytes p f x w)))" by blast
  then have "extends w (HidOut (display_control (dp_brightness p) Deg0) ok # es) (snd (snd (send_bytes p f x w)))"
    by (simp add: v extends_def)
  then show ?thesis by (intro exI [of _ "HidOut (display_control (dp_brightness p) Deg0) ok # es"]) simp
qed

text \<open>An animation goes on being sent to a cooler that is gone. When a sample says that the device
  is absent, the tick forgets what the panel holds and with it the fault that had stopped the stream;
  the next due step of the animation is not gated on the device and opens with a report again,
  whatever the refusals before it.\<close>

theorem absent_cooler_still_sent_to:
  assumes "\<not> kt_present (ts_kraken (en_snapshot en (w_trace w)))"
    "dx_link (dn_display d) = Some l" "dx_panel (dn_display d) = Some panel"
    "dx_active (dn_display d) = Some p" "dx_animation (dn_display d) = Some a"
    "an_due a \<le> now" "0 < least" "delays_ok least (an_frames a)"
  shows "case run_daemon en [OpTick, OpAnimate now] d w of
      None \<Rightarrow> False
    | Some (d', w') \<Rightarrow> \<exists>es. extends w es w' \<and> reports_out es \<noteq> [] \<and>
        hd (reports_out es) = display_control (dp_brightness p) Deg0"
proof -
  let ?s = "en_snapshot en (w_trace w)"
  let ?d = "d\<lparr>dn_cooling := cooling_forget (dn_cooling d), dn_display := display_forget (dn_display d)\<rparr>"
  let ?ks = "health_events (dn_reported d) (current_failures ?s)"
  obtain d1 w1 where n: "note_events en ?ks ?d w = (d1, w1)" by fastforce
  have x: "dn_display d1 = display_forget (dn_display d)" and sent: "nothing_sent w w1"
    using note_events_log [OF n] by auto
  let ?d1 = "d1\<lparr>dn_reported := current_failures ?s\<rparr>"
  have t: "tick en d w = (?d1, w1)"
    using assms(1) by (simp add: tick_def reconcile_def record_collector_health_def n)
  obtain c due k where wc: "walk_clock (an_frames a) now (an_cursor a) (an_due a) 0 = Some (c, due, k)"
    using walk_clock_some [OF assms(7,8)] by blast
  have dropd: "dx_link ((drop_frame ^^ m) y) = dx_link y" "dx_brightness ((drop_frame ^^ m) y) = dx_brightness y"
    for m y by (induction m) (simp_all add: drop_frame_def)
  let ?x = "(drop_frame ^^ unat k) ((display_forget (dn_display d))\<lparr>dx_animation := Some (a\<lparr>an_cursor := c, an_due := due\<rparr>)\<rparr>)"
  obtain o1 y v where b: "send_bytes p (af_bytes (an_frames a ! c)) ?x w1 = (o1, y, v)"
    by (cases "send_bytes p (af_bytes (an_frames a ! c)) ?x w1")
  have str: "is_streaming (display_forget (dn_display d))"
    using assms by (simp add: is_streaming_def is_connected_def display_forget_def)
  have "\<exists>z. run_daemon en [OpTick, OpAnimate now] d w = Some (z, v)"
    using assms str wc b
    by (cases "do_hardware o1")
      (auto simp: t tick_animation_def advance_animation_def x Let_def display_forget_def not_le)
  moreover have "\<exists>es. extends w1 es v \<and> reports_out es \<noteq> [] \<and>
      hd (reports_out es) = display_control (dp_brightness p) Deg0"
    using send_bytes_first_report [where x = ?x and l = l and p = p and w = w1 and f = "af_bytes (an_frames a ! c)"]
      assms(2) b by (simp add: dropd display_forget_def)
  ultimately show ?thesis
    using sent unfolding nothing_sent_def
    by (auto, metis (no_types, lifting) append_Nil extends_trans reports_out_append)
qed

text \<open>A daemon playing a two-frame animation on a panel that refuses everything, no cooler in sight.\<close>

definition refusing_link :: lcd_link where
  "refusing_link =
    \<lparr>ll_hid = \<lparr>he_source = ''hidraw3'', he_write = (\<lambda>_ _. Inl (NodeAbsent ''hidraw3'')),
       he_read = (\<lambda>_ _. Inr None)\<rparr>,
     ll_bulk = \<lparr>be_source = ''bulk'', be_write = (\<lambda>_ _ _. Inl (UsbNodeAbsent ''bulk''))\<rparr>,
     ll_clock = \<lparr>ce_unix = (\<lambda>_. 0), ce_elapsed = (\<lambda>_. 0)\<rparr>\<rparr>"

definition gone_env :: daemon_env where
  "gone_env = \<lparr>en_attr = \<lparr>ae_read = (\<lambda>_ _. Inl not_found), ae_write = (\<lambda>_ _ _. Inl not_found),
      ae_list = (\<lambda>_ _. []), ae_canonical = (\<lambda>_ _. None)\<rparr>,
    en_fs = calm_disk, en_clock = \<lparr>ce_unix = (\<lambda>_. 0), ce_elapsed = (\<lambda>_. 0)\<rparr>,
    en_toml = default_codec,
    en_renderer = \<lparr>pr_render = (\<lambda>_ _ _. Inr []), pr_frames = (\<lambda>_ _ _. Inr [])\<rparr>,
    en_snapshot = (\<lambda>_. snapshot_unavailable 0 (Absent ''unplugged'')),
    en_to_json = (\<lambda>_. None), en_from_json = (\<lambda>_. None), en_version = ''0.1.0''\<rparr>"

definition playing_daemon :: daemon where
  "playing_daemon = \<lparr>dn_socket = ''kori.sock'',
    dn_capabilities = \<lparr>cr_schema_version = 3,
      cr_context = \<lparr>pc_kernel_release = Unknown ''uname'' ''none'', pc_probed_at_unix_ms = 0\<rparr>,
      cr_devices = [], cr_rejected = []\<rparr>,
    dn_locks = [], dn_conflicts = [],
    dn_config = \<lparr>cfg_path = ''c.toml'', cfg_document = document_default, cfg_state = ConfigDefaults\<rparr>,
    dn_diagnostics = log_with_capacity 512,
    dn_cooling = \<lparr>cx_sysfs = ''/sys'', cx_control = None, cx_committed = Map.empty, cx_last_write = None\<rparr>,
    dn_lighting = lighting_absent,
    dn_display = (display_connected refusing_link
        \<lparr>lp_width = 240, lp_height = 240, lp_shape = Circular, lp_pixel_format = ''rgb565'',
         lp_frame_bytes = 115200, lp_bulk_endpoint = 2, lp_bulk_interface = 0\<rparr>)
      \<lparr>dx_active := Some default_infographic, dx_faulted := Some ''refused'',
       dx_animation := Some \<lparr>an_frames = [\<lparr>af_bytes = [], af_delay = 80\<rparr>, \<lparr>af_bytes = [1], af_delay = 80\<rparr>],
         an_cursor = 0, an_due = 900\<rparr>\<rparr>,
    dn_reported = Map.empty\<rparr>"

theorem absent_cooler_still_sent_to_witness:
  "case run_daemon gone_env [OpTick, OpAnimate 1000] playing_daemon world_start of
      None \<Rightarrow> False
    | Some (d', w') \<Rightarrow> \<exists>es. extends world_start es w' \<and> reports_out es \<noteq> [] \<and>
        hd (reports_out es) = display_control (dp_brightness default_infographic) Deg0"
  by (rule absent_cooler_still_sent_to [where least = 80 and l = refusing_link
        and panel = "the (dx_panel (dn_display playing_daemon))"
        and a = "\<lparr>an_frames = [\<lparr>af_bytes = [], af_delay = 80\<rparr>, \<lparr>af_bytes = [1], af_delay = 80\<rparr>],
          an_cursor = 0, an_due = 900\<rparr>"])
    (simp_all add: gone_env_def snapshot_unavailable_def kraken_absent_def playing_daemon_def
      display_connected_def display_absent_def delays_ok_def)

section \<open>Going back to the firmware's own program\<close>

lemma commit_change_session:
  assumes "\<And>doc. doc_session (f doc) = doc_session doc"
  shows "doc_session (cfg_document (fst (snd (commit_change tm env f c w)))) = doc_session (cfg_document c)"
  using assms by (auto simp: commit_change_def config_commit_def split_beta Let_def split: sum.split prod.split)

lemma activate_session:
  "doc_session (cfg_document (fst (snd (activate tm env n c w)))) = doc_session (cfg_document c)"
  by (simp add: activate_def split_beta Let_def commit_change_session split: option.split)

lemma note_event_config [simp]: "dn_config (fst (note_event en k d w)) = dn_config d"
  by (simp add: note_event_def split_beta)

lemma handle_config: "dn_config (fst (snd (handle en q d w))) = dn_config (fst (snd (dispatch en q d w)))"
  by (cases "dispatch en q d w"; cases "fst (dispatch en q d w)") (simp_all add: handle_def split_beta)

lemma safe_profile_found: "config_profile c SAFE_PROFILE_NAME = Some profile_safe"
  by (simp add: config_profile_def config_profiles_def profile_safe_def)

text \<open>Activating the built-in safe profile is not remembered as the operator's last word on the
  thermal path. The profile runs the firmware's own program and the activation says so, but the session
  keeps the program it committed before, so the next start replays that one: the machine does not come
  back the way it was left.\<close>

theorem safe_activation_not_remembered:
  "case handle en (ReqActivateProfile SAFE_PROFILE_NAME) d w of (r, d', w') \<Rightarrow>
     (case r of
        RespActivated a \<Rightarrow> act_hardware a = HwOnboard
      | RespError e \<Rightarrow> True
      | _ \<Rightarrow> False) \<and>
     (case ss_program (doc_session (cfg_document (dn_config d))) of
        None \<Rightarrow> True
      | Some p \<Rightarrow> program_to_restore (dn_config d') =
          (if p = Onboard then None else Some \<lparr>pr_program = p, pr_profile = None\<rparr>))"
proof -
  obtain r c v where m: "activate (en_toml en) (en_fs en) SAFE_PROFILE_NAME (dn_config d) w = (r, c, v)"
    by (cases "activate (en_toml en) (en_fs en) SAFE_PROFILE_NAME (dn_config d) w")
  have ses: "doc_session (cfg_document c) = doc_session (cfg_document (dn_config d))"
    using activate_session [of "en_toml en" "en_fs en" SAFE_PROFILE_NAME "dn_config d" w] m by simp
  have p: "p = profile_safe" if "r = Inr p" for p
    using m that by (auto simp: activate_def safe_profile_found split_beta split: sum.splits)
  have g: "activation_gates profile_safe d = Inr ()" by (simp add: activation_gates_def profile_safe_def)
  have x: "pf_lighting profile_safe = []" "pf_display profile_safe = None" "pf_program profile_safe = Onboard"
    by (simp_all add: profile_safe_def)
  have ap: "\<exists>a d1 w1. activate_profile en SAFE_PROFILE_NAME d w = (RespActivated a, d1, w1) \<and>
      act_hardware a = HwOnboard \<and> dn_config d1 = c" if "r = Inr pr" for pr
    using m that p [OF that]
    by (auto simp: activate_profile_def safe_profile_found g x replay_display_def replay_program_def execute_def
        validate_program_def cool_def cooling_apply_def program_targets_def outcome_untouched_def split_beta Let_def)
  have er: "\<exists>e d1 w1. activate_profile en SAFE_PROFILE_NAME d w = (RespError e, d1, w1) \<and> dn_config d1 = c"
    if "r = Inl e" for e
    using m that by (auto simp: activate_profile_def safe_profile_found g Let_def)
  have cfg: "dn_config (fst (snd (handle en (ReqActivateProfile SAFE_PROFILE_NAME) d w))) = c"
    using ap er by (cases r) (fastforce simp: handle_config)+
  have rt: "program_to_restore c = (if p = Onboard then None else Some \<lparr>pr_program = p, pr_profile = None\<rparr>)"
    if "ss_program (doc_session (cfg_document (dn_config d))) = Some p" for p
    using that ses by (simp add: program_to_restore_def)
  have "case fst (handle en (ReqActivateProfile SAFE_PROFILE_NAME) d w) of
      RespActivated a \<Rightarrow> act_hardware a = HwOnboard | RespError e \<Rightarrow> True | _ \<Rightarrow> False"
    using ap er by (cases r) (fastforce simp: handle_def split_beta)+
  then show ?thesis
    using cfg rt by (auto simp: split_beta split: option.split)
qed

end
