(* ===== verification/Ownership.thy ===== *)
theory Ownership
  imports Device_Nodes "HOL-Library.Multiset"
begin

text \<open>
  \<open>crates/daemon/src/ownership.rs\<close> and the paths of \<open>paths.rs\<close> and \<open>crates/core/src/ipc/paths.rs\<close>: the
  advisory lock of a device, the HID nodes below its sysfs directory, and the other processes that
  hold one of them. The lock is the kernel's; writing the holder's number into the file, a diagnostic,
  is part of the event of taking it. The walk over directories has no end in a file system that has
  none, so it is a partial function; it ends wherever directories are bounded in depth.
\<close>

section \<open>Paths\<close>

text \<open>The environment variables, and a non-empty one read as a path.\<close>

type_synonym variables = "string \<Rightarrow> string option"

definition env_path :: "variables \<Rightarrow> string \<Rightarrow> string option" where
  "env_path vars key = (case vars key of
      Some v \<Rightarrow> if v = [] then None else Some v
    | None \<Rightarrow> None)"

definition runtime_dir :: "string option \<Rightarrow> string option \<Rightarrow> string option \<Rightarrow> string" where
  "runtime_dir override_dir xdg home = (case (override_dir, xdg) of
      (Some path, _) \<Rightarrow> path
    | (None, Some path) \<Rightarrow> path_join path ''kori''
    | (None, None) \<Rightarrow> path_join (path_join (case home of Some h \<Rightarrow> h | None \<Rightarrow> ''.'') ''.cache'') ''kori'')"

definition runtime_dir_from_env :: "variables \<Rightarrow> string" where
  "runtime_dir_from_env vars = runtime_dir (env_path vars ''KORI_RUNTIME_DIR'')
    (env_path vars ''XDG_RUNTIME_DIR'') (env_path vars ''HOME'')"

definition socket_path_from_env :: "variables \<Rightarrow> string" where
  "socket_path_from_env vars = (case env_path vars ''KORI_SOCKET'' of
      Some path \<Rightarrow> path
    | None \<Rightarrow> path_join (runtime_dir_from_env vars) ''kori.sock'')"

definition sysfs_root_from_env :: "variables \<Rightarrow> string" where
  "sysfs_root_from_env vars = (case env_path vars ''KORI_SYSFS_ROOT'' of Some p \<Rightarrow> p | None \<Rightarrow> ''/sys'')"

definition proc_root_from_env :: "variables \<Rightarrow> string" where
  "proc_root_from_env vars = (case env_path vars ''KORI_PROC_ROOT'' of Some p \<Rightarrow> p | None \<Rightarrow> ''/proc'')"

record daemon_paths =
  pt_runtime_dir :: string
  pt_config_dir :: string
  pt_socket :: string

definition paths_from_env :: "variables \<Rightarrow> daemon_paths" where
  "paths_from_env vars =
    \<lparr>pt_runtime_dir = runtime_dir_from_env vars,
     pt_config_dir = (case env_path vars ''KORI_CONFIG_DIR'' of
         Some p \<Rightarrow> p
       | None \<Rightarrow> (case env_path vars ''XDG_CONFIG_HOME'' of
           Some p \<Rightarrow> path_join p ''kori''
         | None \<Rightarrow> path_join (path_join (case env_path vars ''HOME'' of Some h \<Rightarrow> h | None \<Rightarrow> ''.'')
             ''.config'') ''kori'')),
     pt_socket = socket_path_from_env vars\<rparr>"

definition paths_new :: "string \<Rightarrow> string \<Rightarrow> daemon_paths" where
  "paths_new run config = \<lparr>pt_runtime_dir = run, pt_config_dir = config, pt_socket = path_join run ''kori.sock''\<rparr>"

definition config_file :: "daemon_paths \<Rightarrow> string" where
  "config_file p = path_join (pt_config_dir p) ''config.toml''"

definition device_lock :: "daemon_paths \<Rightarrow> device_id \<Rightarrow> string" where
  "device_lock p d = path_join (pt_runtime_dir p) (device_id_display d @ ''.lock'')"

definition instance_lock :: "daemon_paths \<Rightarrow> string" where
  "instance_lock p = path_join (pt_runtime_dir p) ''kori.lock''"

section \<open>Locks\<close>

text \<open>Opening the lock file and \<open>flock\<close> answer with an error text or succeed; \<open>lk_holder\<close> is what
  reading the file gives when the lock is taken.\<close>

record lock_env =
  lk_open :: "io_event list \<Rightarrow> string \<Rightarrow> string option"
  lk_flock :: "io_event list \<Rightarrow> string \<Rightarrow> string option"
  lk_holder :: "io_event list \<Rightarrow> string \<Rightarrow> string option"

definition lock_exclusive :: "lock_env \<Rightarrow> string \<Rightarrow> device_id option \<Rightarrow> world \<Rightarrow>
    (ownership_conflict + unit) \<times> world" where
  "lock_exclusive lk path device w =
    (let subject = (case device of Some _ \<Rightarrow> ''the device lock'' | None \<Rightarrow> ''the daemon lock'');
         opened = lk_open lk (w_trace w) path; w = push_event (NodeOpen path (opened = None)) w
     in case opened of
          Some e \<Rightarrow> (Inl \<lparr>oc_device = device, oc_resource = path,
            oc_detail = ''Lock file could not be opened: '' @ e\<rparr>, w)
        | None \<Rightarrow>
            (let taken = lk_flock lk (w_trace w) path; w = push_event (LockTake path (taken = None)) w
             in case taken of
                  None \<Rightarrow> (Inr (), w)
                | Some e \<Rightarrow>
                    (let (content, w) = ask_path (lk_holder lk) path w;
                         holder = trim (case content of Some c \<Rightarrow> c | None \<Rightarrow> [])
                     in (Inl \<lparr>oc_device = device, oc_resource = path, oc_detail =
                          (if holder = [] then ''Another process holds '' @ subject @ '' ('' @ e @ '').''
                           else ''Another instance holds '' @ subject @ '' (pid '' @ holder @ '').'')\<rparr>, w))))"

definition acquire :: "lock_env \<Rightarrow> daemon_paths \<Rightarrow> device_id \<Rightarrow> world \<Rightarrow> (ownership_conflict + unit) \<times> world" where
  "acquire lk p d = lock_exclusive lk (device_lock p d) (Some d)"

definition acquire_instance :: "lock_env \<Rightarrow> daemon_paths \<Rightarrow> world \<Rightarrow> (ownership_conflict + unit) \<times> world" where
  "acquire_instance lk p = lock_exclusive lk (instance_lock p) None"

section \<open>HID nodes\<close>

text \<open>The nodes listed in one \<open>hidraw\<close> directory.\<close>

definition nodes_named :: "string list \<Rightarrow> string list" where
  "nodes_named names = List.map_filter (\<lambda>n. case to_str n of
      Some name \<Rightarrow> if starts_with ''hidraw'' name then Some (path_join ''/dev'' name) else None
    | None \<Rightarrow> None) names"

text \<open>The entries of one directory: the nodes found, and the directories to descend into.\<close>

fun visit_entries :: "attr_env \<Rightarrow> access_env \<Rightarrow> string \<Rightarrow> string list \<Rightarrow> world \<Rightarrow>
    string list \<times> string list \<times> world" where
  "visit_entries env ax current [] w = ([], [], w)"
| "visit_entries env ax current (n # ns) w =
    (let path = path_join current n; (dir, w) = ask_path (ax_is_dir ax) path w in
     case (if dir then to_str n else None) of
       None \<Rightarrow> visit_entries env ax current ns w
     | Some name \<Rightarrow>
         if name = ''hidraw'' then
           (let (inner, w) = attr_list env path w; (found, pushed, w) = visit_entries env ax current ns w
            in (nodes_named inner @ found, pushed, w))
         else if contains name '':'' \<or> name = ''hwmon'' then
           (let (found, pushed, w) = visit_entries env ax current ns w in (found, path # pushed, w))
         else visit_entries env ax current ns w)"

text \<open>The loop over the stack, whose top is its head: what a directory pushes last is visited first.\<close>

partial_function (option) walk_nodes :: "attr_env \<Rightarrow> access_env \<Rightarrow> string list \<Rightarrow> string list \<Rightarrow> world \<Rightarrow>
    (string list \<times> world) option" where
  "walk_nodes env ax stack nodes w = (case stack of
      [] \<Rightarrow> Some (nodes, w)
    | current # rest \<Rightarrow>
        (let (names, w) = attr_list env current w;
             (found, pushed, w) = visit_entries env ax current names w
         in walk_nodes env ax (rev pushed @ rest) (nodes @ found) w))"

definition hid_nodes :: "attr_env \<Rightarrow> access_env \<Rightarrow> string \<Rightarrow> world \<Rightarrow> (string list \<times> world) option" where
  "hid_nodes env ax sysfs_path w = (case walk_nodes env ax [sysfs_path] [] w of
      None \<Rightarrow> None
    | Some (nodes, w) \<Rightarrow> Some (remdups_adj (sort nodes), w))"

section \<open>Other holders\<close>

definition process_name :: "attr_env \<Rightarrow> nat \<Rightarrow> world \<Rightarrow> string option \<times> world" where
  "process_name env pid w =
    (let (raw, w) = attr_read env (''/proc/'' @ show_nat pid @ ''/comm'') w
     in (case raw of
           Inl _ \<Rightarrow> None
         | Inr bytes \<Rightarrow> if utf8_valid (map byte bytes) then Some (trim bytes) else None, w))"

text \<open>The search through the descriptors of one process, which stops at the first known node.\<close>

definition held_node :: "access_env \<Rightarrow> (string \<times> device_id) list \<Rightarrow> string \<Rightarrow> world \<Rightarrow>
    (string \<times> device_id) option \<times> world" where
  "held_node ax nodes descriptor w = (let (target, w) = ask_path (ax_link ax) descriptor w in
    (case target of
       None \<Rightarrow> None
     | Some t \<Rightarrow> map_option (\<lambda>(_, d). (t, d)) (find (\<lambda>(n, _). n = t) nodes), w))"

definition holder_at :: "attr_env \<Rightarrow> access_env \<Rightarrow> nat \<Rightarrow> (string \<times> device_id) list \<Rightarrow> string \<Rightarrow> world \<Rightarrow>
    ownership_conflict option \<times> world" where
  "holder_at env ax own_pid nodes entry w =
    (case Option.bind (to_str entry) (parse_unsigned 10 (2 ^ 32 - 1)) of
       None \<Rightarrow> (None, w)
     | Some pid \<Rightarrow>
         if pid = own_pid then (None, w)
         else (let fd = path_join (path_join ''/proc'' entry) ''fd'';
                   (descriptors, w) = attr_list env fd w
           in and_then_some (find_map_entries (held_node ax nodes) (map (path_join fd) descriptors) w)
             (\<lambda>(target, d) w. (let (name, w) = process_name env pid w in
               (Some \<lparr>oc_device = Some d, oc_resource = target, oc_detail = ''Process '' @ show_nat pid @ '' ('' @
                  (case name of Some n \<Rightarrow> n | None \<Rightarrow> ''unknown'') @ '') already holds this device node.''\<rparr>, w)))))"

definition observed_holders :: "attr_env \<Rightarrow> access_env \<Rightarrow> nat \<Rightarrow> (string \<times> device_id) list \<Rightarrow> world \<Rightarrow>
    ownership_conflict list \<times> world" where
  "observed_holders env ax own_pid nodes w =
    (if nodes = [] then ([], w)
     else (let (entries, w) = attr_list env ''/proc'' w
       in filter_map_entries (holder_at env ax own_pid nodes) entries w))"

section \<open>The walk ends\<close>

text \<open>Directories are bounded in depth: no path longer than \<open>n\<close> is one, and no entry is named with a slash.\<close>

definition depth_bounded :: "attr_env \<Rightarrow> access_env \<Rightarrow> nat \<Rightarrow> bool" where
  "depth_bounded env ax n = (\<forall>t p. (ax_is_dir ax t p \<longrightarrow> length p \<le> n) \<and>
    list_all (\<lambda>name. CHR ''/'' \<notin> set name) (ae_list env t p))"

lemma path_join_longer:
  assumes "CHR ''/'' \<notin> set n" "n \<noteq> []"
  shows "length p < length (path_join p n)"
proof -
  have "\<not> starts_with ''/'' n" using assms by (cases n) (auto simp: starts_with_def)
  then show ?thesis using assms(2) by (auto simp: path_join_def)
qed

lemma visit_entries_pushed:
  assumes "depth_bounded env ax b" "list_all (\<lambda>name. CHR ''/'' \<notin> set name) ns"
  shows "q \<in> set (fst (snd (visit_entries env ax p ns w))) \<Longrightarrow> length p < length q \<and> length q \<le> b"
  using assms(2)
proof (induction ns arbitrary: w)
  case (Cons n ns)
  let ?w = "snd (ask_path (ax_is_dir ax) (path_join p n) w)"
  have dir: "ax_is_dir ax t r \<Longrightarrow> length r \<le> b" for t r
    using assms(1) by (simp add: depth_bounded_def)
  have more: "n \<noteq> [] \<Longrightarrow> length p < length (path_join p n)"
    using Cons.prems(2) by (simp add: path_join_longer)
  have ih: "q \<in> set (fst (snd (visit_entries env ax p ns v))) \<Longrightarrow> length p < length q \<and> length q \<le> b" for v
    using Cons.IH Cons.prems(2) by simp
  have ne: "contains [] '':'' = False" by (simp add: contains_def)
  show ?case
    using Cons.prems(1) ih more dir ne
    by (auto simp: split_beta Let_def ask_path_def to_str_def split: if_splits option.splits)
qed simp

lemma walk_nodes_returns:
  assumes "depth_bounded env ax b"
  shows "\<exists>r. walk_nodes env ax stack nodes w = Some r"
proof (induction "image_mset (\<lambda>p. b - length p) (mset stack)" arbitrary: stack nodes w
    rule: wf_induct_rule [OF wf_mult [OF wf_less]])
  case 1
  show ?case
  proof (cases stack)
    case Nil
    then show ?thesis by (subst walk_nodes.simps) simp
  next
    case (Cons current rest)
    obtain names v where l: "attr_list env current w = (names, v)" by fastforce
    obtain found pushed u where e: "visit_entries env ax current names v = (found, pushed, u)"
      by (cases "visit_entries env ax current names v")
    have "list_all (\<lambda>name. CHR ''/'' \<notin> set name) names"
      using assms l by (auto simp: depth_bounded_def attr_list_def)
    from visit_entries_pushed [OF assms this, of _ current v] have deep:
      "\<forall>q \<in> set pushed. b - length q < b - length current"
      using e by fastforce
    let ?m = "\<lambda>ps. image_mset (\<lambda>p. b - length p) (mset ps)"
    have "(?m rest + ?m pushed, ?m rest + {#b - length current#}) \<in> mult {(x, y). x < y}"
      using deep by (intro one_step_implies_mult) auto
    then have "(?m (rev pushed @ rest), ?m stack) \<in> mult {(x, y). x < y}"
      by (simp add: Cons add.commute)
    from 1 [OF this] show ?thesis
      by (subst walk_nodes.simps) (simp add: Cons l e)
  qed
qed

end
