(* ===== verification/Startup.thy ===== *)
theory Startup
  imports Ownership Daemon_Safety
begin

text \<open>
  \<open>crates/daemon/src/startup.rs\<close> and \<open>Daemon::start_with\<close> of \<open>state.rs\<close>: a daemon assembled from what the
  machine answers. The order matters: the machine is probed, the two devices are asked what they are,
  the findings are logged, the locks are taken, the configuration is loaded, and only then is anything
  the operator left running put back. A start has no result where the walk over the device directories
  has no end (\<open>Ownership.walk_nodes_returns\<close> says when it has one). The threads of the sampler start
  here; what they publish is \<open>en_snapshot\<close>.
\<close>

record start_env =
  se_daemon :: daemon_env
  se_access :: access_env
  se_nodes :: node_env
  se_locks :: lock_env
  se_release :: string

datatype rgb_backend = RgbHidraw | RgbSupplied hid_env | RgbNone
datatype lcd_backend = LcdNodes | LcdSupplied lcd_link | LcdNone

definition note_log :: "clock_env \<Rightarrow> event_kind \<Rightarrow> diagnostics_log \<Rightarrow> world \<Rightarrow> diagnostics_log \<times> world" where
  "note_log clock k l w = (let (now, w) = now_unix_ms clock w in (log_record l now k, w))"

fun note_logs :: "clock_env \<Rightarrow> event_kind list \<Rightarrow> diagnostics_log \<Rightarrow> world \<Rightarrow> diagnostics_log \<times> world" where
  "note_logs clock [] l w = (l, w)"
| "note_logs clock (k # ks) l w = (let (l, w) = note_log clock k l w in note_logs clock ks l w)"

section \<open>Discovery\<close>

definition device_events :: "device_record \<Rightarrow> event_kind list" where
  "device_events d =
    DeviceDiscovered (device_id_of d) (usb_sysfs_path (dr_usb d)) #
    map (\<lambda>c. CapabilityResolved (device_id_of d) (cap_id c)
      (case blocked_reason (cap_state c) of Some r \<Rightarrow> r | None \<Rightarrow> ''writable'')) (dr_capabilities d)"

fun record_devices :: "clock_env \<Rightarrow> device_record list \<Rightarrow> diagnostics_log \<Rightarrow> world \<Rightarrow> diagnostics_log \<times> world" where
  "record_devices clock [] l w = (l, w)"
| "record_devices clock (d # ds) l w =
    (let l = (case usb_serial (dr_usb d) of
           Known v _ \<Rightarrow> l\<lparr>dl_redactor := add_secret (dl_redactor l) v\<rparr> | Unknown _ _ \<Rightarrow> l);
         (l, w) = note_logs clock (device_events d) l w
     in record_devices clock ds l w)"

definition record_discovery :: "clock_env \<Rightarrow> capability_record \<Rightarrow> diagnostics_log \<Rightarrow> world \<Rightarrow>
    diagnostics_log \<times> world" where
  "record_discovery clock r l w =
    (let (l, w) = note_logs clock (map (\<lambda>j. DeviceRejected (rd_id j) (rd_reason j)) (cr_rejected r)) l w
     in record_devices clock (record_supported r) l w)"

section \<open>Ownership of every device\<close>

record owned =
  ow_locks :: "device_id list"
  ow_conflicts :: "ownership_conflict list"
  ow_nodes :: "(string \<times> device_id) list"

definition own_device :: "start_env \<Rightarrow> daemon_paths \<Rightarrow> device_record \<Rightarrow> owned \<Rightarrow> diagnostics_log \<Rightarrow> world \<Rightarrow>
    (owned \<times> diagnostics_log \<times> world) option" where
  "own_device se paths d o1 l w =
    (let i = device_id_of d; (r, w) = acquire (se_locks se) paths i w;
         (o1, l, w) = (case r of
             Inr _ \<Rightarrow> (let (l, w) = note_log (en_clock (se_daemon se)) (OwnershipAcquired i (device_lock paths i)) l w
               in (o1\<lparr>ow_locks := ow_locks o1 @ [i]\<rparr>, l, w))
           | Inl c \<Rightarrow> (o1\<lparr>ow_conflicts := ow_conflicts o1 @ [c]\<rparr>, l, w))
     in case hid_nodes (en_attr (se_daemon se)) (se_access se) (usb_sysfs_path (dr_usb d)) w of
          None \<Rightarrow> None
        | Some (nodes, w) \<Rightarrow> Some (o1\<lparr>ow_nodes := ow_nodes o1 @ map (\<lambda>n. (n, i)) nodes\<rparr>, l, w))"

fun own_devices :: "start_env \<Rightarrow> daemon_paths \<Rightarrow> device_record list \<Rightarrow> owned \<Rightarrow> diagnostics_log \<Rightarrow> world \<Rightarrow>
    (owned \<times> diagnostics_log \<times> world) option" where
  "own_devices se paths [] o1 l w = Some (o1, l, w)"
| "own_devices se paths (d # ds) o1 l w = (case own_device se paths d o1 l w of
      None \<Rightarrow> None
    | Some (o1, l, w) \<Rightarrow> own_devices se paths ds o1 l w)"

definition take_ownership :: "start_env \<Rightarrow> daemon_paths \<Rightarrow> capability_record \<Rightarrow> diagnostics_log \<Rightarrow> world \<Rightarrow>
    (device_id list \<times> ownership_conflict list \<times> diagnostics_log \<times> world) option" where
  "take_ownership se paths r l w =
    (case own_devices se paths (record_supported r) \<lparr>ow_locks = [], ow_conflicts = [], ow_nodes = []\<rparr> l w of
       None \<Rightarrow> None
     | Some (o1, l, w) \<Rightarrow>
         (let en = se_daemon se;
              (held, w) = observed_holders (en_attr en) (se_access se) (unat (fe_pid (en_fs en))) (ow_nodes o1) w;
              conflicts = ow_conflicts o1 @ held;
              (l, w) = note_logs (en_clock en)
                (map (\<lambda>c. OwnershipConflict (oc_device c) (oc_resource c) (oc_detail c)) conflicts) l w
          in Some (ow_locks o1, conflicts, l, w)))"

section \<open>Configuration\<close>

definition load_configuration :: "start_env \<Rightarrow> daemon_paths \<Rightarrow> diagnostics_log \<Rightarrow> world \<Rightarrow>
    configuration \<times> diagnostics_log \<times> world" where
  "load_configuration se paths l w =
    (let en = se_daemon se;
         (c, w) = config_load (en_toml en) (en_fs en) (en_clock en) (config_file paths) w;
         k = (case cfg_state c of
             ConfigIsRecovered detail preserved _ \<Rightarrow> ConfigRecovered detail preserved
           | _ \<Rightarrow> ConfigLoaded (cfg_path c));
         (l, w) = note_log (en_clock en) k l w
     in (c, l, w))"

section \<open>Asking the devices\<close>

definition known_or :: "'a \<Rightarrow> 'a evidenced \<Rightarrow> 'a" where
  "known_or v e = (case ev_value e of Some x \<Rightarrow> x | None \<Rightarrow> v)"

definition ask_rgb :: "start_env \<Rightarrow> capability_record \<Rightarrow> world \<Rightarrow>
    rgb_channel list \<times> hid_env option \<times> capability_record \<times> world" where
  "ask_rgb se r w =
    (let (node, w) = probe_hidraw_node (en_attr (se_daemon se)) r RGB_CONTROLLER w;
         (t, link, w) = rgb_connect (se_nodes se) node w
     in (known_or [] (rt_channels t), link, attach_rgb_topology r t, w))"

definition lighting_for :: "rgb_channel list \<Rightarrow> hid_env option \<Rightarrow> lighting_executor" where
  "lighting_for channels link = (case link of
      Some h \<Rightarrow> if channels \<noteq> [] then lighting_connected h channels else lighting_absent
    | None \<Rightarrow> lighting_absent)"

definition connect_lighting :: "start_env \<Rightarrow> rgb_backend \<Rightarrow> capability_record \<Rightarrow> world \<Rightarrow>
    lighting_executor \<times> capability_record \<times> world" where
  "connect_lighting se backend r w = (case backend of
      RgbNone \<Rightarrow> (lighting_absent, r, w)
    | RgbHidraw \<Rightarrow> (let (channels, link, r, w) = ask_rgb se r w in (lighting_for channels link, r, w))
    | RgbSupplied transport \<Rightarrow>
        (let (t, w) = rgb_inspect transport w;
             link = (if ev_is_known (rt_channels t) then Some transport else None)
         in (lighting_for (known_or [] (rt_channels t)) link, attach_rgb_topology r t, w)))"

definition ask_lcd :: "start_env \<Rightarrow> capability_record \<Rightarrow> world \<Rightarrow>
    lcd_panel option \<times> lcd_link option \<times> capability_record \<times> world" where
  "ask_lcd se r w =
    (let env = en_attr (se_daemon se); device = device_path r KRAKEN_BASE;
         (node, w) = (case device of None \<Rightarrow> (None, w) | Some d \<Rightarrow> hidraw_node env d w);
         (t, link, w) = lcd_connect env (se_access se) (se_nodes se) device node w
     in (ev_value (lt_panel t), link, attach_lcd_topology r t, w))"

definition display_for :: "lcd_panel option \<Rightarrow> lcd_link option \<Rightarrow> display_executor" where
  "display_for panel link = (case (link, panel) of
      (Some l, Some p) \<Rightarrow> display_connected l p
    | _ \<Rightarrow> display_absent)"

definition connect_display :: "start_env \<Rightarrow> lcd_backend \<Rightarrow> capability_record \<Rightarrow> world \<Rightarrow>
    display_executor \<times> capability_record \<times> world" where
  "connect_display se backend r w = (case backend of
      LcdNone \<Rightarrow> (display_absent, r, w)
    | LcdNodes \<Rightarrow> (let (panel, link, r, w) = ask_lcd se r w in (display_for panel link, r, w))
    | LcdSupplied link \<Rightarrow>
        (let (t, w) = link_topology link w
         in (display_for (ev_value (lt_panel t)) (if lcd_answered t then Some link else None),
             attach_lcd_topology r t, w)))"

section \<open>Starting\<close>

definition create_private_dir :: "fs_env \<Rightarrow> string \<Rightarrow> world \<Rightarrow> (io_error + unit) \<times> world" where
  "create_private_dir fs path w = or_return (fs_make_dirs fs path w) (\<lambda>_ w. fs_do fs (FileMode path) w)"

definition paths_ensure :: "fs_env \<Rightarrow> daemon_paths \<Rightarrow> world \<Rightarrow> (io_error + unit) \<times> world" where
  "paths_ensure fs p w =
    or_return (create_private_dir fs (pt_runtime_dir p) w) (\<lambda>_ w. create_private_dir fs (pt_config_dir p) w)"

definition record_access_mode :: "daemon_env \<Rightarrow> daemon \<Rightarrow> world \<Rightarrow> daemon \<times> world" where
  "record_access_mode en d w =
    note_event en (AccessModeChanged (daemon_read_only d \<noteq> None)
      (case read_only_reason d of
         Some reason \<Rightarrow> reason | None \<Rightarrow> ''every supported capability is writable'')) d w"

text \<open>The devices, from the probe to the two executors that talk to them.\<close>

definition find_devices :: "start_env \<Rightarrow> string \<Rightarrow> rgb_backend \<Rightarrow> lcd_backend \<Rightarrow> world \<Rightarrow>
    capability_record \<times> lighting_executor \<times> display_executor \<times> world" where
  "find_devices se sysfs rgb lcd w =
    (let en = se_daemon se;
         (r, w) = probe \<lparr>pe_attr = en_attr en, pe_access = se_access se, pe_clock = en_clock en,
           pe_release = se_release se\<rparr> sysfs w;
         (lighting, r, w) = connect_lighting se rgb r w;
         (display, r, w) = connect_display se lcd r w
     in (r, lighting, display, w))"

definition assemble :: "start_env \<Rightarrow> daemon_paths \<Rightarrow> string \<Rightarrow> rgb_backend \<Rightarrow> lcd_backend \<Rightarrow> world \<Rightarrow>
    (daemon \<times> world) option" where
  "assemble se paths sysfs rgb lcd w =
    (let en = se_daemon se;
         (l, w) = note_log (en_clock en) (DaemonStarted (en_version en) (pt_socket paths))
           (log_with_capacity DEFAULT_CAPACITY) w;
         (r, lighting, display, w) = find_devices se sysfs rgb lcd w;
         (l, w) = record_discovery (en_clock en) r l w
     in case take_ownership se paths r l w of
          None \<Rightarrow> None
        | Some (locks, conflicts, l, w) \<Rightarrow>
            (let (c, l, w) = load_configuration se paths l w;
                 (_, w) = now_unix_ms (en_clock en) w;
                 (cooling, w) = cooling_open (en_attr en) sysfs w
             in Some (\<lparr>dn_socket = pt_socket paths, dn_capabilities = r, dn_locks = locks,
                 dn_conflicts = conflicts, dn_config = c, dn_diagnostics = l, dn_cooling = cooling,
                 dn_lighting = lighting, dn_display = display, dn_reported = Map.empty\<rparr>, w)))"

definition start_with :: "start_env \<Rightarrow> daemon_paths \<Rightarrow> string \<Rightarrow> rgb_backend \<Rightarrow> lcd_backend \<Rightarrow> world \<Rightarrow>
    ((io_error + daemon) \<times> world) option" where
  "start_with se paths sysfs rgb lcd w =
    (case paths_ensure (en_fs (se_daemon se)) paths w of
       (Inl e, w) \<Rightarrow> Some (Inl e, w)
     | (Inr _, w) \<Rightarrow> (case assemble se paths sysfs rgb lcd w of
         None \<Rightarrow> None
       | Some (d, w) \<Rightarrow>
           (let (d, w) = record_access_mode (se_daemon se) d w;
                (d, w) = restore_active_profile (se_daemon se) d w
            in Some (Inr d, w))))"

end
