(* ===== verification/Startup_Safety.thy ===== *)
theory Startup_Safety
  imports Startup
begin

text \<open>
  What a start does to the machine. Up to the moment the configuration is loaded it only asks: at most
  four questions leave, no attribute is written and no interface but the one of the pixels is claimed.
  What is restored after that goes through the gates of every other request, so a daemon that comes
  up read-only has sent nothing but its questions. Write access means that the lock of every supported
  device is held, for as long as the daemon runs.
\<close>

section \<open>Reading\<close>

lemma silent_note_log: "silent w (snd (note_log clock k l w))"
  by (simp add: note_log_def split_beta silent_unix)

lemma silent_note_logs: "silent w (snd (note_logs clock ks l w))"
proof (induction ks arbitrary: l w)
  case (Cons k ks)
  show ?case using silent_trans [OF silent_note_log Cons.IH] by (simp add: split_beta)
qed simp

lemma silent_record_devices: "silent w (snd (record_devices clock ds l w))"
proof (induction ds arbitrary: l w)
  case (Cons d ds)
  show ?case using silent_trans [OF silent_note_logs Cons.IH] by (simp add: split_beta Let_def)
qed simp

lemma silent_record_discovery: "silent w (snd (record_discovery clock r l w))"
  using silent_trans [OF silent_note_logs silent_record_devices] by (simp add: record_discovery_def split_beta)

lemma silent_visit_entries: "silent w (snd (snd (visit_entries env ax p ns w)))"
proof (induction ns arbitrary: w)
  case (Cons n ns)
  let ?v = "snd (ask_path (ax_is_dir ax) (path_join p n) w)"
  let ?u = "snd (attr_list env (path_join p n) ?v)"
  have v: "silent w ?v" by (rule silent_ask_path)
  have u: "silent w ?u" by (rule silent_trans [OF v silent_attr_list])
  show ?case
    using silent_trans [OF v Cons.IH] silent_trans [OF u Cons.IH]
    by (auto simp: split_beta Let_def split: option.split)
qed simp

lemma silent_walk_nodes:
  assumes walked: "walk_nodes env ax stack nodes w = Some r"
  shows "silent w (snd r)"
proof (induction env ax stack nodes w r rule: walk_nodes.raw_induct)
  case (1 walk env ax stack nodes w r)
  show ?case
  proof (cases stack)
    case Nil
    then show ?thesis using 1(2) by auto
  next
    case (Cons current rest)
    let ?l = "attr_list env current w"
    let ?v = "visit_entries env ax current (fst ?l) (snd ?l)"
    have "walk env ax (rev (fst (snd ?v)) @ rest) (nodes @ fst ?v) (snd (snd ?v)) = Some r"
      using 1(2) Cons by (simp add: split_beta)
    then have "silent (snd (snd ?v)) (snd r)" by (rule 1(1))
    then show ?thesis
      using silent_trans [OF silent_trans [OF silent_attr_list silent_visit_entries]] by blast
  qed
qed (rule walked)

lemma silent_hid_nodes: "hid_nodes env ax p w = Some (nodes, w') \<Longrightarrow> silent w w'"
  using silent_walk_nodes by (fastforce simp: hid_nodes_def split: option.splits)

lemma silent_process_name [silent_rules]: "silent w (snd (process_name env pid w))"
  by (simp add: process_name_def split_beta silent_rules)

lemma silent_held_node [silent_rules]: "silent w (snd (held_node ax nodes d w))"
  by (simp add: held_node_def split_beta silent_rules)

lemma silent_pair_step [silent_rules]:
  "(\<And>a b. silent w (snd (f a b w))) \<Longrightarrow> silent w (snd ((case x of (a, b) \<Rightarrow> f a b) w))"
  by (cases x) simp

lemma silent_holder_at [silent_rules]: "silent w (snd (holder_at env ax own nodes e w))"
  unfolding holder_at_def Let_def by (intro silent_rules)

lemma silent_observed_holders: "silent w (snd (observed_holders env ax own nodes w))"
  unfolding observed_holders_def Let_def by (intro silent_rules)

section \<open>Asking\<close>

lemma asks_lock: "asks 0 w (snd (lock_exclusive lk path device w))"
proof -
  have v: "asks 0 w (push_event (NodeOpen path b) w)" for b by (rule asks_push) simp_all
  have u: "asks 0 w (push_event (LockTake path c) (push_event (NodeOpen path b) w))" for b c
    by (rule asks_then [OF v], rule asks_push) simp_all
  have h: "asks 0 w (snd (ask_path (lk_holder lk) path (push_event (LockTake path c) (push_event (NodeOpen path b) w))))"
    for b c by (rule asks_then [OF u silent_asks [OF silent_ask_path]])
  show ?thesis
    using v u h by (simp add: lock_exclusive_def split_beta Let_def split: option.split)
qed

lemma asks_own_device: "own_device se paths d o1 l w = Some (o2, l', w') \<Longrightarrow> asks 0 w w'"
proof -
  assume r: "own_device se paths d o1 l w = Some (o2, l', w')"
  let ?log = "note_log (en_clock (se_daemon se)) (OwnershipAcquired (device_id_of d) (device_lock paths (device_id_of d))) l"
  obtain c v where a: "acquire (se_locks se) paths (device_id_of d) w = (c, v)" by fastforce
  obtain l1 v1 where n: "?log v = (l1, v1)" by fastforce
  have v: "asks 0 w v" using asks_lock [of w "se_locks se"] a by (metis acquire_def snd_conv)
  then have v1: "asks 0 w v1" using n silent_note_log [of v] by (metis asks_then silent_asks snd_conv)
  let ?u = "case c of Inl _ \<Rightarrow> v | Inr _ \<Rightarrow> v1"
  obtain ns where h: "hid_nodes (en_attr (se_daemon se)) (se_access se) (usb_sysfs_path (dr_usb d)) ?u = Some (ns, w')"
    using r by (cases c) (auto simp: own_device_def a n Let_def split: option.splits)
  have "asks 0 w ?u" using v v1 by (simp split: sum.split)
  then show ?thesis by (rule asks_then [OF _ silent_asks [OF silent_hid_nodes [OF h]]])
qed

lemma asks_own_devices: "own_devices se paths ds o1 l w = Some (o2, l', w') \<Longrightarrow> asks 0 w w'"
proof (induction ds arbitrary: o1 l w)
  case (Cons d ds)
  then obtain o3 l3 w3 where "own_device se paths d o1 l w = Some (o3, l3, w3)"
    "own_devices se paths ds o3 l3 w3 = Some (o2, l', w')"
    by (auto split: option.splits)
  then show ?case using asks_then [OF asks_own_device Cons.IH] by blast
qed simp

lemma asks_take_ownership: "take_ownership se paths r l w = Some (ls, cs, l', w') \<Longrightarrow> asks 0 w w'"
proof -
  assume t: "take_ownership se paths r l w = Some (ls, cs, l', w')"
  then obtain o1 l1 w1 where o1: "own_devices se paths (record_supported r)
      \<lparr>ow_locks = [], ow_conflicts = [], ow_nodes = []\<rparr> l w = Some (o1, l1, w1)"
    by (auto simp: take_ownership_def split: option.splits)
  obtain held w2 where h: "observed_holders (en_attr (se_daemon se)) (se_access se)
      (unat (fe_pid (en_fs (se_daemon se)))) (ow_nodes o1) w1 = (held, w2)"
    by fastforce
  obtain l3 w3 where n: "note_logs (en_clock (se_daemon se)) (map (\<lambda>c. OwnershipConflict (oc_device c)
      (oc_resource c) (oc_detail c)) (ow_conflicts o1 @ held)) l1 w2 = (l3, w3)"
    by fastforce
  have "w3 = w'" using t by (simp add: take_ownership_def o1 h n Let_def del: map_append)
  moreover have "silent w1 w2" "silent w2 w3"
    using silent_observed_holders [of w1] h silent_note_logs [of w2] n by (metis snd_conv)+
  ultimately have "silent w1 w'" using silent_trans by blast
  then show ?thesis using asks_then [OF asks_own_devices [OF o1] silent_asks] by blast
qed

lemma asks_load_configuration: "asks 0 w (snd (snd (load_configuration se paths l w)))"
proof -
  let ?en = "se_daemon se"
  have read: "asks 0 v (snd (read_document tm fs p v))" for tm fs p v
    by (auto simp: read_document_def fs_read_def asks_push split: sum.split option.split)
  have rename: "asks 0 v (snd (fs_rename fs p q v))" for fs p q v
    by (simp add: fs_rename_def fs_do_def asks_push split: option.split)
  have there: "asks 0 v (snd (fs_exists fs p v))" for fs p v
    by (simp add: fs_exists_def asks_push)
  have "asks 0 v (snd (preserve fs clock p v))" for fs clock p v
    using asks_then [OF there asks_then [OF silent_asks [OF silent_unix] rename]] there
    by (simp add: preserve_def split_beta Let_def)
  then have "asks 0 w (snd (config_load tm fs clock p w))" for tm fs clock p
    using read [of w tm fs p] asks_then
    by (auto simp: config_load_def split_beta Let_def split: prod.split sum.split option.split)
  then show ?thesis
    using asks_then silent_asks [OF silent_note_log] by (simp add: load_configuration_def split_beta Let_def) blast
qed

lemma asks_connect_lighting: "asks 2 w (snd (snd (connect_lighting se backend r w)))"
  using asks_then [OF silent_asks [OF silent_probe_hidraw_node] asks_rgb_connect] asks_rgb_inspect
  by (auto simp: connect_lighting_def ask_rgb_def split_beta Let_def split: rgb_backend.split)

lemma asks_connect_display: "asks 2 w (snd (snd (connect_display se backend r w)))"
proof -
  have "asks 2 w (snd (snd (lcd_connect env ax nd d (fst (hidraw_node env' p w)) (snd (hidraw_node env' p w)))))"
    for env ax nd d env' p
    by (rule asks_then [OF silent_asks [OF silent_hidraw_node] asks_lcd_connect])
  then show ?thesis
    using asks_lcd_connect asks_lcd_inspect
    by (auto simp: connect_display_def ask_lcd_def link_topology_def split_beta Let_def
        split: lcd_backend.split option.split)
qed

lemma asks_find_devices: "asks 4 w (snd (snd (snd (find_devices se sysfs rgb lcd w))))"
proof -
  let ?p = "probe \<lparr>pe_attr = en_attr (se_daemon se), pe_access = se_access se,
    pe_clock = en_clock (se_daemon se), pe_release = se_release se\<rparr> sysfs w"
  obtain lx r1 w1 where l: "connect_lighting se rgb (fst ?p) (snd ?p) = (lx, r1, w1)"
    by (cases "connect_lighting se rgb (fst ?p) (snd ?p)")
  have "asks 2 w w1"
    using asks_then [OF silent_asks [OF silent_probe] asks_connect_lighting [of "snd ?p" se rgb "fst ?p"]] l by simp
  then have "asks (2 + 2) w (snd (snd (connect_display se lcd r1 w1)))"
    by (rule asks_trans [OF _ asks_connect_display])
  then show ?thesis using l by (simp add: find_devices_def split_beta Let_def)
qed

lemma asks_assemble: "assemble se paths sysfs rgb lcd w = Some (d, w') \<Longrightarrow> asks 4 w w'"
proof -
  assume r: "assemble se paths sysfs rgb lcd w = Some (d, w')"
  let ?c = "en_clock (se_daemon se)"
  obtain l0 w0 where n: "note_log ?c (DaemonStarted (en_version (se_daemon se)) (pt_socket paths))
      (log_with_capacity DEFAULT_CAPACITY) w = (l0, w0)"
    by fastforce
  obtain rec lx dx w1 where f: "find_devices se sysfs rgb lcd w0 = (rec, lx, dx, w1)"
    by (cases "find_devices se sysfs rgb lcd w0")
  obtain l2 w2 where g: "record_discovery ?c rec l0 w1 = (l2, w2)" by fastforce
  obtain ls cs l3 w3 where t: "take_ownership se paths rec l2 w2 = Some (ls, cs, l3, w3)"
    using r by (auto simp: assemble_def n f g Let_def split: option.splits)
  have a: "asks 0 w w0" "asks 4 w0 w1" "asks 0 w1 w2" "asks 0 w2 w3"
    using silent_note_log [of w ?c] n asks_find_devices [of w0 se sysfs rgb lcd] f
      silent_record_discovery [of w1 ?c rec l0] g asks_take_ownership [OF t]
    by (metis silent_asks snd_conv, metis snd_conv, metis silent_asks snd_conv, simp)
  obtain c l4 w4 where k: "load_configuration se paths l3 w3 = (c, l4, w4)"
    by (cases "load_configuration se paths l3 w3")
  have "silent w4 w'"
    using r silent_trans [OF silent_unix silent_locate]
    by (auto simp: assemble_def n f g t k cooling_open_def split_beta Let_def)
  then have "asks 0 w3 w'"
    using asks_then [OF asks_load_configuration [of w3 se paths l3] silent_asks] k by simp
  then have "asks 0 w1 w'" using a asks_then by blast
  then have "asks (4 + 0) w0 w'" by (rule asks_trans [OF a(2)])
  then show ?thesis using asks_then [OF a(1)] by simp
qed

lemma asks_ensure: "asks 0 w (snd (paths_ensure fs p w))"
proof -
  have d: "asks 0 v (snd (create_private_dir fs path v))" for path v
  proof -
    have "asks 0 v (snd (fs_make_dirs fs path v))" for v
      by (auto simp: fs_make_dirs_def fs_do_def asks_push split: option.split)
    moreover have "asks 0 v (snd (fs_do fs (FileMode path) v))" for v
      by (simp add: fs_do_def asks_push split: option.split)
    ultimately show ?thesis using asks_then by (auto simp: create_private_dir_def or_return_def split: prod.split sum.split) (metis snd_conv)+
  qed
  then show ?thesis using asks_then
    by (auto simp: paths_ensure_def or_return_def split: prod.split sum.split) (metis snd_conv)+
qed

section \<open>A start that may write nothing\<close>


section \<open>Write access and locks\<close>

lemma own_device_locks:
  assumes "own_device se paths d o1 l w = Some (o2, l', w')"
  shows "ow_locks o2 = ow_locks o1 @ [device_id_of d] \<and> ow_conflicts o2 = ow_conflicts o1 \<or>
    ow_locks o2 = ow_locks o1 \<and> (\<exists>c. ow_conflicts o2 = ow_conflicts o1 @ [c])"
  using assms
  by (cases "fst (acquire (se_locks se) paths (device_id_of d) w)")
    (auto simp: own_device_def split_beta Let_def split: option.splits)

lemma own_devices_locks:
  "own_devices se paths ds o1 l w = Some (o2, l', w') \<Longrightarrow>
    ow_conflicts o2 = [] \<Longrightarrow> ow_conflicts o1 = [] \<and> ow_locks o2 = ow_locks o1 @ map device_id_of ds"
proof (induction ds arbitrary: o1 l w)
  case (Cons d ds)
  then obtain o3 l3 w3 where o3: "own_device se paths d o1 l w = Some (o3, l3, w3)"
    "own_devices se paths ds o3 l3 w3 = Some (o2, l', w')"
    by (auto split: option.splits)
  show ?case using Cons.IH [OF o3(2) Cons.prems(2)] own_device_locks [OF o3(1)] by auto
qed simp

lemma take_ownership_locks:
  assumes "take_ownership se paths r l w = Some (locks, [], l', w')"
  shows "locks = map device_id_of (record_supported r)"
proof -
  obtain o1 l1 w1 where "own_devices se paths (record_supported r)
      \<lparr>ow_locks = [], ow_conflicts = [], ow_nodes = []\<rparr> l w = Some (o1, l1, w1)"
    "ow_conflicts o1 = []" "locks = ow_locks o1"
    using assms by (auto simp: take_ownership_def split_beta Let_def split: option.splits)
  then show ?thesis using own_devices_locks by fastforce
qed

definition every_lock_held :: "daemon \<Rightarrow> bool" where
  "every_lock_held d = (dn_conflicts d \<noteq> [] \<or> dn_locks d = map device_id_of (record_supported (dn_capabilities d)))"

lemma assemble_locks: "assemble se paths sysfs rgb lcd w = Some (d, w') \<Longrightarrow> every_lock_held d"
  using take_ownership_locks
  by (fastforce simp: assemble_def every_lock_held_def split_beta Let_def split: option.splits)

definition same_locks :: "daemon \<times> world \<Rightarrow> daemon \<times> world \<Rightarrow> bool" where
  "same_locks s t = (same_holders (fst s) (fst t) \<and> dn_locks (fst t) = dn_locks (fst s))"

interpretation locked: daemon_relation en same_locks
  by unfold_locales (auto simp: same_locks_def same_holders_def)

lemma start_locks:
  assumes "start_with se paths sysfs rgb lcd w = Some (Inr d, w')"
  shows "every_lock_held d"
proof -
  let ?en = "se_daemon se"
  obtain w0 d1 v where a: "assemble se paths sysfs rgb lcd w0 = Some (d1, v)"
    and t: "(d, w') = (case record_access_mode ?en d1 v of (d, w) \<Rightarrow> restore_active_profile ?en d w)"
    using assms by (auto simp: start_with_def split_beta Let_def split: prod.splits sum.splits option.splits)
  have "same_locks (d1, v) (d1, v)" by (simp add: same_locks_def same_holders_def)
  then have "same_locks (d1, v) (record_access_mode ?en d1 v)"
    unfolding record_access_mode_def by (rule locked.noted)
  then have "same_locks (d1, v) (d, w')"
    unfolding t using locked.restore_keeps by (simp add: split_beta)
  then show ?thesis using assemble_locks [OF a] by (auto simp: same_locks_def same_holders_def every_lock_held_def)
qed

section \<open>Returning\<close>

lemma own_devices_return:
  "depth_bounded (en_attr (se_daemon se)) (se_access se) b \<Longrightarrow> \<exists>r. own_devices se paths ds o1 l w = Some r"
proof (induction ds arbitrary: o1 l w)
  case (Cons d ds)
  have "\<exists>r. hid_nodes (en_attr (se_daemon se)) (se_access se) p v = Some r" for p v
    using walk_nodes_returns [OF Cons.prems, of "[p]" "[]" v] by (auto simp: hid_nodes_def)
  then have "\<exists>r. own_device se paths d o1 l w = Some r"
    by (auto simp: own_device_def split_beta Let_def split: option.split sum.split)
  then show ?case using Cons by auto
qed simp


end
