(* ===== verification/Canvas.thy ===== *)
theory Canvas
  imports Display
begin

text \<open>
  \<open>crates/lcd-renderer/src/canvas.rs\<close>: the software rasterizer of the panel, per-pixel coverage and
  annular arcs. Coordinates and coverages are binary32 (\<open>Float32\<close>). The standard library leaves the
  precision of \<open>sin\<close>, \<open>cos\<close> and \<open>atan2\<close> open, so they are the parameter \<open>trig\<close>; \<open>sqrt\<close>, \<open>ceil\<close>, \<open>%\<close>,
  \<open>min\<close> and \<open>max\<close> are exact or correctly rounded and are defined. The loops over a box of pixels are
  folds over its rows and columns. Nothing that is drawn changes the size of a canvas.
\<close>

section \<open>More of binary32\<close>

text \<open>A literal of the source, and the methods that answer one of their arguments.\<close>

definition lit :: "rat \<Rightarrow> f32" where
  "lit q = f32_round q"

definition f32_min :: "f32 \<Rightarrow> f32 \<Rightarrow> f32" where
  "f32_min a b = (if f32_is_nan a then b else if f32_is_nan b then a else if f32_less b a then b else a)"

definition f32_max :: "f32 \<Rightarrow> f32 \<Rightarrow> f32" where
  "f32_max a b = (if f32_is_nan a then b else if f32_is_nan b then a else if f32_less a b then b else a)"

definition f32_ceil :: "f32 \<Rightarrow> f32" where
  "f32_ceil a = (case a of F32 x \<Rightarrow> F32 (of_int \<lceil>x\<rceil>) | _ \<Rightarrow> a)"

text \<open>\<open>as i32\<close>, and \<open>%\<close>, whose result is exact and has the sign of its left side.\<close>

definition f32_as_i32 :: "f32 \<Rightarrow> int" where
  "f32_as_i32 a = f32_to_int (- (2 ^ 31)) (2 ^ 31 - 1) a"

definition trunc :: "rat \<Rightarrow> int" where
  "trunc x = (if 0 \<le> x then \<lfloor>x\<rfloor> else - \<lfloor>- x\<rfloor>)"

definition f32_rem :: "f32 \<Rightarrow> f32 \<Rightarrow> f32" where
  "f32_rem a b = (case (a, b) of
      (F32 x, F32 y) \<Rightarrow> if y = 0 then F32_NaN else F32 (x - y * of_int (trunc (x / y)))
    | (F32 x, F32_Inf _) \<Rightarrow> F32 x
    | _ \<Rightarrow> F32_NaN)"

text \<open>The integer square root, and from it the correctly rounded one: a root that is not exact at 26
  bits or more lies strictly between two of them, so its midpoint rounds as the root does.\<close>

fun isqrt :: "nat \<Rightarrow> nat" where
  "isqrt n = (if n = 0 then 0 else
     (let r = 2 * isqrt (n div 4) in if (r + 1) * (r + 1) \<le> n then r + 1 else r))"

declare isqrt.simps [simp del]

lemma isqrt_bounds: "isqrt n * isqrt n \<le> n \<and> n < (isqrt n + 1) * (isqrt n + 1)"
proof (induction n rule: isqrt.induct)
  case (1 n)
  show ?case
  proof (cases "n = 0")
    case False
    let ?r = "isqrt (n div 4)"
    have ih: "?r * ?r \<le> n div 4" "n div 4 < (?r + 1) * (?r + 1)" using 1 False by auto
    have lo: "2 * ?r * (2 * ?r) \<le> n" using ih(1) by simp
    have "n < 4 * ((?r + 1) * (?r + 1))" using ih(2) by simp
    then have hi: "n < (2 * ?r + 1 + 1) * (2 * ?r + 1 + 1)" by (simp add: algebra_simps)
    show ?thesis using lo hi False by (subst (1 2 3 4) isqrt.simps) (simp add: Let_def)
  qed (simp add: isqrt.simps)
qed

definition f32_sqrt :: "f32 \<Rightarrow> f32" where
  "f32_sqrt a = (case a of
      F32_NaN \<Rightarrow> F32_NaN
    | F32_Inf s \<Rightarrow> if s then F32_NaN else F32_Inf s
    | F32 x \<Rightarrow>
        if x < 0 then F32_NaN else if x = 0 then F32 0
        else (let k = 26 - ilog2 x div 2;
                  y = x * 2 powi (2 * k);
                  n = isqrt (nat \<lfloor>y\<rfloor>)
              in f32_round ((if of_nat (n * n) = y then of_nat n else of_nat n + 1 / 2) / 2 powi k)))"

record trig =
  tg_sin :: "f32 \<Rightarrow> f32"
  tg_cos :: "f32 \<Rightarrow> f32"
  tg_atan2 :: "f32 \<Rightarrow> f32 \<Rightarrow> f32"

definition TAU :: f32 where "TAU = lit (628318530717958647692 / 10 ^ 20)"

section \<open>The canvas\<close>

record canvas =
  cv_width :: u32
  cv_height :: u32
  cv_pixels :: "rgb list"

definition filled :: "u32 \<Rightarrow> u32 \<Rightarrow> rgb \<Rightarrow> canvas" where
  "filled width height background = \<lparr>cv_width = width, cv_height = height,
    cv_pixels = replicate (unat width * unat height) background\<rparr>"

text \<open>The coordinates are \<open>i32\<close>, and so are the bounds they are compared with.\<close>

definition blend :: "int \<Rightarrow> int \<Rightarrow> rgb \<Rightarrow> f32 \<Rightarrow> canvas \<Rightarrow> canvas" where
  "blend x y color coverage c =
    (if f32_le coverage (F32 0) \<or> x < 0 \<or> y < 0 \<or> sint (cv_width c) \<le> x \<or> sint (cv_height c) \<le> y then c
     else (let index = nat y * unat (cv_width c) + nat x
           in c\<lparr>cv_pixels := (cv_pixels c)[index := mixed (cv_pixels c ! index) color (f32_min coverage (F32 1))]\<rparr>))"

record shade =
  sh_foot :: rgb
  sh_head :: rgb
  sh_foot_at_end :: bool

definition shade_solid :: "rgb \<Rightarrow> shade" where
  "shade_solid c = \<lparr>sh_foot = c, sh_head = c, sh_foot_at_end = False\<rparr>"

definition along_the_sweep :: "shade \<Rightarrow> rgb \<times> rgb" where
  "along_the_sweep s = (if sh_foot_at_end s then (sh_head s, sh_foot s) else (sh_foot s, sh_head s))"

record arc =
  ar_center :: "f32 \<times> f32"
  ar_inner :: f32
  ar_outer :: f32
  ar_start_turns :: f32
  ar_sweep_turns :: f32
  ar_round_caps :: bool

definition wrap_turns :: "f32 \<Rightarrow> f32" where
  "wrap_turns turns = (let wrapped = f32_rem turns (F32 1) in
    if f32_less wrapped (F32 0) then f32_add wrapped (F32 1) else wrapped)"

definition turns_at :: "trig \<Rightarrow> f32 \<Rightarrow> f32 \<Rightarrow> f32" where
  "turns_at tg dx dy = wrap_turns (f32_div (tg_atan2 tg dx (f32_neg dy)) TAU)"

definition polar :: "trig \<Rightarrow> f32 \<times> f32 \<Rightarrow> f32 \<Rightarrow> f32 \<Rightarrow> f32 \<times> f32" where
  "polar tg center radius turns = (let angle = f32_mul turns TAU in
    (f32_add (fst center) (f32_mul radius (tg_sin tg angle)),
     f32_sub (snd center) (f32_mul radius (tg_cos tg angle))))"

text \<open>The box of pixels around a center, row by row.\<close>

definition over_box :: "f32 \<times> f32 \<Rightarrow> int \<Rightarrow> (int \<Rightarrow> int \<Rightarrow> canvas \<Rightarrow> canvas) \<Rightarrow> canvas \<Rightarrow> canvas" where
  "over_box center reach f c =
    (let cx = f32_as_i32 (fst center); cy = f32_as_i32 (snd center)
     in fold (\<lambda>row. fold (\<lambda>column. f row column) [cx - reach .. cx + reach]) [cy - reach .. cy + reach] c)"

text \<open>The middle of a pixel from a coordinate: \<open>column as f32 + 0.5 - center\<close>.\<close>

definition offset_from :: "int \<Rightarrow> f32 \<Rightarrow> f32" where
  "offset_from i center = f32_sub (f32_add (f32_of_int i) (F32 (1 / 2))) center"

definition disc_pixel :: "f32 \<times> f32 \<Rightarrow> f32 \<Rightarrow> rgb \<Rightarrow> int \<Rightarrow> int \<Rightarrow> canvas \<Rightarrow> canvas" where
  "disc_pixel center edge color row column c =
    (let dx = offset_from column (fst center); dy = offset_from row (snd center);
         squared = f32_add (f32_mul dx dx) (f32_mul dy dy)
     in if f32_less (f32_mul edge edge) squared then c
        else blend column row color (f32_clamp (f32_sub edge (f32_sqrt squared)) (F32 0) (F32 1)) c)"

definition fill_disc :: "f32 \<times> f32 \<Rightarrow> f32 \<Rightarrow> rgb \<Rightarrow> canvas \<Rightarrow> canvas" where
  "fill_disc center radius color c =
    (if f32_le radius (F32 0) then c
     else over_box center (f32_as_i32 (f32_ceil radius) + 1)
       (disc_pixel center (f32_add radius (F32 (1 / 2))) color) c)"

section \<open>Arcs\<close>

definition angular_coverage :: "f32 \<Rightarrow> f32 \<Rightarrow> f32 \<Rightarrow> f32 \<Rightarrow> f32" where
  "angular_coverage radial distance offset sweep =
    (let softness = (if f32_less (F32 (1 / 2)) distance then f32_div (F32 (1 / 2)) (f32_mul TAU distance)
           else F32 (1 / 2));
         from_start = f32_clamp (f32_add (f32_div offset softness) (F32 (1 / 2))) (F32 0) (F32 1);
         to_end = f32_clamp (f32_add (f32_div (f32_sub sweep offset) softness) (F32 (1 / 2))) (F32 0) (F32 1)
     in f32_mul radial (f32_min from_start to_end))"

definition shade_color :: "shade \<Rightarrow> f32 \<Rightarrow> f32 \<Rightarrow> rgb" where
  "shade_color s sweep offset =
    (let (at_start, at_end) = along_the_sweep s in
     if f32_le sweep (F32 0) then sh_foot s
     else if at_start = at_end then at_start
     else mixed at_start at_end (f32_clamp (f32_div offset sweep) (F32 0) (F32 1)))"

definition arc_pixel :: "trig \<Rightarrow> arc \<Rightarrow> shade \<Rightarrow> f32 \<Rightarrow> int \<Rightarrow> int \<Rightarrow> canvas \<Rightarrow> canvas" where
  "arc_pixel tg a s sweep row column c =
    (let dx = offset_from column (fst (ar_center a)); dy = offset_from row (snd (ar_center a));
         squared = f32_add (f32_mul dx dx) (f32_mul dy dy);
         outer_reach = f32_add (ar_outer a) (F32 1);
         inner_reach = f32_max (f32_sub (ar_inner a) (F32 1)) (F32 0)
     in if f32_less (f32_mul outer_reach outer_reach) squared \<or>
           f32_less squared (f32_mul inner_reach inner_reach) then c
        else (let distance = f32_sqrt squared;
                  radial = f32_mul
                    (f32_clamp (f32_sub (f32_add (ar_outer a) (F32 (1 / 2))) distance) (F32 0) (F32 1))
                    (f32_clamp (f32_add (f32_sub distance (ar_inner a)) (F32 (1 / 2))) (F32 0) (F32 1))
              in if f32_le radial (F32 0) then c
                 else (let offset = wrap_turns (f32_sub (turns_at tg dx dy) (ar_start_turns a));
                           coverage = (if f32_le (F32 1) sweep then radial
                             else angular_coverage radial distance offset sweep)
                       in blend column row (shade_color s sweep offset) coverage c)))"

definition fill_caps :: "trig \<Rightarrow> arc \<Rightarrow> shade \<Rightarrow> f32 \<Rightarrow> canvas \<Rightarrow> canvas" where
  "fill_caps tg a s sweep c =
    (let middle = f32_div (f32_add (ar_inner a) (ar_outer a)) (F32 2);
         cap = f32_div (f32_sub (ar_outer a) (ar_inner a)) (F32 2);
         (foot_turn, head_turn) =
           (if sh_foot_at_end s then (f32_add (ar_start_turns a) sweep, ar_start_turns a)
            else (ar_start_turns a, f32_add (ar_start_turns a) sweep))
     in fill_disc (polar tg (ar_center a) middle foot_turn) cap (sh_foot s)
          (fill_disc (polar tg (ar_center a) middle head_turn) cap (sh_head s) c))"

definition fill_arc_gradient :: "trig \<Rightarrow> arc \<Rightarrow> shade \<Rightarrow> canvas \<Rightarrow> canvas" where
  "fill_arc_gradient tg a s c =
    (if f32_less (ar_sweep_turns a) (F32 0) \<or> f32_le (ar_outer a) (ar_inner a) then c
     else (let sweep = f32_min (ar_sweep_turns a) (F32 1) in
       if f32_le sweep (F32 0) \<and> \<not> ar_round_caps a then c
       else (let c = over_box (ar_center a) (f32_as_i32 (f32_ceil (ar_outer a)) + 1) (arc_pixel tg a s sweep) c
             in if ar_round_caps a \<and> f32_less sweep (F32 1) then fill_caps tg a s sweep c else c)))"

definition fill_arc :: "trig \<Rightarrow> arc \<Rightarrow> rgb \<Rightarrow> canvas \<Rightarrow> canvas" where
  "fill_arc tg a color c = fill_arc_gradient tg a (shade_solid color) c"

section \<open>Nothing drawn changes the size\<close>

definition canvas_ok :: "canvas \<Rightarrow> bool" where
  "canvas_ok c = (length (cv_pixels c) = unat (cv_width c) * unat (cv_height c))"

text \<open>\<open>same_shape\<close>: what every drawing operation keeps.\<close>

definition same_shape :: "canvas \<Rightarrow> canvas \<Rightarrow> bool" where
  "same_shape c d = (cv_width d = cv_width c \<and> cv_height d = cv_height c \<and>
    length (cv_pixels d) = length (cv_pixels c))"

lemma same_shape_refl [simp, intro]: "same_shape c c"
  by (simp add: same_shape_def)

lemma same_shape_trans: "\<lbrakk>same_shape c d; same_shape d e\<rbrakk> \<Longrightarrow> same_shape c e"
  by (simp add: same_shape_def)

lemma same_shape_ok: "\<lbrakk>same_shape c d; canvas_ok c\<rbrakk> \<Longrightarrow> canvas_ok d"
  by (simp add: same_shape_def canvas_ok_def)

lemma filled_shape [simp]:
  "cv_width (filled w h b) = w" "cv_height (filled w h b) = h" "canvas_ok (filled w h b)"
  by (simp_all add: filled_def canvas_ok_def)

named_theorems shape_rules \<open>operations that keep the size of a canvas\<close>

lemma shape_blend [shape_rules]: "same_shape c (blend x y color coverage c)"
  by (simp add: blend_def same_shape_def Let_def)

lemma shape_fold: "(\<And>x c. x \<in> set xs \<Longrightarrow> same_shape c (f x c)) \<Longrightarrow> same_shape c (fold f xs c)"
proof (induction xs arbitrary: c)
  case (Cons x xs)
  have "same_shape c (f x c)" "same_shape (f x c) (fold f xs (f x c))" using Cons by simp_all
  then show ?case using same_shape_trans by simp
qed simp

lemma shape_over_box: "(\<And>row column c. same_shape c (f row column c)) \<Longrightarrow> same_shape c (over_box p r f c)"
  unfolding over_box_def Let_def by (intro shape_fold)

lemma shape_fill_disc [shape_rules]: "same_shape c (fill_disc p r color c)"
  unfolding fill_disc_def
  by (auto intro!: shape_over_box simp: disc_pixel_def Let_def shape_blend)

lemma shape_fill_caps: "same_shape c (fill_caps tg a s sweep c)"
  unfolding fill_caps_def Let_def split_beta by (rule same_shape_trans [OF shape_fill_disc shape_fill_disc])

lemma shape_arc_gradient [shape_rules]: "same_shape c (fill_arc_gradient tg a s c)"
proof -
  have "same_shape c (over_box p r (arc_pixel tg a s sweep) c)" for p r sweep
    by (intro shape_over_box) (simp add: arc_pixel_def Let_def shape_blend)
  moreover from this have "same_shape c (fill_caps tg a s sweep (over_box p r (arc_pixel tg a s sweep) c))"
    for p r sweep by (rule same_shape_trans [OF _ shape_fill_caps])
  ultimately show ?thesis unfolding fill_arc_gradient_def Let_def by simp
qed

lemma shape_arc [shape_rules]: "same_shape c (fill_arc tg a color c)"
  by (simp add: fill_arc_def shape_arc_gradient)

end
