(* ===== verification/Panel_Text.thy ===== *)
theory Panel_Text
  imports Canvas
begin

text \<open>
  \<open>crates/lcd-renderer/src/text.rs\<close>: strings set in the embedded face. The face is read by \<open>ab_glyph\<close>
  and is a parameter, \<open>panel_face\<close>: the glyph of a character, its advance and kerning at a scale, and
  its outline with the coverage of its pixels; \<open>None\<close> stands for bytes that are no font.
\<close>

record outline =
  ol_min :: "f32 \<times> f32"
  ol_coverage :: "(u32 \<times> u32 \<times> f32) list"

record panel_face =
  fa_glyph :: "string \<Rightarrow> nat"
  fa_kern :: "f32 \<Rightarrow> nat \<Rightarrow> nat \<Rightarrow> f32"
  fa_h_advance :: "f32 \<Rightarrow> nat \<Rightarrow> f32"
  fa_outline :: "f32 \<Rightarrow> f32 \<times> f32 \<Rightarrow> nat \<Rightarrow> outline option"

text \<open>The height of a capital per unit of scale, measured on one outline.\<close>

definition cap_ratio :: "panel_face option \<Rightarrow> f32" where
  "cap_ratio face = (case face of
      None \<Rightarrow> F32 1
    | Some fa \<Rightarrow> (case fa_outline fa (F32 1000) (F32 0, F32 0) (fa_glyph fa ''H'') of
        Some o1 \<Rightarrow> f32_div (f32_neg (snd (ol_min o1))) (F32 1000)
      | None \<Rightarrow> F32 1))"

definition scale_for :: "panel_face option \<Rightarrow> f32 \<Rightarrow> f32" where
  "scale_for face cap_height = f32_div cap_height (cap_ratio face)"

text \<open>The pen before a glyph, moved by the kerning with the glyph before it.\<close>

definition kerned :: "panel_face \<Rightarrow> f32 \<Rightarrow> nat option \<Rightarrow> nat \<Rightarrow> f32 \<Rightarrow> f32" where
  "kerned fa scale previous i pen = (case previous of
      None \<Rightarrow> pen | Some p \<Rightarrow> f32_add pen (fa_kern fa scale p i))"

fun advance_over :: "panel_face \<Rightarrow> f32 \<Rightarrow> nat option \<Rightarrow> f32 \<Rightarrow> string list \<Rightarrow> f32" where
  "advance_over fa scale previous sofar [] = sofar"
| "advance_over fa scale previous sofar (ch # cs) =
    (let i = fa_glyph fa ch;
         sofar = f32_add (kerned fa scale previous i sofar) (fa_h_advance fa scale i)
     in advance_over fa scale (Some i) sofar cs)"

definition text_width :: "panel_face option \<Rightarrow> string \<Rightarrow> f32 \<Rightarrow> f32" where
  "text_width face s cap_height = (case face of
      None \<Rightarrow> F32 0
    | Some fa \<Rightarrow> advance_over fa (scale_for face cap_height) None (F32 0) (chars s))"

definition draw_outline :: "outline \<Rightarrow> rgb \<Rightarrow> canvas \<Rightarrow> canvas" where
  "draw_outline o1 color c =
    (let ink_left = f32_as_i32 (fst (ol_min o1)); ink_top = f32_as_i32 (snd (ol_min o1))
     in fold (\<lambda>(dx, dy, coverage). blend (ink_left + sint dx) (ink_top + sint dy) color coverage)
          (ol_coverage o1) c)"

fun draw_chars :: "panel_face \<Rightarrow> f32 \<Rightarrow> f32 \<Rightarrow> rgb \<Rightarrow> nat option \<Rightarrow> f32 \<Rightarrow> string list \<Rightarrow> canvas \<Rightarrow> canvas" where
  "draw_chars fa scale baseline color previous pen [] c = c"
| "draw_chars fa scale baseline color previous pen (ch # cs) c =
    (let i = fa_glyph fa ch;
         pen = kerned fa scale previous i pen;
         c = (case fa_outline fa scale (pen, baseline) i of
             Some o1 \<Rightarrow> draw_outline o1 color c | None \<Rightarrow> c)
     in draw_chars fa scale baseline color (Some i) (f32_add pen (fa_h_advance fa scale i)) cs c)"

definition text_draw :: "panel_face option \<Rightarrow> string \<Rightarrow> f32 \<Rightarrow> f32 \<Rightarrow> f32 \<Rightarrow> rgb \<Rightarrow> canvas \<Rightarrow> canvas" where
  "text_draw face s x top_edge cap_height color c = (case face of
      None \<Rightarrow> c
    | Some fa \<Rightarrow> draw_chars fa (scale_for face cap_height) (f32_add top_edge cap_height) color None x (chars s) c)"

definition draw_centered :: "panel_face option \<Rightarrow> string \<Rightarrow> f32 \<Rightarrow> f32 \<Rightarrow> f32 \<Rightarrow> rgb \<Rightarrow> canvas \<Rightarrow> canvas" where
  "draw_centered face s center_x top_edge cap_height color c =
    text_draw face s (f32_sub center_x (f32_div (text_width face s cap_height) (F32 2))) top_edge cap_height color c"

section \<open>Facts\<close>

lemma shape_outline [shape_rules]: "same_shape c (draw_outline o1 color c)"
  unfolding draw_outline_def Let_def by (rule shape_fold) (simp add: split_beta shape_blend)

lemma shape_chars: "same_shape c (draw_chars fa scale baseline color previous pen cs c)"
proof (induction cs arbitrary: previous pen c)
  case (Cons ch cs)
  let ?o = "fa_outline fa scale (kerned fa scale previous (fa_glyph fa ch) pen, baseline) (fa_glyph fa ch)"
  have "same_shape c (case ?o of Some o1 \<Rightarrow> draw_outline o1 color c | None \<Rightarrow> c)"
    by (simp add: shape_outline split: option.split)
  then show ?case unfolding draw_chars.simps Let_def by (rule same_shape_trans [OF _ Cons.IH])
qed simp

lemma shape_text [shape_rules]: "same_shape c (text_draw face s x t h color c)"
  by (simp add: text_draw_def shape_chars split: option.split)

lemma shape_centered [shape_rules]: "same_shape c (draw_centered face s x t h color c)"
  by (simp add: draw_centered_def shape_text)

end
