(* ===== verification/Dial.thy ===== *)
theory Dial
  imports Panel_Text
begin

text \<open>
  \<open>crates/lcd-renderer/src/dial.rs\<close>: the two layouts that draw readings. Everything is placed in the
  largest square the panel contains, by the fractions of the module \<open>layout\<close>.
\<close>

section \<open>Layout\<close>

definition TRACK_OUTER :: f32 where "TRACK_OUTER = lit (965 / 1000)"
definition TRACK_INNER :: f32 where "TRACK_INNER = lit (845 / 1000)"
definition TRACK_UNAVAILABLE_INNER :: f32 where "TRACK_UNAVAILABLE_INNER = lit (905 / 1000)"
definition SIDE_START_TURN :: f32 where "SIDE_START_TURN = lit (610 / 1000)"
definition SIDE_SWEEP_TURNS :: f32 where "SIDE_SWEEP_TURNS = lit (280 / 1000)"
definition SINGLE_START_TURN :: f32 where "SINGLE_START_TURN = F32 0"
definition SINGLE_SWEEP_TURNS :: f32 where "SINGLE_SWEEP_TURNS = F32 1"
definition PAIR_OFFSET :: f32 where "PAIR_OFFSET = lit (205 / 1000)"
definition VALUE_TOP :: f32 where "VALUE_TOP = lit (383 / 1000)"
definition VALUE_HEIGHT :: f32 where "VALUE_HEIGHT = lit (128 / 1000)"
definition CAPTION_TOP :: f32 where "CAPTION_TOP = lit (550 / 1000)"
definition SINGLE_VALUE_TOP :: f32 where "SINGLE_VALUE_TOP = lit (320 / 1000)"
definition SINGLE_VALUE_HEIGHT :: f32 where "SINGLE_VALUE_HEIGHT = lit (235 / 1000)"
definition SINGLE_VALUE_WIDTH :: f32 where "SINGLE_VALUE_WIDTH = lit (750 / 1000)"
definition SINGLE_CAPTION_TOP :: f32 where "SINGLE_CAPTION_TOP = lit (615 / 1000)"
definition SINGLE_CAPTION_HEIGHT :: f32 where "SINGLE_CAPTION_HEIGHT = lit (72 / 1000)"
definition UNIT_SCALE :: f32 where "UNIT_SCALE = lit (450 / 1000)"
definition UNIT_GAP :: f32 where "UNIT_GAP = lit (60 / 1000)"
definition CAPTION_HEIGHT :: f32 where "CAPTION_HEIGHT = lit (67 / 1000)"
definition TRACK_REST :: f32 where "TRACK_REST = lit (130 / 1000)"
definition F32_EPSILON :: f32 where "F32_EPSILON = F32 (1 / 2 ^ 23)"

record dial_frame =
  df_origin :: "f32 \<times> f32"
  df_side :: f32

definition frame_of :: "f32 \<Rightarrow> f32 \<Rightarrow> dial_frame" where
  "frame_of width height = (let side = f32_min width height in
    \<lparr>df_origin = (f32_div (f32_sub width side) (F32 2), f32_div (f32_sub height side) (F32 2)), df_side = side\<rparr>)"

definition frame_length :: "dial_frame \<Rightarrow> f32 \<Rightarrow> f32" where
  "frame_length f fraction = f32_mul (df_side f) fraction"

definition frame_top :: "dial_frame \<Rightarrow> f32 \<Rightarrow> f32" where
  "frame_top f fraction = f32_add (snd (df_origin f)) (frame_length f fraction)"

definition frame_column :: "dial_frame \<Rightarrow> f32 \<Rightarrow> f32" where
  "frame_column f fraction = f32_add (fst (df_origin f)) (frame_length f (f32_add (F32 (1 / 2)) fraction))"

definition frame_center :: "dial_frame \<Rightarrow> f32 \<times> f32" where
  "frame_center f = (frame_column f (F32 0), frame_top f (F32 (1 / 2)))"

definition frame_radius :: "dial_frame \<Rightarrow> f32" where
  "frame_radius f = f32_div (df_side f) (F32 2)"

definition canvas_frame :: "canvas \<Rightarrow> dial_frame" where
  "canvas_frame c = frame_of (f32_of_int (uint (cv_width c))) (f32_of_int (uint (cv_height c)))"

section \<open>Bands\<close>

record band =
  bd_start :: f32
  bd_sweep :: f32
  bd_mirrored :: bool

definition band_whole :: band where
  "band_whole = \<lparr>bd_start = SINGLE_START_TURN, bd_sweep = SINGLE_SWEEP_TURNS, bd_mirrored = False\<rparr>"

definition band_side :: "bool \<Rightarrow> band" where
  "band_side mirrored =
    \<lparr>bd_start = (if mirrored then f32_sub (f32_sub (F32 1) SIDE_START_TURN) SIDE_SWEEP_TURNS else SIDE_START_TURN),
     bd_sweep = SIDE_SWEEP_TURNS, bd_mirrored = mirrored\<rparr>"

definition band_arc :: "canvas \<Rightarrow> f32 \<Rightarrow> f32 \<Rightarrow> f32 \<Rightarrow> arc" where
  "band_arc c inner start sweep = (let frame = canvas_frame c in
    \<lparr>ar_center = frame_center frame, ar_inner = f32_mul (frame_radius frame) inner,
     ar_outer = f32_mul (frame_radius frame) TRACK_OUTER, ar_start_turns = start, ar_sweep_turns = sweep,
     ar_round_caps = True\<rparr>)"

definition gauge :: "trig \<Rightarrow> display_preset \<Rightarrow> reading_slot \<Rightarrow> metric_sample \<Rightarrow> band \<Rightarrow> canvas \<Rightarrow> canvas" where
  "gauge tg p slot sample b c =
    (let head = (if gradates_band (dp_mode p) then band_end slot else rs_reading slot) in
     case sample_fraction sample of
       None \<Rightarrow> fill_arc tg (band_arc c TRACK_UNAVAILABLE_INNER (bd_start b) (bd_sweep b))
         (mixed (dp_background p) (rs_text slot) (lit (28 / 100))) c
     | Some fraction \<Rightarrow>
         (let c1 = fill_arc tg (band_arc c TRACK_INNER (bd_start b) (bd_sweep b))
                (mixed (dp_background p) (mixed (rs_reading slot) head (F32 (1 / 2))) TRACK_REST) c;
              filled = f32_mul (bd_sweep b) fraction;
              fill_start = (if bd_mirrored b then f32_sub (f32_add (bd_start b) (bd_sweep b)) filled
                else bd_start b)
          in fill_arc_gradient tg (band_arc c TRACK_INNER fill_start filled)
               \<lparr>sh_foot = rs_reading slot, sh_head = head, sh_foot_at_end = bd_mirrored b\<rparr> c1))"

section \<open>Readings and captions\<close>

definition draw_reading :: "panel_face option \<Rightarrow> metric_sample \<Rightarrow> rgb \<Rightarrow> f32 \<Rightarrow> f32 \<Rightarrow> f32 \<Rightarrow> canvas \<Rightarrow> canvas" where
  "draw_reading face sample color center_x top_edge cap_height c =
    (let v = sample_text sample;
         value_width = text_width face v cap_height;
         left = f32_sub center_x (f32_div value_width (F32 2))
     in text_draw face (metric_unit (ms_metric sample))
          (f32_add (f32_add left value_width) (f32_mul cap_height UNIT_GAP)) top_edge
          (f32_mul cap_height UNIT_SCALE) color
          (text_draw face v left top_edge cap_height color c))"

definition draw_caption :: "panel_face option \<Rightarrow> metric_sample \<Rightarrow> reading_slot \<Rightarrow> f32 \<Rightarrow> f32 \<Rightarrow> f32 \<Rightarrow> canvas \<Rightarrow> canvas" where
  "draw_caption face sample slot center_x top_edge cap_height c =
    draw_centered face (metric_caption (ms_metric sample)) center_x top_edge cap_height (rs_text slot) c"

definition reading_reach :: "panel_face option \<Rightarrow> lcd_metric \<Rightarrow> f32" where
  "reading_reach face m =
    (let widest = \<lparr>ms_metric = m, ms_value = Some (metric_full_scale m)\<rparr>
     in f32_add (f32_add (f32_div (text_width face (sample_text widest) (F32 1)) (F32 2)) UNIT_GAP)
          (text_width face (metric_unit m) UNIT_SCALE))"

definition single_value_height :: "panel_face option \<Rightarrow> lcd_metric \<Rightarrow> dial_frame \<Rightarrow> f32" where
  "single_value_height face m frame =
    (let half_room = f32_div (frame_length frame SINGLE_VALUE_WIDTH) (F32 2);
         reach = f32_max (reading_reach face m) F32_EPSILON
     in f32_min (frame_length frame SINGLE_VALUE_HEIGHT) (f32_div half_room reach))"

section \<open>The layouts\<close>

definition draw_column :: "trig \<Rightarrow> panel_face option \<Rightarrow> display_preset \<Rightarrow> bool \<Rightarrow> reading_slot \<Rightarrow> metric_sample \<Rightarrow>
    canvas \<Rightarrow> canvas" where
  "draw_column tg face p mirrored slot sample c =
    (let frame = canvas_frame c;
         column = frame_column frame (if mirrored then PAIR_OFFSET else f32_neg PAIR_OFFSET)
     in draw_caption face sample slot column (frame_top frame CAPTION_TOP) (frame_length frame CAPTION_HEIGHT)
          (draw_reading face sample (rs_text slot) column (frame_top frame VALUE_TOP)
             (frame_length frame VALUE_HEIGHT)
             (gauge tg p slot sample (band_side mirrored) c)))"

definition infographic :: "trig \<Rightarrow> panel_face option \<Rightarrow> display_preset \<Rightarrow> metric_sample \<times> metric_sample \<Rightarrow>
    canvas \<Rightarrow> canvas" where
  "infographic tg face p samples c =
    draw_column tg face p True (snd (dp_readings p)) (snd samples)
      (draw_column tg face p False (fst (dp_readings p)) (fst samples) c)"

definition single :: "trig \<Rightarrow> panel_face option \<Rightarrow> display_preset \<Rightarrow> metric_sample \<Rightarrow> canvas \<Rightarrow> canvas" where
  "single tg face p sample c =
    (let frame = canvas_frame c;
         center_x = frame_column frame (F32 0);
         slot = fst (dp_readings p)
     in draw_caption face sample slot center_x (frame_top frame SINGLE_CAPTION_TOP)
          (frame_length frame SINGLE_CAPTION_HEIGHT)
          (draw_reading face sample (rs_text slot) center_x (frame_top frame SINGLE_VALUE_TOP)
             (single_value_height face (ms_metric sample) frame)
             (gauge tg p slot sample band_whole c)))"

section \<open>Facts\<close>

lemma shape_gauge [shape_rules]: "same_shape c (gauge tg p slot sample b c)"
  unfolding gauge_def Let_def
  by (auto simp: shape_arc split: option.split intro: same_shape_trans [OF shape_arc shape_arc_gradient])

lemma shape_reading [shape_rules]: "same_shape c (draw_reading face sample color x t h c)"
  unfolding draw_reading_def Let_def by (rule same_shape_trans [OF shape_text shape_text])

lemma shape_caption [shape_rules]: "same_shape c (draw_caption face sample slot x t h c)"
  by (simp add: draw_caption_def shape_centered)

lemma shape_column: "same_shape c (draw_column tg face p mirrored slot sample c)"
  unfolding draw_column_def Let_def
  by (rule same_shape_trans [OF same_shape_trans [OF shape_gauge shape_reading] shape_caption])

lemma shape_infographic [shape_rules]: "same_shape c (infographic tg face p samples c)"
  unfolding infographic_def by (rule same_shape_trans [OF shape_column shape_column])

lemma shape_single [shape_rules]: "same_shape c (single tg face p sample c)"
  unfolding single_def Let_def
  by (rule same_shape_trans [OF same_shape_trans [OF shape_gauge shape_reading] shape_caption])

end
