(* ===== verification/Framebuffer.thy ===== *)
theory Framebuffer
  imports Canvas "HOL-Library.Multiset"
begin

text \<open>
  \<open>crates/lcd-renderer/src/frame.rs\<close>: the finished picture, the one quarter turn it is given, and the
  two byte forms it leaves in. A turn is a permutation of the pixels, two turns compose, and the
  colors the preview shows are the ones the panel's two bytes hold. The PNG encoder is not modelled;
  \<open>quantized\<close> is what it is given.
\<close>

section \<open>The picture\<close>

record framebuffer =
  fb_width :: u32
  fb_height :: u32
  fb_pixels :: "rgb list"

text \<open>The pixel of the canvas that a pixel of the turned picture shows.\<close>

definition turned_source :: "u8 \<Rightarrow> nat \<Rightarrow> nat \<Rightarrow> nat \<Rightarrow> nat \<Rightarrow> nat \<times> nat" where
  "turned_source quarter width height x y =
    (if quarter = 1 then (y, height - 1 - x)
     else if quarter = 2 then (width - 1 - x, height - 1 - y)
     else (width - 1 - y, x))"

definition from_canvas :: "canvas \<Rightarrow> orientation \<Rightarrow> framebuffer" where
  "from_canvas c orientation =
    (let width = unat (cv_width c); height = unat (cv_height c); quarter = quarter_turns orientation
     in if quarter = 0 then \<lparr>fb_width = cv_width c, fb_height = cv_height c, fb_pixels = cv_pixels c\<rparr>
        else (let (turned_width, turned_height) = (if quarter mod 2 = 1 then (height, width) else (width, height))
              in \<lparr>fb_width = of_nat turned_width, fb_height = of_nat turned_height,
                  fb_pixels = concat (map (\<lambda>y. map (\<lambda>x.
                      (let (source_x, source_y) = turned_source quarter width height x y
                       in cv_pixels c ! (source_y * width + source_x))) [0..<turned_width]) [0..<turned_height])\<rparr>))"

definition pack565 :: "rgb \<Rightarrow> u16" where
  "pack565 p = or (or (push_bit 11 (ucast (drop_bit 3 (rgb_r p)))) (push_bit 5 (ucast (drop_bit 2 (rgb_g p)))))
    (ucast (drop_bit 3 (rgb_b p)))"

definition to_rgb565_be :: "framebuffer \<Rightarrow> u8 list" where
  "to_rgb565_be f = concat (map (\<lambda>p. [ucast (drop_bit 8 (pack565 p)), ucast (pack565 p)]) (fb_pixels f))"

definition quantize :: "rgb \<Rightarrow> rgb" where
  "quantize p = Rgb (push_bit 3 (drop_bit 3 (rgb_r p))) (push_bit 2 (drop_bit 2 (rgb_g p)))
    (push_bit 3 (drop_bit 3 (rgb_b p)))"

definition quantized :: "framebuffer \<Rightarrow> rgb list" where
  "quantized f = map quantize (fb_pixels f)"

definition layout_size :: "lcd_panel \<Rightarrow> orientation \<Rightarrow> display_error + u32 \<times> u32" where
  "layout_size panel orientation =
    (if lp_width panel = 0 \<or> lp_height panel = 0 then Inl PanelUnknown
     else Inr (if quarter_turns orientation mod 2 = 1 then (ucast (lp_height panel), ucast (lp_width panel))
               else (ucast (lp_width panel), ucast (lp_height panel))))"

section \<open>The turn\<close>

lemma quarter_turns_simps [simp]:
  "quarter_turns Deg0 = 0" "quarter_turns Deg90 = 1" "quarter_turns Deg180 = 2" "quarter_turns Deg270 = 3"
  by (simp_all add: quarter_turns_def)

text \<open>A grid read row by row.\<close>

definition grid :: "nat \<Rightarrow> nat \<Rightarrow> (nat \<Rightarrow> nat \<Rightarrow> 'a) \<Rightarrow> 'a list" where
  "grid w h f = concat (map (\<lambda>y. map (\<lambda>x. f x y) [0..<w]) [0..<h])"

lemma length_grid [simp]: "length (grid w h f) = w * h"
  by (simp add: grid_def length_concat comp_def sum_list_triv)

lemma nth_grid:
  assumes "x < w" "y < h"
  shows "grid w h f ! (y * w + x) = f x y"
  using assms(2)
proof (induction h)
  case (Suc h)
  have g: "grid w (Suc h) f = grid w h f @ map (\<lambda>x. f x h) [0..<w]" by (simp add: grid_def)
  show ?case
  proof (cases "y = h")
    case True
    then show ?thesis using assms(1) by (simp add: g nth_append)
  next
    case False
    then have "y * w + x < w * h"
      using Suc.prems assms(1) by (metis add.commute less_Suc_eq mult.commute mult_Suc nat_add_left_cancel_less
        not_less not_less_eq_eq order_less_le_trans mult_le_mono2 le_eq_less_or_eq Suc_leI)
    then show ?thesis using Suc.IH Suc.prems False by (simp add: g nth_append)
  qed
qed simp

lemma grid_nth: "length xs = w * h \<Longrightarrow> grid w h (\<lambda>x y. xs ! (y * w + x)) = xs"
proof (induction h arbitrary: xs)
  case (Suc h)
  let ?a = "take (w * h) xs"
  have "grid w h (\<lambda>x y. xs ! (y * w + x)) = grid w h (\<lambda>x y. ?a ! (y * w + x))"
  proof -
    have "y * w + x < w * h" if "x < w" "y < h" for x y
    proof -
      have "y * w + x < Suc y * w" using that(1) by simp
      also have "\<dots> \<le> h * w" using that(2) by (intro mult_le_mono1) simp
      finally show ?thesis by (simp add: mult.commute)
    qed
    then show ?thesis by (auto simp: grid_def intro!: arg_cong [of _ _ concat] map_cong)
  qed
  also have "\<dots> = ?a" using Suc by simp
  finally have a: "grid w h (\<lambda>x y. xs ! (y * w + x)) = ?a" .
  have b: "map (\<lambda>x. xs ! (h * w + x)) [0..<w] = drop (w * h) xs"
    using Suc.prems by (intro nth_equalityI) (simp_all add: mult.commute)
  have "grid w (Suc h) (\<lambda>x y. xs ! (y * w + x)) =
      grid w h (\<lambda>x y. xs ! (y * w + x)) @ map (\<lambda>x. xs ! (h * w + x)) [0..<w]"
    by (simp add: grid_def)
  then show ?case unfolding a b by simp
qed (simp add: grid_def)

lemma grid_cong: "(\<And>x y. \<lbrakk>x < w; y < h\<rbrakk> \<Longrightarrow> f x y = g x y) \<Longrightarrow> grid w h f = grid w h g"
  unfolding grid_def by (intro arg_cong [of _ _ concat] map_cong) auto

lemma mset_grid: "mset (grid w h f) = image_mset (\<lambda>(x, y). f x y) (mset_set ({..<w} \<times> {..<h}))"
proof (induction h)
  case (Suc h)
  have s: "{..<w} \<times> {..<Suc h} = {..<w} \<times> {..<h} \<union> (\<lambda>x. (x, h)) ` {..<w}"
    by (auto simp: less_Suc_eq)
  have "mset_set ({..<w} \<times> {..<Suc h}) =
      mset_set ({..<w} \<times> {..<h}) + mset_set ((\<lambda>x. (x, h)) ` {..<w})"
    unfolding s by (rule mset_set_Union) auto
  also have "mset_set ((\<lambda>x. (x, h)) ` {..<w}) = image_mset (\<lambda>x. (x, h)) (mset_set {..<w})"
    by (rule image_mset_mset_set [symmetric]) (simp add: inj_on_def)
  finally have m: "mset_set ({..<w} \<times> {..<Suc h}) =
      mset_set ({..<w} \<times> {..<h}) + image_mset (\<lambda>x. (x, h)) (mset_set {..<w})" .
  have "mset (map (\<lambda>x. f x h) [0..<w]) = image_mset (\<lambda>x. f x h) (mset_set {..<w})"
    by (simp add: atLeast0LessThan)
  moreover have "grid w (Suc h) f = grid w h f @ map (\<lambda>x. f x h) [0..<w]" by (simp add: grid_def)
  ultimately show ?case by (simp add: Suc m multiset.map_comp comp_def)
qed (simp add: grid_def)

text \<open>The turned picture as a grid over the canvas.\<close>

definition pixel_at :: "canvas \<Rightarrow> nat \<times> nat \<Rightarrow> rgb" where
  "pixel_at c p = cv_pixels c ! (snd p * unat (cv_width c) + fst p)"

definition turned_size :: "orientation \<Rightarrow> nat \<times> nat \<Rightarrow> nat \<times> nat" where
  "turned_size q s = (if quarter_turns q mod 2 = 1 then (snd s, fst s) else s)"

definition source_of :: "orientation \<Rightarrow> nat \<times> nat \<Rightarrow> nat \<times> nat \<Rightarrow> nat \<times> nat" where
  "source_of q s p = (if q = Deg0 then p else turned_source (quarter_turns q) (fst s) (snd s) (fst p) (snd p))"

definition canvas_size :: "canvas \<Rightarrow> nat \<times> nat" where
  "canvas_size c = (unat (cv_width c), unat (cv_height c))"

lemma from_canvas_grid:
  assumes "canvas_ok c"
  shows "from_canvas c q = (let (w, h) = turned_size q (canvas_size c) in
    \<lparr>fb_width = of_nat w, fb_height = of_nat h,
     fb_pixels = grid w h (\<lambda>x y. pixel_at c (source_of q (canvas_size c) (x, y)))\<rparr>)"
  using grid_nth [of "cv_pixels c" "unat (cv_width c)" "unat (cv_height c)"] assms
  by (cases q) (simp_all add: from_canvas_def turned_size_def source_of_def pixel_at_def canvas_size_def
      canvas_ok_def grid_def Let_def split_beta)

lemma source_in_range:
  assumes "fst p < fst (turned_size q s)" "snd p < snd (turned_size q s)"
  shows "fst (source_of q s p) < fst s \<and> snd (source_of q s p) < snd s"
  using assms by (cases q) (auto simp: turned_size_def source_of_def turned_source_def)

lemma source_bij:
  "bij_betw (source_of q (w, h)) ({..<fst (turned_size q (w, h))} \<times> {..<snd (turned_size q (w, h))})
    ({..<w} \<times> {..<h})"
proof -
  let ?undo = "\<lambda>p. case q of Deg0 \<Rightarrow> p | Deg90 \<Rightarrow> (h - 1 - snd p, fst p) | Deg180 \<Rightarrow> (w - 1 - fst p, h - 1 - snd p)
    | Deg270 \<Rightarrow> (snd p, w - 1 - fst p)"
  show ?thesis
    by (rule bij_betw_byWitness [where f' = ?undo]; cases q)
      (auto simp: turned_size_def source_of_def turned_source_def)
qed

definition as_canvas :: "framebuffer \<Rightarrow> canvas" where
  "as_canvas f = \<lparr>cv_width = fb_width f, cv_height = fb_height f, cv_pixels = fb_pixels f\<rparr>"

lemma turned_ok:
  assumes "canvas_ok c"
  shows "canvas_ok (as_canvas (from_canvas c q))"
  by (cases q) (simp_all add: from_canvas_grid [OF assms] as_canvas_def canvas_ok_def turned_size_def canvas_size_def)

lemma turned_pixels:
  assumes "canvas_ok c"
  shows "fb_pixels (from_canvas c q) = grid (fst (turned_size q (canvas_size c))) (snd (turned_size q (canvas_size c)))
    (\<lambda>x y. pixel_at c (source_of q (canvas_size c) (x, y)))"
  by (simp add: from_canvas_grid [OF assms] split_beta Let_def)

lemma turned_mset:
  assumes "canvas_ok c"
  shows "mset (fb_pixels (from_canvas c q)) = mset (cv_pixels c)"
proof -
  let ?w = "unat (cv_width c)" and ?h = "unat (cv_height c)"
  let ?S = "{..<fst (turned_size q (?w, ?h))} \<times> {..<snd (turned_size q (?w, ?h))}"
  have "mset (fb_pixels (from_canvas c q)) = image_mset (pixel_at c) (image_mset (source_of q (?w, ?h)) (mset_set ?S))"
    by (simp add: turned_pixels [OF assms] canvas_size_def mset_grid multiset.map_comp comp_def case_prod_unfold)
  also have "image_mset (source_of q (?w, ?h)) (mset_set ?S) = mset_set ({..<?w} \<times> {..<?h})"
    using source_bij [of q ?w ?h] by (simp add: bij_betw_def image_mset_mset_set)
  also have "image_mset (pixel_at c) (mset_set ({..<?w} \<times> {..<?h})) =
      mset (grid ?w ?h (\<lambda>x y. cv_pixels c ! (y * ?w + x)))"
    by (simp add: mset_grid pixel_at_def [abs_def] case_prod_unfold)
  also have "grid ?w ?h (\<lambda>x y. cv_pixels c ! (y * ?w + x)) = cv_pixels c"
    using assms by (intro grid_nth) (simp add: canvas_ok_def)
  finally show ?thesis .
qed

lemma turned_canvas_size: "canvas_ok c \<Longrightarrow> canvas_size (as_canvas (from_canvas c q)) = turned_size q (canvas_size c)"
  by (cases q) (simp_all add: as_canvas_def from_canvas_grid turned_size_def canvas_size_def)

lemma pixel_at_turned:
  assumes "canvas_ok c" "fst p < fst (turned_size q (canvas_size c))" "snd p < snd (turned_size q (canvas_size c))"
  shows "pixel_at (as_canvas (from_canvas c q)) p = pixel_at c (source_of q (canvas_size c) p)"
proof -
  let ?d = "as_canvas (from_canvas c q)"
  have "unat (cv_width ?d) = fst (turned_size q (canvas_size c))"
    using arg_cong [OF turned_canvas_size [OF assms(1), of q], of fst] by (simp add: canvas_size_def [of ?d])
  then show ?thesis
    using nth_grid [OF assms(2,3), of "\<lambda>x y. pixel_at c (source_of q (canvas_size c) (x, y))"]
    unfolding pixel_at_def [of ?d] by (simp add: as_canvas_def turned_pixels [OF assms(1)])
qed

lemma source_of_rotated:
  assumes "x < fst (turned_size (rotated q) s)" "y < snd (turned_size (rotated q) s)"
  shows "source_of q s (source_of Deg90 (turned_size q s) (x, y)) = source_of (rotated q) s (x, y)"
  using assms by (cases q) (simp_all add: turned_size_def source_of_def turned_source_def)

lemma turned_size_rotated: "turned_size Deg90 (turned_size q s) = turned_size (rotated q) s"
  by (cases q) (simp_all add: turned_size_def)

lemma turned_again:
  assumes "canvas_ok c"
  shows "from_canvas (as_canvas (from_canvas c q)) Deg90 = from_canvas c (rotated q)"
proof -
  let ?d = "as_canvas (from_canvas c q)" and ?s = "canvas_size c"
  have "pixel_at ?d (source_of Deg90 (turned_size q ?s) (x, y)) = pixel_at c (source_of (rotated q) ?s (x, y))"
    if "x < fst (turned_size (rotated q) ?s)" "y < snd (turned_size (rotated q) ?s)" for x y
    using that source_in_range [of "(x, y)" Deg90 "turned_size q ?s"] pixel_at_turned [OF assms] source_of_rotated [OF that]
    by (simp add: turned_size_rotated)
  then have "grid (fst (turned_size (rotated q) ?s)) (snd (turned_size (rotated q) ?s))
      (\<lambda>x y. pixel_at ?d (source_of Deg90 (turned_size q ?s) (x, y))) =
    grid (fst (turned_size (rotated q) ?s)) (snd (turned_size (rotated q) ?s))
      (\<lambda>x y. pixel_at c (source_of (rotated q) ?s (x, y)))"
    by (rule grid_cong)
  then show ?thesis
    unfolding from_canvas_grid [OF turned_ok [OF assms]] from_canvas_grid [OF assms, of "rotated q"]
      turned_canvas_size [OF assms] turned_size_rotated
    by (simp add: split_beta Let_def)
qed

text \<open>C35: A quarter turn only moves pixels. Whatever the orientation, the turned picture holds exactly
  the pixels of the canvas, in the size it is laid out for, and turning it once more is the next
  orientation; so four turns give back the picture, on any panel, square or not.\<close>

theorem turns_compose:
  assumes "canvas_ok c"
  shows "mset (fb_pixels (from_canvas c q)) = mset (cv_pixels c) \<and>
    from_canvas (as_canvas (from_canvas c q)) Deg90 = from_canvas c (rotated q) \<and>
    (fb_width (from_canvas c q), fb_height (from_canvas c q)) =
      (if quarter_turns q mod 2 = 1 then (cv_height c, cv_width c) else (cv_width c, cv_height c))"
proof (intro conjI turned_mset [OF assms] turned_again [OF assms])
  show "(fb_width (from_canvas c q), fb_height (from_canvas c q)) =
      (if quarter_turns q mod 2 = 1 then (cv_height c, cv_width c) else (cv_width c, cv_height c))"
    by (cases q) (simp_all add: from_canvas_grid [OF assms] turned_size_def canvas_size_def)
qed

definition ramp :: canvas where
  "ramp = \<lparr>cv_width = 2, cv_height = 1, cv_pixels = [Rgb 1 2 3, Rgb 4 5 6]\<rparr>"

theorem turns_compose_witness:
  "mset (fb_pixels (from_canvas ramp Deg90)) = {#Rgb 1 2 3, Rgb 4 5 6#} \<and>
   from_canvas (as_canvas (from_canvas ramp Deg90)) Deg90 = from_canvas ramp Deg180 \<and>
   fb_height (from_canvas ramp Deg90) = 2"
  using turns_compose [of ramp Deg90] by (simp add: ramp_def canvas_ok_def)

section \<open>What the panel shows\<close>

text \<open>The panel's reading of its bytes: two per pixel, most significant first, five bits of red, six of
  green, five of blue.\<close>

definition unpack565 :: "u8 \<Rightarrow> u8 \<Rightarrow> rgb" where
  "unpack565 hi lo = (let v = or (push_bit 8 (ucast hi)) (ucast lo) :: u16 in
    Rgb (push_bit 3 (ucast (drop_bit 11 v))) (push_bit 2 (ucast (and (drop_bit 5 v) 63)))
      (push_bit 3 (ucast (and v 31))))"

fun shown_by_panel :: "u8 list \<Rightarrow> rgb list" where
  "shown_by_panel (hi # lo # bs) = unpack565 hi lo # shown_by_panel bs"
| "shown_by_panel _ = []"

lemma word_bytes: "or (push_bit 8 (ucast (ucast (drop_bit 8 v) :: u8))) (ucast (ucast v :: u8)) = (v :: u16)"
  by (rule bit_word_eqI) (auto simp: bit_simps)

lemma unpack_pack: "unpack565 (ucast (drop_bit 8 (pack565 p))) (ucast (pack565 p)) = quantize p"
proof -
  have m: "(63 :: u16) = mask 6" "(31 :: u16) = mask 5" by (simp_all add: mask_eq_decr_exp)
  have r: "push_bit 3 (ucast (drop_bit 11 (pack565 p))) = push_bit 3 (drop_bit 3 (rgb_r p))"
    unfolding pack565_def by (rule bit_word_eqI) (auto simp: bit_simps dest: bit_imp_le_length)
  have g: "push_bit 2 (ucast (and (drop_bit 5 (pack565 p)) (mask 6))) = push_bit 2 (drop_bit 2 (rgb_g p))"
    unfolding pack565_def by (rule bit_word_eqI) (auto simp: bit_simps dest: bit_imp_le_length)
  have b: "push_bit 3 (ucast (and (pack565 p) (mask 5))) = push_bit 3 (drop_bit 3 (rgb_b p))"
    unfolding pack565_def by (rule bit_word_eqI) (auto simp: bit_simps dest: bit_imp_le_length)
  show ?thesis unfolding unpack565_def word_bytes Let_def m r g b quantize_def ..
qed

lemma length_rgb565: "length (to_rgb565_be f) = 2 * length (fb_pixels f)"
proof -
  have "length (concat (map (\<lambda>p. [ucast (drop_bit 8 (pack565 p)), ucast (pack565 p)]) ps) :: u8 list) = 2 * length ps"
    for ps by (induction ps) simp_all
  then show ?thesis by (simp add: to_rgb565_be_def)
qed

text \<open>C36: The preview does not lie. The bytes a picture leaves in are two per pixel, and read as the
  panel reads them they are, pixel by pixel, the very colors the preview encodes.\<close>

theorem preview_is_what_the_panel_shows:
  "length (to_rgb565_be f) = 2 * length (fb_pixels f) \<and> shown_by_panel (to_rgb565_be f) = quantized f"
proof -
  have "shown_by_panel (concat (map (\<lambda>p. [ucast (drop_bit 8 (pack565 p)), ucast (pack565 p)]) ps)) = map quantize ps"
    for ps by (induction ps) (simp_all add: unpack_pack)
  then show ?thesis by (simp add: length_rgb565) (simp add: to_rgb565_be_def quantized_def)
qed

end
