(* ===== verification/Renderer.thy ===== *)
theory Renderer
  imports Dial Framebuffer Display_Executor
begin

text \<open>
  \<open>crates/lcd-renderer/src/picture.rs\<close> and \<open>lib.rs\<close>: the file an operator picked turned into pixels,
  and the seam that renders a preset. The \<open>image\<close> crate is a parameter: \<open>image_file\<close> is what it
  answers about one file (its format, the size its header declares, the decoded picture, the frames of
  a GIF with their delays). The renderer of the model discharges the contract \<open>paced_frames\<close> of the
  display executor, so the executor on it always returns.
\<close>

section \<open>The decoder\<close>

record rgba_image =
  ri_width :: u32
  ri_height :: u32
  ri_pixels :: "(u8 \<times> u8 \<times> u8 \<times> u8) list"

record image_file =
  if_is_gif :: bool
  if_header :: "string + u32 \<times> u32"
  if_still :: "string + rgba_image"
  if_gif :: "string + unit"
  if_gif_limits :: "string + unit"
  if_gif_size :: "u32 \<times> u32"
  if_gif_frames :: "(string + rgba_image \<times> duration) list"

type_synonym image_env = "string \<Rightarrow> string + image_file"



section \<open>The picture\<close>

definition image_path :: "display_preset \<Rightarrow> display_error + string" where
  "image_path p = (case dp_image p of
      None \<Rightarrow> Inl ImagePathMissing
    | Some path \<Rightarrow> if uses_image (dp_mode p) then Inr path else Inl ImagePathMissing)"

definition open_image :: "image_env \<Rightarrow> string \<Rightarrow> display_error + image_file" where
  "open_image im path = map_err (ImageUndecodable path) (im path)"

definition refuse_unusable_size :: "u32 \<times> u32 \<Rightarrow> string \<Rightarrow> display_error + unit" where
  "refuse_unusable_size dims path =
    (let (width, height) = dims; pixels = ucast width * ucast height :: u64 in
     if MAX_IMAGE_DIMENSION < width \<or> MAX_IMAGE_DIMENSION < height
     then Inl (ImageTooLarge width height MAX_IMAGE_DIMENSION)
     else if MAX_IMAGE_PIXELS < pixels then Inl (ImageTooManyPixels pixels MAX_IMAGE_PIXELS)
     else if width = 0 \<or> height = 0 then Inl (ImageUndecodable path ''the image has no pixels'')
     else Inr ())"

definition decode_still :: "image_file \<Rightarrow> string \<Rightarrow> display_error + rgba_image" where
  "decode_still f path =
    and_then (map_err (ImageUndecodable path) (if_header f)) (\<lambda>dims.
    and_then (refuse_unusable_size dims path) (\<lambda>_.
    map_err (ImageUndecodable path) (if_still f)))"

definition still :: "image_env \<Rightarrow> display_preset \<Rightarrow> display_error + rgba_image" where
  "still im p = and_then (image_path p) (\<lambda>path. and_then (open_image im path) (\<lambda>f. decode_still f path))"

definition clamp_delay :: "duration \<Rightarrow> duration" where
  "clamp_delay delay =
    (if delay = 0 then from_millis (unat DEFAULT_FRAME_DELAY_MS)
     else max delay (from_millis (unat MIN_FRAME_DELAY_MS)))"

text \<open>The loop over the frames of a GIF; \<open>n\<close> are composed already.\<close>

fun compose_frames :: "(rgba_image \<Rightarrow> duration \<Rightarrow> 'a) \<Rightarrow> string \<Rightarrow> nat \<Rightarrow>
    (string + rgba_image \<times> duration) list \<Rightarrow> display_error + 'a list" where
  "compose_frames compose path n [] = Inr []"
| "compose_frames compose path n (f # fs) =
    (if n = MAX_ANIMATION_FRAMES then Inl (AnimationTooLong MAX_ANIMATION_FRAMES)
     else and_then (map_err (ImageUndecodable path) f) (\<lambda>(picture, delay).
       and_then (compose_frames compose path (Suc n) fs) (\<lambda>rest.
       Inr (compose picture (clamp_delay delay) # rest))))"

definition picture_frames :: "image_env \<Rightarrow> display_preset \<Rightarrow> (rgba_image \<Rightarrow> duration \<Rightarrow> 'a) \<Rightarrow>
    display_error + 'a list" where
  "picture_frames im p compose =
    and_then (image_path p) (\<lambda>path.
    and_then (open_image im path) (\<lambda>f.
      if \<not> if_is_gif f
      then and_then (decode_still f path) (\<lambda>picture.
        Inr [compose picture (from_millis (unat DEFAULT_FRAME_DELAY_MS))])
      else
        and_then (map_err (ImageUndecodable path) (if_gif f)) (\<lambda>_.
        and_then (map_err (ImageUndecodable path) (if_gif_limits f)) (\<lambda>_.
        and_then (refuse_unusable_size (if_gif_size f) path) (\<lambda>_.
        and_then (compose_frames compose path 0 (if_gif_frames f)) (\<lambda>composed.
          if composed = [] then Inl (ImageUndecodable path ''the file carries no frames'')
          else Inr composed))))))"

section \<open>Scaling to cover\<close>

record cover =
  co_scale :: f32
  co_offset_x :: f32
  co_offset_y :: f32
  co_width :: u32
  co_height :: u32

definition f32_of_u32 :: "u32 \<Rightarrow> f32" where
  "f32_of_u32 n = f32_of_int (uint n)"

definition cover_new :: "canvas \<Rightarrow> u32 \<Rightarrow> u32 \<Rightarrow> cover option" where
  "cover_new c width height =
    (if width = 0 \<or> height = 0 then None
     else (let scale = f32_max (f32_div (f32_of_u32 (cv_width c)) (f32_of_u32 width))
                (f32_div (f32_of_u32 (cv_height c)) (f32_of_u32 height))
           in Some \<lparr>co_scale = scale,
                co_offset_x = f32_div (f32_sub (f32_mul (f32_of_u32 width) scale) (f32_of_u32 (cv_width c))) (F32 2),
                co_offset_y = f32_div (f32_sub (f32_mul (f32_of_u32 height) scale) (f32_of_u32 (cv_height c))) (F32 2),
                co_width = width, co_height = height\<rparr>))"

definition f32_as_u32 :: "f32 \<Rightarrow> u32" where
  "f32_as_u32 a = word_of_int (f32_to_int 0 (2 ^ 32 - 1) a)"

definition cover_source :: "cover \<Rightarrow> u32 \<Rightarrow> u32 \<Rightarrow> u32 \<times> u32" where
  "cover_source k x y =
    (min (f32_as_u32 (f32_div (f32_add (f32_add (f32_of_u32 x) (F32 (1 / 2))) (co_offset_x k)) (co_scale k)))
       (co_width k - 1),
     min (f32_as_u32 (f32_div (f32_add (f32_add (f32_of_u32 y) (F32 (1 / 2))) (co_offset_y k)) (co_scale k)))
       (co_height k - 1))"

definition picture_pixel :: "rgba_image \<Rightarrow> u32 \<times> u32 \<Rightarrow> u8 \<times> u8 \<times> u8 \<times> u8" where
  "picture_pixel i s = ri_pixels i ! (unat (snd s) * unat (ri_width i) + unat (fst s))"

definition draw_picture :: "rgba_image \<Rightarrow> canvas \<Rightarrow> canvas" where
  "draw_picture i c = (case cover_new c (ri_width i) (ri_height i) of
      None \<Rightarrow> c
    | Some k \<Rightarrow> fold (\<lambda>y. fold (\<lambda>x c.
        (case picture_pixel i (cover_source k (of_nat x) (of_nat y)) of
          (r, g, b, a) \<Rightarrow> blend (int x) (int y) (Rgb r g b) (f32_div (f32_of_u8 a) (F32 255)) c))
        [0..<unat (cv_width c)]) [0..<unat (cv_height c)] c)"

section \<open>Rendering a preset\<close>

record renderer_env =
  re_trig :: trig
  re_face :: "panel_face option"

definition render :: "renderer_env \<Rightarrow> image_env \<Rightarrow> display_preset \<Rightarrow> metric_sample \<times> metric_sample \<Rightarrow>
    lcd_panel \<Rightarrow> display_error + framebuffer" where
  "render en im p samples panel =
    and_then (validate_preset p) (\<lambda>_.
    and_then (layout_size panel (dp_orientation p)) (\<lambda>(width, height).
      (let c = filled width height (dp_background p) in
       and_then
         (case dp_mode p of
            Solid \<Rightarrow> Inr c
          | ImageMode \<Rightarrow> and_then (still im p) (\<lambda>i. Inr (draw_picture i c))
          | DualInfographic \<Rightarrow> Inr (infographic (re_trig en) (re_face en) p samples c)
          | SingleReading \<Rightarrow> Inr (single (re_trig en) (re_face en) p (fst samples) c))
         (\<lambda>c. Inr (from_canvas c (dp_orientation p))))))"

definition render_image_frames :: "image_env \<Rightarrow> display_preset \<Rightarrow> lcd_panel \<Rightarrow>
    display_error + (framebuffer \<times> duration) list" where
  "render_image_frames im p panel =
    and_then (validate_preset p) (\<lambda>_.
    and_then (layout_size panel (dp_orientation p)) (\<lambda>(width, height).
      picture_frames im p (\<lambda>picture delay.
        (from_canvas (draw_picture picture (filled width height (dp_background p))) (dp_orientation p), delay))))"

text \<open>The renderer as the daemon calls it. \<open>render\<close> reaches the disk only in the image mode, and there
  the executor calls \<open>render_image_frames\<close>, so the files \<open>render\<close> is given do not matter to it.\<close>

definition kori_renderer :: "renderer_env \<Rightarrow> (io_event list \<Rightarrow> image_env) \<Rightarrow> panel_renderer" where
  "kori_renderer en im =
    \<lparr>pr_render = (\<lambda>p samples panel. and_then (render en (im []) p samples panel) (\<lambda>f. Inr (to_rgb565_be f))),
     pr_frames = (\<lambda>es p panel. and_then (render_image_frames (im es) p panel)
       (\<lambda>fs. Inr (map (\<lambda>(f, d). (to_rgb565_be f, d)) fs)))\<rparr>"

section \<open>Frames\<close>

lemma compose_frames_bounds:
  assumes "compose_frames compose path n fs = Inr ys" "n \<le> MAX_ANIMATION_FRAMES"
  shows "n + length ys \<le> MAX_ANIMATION_FRAMES \<and>
    list_all (\<lambda>y. \<exists>i d. y = compose i (clamp_delay d)) ys"
  using assms
proof (induction fs arbitrary: n ys)
  case (Cons f fs)
  then obtain i d rest where f: "f = Inr (i, d)" "compose_frames compose path (Suc n) fs = Inr rest"
    "ys = compose i (clamp_delay d) # rest" "n \<noteq> MAX_ANIMATION_FRAMES"
    by (cases f) (auto simp: and_then_Inr_iff split: if_splits)
  then show ?case using Cons.IH [OF f(2)] Cons.prems(2) by auto
qed simp

lemma picture_frames_bounds:
  assumes "picture_frames im p compose = Inr ys"
  shows "ys \<noteq> [] \<and> length ys \<le> MAX_ANIMATION_FRAMES \<and>
    list_all (\<lambda>y. \<exists>i d. y = compose i d \<and> from_millis 80 \<le> d) ys"
proof -
  have c: "from_millis 80 \<le> clamp_delay d" for d
    by (simp add: clamp_delay_def from_millis_def DEFAULT_FRAME_DELAY_MS_def MIN_FRAME_DELAY_MS_def)
  have m: "0 < MAX_ANIMATION_FRAMES" by (simp add: MAX_ANIMATION_FRAMES_def)
  have d: "from_millis 80 \<le> from_millis (unat DEFAULT_FRAME_DELAY_MS)"
    by (simp add: from_millis_def DEFAULT_FRAME_DELAY_MS_def)
  from assms obtain path f where p: "image_path p = Inr path" "open_image im path = Inr f"
    by (auto simp: picture_frames_def and_then_Inr_iff)
  have "(\<not> if_is_gif f \<and> (\<exists>i. ys = [compose i (from_millis (unat DEFAULT_FRAME_DELAY_MS))])) \<or>
      (compose_frames compose path 0 (if_gif_frames f) = Inr ys \<and> ys \<noteq> [])"
    using assms by (cases "if_is_gif f") (auto simp: picture_frames_def p and_then_Inr_iff split: if_splits)
  then show ?thesis
  proof
    assume "compose_frames compose path 0 (if_gif_frames f) = Inr ys \<and> ys \<noteq> []"
    then show ?thesis
      using compose_frames_bounds [of compose path 0 "if_gif_frames f" ys] c by (fastforce simp: list_all_iff)
  next
    assume "\<not> if_is_gif f \<and> (\<exists>i. ys = [compose i (from_millis (unat DEFAULT_FRAME_DELAY_MS))])"
    then obtain i where "ys = [compose i (from_millis (unat DEFAULT_FRAME_DELAY_MS))]" by blast
    then show ?thesis using m d by (auto intro: exI [of _ i])
  qed
qed

lemma render_image_frames_paced:
  "render_image_frames im p panel = Inr fs \<Longrightarrow> list_all (\<lambda>(f, d). from_millis 80 \<le> d) fs"
  by (auto simp: render_image_frames_def and_then_Inr_iff split_beta dest!: picture_frames_bounds
      elim!: list.pred_mono_strong)

interpretation kori: paced_frames "kori_renderer en im" "from_millis 80"
proof
  show "0 < from_millis 80" by (simp add: from_millis_def NANOS_PER_MS_def)
  show "list_all (\<lambda>(b, d). from_millis 80 \<le> d) fs" if h: "pr_frames (kori_renderer en im) es p panel = Inr fs"
    for es p panel fs
  proof -
    obtain gs where gs: "render_image_frames (im es) p panel = Inr gs" "fs = map (\<lambda>(f, d). (to_rgb565_be f, d)) gs"
      using h by (auto simp: kori_renderer_def and_then_Inr_iff)
    show ?thesis using render_image_frames_paced [OF gs(1)] by (auto simp: gs(2) list_all_iff)
  qed
qed

section \<open>Sizes\<close>

lemma shape_picture [shape_rules]: "same_shape c (draw_picture i c)"
  unfolding draw_picture_def
  by (auto split: option.split prod.split intro!: shape_fold shape_blend)

lemma turned_bytes:
  assumes "layout_size panel q = Inr (width, height)" "same_shape (filled width height b) c"
  shows "fb_width (from_canvas c q) = ucast (lp_width panel) \<and> fb_height (from_canvas c q) = ucast (lp_height panel) \<and>
    length (fb_pixels (from_canvas c q)) = unat (lp_width panel) * unat (lp_height panel)"
proof -
  have ok: "canvas_ok c" using assms(2) by (rule same_shape_ok) simp
  have l: "length (fb_pixels (from_canvas c q)) = length (cv_pixels c)"
    using turned_ok [OF ok, of q] by (cases q)
      (simp_all add: from_canvas_grid [OF ok] turned_size_def canvas_size_def as_canvas_def canvas_ok_def
        ok [unfolded canvas_ok_def] mult.commute)
  have w: "cv_width c = width" "cv_height c = height" using assms(2) by (simp_all add: same_shape_def)
  have u: "unat (ucast (v :: u16) :: u32) = unat v" for v by (simp add: unsigned_ucast_eq take_bit_nat_eq_self order_less_le_trans [OF unsigned_less])
  have k: "(cv_width c, cv_height c) = (if quarter_turns q mod 2 = 1
      then (ucast (lp_height panel), ucast (lp_width panel)) else (ucast (lp_width panel), ucast (lp_height panel)))"
    using assms(1) w by (auto simp: layout_size_def split: if_splits)
  show ?thesis
    using k l ok
    by (cases q) (simp_all add: canvas_ok_def u from_canvas_grid [OF ok] turned_size_def canvas_size_def mult.commute)
qed

text \<open>C37: A frame is always exactly the panel's. Whatever preset, readings and file, whatever the
  orientation and whether the panel is square: a render that succeeds gives two bytes for every pixel
  of the panel; an image compiles to between one and 120 such frames, none of which stays shorter than
  the 80 ms one transfer costs.\<close>

theorem frames_fit_the_panel:
  "(case pr_render (kori_renderer en im) p samples panel of
      Inl _ \<Rightarrow> True
    | Inr bytes \<Rightarrow> length bytes = 2 * unat (lp_width panel) * unat (lp_height panel)) \<and>
   (case pr_frames (kori_renderer en im) es p panel of
      Inl _ \<Rightarrow> True
    | Inr fs \<Rightarrow> 1 \<le> length fs \<and> length fs \<le> 120 \<and>
        list_all (\<lambda>(bytes, delay). length bytes = 2 * unat (lp_width panel) * unat (lp_height panel) \<and>
          from_millis 80 \<le> delay) fs)"
proof
  have bytes: "length (to_rgb565_be f) = 2 * length (fb_pixels f)" for f by (rule length_rgb565)
  show "case pr_render (kori_renderer en im) p samples panel of
      Inl _ \<Rightarrow> True
    | Inr bytes \<Rightarrow> length bytes = 2 * unat (lp_width panel) * unat (lp_height panel)"
  proof (cases "render en (im []) p samples panel")
    case (Inr f)
    then obtain width height c where c: "layout_size panel (dp_orientation p) = Inr (width, height)"
      "same_shape (filled width height (dp_background p)) c" "f = from_canvas c (dp_orientation p)"
      by (cases "dp_mode p") (auto simp: render_def and_then_Inr_iff Let_def
          intro: shape_infographic shape_single shape_picture)
    then show ?thesis using turned_bytes [OF c(1,2)] by (simp add: kori_renderer_def Inr bytes)
  qed (simp add: kori_renderer_def)
  show "case pr_frames (kori_renderer en im) es p panel of
      Inl _ \<Rightarrow> True
    | Inr fs \<Rightarrow> 1 \<le> length fs \<and> length fs \<le> 120 \<and>
        list_all (\<lambda>(bytes, delay). length bytes = 2 * unat (lp_width panel) * unat (lp_height panel) \<and>
          from_millis 80 \<le> delay) fs"
  proof (cases "render_image_frames (im es) p panel")
    case (Inr fs)
    then obtain width height where d: "layout_size panel (dp_orientation p) = Inr (width, height)"
      "picture_frames (im es) p (\<lambda>picture delay.
        (from_canvas (draw_picture picture (filled width height (dp_background p))) (dp_orientation p), delay)) = Inr fs"
      by (auto simp: render_image_frames_def and_then_Inr_iff)
    have "list_all (\<lambda>(f, delay). length (to_rgb565_be f) = 2 * unat (lp_width panel) * unat (lp_height panel) \<and>
        from_millis 80 \<le> delay) fs"
      using picture_frames_bounds [OF d(2)] turned_bytes [OF d(1) shape_picture]
      by (auto simp: bytes elim!: list.pred_mono_strong)
    then show ?thesis
      using picture_frames_bounds [OF d(2)]
      by (auto simp: kori_renderer_def Inr MAX_ANIMATION_FRAMES_def list.pred_map comp_def case_prod_unfold Suc_le_eq)
  qed (simp add: kori_renderer_def)
qed

lemma rendered_image:
  assumes "dp_mode p = ImageMode"
  shows "render en im p samples panel =
    and_then (validate_preset p) (\<lambda>_. and_then (layout_size panel (dp_orientation p)) (\<lambda>(width, height).
      and_then (still im p) (\<lambda>i.
        Inr (from_canvas (draw_picture i (filled width height (dp_background p))) (dp_orientation p)))))"
  by (cases "validate_preset p"; cases "layout_size panel (dp_orientation p)"; cases "still im p")
    (simp_all add: render_def assms Let_def split_beta)

lemma compiled_nothing:
  assumes "dp_mode p \<noteq> ImageMode"
  shows "\<not> is_ok (render_image_frames im p panel)"
proof -
  have "\<exists>e. image_path p = Inl e"
    using assms by (cases "dp_mode p") (auto simp: image_path_def uses_image_def split: option.split)
  then have "\<not> is_ok (picture_frames im p compose)" for compose :: "rgba_image \<Rightarrow> duration \<Rightarrow> framebuffer \<times> duration"
    by (auto simp: picture_frames_def)
  then show ?thesis
    unfolding render_image_frames_def
    by (cases "validate_preset p"; cases "layout_size panel (dp_orientation p)") (auto simp: split_beta)
qed

text \<open>A file that is not opened, and one that is no GIF, go the way of a single picture.\<close>

lemma compiled_like_drawn:
  assumes "dp_mode p = ImageMode"
    "\<And>compose :: rgba_image \<Rightarrow> duration \<Rightarrow> framebuffer \<times> duration.
       picture_frames im p compose = and_then (still im p) (\<lambda>i. Inr [compose i (from_millis 100)])"
  shows "render_image_frames im p panel = and_then (render en im p samples panel) (\<lambda>f. Inr [(f, from_millis 100)])"
  unfolding rendered_image [OF assms(1)] render_image_frames_def assms(2)
  by (cases "validate_preset p"; cases "layout_size panel (dp_orientation p)"; cases "still im p")
    (simp_all add: split_beta)

lemma frames_unopened:
  "and_then (image_path p) (open_image im) = Inl e \<Longrightarrow>
    picture_frames im p compose = and_then (still im p) (\<lambda>i. Inr [compose i (from_millis 100)])"
  by (cases "image_path p") (simp_all add: picture_frames_def still_def)

lemma frames_still:
  "\<lbrakk>and_then (image_path p) (open_image im) = Inr fl; \<not> if_is_gif fl\<rbrakk> \<Longrightarrow>
    picture_frames im p compose = and_then (still im p) (\<lambda>i. Inr [compose i (from_millis 100)])"
  by (cases "image_path p") (simp_all add: picture_frames_def still_def DEFAULT_FRAME_DELAY_MS_def)

lemma compiled_gif_starts_drawn:
  assumes "dp_mode p = ImageMode" "and_then (image_path p) (open_image im) = Inr fl" "if_is_gif fl"
    "if_gif_frames fl = Inr (i, d) # fs" "if_header fl = Inr (if_gif_size fl)" "if_still fl = Inr i"
    "render_image_frames im p panel = Inr gs"
  shows "render en im p samples panel = Inr (fst (hd gs))"
proof -
  obtain path where path: "image_path p = Inr path" "open_image im path = Inr fl"
    using assms(2) by (auto simp: and_then_Inr_iff)
  obtain width height where wh: "validate_preset p = Inr ()" "layout_size panel (dp_orientation p) = Inr (width, height)"
    using assms(7) by (auto simp: render_image_frames_def and_then_Inr_iff)
  let ?compose = "\<lambda>picture delay.
    (from_canvas (draw_picture picture (filled width height (dp_background p))) (dp_orientation p), delay :: duration)"
  have "picture_frames im p ?compose = Inr gs"
    using assms(7) by (simp add: render_image_frames_def wh)
  then have "refuse_unusable_size (if_gif_size fl) path = Inr ()"
    "compose_frames ?compose path 0 (if_gif_frames fl) = Inr gs"
    by (auto simp: picture_frames_def path assms(3) and_then_Inr_iff split: if_splits)
  then show ?thesis
    using assms(4-6)
    by (auto simp: rendered_image [OF assms(1)] wh still_def path decode_still_def and_then_Inr_iff split: if_splits)
qed

text \<open>The compiled picture is the drawn one. For a file that is no GIF, compiling it gives exactly
  the picture a render draws, once, for a tenth of a second, and refuses exactly what a render refuses,
  with the same error. For a GIF whose single picture is, to the decoder, its first frame, a compiled
  animation starts with the picture a render draws.\<close>

theorem compiled_is_drawn:
  "if dp_mode p = ImageMode
   then (case and_then (image_path p) (open_image im) of
       Inl e \<Rightarrow> render_image_frames im p panel = and_then (render en im p samples panel) (\<lambda>f. Inr [(f, from_millis 100)])
     | Inr fl \<Rightarrow>
         (if \<not> if_is_gif fl
          then render_image_frames im p panel = and_then (render en im p samples panel) (\<lambda>f. Inr [(f, from_millis 100)])
          else (case if_gif_frames fl of
              Inr (i, _) # _ \<Rightarrow>
                (if if_header fl = Inr (if_gif_size fl) \<and> if_still fl = Inr i \<and> is_ok (render_image_frames im p panel)
                 then map_option (fst \<circ> hd) (result_ok (render_image_frames im p panel)) =
                   result_ok (render en im p samples panel)
                 else True)
            | _ \<Rightarrow> True)))
   else \<not> is_ok (render_image_frames im p panel)"
proof (cases "dp_mode p = ImageMode")
  case False
  then show ?thesis using compiled_nothing by simp
next
  case image: True
  show ?thesis
  proof (cases "and_then (image_path p) (open_image im)")
    case (Inl e)
    then show ?thesis using image compiled_like_drawn [OF image frames_unopened [OF Inl]] by simp
  next
    case (Inr fl)
    show ?thesis
    proof (cases "if_is_gif fl")
      case False
      then show ?thesis using image Inr compiled_like_drawn [OF image frames_still [OF Inr False]] by simp
    next
      case True
      have "result_ok (render en im p samples panel) = map_option (fst \<circ> hd) (result_ok (render_image_frames im p panel))"
        if "if_gif_frames fl = Inr (i, d) # fs" "if_header fl = Inr (if_gif_size fl)" "if_still fl = Inr i"
          "is_ok (render_image_frames im p panel)" for i d fs
        using compiled_gif_starts_drawn [OF image Inr True that(1-3)] that(4)
        by (cases "render_image_frames im p panel") auto
      then show ?thesis using image Inr True by (auto split: list.split sum.split prod.split)
    qed
  qed
qed

text \<open>Scaling never reads outside the picture. Whatever the two sizes, every pixel of the canvas
  reads a pixel that the picture has, and a picture without pixels draws nothing.\<close>

theorem cover_reads_inside:
  "case cover_new c width height of
     None \<Rightarrow> width = 0 \<or> height = 0
   | Some k \<Rightarrow> fst (cover_source k x y) < width \<and> snd (cover_source k x y) < height"
proof (cases "width = 0 \<or> height = 0")
  case False
  have m: "min v (n - 1) < n" if "n \<noteq> 0" for v n :: u32
  proof -
    have "0 < unat n" using that by (simp add: unat_gt_0)
    then have "n - 1 < n" using that by (simp add: word_less_nat_alt unat_minus_one)
    then show ?thesis by (rule order_le_less_trans [OF min.cobounded2])
  qed
  show ?thesis using False by (simp add: cover_new_def cover_source_def m Let_def)
qed (simp add: cover_new_def)

end
