(* ===== verification/Daemon_Returns.thy ===== *)
theory Daemon_Returns
  imports Renderer Daemon_Safety
begin

text \<open>
  The daemon on the renderer of the repository. Its only loop without an obvious end is the walk of an
  animation over its delays; the renderer never compiles a delay below its floor, so the walk ends at
  every tick, and every run of the daemon returns.
\<close>

definition animation_paced :: "daemon \<times> world \<Rightarrow> daemon \<times> world \<Rightarrow> bool" where
  "animation_paced s t = (animation_ok (from_millis 80) (dn_display (fst s)) \<longrightarrow>
    animation_ok (from_millis 80) (dn_display (fst t)))"

lemma paced_step:
  assumes "display_step (kori_renderer rn im) clk c x w = Some (x', w')" "animation_ok (from_millis 80) x"
  shows "animation_ok (from_millis 80) x'"
  using kori.step_ok [OF assms(2), of rn im clk c w] assms(1) by auto

interpretation playing: daemon_relation "en\<lparr>en_renderer := kori_renderer rn im\<rparr>" animation_paced
proof
  show "animation_paced (d, w) (d\<lparr>dn_display := z\<rparr>, w')"
    if "require_write_access d = Inr ()"
      "display_apply (en_renderer (en\<lparr>en_renderer := kori_renderer rn im\<rparr>))
        (en_clock (en\<lparr>en_renderer := kori_renderer rn im\<rparr>)) pr sm (dn_display d) w = (o3, z, w')"
    for d pr sm w o3 z w'
    using that paced_step [of rn im "en_clock en" "DApply pr sm" "dn_display d" w z w']
    by (simp add: animation_paced_def)
  show "animation_paced (d, w) (d\<lparr>dn_display := z\<rparr>, w')"
    if "\<not> needs_access dc"
      "display_step (en_renderer (en\<lparr>en_renderer := kori_renderer rn im\<rparr>))
        (en_clock (en\<lparr>en_renderer := kori_renderer rn im\<rparr>)) dc (dn_display d) w = Some (z, w')"
    for dc d w z w'
    using that paced_step [of rn im "en_clock en" dc "dn_display d" w z w'] by (simp add: animation_paced_def)
qed (simp_all add: animation_paced_def)

lemma paced_run_returns:
  fixes en :: daemon_env and rn :: renderer_env and im :: "io_event list \<Rightarrow> image_env"
  defines "env \<equiv> en\<lparr>en_renderer := kori_renderer rn im\<rparr>"
  assumes "animation_ok (from_millis 80) (dn_display d)"
  shows "run_daemon env ks d w \<noteq> None"
  using assms(2)
proof (induction ks arbitrary: d w)
  case (Cons k ks)
  have "\<exists>x v. display_step (kori_renderer rn im) (en_clock en) (DAdvance now) (dn_display d) w = Some (x, v)" for now
    using kori.step_ok [OF Cons.prems, of rn im "en_clock en" "DAdvance now" w] by blast
  then have "\<exists>due x v. advance_animation now (dn_display d) w = Some (due, x, v)" for now
    by (metis display_step.simps(3) map_option_eq_Some surj_pair)
  then have "\<exists>d' w'. daemon_step env k d w = Some (d', w')"
    by (cases k) (simp_all add: tick_animation_def, metis (no_types, lifting) option.map(2) case_prod_conv)
  then obtain d' w' where k: "daemon_step env k d w = Some (d', w')" by blast
  have "animation_paced (d, w) (d', w')"
    using playing.step_keeps [where en = en and rn = rn and im = im and k = k and d = d and w = w and d' = d' and w' = w'
        and s = "(d, w)"] k
    by (simp add: env_def animation_paced_def)
  then show ?case using Cons k by (simp add: animation_paced_def)
qed simp

text \<open>C34: The daemon always answers. Started with no panel or with one that was never drawn on, and
  rendering as the repository does, it returns from every sequence of requests, ticks and animation
  steps, whatever the devices, the disk, the files picked and the clocks do: no animation, however
  short its frames claim to be, can hold it in the loop that catches up with the clock.\<close>

theorem daemon_always_answers:
  "\<exists>d' w'. run_daemon (en\<lparr>en_renderer := kori_renderer rn im\<rparr>) ks
     (d\<lparr>dn_display := (case panel of None \<Rightarrow> display_absent | Some (l, p) \<Rightarrow> display_connected l p)\<rparr>) w =
       Some (d', w')"
proof -
  have "animation_ok (from_millis 80) (case panel of None \<Rightarrow> display_absent | Some (l, p) \<Rightarrow> display_connected l p)"
    by (simp add: animation_ok_def display_connected_def display_absent_def split: option.split)
  then have "run_daemon (en\<lparr>en_renderer := kori_renderer rn im\<rparr>) ks
      (d\<lparr>dn_display := (case panel of None \<Rightarrow> display_absent | Some (l, p) \<Rightarrow> display_connected l p)\<rparr>) w \<noteq> None"
    by (intro paced_run_returns) simp
  then show ?thesis by auto
qed

end
