(* ===== verification/Server.thy ===== *)
theory Server
  imports Startup_Safety Daemon_Returns
begin

text \<open>
  \<open>crates/daemon/src/server.rs\<close>: the socket, one thread per client, and the thread of the daemon's own
  clock. The threads meet at one mutex around the daemon, and each of them holds it once per turn, so a
  server is a list of turns in any order: a client is accepted, a connection takes its next turn, the
  ticker makes a pass, the shutdown flag is set. The state behind the mutex is \<open>None\<close> when the mutex is
  poisoned. Of a socket the model knows what the peer's credentials are, which bytes the peer will have
  sent, whether the handle can be duplicated, and which frame the peer no longer takes; a connection
  whose peer is silent is one that takes no turn.
\<close>

definition frame_error_display :: "frame_error \<Rightarrow> string" where
  "frame_error_display e = (case e of
      FrameClosed \<Rightarrow> ''connection closed''
    | FrameOverflow n \<Rightarrow> ''frame exceeds '' @ show_nat n @ '' bytes''
    | FrameDecode d \<Rightarrow> ''frame is not valid JSON: '' @ d
    | FrameIo d \<Rightarrow> d)"

section \<open>The socket\<close>

definition bind_socket :: "fs_env \<Rightarrow> string \<Rightarrow> world \<Rightarrow> (io_error + unit) \<times> world" where
  "bind_socket fs path w =
    (let (removed, w) = fs_do fs (FileRemove path) w;
         gone = (case removed of
             Inr _ \<Rightarrow> Inr ()
           | Inl e \<Rightarrow> if io_kind e = KindNotFound then Inr () else Inl e)
     in or_return (gone, w) (\<lambda>_ w.
        or_return (fs_do fs (SocketBind path) w) (\<lambda>_ w. fs_do fs (FileMode path) w)))"

section \<open>One connection\<close>

record server_env =
  sv_daemon :: daemon_env
  sv_uid :: u32
  sv_encode :: "response \<Rightarrow> string + string"
  sv_decode :: "string \<Rightarrow> string + request"
  sv_interval :: duration

text \<open>A connection waits to be looked at, waits for the handshake, is served, or has been closed.\<close>

datatype conn_phase = Incoming | Greeting | Serving | Hung

record connection =
  cn_phase :: conn_phase
  cn_peer :: "string + u32 \<times> i32"
  cn_clones :: bool
  cn_input :: byte_stream
  cn_accepts :: "nat \<Rightarrow> bool"
  cn_sent :: "string list"

definition connection_new :: "(string + u32 \<times> i32) \<Rightarrow> bool \<Rightarrow> byte_stream \<Rightarrow> (nat \<Rightarrow> bool) \<Rightarrow> connection" where
  "connection_new peer clones input accepts =
    \<lparr>cn_phase = Incoming, cn_peer = peer, cn_clones = clones, cn_input = input, cn_accepts = accepts, cn_sent = []\<rparr>"

text \<open>A frame that leaves, and whether the peer took it.\<close>

definition send_response :: "server_env \<Rightarrow> response \<Rightarrow> connection \<Rightarrow> bool \<times> connection" where
  "send_response sv r c = (case write_frame (sv_encode sv) r of
      Inl _ \<Rightarrow> (False, c)
    | Inr bytes \<Rightarrow> (cn_accepts c (length (cn_sent c)), c\<lparr>cn_sent := cn_sent c @ [bytes]\<rparr>))"

definition note_shared :: "daemon_env \<Rightarrow> event_kind \<Rightarrow> daemon option \<Rightarrow> world \<Rightarrow> daemon option \<times> world" where
  "note_shared en k shared w = (case shared of
      None \<Rightarrow> (None, w)
    | Some d \<Rightarrow> (let (d, w) = note_event en k d w in (Some d, w)))"

definition hang_up :: "connection \<Rightarrow> connection" where
  "hang_up c = c\<lparr>cn_phase := Hung\<rparr>"

definition reject :: "server_env \<Rightarrow> ipc_error \<Rightarrow> connection \<Rightarrow> daemon option \<Rightarrow> world \<Rightarrow>
    connection \<times> daemon option \<times> world" where
  "reject sv e c shared w =
    (let (shared, w) = note_shared (sv_daemon sv) (ClientRejected (ipc_error_display e)) shared w
     in (hang_up (if cn_clones c then snd (send_response sv (RespError e) c) else c), shared, w))"

definition peer_check :: "server_env \<Rightarrow> connection \<Rightarrow> ipc_error + u32 \<times> i32" where
  "peer_check sv c = (case cn_peer c of
      Inl reason \<Rightarrow> Inl (PeerRejected reason)
    | Inr (uid, pid) \<Rightarrow>
        if uid \<noteq> sv_uid sv
        then Inl (PeerRejected (''peer uid '' @ show_u32 uid @ '' does not own this daemon''))
        else Inr (uid, pid))"

text \<open>What happens before the loop.\<close>

definition open_connection :: "server_env \<Rightarrow> connection \<Rightarrow> daemon option \<Rightarrow> world \<Rightarrow>
    connection \<times> daemon option \<times> world" where
  "open_connection sv c shared w = (case peer_check sv c of
      Inl e \<Rightarrow> reject sv e c shared w
    | Inr (uid, pid) \<Rightarrow>
        (let (shared, w) = note_shared (sv_daemon sv) (ClientAccepted uid pid) shared w
         in (if cn_clones c then c\<lparr>cn_phase := Greeting\<rparr> else hang_up c, shared, w)))"

definition is_hello :: "request \<Rightarrow> bool" where
  "is_hello q = (case q of ReqHello _ \<Rightarrow> True | _ \<Rightarrow> False)"

definition is_greeting :: "response \<Rightarrow> bool" where
  "is_greeting r = (case r of RespHello _ _ \<Rightarrow> True | _ \<Rightarrow> False)"

text \<open>The request under the mutex.\<close>

definition handle_shared :: "daemon_env \<Rightarrow> request \<Rightarrow> daemon option \<Rightarrow> world \<Rightarrow>
    response \<times> daemon option \<times> world" where
  "handle_shared en q shared w = (case shared of
      None \<Rightarrow> (RespError (IoFailed ''daemon state is unavailable''), None, w)
    | Some d \<Rightarrow> (let (r, d, w) = handle en q d w in (r, Some d, w)))"

text \<open>One round of the loop; \<open>Serving\<close> is \<open>handshake_done\<close>.\<close>

definition serve_request :: "server_env \<Rightarrow> connection \<Rightarrow> daemon option \<Rightarrow> world \<Rightarrow>
    connection \<times> daemon option \<times> world" where
  "serve_request sv c shared w =
    (let (frame, input) = read_frame (sv_decode sv) (cn_input c); c = c\<lparr>cn_input := input\<rparr>;
         handshake_done = (cn_phase c = Serving)
     in case frame of
          Inl e \<Rightarrow>
            (let detail = (case as_ipc_error e of
                   Some _ \<Rightarrow> frame_error_display e | None \<Rightarrow> ''client closed the connection'');
                 (shared, w) = note_shared (sv_daemon sv) (ClientDisconnected detail) shared w
             in (hang_up (case as_ipc_error e of
                   Some i \<Rightarrow> snd (send_response sv (RespError i) c) | None \<Rightarrow> c), shared, w))
        | Inr q \<Rightarrow>
            if \<not> handshake_done \<and> \<not> is_hello q
            then (hang_up (snd (send_response sv (RespError HandshakeRequired) c)), shared, w)
            else
              (let (r, shared, w) = handle_shared (sv_daemon sv) q shared w;
                   refused = (\<not> handshake_done \<and> \<not> is_greeting r);
                   (taken, c) = send_response sv r c
               in (if \<not> taken \<or> refused then hang_up c else c\<lparr>cn_phase := Serving\<rparr>, shared, w)))"

definition conn_turn :: "server_env \<Rightarrow> connection \<Rightarrow> daemon option \<Rightarrow> world \<Rightarrow>
    connection \<times> daemon option \<times> world" where
  "conn_turn sv c shared w = (case cn_phase c of
      Incoming \<Rightarrow> open_connection sv c shared w
    | Hung \<Rightarrow> (c, shared, w)
    | _ \<Rightarrow> serve_request sv c shared w)"

section \<open>The ticker\<close>

definition TICK_POLL :: duration where "TICK_POLL = from_millis 50"
definition TICK_FLOOR :: duration where "TICK_FLOOR = from_millis 1"

definition nap_until :: "clock_env \<Rightarrow> instant \<Rightarrow> world \<Rightarrow> duration \<times> world" where
  "nap_until clock deadline w =
    (let (now, w) = instant_now clock w in (max TICK_FLOOR (min TICK_POLL (duration_since deadline now)), w))"

record ticker =
  tk_next :: instant
  tk_nap :: duration

definition ticker_start :: "server_env \<Rightarrow> world \<Rightarrow> ticker \<times> world" where
  "ticker_start sv w =
    (let clock = en_clock (sv_daemon sv); (now, w) = instant_now clock w; next = now + sv_interval sv;
         (nap, w) = nap_until clock next w
     in (\<lparr>tk_next = next, tk_nap = nap\<rparr>, w))"

text \<open>The loop over the missed frames, which has no end on an interval of zero.\<close>

partial_function (option) count_missed :: "duration \<Rightarrow> instant \<Rightarrow> instant \<Rightarrow> u32 \<Rightarrow> (instant \<times> u32) option" where
  "count_missed interval now next missed =
    (if next + interval \<le> now then count_missed interval now (next + interval) (missed + 1)
     else Some (next, missed))"

text \<open>The daemon's share of a pass: the animation, then the frames that were missed, then the tick.\<close>

definition pass_daemon :: "server_env \<Rightarrow> instant \<Rightarrow> instant \<Rightarrow> daemon \<Rightarrow> world \<Rightarrow>
    (instant option \<times> instant \<times> daemon \<times> world) option" where
  "pass_daemon sv now next d w = (case tick_animation now d w of
      None \<Rightarrow> None
    | Some (due, d, w) \<Rightarrow>
        if next \<le> now then
          (case count_missed (sv_interval sv) now next 0 of
             None \<Rightarrow> None
           | Some (next, missed) \<Rightarrow>
               (let d = (drop_display_frame ^^ unat missed) d; (d, w) = tick (sv_daemon sv) d w
                in Some (due, next + sv_interval sv, d, w)))
        else Some (due, next, d, w))"

definition ticker_pass :: "server_env \<Rightarrow> ticker \<Rightarrow> daemon option \<Rightarrow> world \<Rightarrow>
    (ticker \<times> daemon option \<times> world) option" where
  "ticker_pass sv t shared w =
    (let clock = en_clock (sv_daemon sv); (now, w) = instant_now clock (sleep (tk_nap t) w)
     in case (case shared of
          None \<Rightarrow> Some (None, tk_next t, None, w)
        | Some d \<Rightarrow> map_option (\<lambda>(due, next, d, w). (due, next, Some d, w)) (pass_daemon sv now (tk_next t) d w)) of
          None \<Rightarrow> None
        | Some (due, next, shared, w) \<Rightarrow>
            (let (nap, w) = nap_until clock (case due of Some i \<Rightarrow> min i next | None \<Rightarrow> next) w
             in Some (\<lparr>tk_next = next, tk_nap = nap\<rparr>, shared, w)))"

section \<open>The server\<close>

record server =
  sr_shared :: "daemon option"
  sr_conns :: "connection list"
  sr_ticker :: ticker
  sr_stopping :: bool

definition attach :: "server_env \<Rightarrow> daemon \<Rightarrow> world \<Rightarrow> server \<times> world" where
  "attach sv d w = (let (t, w) = ticker_start sv w
    in (\<lparr>sr_shared = Some d, sr_conns = [], sr_ticker = t, sr_stopping = False\<rparr>, w))"

datatype server_op =
    Accept "string + u32 \<times> i32" bool byte_stream "nat \<Rightarrow> bool"
  | Turn nat
  | Pass
  | Stop

text \<open>A stopped server accepts nobody and ticks no more; what is connected may still take its turns.\<close>

fun server_step :: "server_env \<Rightarrow> server_op \<Rightarrow> server \<Rightarrow> world \<Rightarrow> (server \<times> world) option" where
  "server_step sv (Accept peer clones input accepts) s w =
    Some (if sr_stopping s then s
          else s\<lparr>sr_conns := sr_conns s @ [connection_new peer clones input accepts]\<rparr>, w)"
| "server_step sv (Turn i) s w =
    Some (if length (sr_conns s) \<le> i then (s, w)
      else (let (c, shared, w) = conn_turn sv (sr_conns s ! i) (sr_shared s) w
        in (s\<lparr>sr_conns := (sr_conns s)[i := c], sr_shared := shared\<rparr>, w)))"
| "server_step sv Pass s w =
    (if sr_stopping s then Some (s, w)
     else map_option (\<lambda>(t, shared, w). (s\<lparr>sr_ticker := t, sr_shared := shared\<rparr>, w))
       (ticker_pass sv (sr_ticker s) (sr_shared s) w))"
| "server_step sv Stop s w = Some (s\<lparr>sr_stopping := True\<rparr>, w)"

fun run_server :: "server_env \<Rightarrow> server_op list \<Rightarrow> server \<Rightarrow> world \<Rightarrow> (server \<times> world) option" where
  "run_server sv [] s w = Some (s, w)"
| "run_server sv (k # ks) s w = (case server_step sv k s w of
      None \<Rightarrow> None
    | Some (s, w) \<Rightarrow> run_server sv ks s w)"

text \<open>After the ticker has ended the socket is removed; the daemon's lock is then taken once more, so that a
  command in progress ends before the process does.\<close>

definition close_socket :: "fs_env \<Rightarrow> string option \<Rightarrow> world \<Rightarrow> world" where
  "close_socket fs local_path w = (case local_path of
      None \<Rightarrow> w
    | Some p \<Rightarrow> snd (fs_do fs (FileRemove p) w))"

end
