(* ===== verification/Server_Safety.thy ===== *)
theory Server_Safety
  imports Server
begin

text \<open>
  What holds over any interleaving of clients, ticks and the shutdown. Whatever every operation of the
  daemon keeps, a server keeps (\<open>server_keeps\<close>, in the locale of those relations); a client is served
  only after the handshake; every connection whose peer stops is closed; and the ticker goes on ticking.
\<close>

section \<open>A server does to the daemon only what its operations do\<close>

text \<open>The state behind the mutex is there, and related to an earlier state.\<close>

definition shared_in :: "(daemon \<times> world \<Rightarrow> daemon \<times> world \<Rightarrow> bool) \<Rightarrow> daemon \<times> world \<Rightarrow>
    daemon option \<times> world \<Rightarrow> bool" where
  "shared_in R s t = (case fst t of None \<Rightarrow> False | Some d \<Rightarrow> R s (d, snd t))"

lemma silent_sleep [silent_rules]: "silent w (sleep d w)"
  unfolding silent_def sleep_def by (intro exI [of _ "[Slept d]"]) (simp add: extends_def silent_event_def)

lemma silent_nap_until [silent_rules]: "silent w (snd (nap_until clock deadline w))"
  by (simp add: nap_until_def split_beta silent_instant)

context daemon_relation
begin

lemma clock_shared: "\<lbrakk>shared_in R s (sh, w); silent w w'\<rbrakk> \<Longrightarrow> shared_in R s (sh, w')"
  using trans [OF _ clock] by (auto simp: shared_in_def split: option.splits)

lemma note_shared_keeps: "shared_in R s (sh, w) \<Longrightarrow> shared_in R s (note_shared en k sh w)"
  using noted by (auto simp: shared_in_def note_shared_def split_beta split: option.splits)

lemma handle_shared_keeps: "shared_in R s (sh, w) \<Longrightarrow> shared_in R s (snd (handle_shared en q sh w))"
  using handle_keeps [where q = q] by (auto simp: shared_in_def handle_shared_def split_beta split: option.splits)

lemma conn_turn_keeps:
  assumes "sv_daemon sv = en" "shared_in R s (sh, w)"
  shows "shared_in R s (snd (conn_turn sv c sh w))"
proof -
  have n: "shared_in R s (note_shared en k sh w)" for k by (rule note_shared_keeps [OF assms(2)])
  have h: "shared_in R s (snd (handle_shared en q sh w))" for q by (rule handle_shared_keeps [OF assms(2)])
  have "shared_in R s (snd (open_connection sv c sh w))"
    by (simp add: open_connection_def reject_def split_beta Let_def assms(1) n split: sum.split)
  moreover have "shared_in R s (snd (serve_request sv c sh w))"
    using assms n h by (simp add: serve_request_def split_beta Let_def split: sum.split)
  ultimately show ?thesis using assms(2) by (simp add: conn_turn_def split: conn_phase.split)
qed

lemma drops_keep: "R s (d, w) \<Longrightarrow> R s ((drop_display_frame ^^ n) d, w)"
proof (induction n)
  case (Suc n)
  show ?case using step_keeps [where k = OpDropFrame, OF _ Suc.IH [OF Suc.prems]] by simp
qed simp

lemma pass_daemon_keeps:
  assumes "sv_daemon sv = en" "R s (d, w)" "pass_daemon sv now next d w = Some (due, next', d', w')"
  shows "R s (d', w')"
proof -
  obtain due1 d1 w1 where a: "tick_animation now d w = Some (due1, d1, w1)"
    using assms(3) by (auto simp: pass_daemon_def split: option.splits)
  have r: "R s (d1, w1)" using step_keeps [where k = "OpAnimate now", OF _ assms(2)] a by simp
  have "R s (tick en ((drop_display_frame ^^ n) d1) w1)" for n
    using step_keeps [where k = OpTick, OF _ drops_keep [OF r, of n]]
    by (cases "tick en ((drop_display_frame ^^ n) d1) w1") simp
  then show ?thesis
    using assms(1,3) a r by (auto simp: pass_daemon_def split_beta Let_def split: option.splits if_splits) (metis prod.collapse)
qed

lemma ticker_pass_keeps:
  assumes "sv_daemon sv = en" "shared_in R s (sh, w)" "ticker_pass sv t sh w = Some (t', sh', w')"
  shows "shared_in R s (sh', w')"
proof -
  obtain d where d: "sh = Some d" "R s (d, w)" using assms(2) by (auto simp: shared_in_def split: option.splits)
  obtain now w1 where c: "instant_now (en_clock (sv_daemon sv)) (sleep (tk_nap t) w) = (now, w1)" by fastforce
  have "silent w w1"
    using silent_trans [OF silent_sleep [of w "tk_nap t"] silent_instant] c by (metis snd_conv)
  then have r: "R s (d, w1)" using trans [OF d(2) clock] by blast
  obtain due nx d2 w2 where p: "pass_daemon sv now (tk_next t) d w1 = Some (due, nx, d2, w2)"
    and e: "sh' = Some d2" "w' = snd (nap_until (en_clock (sv_daemon sv)) (case due of Some i \<Rightarrow> min i nx | None \<Rightarrow> nx) w2)"
    using assms(3) d(1) c by (auto simp: ticker_pass_def split_beta Let_def split: option.splits)
  have "R s (d2, w2)" by (rule pass_daemon_keeps [OF assms(1) r p])
  then show ?thesis
    using clock_shared [of s "Some d2" w2 w'] e silent_nap_until by (simp add: shared_in_def)
qed

lemma server_step_keeps:
  assumes "sv_daemon sv = en" "shared_in R s0 (sr_shared s, w)" "server_step sv k s w = Some (s', w')"
  shows "shared_in R s0 (sr_shared s', w')"
proof (cases k)
  case (Turn i)
  then show ?thesis
    using assms conn_turn_keeps [OF assms(1,2), of "sr_conns s ! i"]
    by (auto simp: split_beta Let_def split: if_splits)
next
  case Pass
  then show ?thesis
    using assms ticker_pass_keeps [OF assms(1,2)] by (auto split: if_splits)
qed (use assms in auto)

lemma server_keeps:
  "\<lbrakk>sv_daemon sv = en; shared_in R s0 (sr_shared s, w); run_server sv ks s w = Some (s', w')\<rbrakk> \<Longrightarrow>
    shared_in R s0 (sr_shared s', w')"
proof (induction ks arbitrary: s w)
  case (Cons k ks)
  then obtain s1 w1 where k: "server_step sv k s w = Some (s1, w1)" "run_server sv ks s1 w1 = Some (s', w')"
    by (auto split: option.splits)
  show ?case by (rule Cons.IH [OF Cons.prems(1) server_step_keeps [OF Cons.prems(1,2) k(1)] k(2)])
qed simp

end

section \<open>The clock of a server only moves forward\<close>

definition onward :: "daemon \<times> world \<Rightarrow> daemon \<times> world \<Rightarrow> bool" where
  "onward s t = (\<exists>es. extends (snd s) es (snd t))"

lemma onward_refusal: "one_refusal w p ok w' \<Longrightarrow> \<exists>es. extends w es w'"
  by (auto simp: one_refusal_def)

lemma lighting_onward: "lighting_apply now c x w = (out, x', w') \<Longrightarrow> \<exists>es. extends w es w'"
  by (auto simp: lighting_apply_def rgb_apply_def write_report_def split_beta Let_def
      split: if_splits option.splits sum.splits intro: exI [of _ "[]"] extends_push)

lemma cooling_onward: "cooling_apply env clk now p x w = (out, x', w') \<Longrightarrow> \<exists>es. extends w es w'"
  using cooling_confined [where env = env and clk = clk and now = now and program = p and x = x and w = w] by (auto simp: confined_def silent_def split: option.splits)

lemma send_onward: "send_bytes p f x w = (out, x', w') \<Longrightarrow> \<exists>es. extends w es w'"
  using refusal_send_bytes onward_refusal by blast

lemma display_onward:
  assumes "display_step rr clk c x w = Some (x', w')"
  shows "\<exists>es. extends w es w'"
proof -
  have s: "\<exists>es. extends v es (snd (snd (send_bytes p f y v)))" for p f y v
    using send_onward [of p f y v] by (cases "send_bytes p f y v") simp
  have n: "\<exists>es. extends v es v" for v by blast
  have i: "\<exists>es. extends v es (snd (snd (start_image rr clk p y v)))" for p y v
  proof -
    have "\<exists>es. extends v es (snd (instant_now clk u))" if "\<exists>es. extends v es u" for u
      using that silent_instant [of u clk] extends_trans unfolding silent_def by blast
    then show ?thesis using s n
      by (auto simp: start_image_def split_beta Let_def split: sum.split option.split list.split)
  qed
  have d: "\<exists>es. extends v es (snd (snd (display_send rr p sm y v)))" for v p sm y
    using s n by (auto simp: display_send_def split_beta Let_def split: sum.split option.split)
  show ?thesis
  proof (cases c)
    case (DApply p sm)
    let ?x = "x\<lparr>dx_faulted := None, dx_animation := None\<rparr>"
    have "w' = snd (snd (if uses_image (dp_mode p) then start_image rr clk p ?x w else display_send rr p sm ?x w))"
      using assms DApply by (auto simp: display_apply_def split_beta Let_def split: sum.splits)
    then show ?thesis using i [of w p ?x] d [of w p sm ?x] by simp
  next
    case (DRefresh sm)
    then have "w' = w \<or> (\<exists>q. w' = snd (snd (display_send rr q sm x w)))"
      using assms by (auto simp: display_refresh_def split_beta Let_def split: sum.splits if_splits option.splits)
    then show ?thesis using d n by blast
  next
    case (DAdvance now)
    then have "w' = w \<or> (\<exists>p f y. w' = snd (snd (send_bytes p f y w)))"
      using assms
      by (auto simp: advance_animation_def split_beta Let_def
          split: if_splits option.splits hardware_state.splits) (metis snd_conv)+
    then show ?thesis using s n by blast
  qed (use assms in auto)
qed

interpretation forward: daemon_relation en onward
proof
  show "onward (d, w) (d\<lparr>dn_config := c\<rparr>, w')"
    if "config_step (en_toml en) (en_fs en) k (dn_config d) w = (ok, c, w')" for k d w ok c w'
    using config_step_unsent [OF that] by (auto simp: onward_def nothing_sent_def)
  show "onward (d, w) (d\<lparr>dn_cooling := x\<rparr>, w')"
    if "cooling_apply (en_attr en) (en_clock en) now p (dn_cooling d) w = (o1, x, w')" for p d now w o1 x w'
    using cooling_onward [OF that] by (simp add: onward_def)
  show "onward (d, w) (d\<lparr>dn_lighting := y\<rparr>, w')"
    if "lighting_apply now lc (dn_lighting d) w = (o2, y, w')" for d now lc w o2 y w'
    using lighting_onward [OF that] by (simp add: onward_def)
  show "onward (d, w) (d\<lparr>dn_display := z\<rparr>, w')"
    if "display_apply (en_renderer en) (en_clock en) pr sm (dn_display d) w = (o3, z, w')" for d pr sm w o3 z w'
    using display_onward [of "en_renderer en" "en_clock en" "DApply pr sm" "dn_display d" w z w'] that
    by (simp add: onward_def)
  show "onward (d, w) (d\<lparr>dn_display := z\<rparr>, w')"
    if "display_step (en_renderer en) (en_clock en) dc (dn_display d) w = Some (z, w')" for dc d w z w'
    using display_onward [OF that] by (simp add: onward_def)
qed (auto simp: onward_def silent_def intro: extends_trans)

section \<open>The ticker\<close>

lemma count_missed_eq:
  assumes "0 < interval" "nx \<le> now"
  shows "count_missed interval now nx missed =
    Some (nx + (now - nx) div interval * interval, missed + word_of_nat ((now - nx) div interval))"
  using assms
proof (induction "now - nx" arbitrary: nx missed rule: less_induct)
  case less
  show ?case
  proof (cases "nx + interval \<le> now")
    case True
    have d: "(now - nx) div interval = Suc ((now - (nx + interval)) div interval)"
      using True less.prems(1) le_div_geq [of interval "now - nx"] by simp
    have "count_missed interval now (nx + interval) (missed + 1) =
        Some (nx + interval + (now - (nx + interval)) div interval * interval,
          missed + 1 + word_of_nat ((now - (nx + interval)) div interval))"
      by (rule less.hyps) (use True less.prems in auto)
    then show ?thesis
      using True by (subst count_missed.simps) (simp add: d algebra_simps)
  next
    case False
    then show ?thesis using less.prems by (subst count_missed.simps) simp
  qed
qed

lemma nap_bounds: "TICK_FLOOR \<le> fst (nap_until clock deadline w) \<and> fst (nap_until clock deadline w) \<le> TICK_POLL"
  by (simp add: nap_until_def split_beta TICK_FLOOR_def TICK_POLL_def from_millis_def)

text \<open>The deadline after a pass that read the clock at \<open>now\<close>.\<close>

definition deadline_after :: "duration \<Rightarrow> instant \<Rightarrow> instant \<Rightarrow> instant" where
  "deadline_after interval now next =
    (if next \<le> now then next + (now - next) div interval * interval + interval else next)"

lemma deadline_after_later:
  assumes "0 < interval"
  shows "now < deadline_after interval now nx" "nx \<le> deadline_after interval now nx"
    "deadline_after interval now nx \<le> max nx (now + interval)"
proof -
  define k where "k = (now - nx) div interval * interval"
  have "now - nx < k + interval" "k \<le> now - nx"
    using dividend_less_times_div [OF assms, of "now - nx"] by (simp_all add: k_def mult.commute)
  then show "now < deadline_after interval now nx" "nx \<le> deadline_after interval now nx"
    "deadline_after interval now nx \<le> max nx (now + interval)"
    unfolding deadline_after_def k_def [symmetric] by auto
qed

lemma pass_deadline:
  assumes "0 < sv_interval sv" "ticker_pass sv t (Some d) w = Some (t', sh', w')"
  obtains now where "w_now w + tk_nap t \<le> now" "now \<le> w_now w'"
    "tk_next t' = deadline_after (sv_interval sv) now (tk_next t)" "TICK_FLOOR \<le> tk_nap t'"
proof -
  obtain now w1 where c: "instant_now (en_clock (sv_daemon sv)) (sleep (tk_nap t) w) = (now, w1)" by fastforce
  have n: "w_now w + tk_nap t \<le> now" "w_now w1 = now" using c by (auto simp: instant_now_def sleep_def Let_def)
  obtain due nx d2 w2 where p: "pass_daemon sv now (tk_next t) d w1 = Some (due, nx, d2, w2)"
    and e: "t' = \<lparr>tk_next = nx, tk_nap = fst (nap_until (en_clock (sv_daemon sv))
        (case due of Some i \<Rightarrow> min i nx | None \<Rightarrow> nx) w2)\<rparr>"
      "w' = snd (nap_until (en_clock (sv_daemon sv)) (case due of Some i \<Rightarrow> min i nx | None \<Rightarrow> nx) w2)"
    using assms(2) c by (auto simp: ticker_pass_def split_beta Let_def split: option.splits)
  have "nx = deadline_after (sv_interval sv) now (tk_next t)"
    using assms(1) p
    by (auto simp: pass_daemon_def deadline_after_def count_missed_eq split_beta Let_def split: option.splits if_splits)
  moreover have "onward (d, w1) (d2, w2)"
    by (rule forward.pass_daemon_keeps [OF refl _ p]) (auto simp: onward_def)
  then have "now \<le> w_now w2" using n(2) by (auto simp: onward_def extends_def)
  then have "now \<le> w_now w'" unfolding e(2) by (simp add: nap_until_def instant_now_def split_beta Let_def)
  ultimately show ?thesis using that [OF n(1)] e nap_bounds by simp
qed

section \<open>The server returns, and ticks\<close>

definition ticking :: "server \<Rightarrow> bool" where
  "ticking s = (\<not> sr_stopping s \<and> TICK_FLOOR \<le> tk_nap (sr_ticker s) \<and> (case sr_shared s of
     None \<Rightarrow> False | Some d \<Rightarrow> animation_ok (from_millis 80) (dn_display d)))"

definition is_pass :: "server_op \<Rightarrow> bool" where
  "is_pass k = (case k of Pass \<Rightarrow> True | _ \<Rightarrow> False)"

definition is_stop :: "server_op \<Rightarrow> bool" where
  "is_stop k = (case k of Stop \<Rightarrow> True | _ \<Rightarrow> False)"

lemma pass_returns:
  assumes "sv_daemon sv = en\<lparr>en_renderer := kori_renderer rn im\<rparr>" "0 < sv_interval sv"
    "animation_ok (from_millis 80) (dn_display d)"
  shows "ticker_pass sv t (Some d) w \<noteq> None"
proof -
  obtain now w1 where c: "instant_now (en_clock (sv_daemon sv)) (sleep (tk_nap t) w) = (now, w1)" by fastforce
  have "tick_animation now d w1 \<noteq> None"
    using paced_run_returns [OF assms(3), where en = en and rn = rn and im = im and ks = "[OpAnimate now]" and w = w1] by (auto split: option.splits)
  then have "pass_daemon sv now (tk_next t) d w1 \<noteq> None"
    using assms(2) by (auto simp: pass_daemon_def count_missed_eq split_beta Let_def)
  then show ?thesis using c by (auto simp: ticker_pass_def split_beta Let_def)
qed

lemma ticking_step:
  assumes sv: "sv_daemon sv = en\<lparr>en_renderer := kori_renderer rn im\<rparr>" "0 < sv_interval sv"
    and s: "ticking s" and k: "\<not> is_stop k"
  obtains s' w' where "server_step sv k s w = Some (s', w')" "ticking s'" "w_now w \<le> w_now w'"
    "if is_pass k then \<exists>now. w_now w + TICK_FLOOR \<le> now \<and> now \<le> w_now w' \<and>
       tk_next (sr_ticker s') = deadline_after (sv_interval sv) now (tk_next (sr_ticker s))
     else tk_next (sr_ticker s') = tk_next (sr_ticker s)"
proof -
  obtain d where d: "sr_shared s = Some d" "animation_ok (from_millis 80) (dn_display d)"
    using s by (auto simp: ticking_def split: option.splits)
  have "server_step sv k s w \<noteq> None"
    using pass_returns [OF sv d(2), of "sr_ticker s" w] by (cases k) (auto simp: d(1))
  then obtain s' w' where r: "server_step sv k s w = Some (s', w')" by auto
  have p: "shared_in animation_paced (d, w) (sr_shared s', w')"
    by (rule playing.server_step_keeps [OF sv(1) _ r]) (simp add: d(1) shared_in_def animation_paced_def)
  have o: "shared_in onward (d, w) (sr_shared s', w')"
    by (rule forward.server_step_keeps [OF refl _ r]) (auto simp: d(1) shared_in_def onward_def)
  have w: "w_now w \<le> w_now w'" using o by (auto simp: shared_in_def onward_def extends_def split: option.splits)
  have anim: "case sr_shared s' of None \<Rightarrow> False | Some d \<Rightarrow> animation_ok (from_millis 80) (dn_display d)"
    using p d(2) by (auto simp: shared_in_def animation_paced_def split: option.splits)
  show ?thesis
  proof (cases k)
    case Pass
    then obtain t' sh' where t: "ticker_pass sv (sr_ticker s) (Some d) w = Some (t', sh', w')"
      "s' = s\<lparr>sr_ticker := t', sr_shared := sh'\<rparr>"
      using r s d(1) by (auto simp: ticking_def)
    obtain now where "w_now w + tk_nap (sr_ticker s) \<le> now" "now \<le> w_now w'"
      "tk_next t' = deadline_after (sv_interval sv) now (tk_next (sr_ticker s))" "TICK_FLOOR \<le> tk_nap t'"
      using pass_deadline [OF sv(2) t(1)] by blast
    moreover have "TICK_FLOOR \<le> tk_nap (sr_ticker s)" using s by (simp add: ticking_def)
    ultimately show ?thesis
      using that [OF r _ w] s t(2) anim Pass by (force simp: ticking_def is_pass_def)
  next
    case (Accept peer clones input accepts)
    then show ?thesis using that [OF r _ w] r s anim by (auto simp: ticking_def is_pass_def)
  next
    case (Turn i)
    then show ?thesis using that [OF r _ w] r s anim
      by (auto simp: ticking_def is_pass_def split_beta Let_def split: if_splits)
  qed (use k in \<open>simp add: is_stop_def\<close>)
qed

lemma ticking_run:
  assumes sv: "sv_daemon sv = en\<lparr>en_renderer := kori_renderer rn im\<rparr>" "0 < sv_interval sv"
  shows "\<lbrakk>ticking s; list_all (\<lambda>k. \<not> is_stop k) ks\<rbrakk> \<Longrightarrow>
    \<exists>s' w'. run_server sv ks s w = Some (s', w') \<and> ticking s' \<and>
      tk_next (sr_ticker s) \<le> tk_next (sr_ticker s') \<and>
      (tk_next (sr_ticker s') = tk_next (sr_ticker s) \<and> 0 < length (filter is_pass ks) \<longrightarrow>
        w_now w + length (filter is_pass ks) * TICK_FLOOR < tk_next (sr_ticker s))"
proof (induction ks arbitrary: s w)
  case (Cons k ks)
  obtain s1 w1 where k: "server_step sv k s w = Some (s1, w1)" "ticking s1" "w_now w \<le> w_now w1"
    and t: "if is_pass k then \<exists>now. w_now w + TICK_FLOOR \<le> now \<and> now \<le> w_now w1 \<and>
       tk_next (sr_ticker s1) = deadline_after (sv_interval sv) now (tk_next (sr_ticker s))
     else tk_next (sr_ticker s1) = tk_next (sr_ticker s)"
    using ticking_step [OF sv Cons.prems(1), of k w] Cons.prems(2) by auto
  obtain s' w' where r: "run_server sv ks s1 w1 = Some (s', w')" "ticking s'"
    "tk_next (sr_ticker s1) \<le> tk_next (sr_ticker s')"
    "tk_next (sr_ticker s') = tk_next (sr_ticker s1) \<and> 0 < length (filter is_pass ks) \<longrightarrow>
        w_now w1 + length (filter is_pass ks) * TICK_FLOOR < tk_next (sr_ticker s1)"
    using Cons.IH [OF k(2), of w1] Cons.prems(2) by auto
  show ?case
  proof (cases "is_pass k")
    case True
    then obtain now where n: "w_now w + TICK_FLOOR \<le> now" "now \<le> w_now w1"
      "tk_next (sr_ticker s1) = deadline_after (sv_interval sv) now (tk_next (sr_ticker s))"
      using t by auto
    note later = deadline_after_later [OF sv(2), where now = now and nx = "tk_next (sr_ticker s)", folded n(3)]
    have "w_now w + length (filter is_pass (k # ks)) * TICK_FLOOR < tk_next (sr_ticker s)"
      if "tk_next (sr_ticker s') = tk_next (sr_ticker s)"
      using that later r(3,4) n True by (cases "filter is_pass ks = []") auto
    then show ?thesis using k r later by auto
  next
    case False
    then show ?thesis using k r t by auto
  qed
qed simp


section \<open>A client is served only after the handshake\<close>

definition sent_first :: "server_env \<Rightarrow> connection \<Rightarrow> (response \<Rightarrow> bool) \<Rightarrow> bool" where
  "sent_first sv c P = (cn_sent c \<noteq> [] \<and> (\<exists>r. P r \<and> write_frame (sv_encode sv) r = Inr (hd (cn_sent c))))"

definition refusal :: "response \<Rightarrow> bool" where
  "refusal r = (case r of RespError _ \<Rightarrow> True | _ \<Rightarrow> False)"

lemma refusal_error [simp]: "refusal (RespError e)"
  by (simp add: refusal_def)

text \<open>What a connection has sent. A stranger is answered with one refusal or nothing; the owner gets the
  greeting first, or one refusal, and is served only after the greeting.\<close>

definition closing_ok :: "server_env \<Rightarrow> connection \<Rightarrow> bool" where
  "closing_ok sv c = (cn_sent c = [] \<or> length (cn_sent c) = 1 \<and> sent_first sv c refusal \<or>
    is_ok (peer_check sv c) \<and> sent_first sv c is_greeting)"

definition conn_ok :: "server_env \<Rightarrow> connection \<Rightarrow> bool" where
  "conn_ok sv c = (case cn_phase c of
      Incoming \<Rightarrow> cn_sent c = []
    | Greeting \<Rightarrow> is_ok (peer_check sv c) \<and> cn_sent c = []
    | Serving \<Rightarrow> is_ok (peer_check sv c) \<and> sent_first sv c is_greeting
    | Hung \<Rightarrow> closing_ok sv c)"

lemma send_response_fields [simp]:
  "cn_phase (snd (send_response sv r c)) = cn_phase c" "cn_peer (snd (send_response sv r c)) = cn_peer c"
  "cn_input (snd (send_response sv r c)) = cn_input c"
  by (simp_all add: send_response_def split: sum.split)

lemma peer_check_fields [simp]:
  "peer_check sv (c\<lparr>cn_phase := p\<rparr>) = peer_check sv c" "peer_check sv (c\<lparr>cn_input := s\<rparr>) = peer_check sv c"
  "peer_check sv (snd (send_response sv r c)) = peer_check sv c"
  by (simp_all add: peer_check_def)

lemma sent_first_fields [simp]:
  "sent_first sv (c\<lparr>cn_phase := p\<rparr>) P = sent_first sv c P" "sent_first sv (c\<lparr>cn_input := s\<rparr>) P = sent_first sv c P"
  "closing_ok sv (c\<lparr>cn_phase := p\<rparr>) = closing_ok sv c" "closing_ok sv (hang_up c) = closing_ok sv c"
  by (simp_all add: sent_first_def closing_ok_def hang_up_def)

lemma send_response_sent:
  "cn_sent (snd (send_response sv r c)) = cn_sent c \<and> \<not> fst (send_response sv r c) \<or>
   (\<exists>bytes. write_frame (sv_encode sv) r = Inr bytes \<and> cn_sent (snd (send_response sv r c)) = cn_sent c @ [bytes])"
  by (auto simp: send_response_def split: sum.split)

lemma send_first_kept [simp]: "sent_first sv c P \<Longrightarrow> sent_first sv (snd (send_response sv r c)) P"
  using send_response_sent [of sv r c] by (auto simp: sent_first_def)

lemma send_refusal [simp]: "\<lbrakk>cn_sent c = []; refusal r\<rbrakk> \<Longrightarrow> closing_ok sv (snd (send_response sv r c))"
  using send_response_sent [of sv r c] by (auto simp: sent_first_def closing_ok_def)

lemma send_greeting [simp]:
  "\<lbrakk>cn_sent c = []; is_greeting r; is_ok (peer_check sv c)\<rbrakk> \<Longrightarrow> closing_ok sv (snd (send_response sv r c))"
  "\<lbrakk>cn_sent c = []; is_greeting r; fst (send_response sv r c)\<rbrakk> \<Longrightarrow>
    sent_first sv (snd (send_response sv r c)) is_greeting"
  using send_response_sent [of sv r c] by (auto simp: sent_first_def closing_ok_def)

lemma closing_ok_quiet [simp]:
  "cn_sent c = [] \<Longrightarrow> closing_ok sv c"
  "\<lbrakk>sent_first sv c is_greeting; is_ok (peer_check sv c)\<rbrakk> \<Longrightarrow> closing_ok sv c"
  by (simp_all add: closing_ok_def)

lemma send_later [simp]:
  "\<lbrakk>sent_first sv c is_greeting; is_ok (peer_check sv c)\<rbrakk> \<Longrightarrow> closing_ok sv (snd (send_response sv r c))"
  by (simp add: closing_ok_def)

text \<open>A request that is not served, but for the handshake, and a handshake, leave all but the log.\<close>

lemma handle_hello:
  "handle en (ReqHello v) d w = (r, d', w') \<Longrightarrow>
    (is_greeting r \<or> refusal r) \<and> silent w w' \<and> (\<exists>l. d' = d\<lparr>dn_diagnostics := l\<rparr>)"
  using silent_unix
  by (auto simp: handle_def is_greeting_def refusal_def note_event_def split_beta Let_def split: if_splits
      intro: exI [of _ "dn_diagnostics d"])

lemma note_shared_log:
  "\<exists>l. note_shared en k (Some d) w = (Some (d\<lparr>dn_diagnostics := l\<rparr>), snd (note_shared en k (Some d) w)) \<and>
    silent w (snd (note_shared en k (Some d) w))"
  using silent_unix by (auto simp: note_shared_def note_event_def split_beta Let_def)

lemma serve_request_ok:
  assumes "cn_phase c = Greeting \<or> cn_phase c = Serving" "conn_ok sv c"
  shows "conn_ok sv (fst (serve_request sv c sh w))"
proof -
  obtain frame input where f: "read_frame (sv_decode sv) (cn_input c) = (frame, input)" by fastforce
  let ?c = "c\<lparr>cn_input := input\<rparr>"
  show ?thesis
  proof (cases frame)
    case (Inl e)
    then show ?thesis
      using assms by (auto simp: serve_request_def f conn_ok_def hang_up_def split_beta Let_def split: option.split)
  next
    case (Inr q)
    obtain r sh' w' where h: "handle_shared (sv_daemon sv) q sh w = (r, sh', w')" by (cases "handle_shared (sv_daemon sv) q sh w")
    have "is_greeting r \<or> refusal r" if "is_hello q"
      using that h handle_hello [where en = "sv_daemon sv" and w = w]
      by (cases q; cases sh; cases "handle (sv_daemon sv) q (the sh) w") (auto simp: is_hello_def handle_shared_def)
    then show ?thesis
      using assms Inr h by (auto simp: serve_request_def f conn_ok_def hang_up_def split_beta Let_def)
  qed
qed

lemma conn_turn_ok: "conn_ok sv c \<Longrightarrow> conn_ok sv (fst (conn_turn sv c sh w))"
  using serve_request_ok [of c sv sh w]
  by (cases "cn_phase c")
    (auto simp: conn_turn_def open_connection_def reject_def conn_ok_def hang_up_def is_ok_def
      split_beta Let_def split: sum.splits)

lemma conn_ok_new [simp]: "conn_ok sv (connection_new peer clones input accepts)"
  by (simp add: conn_ok_def connection_new_def)

lemma server_conns_ok:
  "list_all (conn_ok sv) (sr_conns s) \<Longrightarrow> run_server sv ks s w = Some (s', w') \<Longrightarrow> list_all (conn_ok sv) (sr_conns s')"
proof (induction ks arbitrary: s w)
  case (Cons k ks)
  then obtain s1 w1 where k: "server_step sv k s w = Some (s1, w1)" "run_server sv ks s1 w1 = Some (s', w')"
    by (auto split: option.splits)
  have "list_all (conn_ok sv) ((sr_conns s)[i := fst (conn_turn sv (sr_conns s ! i) sh v)])"
    if "i < length (sr_conns s)" for i sh v
    using that Cons.prems(1) conn_turn_ok by (auto simp: list_all_length nth_list_update)
  then have "list_all (conn_ok sv) (sr_conns s1)"
    using Cons.prems(1) k(1) by (cases k) (auto simp: split_beta Let_def split: if_splits)
  then show ?case using Cons.IH k(2) by blast
qed simp


section \<open>Every connection whose peer stops is closed\<close>

text \<open>The turns a connection has left, at most.\<close>

definition turns_left :: "connection \<Rightarrow> nat" where
  "turns_left c = (case cn_phase c of
      Hung \<Rightarrow> 0
    | Incoming \<Rightarrow> length (bs_bytes (cn_input c)) + 2
    | _ \<Rightarrow> length (bs_bytes (cn_input c)) + 1)"

lemma read_frame_consumes:
  assumes "read_frame from_slice s = (Inr v, s')"
  shows "length (bs_bytes s') < length (bs_bytes s)"
proof -
  obtain buffer where b: "read_until MAX_FRAME_BYTES s = (Inr buffer, s')" "buffer \<noteq> []"
    using assms by (auto simp: read_frame_def split: prod.splits sum.splits if_splits)
  then show ?thesis using read_until_length [OF b(1)] by (cases buffer) auto
qed

lemma conn_turn_left: "turns_left (fst (conn_turn sv c sh w)) \<le> turns_left c - 1"
proof (cases "cn_phase c = Greeting \<or> cn_phase c = Serving")
  case True
  obtain frame input where f: "read_frame (sv_decode sv) (cn_input c) = (frame, input)" by fastforce
  have "length (bs_bytes input) + 1 \<le> length (bs_bytes (cn_input c))" if "frame = Inr q" for q
    using read_frame_consumes f that by (metis Suc_eq_plus1 Suc_leI)
  then show ?thesis
    using True by (cases frame)
      (auto simp: conn_turn_def serve_request_def f turns_left_def hang_up_def split_beta Let_def)
next
  case False
  then show ?thesis
    by (cases "cn_phase c")
      (auto simp: conn_turn_def open_connection_def reject_def turns_left_def hang_up_def split_beta Let_def
        split: sum.split)
qed

lemma run_turns_left:
  "\<lbrakk>run_server sv ks s w = Some (s', w'); i < length (sr_conns s)\<rbrakk> \<Longrightarrow>
    i < length (sr_conns s') \<and> turns_left (sr_conns s' ! i) \<le> turns_left (sr_conns s ! i) - count_list ks (Turn i)"
proof (induction ks arbitrary: s w)
  case (Cons k ks)
  then obtain s1 w1 where k: "server_step sv k s w = Some (s1, w1)" "run_server sv ks s1 w1 = Some (s', w')"
    by (auto split: option.splits)
  have "i < length (sr_conns s1) \<and>
      turns_left (sr_conns s1 ! i) \<le> turns_left (sr_conns s ! i) - (if k = Turn i then 1 else 0)"
    using Cons.prems(2) k(1) conn_turn_left
    by (cases k) (auto simp: nth_append nth_list_update split_beta Let_def split: if_splits)
  then show ?case using Cons.IH [OF k(2)] by fastforce
qed simp

text \<open>Every client is let go of. A connection whose peer sent finitely many bytes and stopped is
  closed after at most as many turns as there are bytes, and two more, whatever the other clients and
  the ticker do in between: no client holds a thread for ever.\<close>

theorem every_connection_ends:
  "if i < length (sr_conns s) \<and> turns_left (sr_conns s ! i) \<le> count_list ks (Turn i)
   then (case run_server sv ks s w of
       None \<Rightarrow> True | Some (s', w') \<Rightarrow> i < length (sr_conns s') \<and> cn_phase (sr_conns s' ! i) = Hung)
   else True"
  using run_turns_left [of sv ks s w] by (force simp: turns_left_def split: option.split conn_phase.splits)

section \<open>From the start to the last request\<close>

lemma attached_keeps:
  "shared_in same_locks (d, w) (sr_shared (fst (attach sv d v)), snd (attach sv d v))"
  by (simp add: attach_def split_beta Let_def shared_in_def same_locks_def same_holders_def)


end
