(* ===== verification/Client.thy ===== *)
theory Client
  imports Server_Safety
begin

text \<open>
  \<open>crates/core/src/client.rs\<close>: the other end of the socket. A channel is what the kernel gave back for
  the connection: the bytes the daemon will have sent, and what becomes of each frame written. The read
  timeout is an error of the stream, which ends it. The last part puts both ends together: a
  conversation through the codec is the same as calling the daemon.
\<close>

definition response_kind :: "response \<Rightarrow> string" where
  "response_kind r = (case r of
      RespHello _ _ \<Rightarrow> ''hello''
    | RespStatus _ \<Rightarrow> ''status''
    | RespCapabilities _ \<Rightarrow> ''capabilities''
    | RespProfiles _ _ \<Rightarrow> ''profiles''
    | RespActivated _ \<Rightarrow> ''activated''
    | RespSaved _ \<Rightarrow> ''saved''
    | RespDeleted _ _ \<Rightarrow> ''deleted''
    | RespTelemetry _ \<Rightarrow> ''telemetry''
    | RespApplied _ \<Rightarrow> ''applied''
    | RespLit _ \<Rightarrow> ''lit''
    | RespShown _ \<Rightarrow> ''shown''
    | RespDiagnostics _ \<Rightarrow> ''diagnostics''
    | RespError _ \<Rightarrow> ''error'')"

section \<open>Errors\<close>

datatype client_error =
    Unreachable string io_error
  | Disconnected frame_error
  | Refused ipc_error
  | Unexpected string string

definition client_error_display :: "client_error \<Rightarrow> string" where
  "client_error_display e = (case e of
      Unreachable path source \<Rightarrow> ''the daemon is not running, or its socket is not reachable at '' @ path @
        '': '' @ io_display source
    | Disconnected f \<Rightarrow> ''the connection to the daemon was lost: '' @ frame_error_display f
    | Refused i \<Rightarrow> ipc_error_display i
    | Unexpected expected actual \<Rightarrow> ''the daemon answered '' @ actual @ '' where '' @ expected @ '' was expected'')"

definition operator_message :: "client_error \<Rightarrow> string" where
  "operator_message e = (case e of
      Unreachable _ _ \<Rightarrow> ''The background service is not running. Start korid to enable controls.''
    | _ \<Rightarrow> client_error_display e)"

definition client_error_from_write :: "frame_error \<Rightarrow> client_error" where
  "client_error_from_write e = (case e of
      FrameOverflow n \<Rightarrow> Refused (FrameTooLarge n)
    | _ \<Rightarrow> Disconnected e)"

section \<open>A connected client\<close>

record client_codec =
  cc_encode :: "request \<Rightarrow> string + string"
  cc_decode :: "string \<Rightarrow> string + response"

record channel_io =
  io_input :: byte_stream
  io_written :: "string list"
  io_refuses :: "nat \<Rightarrow> string option"

record client =
  cl_io :: channel_io
  cl_daemon_version :: string

definition send_request :: "client_codec \<Rightarrow> request \<Rightarrow> channel_io \<Rightarrow> (client_error + unit) \<times> channel_io" where
  "send_request cc q io = (case write_frame (cc_encode cc) q of
      Inl e \<Rightarrow> (Inl (client_error_from_write e), io)
    | Inr bytes \<Rightarrow>
        (case io_refuses io (length (io_written io)) of
           None \<Rightarrow> Inr ()
         | Some e \<Rightarrow> Inl (client_error_from_write (FrameIo e)),
         io\<lparr>io_written := io_written io @ [bytes]\<rparr>))"

definition receive_response :: "client_codec \<Rightarrow> channel_io \<Rightarrow> (client_error + response) \<times> channel_io" where
  "receive_response cc io = (let (r, s) = read_frame (cc_decode cc) (io_input io)
    in (map_err Disconnected r, io\<lparr>io_input := s\<rparr>))"

definition exchange :: "client_codec \<Rightarrow> request \<Rightarrow> channel_io \<Rightarrow> (client_error + response) \<times> channel_io" where
  "exchange cc q io = (case send_request cc q io of
      (Inl e, io) \<Rightarrow> (Inl e, io)
    | (Inr _, io) \<Rightarrow> receive_response cc io)"

text \<open>What the four system calls of a connection answer: \<open>connect\<close>, the two timeouts, \<open>dup\<close>.\<close>

record connect_env =
  ct_connect :: "io_error + channel_io"
  ct_read_timeout :: "io_error + unit"
  ct_write_timeout :: "io_error + unit"
  ct_clone :: "io_error + unit"

definition client_connect :: "client_codec \<Rightarrow> connect_env \<Rightarrow> string \<Rightarrow> client_error + client" where
  "client_connect cc ct path =
    and_then (map_err (Unreachable path) (ct_connect ct)) (\<lambda>io.
    and_then (map_err (Unreachable path) (ct_read_timeout ct)) (\<lambda>_.
    and_then (map_err (Unreachable path) (ct_write_timeout ct)) (\<lambda>_.
    and_then (map_err (Unreachable path) (ct_clone ct)) (\<lambda>_.
      (case exchange cc (ReqHello PROTOCOL_VERSION) io of
         (Inl e, _) \<Rightarrow> Inl e
       | (Inr r, io) \<Rightarrow> (case r of
           RespHello _ version \<Rightarrow> Inr \<lparr>cl_io = io, cl_daemon_version = version\<rparr>
         | RespError e \<Rightarrow> Inl (Refused e)
         | _ \<Rightarrow> Inl (Unexpected ''hello'' (response_kind r))))))))"

definition client_request :: "client_codec \<Rightarrow> request \<Rightarrow> client \<Rightarrow> (client_error + response) \<times> client" where
  "client_request cc q c = (let (r, io) = exchange cc q (cl_io c) in (r, c\<lparr>cl_io := io\<rparr>))"

definition client_expect :: "client_codec \<Rightarrow> request \<Rightarrow> string \<Rightarrow> (response \<Rightarrow> 'a option) \<Rightarrow> client \<Rightarrow>
    (client_error + 'a) \<times> client" where
  "client_expect cc q expected pick c = (let (r, c) = client_request cc q c in
    (and_then r (\<lambda>answer. case answer of
        RespError e \<Rightarrow> Inl (Refused e)
      | _ \<Rightarrow> (case pick answer of
          Some x \<Rightarrow> Inr x
        | None \<Rightarrow> Inl (Unexpected expected (response_kind answer)))), c))"

definition client_status :: "client_codec \<Rightarrow> client \<Rightarrow> (client_error + daemon_status) \<times> client" where
  "client_status cc = client_expect cc ReqStatus ''status''
    (\<lambda>r. case r of RespStatus s \<Rightarrow> Some s | _ \<Rightarrow> None)"

definition client_capabilities :: "client_codec \<Rightarrow> client \<Rightarrow> (client_error + capability_record) \<times> client" where
  "client_capabilities cc = client_expect cc ReqCapabilities ''capabilities''
    (\<lambda>r. case r of RespCapabilities s \<Rightarrow> Some s | _ \<Rightarrow> None)"

definition client_telemetry :: "client_codec \<Rightarrow> client \<Rightarrow> (client_error + telemetry_snapshot) \<times> client" where
  "client_telemetry cc = client_expect cc ReqTelemetry ''telemetry''
    (\<lambda>r. case r of RespTelemetry s \<Rightarrow> Some s | _ \<Rightarrow> None)"

definition client_apply :: "client_codec \<Rightarrow> cooling_program \<Rightarrow> client \<Rightarrow> (client_error + apply_outcome) \<times> client" where
  "client_apply cc p = client_expect cc (ReqApplyProgram p) ''applied''
    (\<lambda>r. case r of RespApplied s \<Rightarrow> Some s | _ \<Rightarrow> None)"

definition client_apply_lighting :: "client_codec \<Rightarrow> lighting_command \<Rightarrow> client \<Rightarrow>
    (client_error + lighting_outcome) \<times> client" where
  "client_apply_lighting cc k = client_expect cc (ReqApplyLighting k) ''lit''
    (\<lambda>r. case r of RespLit s \<Rightarrow> Some s | _ \<Rightarrow> None)"

definition client_apply_display :: "client_codec \<Rightarrow> display_preset \<Rightarrow> client \<Rightarrow>
    (client_error + display_outcome) \<times> client" where
  "client_apply_display cc p = client_expect cc (ReqApplyDisplay p) ''shown''
    (\<lambda>r. case r of RespShown s \<Rightarrow> Some s | _ \<Rightarrow> None)"

definition client_profiles :: "client_codec \<Rightarrow> client \<Rightarrow> (client_error + string \<times> profile list) \<times> client" where
  "client_profiles cc = client_expect cc ReqProfiles ''profiles''
    (\<lambda>r. case r of RespProfiles active ps \<Rightarrow> Some (active, ps) | _ \<Rightarrow> None)"

section \<open>A conversation\<close>

text \<open>A request encodes, fits the frame and decodes as itself, and so does a response.\<close>

definition travels :: "('a \<Rightarrow> string + string) \<Rightarrow> (string \<Rightarrow> string + 'a) \<Rightarrow> 'a \<Rightarrow> bool" where
  "travels enc dec v = (case enc v of
      Inl _ \<Rightarrow> False
    | Inr b \<Rightarrow> length b < MAX_FRAME_BYTES \<and> NEWLINE \<notin> set b \<and> dec b = Inr v)"

fun handle_all :: "daemon_env \<Rightarrow> request list \<Rightarrow> daemon \<Rightarrow> world \<Rightarrow> response list \<times> daemon \<times> world" where
  "handle_all en [] d w = ([], d, w)"
| "handle_all en (q # qs) d w =
    (let (r, d, w) = handle en q d w; (rs, d, w) = handle_all en qs d w in (r # rs, d, w))"

fun exchange_all :: "client_codec \<Rightarrow> request list \<Rightarrow> channel_io \<Rightarrow> (client_error + response) list \<times> channel_io" where
  "exchange_all cc [] io = ([], io)"
| "exchange_all cc (q # qs) io =
    (let (r, io) = exchange cc q io; (rs, io) = exchange_all cc qs io in (r # rs, io))"

fun turns :: "server_env \<Rightarrow> nat \<Rightarrow> connection \<Rightarrow> daemon option \<Rightarrow> world \<Rightarrow> connection \<times> daemon option \<times> world" where
  "turns sv 0 c sh w = (c, sh, w)"
| "turns sv (Suc n) c sh w = (let (c, sh, w) = conn_turn sv c sh w in turns sv n c sh w)"

definition framed :: "('a \<Rightarrow> string + string) \<Rightarrow> 'a \<Rightarrow> string" where
  "framed enc v = (case enc v of Inr b \<Rightarrow> b @ [NEWLINE] | Inl _ \<Rightarrow> [])"

lemma travels_frame:
  assumes "travels enc dec v"
  shows "write_frame enc v = Inr (framed enc v)"
    "read_frame dec \<lparr>bs_bytes = framed enc v @ rest, bs_error = e\<rparr> = (Inr v, \<lparr>bs_bytes = rest, bs_error = e\<rparr>)"
proof -
  obtain b where b: "enc v = Inr b" "length b < MAX_FRAME_BYTES" "NEWLINE \<notin> set b" "dec b = Inr v"
    using assms by (auto simp: travels_def split: sum.splits)
  show "write_frame enc v = Inr (framed enc v)" using b by (simp add: write_frame_def framed_def)
  have "framed enc v @ rest = b @ NEWLINE # rest" using b(1) by (simp add: framed_def)
  then show "read_frame dec \<lparr>bs_bytes = framed enc v @ rest, bs_error = e\<rparr> = (Inr v, \<lparr>bs_bytes = rest, bs_error = e\<rparr>)"
    using read_until_line [OF b(3,2), of rest e] b(4) by (simp add: read_frame_def)
qed

text \<open>One turn over one request of an open connection.\<close>

lemma turn_served:
  assumes "cn_phase c = Serving \<or> cn_phase c = Greeting \<and> is_hello q \<and> is_greeting (fst (handle (sv_daemon sv) q d w))"
    and "cn_input c = \<lparr>bs_bytes = framed enc q @ rest, bs_error = e\<rparr>" "travels enc (sv_decode sv) q"
    and "travels (sv_encode sv) dec (fst (handle (sv_daemon sv) q d w))" "cn_accepts c = (\<lambda>_. True)"
  shows "conn_turn sv c (Some d) w =
    (case handle (sv_daemon sv) q d w of (r, d', w') \<Rightarrow>
      (c\<lparr>cn_phase := Serving, cn_input := \<lparr>bs_bytes = rest, bs_error = e\<rparr>,
         cn_sent := cn_sent c @ [framed (sv_encode sv) r]\<rparr>, Some d', w'))"
  using assms(1,2,5) travels_frame(2) [OF assms(3)] travels_frame(1) [OF assms(4)]
  by (auto simp: conn_turn_def serve_request_def handle_shared_def send_response_def split_beta Let_def)

lemma turns_served:
  assumes "cn_phase c = Serving" "cn_input c = \<lparr>bs_bytes = concat (map (framed enc) qs) @ rest, bs_error = e\<rparr>"
    "list_all (travels enc (sv_decode sv)) qs" "list_all (travels (sv_encode sv) dec) (fst (handle_all (sv_daemon sv) qs d w))"
    "cn_accepts c = (\<lambda>_. True)"
  shows "turns sv (length qs) c (Some d) w =
    (case handle_all (sv_daemon sv) qs d w of (rs, d', w') \<Rightarrow>
      (c\<lparr>cn_input := \<lparr>bs_bytes = rest, bs_error = e\<rparr>,
         cn_sent := cn_sent c @ map (framed (sv_encode sv)) rs\<rparr>, Some d', w'))"
  using assms
proof (induction qs arbitrary: c d w)
  case (Cons q qs)
  obtain r d1 w1 where h: "handle (sv_daemon sv) q d w = (r, d1, w1)" by (cases "handle (sv_daemon sv) q d w")
  obtain rs d2 w2 where hs: "handle_all (sv_daemon sv) qs d1 w1 = (rs, d2, w2)" by (cases "handle_all (sv_daemon sv) qs d1 w1")
  let ?c = "c\<lparr>cn_phase := Serving, cn_input := \<lparr>bs_bytes = concat (map (framed enc) qs) @ rest, bs_error = e\<rparr>,
     cn_sent := cn_sent c @ [framed (sv_encode sv) r]\<rparr>"
  have "conn_turn sv c (Some d) w = (?c, Some d1, w1)"
    using turn_served [where c = c and q = q and enc = enc and dec = dec and sv = sv and d = d and w = w and e = e
        and rest = "concat (map (framed enc) qs) @ rest"] Cons.prems h hs
    by simp
  moreover have "turns sv (length qs) ?c (Some d1) w1 =
      (?c\<lparr>cn_input := \<lparr>bs_bytes = rest, bs_error = e\<rparr>,
         cn_sent := cn_sent ?c @ map (framed (sv_encode sv)) rs\<rparr>, Some d2, w2)"
    using Cons.IH [of ?c d1 w1] Cons.prems h hs by simp
  ultimately show ?case using h hs Cons.prems(1) by simp
qed simp

text \<open>The client over a channel that holds the answers.\<close>

lemma exchange_all_frames:
  assumes "io_input io = \<lparr>bs_bytes = concat (map (framed enc) rs) @ rest, bs_error = e\<rparr>"
    "list_all (travels enc (cc_decode cc)) rs" "list_all (travels (cc_encode cc) dec) qs" "length rs = length qs"
    "io_refuses io = (\<lambda>_. None)"
  shows "exchange_all cc qs io = (map Inr rs, io\<lparr>io_input := \<lparr>bs_bytes = rest, bs_error = e\<rparr>,
    io_written := io_written io @ map (framed (cc_encode cc)) qs\<rparr>)"
  using assms
proof (induction qs arbitrary: rs io)
  case (Cons q qs)
  then obtain r rs' where rs: "rs = r # rs'" by (cases rs) auto
  let ?io = "io\<lparr>io_input := \<lparr>bs_bytes = concat (map (framed enc) rs') @ rest, bs_error = e\<rparr>,
    io_written := io_written io @ [framed (cc_encode cc) q]\<rparr>"
  have "exchange cc q io = (Inr r, ?io)"
    using Cons.prems travels_frame(1) [of "cc_encode cc" dec q]
      travels_frame(2) [of enc "cc_decode cc" r "concat (map (framed enc) rs') @ rest" e]
    by (simp add: exchange_def send_request_def receive_response_def rs)
  moreover have "exchange_all cc qs ?io = (map Inr rs', ?io\<lparr>io_input := \<lparr>bs_bytes = rest, bs_error = e\<rparr>,
      io_written := io_written ?io @ map (framed (cc_encode cc)) qs\<rparr>)"
    using Cons.IH [of ?io rs'] Cons.prems by (simp add: rs)
  ultimately show ?case by (simp add: rs)
qed simp

lemma handle_hello_answer:
  "handle en (ReqHello PROTOCOL_VERSION) d w = (RespHello PROTOCOL_VERSION (en_version en), d, w)"
  by (simp add: handle_def)

text \<open>C6: A conversation over the socket is the daemon itself. When the codec carries the requests and
  the answers, the owner's client that greets and asks \<open>qs\<close> reads exactly what the daemon answers when it
  is called with these requests directly, one answer for each request and in their order, and the
  daemon is left as those calls leave it; the bytes the client wrote are the bytes the server read.\<close>

theorem conversation_is_direct:
  assumes "list_all (travels (cc_encode cc) (sv_decode sv)) (ReqHello PROTOCOL_VERSION # qs)"
    and "note_event (sv_daemon sv) (ClientAccepted (sv_uid sv) pid) d w = (d1, w1)"
    and "handle_all (sv_daemon sv) qs d1 w1 = (rs, d', w')"
    and "list_all (travels (sv_encode sv) (cc_decode cc)) (RespHello PROTOCOL_VERSION (en_version (sv_daemon sv)) # rs)"
    and "c = connection_new (Inr (sv_uid sv, pid)) True
      \<lparr>bs_bytes = concat (map (framed (cc_encode cc)) (ReqHello PROTOCOL_VERSION # qs)), bs_error = None\<rparr> (\<lambda>_. True)"
    and "turns sv (2 + length qs) c (Some d) w = (c', sh, w'')"
    and "io = \<lparr>io_input = \<lparr>bs_bytes = concat (cn_sent c'), bs_error = None\<rparr>, io_written = [], io_refuses = (\<lambda>_. None)\<rparr>"
  shows "fst (exchange_all cc (ReqHello PROTOCOL_VERSION # qs) io) =
      map Inr (RespHello PROTOCOL_VERSION (en_version (sv_daemon sv)) # rs) \<and>
    concat (io_written (snd (exchange_all cc (ReqHello PROTOCOL_VERSION # qs) io))) = bs_bytes (cn_input c) \<and>
    sh = Some d' \<and> w'' = w'"
proof -
  let ?h = "ReqHello PROTOCOL_VERSION" and ?g = "RespHello PROTOCOL_VERSION (en_version (sv_daemon sv))"
  let ?c = "c\<lparr>cn_phase := Greeting\<rparr>"
  have o: "conn_turn sv c (Some d) w = (?c, Some d1, w1)"
    using assms(2,5) by (simp add: conn_turn_def open_connection_def peer_check_def connection_new_def note_shared_def)
  let ?s = "?c\<lparr>cn_phase := Serving,
    cn_input := \<lparr>bs_bytes = concat (map (framed (cc_encode cc)) qs) @ [], bs_error = None\<rparr>,
    cn_sent := cn_sent ?c @ [framed (sv_encode sv) ?g]\<rparr>"
  have "conn_turn sv ?c (Some d1) w1 = (?s, Some d1, w1)"
    using turn_served [where c = ?c and q = ?h and enc = "cc_encode cc" and dec = "cc_decode cc" and sv = sv and d = d1
        and w = w1 and e = None and rest = "concat (map (framed (cc_encode cc)) qs) @ []"] assms(1,4,5)
    by (simp add: handle_hello_answer is_hello_def is_greeting_def connection_new_def)
  moreover have "turns sv (length qs) ?s (Some d1) w1 =
      (?s\<lparr>cn_input := \<lparr>bs_bytes = [], bs_error = None\<rparr>,
         cn_sent := cn_sent ?s @ map (framed (sv_encode sv)) rs\<rparr>, Some d', w')"
    using turns_served [where c = ?s and enc = "cc_encode cc" and qs = qs and rest = "[]" and e = None and sv = sv
        and dec = "cc_decode cc" and d = d1 and w = w1] assms(1,3,4,5)
    by (simp add: connection_new_def)
  ultimately have "cn_sent c' = map (framed (sv_encode sv)) (?g # rs)" "sh = Some d'" "w'' = w'"
    using assms(5,6) o by (auto simp: connection_new_def)
  moreover have "length rs = length qs" using assms(3)
    by (induction qs arbitrary: d1 w1 rs) (auto simp: split_beta Let_def prod_eq_iff)
  ultimately show ?thesis
    using exchange_all_frames [where io = io and enc = "sv_encode sv" and rs = "?g # rs" and rest = "[]" and e = None
        and cc = cc and dec = "sv_decode sv" and qs = "?h # qs"] assms(1,4,5,7)
    by (simp add: connection_new_def)
qed

text \<open>A codec that knows the greeting and nothing else.\<close>

definition greeting_codec :: client_codec where
  "greeting_codec = \<lparr>cc_encode = (\<lambda>q. if q = ReqHello 9 then Inr ''hello'' else Inl ''no''),
    cc_decode = (\<lambda>s. if s = ''9'' then Inr (RespHello 9 ''1'') else Inl ''no'')\<rparr>"

definition greeting_server :: "daemon_env \<Rightarrow> server_env" where
  "greeting_server en = \<lparr>sv_daemon = en\<lparr>en_version := ''1''\<rparr>, sv_uid = 1000,
    sv_encode = (\<lambda>r. if r = RespHello 9 ''1'' then Inr ''9'' else Inl ''no''),
    sv_decode = (\<lambda>s. if s = ''hello'' then Inr (ReqHello 9) else Inl ''no''), sv_interval = 1\<rparr>"

theorem conversation_is_direct_witness:
  "\<forall>en d w. fst (exchange_all greeting_codec [ReqHello 9]
     \<lparr>io_input = \<lparr>bs_bytes = concat (cn_sent (fst (turns (greeting_server en) 2
        (connection_new (Inr (1000, 7)) True \<lparr>bs_bytes = ''hello'' @ [NEWLINE], bs_error = None\<rparr> (\<lambda>_. True)) (Some d) w))),
        bs_error = None\<rparr>, io_written = [], io_refuses = (\<lambda>_. None)\<rparr>) = [Inr (RespHello 9 ''1'')]"
proof (intro allI)
  fix en d w
  let ?sv = "greeting_server en"
  let ?c = "connection_new (Inr (1000, 7)) True \<lparr>bs_bytes = ''hello'' @ [NEWLINE], bs_error = None\<rparr> (\<lambda>_. True)"
  obtain d1 w1 where n: "note_event (sv_daemon ?sv) (ClientAccepted 1000 7) d w = (d1, w1)" by fastforce
  obtain c' sh w'' where t: "turns ?sv (2 + length ([] :: request list)) ?c (Some d) w = (c', sh, w'')"
    by (cases "turns ?sv (2 + length ([] :: request list)) ?c (Some d) w")
  have "fst (exchange_all greeting_codec (ReqHello PROTOCOL_VERSION # [])
      \<lparr>io_input = \<lparr>bs_bytes = concat (cn_sent c'), bs_error = None\<rparr>, io_written = [], io_refuses = (\<lambda>_. None)\<rparr>) =
    map Inr (RespHello PROTOCOL_VERSION (en_version (sv_daemon ?sv)) # [])"
    by (rule conversation_is_direct [where sv = ?sv and qs = "[]" and rs = "[]" and d = d and w = w and d' = d1 and w' = w1
          and pid = 7 and c = ?c, THEN conjunct1, OF _ _ _ _ _ t refl])
      (use n in \<open>simp_all add: travels_def greeting_codec_def greeting_server_def PROTOCOL_VERSION_def framed_def
        MAX_FRAME_BYTES_def NEWLINE_def connection_new_def\<close>)
  then show "fst (exchange_all greeting_codec [ReqHello 9]
     \<lparr>io_input = \<lparr>bs_bytes = concat (cn_sent (fst (turns ?sv 2 ?c (Some d) w))),
        bs_error = None\<rparr>, io_written = [], io_refuses = (\<lambda>_. None)\<rparr>) = [Inr (RespHello 9 ''1'')]"
    using t by (simp add: PROTOCOL_VERSION_def greeting_server_def)
qed

end
