(* ===== verification/Link.thy ===== *)
theory Link
  imports Client Metric_View
begin

text \<open>
  \<open>crates/app/src/link/mod.rs\<close> and \<open>link/gate.rs\<close>: what the window knows of the daemon, and which controls
  it enables on that evidence. The last lemmas compare the gates of the window with those of the daemon.
\<close>

section \<open>The link\<close>

text \<open>\<open>ControlState\<close> and \<open>DeviceHealth\<close> of \<open>components\<close>.\<close>

datatype control_state = ControlEnabled | ControlDisabled string | ControlError string

definition control_message :: "control_state \<Rightarrow> string option" where
  "control_message c = (case c of
      ControlEnabled \<Rightarrow> None
    | ControlDisabled reason \<Rightarrow> Some reason
    | ControlError message \<Rightarrow> Some message)"

datatype device_health = HealthReady | HealthReadOnly | HealthUnavailable

definition health_label :: "device_health \<Rightarrow> string" where
  "health_label h = (case h of
      HealthReady \<Rightarrow> ''Ready'' | HealthReadOnly \<Rightarrow> ''Read-only'' | HealthUnavailable \<Rightarrow> ''Unavailable'')"

datatype link_state =
    LinkConnected daemon_status capability_record "profile list" "telemetry_snapshot option"
  | LinkUnavailable string

definition link_connecting :: link_state where
  "link_connecting = LinkUnavailable ''Connecting to the background service...''"

definition link_status :: "link_state \<Rightarrow> daemon_status option" where
  "link_status l = (case l of LinkConnected s _ _ _ \<Rightarrow> Some s | LinkUnavailable _ \<Rightarrow> None)"

definition link_capabilities :: "link_state \<Rightarrow> capability_record option" where
  "link_capabilities l = (case l of LinkConnected _ c _ _ \<Rightarrow> Some c | LinkUnavailable _ \<Rightarrow> None)"

definition link_profiles :: "link_state \<Rightarrow> profile list" where
  "link_profiles l = (case l of LinkConnected _ _ p _ \<Rightarrow> p | LinkUnavailable _ \<Rightarrow> [])"

definition link_telemetry :: "link_state \<Rightarrow> telemetry_snapshot option" where
  "link_telemetry l = (case l of LinkConnected _ _ _ t \<Rightarrow> t | LinkUnavailable _ \<Rightarrow> None)"

definition link_alerts :: "link_state \<Rightarrow> safety_alert list" where
  "link_alerts l = (case link_telemetry l of Some s \<Rightarrow> ts_alerts s | None \<Rightarrow> [])"

definition failed_collectors :: "link_state \<Rightarrow> collector_failure list" where
  "failed_collectors l = (case link_telemetry l of Some s \<Rightarrow> ts_failed s | None \<Rightarrow> [])"

definition collector_failure_of :: "link_state \<Rightarrow> collector \<Rightarrow> collector_failure option" where
  "collector_failure_of l c = find (\<lambda>f. cf_collector f = c) (failed_collectors l)"

definition link_lighting_channels :: "link_state \<Rightarrow> lighting_channel_state list" where
  "link_lighting_channels l = (case link_status l of Some s \<Rightarrow> dm_lighting s | None \<Rightarrow> [])"

definition link_active_profile :: "link_state \<Rightarrow> string option" where
  "link_active_profile l = map_option dm_active_profile (link_status l)"

definition link_device :: "link_state \<Rightarrow> device_id \<Rightarrow> device_record option" where
  "link_device l i = Option.bind (link_capabilities l) (\<lambda>r. record_device r i)"

definition kraken_age_ms :: "link_state \<Rightarrow> u64 \<Rightarrow> u64 option" where
  "kraken_age_ms l now = map_option (\<lambda>s. saturating_sub now (kt_at_unix_ms (ts_kraken s))) (link_telemetry l)"

definition conflict_detail :: "ownership_conflict list \<Rightarrow> string" where
  "conflict_detail conflicts = join '' '' (map oc_detail conflicts)"

definition link_banner :: "link_state \<Rightarrow> string option" where
  "link_banner l = (case l of
      LinkUnavailable message \<Rightarrow> Some message
    | LinkConnected s _ _ _ \<Rightarrow> (case recovery_message (dm_config s) of
        Some message \<Rightarrow> Some message
      | None \<Rightarrow> (case dm_access s of
          ReadWrite \<Rightarrow> None
        | AccessReadOnly conflicts \<Rightarrow> Some (''Controls are read-only. '' @ conflict_detail conflicts))))"

definition channel_alerts :: "link_state \<Rightarrow> channel \<Rightarrow> safety_alert list" where
  "channel_alerts l ch = filter (\<lambda>a. case alert_channel a of None \<Rightarrow> True | Some c \<Rightarrow> c = ch) (link_alerts l)"

record device_summary =
  sum_id :: device_id
  sum_name :: string
  sum_firmware :: "string option"
  sum_driver :: string
  sum_health :: device_health

definition device_row :: "daemon_status \<Rightarrow> device_record \<Rightarrow> device_summary" where
  "device_row s v =
    (let reported = find (\<lambda>d. ds_id d = device_id_of v) (dm_devices s);
         owned = (case reported of None \<Rightarrow> False | Some d \<Rightarrow> ds_owned d);
         writable = (case reported of None \<Rightarrow> False | Some d \<Rightarrow> ds_writable d \<noteq> [])
     in \<lparr>sum_id = device_id_of v,
         sum_name = (case ev_value (usb_product (dr_usb v)) of Some n \<Rightarrow> n | None \<Rightarrow> ''Unnamed device''),
         sum_firmware = ev_value (usb_firmware (dr_usb v)),
         sum_driver = (case dr_hwmon v of Some h \<Rightarrow> hw_driver h | None \<Rightarrow> ''no kernel driver''),
         sum_health = (if \<not> owned then HealthUnavailable else if writable then HealthReady else HealthReadOnly)\<rparr>)"

definition device_rows :: "link_state \<Rightarrow> device_summary list" where
  "device_rows l = (case l of
      LinkConnected s r _ _ \<Rightarrow> map (device_row s) (record_supported r)
    | LinkUnavailable _ \<Rightarrow> [])"

text \<open>The separator is U+00B7.\<close>

definition META_SEPARATOR :: string where "META_SEPARATOR = map char_of [0xC2, 0xB7 :: nat]"

definition summary_detail :: "device_summary \<Rightarrow> string" where
  "summary_detail d =
    (case sum_firmware d of Some f \<Rightarrow> ''Firmware '' @ f | None \<Rightarrow> ''Firmware unknown'') @
    '' '' @ META_SEPARATOR @ '' '' @ sum_driver d"

section \<open>Which controls are enabled\<close>

definition NOT_RUNNING :: string where
  "NOT_RUNNING = ''The background service is not running, so no control can be applied.''"

definition write_state :: "link_state \<Rightarrow> control_state" where
  "write_state l = (case l of
      LinkUnavailable _ \<Rightarrow> ControlDisabled NOT_RUNNING
    | LinkConnected s r _ _ \<Rightarrow> (case dm_access s of
        AccessReadOnly conflicts \<Rightarrow> ControlDisabled (conflict_detail conflicts)
      | ReadWrite \<Rightarrow>
          if record_supported r = [] then ControlDisabled ''No supported NZXT device detected.''
          else ControlEnabled))"

definition conflict_over :: "device_id \<Rightarrow> ownership_conflict \<Rightarrow> bool" where
  "conflict_over i c = (case oc_device c of None \<Rightarrow> True | Some d \<Rightarrow> d = i)"

definition control_state_for :: "link_state \<Rightarrow> device_id \<Rightarrow> capability_id \<Rightarrow> control_state" where
  "control_state_for l i k = (case link_status l of
      None \<Rightarrow> ControlDisabled NOT_RUNNING
    | Some s \<Rightarrow> (case link_device l i of
        None \<Rightarrow> ControlDisabled (device_id_display i @ '' is not connected.'')
      | Some v \<Rightarrow> (case capability_of v k of
          None \<Rightarrow> ControlDisabled (capability_label k @ '' is absent from the capability record for '' @
            device_id_display i @ ''.'')
        | Some c \<Rightarrow> (case blocked_reason (cap_state c) of
            Some reason \<Rightarrow> ControlDisabled reason
          | None \<Rightarrow> (case dm_access s of
              ReadWrite \<Rightarrow> ControlEnabled
            | AccessReadOnly conflicts \<Rightarrow> (case find (conflict_over i) conflicts of
                Some c \<Rightarrow> ControlDisabled (oc_detail c)
              | None \<Rightarrow> ControlEnabled))))))"

text \<open>\<open>{:.1}\<close>: one decimal, the tie to the even digit.\<close>

definition show_tenths :: "f32 \<Rightarrow> string" where
  "show_tenths a = (case a of
      F32_NaN \<Rightarrow> ''NaN''
    | F32_Inf s \<Rightarrow> if s then ''-inf'' else ''inf''
    | F32 x \<Rightarrow>
        (let t = \<bar>x\<bar> * 10; n = \<lfloor>t\<rfloor>; r = t - of_int n;
             n = nat (if 1 / 2 < r \<or> r = 1 / 2 \<and> odd n then n + 1 else n)
         in (if x < 0 then ''-'' else []) @ show_nat (n div 10) @ ''.'' @ show_nat (n mod 10)))"

definition cooling_state :: "link_state \<Rightarrow> device_id \<Rightarrow> capability_id \<Rightarrow> u64 \<Rightarrow> control_state" where
  "cooling_state l i k now =
    (let base = control_state_for l i k in
     if base \<noteq> ControlEnabled then base
     else (case link_telemetry l of
         None \<Rightarrow> ControlDisabled ''No telemetry has arrived yet, so no write can be checked against a readback.''
       | Some s \<Rightarrow>
           if \<not> kt_present (ts_kraken s) then ControlDisabled
             (''The Kraken is not reporting through its kernel driver. Controls stay read-only '' @ ''until it does.'')
           else (let age = saturating_sub now (kt_at_unix_ms (ts_kraken s)) in
             if STALE_AFTER_MS \<le> age then ControlDisabled (''Cooling telemetry is '' @
               show_tenths (f32_div (f32_of_int (uint age)) (F32 1000)) @
               '' s old. Controls stay read-only until a fresh reading '' @ ''confirms the hardware state.'')
             else ControlEnabled)))"

definition program_state :: "link_state \<Rightarrow> device_id \<Rightarrow> capability_id list \<Rightarrow> u64 \<Rightarrow> control_state" where
  "program_state l i required now =
    (if link_status l = None then ControlDisabled NOT_RUNNING
     else (case find (\<lambda>c. c \<noteq> ControlEnabled) (map (\<lambda>k. cooling_state l i k now) required) of
         Some c \<Rightarrow> c | None \<Rightarrow> ControlEnabled))"

section \<open>The gates of the window and those of the daemon\<close>

text \<open>What the window holds when it has just polled a daemon.\<close>

definition link_of :: "daemon_env \<Rightarrow> daemon \<Rightarrow> profile list \<Rightarrow> telemetry_snapshot option \<Rightarrow> link_state" where
  "link_of en d profiles t = LinkConnected (status en d) (dn_capabilities d) profiles t"

lemma control_enabled_iff:
  "control_state_for (link_of en d ps t) i k = ControlEnabled \<longleftrightarrow>
    (\<exists>v c. record_device (dn_capabilities d) i = Some v \<and> capability_of v k = Some c \<and> is_writable (cap_state c)) \<and>
    (case daemon_access_mode d of ReadWrite \<Rightarrow> True | AccessReadOnly cs \<Rightarrow> find (conflict_over i) cs = None)"
  by (auto simp: control_state_for_def link_of_def link_status_def link_device_def link_capabilities_def status_def
      blocked_reason_None_iff split: option.split access_mode.split)
   (metis blocked_reason_None_iff option.distinct(1))+

lemma program_enabled_iff:
  "program_state l i ks now = ControlEnabled \<longleftrightarrow>
    link_status l \<noteq> None \<and> list_all (\<lambda>k. cooling_state l i k now = ControlEnabled) ks"
  by (auto simp: program_state_def find_None_iff list_all_iff split: option.split dest: find_Some_in)

lemma cooling_enabled_iff:
  "cooling_state l i k now = ControlEnabled \<longleftrightarrow> control_state_for l i k = ControlEnabled \<and>
    (case link_telemetry l of None \<Rightarrow> False
     | Some s \<Rightarrow> kt_present (ts_kraken s) \<and> saturating_sub now (kt_at_unix_ms (ts_kraken s)) < STALE_AFTER_MS)"
  by (auto simp: cooling_state_def Let_def split: option.split)

lemma execute_gates_cases:
  assumes "record_device (dn_capabilities d) KRAKEN_BASE = Some v" "is_supported v"
    "program_incompatibilities p v = []"
  shows "execute_gates p d = require_write_access d"
  using assms by (simp add: execute_gates_def supported_device_def)

text \<open>C7: A program the window enables is one the daemon executes, but for one case. With the record and
  the status of a daemon that lists only supported devices, an enabled program that commands anything
  passes every gate of the daemon, unless the conflict is about another device: the window then leaves
  the control enabled, and the daemon, which is read-only as a whole, refuses the write.\<close>

theorem enabled_program_is_accepted:
  "if program_state (link_of en d ps t) KRAKEN_BASE (required_capabilities p) now = ControlEnabled \<and>
      p \<noteq> Onboard \<and> list_all is_supported (cr_devices (dn_capabilities d))
   then (if list_all (conflict_over KRAKEN_BASE) (dn_conflicts d)
         then execute_gates p d = Inr () \<and> dn_conflicts d = []
         else execute_gates p d = Inl (ReadOnlyRefused (read_only_text (Held (dn_conflicts d)))))
   else True"
proof (cases "program_state (link_of en d ps t) KRAKEN_BASE (required_capabilities p) now = ControlEnabled \<and>
    p \<noteq> Onboard \<and> list_all is_supported (cr_devices (dn_capabilities d))")
  case True
  then have ks: "control_state_for (link_of en d ps t) KRAKEN_BASE k = ControlEnabled" if "k \<in> set (required_capabilities p)" for k
    using that by (auto simp: program_enabled_iff cooling_enabled_iff list_all_iff)
  obtain k0 where k0: "k0 \<in> set (required_capabilities p)"
    using True by (cases p) (auto simp: required_capabilities_def)
  obtain v c where v: "record_device (dn_capabilities d) KRAKEN_BASE = Some v" "capability_of v k0 = Some c"
    "is_writable (cap_state c)" and acc: "case daemon_access_mode d of ReadWrite \<Rightarrow> True
      | AccessReadOnly cs \<Rightarrow> find (conflict_over KRAKEN_BASE) cs = None"
    using ks [OF k0] by (auto simp: control_enabled_iff)
  have mem: "v \<in> set (cr_devices (dn_capabilities d))" using v(1) by (auto simp: record_device_def dest: find_Some_in)
  then have sup: "is_supported v" using True by (auto simp: list_all_iff)
  have "capability_incompatibility v k = []" if "k \<in> set (required_capabilities p)" for k
    using ks [OF that] v(1) by (auto simp: capability_incompatibility_def control_enabled_iff)
  then have "program_incompatibilities p v = []" by (simp add: program_incompatibilities_def)
  then have g: "execute_gates p d = require_write_access d" using execute_gates_cases [OF v(1) sup] by simp
  have "has_writable_capability d"
    using mem sup v(2,3) by (auto simp: has_writable_capability_def record_supported_def capability_of_def list_ex_iff
        dest!: find_Some_in)
  then have "daemon_read_only d = (if dn_conflicts d = [] then None else Some (Held (dn_conflicts d)))"
    by (simp add: daemon_read_only_def)
  then show ?thesis
    using True g acc
    by (auto simp: require_write_access_def read_only_reason_def daemon_access_mode_def into_conflicts_def find_None_iff
        list_all_iff neq_Nil_conv split: if_splits)
qed auto

text \<open>The exception happens: with fresh telemetry and a writable cooler, a holder of another device leaves
  the cooling controls enabled while the daemon refuses the write.\<close>

lemma foreign_conflict_left_enabled:
  assumes "record_device (dn_capabilities d) KRAKEN_BASE = Some v" "is_supported v"
    and "program_incompatibilities p v = []"
    and "kt_present (ts_kraken s)" "saturating_sub now (kt_at_unix_ms (ts_kraken s)) < STALE_AFTER_MS"
    and "dn_conflicts d = [c]" "oc_device c = Some i" "i \<noteq> KRAKEN_BASE"
  shows "program_state (link_of en d ps (Some s)) KRAKEN_BASE (required_capabilities p) now = ControlEnabled \<and>
    execute_gates p d = Inl (ReadOnlyRefused (oc_detail c))"
proof -
  have "\<exists>e. capability_of v k = Some e \<and> is_writable (cap_state e)" if "k \<in> set (required_capabilities p)" for k
  proof -
    have "capability_incompatibility v k = []" using that assms(3) by (auto simp: program_incompatibilities_def)
    then show ?thesis by (auto simp: capability_incompatibility_def split: option.splits if_splits)
  qed
  then have "control_state_for (link_of en d ps (Some s)) KRAKEN_BASE k = ControlEnabled"
    if "k \<in> set (required_capabilities p)" for k
    using that assms(1,6,7,8)
    by (auto simp: control_enabled_iff daemon_access_mode_def daemon_read_only_def into_conflicts_def conflict_over_def)
  then have "program_state (link_of en d ps (Some s)) KRAKEN_BASE (required_capabilities p) now = ControlEnabled"
    using assms(4,5) by (auto simp: program_enabled_iff cooling_enabled_iff list_all_iff link_of_def link_status_def
        link_telemetry_def)
  then show ?thesis
    using execute_gates_cases [OF assms(1-3)] assms(6)
    by (simp add: require_write_access_def read_only_reason_def daemon_read_only_def read_only_text_def
        into_conflicts_def)
qed

end
