(* ===== verification/Feed.thy ===== *)
theory Feed
  imports Link "HOL-Library.Sublist"
begin

text \<open>
  \<open>crates/app/src/feed.rs\<close>: the worker that owns the window's one connection. A cycle connects when there
  is no session, runs the commands that are there, refreshes the profiles when one of them touched
  them, polls, publishes, and waits on the queue for the rest of the interval. The queue of a cycle is
  what \<open>try_recv\<close> gives until it is empty; the wait is told what each slice of it received.
\<close>

section \<open>Commands and what they report\<close>

datatype feed_command =
    FeedApply cooling_program
  | FeedApplyLighting lighting_command
  | FeedApplyDisplay display_preset
  | FeedSaveProfile profile
  | FeedActivateProfile string
  | FeedDeleteProfile string

definition touches_profiles :: "feed_command \<Rightarrow> bool" where
  "touches_profiles k = (case k of
      FeedSaveProfile _ \<Rightarrow> True | FeedActivateProfile _ \<Rightarrow> True | FeedDeleteProfile _ \<Rightarrow> True | _ \<Rightarrow> False)"

datatype command_subject = SubjectCooling | SubjectLighting u8 | SubjectPanel | SubjectProfiles

definition command_subject_of :: "feed_command \<Rightarrow> command_subject" where
  "command_subject_of k = (case k of
      FeedApply _ \<Rightarrow> SubjectCooling
    | FeedApplyLighting c \<Rightarrow> SubjectLighting (lc_channel c)
    | FeedApplyDisplay _ \<Rightarrow> SubjectPanel
    | _ \<Rightarrow> SubjectProfiles)"

definition subject_device :: "command_subject \<Rightarrow> string option" where
  "subject_device s = (case s of
      SubjectLighting ch \<Rightarrow> Some (''Channel '' @ show_u8 ch)
    | SubjectPanel \<Rightarrow> Some ''Panel''
    | _ \<Rightarrow> None)"

definition subject_is_cooling :: "command_subject \<Rightarrow> bool" where
  "subject_is_cooling s = (case s of SubjectCooling \<Rightarrow> True | SubjectProfiles \<Rightarrow> True | _ \<Rightarrow> False)"

definition subject_is_appearance :: "command_subject \<Rightarrow> bool" where
  "subject_is_appearance s = (case s of SubjectLighting _ \<Rightarrow> True | SubjectPanel \<Rightarrow> True | _ \<Rightarrow> False)"

datatype outcome_severity = OutcomeConfirmed | OutcomeUnconfirmed | OutcomeRefused

definition outcome_severity_of :: "hardware_state \<Rightarrow> outcome_severity" where
  "outcome_severity_of h = (case h of
      HwConfirmed \<Rightarrow> OutcomeConfirmed
    | HwOnboard \<Rightarrow> OutcomeConfirmed
    | HwUncertain _ \<Rightarrow> OutcomeUnconfirmed
    | HwNotApplied _ \<Rightarrow> OutcomeRefused)"

record feed_report =
  fr_message :: string
  fr_severity :: outcome_severity

definition report_refused :: "string \<Rightarrow> feed_report" where
  "report_refused m = \<lparr>fr_message = m, fr_severity = OutcomeRefused\<rparr>"

definition report_confirmed :: "string \<Rightarrow> feed_report" where
  "report_confirmed m = \<lparr>fr_message = m, fr_severity = OutcomeConfirmed\<rparr>"

definition report_from_hardware :: "hardware_state \<Rightarrow> string \<Rightarrow> feed_report" where
  "report_from_hardware h m = \<lparr>fr_message = m, fr_severity = outcome_severity_of h\<rparr>"

definition report_from_display :: "display_outcome \<Rightarrow> feed_report" where
  "report_from_display o1 = report_from_hardware (do_hardware o1) (case do_hardware o1 of
      HwConfirmed \<Rightarrow>
        if do_deduplicated o1 \<and> do_brightness_sent o1
        then ''Brightness set to '' @ show_u8 (percent (dp_brightness (do_preset o1))) @
          ''%. The picture was already correct, so no frame was sent.''
        else if do_deduplicated o1 then ''Already showing this. Nothing was sent.''
        else ''Set to '' @ mode_label (dp_mode (do_preset o1)) @
          ''. The transfer completed; the panel reports no picture to read back.''
    | HwOnboard \<Rightarrow> ''Keeping its own picture. Nothing was sent.''
    | HwNotApplied reason \<Rightarrow> reason
    | HwUncertain reason \<Rightarrow> ''Uncertain: '' @ reason)"

definition report_from_lighting :: "lighting_outcome \<Rightarrow> feed_report" where
  "report_from_lighting o1 = report_from_hardware (lo_hardware o1) (case lo_hardware o1 of
      HwConfirmed \<Rightarrow>
        if lo_deduplicated o1 then ''Already showing this. Nothing was sent.''
        else ''Set to '' @ lighting_summary (lo_program o1) @
          ''. The controller accepted the command; it reports no state to read back.''
    | HwOnboard \<Rightarrow> ''The controller keeps its own program. Nothing was sent.''
    | HwNotApplied reason \<Rightarrow> reason
    | HwUncertain reason \<Rightarrow> ''Uncertain: '' @ reason)"

definition report_from_apply :: "apply_outcome \<Rightarrow> feed_report" where
  "report_from_apply o1 = report_from_hardware (ao_hardware o1) (case ao_hardware o1 of
      HwConfirmed \<Rightarrow>
        if ao_deduplicated o1
        then ''Already applied. The hardware already held this program, so nothing was written.''
        else ''Applied and confirmed by readback. '' @ show_u32 (ao_writes o1) @ '' kernel attributes written.''
    | HwOnboard \<Rightarrow> ''The device keeps running its own program. Nothing was written.''
    | HwNotApplied reason \<Rightarrow> reason
    | HwUncertain reason \<Rightarrow> reason)"

record command_outcome =
  co_sequence :: u64
  co_subject :: command_subject
  co_message :: string
  co_severity :: outcome_severity

definition outcome_sentence :: "command_outcome \<Rightarrow> string" where
  "outcome_sentence o1 = (case subject_device (co_subject o1) of
      Some device \<Rightarrow> device @ '': '' @ co_message o1
    | None \<Rightarrow> co_message o1)"

section \<open>A session\<close>

record session =
  ss_client :: client
  ss_capabilities :: capability_record
  ss_profiles :: "profile list"

definition feed_connect :: "client_codec \<Rightarrow> connect_env \<Rightarrow> string \<Rightarrow> client_error + session" where
  "feed_connect cc ct socket =
    and_then (client_connect cc ct socket) (\<lambda>c.
      (let (r, c) = client_capabilities cc c in and_then r (\<lambda>capabilities.
        (let (p, c) = client_profiles cc c in and_then p (\<lambda>(active, profiles).
          Inr \<lparr>ss_client = c, ss_capabilities = capabilities, ss_profiles = profiles\<rparr>)))))"

definition feed_poll :: "client_codec \<Rightarrow> session \<Rightarrow> (client_error + link_state) \<times> session" where
  "feed_poll cc s =
    (let (r, c) = client_status cc (ss_client s); s = s\<lparr>ss_client := c\<rparr> in case r of
       Inl e \<Rightarrow> (Inl e, s)
     | Inr st \<Rightarrow>
         (let (t, c) = client_telemetry cc (ss_client s); s = s\<lparr>ss_client := c\<rparr>
          in (case t of
                Inl e \<Rightarrow> Inl e
              | Inr sample \<Rightarrow> Inr (LinkConnected st (ss_capabilities s) (ss_profiles s) (Some sample)), s)))"

text \<open>A request whose answer is described by hand.\<close>

definition feed_request :: "client_codec \<Rightarrow> request \<Rightarrow> (response \<Rightarrow> feed_report option) \<Rightarrow> session \<Rightarrow>
    feed_report \<times> session" where
  "feed_request cc q describe s =
    (let (r, c) = client_request cc q (ss_client s)
     in (case r of
           Inl e \<Rightarrow> report_refused (client_error_display e)
         | Inr (RespError e) \<Rightarrow> report_refused (ipc_error_display e)
         | Inr answer \<Rightarrow> (case describe answer of
             Some report \<Rightarrow> report
           | None \<Rightarrow> report_refused ''The background service answered something this build does not understand.''),
         s\<lparr>ss_client := c\<rparr>))"

definition feed_call :: "(client \<Rightarrow> (client_error + 'a) \<times> client) \<Rightarrow> ('a \<Rightarrow> feed_report) \<Rightarrow> session \<Rightarrow>
    feed_report \<times> session" where
  "feed_call call report s =
    (let (r, c) = call (ss_client s)
     in (case r of Inr x \<Rightarrow> report x | Inl e \<Rightarrow> report_refused (client_error_display e), s\<lparr>ss_client := c\<rparr>))"

definition describe_activation :: "response \<Rightarrow> feed_report option" where
  "describe_activation r = (case r of
      RespActivated a \<Rightarrow>
        (let report = (case act_applied a of
               Some applied \<Rightarrow> report_from_apply applied
             | None \<Rightarrow> report_from_hardware (act_hardware a) ''Profile activated.'')
         in Some (report\<lparr>fr_message := act_name a @ '': '' @ fr_message report\<rparr>))
    | _ \<Rightarrow> None)"

definition describe_deletion :: "response \<Rightarrow> feed_report option" where
  "describe_deletion r = (case r of
      RespDeleted name (Some safe) \<Rightarrow> Some (report_confirmed (safe @ '' activated before '' @ name @ '' was deleted.''))
    | RespDeleted name None \<Rightarrow> Some (report_confirmed (''Profile '' @ name @ '' deleted.''))
    | _ \<Rightarrow> None)"

definition feed_execute :: "client_codec \<Rightarrow> feed_command \<Rightarrow> session \<Rightarrow> feed_report \<times> session" where
  "feed_execute cc k s = (case k of
      FeedApply p \<Rightarrow> feed_call (client_apply cc p) report_from_apply s
    | FeedApplyLighting c \<Rightarrow> feed_call (client_apply_lighting cc c) report_from_lighting s
    | FeedApplyDisplay p \<Rightarrow> feed_call (client_apply_display cc p) report_from_display s
    | FeedSaveProfile p \<Rightarrow> feed_request cc (ReqSaveProfile p) (\<lambda>r. case r of
          RespSaved _ \<Rightarrow> Some (report_confirmed (''Profile '' @ pf_name p @ '' saved.'')) | _ \<Rightarrow> None) s
    | FeedActivateProfile n \<Rightarrow> feed_request cc (ReqActivateProfile n) describe_activation s
    | FeedDeleteProfile n \<Rightarrow> feed_request cc (ReqDeleteProfile n) describe_deletion s)"

section \<open>The cycle\<close>

text \<open>\<open>fd_queue\<close> is what the channel still holds.\<close>

record feed_state =
  fd_session :: "session option"
  fd_pending :: "feed_command option"
  fd_queue :: "feed_command list"
  fd_sequence :: u64
  fd_link :: "link_state option"
  fd_outcome :: "command_outcome option"

definition feed_new :: feed_state where
  "feed_new = \<lparr>fd_session = None, fd_pending = None, fd_queue = [], fd_sequence = 0, fd_link = None, fd_outcome = None\<rparr>"

definition publish_unavailable :: "client_error \<Rightarrow> feed_state \<Rightarrow> feed_state" where
  "publish_unavailable e f = f\<lparr>fd_link := Some (LinkUnavailable (operator_message e))\<rparr>"

fun run_commands :: "client_codec \<Rightarrow> feed_command list \<Rightarrow> session \<Rightarrow> feed_state \<Rightarrow> session \<times> feed_state" where
  "run_commands cc [] s f = (s, f)"
| "run_commands cc (k # ks) s f =
    (let (report, s) = feed_execute cc k s; n = fd_sequence f + 1
     in run_commands cc ks s (f\<lparr>fd_sequence := n, fd_outcome := Some
       \<lparr>co_sequence = n, co_subject = command_subject_of k, co_message = fr_message report,
        co_severity = fr_severity report\<rparr>\<rparr>))"

definition refresh_profiles :: "client_codec \<Rightarrow> bool \<Rightarrow> session \<Rightarrow> session" where
  "refresh_profiles cc wanted s =
    (if \<not> wanted then s
     else (let (r, c) = client_profiles cc (ss_client s); s = s\<lparr>ss_client := c\<rparr>
       in case r of Inr (_, profiles) \<Rightarrow> s\<lparr>ss_profiles := profiles\<rparr> | Inl _ \<Rightarrow> s))"

text \<open>The pending command, then what \<open>try_recv\<close> gives until the channel is empty.\<close>

definition due_commands :: "feed_state \<Rightarrow> feed_command list" where
  "due_commands f = (case fd_pending f of None \<Rightarrow> [] | Some k \<Rightarrow> [k]) @ fd_queue f"

definition feed_serve :: "client_codec \<Rightarrow> session \<Rightarrow> feed_state \<Rightarrow> feed_state" where
  "feed_serve cc s f =
    (let ks = due_commands f;
         (s, f) = run_commands cc ks s (f\<lparr>fd_pending := None, fd_queue := []\<rparr>);
         s = refresh_profiles cc (list_ex touches_profiles ks) s;
         (r, s) = feed_poll cc s
     in case r of
          Inr l \<Rightarrow> f\<lparr>fd_session := Some s, fd_link := Some l\<rparr>
        | Inl e \<Rightarrow> (publish_unavailable e f)\<lparr>fd_session := None\<rparr>)"

definition FEED_GRANULARITY :: duration where "FEED_GRANULARITY = from_millis 25"

text \<open>The wait, in slices. Each says whether the stop flag was set before it and what arrived during it;
  what arrives after the wait has ended stays in the channel.\<close>

fun wait_for_command :: "(bool \<times> feed_command list) list \<Rightarrow> duration \<Rightarrow> feed_command list \<Rightarrow>
    feed_command option \<times> feed_command list" where
  "wait_for_command [] remaining queue = (None, queue)"
| "wait_for_command ((stopped, arrived) # as) remaining queue =
    (if remaining = 0 \<or> stopped then (None, queue @ arrived @ concat (map snd as))
     else (case queue @ arrived of
         k # rest \<Rightarrow> (Some k, rest @ concat (map snd as))
       | [] \<Rightarrow> wait_for_command as (remaining - min remaining FEED_GRANULARITY) []))"

text \<open>What the outside does to one cycle: what \<open>connect\<close> would answer, what is in the channel when the
  commands are run, the slices of the wait and the rest of the interval.\<close>

record cycle_input =
  ci_connect :: connect_env
  ci_arrived :: "feed_command list"
  ci_slices :: "(bool \<times> feed_command list) list"
  ci_remaining :: duration

definition feed_reconnect :: "client_codec \<Rightarrow> string \<Rightarrow> connect_env \<Rightarrow> feed_state \<Rightarrow> feed_state" where
  "feed_reconnect cc socket ct f = (case fd_session f of
      Some _ \<Rightarrow> f
    | None \<Rightarrow> (case feed_connect cc ct socket of
        Inr s \<Rightarrow> f\<lparr>fd_session := Some s\<rparr>
      | Inl e \<Rightarrow> publish_unavailable e f))"

definition feed_cycle :: "client_codec \<Rightarrow> string \<Rightarrow> cycle_input \<Rightarrow> feed_state \<Rightarrow> feed_state" where
  "feed_cycle cc socket i f =
    (let f = feed_reconnect cc socket (ci_connect i) (f\<lparr>fd_queue := fd_queue f @ ci_arrived i\<rparr>);
         f = (case fd_session f of Some s \<Rightarrow> feed_serve cc s f | None \<Rightarrow> f);
         (waited, queue) = wait_for_command (ci_slices i) (ci_remaining i) (fd_queue f)
     in f\<lparr>fd_pending := waited, fd_queue := queue\<rparr>)"

fun run_feed :: "client_codec \<Rightarrow> string \<Rightarrow> cycle_input list \<Rightarrow> feed_state \<Rightarrow> feed_state" where
  "run_feed cc socket [] f = f"
| "run_feed cc socket (i # is) f = run_feed cc socket is (feed_cycle cc socket i f)"

section \<open>What becomes of a command\<close>

text \<open>The commands the window gives during a cycle, and those the cycle runs.\<close>

definition cycle_gives :: "cycle_input \<Rightarrow> feed_command list" where
  "cycle_gives i = ci_arrived i @ concat (map snd (ci_slices i))"

definition cycle_runs :: "client_codec \<Rightarrow> string \<Rightarrow> cycle_input \<Rightarrow> feed_state \<Rightarrow> feed_command list" where
  "cycle_runs cc socket i f =
    (let f = feed_reconnect cc socket (ci_connect i) (f\<lparr>fd_queue := fd_queue f @ ci_arrived i\<rparr>)
     in if fd_session f = None then [] else due_commands f)"

fun feed_runs :: "client_codec \<Rightarrow> string \<Rightarrow> cycle_input list \<Rightarrow> feed_state \<Rightarrow> feed_command list" where
  "feed_runs cc socket [] f = []"
| "feed_runs cc socket (i # is) f = cycle_runs cc socket i f @ feed_runs cc socket is (feed_cycle cc socket i f)"

lemma wait_keeps:
  "wait_for_command as remaining queue = (k, rest) \<Longrightarrow>
    (case k of None \<Rightarrow> [] | Some k \<Rightarrow> [k]) @ rest = queue @ concat (map snd as)"
  by (induction as remaining queue rule: wait_for_command.induct) (auto split: if_splits list.splits)

lemma run_commands_fields:
  "run_commands cc ks s f = (s', f') \<Longrightarrow>
    fd_queue f' = fd_queue f \<and> fd_pending f' = fd_pending f \<and> fd_sequence f' = fd_sequence f + word_of_nat (length ks) \<and>
    (if ks = [] then fd_outcome f' = fd_outcome f
     else \<exists>o1. fd_outcome f' = Some o1 \<and> co_sequence o1 = fd_sequence f' \<and>
       co_subject o1 = command_subject_of (last ks))"
proof (induction ks arbitrary: s f)
  case (Cons k ks)
  obtain report s1 where e: "feed_execute cc k s = (report, s1)" by fastforce
  let ?f = "f\<lparr>fd_sequence := fd_sequence f + 1, fd_outcome := Some \<lparr>co_sequence = fd_sequence f + 1,
      co_subject = command_subject_of k, co_message = fr_message report, co_severity = fr_severity report\<rparr>\<rparr>"
  have "run_commands cc ks s1 ?f = (s', f')" using Cons.prems by (simp add: e Let_def)
  from Cons.IH [OF this] show ?case by (cases ks) auto
qed simp

lemma feed_serve_fields:
  "fd_queue (feed_serve cc s f) = [] \<and> fd_pending (feed_serve cc s f) = None \<and>
   fd_sequence (feed_serve cc s f) = fd_sequence f + word_of_nat (length (due_commands f))"
proof -
  let ?f = "f\<lparr>fd_pending := None, fd_queue := []\<rparr>"
  obtain s1 f1 where r: "run_commands cc (due_commands f) s ?f = (s1, f1)" by fastforce
  obtain x s2 where p: "feed_poll cc (refresh_profiles cc (list_ex touches_profiles (due_commands f)) s1) = (x, s2)"
    by fastforce
  show ?thesis using run_commands_fields [OF r]
    by (cases x) (auto simp: feed_serve_def r p publish_unavailable_def Let_def)
qed

lemma reconnect_fields [simp]:
  "fd_queue (feed_reconnect cc socket ct f) = fd_queue f" "fd_pending (feed_reconnect cc socket ct f) = fd_pending f"
  "fd_sequence (feed_reconnect cc socket ct f) = fd_sequence f"
  by (simp_all add: feed_reconnect_def publish_unavailable_def split: option.split sum.split)

lemma feed_cycle_keeps:
  "subseq (cycle_runs cc socket i f @ due_commands (feed_cycle cc socket i f)) (due_commands f @ cycle_gives i) \<and>
   fd_sequence (feed_cycle cc socket i f) = fd_sequence f + word_of_nat (length (cycle_runs cc socket i f))"
proof -
  let ?f = "feed_reconnect cc socket (ci_connect i) (f\<lparr>fd_queue := fd_queue f @ ci_arrived i\<rparr>)"
  let ?g = "case fd_session ?f of Some s \<Rightarrow> feed_serve cc s ?f | None \<Rightarrow> ?f"
  obtain k rest where w: "wait_for_command (ci_slices i) (ci_remaining i) (fd_queue ?g) = (k, rest)" by fastforce
  have c: "feed_cycle cc socket i f = ?g\<lparr>fd_pending := k, fd_queue := rest\<rparr>"
    unfolding feed_cycle_def Let_def using w by simp
  have d: "due_commands (feed_cycle cc socket i f) = fd_queue ?g @ concat (map snd (ci_slices i))"
    unfolding c due_commands_def using wait_keeps [OF w] by simp
  have q: "due_commands ?f = due_commands f @ ci_arrived i" by (simp add: due_commands_def split: option.split)
  show ?thesis
  proof (cases "fd_session ?f")
    case None
    have "subseq (fd_queue f @ ci_arrived i @ concat (map snd (ci_slices i))) (due_commands f @ cycle_gives i)"
      by (auto simp: due_commands_def cycle_gives_def split: option.split)
    then show ?thesis using None d by (simp add: cycle_runs_def c Let_def)
  next
    case (Some s)
    then show ?thesis using d q feed_serve_fields [of cc s ?f] by (simp add: cycle_runs_def c cycle_gives_def Let_def)
  qed
qed

lemma feed_runs_keep:
  "subseq (feed_runs cc socket is f @ due_commands (run_feed cc socket is f)) (due_commands f @ concat (map cycle_gives is)) \<and>
   fd_sequence (run_feed cc socket is f) = fd_sequence f + word_of_nat (length (feed_runs cc socket is f))"
proof (induction "is" arbitrary: f)
  case (Cons i js)
  let ?g = "feed_cycle cc socket i f"
  have "subseq (cycle_runs cc socket i f @ (feed_runs cc socket js ?g @ due_commands (run_feed cc socket js ?g)))
      (cycle_runs cc socket i f @ (due_commands ?g @ concat (map cycle_gives js)))"
    by (rule list_emb_append_mono [OF subseq_order.refl conjunct1 [OF Cons.IH]])
  also have "\<dots> = (cycle_runs cc socket i f @ due_commands ?g) @ concat (map cycle_gives js)" by simp
  also have "subseq \<dots> ((due_commands f @ cycle_gives i) @ concat (map cycle_gives js))"
    by (rule list_emb_append_mono [OF conjunct1 [OF feed_cycle_keeps] subseq_order.refl])
  finally have "subseq (feed_runs cc socket (i # js) f @ due_commands (run_feed cc socket (i # js) f))
      (due_commands f @ concat (map cycle_gives (i # js)))"
    by (simp only: feed_runs.simps run_feed.simps list.map concat.simps append_assoc)
  then show ?case using Cons.IH [of ?g] feed_cycle_keeps [of cc socket i f] by (simp add: add.assoc)
qed simp


end
