(* ===== verification/Cooling_Editor.thy ===== *)
theory Cooling_Editor
  imports Profile
begin

text \<open>
  \<open>crates/app/src/cooling.rs\<close>: the pending state of the Cooling screen. Every operation of the editor is
  a definition; a run is any sequence of them. The lemmas show that no run can draw a program the
  validation refuses, and that a program adopted from the daemon is the one the editor holds.
\<close>

section \<open>The editor\<close>

datatype cooling_mode = CoolOnboard | CoolFixed | CoolCurve

definition cooling_modes :: "cooling_mode list" where
  "cooling_modes = [CoolOnboard, CoolFixed, CoolCurve]"

fun cooling_mode_value :: "cooling_mode \<Rightarrow> string" where
  "cooling_mode_value CoolOnboard = ''onboard''"
| "cooling_mode_value CoolFixed = ''fixed''"
| "cooling_mode_value CoolCurve = ''curve''"

fun cooling_mode_label :: "cooling_mode \<Rightarrow> string" where
  "cooling_mode_label CoolOnboard = ''Onboard (device default)''"
| "cooling_mode_label CoolFixed = ''Fixed duty''"
| "cooling_mode_label CoolCurve = ''Liquid temperature curve''"

definition cooling_mode_from_value :: "string \<Rightarrow> cooling_mode option" where
  "cooling_mode_from_value v = find (\<lambda>m. cooling_mode_value m = v) cooling_modes"

lemma cooling_mode_round_trip: "cooling_mode_from_value v = Some m \<longleftrightarrow> v = cooling_mode_value m"
  by (cases m) (auto simp: cooling_mode_from_value_def cooling_modes_def split: if_splits)

record cooling_editor =
  ed_mode :: cooling_mode
  ed_pump_duty :: u8
  ed_fan_duty :: u8
  ed_pump_curve :: curve_nodes
  ed_fan_curve :: curve_nodes
  ed_applied :: "cooling_program option"

definition cooling_editor_new :: cooling_editor where
  "cooling_editor_new = \<lparr>ed_mode = CoolOnboard, ed_pump_duty = duty_from_percent 70,
    ed_fan_duty = duty_from_percent 50, ed_pump_curve = starting_ramp, ed_fan_curve = starting_ramp,
    ed_applied = None\<rparr>"

definition editor_program :: "cooling_editor \<Rightarrow> cooling_program" where
  "editor_program e = (case ed_mode e of
      CoolOnboard \<Rightarrow> Onboard
    | CoolFixed \<Rightarrow> FixedDuty (ed_pump_duty e) (ed_fan_duty e)
    | CoolCurve \<Rightarrow> CurveProgram (interpolate (ed_pump_curve e)) (interpolate (ed_fan_curve e)))"

definition editor_curve :: "channel \<Rightarrow> cooling_editor \<Rightarrow> curve_nodes" where
  "editor_curve ch e = (case ch of Pump \<Rightarrow> ed_pump_curve e | Fan \<Rightarrow> ed_fan_curve e)"

definition put_curve :: "channel \<Rightarrow> curve_nodes \<Rightarrow> cooling_editor \<Rightarrow> cooling_editor" where
  "put_curve ch ns e = (case ch of Pump \<Rightarrow> e\<lparr>ed_pump_curve := ns\<rparr> | Fan \<Rightarrow> e\<lparr>ed_fan_curve := ns\<rparr>)"

definition editor_duty :: "channel \<Rightarrow> cooling_editor \<Rightarrow> u8" where
  "editor_duty ch e = (case ch of Pump \<Rightarrow> ed_pump_duty e | Fan \<Rightarrow> ed_fan_duty e)"

definition clamp_duty :: "channel \<Rightarrow> u8 \<Rightarrow> u8" where
  "clamp_duty ch d = (if d < min_duty ch then min_duty ch else if MAX_DUTY < d then MAX_DUTY else d)"

definition set_duty :: "channel \<Rightarrow> u8 \<Rightarrow> cooling_editor \<Rightarrow> cooling_editor" where
  "set_duty ch d e = (case ch of
      Pump \<Rightarrow> e\<lparr>ed_pump_duty := clamp_duty ch d\<rparr>
    | Fan \<Rightarrow> e\<lparr>ed_fan_duty := clamp_duty ch d\<rparr>)"

text \<open>A step of percentage points, in the 16-bit signed arithmetic of the code.\<close>

definition percent_step :: "u8 \<Rightarrow> 16 word \<Rightarrow> u8" where
  "percent_step d steps =
    (let moved = (ucast (duty_to_percent d) :: 16 word) + steps;
         clamped = (if sint moved < 0 then 0 else if 100 < sint moved then ucast MAX_DUTY_PERCENT else moved)
     in duty_from_percent (ucast clamped))"

definition adjust_duty :: "channel \<Rightarrow> 16 word \<Rightarrow> cooling_editor \<Rightarrow> cooling_editor" where
  "adjust_duty ch steps e = set_duty ch (percent_step (editor_duty ch e) steps) e"

definition set_node_from :: "channel \<Rightarrow> curve_nodes \<Rightarrow> nat \<Rightarrow> u8 \<Rightarrow> cooling_editor \<Rightarrow> cooling_editor" where
  "set_node_from ch base i d e = (put_curve ch (nodes_set base i (clamp_duty ch d)) e)\<lparr>ed_mode := CoolCurve\<rparr>"

definition set_node :: "channel \<Rightarrow> nat \<Rightarrow> u8 \<Rightarrow> cooling_editor \<Rightarrow> cooling_editor" where
  "set_node ch i d e = set_node_from ch (editor_curve ch e) i d e"

definition adjust_node :: "channel \<Rightarrow> nat \<Rightarrow> 16 word \<Rightarrow> cooling_editor \<Rightarrow> cooling_editor" where
  "adjust_node ch node steps e =
    (let node = min node (CURVE_NODE_COUNT - 1)
     in set_node ch node (percent_step (node_duty (editor_curve ch e) ! node) steps) e)"

definition editor_set_mode :: "cooling_mode \<Rightarrow> cooling_editor \<Rightarrow> cooling_editor" where
  "editor_set_mode m e = e\<lparr>ed_mode := m\<rparr>"

definition record_applied :: "cooling_program \<Rightarrow> cooling_editor \<Rightarrow> cooling_editor" where
  "record_applied p e = e\<lparr>ed_applied := Some p\<rparr>"

definition editor_adopt :: "cooling_program \<Rightarrow> cooling_editor \<Rightarrow> cooling_editor" where
  "editor_adopt p e = (case p of
      Onboard \<Rightarrow> e\<lparr>ed_mode := CoolOnboard, ed_applied := Some p\<rparr>
    | FixedDuty pump fan \<Rightarrow>
        (set_duty Fan fan (set_duty Pump pump e))\<lparr>ed_mode := CoolFixed, ed_applied := Some p\<rparr>
    | CurveProgram pump fan \<Rightarrow> (case (from_curve pump, from_curve fan) of
        (Some a, Some b) \<Rightarrow>
          e\<lparr>ed_pump_curve := a, ed_fan_curve := b, ed_mode := CoolCurve, ed_applied := Some p\<rparr>
      | _ \<Rightarrow> e))"

definition confirms_fixed :: "kraken_telemetry option \<Rightarrow> channel \<Rightarrow> u8 \<Rightarrow> bool" where
  "confirms_fixed kraken ch d = (case kraken of
      None \<Rightarrow> False
    | Some k \<Rightarrow> reading_value (ct_mode (kraken_channel k ch)) = Some PwmFixed \<and>
        reading_value (ct_duty (kraken_channel k ch)) = Some d)"

definition confirms_mode :: "kraken_telemetry option \<Rightarrow> channel \<Rightarrow> pwm_mode \<Rightarrow> bool" where
  "confirms_mode kraken ch m = (case kraken of
      None \<Rightarrow> False | Some k \<Rightarrow> reading_value (ct_mode (kraken_channel k ch)) = Some m)"

definition editor_pending :: "kraken_telemetry option \<Rightarrow> cooling_editor \<Rightarrow> bool" where
  "editor_pending kraken e = (case editor_program e of
      Onboard \<Rightarrow> False
    | FixedDuty pump fan \<Rightarrow> \<not> confirms_fixed kraken Pump pump \<or> \<not> confirms_fixed kraken Fan fan
    | CurveProgram _ _ \<Rightarrow> ed_applied e \<noteq> Some (editor_program e) \<or>
        \<not> confirms_mode kraken Pump PwmCurve \<or> \<not> confirms_mode kraken Fan PwmCurve)"

definition restore_applied :: "cooling_editor \<Rightarrow> cooling_editor" where
  "restore_applied e = (case ed_applied e of
      Some (CurveProgram pump fan) \<Rightarrow> (case (from_curve pump, from_curve fan) of
          (Some a, Some b) \<Rightarrow> e\<lparr>ed_pump_curve := a, ed_fan_curve := b\<rparr>
        | _ \<Rightarrow> e)
    | _ \<Rightarrow> e)"

definition set_read_duty :: "channel \<Rightarrow> u8 reading \<Rightarrow> cooling_editor \<Rightarrow> cooling_editor" where
  "set_read_duty ch r e = (case reading_value r of Some d \<Rightarrow> set_duty ch d e | None \<Rightarrow> e)"

definition editor_cancel :: "kraken_telemetry option \<Rightarrow> cooling_editor \<Rightarrow> cooling_editor" where
  "editor_cancel kraken e =
    (let e = restore_applied e in case kraken of
       None \<Rightarrow> e\<lparr>ed_mode := CoolOnboard\<rparr>
     | Some k \<Rightarrow>
         (let e = set_read_duty Fan (ct_duty (kt_fan k)) (set_read_duty Pump (ct_duty (kt_pump k)) e)
          in e\<lparr>ed_mode := (case reading_value (ct_mode (kt_pump k)) of
               Some PwmFixed \<Rightarrow> CoolFixed | Some PwmCurve \<Rightarrow> CoolCurve | _ \<Rightarrow> CoolOnboard)\<rparr>))"

definition validation_error_of :: "cooling_editor \<Rightarrow> validation_error option" where
  "validation_error_of e = (case validate_program (editor_program e) of Inl x \<Rightarrow> Some x | Inr _ \<Rightarrow> None)"

text \<open>One gesture or event of the screen. A drag replays each of its positions from the curve as it
  stood when the pointer went down.\<close>

datatype editor_op =
    EdSetDuty channel u8
  | EdAdjustDuty channel "16 word"
  | EdSetNode channel nat u8
  | EdDrag channel nat "u8 list"
  | EdAdjustNode channel nat "16 word"
  | EdMode cooling_mode
  | EdRecord cooling_program
  | EdAdopt cooling_program
  | EdCancel "kraken_telemetry option"

definition drag_nodes :: "channel \<Rightarrow> nat \<Rightarrow> u8 list \<Rightarrow> cooling_editor \<Rightarrow> cooling_editor" where
  "drag_nodes ch i ds e = foldl (\<lambda>f d. set_node_from ch (editor_curve ch e) i d f) e ds"

fun editor_step :: "cooling_editor \<Rightarrow> editor_op \<Rightarrow> cooling_editor" where
  "editor_step e (EdSetDuty ch d) = set_duty ch d e"
| "editor_step e (EdAdjustDuty ch n) = adjust_duty ch n e"
| "editor_step e (EdSetNode ch i d) = set_node ch i d e"
| "editor_step e (EdDrag ch i ds) = drag_nodes ch i ds e"
| "editor_step e (EdAdjustNode ch i n) = adjust_node ch i n e"
| "editor_step e (EdMode m) = editor_set_mode m e"
| "editor_step e (EdRecord p) = record_applied p e"
| "editor_step e (EdAdopt p) = editor_adopt p e"
| "editor_step e (EdCancel k) = editor_cancel k e"

definition edit :: "editor_op list \<Rightarrow> cooling_editor" where
  "edit ks = foldl editor_step cooling_editor_new ks"

text \<open>What the daemon reports as committed passed its validation.\<close>

definition from_daemon :: "editor_op \<Rightarrow> bool" where
  "from_daemon k = (case k of
      EdRecord p \<Rightarrow> validate_program p = Inr ()
    | EdAdopt p \<Rightarrow> validate_program p = Inr ()
    | _ \<Rightarrow> True)"

section \<open>Every edit keeps the program valid\<close>

definition nodes_above :: "u8 \<Rightarrow> curve_nodes \<Rightarrow> bool" where
  "nodes_above m ns = (nodes_sorted ns \<and> (\<forall>j < CURVE_NODE_COUNT. m \<le> node_duty ns ! j))"

definition editor_ok :: "cooling_editor \<Rightarrow> bool" where
  "editor_ok e = (MIN_PUMP_DUTY \<le> ed_pump_duty e \<and> nodes_above MIN_PUMP_DUTY (ed_pump_curve e) \<and>
    nodes_above MIN_FAN_DUTY (ed_fan_curve e) \<and>
    (case ed_applied e of None \<Rightarrow> True | Some p \<Rightarrow> validate_program p = Inr ()))"

lemma clamp_duty_floor [simp]: "min_duty ch \<le> clamp_duty ch d"
  by (cases ch) (auto simp: clamp_duty_def MAX_DUTY_def MIN_PUMP_DUTY_def MIN_FAN_DUTY_def)

lemma clamp_duty_id: "clamp_duty ch d = max (min_duty ch) d"
proof -
  have e: "MAX_DUTY = - 1" by (simp add: MAX_DUTY_def)
  have "\<not> MAX_DUTY < d" unfolding e not_less by (rule word_order.extremum)
  then show ?thesis by (auto simp: clamp_duty_def max_def)
qed

lemma nodes_above_set: "nodes_above m ns \<Longrightarrow> m \<le> d \<Longrightarrow> nodes_above m (nodes_set ns i d)"
  using nodes_set_nth [of ns _ i d] nodes_set_sorted [of ns i d]
  by (auto simp: nodes_above_def nodes_sorted_def [of ns] min_def max_def)

lemma nodes_above_validates:
  assumes "nodes_above (min_duty ch) ns"
  shows "validate_curve ch (interpolate ns) = Inr ()"
proof -
  have s: "nodes_sorted ns" using assms by (simp add: nodes_above_def)
  have "min_duty ch \<le> points (interpolate ns) ! k" if "k < 40" for k
  proof -
    have "segment k < CURVE_NODE_COUNT" using segment_facts(1) [OF that] by (simp add: CURVE_NODE_COUNT_def)
    then have "min_duty ch \<le> node_duty ns ! segment k" using assms by (simp add: nodes_above_def)
    then show ?thesis using interpolate_between(1) [OF s that] by (rule order_trans)
  qed
  then have "\<forall>v \<in> set (points (interpolate ns)). min_duty ch \<le> v"
    by (auto simp: in_set_conv_nth interpolate_def CURVE_POINT_COUNT_def)
  then show ?thesis using interpolate_sorted [OF s] by (simp add: validate_curve_iff)
qed

lemma from_curve_above:
  assumes "from_curve c = Some ns" "validate_curve ch c = Inr ()"
  shows "nodes_above (min_duty ch) ns \<and> interpolate ns = c"
proof -
  have ns: "node_duty ns = map (\<lambda>i. points c ! node_point_index i) [0..<CURVE_NODE_COUNT]"
    and c: "interpolate ns = c"
    using assms(1) unfolding from_curve_def Let_def by (metis curve_nodes.sel option.distinct(1) option.inject)+
  have len: "length (points c) = 40" using c by (auto simp: interpolate_def CURVE_POINT_COUNT_def)
  have v: "sorted (points c)" "\<forall>v \<in> set (points c). min_duty ch \<le> v"
    using assms(2) by (simp_all add: validate_curve_iff)
  have idx: "node_point_index i < 40" "i \<le> j \<Longrightarrow> node_point_index i \<le> node_point_index j" for i j
    by (simp_all add: node_point_index_def CURVE_POINT_COUNT_def CURVE_NODE_STEP_C_def)
  have "sorted (node_duty ns)"
    unfolding ns using v(1) idx len by (auto simp: sorted_iff_nth_mono)
  moreover have "length (node_duty ns) = CURVE_NODE_COUNT" by (simp add: ns)
  moreover have "min_duty ch \<le> node_duty ns ! j" if "j < CURVE_NODE_COUNT" for j
    using that v(2) idx(1) [of j] len by (simp add: ns)
  ultimately show ?thesis using c by (simp add: nodes_above_def nodes_sorted_def nodes_ok_def)
qed

lemma ramp_percent:
  assumes "i < 9"
  shows "f32_add (F32 40) (f32_mul (f32_of_int (int i)) (f32_div (F32 60) (f32_of_int (int (CURVE_NODE_COUNT - 1))))) =
    F32 (of_int (80 + 15 * int i) / 2)"
proof -
  have p2: "(2::rat) powi - 1 = 1 / 2" by (simp add: power_int_def)
  have q: "f32_round (of_int m / 2) = F32 (of_int m / 2)" if "\<bar>m\<bar> \<le> 5000" for m :: int
  proof -
    have s: "round_sig (of_int m / 2) = of_int m / 2" using round_sig_exact [of m "-1"] that by (simp add: p2)
    have "\<bar>of_int m :: rat\<bar> = of_int \<bar>m\<bar>" by simp
    also have "\<dots> \<le> (5000 :: rat)" using that by (simp only: of_int_le_numeral_iff)
    finally have "\<bar>of_int m / 2 :: rat\<bar> < 2 powi 100" by simp
    then show ?thesis by (simp add: f32_round_small s)
  qed
  have "f32_of_int (int i) = F32 (of_int (int i))" "f32_of_int 8 = F32 8"
    using f32_of_int_exact [of "int i"] f32_of_int_exact [of 8] assms by simp_all
  moreover have "f32_round (15 / 2) = F32 (15 / 2)" using q [of 15] by simp
  moreover have "f32_round (of_int (int i) * 15 / 2) = F32 (of_int (int i) * 15 / 2)" using q [of "int i * 15"] assms by simp
  moreover have "f32_round (40 + of_int (int i) * 15 / 2) = F32 (of_int (80 + 15 * int i) / 2)"
    using q [of "80 + 15 * int i"] assms by (simp add: add_divide_distrib mult.commute)
  ultimately show ?thesis by (simp add: f32_arith_simps CURVE_NODE_COUNT_def)
qed

lemma round_away_half: "0 \<le> m \<Longrightarrow> round_away (of_int m / 2) = (m + 1) div 2"
  using floor_divide_of_int_eq [of "m + 1" 2, where 'a = rat] by (simp add: round_away_def add_divide_distrib)

lemma starting_ramp_duty: "node_duty starting_ramp = [102, 122, 140, 161, 179, 199, 217, 237, 255]"
proof -
  have u: "[0..<9] = [0, 1, 2, 3, 4, 5, 6, 7, 8]" by (simp add: upt_rec)
  have "node_duty starting_ramp = map (\<lambda>i. duty_from_percent (f32_as_u8 (f32_clamp
      (f32_round_away (F32 (of_int (80 + 15 * int i) / 2))) (F32 0) (F32 100)))) [0..<9]"
    unfolding starting_ramp_def curve_nodes.sel Let_def
    by (rule map_cong) (simp add: CURVE_NODE_COUNT_def, subst ramp_percent, simp_all)
  also have "\<dots> = [102, 122, 140, 161, 179, 199, 217, 237, 255]"
    by (simp only: u f32_round_away_def f32.case round_away_half [of "80 + 15 * int _"], simp add: f32_clamp_def f32_less_def f32_as_u8_def f32_to_int_def
        duty_from_percent_def MAX_DUTY_PERCENT_def MAX_DUTY_def)
  finally show ?thesis .
qed

lemma starting_ramp_above: "nodes_above (min_duty ch) starting_ramp"
proof -
  have "\<forall>d \<in> set (node_duty starting_ramp). min_duty ch \<le> d"
    by (cases ch) (simp_all add: starting_ramp_duty MIN_PUMP_DUTY_def MIN_FAN_DUTY_def)
  moreover have "length (node_duty starting_ramp) = CURVE_NODE_COUNT"
    by (simp add: starting_ramp_def)
  moreover have "sorted (node_duty starting_ramp)" by (simp add: starting_ramp_duty)
  ultimately show ?thesis by (simp add: nodes_above_def nodes_sorted_def nodes_ok_def)
qed

lemma editor_new_ok: "editor_ok cooling_editor_new"
  using starting_ramp_above [of Pump] starting_ramp_above [of Fan]
  by (simp add: editor_ok_def cooling_editor_new_def MIN_PUMP_DUTY_def duty_from_percent_def MAX_DUTY_PERCENT_def
      MAX_DUTY_def)

lemma editor_ok_curve: "editor_ok e \<Longrightarrow> nodes_above (min_duty ch) (editor_curve ch e)"
  by (cases ch) (simp_all add: editor_ok_def editor_curve_def)

lemma put_curve_ok: "editor_ok e \<Longrightarrow> nodes_above (min_duty ch) ns \<Longrightarrow> editor_ok (put_curve ch ns e)"
  by (cases ch) (simp_all add: editor_ok_def put_curve_def)

lemma editor_ok_mode [simp]: "editor_ok (e\<lparr>ed_mode := m\<rparr>) = editor_ok e"
  by (simp add: editor_ok_def)

lemma set_duty_ok: "editor_ok e \<Longrightarrow> editor_ok (set_duty ch d e)"
  using clamp_duty_floor [of Pump d] by (cases ch) (simp_all add: editor_ok_def set_duty_def)

lemma set_node_from_ok: "editor_ok e \<Longrightarrow> nodes_above (min_duty ch) base \<Longrightarrow> editor_ok (set_node_from ch base i d e)"
  by (simp add: set_node_from_def put_curve_ok nodes_above_set)

lemma set_node_ok: "editor_ok e \<Longrightarrow> editor_ok (set_node ch i d e)"
  by (simp add: set_node_def set_node_from_ok editor_ok_curve)

lemma drag_nodes_ok:
  assumes "editor_ok e" shows "editor_ok (drag_nodes ch i ds e)"
proof -
  have "editor_ok (foldl (\<lambda>f d. set_node_from ch (editor_curve ch e) i d f) f ds)" if "editor_ok f" for f
    using that by (induction ds arbitrary: f) (simp_all add: set_node_from_ok editor_ok_curve [OF assms])
  then show ?thesis using assms by (simp add: drag_nodes_def)
qed

lemma validate_curves:
  "validate_program (CurveProgram a b) = Inr () \<longleftrightarrow> validate_curve Pump a = Inr () \<and> validate_curve Fan b = Inr ()"
  by (auto simp: validate_program_def split: sum.split)

lemma adopted_curves_ok:
  assumes "editor_ok e" "validate_program (CurveProgram pump fan) = Inr ()" "from_curve pump = Some a" "from_curve fan = Some b"
  shows "editor_ok (e\<lparr>ed_pump_curve := a, ed_fan_curve := b\<rparr>)"
  using assms from_curve_above [OF assms(3), of Pump] from_curve_above [OF assms(4), of Fan]
  by (simp add: editor_ok_def validate_curves)

lemma editor_adopt_ok:
  assumes "editor_ok e" "validate_program p = Inr ()" shows "editor_ok (editor_adopt p e)"
proof (cases p)
  case (CurveProgram pump fan)
  show ?thesis
    using assms adopted_curves_ok [of e pump fan]
    by (auto simp: CurveProgram editor_adopt_def editor_ok_def split: option.split)
next
  case (FixedDuty pump fan)
  then show ?thesis using assms set_duty_ok [OF set_duty_ok [OF assms(1), of Pump pump], of Fan fan]
    by (simp add: editor_adopt_def editor_ok_def)
qed (use assms in \<open>simp add: editor_adopt_def editor_ok_def\<close>)

lemma restore_applied_ok: "editor_ok e \<Longrightarrow> editor_ok (restore_applied e)"
  using adopted_curves_ok [of e]
  by (auto simp: restore_applied_def editor_ok_def [of e] split: option.split cooling_program.split)

lemma editor_cancel_ok: "editor_ok e \<Longrightarrow> editor_ok (editor_cancel k e)"
  by (auto simp: editor_cancel_def set_read_duty_def Let_def restore_applied_ok set_duty_ok split: option.split)

lemma editor_step_ok: "editor_ok e \<Longrightarrow> from_daemon k \<Longrightarrow> editor_ok (editor_step e k)"
  by (cases k) (simp_all add: set_duty_ok adjust_duty_def set_node_ok adjust_node_def Let_def drag_nodes_ok
      editor_set_mode_def editor_adopt_ok editor_cancel_ok from_daemon_def, simp add: record_applied_def editor_ok_def)

lemma edit_ok: "list_all from_daemon ks \<Longrightarrow> editor_ok (edit ks)"
proof -
  have "editor_ok (foldl editor_step e ks)" if "editor_ok e" "list_all from_daemon ks" for e
    using that by (induction ks arbitrary: e) (simp_all add: editor_step_ok)
  then show "list_all from_daemon ks \<Longrightarrow> editor_ok (edit ks)" by (simp add: edit_def editor_new_ok)
qed

lemma editor_ok_validates: "editor_ok e \<Longrightarrow> validate_program (editor_program e) = Inr ()"
  using nodes_above_validates [of Pump "ed_pump_curve e"] nodes_above_validates [of Fan "ed_fan_curve e"]
  by (cases "ed_mode e") (simp_all add: editor_ok_def editor_program_def validate_curves,
    simp_all add: validate_program_accepts_iff MIN_PUMP_DUTY_def word_le_nat_alt)

section \<open>Properties\<close>

text \<open>C38: Nothing the operator does on the Cooling screen draws a program the daemon would refuse as
  invalid. Over any sequence of gestures, with whatever duties, node numbers, steps and telemetry, and
  with any programs a daemon may report as committed, the pending program passes the validation.\<close>

theorem every_edit_validates:
  "if list_all from_daemon ks
   then validation_error_of (edit ks) = None \<and> validate_program (editor_program (edit ks)) = Inr ()
   else True"
  using editor_ok_validates [OF edit_ok, of ks] by (simp add: validation_error_of_def)

text \<open>What the device reports while it runs a program.\<close>

definition device_runs :: "kraken_telemetry \<Rightarrow> cooling_program \<Rightarrow> bool" where
  "device_runs k p = (case p of
      Onboard \<Rightarrow> True
    | FixedDuty pump fan \<Rightarrow> reading_value (ct_mode (kt_pump k)) = Some PwmFixed \<and> reading_value (ct_duty (kt_pump k)) = Some pump \<and>
        reading_value (ct_mode (kt_fan k)) = Some PwmFixed \<and> reading_value (ct_duty (kt_fan k)) = Some fan
    | CurveProgram _ _ \<Rightarrow> reading_value (ct_mode (kt_pump k)) = Some PwmCurve \<and> reading_value (ct_mode (kt_fan k)) = Some PwmCurve)"

lemma adopt_program:
  assumes "validate_program p = Inr ()" and "case p of CurveProgram a b \<Rightarrow> from_curve a \<noteq> None \<and> from_curve b \<noteq> None | _ \<Rightarrow> True"
  shows "editor_program (editor_adopt p e) = p \<and> ed_applied (editor_adopt p e) = Some p"
proof (cases p)
  case (CurveProgram a b)
  then obtain na nb where n: "from_curve a = Some na" "from_curve b = Some nb" using assms(2) by auto
  then have "interpolate na = a" "interpolate nb = b"
    using assms(1) from_curve_above by (simp_all add: CurveProgram validate_curves) blast+
  then show ?thesis by (simp add: CurveProgram n editor_adopt_def editor_program_def)
next
  case (FixedDuty pump fan)
  then have "51 \<le> unat pump" using assms(1) by (simp add: validate_program_accepts_iff)
  then have "clamp_duty Pump pump = pump" "clamp_duty Fan fan = fan"
    by (simp_all add: clamp_duty_id MIN_PUMP_DUTY_def MIN_FAN_DUTY_def max_def word_le_nat_alt)
  then show ?thesis by (simp add: FixedDuty editor_adopt_def editor_program_def set_duty_def)
qed (simp add: editor_adopt_def editor_program_def)

lemma pending_when_applied:
  "ed_applied e = Some (editor_program e) \<Longrightarrow> editor_pending (Some k) e \<longleftrightarrow> \<not> device_runs k (editor_program e)"
  by (auto simp: editor_pending_def device_runs_def confirms_fixed_def confirms_mode_def kraken_channel_def
      split: cooling_program.split)

lemma drawn_curves: "editor_ok e \<Longrightarrow>
    case editor_program e of CurveProgram a b \<Rightarrow> from_curve a \<noteq> None \<and> from_curve b \<noteq> None | _ \<Rightarrow> True"
  using from_curve_inverse [of "ed_pump_curve e"] from_curve_inverse [of "ed_fan_curve e"]
  by (auto simp: editor_ok_def editor_program_def nodes_above_def nodes_sorted_def split: cooling_mode.split)

text \<open>A window opened again shows the machine. Whatever program one editor drew, another editor that
  adopts it holds exactly that program, in any state it was in, and nothing is pending exactly while the
  device reports that it runs it; a program with a curve that no node set draws changes nothing.\<close>

theorem adopted_program_comes_back:
  "(if list_all from_daemon ks
    then editor_program (editor_adopt (editor_program (edit ks)) e) = editor_program (edit ks) \<and>
      (editor_pending (Some k) (editor_adopt (editor_program (edit ks)) e) \<longleftrightarrow> \<not> device_runs k (editor_program (edit ks)))
    else True) \<and>
   (if from_curve a = None \<or> from_curve b = None then editor_adopt (CurveProgram a b) e = e else True)"
proof -
  have "editor_program (editor_adopt p e) = p \<and> ed_applied (editor_adopt p e) = Some p"
    if "list_all from_daemon ks" "p = editor_program (edit ks)" for p
    using adopt_program [of p e] editor_ok_validates [OF edit_ok [OF that(1)]] drawn_curves [OF edit_ok [OF that(1)]]
    by (simp add: that(2))
  then show ?thesis
    using pending_when_applied [of "editor_adopt (editor_program (edit ks)) e" k]
    by (auto simp: editor_adopt_def [of "CurveProgram a b"] split: option.split)
qed

text \<open>One press is one percentage point, on a duty and on a node.\<close>

lemma small_i16: "0 \<le> z \<Longrightarrow> z \<le> 100 \<Longrightarrow> (ucast (word_of_int z :: 16 word) :: u8) = word_of_int z"
  using take_bit_int_eq_self [of z 8] take_bit_int_eq_self [of z 16]
  by (simp add: word_uint_eq_iff unsigned_ucast_eq uint_word_of_int)

lemma ucast_u8_i16: "(ucast (p :: u8) :: 16 word) = word_of_int (int (unat p))"
  by (simp add: word_uint_eq_iff unsigned_ucast_eq uint_word_of_int)

lemma percent_step_eq:
  assumes "- 30000 \<le> sint steps" "sint steps \<le> 30000"
  shows "percent_step d steps = duty_from_percent (word_of_int (max 0 (min 100 (int (unat (duty_to_percent d)) + sint steps))))"
proof -
  define z where "z = int (unat (duty_to_percent d)) + sint steps"
  have "unat (duty_to_percent d) < 256" by simp
  then have b: "- 32768 \<le> z" "z < 32768" unfolding z_def using assms by linarith+
  have w: "(ucast (duty_to_percent d) :: 16 word) + steps = word_of_int z"
    unfolding ucast_u8_i16 z_def by simp
  have s: "sint (word_of_int z :: 16 word) = z"
    unfolding sint_sbintrunc' using b by (intro signed_take_bit_int_eq_self) simp_all
  show ?thesis
    unfolding percent_step_def Let_def w s z_def [symmetric]
    using small_i16 [of z] by (auto simp: MAX_DUTY_PERCENT_def max_def min_def)
qed

lemma duty_to_percent_of_int:
  assumes "0 \<le> z" "z \<le> 100"
  shows "int (unat (duty_to_percent (duty_from_percent (word_of_int z)))) = z"
proof -
  have u: "int (unat (word_of_int z :: u8)) = z"
    using assms take_bit_int_eq_self [of z 8] by (simp add: uint_word_of_int flip: uint_nat)
  then have "unat (word_of_int z :: u8) \<le> 100" using assms by linarith
  then have "duty_to_percent (duty_from_percent (word_of_int z)) = word_of_int z"
    using duty_percent_round_trip [of "word_of_int z"] by (simp add: min_def word_le_nat_alt)
  then show ?thesis using u by simp
qed

lemma floor_percent: "min_duty ch = duty_from_percent (word_of_int (if ch = Pump then 20 else 0))"
  by (cases ch) (simp_all add: MIN_PUMP_DUTY_def MIN_FAN_DUTY_def duty_from_percent_def MAX_DUTY_PERCENT_def MAX_DUTY_def)

lemma duty_mono_of_int:
  assumes "0 \<le> y" "y \<le> 100" "0 \<le> z" "z \<le> 100"
  shows "duty_from_percent (word_of_int y) < duty_from_percent (word_of_int z) \<longleftrightarrow> y < z"
proof -
  have u: "unat (word_of_int x :: u8) = nat x" if "0 \<le> x" "x \<le> 100" for x
  proof -
    have "int (unat (word_of_int x :: u8)) = x"
      using that take_bit_int_eq_self [of x 8] by (simp add: uint_word_of_int flip: uint_nat)
    then show ?thesis by linarith
  qed
  then show ?thesis
    using duty_percent_round_trip [of "word_of_int y" "word_of_int z"] u [OF assms(1,2)] u [OF assms(3,4)] assms
    by (auto simp: min_def word_le_nat_alt word_less_nat_alt)
qed

text \<open>The duty a press leads to: its percentage moves by the steps, between the floor of the channel and
  one hundred, and it is a duty the device reports back as it is.\<close>

definition pressed :: "channel \<Rightarrow> u8 \<Rightarrow> 16 word \<Rightarrow> u8 \<Rightarrow> bool" where
  "pressed ch d steps d' \<longleftrightarrow>
    int (unat (duty_to_percent d')) =
      max (if ch = Pump then 20 else 0) (min 100 (int (unat (duty_to_percent d)) + sint steps)) \<and>
    duty_from_percent (duty_to_percent d') = d'"

lemma clamp_duty_pressed:
  assumes "- 30000 \<le> sint steps" "sint steps \<le> 30000"
  shows "pressed ch d steps (clamp_duty ch (percent_step d steps))"
proof -
  define z where "z = max 0 (min 100 (int (unat (duty_to_percent d)) + sint steps))"
  define y :: int where "y = (if ch = Pump then 20 else 0)"
  have b: "0 \<le> z" "z \<le> 100" "0 \<le> y" "y \<le> 100" by (simp_all add: z_def y_def)
  have "clamp_duty ch (percent_step d steps) = max (duty_from_percent (word_of_int y)) (duty_from_percent (word_of_int z))"
    unfolding clamp_duty_id percent_step_eq [OF assms] floor_percent y_def [symmetric] z_def [symmetric] ..
  also have "\<dots> = duty_from_percent (word_of_int (max y z))"
    using duty_mono_of_int [of y z] duty_mono_of_int [of z y] b by (auto simp: max_def not_le le_less)
  finally have c: "clamp_duty ch (percent_step d steps) = duty_from_percent (word_of_int (max y z))" .
  have p: "int (unat (duty_to_percent (duty_from_percent (word_of_int (max y z))))) = max y z"
    using b by (intro duty_to_percent_of_int) auto
  then have "duty_to_percent (duty_from_percent (word_of_int (max y z))) = word_of_int (max y z)"
    by (metis uint_nat word_of_int_uint)
  moreover have "max y z = max (if ch = Pump then 20 else 0) (min 100 (int (unat (duty_to_percent d)) + sint steps))"
    using b(3) unfolding z_def y_def [symmetric] by linarith
  ultimately show ?thesis using p unfolding pressed_def c by simp
qed

text \<open>One press is one percentage point. On a duty or on a node of a curve, a press of \<open>steps\<close> moves
  the percentage the device distinguishes by exactly \<open>steps\<close>, stopped at the floor of the channel and at
  one hundred, lands on a duty that reads back as itself, and leaves the other channel alone; a node past
  the last is the last, and pushes only the nodes it crosses.\<close>

theorem one_press_is_one_percent:
  "if - 30000 \<le> sint steps \<and> sint steps \<le> 30000 \<and> nodes_ok (editor_curve ch e)
   then pressed ch (editor_duty ch e) steps (editor_duty ch (adjust_duty ch steps e)) \<and>
     (other = ch \<or> editor_duty other (adjust_duty ch steps e) = editor_duty other e \<and>
        editor_curve other (adjust_node ch node steps e) = editor_curve other e) \<and>
     (let i = min node 8; ds = node_duty (editor_curve ch e);
          ds' = node_duty (editor_curve ch (adjust_node ch node steps e))
      in pressed ch (ds ! i) steps (ds' ! i) \<and>
         (if j < 9 then ds' ! j = (if j < i then min (ds ! j) (ds' ! i) else if j = i then ds' ! i else max (ds ! j) (ds' ! i))
          else True))
   else True"
proof (cases "- 30000 \<le> sint steps \<and> sint steps \<le> 30000 \<and> nodes_ok (editor_curve ch e)")
  case True
  define i where "i = min node 8"
  have i: "i < CURVE_NODE_COUNT" by (simp add: i_def CURVE_NODE_COUNT_def)
  have n: "editor_curve ch (adjust_node ch node steps e) =
      nodes_set (editor_curve ch e) i (clamp_duty ch (percent_step (node_duty (editor_curve ch e) ! i) steps))"
    by (cases ch) (simp_all add: i_def adjust_node_def Let_def set_node_def set_node_from_def put_curve_def editor_curve_def
        CURVE_NODE_COUNT_def)
  have o: "other = ch \<or> editor_duty other (adjust_duty ch steps e) = editor_duty other e \<and>
      editor_curve other (adjust_node ch node steps e) = editor_curve other e"
    by (cases ch; cases other) (simp_all add: adjust_duty_def set_duty_def editor_duty_def adjust_node_def Let_def
        set_node_def set_node_from_def put_curve_def editor_curve_def)
  have d: "editor_duty ch (adjust_duty ch steps e) = clamp_duty ch (percent_step (editor_duty ch e) steps)"
    by (cases ch) (simp_all add: adjust_duty_def set_duty_def editor_duty_def)
  show ?thesis
    using True o clamp_duty_pressed [of steps ch] nodes_set_nth [of "editor_curve ch e" _ i] i
    by (simp add: n d Let_def CURVE_NODE_COUNT_def flip: i_def)
qed auto

end
