(* ===== verification/Keyed.thy ===== *)
theory Keyed
  imports Prelude
begin

text \<open>
  \<open>crates/app/src/shell/screen/keyed.rs\<close>: the one keyed collection the screens keep, a vector of pairs.
  The locale \<open>keyed_book\<close> is what its users rely on: a finite map that gives back what was set last and
  takes out what is ready. It is interpreted on the vector; the schedule of the writes, the selected nodes
  and the open rows rest on that.
\<close>

section \<open>The collection\<close>

type_synonym ('k, 'v) keyed = "('k \<times> 'v) list"

fun keyed_set :: "'k \<Rightarrow> 'v \<Rightarrow> ('k, 'v) keyed \<Rightarrow> ('k, 'v) keyed" where
  "keyed_set k v [] = [(k, v)]"
| "keyed_set k v (e # es) = (if fst e = k then (k, v) # es else e # keyed_set k v es)"

definition keyed_get :: "'k \<Rightarrow> ('k, 'v) keyed \<Rightarrow> 'v option" where
  "keyed_get k es = map_option snd (find (\<lambda>e. fst e = k) es)"

definition keyed_contains :: "'k \<Rightarrow> ('k, 'v) keyed \<Rightarrow> bool" where
  "keyed_contains k es = (keyed_get k es \<noteq> None)"

definition keyed_remove :: "'k \<Rightarrow> ('k, 'v) keyed \<Rightarrow> ('k, 'v) keyed" where
  "keyed_remove k es = filter (\<lambda>e. fst e \<noteq> k) es"

definition keyed_clear :: "('k, 'v) keyed \<Rightarrow> ('k, 'v) keyed" where
  "keyed_clear es = []"

definition keyed_take :: "('v \<Rightarrow> bool) \<Rightarrow> ('k, 'v) keyed \<Rightarrow> 'k list \<times> ('k, 'v) keyed" where
  "keyed_take ready es = (map fst (filter (\<lambda>e. ready (snd e)) es), filter (\<lambda>e. \<not> ready (snd e)) es)"

definition keyed_insert :: "'k \<Rightarrow> ('k, unit) keyed \<Rightarrow> ('k, unit) keyed" where
  "keyed_insert k es = keyed_set k () es"

definition keyed_toggle :: "'k \<Rightarrow> ('k, unit) keyed \<Rightarrow> ('k, unit) keyed" where
  "keyed_toggle k es = (if keyed_contains k es then keyed_remove k es else keyed_set k () es)"

section \<open>What its users rely on\<close>

locale keyed_book =
  fixes empty :: 'b
    and lookup :: "'k \<Rightarrow> 'b \<Rightarrow> 'v option"
    and put :: "'k \<Rightarrow> 'v \<Rightarrow> 'b \<Rightarrow> 'b"
    and take_ready :: "('v \<Rightarrow> bool) \<Rightarrow> 'b \<Rightarrow> 'k list \<times> 'b"
    and ok :: "'b \<Rightarrow> bool"
  assumes empty_ok: "ok empty"
    and empty_lookup: "lookup k empty = None"
    and put_ok: "ok b \<Longrightarrow> ok (put k v b)"
    and put_lookup: "ok b \<Longrightarrow> lookup k (put k' v b) = (if k = k' then Some v else lookup k b)"
    and take_ok: "ok b \<Longrightarrow> ok (snd (take_ready P b))"
    and take_lookup: "ok b \<Longrightarrow> lookup k (snd (take_ready P b)) =
      (case lookup k b of Some v \<Rightarrow> if P v then None else Some v | None \<Rightarrow> None)"
    and take_distinct: "ok b \<Longrightarrow> distinct (fst (take_ready P b))"
    and take_members: "ok b \<Longrightarrow> k \<in> set (fst (take_ready P b)) \<longleftrightarrow> (\<exists>v. lookup k b = Some v \<and> P v)"
begin

lemma taken_is_gone: "ok b \<Longrightarrow> k \<in> set (fst (take_ready P b)) \<Longrightarrow> lookup k (snd (take_ready P b)) = None"
  by (auto simp: take_lookup take_members)

lemma taken_once: "ok b \<Longrightarrow> k \<in> set (fst (take_ready P b)) \<Longrightarrow> k \<notin> set (fst (take_ready Q (snd (take_ready P b))))"
  by (simp add: take_members take_ok taken_is_gone)

lemma untouched_stays: "ok b \<Longrightarrow> lookup k b = Some v \<Longrightarrow> \<not> P v \<Longrightarrow>
    k \<notin> set (fst (take_ready P b)) \<and> lookup k (snd (take_ready P b)) = Some v"
  by (simp add: take_members take_lookup)

text \<open>Puts of several keys, as a drain does that returns what it may not give.\<close>

lemma puts_ok: "ok b \<Longrightarrow> ok (foldl (\<lambda>b k. put k (f k) b) b ks)"
  by (induction ks arbitrary: b) (simp_all add: put_ok)

lemma puts_lookup: "ok b \<Longrightarrow> lookup k (foldl (\<lambda>b k. put k (f k) b) b ks) = (if k \<in> set ks then Some (f k) else lookup k b)"
  by (induction ks arbitrary: b) (auto simp: put_ok put_lookup)

end

definition keyed_ok :: "('k, 'v) keyed \<Rightarrow> bool" where
  "keyed_ok es = distinct (map fst es)"

lemma keyed_get_map_of: "keyed_get k es = map_of es k"
  by (induction es) (auto simp: keyed_get_def)

lemma keyed_set_keys: "set (map fst (keyed_set k v es)) = insert k (set (map fst es))"
  by (induction es) auto

lemma keyed_set_ok: "keyed_ok es \<Longrightarrow> keyed_ok (keyed_set k v es)"
proof (induction es)
  case (Cons e es)
  then show ?case using keyed_set_keys [of k v es] by (auto simp: keyed_ok_def)
qed (simp add: keyed_ok_def)

lemma map_of_filter_value:
  "distinct (map fst es) \<Longrightarrow> map_of (filter (\<lambda>e. P (snd e)) es) k =
    (case map_of es k of Some v \<Rightarrow> if P v then Some v else None | None \<Rightarrow> None)"
proof (induction es)
  case (Cons e es)
  then show ?case by (cases e) (auto simp: map_of_eq_None_iff split: option.splits dest: map_of_SomeD)
qed simp

interpretation book: keyed_book "[]" keyed_get keyed_set keyed_take keyed_ok
proof
  fix b :: "('k, 'v) keyed" and k k' :: 'k and v :: 'v and P :: "'v \<Rightarrow> bool"
  show "keyed_ok ([] :: ('k, 'v) keyed)" by (simp add: keyed_ok_def)
  show "keyed_get k ([] :: ('k, 'v) keyed) = None" by (simp add: keyed_get_def)
  assume ok: "keyed_ok b"
  show "keyed_ok (keyed_set k v b)" by (rule keyed_set_ok [OF ok])
  show "keyed_get k (keyed_set k' v b) = (if k = k' then Some v else keyed_get k b)"
    unfolding keyed_get_map_of by (induction b) auto
  show "keyed_ok (snd (keyed_take P b))" "distinct (fst (keyed_take P b))"
    using ok by (simp_all add: keyed_ok_def keyed_take_def distinct_map_filter)
  show "keyed_get k (snd (keyed_take P b)) =
      (case keyed_get k b of Some v \<Rightarrow> if P v then None else Some v | None \<Rightarrow> None)"
    using ok map_of_filter_value [of b "\<lambda>v. \<not> P v" k]
    by (auto simp: keyed_get_map_of keyed_take_def keyed_ok_def split: option.split)
  show "k \<in> set (fst (keyed_take P b)) \<longleftrightarrow> (\<exists>v. keyed_get k b = Some v \<and> P v)"
    using ok by (auto simp: keyed_get_map_of keyed_take_def keyed_ok_def dest: map_of_SomeD) force+
qed

section \<open>The collection is a finite map\<close>

lemma map_of_keyed [simp]:
  "map_of (keyed_set k v xs) = (map_of xs)(k \<mapsto> v)"
  "map_of (keyed_remove k xs) = (map_of xs)(k := None)"
  by (induction xs) (auto simp: fun_eq_iff keyed_remove_def)

text \<open>C39: The vector of pairs refines a finite map. Under \<open>map_of\<close>, with no key held twice, \<open>set\<close> is the
  update, \<open>remove\<close> the restriction, \<open>clear\<close> the empty map, \<open>take\<close> splits the map by its values and gives
  each key of the one part exactly once, a toggle of a set adds or removes its key, and every operation
  keeps the keys distinct.\<close>

theorem keyed_refines_map:
  "if keyed_ok es
   then keyed_get k es = map_of es k \<and>
     (map_of (keyed_set k v es) = (map_of es)(k \<mapsto> v) \<and> keyed_ok (keyed_set k v es)) \<and>
     (map_of (keyed_remove k es) = (map_of es)(k := None) \<and> keyed_ok (keyed_remove k es)) \<and>
     map_of (keyed_clear es) = Map.empty \<and>
     (case keyed_take P es of (ks, rest) \<Rightarrow>
        set ks = {k. \<exists>v. map_of es k = Some v \<and> P v} \<and> distinct ks \<and>
        map_of rest = map_of es |` (- set ks) \<and> keyed_ok rest) \<and>
     map_of (keyed_toggle k us) = (if keyed_contains k us then (map_of us)(k := None) else (map_of us)(k \<mapsto> ()))
   else True"
proof (cases "keyed_ok es")
  case True
  have t: "map_of (snd (keyed_take P es)) = map_of es |` (- set (fst (keyed_take P es)))"
    using book.take_lookup [OF True, of _ P] book.take_members [OF True, of _ P]
    by (auto simp: keyed_get_map_of restrict_map_def split: option.split)
  have u: "map_of (keyed_toggle k us) = (if keyed_contains k us then (map_of us)(k := None) else (map_of us)(k \<mapsto> ()))"
    by (simp add: keyed_toggle_def)
  have "keyed_ok (keyed_remove k es)" using True by (simp add: keyed_ok_def keyed_remove_def distinct_map_filter)
  then show ?thesis
    using True t u book.take_members [OF True, of _ P] book.take_distinct [OF True, of P] book.take_ok [OF True, of P]
    by (auto simp: keyed_get_map_of keyed_clear_def keyed_set_ok split_beta)
qed auto

end
