(* ===== verification/Lighting_Editor.thy ===== *)
theory Lighting_Editor
  imports Lighting "HOL-Library.Multiset"
begin

text \<open>
  \<open>crates/app/src/lighting.rs\<close>: the pending state of the lighting channels. A row holds what the operator
  typed; its program is built only when it goes quiet. The lemmas show that what a row sends passes the
  daemon's validation and that a refresh of the channel list loses no edit.
\<close>

section \<open>Modes\<close>

definition DEFAULT_COLOR :: string where "DEFAULT_COLOR = ''6F4EF2''"

datatype lighting_mode = LmOff | LmFixed | LmEffect lighting_effect

definition lighting_modes :: "bool \<Rightarrow> lighting_mode list" where
  "lighting_modes effects_available =
    [LmFixed, LmOff] @ (if effects_available then map LmEffect effect_all else [])"

definition lighting_mode_value :: "lighting_mode \<Rightarrow> string" where
  "lighting_mode_value m = (case m of LmOff \<Rightarrow> ''off'' | LmFixed \<Rightarrow> ''fixed'' | LmEffect e \<Rightarrow> effect_key e)"

definition lighting_mode_label :: "lighting_mode \<Rightarrow> string" where
  "lighting_mode_label m = (case m of LmOff \<Rightarrow> ''Off'' | LmFixed \<Rightarrow> ''Fixed color'' | LmEffect e \<Rightarrow> effect_label e)"

definition lighting_mode_from_value :: "string \<Rightarrow> lighting_mode option" where
  "lighting_mode_from_value v = (if v = ''off'' then Some LmOff else if v = ''fixed'' then Some LmFixed
    else map_option LmEffect (effect_from_key v))"

definition uses_color :: "lighting_mode \<Rightarrow> bool" where
  "uses_color m = (case m of LmOff \<Rightarrow> False | LmFixed \<Rightarrow> True | LmEffect e \<Rightarrow> 0 < snd (color_range e))"

definition uses_brightness :: "lighting_mode \<Rightarrow> bool" where
  "uses_brightness m = uses_color m"

definition uses_speed :: "lighting_mode \<Rightarrow> bool" where
  "uses_speed m = (case m of LmEffect _ \<Rightarrow> True | _ \<Rightarrow> False)"

definition uses_direction :: "lighting_mode \<Rightarrow> bool" where
  "uses_direction m = (case m of LmEffect e \<Rightarrow> accepts_direction e | _ \<Rightarrow> False)"

text \<open>The values of the mode select are the keys of a wire enum, although no wire carries them.\<close>

interpretation lmode: wire_enum "lighting_modes True" lighting_mode_value lighting_mode_from_value
proof
  fix v :: lighting_mode and k
  show "v \<in> set (lighting_modes True)"
    using effect.all_complete by (cases v) (auto simp: lighting_modes_def)
  show "distinct (map lighting_mode_value (lighting_modes True))"
    by (simp add: lighting_modes_def effect_all_def lighting_mode_value_def)
  show "lighting_mode_from_value k = lookup_key lighting_mode_value (lighting_modes True) k"
    by (auto simp: lighting_mode_from_value_def lookup_key_def lighting_modes_def effect_all_def
        lighting_mode_value_def effect_from_key_def)
qed

section \<open>One channel\<close>

record channel_editor =
  ce_channel :: u8
  ce_mode :: lighting_mode
  ce_color :: string
  ce_brightness :: u8
  ce_speed :: effect_speed
  ce_direction :: effect_direction

definition channel_editor_new :: "u8 \<Rightarrow> channel_editor" where
  "channel_editor_new ch = \<lparr>ce_channel = ch, ce_mode = LmFixed, ce_color = DEFAULT_COLOR, ce_brightness = 100,
    ce_speed = Normal, ce_direction = Forward\<rparr>"

definition parsed_color :: "channel_editor \<Rightarrow> lighting_error + rgb" where
  "parsed_color e = parse_hex (ce_color e)"

definition channel_program :: "channel_editor \<Rightarrow> lighting_error + lighting_program" where
  "channel_program e = and_then (brightness_new (ce_brightness e)) (\<lambda>b. case ce_mode e of
      LmOff \<Rightarrow> Inr LightOff
    | LmFixed \<Rightarrow> and_then (parsed_color e) (\<lambda>c. Inr (LightFixed c b))
    | LmEffect f \<Rightarrow>
        (let (mn, mx) = color_range f
         in and_then (if mx = 0 then Inr [] else and_then (parsed_color e) (\<lambda>c. Inr (replicate (max mn 1) c)))
              (\<lambda>colors. Inr (LightEffect f colors b (ce_speed e)
                (if accepts_direction f then ce_direction e else Forward)))))"

definition set_channel_brightness :: "u8 \<Rightarrow> channel_editor \<Rightarrow> channel_editor" where
  "set_channel_brightness p e = e\<lparr>ce_brightness := min p MAX_BRIGHTNESS\<rparr>"

section \<open>All channels\<close>

definition editor_channel :: "u8 \<Rightarrow> channel_editor list \<Rightarrow> channel_editor option" where
  "editor_channel ch es = find (\<lambda>e. ce_channel e = ch) es"

definition sync_channels :: "u8 list \<Rightarrow> channel_editor list \<Rightarrow> channel_editor list" where
  "sync_channels chs es = sort_key ce_channel (map (\<lambda>ch. case editor_channel ch es of
      Some e \<Rightarrow> e | None \<Rightarrow> channel_editor_new ch) chs)"

text \<open>An edit through \<open>channel_mut\<close>: the first row of that channel.\<close>

fun edit_channel :: "u8 \<Rightarrow> (channel_editor \<Rightarrow> channel_editor) \<Rightarrow> channel_editor list \<Rightarrow> channel_editor list" where
  "edit_channel ch f [] = []"
| "edit_channel ch f (e # es) = (if ce_channel e = ch then f e # es else e # edit_channel ch f es)"

section \<open>What a row sends\<close>

lemma channel_program_cases:
  assumes "ce_brightness e \<le> MAX_BRIGHTNESS"
  shows "channel_program e = (if uses_color (ce_mode e) then and_then (parsed_color e) (\<lambda>c.
      Inr (case ce_mode e of LmEffect f \<Rightarrow> LightEffect f (replicate (max (fst (color_range f)) 1) c)
          (Brightness (ce_brightness e)) (ce_speed e) (if accepts_direction f then ce_direction e else Forward)
        | _ \<Rightarrow> LightFixed c (Brightness (ce_brightness e))))
    else Inr (case ce_mode e of LmEffect f \<Rightarrow> LightEffect f [] (Brightness (ce_brightness e)) (ce_speed e)
          (if accepts_direction f then ce_direction e else Forward)
        | _ \<Rightarrow> LightOff))"
  using assms
  by (auto simp: channel_program_def brightness_new_def uses_color_def split_beta and_then_def not_less
      split: lighting_mode.split sum.split)

lemma channel_program_validates:
  assumes p: "channel_program e = Inr p" shows "validate_lighting_program p = Inr ()"
proof (cases "ce_mode e")
  case (LmEffect f)
  obtain x where "p = LightEffect f (fst x) (fst (snd x)) (ce_speed e) (if accepts_direction f then ce_direction e else Forward)"
    "fst (color_range f) \<le> length (fst x)" "length (fst x) \<le> snd (color_range f)"
    using p LmEffect by (cases f) (auto simp: channel_program_def and_then_Inr_iff)
  then show ?thesis by (cases f) (auto simp: validate_lighting_program_def)
qed (use p in \<open>auto simp: channel_program_def and_then_Inr_iff validate_lighting_program_def\<close>)

text \<open>A row sends only what the daemon accepts, and refuses only for its color. Whatever was typed, a
  program a row builds passes the validation of its channel on every controller that has the channel; with
  a brightness in its range, as every setter leaves it, the program fails exactly when the mode draws a
  color and the field does not parse, with the error of the field.\<close>

theorem row_sends_what_validates:
  "(case channel_program e of
      Inr p \<Rightarrow> validate_lighting_program p = Inr () \<and>
        (validate_command \<lparr>lc_channel = ce_channel e, lc_program = p\<rparr> available = Inr () \<longleftrightarrow>
          ce_channel e \<noteq> 0 \<and> ce_channel e \<le> available)
    | Inl _ \<Rightarrow> True) \<and>
   (case channel_program (set_channel_brightness b e) of
      Inl x \<Rightarrow> uses_color (ce_mode e) \<and> parse_hex (ce_color e) = Inl x
    | Inr p \<Rightarrow> if uses_color (ce_mode e) then \<exists>c. parse_hex (ce_color e) = Inr c else True)"
proof
  show "case channel_program e of
      Inr p \<Rightarrow> validate_lighting_program p = Inr () \<and>
        (validate_command \<lparr>lc_channel = ce_channel e, lc_program = p\<rparr> available = Inr () \<longleftrightarrow>
          ce_channel e \<noteq> 0 \<and> ce_channel e \<le> available)
    | Inl _ \<Rightarrow> True"
    by (auto simp: validate_command_def not_less channel_program_validates split: sum.split)
next
  have "ce_brightness (set_channel_brightness b e) \<le> MAX_BRIGHTNESS" by (simp add: set_channel_brightness_def)
  note c = channel_program_cases [OF this]
  have f: "ce_mode (set_channel_brightness b e) = ce_mode e" "parsed_color (set_channel_brightness b e) = parse_hex (ce_color e)"
    by (simp_all add: set_channel_brightness_def parsed_color_def)
  show "case channel_program (set_channel_brightness b e) of
      Inl x \<Rightarrow> uses_color (ce_mode e) \<and> parse_hex (ce_color e) = Inl x
    | Inr p \<Rightarrow> if uses_color (ce_mode e) then \<exists>c. parse_hex (ce_color e) = Inr c else True"
    unfolding c f by (cases "parse_hex (ce_color e)") auto
qed

section \<open>A refresh loses no edit\<close>

lemma editor_channel_Some: "editor_channel ch es = Some e \<Longrightarrow> e \<in> set es \<and> ce_channel e = ch"
  by (auto simp: editor_channel_def dest: find_Some_in)

lemma synced_channel:
  "ce_channel (case editor_channel ch es of Some e \<Rightarrow> e | None \<Rightarrow> channel_editor_new ch) = ch"
  by (auto simp: channel_editor_new_def split: option.split dest: editor_channel_Some)

lemma find_sorted_channel:
  fixes es :: "channel_editor list"
  shows "find (\<lambda>e. ce_channel e = ch) (sort_key ce_channel es) = find (\<lambda>e. ce_channel e = ch) es"
proof -
  have f: "find P xs = (case filter P xs of [] \<Rightarrow> None | x # _ \<Rightarrow> Some x)" for P and xs :: "channel_editor list"
    by (induction xs) auto
  show ?thesis
    using f [of "\<lambda>e. ce_channel e = ch" "sort_key ce_channel es"] f [of "\<lambda>e. ce_channel e = ch" es]
    by (simp add: sort_key_stable)
qed

text \<open>A refresh of the channel list, which runs on every sample, loses no edit. Afterwards there is one
  row for each channel the controller reported, in ascending order; a channel that stayed has the row it
  had, a new one the default, and a channel that went away none.\<close>

theorem refresh_keeps_edits:
  "map ce_channel (sync_channels chs es) = sort chs \<and>
   editor_channel ch (sync_channels chs es) =
     (if ch \<in> set chs then Some (case editor_channel ch es of Some e \<Rightarrow> e | None \<Rightarrow> channel_editor_new ch) else None) \<and>
   (if sorted (map ce_channel es) \<and> distinct (map ce_channel es) then sync_channels (map ce_channel es) es = es else True)"
proof (intro conjI)
  let ?g = "\<lambda>ch. case editor_channel ch es of Some e \<Rightarrow> e | None \<Rightarrow> channel_editor_new ch"
  have "map ce_channel (map ?g chs) = chs" by (simp add: map_idI synced_channel)
  then have "image_mset ce_channel (mset (map ?g chs)) = mset chs" by (simp only: flip: mset_map)
  then have "mset (map ce_channel (sync_channels chs es)) = mset chs"
    by (simp only: sync_channels_def mset_map mset_sort)
  then show "map ce_channel (sync_channels chs es) = sort chs"
    by (rule properties_for_sort [symmetric]) (simp only: sync_channels_def sorted_sort_key)
  have "find (\<lambda>e. ce_channel e = ch) (map ?g chs) = (if ch \<in> set chs then Some (?g ch) else None)"
    by (induction chs) (auto simp: synced_channel)
  then show "editor_channel ch (sync_channels chs es) = (if ch \<in> set chs then Some (?g ch) else None)"
    unfolding sync_channels_def editor_channel_def [of ch "sort_key _ _"] find_sorted_channel .
  show "if sorted (map ce_channel es) \<and> distinct (map ce_channel es) then sync_channels (map ce_channel es) es = es else True"
  proof (cases "sorted (map ce_channel es) \<and> distinct (map ce_channel es)")
    case True
    then have "map ?g (map ce_channel es) = es"
      by (auto simp: editor_channel_def find_distinct_key intro!: map_idI)
    then show ?thesis using True by (simp add: sync_channels_def sort_key_id_if_sorted)
  qed auto
qed

end
