(* ===== verification/Display_Editor.thy ===== *)
theory Display_Editor
  imports Renderer
begin

text \<open>
  \<open>crates/app/src/display/mod.rs\<close> and \<open>display/film.rs\<close>: the pending state of the panel and the picture its
  preview shows, compiled with the daemon's own renderer. The PNG encoder is a parameter. The lemmas show
  that the preview always holds a preset that validates, that a preset the window sent comes back as it
  was, and that a compiled picture shows what the panel shows.
\<close>

section \<open>The editor\<close>

datatype display_color_field = ReadingOne | ReadingTwo | FadeOne | FadeTwo | TextOne | TextTwo | FieldBackground

definition display_color_fields :: "display_color_field list" where
  "display_color_fields = [ReadingOne, ReadingTwo, FadeOne, FadeTwo, TextOne, TextTwo, FieldBackground]"

fun color_field_label :: "display_color_field \<Rightarrow> string" where
  "color_field_label ReadingOne = ''Band 1''"
| "color_field_label ReadingTwo = ''Band 2''"
| "color_field_label FadeOne = ''Fade 1''"
| "color_field_label FadeTwo = ''Fade 2''"
| "color_field_label TextOne = ''Text 1''"
| "color_field_label TextTwo = ''Text 2''"
| "color_field_label FieldBackground = ''Background''"

definition color_field_slot :: "display_color_field \<Rightarrow> nat option" where
  "color_field_slot f = (if f \<in> {ReadingOne, FadeOne, TextOne} then Some 0
    else if f \<in> {ReadingTwo, FadeTwo, TextTwo} then Some 1 else None)"

fun color_field_key :: "display_color_field \<Rightarrow> string" where
  "color_field_key ReadingOne = ''reading-1''"
| "color_field_key ReadingTwo = ''reading-2''"
| "color_field_key FadeOne = ''fade-1''"
| "color_field_key FadeTwo = ''fade-2''"
| "color_field_key TextOne = ''text-1''"
| "color_field_key TextTwo = ''text-2''"
| "color_field_key FieldBackground = ''background''"

fun color_field_index :: "display_color_field \<Rightarrow> nat" where
  "color_field_index ReadingOne = 0"
| "color_field_index ReadingTwo = 1"
| "color_field_index FadeOne = 2"
| "color_field_index FadeTwo = 3"
| "color_field_index TextOne = 4"
| "color_field_index TextTwo = 5"
| "color_field_index FieldBackground = 6"

definition is_fade :: "display_color_field \<Rightarrow> bool" where
  "is_fade f = (f = FadeOne \<or> f = FadeTwo)"

definition is_used_by :: "display_mode \<Rightarrow> display_color_field \<Rightarrow> bool" where
  "is_used_by m f = (case color_field_slot f of
      Some slot \<Rightarrow> slot < reading_slots m \<and> (\<not> is_fade f \<or> gradates_band m)
    | None \<Rightarrow> \<not> uses_image m)"

record display_editor =
  de_mode :: display_mode
  de_metrics :: "lcd_metric \<times> lcd_metric"
  de_colors :: "string list"
  de_orientation :: orientation
  de_brightness :: u8
  de_image_path :: string

definition color_text :: "display_editor \<Rightarrow> display_color_field \<Rightarrow> string" where
  "color_text e f = de_colors e ! color_field_index f"

definition set_color_text :: "display_color_field \<Rightarrow> string \<Rightarrow> display_editor \<Rightarrow> display_editor" where
  "set_color_text f v e = e\<lparr>de_colors := (de_colors e)[color_field_index f := v]\<rparr>"

definition field_color :: "display_editor \<Rightarrow> display_color_field \<Rightarrow> display_error + rgb" where
  "field_color e f = map_err (ColorError (color_field_label f)) (parse_hex (color_text e f))"

definition set_display_brightness :: "u8 \<Rightarrow> display_editor \<Rightarrow> display_editor" where
  "set_display_brightness p e = e\<lparr>de_brightness := min p MAX_BRIGHTNESS\<rparr>"

definition slot_of :: "display_editor \<Rightarrow> lcd_metric \<Rightarrow> display_color_field \<Rightarrow> display_color_field \<Rightarrow>
    display_color_field \<Rightarrow> display_error + reading_slot" where
  "slot_of e m reading fade txt =
    and_then (field_color e reading) (\<lambda>r.
    and_then (field_color e fade) (\<lambda>f.
    and_then (field_color e txt) (\<lambda>t.
      Inr \<lparr>rs_metric = m, rs_reading = r, rs_reading_end = Some f, rs_text = t\<rparr>)))"

definition editor_preset :: "display_editor \<Rightarrow> display_error + display_preset" where
  "editor_preset e =
    and_then (slot_of e (fst (de_metrics e)) ReadingOne FadeOne TextOne) (\<lambda>s1.
    and_then (slot_of e (snd (de_metrics e)) ReadingTwo FadeTwo TextTwo) (\<lambda>s2.
    and_then (field_color e FieldBackground) (\<lambda>bg.
    and_then (map_err (ColorError ''Brightness'') (brightness_new (de_brightness e))) (\<lambda>b.
      (let path = trim (de_image_path e);
           p = \<lparr>dp_mode = de_mode e, dp_readings = (s1, s2), dp_background = bg, dp_logo = None,
             dp_orientation = de_orientation e, dp_brightness = b,
             dp_image = if uses_image (de_mode e) \<and> path \<noteq> [] then Some path else None\<rparr>
       in and_then (validate_preset p) (\<lambda>_. Inr p))))))"

definition from_preset :: "display_preset \<Rightarrow> display_editor" where
  "from_preset p = (case dp_readings p of (s1, s2) \<Rightarrow>
    \<lparr>de_mode = dp_mode p, de_metrics = (rs_metric s1, rs_metric s2),
     de_colors = [to_hex (rs_reading s1), to_hex (rs_reading s2), to_hex (band_end s1), to_hex (band_end s2),
       to_hex (rs_text s1), to_hex (rs_text s2), to_hex (dp_background p)],
     de_orientation = dp_orientation p, de_brightness = percent (dp_brightness p),
     de_image_path = (case dp_image p of Some path \<Rightarrow> path | None \<Rightarrow> [])\<rparr>)"

definition display_editor_default :: display_editor where
  "display_editor_default = from_preset default_infographic"

section \<open>The picture of the preview\<close>

datatype picture_source =
    SourceImage "string option" orientation rgb
  | SourceReadings display_preset "metric_sample \<times> metric_sample"

record picture_identity =
  pi_panel :: "u16 \<times> u16"
  pi_source :: picture_source

definition identity_of :: "display_preset \<Rightarrow> lcd_panel \<Rightarrow> telemetry_snapshot option \<Rightarrow> picture_identity" where
  "identity_of p panel telemetry =
    \<lparr>pi_panel = (lp_width panel, lp_height panel),
     pi_source = (if uses_image (dp_mode p)
       then SourceImage (dp_image p) (dp_orientation p) (dp_background p)
       else SourceReadings p (case telemetry of
           Some t \<Rightarrow> preset_samples p t
         | None \<Rightarrow> (sample_unavailable (rs_metric (fst (dp_readings p))),
             sample_unavailable (rs_metric (snd (dp_readings p))))))\<rparr>"

record image_film =
  fi_identity :: picture_identity
  fi_frames :: "(u8 list \<times> duration) list"
  fi_cursor :: nat

definition film_frame :: "image_film \<Rightarrow> u8 list option" where
  "film_frame f = (if fi_cursor f < length (fi_frames f) then Some (fst (fi_frames f ! fi_cursor f)) else None)"

definition film_delay :: "image_film \<Rightarrow> duration option" where
  "film_delay f = (if fi_cursor f < length (fi_frames f) then Some (snd (fi_frames f ! fi_cursor f)) else None)"

definition film_is_animated :: "image_film \<Rightarrow> bool" where
  "film_is_animated f = (1 < length (fi_frames f))"

definition film_duration :: "image_film \<Rightarrow> duration" where
  "film_duration f = sum_list (map snd (fi_frames f))"

definition film_advance :: "image_film \<Rightarrow> image_film" where
  "film_advance f = (if fi_frames f \<noteq> [] then f\<lparr>fi_cursor := (fi_cursor f + 1) mod length (fi_frames f)\<rparr> else f)"

datatype preview_picture = NoPicture | StillPicture picture_identity "u8 list" | FilmPicture image_film

definition picture_identity_of :: "preview_picture \<Rightarrow> picture_identity option" where
  "picture_identity_of c = (case c of
      NoPicture \<Rightarrow> None | StillPicture i _ \<Rightarrow> Some i | FilmPicture f \<Rightarrow> Some (fi_identity f))"

definition picture_is :: "preview_picture \<Rightarrow> picture_identity \<Rightarrow> bool" where
  "picture_is c i = (picture_identity_of c = Some i)"

definition picture_png :: "preview_picture \<Rightarrow> u8 list option" where
  "picture_png c = (case c of NoPicture \<Rightarrow> None | StillPicture _ png \<Rightarrow> Some png | FilmPicture f \<Rightarrow> film_frame f)"

definition picture_film :: "preview_picture \<Rightarrow> image_film option" where
  "picture_film c = (case c of FilmPicture f \<Rightarrow> Some f | _ \<Rightarrow> None)"

definition picture_advance :: "preview_picture \<Rightarrow> bool \<times> preview_picture" where
  "picture_advance c = (case c of
      FilmPicture f \<Rightarrow> if film_is_animated f then (True, FilmPicture (film_advance f)) else (False, c)
    | _ \<Rightarrow> (False, c))"

text \<open>The encoder is given the bytes of the quantized pixels and the two sizes.\<close>

type_synonym png_encoder = "u8 list \<Rightarrow> u32 \<Rightarrow> u32 \<Rightarrow> string + u8 list"

definition to_png :: "png_encoder \<Rightarrow> framebuffer \<Rightarrow> display_error + u8 list" where
  "to_png enc f = map_err (ImageUndecodable ''the rendered frame'')
    (enc (concat (map (\<lambda>p. [rgb_r p, rgb_g p, rgb_b p]) (quantized f))) (fb_width f) (fb_height f))"

fun encode_frames :: "png_encoder \<Rightarrow> (framebuffer \<times> duration) list \<Rightarrow> display_error + (u8 list \<times> duration) list" where
  "encode_frames enc [] = Inr []"
| "encode_frames enc ((f, d) # fs) =
    and_then (to_png enc f) (\<lambda>png. and_then (encode_frames enc fs) (\<lambda>r. Inr ((png, d) # r)))"

record preview_env =
  pe_renderer :: renderer_env
  pe_png :: png_encoder

definition compile_picture :: "preview_env \<Rightarrow> image_env \<Rightarrow> display_preset \<Rightarrow> lcd_panel \<Rightarrow> picture_identity \<Rightarrow>
    display_error + preview_picture" where
  "compile_picture pe im p panel i = (case pi_source i of
      SourceReadings _ samples \<Rightarrow>
        and_then (render (pe_renderer pe) im p samples panel) (\<lambda>f.
        and_then (to_png (pe_png pe) f) (\<lambda>png. Inr (StillPicture i png)))
    | SourceImage _ _ _ \<Rightarrow>
        and_then (render_image_frames im p panel) (\<lambda>rendered.
        and_then (encode_frames (pe_png pe) rendered) (\<lambda>frames.
          Inr (FilmPicture \<lparr>fi_identity = i, fi_frames = frames, fi_cursor = 0\<rparr>))))"

section \<open>The screen\<close>

record display_screen =
  sc_editor :: display_editor
  sc_last_valid :: display_preset
  sc_picture :: preview_picture
  sc_picture_error :: "display_error option"
  sc_film_generation :: u64

definition display_screen_default :: display_screen where
  "display_screen_default = \<lparr>sc_editor = display_editor_default,
    sc_last_valid = (case editor_preset display_editor_default of Inr p \<Rightarrow> p | Inl _ \<Rightarrow> default_infographic),
    sc_picture = NoPicture, sc_picture_error = None, sc_film_generation = 0\<rparr>"

definition edit_display :: "(display_editor \<Rightarrow> display_editor) \<Rightarrow> display_screen \<Rightarrow> display_screen" where
  "edit_display f s =
    (let e = f (sc_editor s); s = s\<lparr>sc_editor := e\<rparr>
     in case editor_preset e of Inr p \<Rightarrow> s\<lparr>sc_last_valid := p\<rparr> | Inl _ \<Rightarrow> s)"

definition adopt_preset :: "display_preset \<Rightarrow> display_screen \<Rightarrow> display_screen" where
  "adopt_preset p s = edit_display (\<lambda>_. from_preset p) s"

definition advance_film :: "display_screen \<Rightarrow> bool \<times> display_screen" where
  "advance_film s = (let (playing, c) = picture_advance (sc_picture s) in (playing, s\<lparr>sc_picture := c\<rparr>))"

definition next_film_generation :: "display_screen \<Rightarrow> u64 \<times> display_screen" where
  "next_film_generation s = (let g = sc_film_generation s + 1 in (g, s\<lparr>sc_film_generation := g\<rparr>))"

definition sync_picture :: "preview_env \<Rightarrow> image_env \<Rightarrow> lcd_panel option \<Rightarrow> telemetry_snapshot option \<Rightarrow>
    display_screen \<Rightarrow> bool \<times> display_screen" where
  "sync_picture pe im panel telemetry s =
    (case (case panel of Some p \<Rightarrow> if 0 < lp_width p \<and> 0 < lp_height p then Some p else None | None \<Rightarrow> None) of
       None \<Rightarrow> (picture_png (sc_picture s) \<noteq> None \<or> sc_picture_error s \<noteq> None,
         s\<lparr>sc_picture := NoPicture, sc_picture_error := None\<rparr>)
     | Some p \<Rightarrow>
         (let wanted = identity_of (sc_last_valid s) p telemetry
          in if picture_is (sc_picture s) wanted then (False, s)
             else (True, case compile_picture pe im (sc_last_valid s) p wanted of
               Inr c \<Rightarrow> s\<lparr>sc_picture := c, sc_picture_error := None\<rparr>
             | Inl e \<Rightarrow> s\<lparr>sc_picture := NoPicture, sc_picture_error := Some e\<rparr>)))"

section \<open>What the window sends comes back\<close>

text \<open>What the editor makes of a preset it opens on: every band has an end color, there is no logo, and the
  path is trimmed and belongs to the image mode.\<close>

definition normal_preset :: "display_preset \<Rightarrow> display_preset" where
  "normal_preset p = (case dp_readings p of (s1, s2) \<Rightarrow>
    let path = (case dp_image p of Some path \<Rightarrow> trim path | None \<Rightarrow> [])
    in p\<lparr>dp_readings := (s1\<lparr>rs_reading_end := Some (band_end s1)\<rparr>, s2\<lparr>rs_reading_end := Some (band_end s2)\<rparr>),
      dp_logo := None, dp_image := if uses_image (dp_mode p) \<and> path \<noteq> [] then Some path else None\<rparr>)"

lemma editor_preset_from_preset:
  assumes "brightness_ok (dp_brightness p)"
  shows "editor_preset (from_preset p) = and_then (validate_preset (normal_preset p)) (\<lambda>_. Inr (normal_preset p))"
proof -
  obtain s1 s2 where r: "dp_readings p = (s1, s2)" by fastforce
  have b: "brightness_new (percent (dp_brightness p)) = Inr (dp_brightness p)"
    using assms by (cases "dp_brightness p") (simp add: brightness_new_def brightness_ok_def not_less)
  have e: "normal_preset p = \<lparr>dp_mode = dp_mode p, dp_readings =
      (\<lparr>rs_metric = rs_metric s1, rs_reading = rs_reading s1, rs_reading_end = Some (band_end s1), rs_text = rs_text s1\<rparr>,
       \<lparr>rs_metric = rs_metric s2, rs_reading = rs_reading s2, rs_reading_end = Some (band_end s2), rs_text = rs_text s2\<rparr>),
      dp_background = dp_background p, dp_logo = None, dp_orientation = dp_orientation p, dp_brightness = dp_brightness p,
      dp_image = (let path = (case dp_image p of Some path \<Rightarrow> trim path | None \<Rightarrow> [])
        in if uses_image (dp_mode p) \<and> path \<noteq> [] then Some path else None)\<rparr>"
    by (cases p; cases s1; cases s2) (simp add: normal_preset_def r [symmetric] Let_def, use r in \<open>simp add: Let_def\<close>)
  show ?thesis
    unfolding e
    by (cases "dp_image p") (simp_all add: editor_preset_def from_preset_def r slot_of_def field_color_def color_text_def
        parse_hex_to_hex b Let_def map_err_def)
qed

lemma editor_preset_facts:
  assumes "editor_preset e = Inr p"
  shows "validate_preset p = Inr () \<and> brightness_ok (dp_brightness p) \<and> normal_preset p = p"
proof -
  obtain s1 s2 bg b where
    s: "slot_of e (fst (de_metrics e)) ReadingOne FadeOne TextOne = Inr s1"
      "slot_of e (snd (de_metrics e)) ReadingTwo FadeTwo TextTwo = Inr s2"
    and b: "brightness_new (de_brightness e) = Inr b"
    and v: "validate_preset p = Inr ()"
    and p: "p = \<lparr>dp_mode = de_mode e, dp_readings = (s1, s2), dp_background = bg, dp_logo = None,
      dp_orientation = de_orientation e, dp_brightness = b,
      dp_image = if uses_image (de_mode e) \<and> trim (de_image_path e) \<noteq> [] then Some (trim (de_image_path e)) else None\<rparr>"
    using assms by (auto simp: editor_preset_def and_then_Inr_iff Let_def map_err_def split: sum.splits)
  have "rs_reading_end s1 \<noteq> None" "rs_reading_end s2 \<noteq> None"
    using s by (auto simp: slot_of_def and_then_Inr_iff)
  then have "normal_preset p = p" unfolding p normal_preset_def by (auto simp: Let_def band_end_def)
  then show ?thesis using v brightness_new_ok [OF b] by (simp add: p)
qed

text \<open>A window opened again shows the panel's preset, and what it shows it can send. A preset the window
  sent is the one an editor opened on it holds, and it validates; a preset from elsewhere opens as its
  normal form, with an end color for every band, without the logo and with the path trimmed, or with the
  error that form has.\<close>

theorem preset_comes_back:
  "(case editor_preset e of
      Inr p \<Rightarrow> validate_preset p = Inr () \<and> editor_preset (from_preset p) = Inr p
    | Inl _ \<Rightarrow> True) \<and>
   (if brightness_ok (dp_brightness p)
    then editor_preset (from_preset p) = and_then (validate_preset (normal_preset p)) (\<lambda>_. Inr (normal_preset p))
    else True)"
  using editor_preset_from_preset editor_preset_facts [of e] by (auto split: sum.split)

section \<open>What the preview shows\<close>

lemma encode_frames_each:
  "encode_frames enc fs = Inr gs \<Longrightarrow> list_all2 (\<lambda>(f, d) (png, d'). to_png enc f = Inr png \<and> d' = d) fs gs"
  by (induction enc fs arbitrary: gs rule: encode_frames.induct) (auto simp: and_then_Inr_iff)

lemma compiled_film:
  assumes "compile_picture pe im p panel i = Inr (FilmPicture film)"
  shows "fi_frames film \<noteq> [] \<and> fi_cursor film = 0 \<and> fi_identity film = i"
proof -
  obtain fs gs where fs: "render_image_frames im p panel = Inr fs" "encode_frames (pe_png pe) fs = Inr gs"
    and f: "film = \<lparr>fi_identity = i, fi_frames = gs, fi_cursor = 0\<rparr>"
    using assms by (auto simp: compile_picture_def and_then_Inr_iff split: picture_source.splits)
  have "fs \<noteq> []" using fs(1) picture_frames_bounds by (fastforce simp: render_image_frames_def and_then_Inr_iff)
  then have "gs \<noteq> []" using encode_frames_each [OF fs(2)] by auto
  then show ?thesis by (simp add: f)
qed

text \<open>The preview and the glass are made of the same frames. When the preview compiles a picture of an
  image preset, the daemon's renderer compiles the same number of frames with the same delays from the same
  file, and each frame of the preview encodes the very pixels of which the panel is sent the bytes; of any
  other preset both are made of the one rendered frame.\<close>

theorem preview_agrees_with_panel:
  "case compile_picture pe im p panel (identity_of p panel t) of
      Inl _ \<Rightarrow> True
    | Inr NoPicture \<Rightarrow> False
    | Inr (StillPicture i png) \<Rightarrow> i = identity_of p panel t \<and>
        (\<exists>f samples. pi_source i = SourceReadings p samples \<and> to_png (pe_png pe) f = Inr png \<and>
          render (pe_renderer pe) im p samples panel = Inr f \<and>
          pr_render (kori_renderer (pe_renderer pe) (\<lambda>_. im)) p samples panel = Inr (to_rgb565_be f))
    | Inr (FilmPicture film) \<Rightarrow> fi_identity film = identity_of p panel t \<and> fi_frames film \<noteq> [] \<and> fi_cursor film = 0 \<and>
        (\<exists>fs. pr_frames (kori_renderer (pe_renderer pe) (\<lambda>_. im)) es p panel = Inr (map (\<lambda>(f, d). (to_rgb565_be f, d)) fs) \<and>
          list_all2 (\<lambda>(f, d) (png, d'). to_png (pe_png pe) f = Inr png \<and> d' = d) fs (fi_frames film))"
proof (cases "compile_picture pe im p panel (identity_of p panel t)")
  case (Inr c)
  show ?thesis
  proof (cases "pi_source (identity_of p panel t)")
    case (SourceImage path q bg)
    then obtain fs gs where f: "render_image_frames im p panel = Inr fs" "encode_frames (pe_png pe) fs = Inr gs"
      "c = FilmPicture \<lparr>fi_identity = identity_of p panel t, fi_frames = gs, fi_cursor = 0\<rparr>"
      using Inr by (auto simp: compile_picture_def and_then_Inr_iff)
    then show ?thesis
      using Inr compiled_film [of pe im p panel "identity_of p panel t"] encode_frames_each [OF f(2)]
      by (auto simp: kori_renderer_def intro!: exI [of _ fs])
  next
    case (SourceReadings q samples)
    then have "q = p" by (auto simp: identity_of_def split: if_splits)
    then show ?thesis
      using Inr SourceReadings by (auto simp: compile_picture_def kori_renderer_def and_then_Inr_iff)
  qed
qed simp

datatype display_op =
    DisplayEdit "display_editor \<Rightarrow> display_editor"
  | DisplayAdopt display_preset
  | DisplayAdvance
  | DisplayGeneration
  | DisplaySync image_env "lcd_panel option" "telemetry_snapshot option"

fun display_step :: "preview_env \<Rightarrow> display_screen \<Rightarrow> display_op \<Rightarrow> display_screen" where
  "display_step pe s (DisplayEdit f) = edit_display f s"
| "display_step pe s (DisplayAdopt p) = adopt_preset p s"
| "display_step pe s DisplayAdvance = snd (advance_film s)"
| "display_step pe s DisplayGeneration = snd (next_film_generation s)"
| "display_step pe s (DisplaySync im panel t) = snd (sync_picture pe im panel t s)"

text \<open>What always holds of the screen.\<close>

definition screen_ok :: "display_screen \<Rightarrow> bool" where
  "screen_ok s \<longleftrightarrow> validate_preset (sc_last_valid s) = Inr () \<and>
    (case editor_preset (sc_editor s) of Inr p \<Rightarrow> sc_last_valid s = p | Inl _ \<Rightarrow> True) \<and>
    (case sc_picture s of FilmPicture f \<Rightarrow> fi_cursor f < length (fi_frames f) | _ \<Rightarrow> True) \<and>
    (if sc_picture_error s = None then True else sc_picture s = NoPicture)"

lemma screen_ok_generation [simp]: "screen_ok (s\<lparr>sc_film_generation := g\<rparr>) = screen_ok s"
  by (simp add: screen_ok_def cong: sum.case_cong)

lemma edit_display_ok: "screen_ok s \<Longrightarrow> screen_ok (edit_display f s)"
  using editor_preset_facts [of "f (sc_editor s)"]
  by (auto simp: screen_ok_def edit_display_def Let_def split: sum.split)

lemma advance_film_ok: "screen_ok s \<Longrightarrow> screen_ok (snd (advance_film s))"
  by (cases "sc_picture s")
    (auto simp: screen_ok_def advance_film_def picture_advance_def film_advance_def film_is_animated_def
      split: sum.splits if_splits)

lemma sync_picture_ok:
  assumes "screen_ok s" shows "screen_ok (snd (sync_picture pe im panel t s))"
proof (cases "\<exists>p. panel = Some p \<and> 0 < lp_width p \<and> 0 < lp_height p \<and> \<not> picture_is (sc_picture s) (identity_of (sc_last_valid s) p t)")
  case True
  then obtain p where p: "panel = Some p" "0 < lp_width p" "0 < lp_height p"
    "\<not> picture_is (sc_picture s) (identity_of (sc_last_valid s) p t)" by blast
  then show ?thesis
    using assms compiled_film [of pe im "sc_last_valid s" p "identity_of (sc_last_valid s) p t"]
    by (cases "compile_picture pe im (sc_last_valid s) p (identity_of (sc_last_valid s) p t)")
      (auto simp: sync_picture_def screen_ok_def Let_def split: preview_picture.splits sum.splits)
qed (use assms in \<open>auto simp: sync_picture_def screen_ok_def Let_def split: option.split sum.splits\<close>)

lemma screen_default_ok: "screen_ok display_screen_default"
proof -
  have "normal_preset default_infographic = default_infographic" "validate_preset default_infographic = Inr ()"
    "brightness_ok (dp_brightness default_infographic)"
    by (simp_all add: default_infographic_def normal_preset_def validate_preset_def uses_image_def band_end_def
        brightness_ok_def BRIGHTNESS_FULL_def MAX_BRIGHTNESS_def)
  then have "editor_preset display_editor_default = Inr default_infographic"
    using editor_preset_from_preset [of default_infographic] by (simp add: display_editor_default_def)
  then show ?thesis
    using editor_preset_facts by (auto simp: screen_ok_def display_screen_default_def)
qed

interpretation screen: fold_invariant display_screen_default "display_step pe" screen_ok
proof
  show "screen_ok (display_step pe s k)" if "screen_ok s" for s k
    using that by (cases k) (simp_all add: edit_display_ok adopt_preset_def advance_film_ok sync_picture_ok
        next_film_generation_def Let_def)
qed (rule screen_default_ok)

text \<open>C40: The preview never goes blank for an unfinished entry and never lags behind a finished one. Over any
  edits, whatever they do to the editor, any adoptions, samples and frames, it holds a preset that
  validates, which is the editor's own whenever the editor is complete; the animation never runs past its
  last frame, and a compile that failed leaves no picture under its error.\<close>

theorem preview_always_valid:
  "screen_ok (foldl (display_step pe) display_screen_default ks)"
  by (rule screen.inv_run)

section \<open>Compiling once\<close>

lemma film_advance_times: "fi_frames f \<noteq> [] \<Longrightarrow> fi_cursor f < length (fi_frames f) \<Longrightarrow>
    (film_advance ^^ n) f = f\<lparr>fi_cursor := (fi_cursor f + n) mod length (fi_frames f)\<rparr>"
  by (induction n) (simp_all add: film_advance_def mod_Suc_eq)

text \<open>A picture is compiled once, unless it fails. After a sample or an edit the picture is the one of
  the present preset, panel and readings, or none with the reason; the same sample again changes nothing
  and arms no timer when there is a picture, but compiles again whenever there is none, so a file that does
  not decode is read on every sample.\<close>

theorem picture_compiled_once:
  "case sync_picture pe im (Some panel) t s of (_, s') \<Rightarrow>
     if lp_width panel = 0 \<or> lp_height panel = 0 then sc_picture s' = NoPicture \<and> sc_picture_error s' = None
     else if picture_is (sc_picture s) (identity_of (sc_last_valid s) panel t) then s' = s
     else (case compile_picture pe im (sc_last_valid s) panel (identity_of (sc_last_valid s) panel t) of
         Inr c \<Rightarrow> sc_picture s' = c \<and> sc_picture_error s' = None \<and> sync_picture pe im (Some panel) t s' = (False, s')
       | Inl e \<Rightarrow> sc_picture s' = NoPicture \<and> sc_picture_error s' = Some e \<and> sync_picture pe im (Some panel) t s' = (True, s'))"
proof (cases "compile_picture pe im (sc_last_valid s) panel (identity_of (sc_last_valid s) panel t)")
  case (Inr c)
  then have "picture_identity_of c = Some (identity_of (sc_last_valid s) panel t)"
    using compiled_film [of pe im "sc_last_valid s" panel "identity_of (sc_last_valid s) panel t"]
    by (auto simp: compile_picture_def and_then_Inr_iff picture_identity_of_def split: picture_source.splits)
  then show ?thesis using Inr by (auto simp: sync_picture_def picture_is_def Let_def word_neq_0_conv)
qed (auto simp: sync_picture_def picture_is_def picture_identity_of_def Let_def word_neq_0_conv)

end
