(* ===== verification/Pointer.thy ===== *)
theory Pointer
  imports Canvas Curve
begin

text \<open>
  What a pointer position means: \<open>Slider::value_at\<close> of \<open>crates/app/src/components/control.rs\<close> and
  \<open>node_at\<close> of \<open>components/curve.rs\<close>.
  Pixels are binary32, so the lemmas hold for positions off the screen, infinite ones and NaN.
\<close>

record point =
  pt_x :: f32
  pt_y :: f32

record bounds =
  bo_origin :: point
  bo_width :: f32
  bo_height :: f32

text \<open>The share of an extent a coordinate is at, held inside it.\<close>

definition share_at :: "f32 \<Rightarrow> f32 \<Rightarrow> f32 \<Rightarrow> f32" where
  "share_at x origin extent =
    f32_clamp (f32_div (f32_sub x origin) (f32_max extent (F32 1))) (F32 0) (F32 1)"

definition slider_value_at :: "bounds \<Rightarrow> point \<Rightarrow> f32 \<Rightarrow> f32 \<Rightarrow> f32" where
  "slider_value_at b p mn mx =
    f32_add mn (f32_mul (f32_sub mx mn) (share_at (pt_x p) (pt_x (bo_origin b)) (bo_width b)))"

definition slider_fraction :: "f32 \<Rightarrow> f32 \<Rightarrow> f32 \<Rightarrow> f32" where
  "slider_fraction v mn mx = (if f32_le mx mn then F32 0
    else f32_clamp (f32_div (f32_sub v mn) (f32_sub mx mn)) (F32 0) (F32 1))"

definition f32_as_usize :: "f32 \<Rightarrow> nat" where
  "f32_as_usize a = nat (f32_to_int 0 (2 ^ 64 - 1) a)"

definition node_at :: "bounds \<Rightarrow> point \<Rightarrow> nat \<times> u8" where
  "node_at b p =
    (let across = share_at (pt_x p) (pt_x (bo_origin b)) (bo_width b);
         up = f32_sub (F32 1) (share_at (pt_y p) (pt_y (bo_origin b)) (bo_height b));
         index = f32_as_usize (f32_round_away (f32_mul across (F32 (of_nat (CURVE_NODE_COUNT - 1)))));
         percent = f32_as_u8 (f32_clamp (f32_round_away (f32_mul up (F32 (of_int (uint MAX_DUTY_PERCENT))))) (F32 0) (F32 100))
     in (min index (CURVE_NODE_COUNT - 1), duty_from_percent percent))"

definition plot_node :: "nat \<Rightarrow> u8 \<Rightarrow> bounds \<Rightarrow> point" where
  "plot_node index duty b =
    (let across = f32_div (F32 (of_nat (min index (CURVE_NODE_COUNT - 1)))) (F32 (of_nat (CURVE_NODE_COUNT - 1)));
         up = f32_div (f32_of_u8 duty) (F32 255)
     in \<lparr>pt_x = f32_add (pt_x (bo_origin b)) (f32_mul (bo_width b) across),
         pt_y = f32_add (pt_y (bo_origin b)) (f32_mul (bo_height b) (f32_sub (F32 1) up))\<rparr>)"

section \<open>A position always names a value in the range\<close>

definition f32_within :: "rat \<Rightarrow> rat \<Rightarrow> f32 \<Rightarrow> bool" where
  "f32_within l h a = (case a of F32 x \<Rightarrow> l \<le> x \<and> x \<le> h | F32_NaN \<Rightarrow> True | F32_Inf _ \<Rightarrow> False)"

lemma clamp_within: "l \<le> h \<Longrightarrow> f32_within l h (f32_clamp a (F32 l) (F32 h))"
  by (cases a) (auto simp: f32_within_def f32_clamp_def f32_less_def not_less)

lemma share_within: "f32_within 0 1 (share_at x origin extent)"
  unfolding share_at_def by (rule clamp_within) simp

lemma value_within:
  fixes lo hi :: int
  assumes "0 \<le> lo" "lo \<le> hi" "hi \<le> 2 ^ 24" "f32_within 0 1 s"
  shows "f32_within (of_int lo) (of_int hi) (f32_add (F32 (of_int lo)) (f32_mul (f32_sub (F32 (of_int hi)) (F32 (of_int lo))) s))"
proof (cases s)
  case (F32 x)
  then have x: "0 \<le> x" "x \<le> 1" using assms(4) by (simp_all add: f32_within_def)
  have d: "f32_sub (F32 (of_int hi)) (F32 (of_int lo)) = F32 (of_int (hi - lo))"
    using f32_of_int_exact [of "hi - lo"] assms by (simp add: f32_arith_simps f32_of_int_def)
  have "of_int 0 \<le> of_int (hi - lo) * x" "of_int (hi - lo) * x \<le> of_int (hi - lo)"
    using x assms(2) by (simp_all add: mult_left_le)
  then have m: "f32_round (of_int (hi - lo) * x) = F32 (round_sig (of_int (hi - lo) * x))"
    "of_int 0 \<le> round_sig (of_int (hi - lo) * x)" "round_sig (of_int (hi - lo) * x) \<le> of_int (hi - lo)"
    using f32_round_bounded [of 0 "hi - lo" "of_int (hi - lo) * x"] assms by simp_all
  define y where "y = round_sig (of_int (hi - lo) * x)"
  have e: "f32_mul (F32 (of_int (hi - lo))) (F32 x) = F32 y" using m(1) by (simp add: f32_arith_simps y_def)
  have "of_int lo \<le> of_int lo + y" "of_int lo + y \<le> of_int hi" using m(2,3) by (simp_all add: y_def)
  then show ?thesis
    using f32_round_bounded [of lo hi "of_int lo + y"] assms
    unfolding F32 d e f32_arith_simps(1) by (simp add: f32_within_def)
qed (use assms in \<open>simp_all add: f32_within_def f32_add_def f32_mul_def f32_sub_def f32_neg_def f32_round_def Let_def\<close>)

lemma f32_as_u8_within:
  assumes "f32_within (of_int lo) (of_int hi) a" "0 \<le> lo" "lo \<le> hi" "hi \<le> 255"
  shows "f32_as_u8 (f32_round_away a) = 0 \<and> a = F32_NaN \<or>
    lo \<le> uint (f32_as_u8 (f32_round_away a)) \<and> uint (f32_as_u8 (f32_round_away a)) \<le> hi"
proof (cases a)
  case (F32 x)
  then have r: "lo \<le> round_away x" "round_away x \<le> hi"
    using assms(1) round_away_mono [of "of_int lo" x] round_away_mono [of x "of_int hi"]
    by (simp_all add: f32_within_def)
  then have "f32_to_int 0 255 (F32 (of_int (round_away x))) = round_away x"
    using assms by (simp add: f32_to_int_of_int)
  then have "uint (f32_as_u8 (f32_round_away a)) = round_away x"
    using r assms take_bit_int_eq_self [of "round_away x" 8]
    by (simp add: F32 f32_as_u8_def f32_round_away_def uint_word_of_int)
  then show ?thesis using r by simp
qed (use assms(1) in \<open>simp_all add: f32_within_def f32_as_u8_def f32_round_away_def f32_to_int_def\<close>)

text \<open>Whatever the pointer does, a gesture names a value the control has. A slider over the whole numbers
  from \<open>lo\<close> to \<open>hi\<close> gives one of them, or zero for a position that is no number; a press on a plot gives
  one of the nine nodes and a duty on the percent grid, which reads back as it is.\<close>

theorem gestures_stay_in_range:
  "(if lo \<le> hi \<and> hi \<le> 255
    then let v = unat (f32_as_u8 (f32_round_away (slider_value_at b p (F32 (of_nat lo)) (F32 (of_nat hi))))) in
      v = 0 \<or> lo \<le> v \<and> v \<le> hi
    else True) \<and>
   fst (node_at b p) < 9 \<and>
   duty_from_percent (duty_to_percent (snd (node_at b p))) = snd (node_at b p)"
proof (intro conjI)
  show "if lo \<le> hi \<and> hi \<le> 255
    then let v = unat (f32_as_u8 (f32_round_away (slider_value_at b p (F32 (of_nat lo)) (F32 (of_nat hi))))) in
      v = 0 \<or> lo \<le> v \<and> v \<le> hi
    else True"
  proof (cases "lo \<le> hi \<and> hi \<le> 255")
    case True
    let ?a = "slider_value_at b p (F32 (of_nat lo)) (F32 (of_nat hi))"
    have "f32_within (of_int (int lo)) (of_int (int hi)) ?a"
      using value_within [of "int lo" "int hi" "share_at (pt_x p) (pt_x (bo_origin b)) (bo_width b)"] share_within True
      by (simp add: slider_value_at_def)
    then have "f32_as_u8 (f32_round_away ?a) = 0 \<or>
        int lo \<le> int (unat (f32_as_u8 (f32_round_away ?a))) \<and> int (unat (f32_as_u8 (f32_round_away ?a))) \<le> int hi"
      using f32_as_u8_within [of "int lo" "int hi" ?a] True by auto
    then show ?thesis using True unfolding Let_def by (simp only: of_nat_le_iff simp_thms if_True) (auto simp only: unsigned_0)
  qed auto
  show "fst (node_at b p) < 9" by (simp add: node_at_def Let_def CURVE_NODE_COUNT_def)
  define c where "c = f32_clamp (f32_round_away (f32_mul (f32_sub (F32 1) (share_at (pt_y p) (pt_y (bo_origin b)) (bo_height b)))
    (F32 (of_int (uint MAX_DUTY_PERCENT))))) (F32 0) (F32 100)"
  have n: "snd (node_at b p) = duty_from_percent (f32_as_u8 c)" by (simp add: node_at_def Let_def c_def)
  have "duty_from_percent (min m 100) = duty_from_percent m" for m
    by (simp add: word_unat_eq_iff unat_duty_from_percent) (simp add: min_def word_le_nat_alt)
  then show "duty_from_percent (duty_to_percent (snd (node_at b p))) = snd (node_at b p)"
    using duty_percent_round_trip [of "f32_as_u8 c"] by (simp add: n)
qed

end
