(* ===== verification/Metric_Book.thy ===== *)
theory Metric_Book
  imports Metric_View
begin

text \<open>
  \<open>crates/app/src/metrics.rs\<close>: the client's rolling view of every metric. A snapshot is folded in on every
  poll; each section is recorded in its series only when its own stamp advanced. The lemmas reduce every
  series of the book to the stream of the advances of its section.
\<close>

section \<open>The book\<close>

record metric_series =
  mx_tracked :: "f32 tracked"
  mx_history :: history

definition series_new :: metric_series where
  "series_new = \<lparr>mx_tracked = tracked_new, mx_history = history_new HISTORY_WINDOW_MS\<rparr>"

definition series_observe :: "f32 reading \<Rightarrow> u64 \<Rightarrow> bool \<Rightarrow> metric_series \<Rightarrow> metric_series" where
  "series_observe r stamp fresh s =
    (let s = s\<lparr>mx_tracked := tracked_observe (mx_tracked s) (r, stamp)\<rparr>
     in if fresh then s\<lparr>mx_history := history_push (mx_history s) (stamp, reading_value r)\<rparr> else s)"

definition series_view :: "metric_series \<Rightarrow> u64 \<Rightarrow> f32 metric_view" where
  "series_view s now = tracked_view (mx_tracked s) now"

record channel_metrics =
  cx_rpm :: metric_series
  cx_duty :: "u8 tracked"
  cx_mode :: "pwm_mode tracked"

definition channel_metrics_new :: channel_metrics where
  "channel_metrics_new = \<lparr>cx_rpm = series_new, cx_duty = tracked_new, cx_mode = tracked_new\<rparr>"

record metric_book =
  mb_cpu_load :: metric_series
  mb_cpu_temperature :: metric_series
  mb_gpu_load :: metric_series
  mb_gpu_temperature :: metric_series
  mb_gpu_name :: "string tracked"
  mb_memory_percent :: metric_series
  mb_memory :: "memory_usage tracked"
  mb_liquid :: metric_series
  mb_pump :: channel_metrics
  mb_fan :: channel_metrics
  mb_kraken_at :: u64
  mb_system_at :: u64
  mb_gpu_at :: u64

definition metric_book_new :: metric_book where
  "metric_book_new = \<lparr>mb_cpu_load = series_new, mb_cpu_temperature = series_new, mb_gpu_load = series_new,
    mb_gpu_temperature = series_new, mb_gpu_name = tracked_new, mb_memory_percent = series_new,
    mb_memory = tracked_new, mb_liquid = series_new, mb_pump = channel_metrics_new, mb_fan = channel_metrics_new,
    mb_kraken_at = 0, mb_system_at = 0, mb_gpu_at = 0\<rparr>"

text \<open>Whether a section's clock moved, and the clock after it.\<close>

definition advanced :: "u64 \<Rightarrow> u64 \<Rightarrow> bool \<times> u64" where
  "advanced held stamp = (let fresh = held < stamp in (fresh, if fresh then stamp else held))"

definition channel_observe :: "channel_telemetry \<Rightarrow> u64 \<Rightarrow> bool \<Rightarrow> channel_metrics \<Rightarrow> channel_metrics" where
  "channel_observe t stamp fresh m =
    \<lparr>cx_rpm = series_observe (reading_map (\<lambda>v. f32_of_int (uint v)) (ct_rpm t)) stamp fresh (cx_rpm m),
     cx_duty = tracked_observe (cx_duty m) (ct_duty t, stamp),
     cx_mode = tracked_observe (cx_mode m) (ct_mode t, stamp)\<rparr>"

definition observe_kraken :: "kraken_telemetry \<Rightarrow> bool \<Rightarrow> metric_book \<Rightarrow> metric_book" where
  "observe_kraken k fresh b =
    (let stamp = kt_at_unix_ms k
     in b\<lparr>mb_liquid := series_observe (kt_liquid_temperature_c k) stamp fresh (mb_liquid b),
          mb_pump := channel_observe (kt_pump k) stamp fresh (mb_pump b),
          mb_fan := channel_observe (kt_fan k) stamp fresh (mb_fan b)\<rparr>)"

definition memory_occupancy :: "memory_usage reading \<Rightarrow> f32 reading" where
  "memory_occupancy r = (case r of
      Valid m \<Rightarrow> (case memory_percent m of
          Some p \<Rightarrow> Valid p
        | None \<Rightarrow> NoReading (Unparsable ''The memory collector reported no total, so occupancy has no percentage.''))
    | NoReading c \<Rightarrow> NoReading c)"

definition observe_system :: "system_telemetry \<Rightarrow> bool \<Rightarrow> metric_book \<Rightarrow> metric_book" where
  "observe_system t fresh b =
    (let stamp = st_at_unix_ms t
     in b\<lparr>mb_cpu_load := series_observe (st_cpu_load_percent t) stamp fresh (mb_cpu_load b),
          mb_cpu_temperature := series_observe (st_cpu_temperature_c t) stamp fresh (mb_cpu_temperature b),
          mb_memory := tracked_observe (mb_memory b) (st_memory t, stamp),
          mb_memory_percent := series_observe (memory_occupancy (st_memory t)) stamp fresh (mb_memory_percent b)\<rparr>)"

definition observe_gpu :: "gpu_telemetry \<Rightarrow> bool \<Rightarrow> metric_book \<Rightarrow> metric_book" where
  "observe_gpu t fresh b =
    (let stamp = gt_at_unix_ms t
     in b\<lparr>mb_gpu_load := series_observe (gt_load_percent t) stamp fresh (mb_gpu_load b),
          mb_gpu_temperature := series_observe (gt_temperature_c t) stamp fresh (mb_gpu_temperature b),
          mb_gpu_name := tracked_observe (mb_gpu_name b) (gt_name t, stamp)\<rparr>)"

definition book_observe :: "metric_book \<Rightarrow> telemetry_snapshot \<Rightarrow> metric_book" where
  "book_observe b s =
    (let (fresh_kraken, k) = advanced (mb_kraken_at b) (kt_at_unix_ms (ts_kraken s));
         b = observe_kraken (ts_kraken s) fresh_kraken (b\<lparr>mb_kraken_at := k\<rparr>);
         (fresh_system, y) = advanced (mb_system_at b) (st_at_unix_ms (ts_system s));
         b = observe_system (ts_system s) fresh_system (b\<lparr>mb_system_at := y\<rparr>);
         (fresh_gpu, g) = advanced (mb_gpu_at b) (gt_at_unix_ms (ts_gpu s))
     in observe_gpu (ts_gpu s) fresh_gpu (b\<lparr>mb_gpu_at := g\<rparr>))"

definition book_channel :: "channel \<Rightarrow> metric_book \<Rightarrow> channel_metrics" where
  "book_channel ch b = (case ch of Pump \<Rightarrow> mb_pump b | Fan \<Rightarrow> mb_fan b)"

definition book_run :: "telemetry_snapshot list \<Rightarrow> metric_book" where
  "book_run ss = foldl book_observe metric_book_new ss"

section \<open>Each series is the stream of its section's advances\<close>

text \<open>The events of a stream whose stamp is later than every one before.\<close>

fun advances :: "u64 \<Rightarrow> (u64 \<times> 'a) list \<Rightarrow> (u64 \<times> 'a) list" where
  "advances held [] = []"
| "advances held ((t, v) # es) = (if held < t then (t, v) # advances t es else advances held es)"

definition series_of :: "(u64 \<times> f32 reading) list \<Rightarrow> metric_series \<Rightarrow> bool" where
  "series_of es s \<longleftrightarrow>
    mx_history s = history_run HISTORY_WINDOW_MS (map (\<lambda>(t, r). (t, reading_value r)) (advances 0 es)) \<and>
    mx_tracked s = tracked_run (map (\<lambda>(t, r). (r, t)) es)"

lemma advances_snoc:
  "advances held (es @ [(t, v)]) = advances held es @ (if last (held # map fst (advances held es)) < t then [(t, v)] else [])"
  by (induction held es rule: advances.induct) auto

definition latest :: "(u64 \<times> 'a) list \<Rightarrow> u64" where
  "latest es = last (0 # map fst (advances 0 es))"

lemma advances_latest: "advances 0 (es @ [(t, v)]) = advances 0 es @ (if latest es < t then [(t, v)] else [])"
  by (simp add: latest_def advances_snoc)

lemma latest_snoc: "latest (es @ [(t, v)]) = (if latest es < t then t else latest es)"
  by (simp add: latest_def advances_snoc)

lemma latest_map: "latest (map (\<lambda>x. (t x, f x)) xs) = latest (map (\<lambda>x. (t x, g x)) xs)"
proof -
  have "map fst (advances h (map (\<lambda>x. (t x, f x)) xs)) = map fst (advances h (map (\<lambda>x. (t x, g x)) xs))" for h
    by (induction xs arbitrary: h) auto
  then show ?thesis by (simp add: latest_def)
qed

lemma series_of_snoc:
  "series_of es s \<Longrightarrow> series_of (es @ [(t, r)]) (series_observe r t (latest es < t) s)"
  by (simp add: series_of_def series_observe_def Let_def advances_latest history_run_def tracked_run_def)

lemma series_of_new: "series_of [] series_new"
  by (simp add: series_of_def series_new_def history_run_def tracked_run_def)

lemma advances_increasing: "sorted_wrt (<) (held # map fst (advances held es))"
  by (induction held es rule: advances.induct) (auto intro: less_trans)

text \<open>The streams of the book.\<close>

definition kraken_stream :: "(kraken_telemetry \<Rightarrow> f32 reading) \<Rightarrow> telemetry_snapshot list \<Rightarrow> (u64 \<times> f32 reading) list" where
  "kraken_stream f = map (\<lambda>s. (kt_at_unix_ms (ts_kraken s), f (ts_kraken s)))"

definition system_stream :: "(system_telemetry \<Rightarrow> f32 reading) \<Rightarrow> telemetry_snapshot list \<Rightarrow> (u64 \<times> f32 reading) list" where
  "system_stream f = map (\<lambda>s. (st_at_unix_ms (ts_system s), f (ts_system s)))"

definition gpu_stream :: "(gpu_telemetry \<Rightarrow> f32 reading) \<Rightarrow> telemetry_snapshot list \<Rightarrow> (u64 \<times> f32 reading) list" where
  "gpu_stream f = map (\<lambda>s. (gt_at_unix_ms (ts_gpu s), f (ts_gpu s)))"

definition rpm_reading :: "channel_telemetry \<Rightarrow> f32 reading" where
  "rpm_reading t = reading_map (\<lambda>v. f32_of_int (uint v)) (ct_rpm t)"

definition kraken_latest :: "telemetry_snapshot list \<Rightarrow> u64" where
  "kraken_latest ss = latest (kraken_stream (\<lambda>_. Valid (F32 0)) ss)"

definition system_latest :: "telemetry_snapshot list \<Rightarrow> u64" where
  "system_latest ss = latest (system_stream (\<lambda>_. Valid (F32 0)) ss)"

definition gpu_latest :: "telemetry_snapshot list \<Rightarrow> u64" where
  "gpu_latest ss = latest (gpu_stream (\<lambda>_. Valid (F32 0)) ss)"

lemma stream_latest:
  "latest (kraken_stream f ss) = kraken_latest ss" "latest (system_stream g ss) = system_latest ss"
  "latest (gpu_stream h ss) = gpu_latest ss"
  unfolding kraken_latest_def system_latest_def gpu_latest_def kraken_stream_def system_stream_def gpu_stream_def
  by (rule latest_map)+

lemma stream_snoc:
  "kraken_stream f (ss @ [s]) = kraken_stream f ss @ [(kt_at_unix_ms (ts_kraken s), f (ts_kraken s))]"
  "system_stream g (ss @ [s]) = system_stream g ss @ [(st_at_unix_ms (ts_system s), g (ts_system s))]"
  "gpu_stream h (ss @ [s]) = gpu_stream h ss @ [(gt_at_unix_ms (ts_gpu s), h (ts_gpu s))]"
  by (simp_all add: kraken_stream_def system_stream_def gpu_stream_def)

lemma latest_stream_snoc:
  "kraken_latest (ss @ [s]) = (if kraken_latest ss < kt_at_unix_ms (ts_kraken s) then kt_at_unix_ms (ts_kraken s) else kraken_latest ss)"
  "system_latest (ss @ [s]) = (if system_latest ss < st_at_unix_ms (ts_system s) then st_at_unix_ms (ts_system s) else system_latest ss)"
  "gpu_latest (ss @ [s]) = (if gpu_latest ss < gt_at_unix_ms (ts_gpu s) then gt_at_unix_ms (ts_gpu s) else gpu_latest ss)"
  unfolding kraken_latest_def system_latest_def gpu_latest_def stream_snoc by (rule latest_snoc)+

definition book_of :: "telemetry_snapshot list \<Rightarrow> metric_book \<Rightarrow> bool" where
  "book_of ss b \<longleftrightarrow>
    mb_kraken_at b = kraken_latest ss \<and> mb_system_at b = system_latest ss \<and> mb_gpu_at b = gpu_latest ss \<and>
    series_of (kraken_stream kt_liquid_temperature_c ss) (mb_liquid b) \<and>
    series_of (kraken_stream (\<lambda>k. rpm_reading (kt_pump k)) ss) (cx_rpm (mb_pump b)) \<and>
    series_of (kraken_stream (\<lambda>k. rpm_reading (kt_fan k)) ss) (cx_rpm (mb_fan b)) \<and>
    series_of (system_stream st_cpu_load_percent ss) (mb_cpu_load b) \<and>
    series_of (system_stream st_cpu_temperature_c ss) (mb_cpu_temperature b) \<and>
    series_of (system_stream (\<lambda>t. memory_occupancy (st_memory t)) ss) (mb_memory_percent b) \<and>
    series_of (gpu_stream gt_load_percent ss) (mb_gpu_load b) \<and>
    series_of (gpu_stream gt_temperature_c ss) (mb_gpu_temperature b)"

lemma book_of_snoc: "book_of ss b \<Longrightarrow> book_of (ss @ [s]) (book_observe b s)"
  by (simp add: book_of_def book_observe_def advanced_def Let_def observe_kraken_def observe_system_def
      observe_gpu_def channel_observe_def latest_stream_snoc stream_snoc
      series_of_snoc [of "kraken_stream _ _", unfolded stream_latest]
      series_of_snoc [of "system_stream _ _", unfolded stream_latest]
      series_of_snoc [of "gpu_stream _ _", unfolded stream_latest] rpm_reading_def [symmetric])

lemma book_run_of: "book_of ss (book_run ss)"
proof (induction ss rule: rev_induct)
  case Nil
  have "latest [] = 0" by (simp add: latest_def)
  then show ?case
    by (simp add: book_of_def book_run_def metric_book_new_def channel_metrics_new_def series_of_new kraken_stream_def
        system_stream_def gpu_stream_def kraken_latest_def system_latest_def gpu_latest_def)
next
  case (snoc s ss)
  then show ?case using book_of_snoc [OF snoc.IH] by (simp add: book_run_def)
qed

lemma advances_id: "sorted_wrt (<) (held # map fst es) \<Longrightarrow> advances held es = es"
  by (induction held es rule: advances.induct) auto

text \<open>Polling faster than the sampler adds nothing to a chart, and no section is kept fresh by another.
  After any snapshots, repeated, late or out of order, the series of every metric is the series of the
  samples at which the clock of its own section advanced, each of them once and with its gap where it had
  one, and the readout of every metric is that of its own readings with their own stamps.\<close>

theorem series_follow_their_own_clock:
  "book_of ss (book_run ss) \<and> sorted_wrt (<) (map fst (advances 0 es)) \<and>
   (if sorted_wrt (<) (0 # map fst es) then advances 0 es = es else True)"
  using book_run_of [of ss] advances_increasing [of 0 es] advances_id [of 0 es] by auto

end
