(* ===== verification/Chart.thy ===== *)
theory Chart
  imports Metric_View Pointer
begin

text \<open>
  \<open>crates/app/src/components/chart.rs\<close>, as far as it computes: the reduction of a series to the points a
  chart plots, the runs its line is drawn in, and the ordered dither of the area under it. Painting itself
  is the toolkit's. The lemmas show that no hole is hidden and none is invented.
\<close>

section \<open>The plotted points\<close>

definition MAX_PLOTTED_POINTS :: nat where "MAX_PLOTTED_POINTS = 180"

record sparkline =
  sp_history :: "f32 option list"
  sp_min :: f32
  sp_max :: f32

function chunks :: "nat \<Rightarrow> 'a list \<Rightarrow> 'a list list" where
  "chunks n xs = (if n = 0 \<or> xs = [] then [] else take n xs # chunks n (drop n xs))"
  by pat_completeness auto
termination
  by (relation "measure (length \<circ> snd)") auto

declare chunks.simps [simp del]

definition div_ceil :: "nat \<Rightarrow> nat \<Rightarrow> nat" where
  "div_ceil a b = (if a mod b = 0 then a div b else a div b + 1)"

definition bucket_value :: "f32 option list \<Rightarrow> f32 option" where
  "bucket_value chunk = (if None \<in> set chunk then None
    else Some (f32_div (foldl f32_add (F32 0) (map the chunk)) (f32_of_int (int (length chunk)))))"

definition downsample :: "history \<Rightarrow> nat \<Rightarrow> f32 option list" where
  "downsample h limit =
    (let samples = map hp_value (hi_points h)
     in if length samples \<le> limit \<or> limit = 0 then samples
        else map bucket_value (chunks (div_ceil (length samples) limit) samples))"

definition sparkline_new :: "history \<Rightarrow> f32 \<Rightarrow> f32 \<Rightarrow> sparkline" where
  "sparkline_new h mn mx = \<lparr>sp_history = downsample h MAX_PLOTTED_POINTS, sp_min = mn, sp_max = mx\<rparr>"

definition plot_fraction :: "sparkline \<Rightarrow> f32 \<Rightarrow> f32" where
  "plot_fraction s v = slider_fraction v (sp_min s) (sp_max s)"

text \<open>The loop of \<open>segments\<close>: the runs so far, and where the open one started.\<close>

fun segment_step :: "(nat \<times> nat) list \<times> nat option \<Rightarrow> nat \<times> 'a option \<Rightarrow> (nat \<times> nat) list \<times> nat option" where
  "segment_step (runs, start) (index, value) = (case (value, start) of
      (Some _, None) \<Rightarrow> (runs, Some index)
    | (None, Some first) \<Rightarrow> (runs @ [(first, index - 1)], None)
    | _ \<Rightarrow> (runs, start))"

definition segments :: "'a option list \<Rightarrow> (nat \<times> nat) list" where
  "segments vs = (case foldl segment_step ([], None) (enumerate 0 vs) of
      (runs, Some first) \<Rightarrow> runs @ [(first, length vs - 1)]
    | (runs, None) \<Rightarrow> runs)"

section \<open>The dithered area\<close>

definition BAYER_RANKS :: "u8 list list" where
  "BAYER_RANKS = [[0, 8, 2, 10], [12, 4, 14, 6], [3, 11, 1, 9], [15, 7, 13, 5]]"

definition BAYER_LEVELS :: f32 where "BAYER_LEVELS = F32 16"

definition dither_cell :: "nat \<Rightarrow> nat \<Rightarrow> f32 \<Rightarrow> bool" where
  "dither_cell column row density =
    f32_less (f32_of_u8 (BAYER_RANKS ! (row mod 4) ! (column mod 4)))
      (f32_mul (f32_clamp density (F32 0) (F32 1)) BAYER_LEVELS)"

definition f32_floor :: "f32 \<Rightarrow> f32" where
  "f32_floor a = (case a of F32 x \<Rightarrow> F32 (of_int \<lfloor>x\<rfloor>) | _ \<Rightarrow> a)"

definition plotted :: "f32 option list \<Rightarrow> nat \<Rightarrow> f32 option" where
  "plotted vs i = (if i < length vs then vs ! i else None)"

definition column_fraction :: "f32 option list \<Rightarrow> f32 \<Rightarrow> f32 option" where
  "column_fraction vs pos =
    (if length vs < 2 then None
     else (let scaled = f32_mul (f32_clamp pos (F32 0) (F32 1)) (f32_of_int (int (length vs - 1)));
               low = f32_as_usize (f32_floor scaled);
               high = f32_as_usize (f32_ceil scaled)
           in case (plotted vs low, plotted vs high) of
                (Some start, Some stop) \<Rightarrow> Some (f32_add start (f32_mul (f32_sub stop start)
                  (f32_sub scaled (f32_of_int (int low)))))
              | _ \<Rightarrow> None))"

definition area_density :: "f32 \<Rightarrow> f32 \<Rightarrow> f32" where
  "area_density depth room = (if f32_le room (F32 0) \<or> f32_le depth (F32 0) then F32 0
    else f32_clamp (f32_div depth room) (F32 0) (F32 1))"

definition inside_rounded :: "bounds \<Rightarrow> f32 \<Rightarrow> f32 \<Rightarrow> f32 \<Rightarrow> bool" where
  "inside_rounded b x y radius =
    (let left = f32_add (pt_x (bo_origin b)) radius;
         right = f32_sub (f32_add (pt_x (bo_origin b)) (bo_width b)) radius;
         top = f32_add (pt_y (bo_origin b)) radius;
         bottom = f32_sub (f32_add (pt_y (bo_origin b)) (bo_height b)) radius;
         dx = f32_sub x (f32_clamp x (f32_min left right) (f32_max right left));
         dy = f32_sub y (f32_clamp y (f32_min top bottom) (f32_max bottom top))
     in f32_le (f32_add (f32_mul dx dx) (f32_mul dy dy)) (f32_mul radius radius))"

definition DITHER_CELL :: f32 where "DITHER_CELL = F32 3"

text \<open>What is handed to the window: filled cells, stroked lines and stroked paths. Colors are left out.\<close>

datatype painted = PaintCell bounds | PaintLine point point f32 | PaintPath "point list" f32

definition dither_column :: "bounds \<Rightarrow> f32 \<Rightarrow> nat \<Rightarrow> f32 \<Rightarrow> f32 \<Rightarrow> f32 \<Rightarrow> nat \<Rightarrow> painted list" where
  "dither_column b radius column x center_x fraction rows =
    (let height = bo_height b;
         top = f32_mul height (f32_sub (F32 1) (f32_clamp fraction (F32 0) (F32 1)))
     in concat (map (\<lambda>row.
       (let y = f32_add (pt_y (bo_origin b)) (f32_mul DITHER_CELL (f32_of_int (int row)));
            center_y = f32_add y (f32_mul DITHER_CELL (F32 (1 / 2)));
            depth = f32_sub (f32_sub center_y (pt_y (bo_origin b))) top;
            density = area_density depth (f32_sub height top)
        in if f32_le density (F32 0) \<or> \<not> dither_cell column row density \<or> \<not> inside_rounded b center_x center_y radius
           then []
           else [PaintCell \<lparr>bo_origin = \<lparr>pt_x = x, pt_y = y\<rparr>,
             bo_width = f32_min DITHER_CELL (f32_sub (f32_add (pt_x (bo_origin b)) (bo_width b)) x),
             bo_height = f32_min DITHER_CELL (f32_sub (f32_add (pt_y (bo_origin b)) (bo_height b)) y)\<rparr>])) [0..<rows]))"

definition paint_dithered_area :: "bounds \<Rightarrow> f32 option list \<Rightarrow> f32 \<Rightarrow> painted list" where
  "paint_dithered_area b vs radius =
    (if length vs < 2 \<or> f32_le (bo_width b) (F32 0) \<or> f32_le (bo_height b) (F32 0) then []
     else (let columns = f32_as_usize (f32_ceil (f32_div (bo_width b) DITHER_CELL));
               rows = f32_as_usize (f32_ceil (f32_div (bo_height b) DITHER_CELL))
           in concat (map (\<lambda>column.
             (let x = f32_add (pt_x (bo_origin b)) (f32_mul DITHER_CELL (f32_of_int (int column)));
                  center_x = f32_add x (f32_mul DITHER_CELL (F32 (1 / 2)));
                  pos = f32_div (f32_sub center_x (pt_x (bo_origin b))) (bo_width b)
              in case column_fraction vs pos of
                   None \<Rightarrow> []
                 | Some fraction \<Rightarrow> dither_column b radius column x center_x fraction rows)) [0..<columns])))"

definition CHART_RADIUS :: f32 where "CHART_RADIUS = F32 8"

definition sample_x :: "bounds \<Rightarrow> f32 option list \<Rightarrow> nat \<Rightarrow> f32" where
  "sample_x b vs index = f32_add (pt_x (bo_origin b))
    (f32_mul (bo_width b) (f32_div (f32_of_int (int index)) (f32_of_int (int (length vs - 1)))))"

definition sample_point :: "bounds \<Rightarrow> f32 option list \<Rightarrow> nat \<Rightarrow> f32 \<Rightarrow> point" where
  "sample_point b vs index fraction = \<lparr>pt_x = sample_x b vs index,
    pt_y = f32_add (pt_y (bo_origin b)) (f32_mul (bo_height b) (f32_sub (F32 1) (f32_clamp fraction (F32 0) (F32 1))))\<rparr>"

definition plot_bottom :: "bounds \<Rightarrow> f32" where
  "plot_bottom b = f32_add (pt_y (bo_origin b)) (bo_height b)"

definition run_path :: "bounds \<Rightarrow> f32 option list \<Rightarrow> nat \<times> nat \<Rightarrow> painted list" where
  "run_path b vs r = (case r of (first, last_index) \<Rightarrow>
    if last_index = first then []
    else [PaintPath (concat (map (\<lambda>i. case vs ! i of Some v \<Rightarrow> [sample_point b vs i v] | None \<Rightarrow> []) [first..<last_index + 1])) (F32 2)])"

definition gap_tick :: "bounds \<Rightarrow> f32 option list \<Rightarrow> nat \<Rightarrow> painted" where
  "gap_tick b vs i = PaintLine \<lparr>pt_x = sample_x b vs i, pt_y = plot_bottom b\<rparr>
    \<lparr>pt_x = sample_x b vs i, pt_y = f32_sub (plot_bottom b) (F32 6)\<rparr> (F32 (3 / 2))"

definition paint_sparkline :: "bounds \<Rightarrow> f32 option list \<Rightarrow> (nat \<times> nat) list \<Rightarrow> painted list" where
  "paint_sparkline b vs runs =
    paint_dithered_area b vs CHART_RADIUS @
    PaintLine \<lparr>pt_x = pt_x (bo_origin b), pt_y = plot_bottom b\<rparr>
      \<lparr>pt_x = f32_add (pt_x (bo_origin b)) (bo_width b), pt_y = plot_bottom b\<rparr> (F32 1) #
    (if length vs < 2 then []
     else concat (map (run_path b vs) runs) @
       map (gap_tick b vs) (filter (\<lambda>i. vs ! i = None) [0..<length vs]))"

definition sparkline_render :: "sparkline \<Rightarrow> bounds \<Rightarrow> painted list" where
  "sparkline_render s b =
    paint_sparkline b (map (map_option (plot_fraction s)) (sp_history s)) (segments (sp_history s))"

section \<open>No hole is hidden\<close>

lemma chunks_nth:
  assumes "0 < n"
  shows "length (chunks n xs) = div_ceil (length xs) n \<and>
    (\<forall>i < length (chunks n xs). chunks n xs ! i = take n (drop (i * n) xs) \<and> chunks n xs ! i \<noteq> [])"
  using assms
proof (induction n xs rule: chunks.induct)
  case (1 n xs)
  show ?case
  proof (cases "xs = []")
    case False
    then have c: "chunks n xs = take n xs # chunks n (drop n xs)" using 1 by (simp add: chunks.simps)
    have ih: "length (chunks n (drop n xs)) = div_ceil (length xs - n) n"
      "\<forall>i < length (chunks n (drop n xs)). chunks n (drop n xs) ! i = take n (drop (i * n) (drop n xs)) \<and> chunks n (drop n xs) ! i \<noteq> []"
      using 1 False by auto
    have "Suc (div_ceil (length xs - n) n) = div_ceil (length xs) n"
    proof (cases "n \<le> length xs")
      case True
      then show ?thesis using 1 by (simp add: div_ceil_def le_div_geq le_mod_geq)
    next
      case False
      then show ?thesis using \<open>xs \<noteq> []\<close> by (simp add: div_ceil_def)
    qed
    then show ?thesis using ih False 1 by (auto simp: c nth_Cons algebra_simps split: nat.split)
  qed (simp add: chunks.simps div_ceil_def)
qed

lemma div_ceil_le: "0 < n \<Longrightarrow> a \<le> n * k \<Longrightarrow> div_ceil a n \<le> k"
proof -
  assume n: "0 < n" and a: "a \<le> n * k"
  then have "n * (a div n) + a mod n \<le> n * k" by simp
  then have "a mod n \<noteq> 0 \<Longrightarrow> n * (a div n) < n * k" by linarith
  then have "a mod n \<noteq> 0 \<Longrightarrow> a div n < k" by simp
  moreover have "a div n \<le> k" using div_le_mono [OF a, of n] n by simp
  ultimately show ?thesis by (auto simp: div_ceil_def)
qed

lemma div_ceil_mult: "0 < n \<Longrightarrow> a \<le> n * div_ceil a n"
proof -
  assume n: "0 < n"
  have e: "n * (a div n) + a mod n = a" and m: "a mod n < n" using n by simp_all
  show ?thesis
  proof (cases "a mod n = 0")
    case False
    have "a < n * (a div n) + n" using e m by linarith
    then show ?thesis using False by (simp add: div_ceil_def)
  qed (use e in \<open>simp add: div_ceil_def\<close>)
qed

lemma hole_in_chunk:
  assumes "0 < n"
  shows "None \<in> set (take n (drop (i * n) xs)) \<longleftrightarrow> (\<exists>j < length xs. j div n = i \<and> xs ! j = None)"
proof
  assume "None \<in> set (take n (drop (i * n) xs))"
  then obtain k where "k < n" "i * n + k < length xs" "xs ! (i * n + k) = None"
    by (auto simp: in_set_conv_nth)
  then show "\<exists>j < length xs. j div n = i \<and> xs ! j = None"
    by (intro exI [of _ "i * n + k"]) simp
next
  assume "\<exists>j < length xs. j div n = i \<and> xs ! j = None"
  then obtain j where j: "j < length xs" "j div n = i" "xs ! j = None" by blast
  have m: "i * n + j mod n = j" using j(2) by auto
  then have "j mod n < length (take n (drop (i * n) xs))" using j(1) assms mod_less_divisor [OF assms, of j] by simp
  moreover have "take n (drop (i * n) xs) ! (j mod n) = None" using m j assms by simp
  ultimately show "None \<in> set (take n (drop (i * n) xs))" by (metis nth_mem)
qed

text \<open>How many samples one plotted point stands for.\<close>

definition bucket_size :: "history \<Rightarrow> nat \<Rightarrow> nat" where
  "bucket_size h limit = (let m = length (hi_points h) in if m \<le> limit \<or> limit = 0 then 1 else div_ceil m limit)"

text \<open>A reduced chart hides no hole and draws no more points than its limit. Every sample of the series
  falls in exactly one plotted point, in order, and a plotted point is a hole exactly when one of its
  samples is missing; below the limit the points are the samples.\<close>

theorem no_hole_is_hidden:
  "(let xs = downsample h limit; samples = map hp_value (hi_points h); n = bucket_size h limit
    in (limit = 0 \<or> length xs \<le> limit) \<and> 0 < n \<and> length xs = div_ceil (length samples) n \<and>
       (if j < length samples then j div n < length xs else True) \<and>
       (if i < length xs then xs ! i = None \<longleftrightarrow> (\<exists>j. j < length samples \<and> j div n = i \<and> samples ! j = None) else True) \<and>
       (if length samples \<le> limit then xs = samples else True))"
proof (cases "length (hi_points h) \<le> limit \<or> limit = 0")
  case True
  then show ?thesis by (auto simp: downsample_def bucket_size_def div_ceil_def)
next
  case False
  let ?samples = "map hp_value (hi_points h)"
  let ?n = "div_ceil (length ?samples) limit"
  let ?xs = "map bucket_value (chunks ?n ?samples)"
  have n: "0 < ?n" using False by (auto simp: div_ceil_def not_le)
  have c: "length (chunks ?n ?samples) = div_ceil (length ?samples) ?n"
    "\<And>i. i < div_ceil (length ?samples) ?n \<Longrightarrow> chunks ?n ?samples ! i = take ?n (drop (i * ?n) ?samples)"
    using chunks_nth [OF n, of ?samples] by auto
  have l: "div_ceil (length ?samples) ?n \<le> limit"
    using div_ceil_mult [of limit "length ?samples"] False by (intro div_ceil_le [OF n]) (simp add: mult.commute)
  have "j div ?n < div_ceil (length ?samples) ?n" if "j < length ?samples"
    using that div_ceil_mult [OF n, of "length ?samples"] n by (intro less_mult_imp_div_less) (simp add: mult.commute)
  moreover have "?xs ! i = None \<longleftrightarrow> (\<exists>j. j < length ?samples \<and> j div ?n = i \<and> ?samples ! j = None)"
    if "i < div_ceil (length ?samples) ?n"
    using that c hole_in_chunk [OF n, of i ?samples] by (auto simp: bucket_value_def)
  ultimately show ?thesis using False n c l by (simp add: downsample_def bucket_size_def Let_def)
qed

section \<open>Every run is drawn as one path\<close>

definition is_run :: "'a option list \<Rightarrow> nat \<Rightarrow> nat \<Rightarrow> bool" where
  "is_run vs a b \<longleftrightarrow> a \<le> b \<and> b < length vs \<and> (\<forall>i \<in> {a..b}. vs ! i \<noteq> None) \<and>
    (a = 0 \<or> vs ! (a - 1) = None) \<and> (b + 1 = length vs \<or> vs ! (b + 1) = None)"

lemma closed_run: "vs = [] \<or> last vs = None \<Longrightarrow> is_run vs a b \<Longrightarrow> b + 1 < length vs"
proof -
  assume l: "vs = [] \<or> last vs = None" and r: "is_run vs a b"
  then have b: "b < length vs" "vs ! b \<noteq> None" by (auto simp: is_run_def)
  then have "b \<noteq> length vs - 1" using l by (cases "vs = []") (auto simp: last_conv_nth)
  then show "b + 1 < length vs" using b by linarith
qed

lemma same_run:
  assumes "is_run vs a b" "is_run vs c b" shows "a = c"
proof (rule ccontr)
  assume "a \<noteq> c"
  then have "(a \<noteq> 0 \<and> c \<le> a - 1 \<and> a - 1 \<le> b) \<or> (c \<noteq> 0 \<and> a \<le> c - 1 \<and> c - 1 \<le> b)"
    using assms by (auto simp: is_run_def)
  then show False using assms unfolding is_run_def by (metis atLeastAtMost_iff)
qed

text \<open>The loop over a prefix holds its closed runs, and where its last one started.\<close>

lemma segment_loop:
  "foldl segment_step ([], None) (enumerate 0 vs) = (runs, start) \<Longrightarrow>
    (\<forall>a b. (a, b) \<in> set runs \<longleftrightarrow> is_run vs a b \<and> b + 1 < length vs) \<and> distinct runs \<and>
    (case start of Some a \<Rightarrow> vs \<noteq> [] \<and> is_run vs a (length vs - 1) | None \<Rightarrow> vs = [] \<or> last vs = None)"
proof (induction vs arbitrary: runs start rule: rev_induct)
  case (snoc v vs)
  obtain rs st where f: "foldl segment_step ([], None) (enumerate 0 vs) = (rs, st)" by fastforce
  note ih = snoc.IH [OF f]
  have step: "segment_step (rs, st) (length vs, v) = (runs, start)"
    using snoc.prems f by (simp add: enumerate_append_eq)
  have old: "b + 1 < length vs \<Longrightarrow> is_run (vs @ [v]) a b = is_run vs a b" for a b
    by (auto simp: is_run_def nth_append)
  have closed: "is_run (vs @ [v]) a b \<longleftrightarrow> is_run vs a b \<and> v = None" if "Suc b = length vs" for a b
  proof -
    have "(\<forall>i \<in> {a..b}. (vs @ [v]) ! i \<noteq> None) \<longleftrightarrow> (\<forall>i \<in> {a..b}. vs ! i \<noteq> None)"
      using that by (intro ball_cong refl) (simp add: nth_append)
    then show ?thesis using that [symmetric] unfolding is_run_def by (auto simp: nth_append)
  qed
  have opened: "is_run (vs @ [v]) a (length vs) \<longleftrightarrow> v \<noteq> None \<and>
      (a = length vs \<and> (vs = [] \<or> last vs = None) \<or> vs \<noteq> [] \<and> is_run vs a (length vs - 1))" for a
  proof (cases "a < length vs")
    case True
    have "{a..length vs} = insert (length vs) {a..length vs - 1}" using True by auto
    then have "(\<forall>i \<in> {a..length vs}. (vs @ [v]) ! i \<noteq> None) \<longleftrightarrow> v \<noteq> None \<and> (\<forall>i \<in> {a..length vs - 1}. (vs @ [v]) ! i \<noteq> None)"
      by simp
    also have "(\<forall>i \<in> {a..length vs - 1}. (vs @ [v]) ! i \<noteq> None) \<longleftrightarrow> (\<forall>i \<in> {a..length vs - 1}. vs ! i \<noteq> None)"
      using True by (intro ball_cong refl) (auto simp: nth_append)
    finally show ?thesis
      unfolding is_run_def using True nth_append [of vs "[v]" "a - 1"] by auto
  next
    case False
    have "vs \<noteq> [] \<Longrightarrow> last vs = vs ! (length vs - 1)" by (simp add: last_conv_nth)
    then show ?thesis using False by (cases "vs = []") (auto simp: is_run_def nth_append)
  qed
  show ?case
  proof (cases "v = None \<or> st \<noteq> None")
    case True
    show ?thesis
    proof (cases st)
      case None
      then have r: "runs = rs" "start = None" "v = None" using step True by (auto split: option.splits)
      moreover have "(a, b) \<in> set rs \<longleftrightarrow> is_run (vs @ [v]) a b \<and> b < length vs" for a b
        using ih None old [of b a] closed [of b a] closed_run [of vs a b]
        by (cases "b + 1 < length vs"; cases "Suc b = length vs") auto
      ultimately show ?thesis using ih by simp
    next
      case (Some s)
      then have w: "vs \<noteq> []" "is_run vs s (length vs - 1)" using ih by simp_all
      show ?thesis
      proof (cases v)
        case None
        then have r: "runs = rs @ [(s, length vs - 1)]" "start = None" using step Some by simp_all
        have "(a, b) \<in> set runs \<longleftrightarrow> is_run (vs @ [v]) a b \<and> b < length vs" for a b
        proof (cases "Suc b = length vs")
          case True
          then have b: "b = length vs - 1" by simp
          show ?thesis using ih w closed [OF True, of a] same_run [OF w(2), of a] True None by (auto simp: r b)
        next
          case False
          then show ?thesis using ih w old [of b a] by (cases "b + 1 < length vs") (auto simp: r)
        qed
        moreover have "(s, length vs - 1) \<notin> set rs" using ih w(1) by auto
        ultimately show ?thesis using ih None r by simp
      next
        case (Some y)
        then have r: "runs = rs" "start = Some s" using step \<open>st = Some s\<close> by simp_all
        have "(a, b) \<in> set rs \<longleftrightarrow> is_run (vs @ [v]) a b \<and> b < length vs" for a b
          using ih old [of b a] closed [of b a] Some
          by (cases "b + 1 < length vs"; cases "Suc b = length vs") auto
        then show ?thesis using ih w Some r opened [of s] by simp
      qed
    qed
  next
    case False
    then have r: "runs = rs" "start = Some (length vs)" "st = None" using step by auto
    have l: "vs = [] \<or> last vs = None" using ih r by simp
    have "(a, b) \<in> set rs \<longleftrightarrow> is_run (vs @ [v]) a b \<and> b < length vs" for a b
      using ih l old [of b a] closed [of b a] closed_run [OF l, of a b]
      by (cases "b + 1 < length vs"; cases "Suc b = length vs") auto
    then show ?thesis using ih False l r opened [of "length vs"] by simp
  qed
qed (simp add: is_run_def)

lemma segments_runs: "((a, b) \<in> set (segments vs) \<longleftrightarrow> is_run vs a b) \<and> distinct (segments vs)"
proof -
  obtain runs start where f: "foldl segment_step ([], None) (enumerate 0 vs) = (runs, start)" by fastforce
  note l = segment_loop [OF f]
  show ?thesis
  proof (cases start)
    case None
    then show ?thesis using l closed_run [of vs a b] by (auto simp: segments_def f)
  next
    case (Some s)
    then have w: "vs \<noteq> []" "is_run vs s (length vs - 1)" using l by simp_all
    have "is_run vs a b \<Longrightarrow> \<not> b + 1 < length vs \<Longrightarrow> b = length vs - 1" by (auto simp: is_run_def)
    then show ?thesis using l w Some same_run [OF w(2), of a] by (auto simp: segments_def f)
  qed
qed

text \<open>Telling the drawings apart.\<close>

definition is_path :: "painted \<Rightarrow> bool" where
  "is_path p = (case p of PaintPath _ _ \<Rightarrow> True | _ \<Rightarrow> False)"

definition is_line :: "painted \<Rightarrow> bool" where
  "is_line p = (case p of PaintLine _ _ _ \<Rightarrow> True | _ \<Rightarrow> False)"


lemma path_lengths:
  "length (filter is_path (concat (map (run_path b vs) rs))) = length (filter (\<lambda>r. fst r \<noteq> snd r) rs)"
  "filter is_line (concat (map (run_path b vs) rs)) = []"
  by (induction rs) (auto simp: run_path_def is_path_def is_line_def split: prod.split)

lemma area_is_cells: "p \<in> set (paint_dithered_area b vs radius) \<Longrightarrow> \<not> is_path p \<and> \<not> is_line p"
  by (auto simp: paint_dithered_area_def dither_column_def Let_def is_path_def is_line_def
      split: if_splits option.splits)

lemma run_points:
  "a < b \<Longrightarrow> is_run vs a b \<Longrightarrow> run_path bo (map (map_option g) vs) (a, b) =
    [PaintPath (map (\<lambda>i. sample_point bo (map (map_option g) vs) i (g (the (vs ! i)))) [a..<b + 1]) (F32 2)]"
proof -
  assume r: "a < b" "is_run vs a b"
  have "concat (map (\<lambda>i. case map (map_option g) vs ! i of Some v \<Rightarrow> [sample_point bo (map (map_option g) vs) i v] | None \<Rightarrow> []) js) =
      map (\<lambda>i. sample_point bo (map (map_option g) vs) i (g (the (vs ! i)))) js"
    if "set js \<subseteq> {a..b}" for js
    using that
  proof (induction js)
    case (Cons i js)
    then have "i < length vs" "vs ! i \<noteq> None" using r by (auto simp: is_run_def)
    then obtain v where "i < length vs" "vs ! i = Some v" by auto
    then show ?case using Cons by simp
  qed simp
  moreover have "set [a..<b + 1] \<subseteq> {a..b}" by auto
  ultimately show ?thesis using r(1) unfolding run_path_def by (simp only: prod.case if_False less_imp_neq [symmetric])
qed

text \<open>A chart breaks its line exactly at the holes. The runs handed to the painter are the maximal runs
  of samples, each once. Every run of two samples or more is one path through the points of its samples
  and there is no other path, every hole is one tick under the plot, and those are the only lines besides
  the baseline. A sample alone between two holes is a run but draws no path and gets no tick.\<close>

theorem chart_breaks_at_the_holes:
  "((a, b) \<in> set (segments (sp_history s)) \<longleftrightarrow> is_run (sp_history s) a b) \<and> distinct (segments (sp_history s)) \<and>
   (if 2 \<le> length (sp_history s)
    then length (filter is_path (sparkline_render s bo)) = length (filter (\<lambda>r. fst r \<noteq> snd r) (segments (sp_history s))) \<and>
      length (filter is_line (sparkline_render s bo)) = 1 + length (filter (\<lambda>v. v = None) (sp_history s)) \<and>
      (if a < b \<and> is_run (sp_history s) a b
       then PaintPath (map (\<lambda>i. sample_point bo (map (map_option (plot_fraction s)) (sp_history s)) i
           (plot_fraction s (the (sp_history s ! i)))) [a..<b + 1]) (F32 2) \<in> set (sparkline_render s bo)
       else True)
    else True)"
proof -
  let ?h = "sp_history s"
  let ?vs = "map (map_option (plot_fraction s)) ?h"
  have a: "filter is_path (paint_dithered_area bo ?vs CHART_RADIUS) = []"
    "filter is_line (paint_dithered_area bo ?vs CHART_RADIUS) = []"
    using area_is_cells by (auto simp: filter_empty_conv)
  have t: "filter is_path (map (gap_tick bo ?vs) is) = []" "filter is_line (map (gap_tick bo ?vs) is) = map (gap_tick bo ?vs) is" for "is"
    by (induction "is") (simp_all add: gap_tick_def is_path_def is_line_def)
  have "filter (\<lambda>v. v = None) (map ((!) ?vs) [0..<length ?vs]) = map ((!) ?vs) (filter (\<lambda>i. ?vs ! i = None) [0..<length ?vs])"
    by (simp only: filter_map comp_def)
  then have "map ((!) ?vs) (filter (\<lambda>i. ?vs ! i = None) [0..<length ?vs]) = filter (\<lambda>v. v = None) ?vs"
    by (simp only: map_nth)
  from arg_cong [OF this, of length]
  have n: "length (filter (\<lambda>i. ?vs ! i = None) [0..<length ?vs]) = length (filter (\<lambda>v. v = None) ?h)"
    by (simp only: length_map) (simp add: filter_map comp_def)
  have r: "sparkline_render s bo = paint_dithered_area bo ?vs CHART_RADIUS @
      PaintLine \<lparr>pt_x = pt_x (bo_origin bo), pt_y = plot_bottom bo\<rparr>
        \<lparr>pt_x = f32_add (pt_x (bo_origin bo)) (bo_width bo), pt_y = plot_bottom bo\<rparr> (F32 1) #
      concat (map (run_path bo ?vs) (segments ?h)) @ map (gap_tick bo ?vs) (filter (\<lambda>i. ?vs ! i = None) [0..<length ?vs])"
    if "2 \<le> length ?h"
    using that by (simp add: sparkline_render_def paint_sparkline_def)
  have p: "set (run_path bo ?vs (a, b)) \<subseteq> set (sparkline_render s bo)" if "2 \<le> length ?h" "is_run ?h a b"
    using segments_runs [of a b ?h] that(2) unfolding r [OF that(1)] by auto
  show ?thesis
  proof (cases "2 \<le> length ?h")
    case True
    have "length (filter is_path (sparkline_render s bo)) = length (filter (\<lambda>r. fst r \<noteq> snd r) (segments ?h))"
      unfolding r [OF True] filter_append filter.simps a t path_lengths by (simp add: is_path_def path_lengths)
    moreover have "length (filter is_line (sparkline_render s bo)) = 1 + length (filter (\<lambda>v. v = None) ?h)"
      unfolding r [OF True] filter_append filter.simps a t path_lengths by (simp add: is_line_def n [symmetric])
    ultimately show ?thesis
      using segments_runs [of a b ?h] p run_points [of a b ?h bo "plot_fraction s"] by auto
  qed (use segments_runs [of a b ?h] in simp)
qed

end
