(* ===== verification/Shell.thy ===== *)
theory Shell
  imports Feed Cooling_Editor Lighting_Editor Display_Editor Metric_Book Pointer Keyed
begin

text \<open>
  \<open>crates/app/src/shell.rs\<close> and \<open>shell/screen/\<close>: the state behind the window and every handler that changes
  it. A handler takes the present time where the code reads the clock; what it sends on the feed's channel is
  appended to \<open>wn_outbox\<close>. Drawing belongs to the toolkit, which decides when a handler runs; the rectangle
  test of a press (\<open>dilate\<close> and \<open>contains\<close>) is its function too, a parameter of \<open>shell_env\<close>.
\<close>

section \<open>When a pending edit leaves the process\<close>

datatype lighting_row = RowChannel u8 | RowLcd

datatype pending_target = WriteCooling | WriteLighting lighting_row

definition COOLING_QUIET :: duration where "COOLING_QUIET = from_millis 400"
definition LIGHTING_QUIET :: duration where "LIGHTING_QUIET = from_millis 150"

definition target_quiet :: "pending_target \<Rightarrow> duration" where
  "target_quiet t = (case t of WriteCooling \<Rightarrow> COOLING_QUIET | WriteLighting _ \<Rightarrow> LIGHTING_QUIET)"

datatype drag =
    DragBrightness lighting_row bounds
  | DragDuty channel bounds
  | DragCurve channel nat curve_nodes bounds

definition drag_is_cooling :: "drag \<Rightarrow> bool" where
  "drag_is_cooling d = (case d of DragBrightness _ _ \<Rightarrow> False | _ \<Rightarrow> True)"

definition write_is_held_back :: "pending_target \<Rightarrow> drag option \<Rightarrow> bool \<Rightarrow> bool" where
  "write_is_held_back t d in_flight = (case t of
      WriteCooling \<Rightarrow> (case d of Some g \<Rightarrow> drag_is_cooling g | None \<Rightarrow> False) \<or> in_flight
    | WriteLighting row \<Rightarrow> (case d of Some (DragBrightness held _) \<Rightarrow> held = row | _ \<Rightarrow> False))"

type_synonym write_schedule = "(pending_target, instant) keyed"

definition schedule_touch :: "pending_target \<Rightarrow> instant \<Rightarrow> write_schedule \<Rightarrow> write_schedule" where
  "schedule_touch t deadline due = keyed_set t deadline due"

definition take_due :: "instant \<Rightarrow> write_schedule \<Rightarrow> pending_target list \<times> write_schedule" where
  "take_due now due = keyed_take (\<lambda>deadline. deadline \<le> now) due"

definition schedule_is_pending :: "pending_target \<Rightarrow> write_schedule \<Rightarrow> bool" where
  "schedule_is_pending t due = keyed_contains t due"

section \<open>The pointer and the open rows\<close>

datatype color_picker = PickPanel display_color_field | PickChannel u8

definition picker_row :: "color_picker \<Rightarrow> lighting_row" where
  "picker_row p = (case p of PickPanel _ \<Rightarrow> RowLcd | PickChannel ch \<Rightarrow> RowChannel ch)"

datatype select_id =
    SelCoolingMode | SelProfile | SelChannelMode u8 | SelChannelSpeed u8 | SelChannelDirection u8
  | SelLcdMode | SelLcdMetric nat

definition select_key :: "select_id \<Rightarrow> string" where
  "select_key s = (case s of
      SelCoolingMode \<Rightarrow> ''cooling-mode''
    | SelProfile \<Rightarrow> ''profile''
    | SelChannelMode ch \<Rightarrow> ''lighting-mode-'' @ show_u8 ch
    | SelChannelSpeed ch \<Rightarrow> ''lighting-speed-'' @ show_u8 ch
    | SelChannelDirection ch \<Rightarrow> ''lighting-direction-'' @ show_u8 ch
    | SelLcdMode \<Rightarrow> ''lcd-mode''
    | SelLcdMetric slot \<Rightarrow> ''lcd-metric-'' @ show_nat (slot + 1))"

datatype popover = PopSwatches color_picker | PopOptions select_id

text \<open>The book of the tracks a frame painted; the hit test is the toolkit's.\<close>

type_synonym 'k track_map = "('k, bounds) keyed"

definition track_at :: "(bounds \<Rightarrow> point \<Rightarrow> bool) \<Rightarrow> 'k track_map \<Rightarrow> point \<Rightarrow> ('k \<times> bounds) option" where
  "track_at grabs m p = find (\<lambda>e. grabs (snd e) p) m"

record interaction =
  ix_popover :: "popover option"
  ix_drag :: "drag option"
  ix_brightness :: "lighting_row track_map"
  ix_duty :: "channel track_map"
  ix_curves :: "channel track_map"

definition interaction_default :: interaction where
  "interaction_default = \<lparr>ix_popover = None, ix_drag = None, ix_brightness = [], ix_duty = [], ix_curves = []\<rparr>"

definition dismiss :: "interaction \<Rightarrow> bool \<times> interaction" where
  "dismiss i = (ix_popover i \<noteq> None, i\<lparr>ix_popover := None\<rparr>)"

definition toggle_pop :: "popover \<Rightarrow> interaction \<Rightarrow> interaction" where
  "toggle_pop p i = i\<lparr>ix_popover := (if ix_popover i \<noteq> Some p then Some p else None)\<rparr>"

definition end_drag :: "interaction \<Rightarrow> drag option \<times> interaction" where
  "end_drag i = (ix_drag i, i\<lparr>ix_drag := None\<rparr>)"

definition clear_tracks :: "interaction \<Rightarrow> interaction" where
  "clear_tracks i = i\<lparr>ix_brightness := keyed_clear (ix_brightness i), ix_duty := keyed_clear (ix_duty i),
    ix_curves := keyed_clear (ix_curves i)\<rparr>"

text \<open>A track is recorded only for a control that may be operated.\<close>

definition sink_track :: "bool \<Rightarrow> 'k \<Rightarrow> bounds \<Rightarrow> 'k track_map \<Rightarrow> 'k track_map" where
  "sink_track enabled k b m = (if enabled then keyed_set k b m else m)"

record disclosure =
  rw_cooling :: "(channel, unit) keyed"
  rw_lighting :: "(lighting_row, unit) keyed"
  rw_node :: "(channel, nat) keyed"

definition disclosure_default :: disclosure where
  "disclosure_default = \<lparr>rw_cooling = [], rw_lighting = [], rw_node = []\<rparr>"

definition row_node :: "channel \<Rightarrow> disclosure \<Rightarrow> nat" where
  "row_node ch r = (case keyed_get ch (rw_node r) of Some n \<Rightarrow> n | None \<Rightarrow> 0)"

definition select_node :: "channel \<Rightarrow> nat \<Rightarrow> disclosure \<Rightarrow> disclosure" where
  "select_node ch i r = r\<lparr>rw_node := keyed_set ch (min i (CURVE_NODE_COUNT - 1)) (rw_node r)\<rparr>"

definition step_node :: "channel \<Rightarrow> int \<Rightarrow> disclosure \<Rightarrow> disclosure" where
  "step_node ch delta r =
    select_node ch (nat (max 0 (min (int (CURVE_NODE_COUNT - 1)) (int (row_node ch r) + delta)))) r"

definition toggle_cooling :: "channel \<Rightarrow> disclosure \<Rightarrow> disclosure" where
  "toggle_cooling ch r = select_node ch 0 (r\<lparr>rw_cooling := keyed_toggle ch (rw_cooling r)\<rparr>)"

section \<open>The window\<close>

datatype destination = DestMonitoring | DestCooling | DestLighting | DestSettings

record shell =
  wn_link :: link_state
  wn_metrics :: metric_book
  wn_cooling :: cooling_editor
  wn_lighting :: "channel_editor list"
  wn_lcd :: display_screen
  wn_interaction :: interaction
  wn_rows :: disclosure
  wn_destination :: destination
  wn_due :: write_schedule
  wn_sent :: "cooling_program option"
  wn_outcome :: "command_outcome option"
  wn_confirm_delete :: bool
  wn_lcd_seeded :: bool
  wn_committed :: "cooling_program option"
  wn_now_unix_ms :: u64
  wn_film_timer :: "u64 option"
  wn_outbox :: "feed_command list"

text \<open>\<open>wn_film_timer\<close> is the generation of the last animation timer that was armed.\<close>

definition shell_new :: "u64 \<Rightarrow> shell" where
  "shell_new now = \<lparr>wn_link = link_connecting, wn_metrics = metric_book_new, wn_cooling = cooling_editor_new,
    wn_lighting = [], wn_lcd = display_screen_default, wn_interaction = interaction_default,
    wn_rows = disclosure_default\<lparr>rw_lighting := keyed_insert RowLcd []\<rparr>, wn_destination = DestMonitoring,
    wn_due = [], wn_sent = None, wn_outcome = None, wn_confirm_delete = False, wn_lcd_seeded = False,
    wn_committed = None, wn_now_unix_ms = now, wn_film_timer = None, wn_outbox = []\<rparr>"

definition feed_send :: "feed_command \<Rightarrow> shell \<Rightarrow> shell" where
  "feed_send k w = w\<lparr>wn_outbox := wn_outbox w @ [k]\<rparr>"

definition shell_kraken :: "shell \<Rightarrow> kraken_telemetry option" where
  "shell_kraken w = map_option ts_kraken (link_telemetry (wn_link w))"

definition is_open :: "lighting_row \<Rightarrow> shell \<Rightarrow> bool" where
  "is_open row w = keyed_contains row (rw_lighting (wn_rows w))"

definition close_pop :: "shell \<Rightarrow> shell" where
  "close_pop w = w\<lparr>wn_interaction := snd (dismiss (wn_interaction w))\<rparr>"

section \<open>What is sent\<close>

definition send_cooling :: "shell \<Rightarrow> shell" where
  "send_cooling w =
    (if \<not> editor_pending (shell_kraken w) (wn_cooling w) \<or> validation_error_of (wn_cooling w) \<noteq> None then w
     else feed_send (FeedApply (editor_program (wn_cooling w))) (w\<lparr>wn_sent := Some (editor_program (wn_cooling w))\<rparr>))"

definition send_lighting :: "u8 \<Rightarrow> shell \<Rightarrow> shell" where
  "send_lighting ch w = (case editor_channel ch (wn_lighting w) of
      None \<Rightarrow> w
    | Some e \<Rightarrow> (case channel_program e of
        Inl _ \<Rightarrow> w
      | Inr p \<Rightarrow>
          if Option.bind (find (\<lambda>s. lcs_channel s = ch) (link_lighting_channels (wn_link w))) lcs_committed = Some p
          then w else feed_send (FeedApplyLighting \<lparr>lc_channel = ch, lc_program = p\<rparr>) w))"

definition link_display_committed :: "link_state \<Rightarrow> display_preset option" where
  "link_display_committed l = Option.bind (link_status l) (\<lambda>s. dst_committed (dm_display s))"

definition send_display :: "shell \<Rightarrow> shell" where
  "send_display w = (case editor_preset (sc_editor (wn_lcd w)) of
      Inl _ \<Rightarrow> w
    | Inr p \<Rightarrow> if link_display_committed (wn_link w) = Some p then w else feed_send (FeedApplyDisplay p) w)"

definition send_target :: "pending_target \<Rightarrow> shell \<Rightarrow> shell" where
  "send_target t w = (case t of
      WriteCooling \<Rightarrow> send_cooling w
    | WriteLighting (RowChannel ch) \<Rightarrow> send_lighting ch w
    | WriteLighting RowLcd \<Rightarrow> send_display w)"

definition flush_target :: "instant \<Rightarrow> pending_target \<Rightarrow> shell \<Rightarrow> shell" where
  "flush_target now t w =
    (if write_is_held_back t (ix_drag (wn_interaction w)) (wn_sent w \<noteq> None)
     then w\<lparr>wn_due := schedule_touch t (now + target_quiet t) (wn_due w)\<rparr>
     else send_target t w)"

definition flush_writes :: "instant \<Rightarrow> shell \<Rightarrow> shell" where
  "flush_writes now w =
    (let (ready, rest) = take_due now (wn_due w)
     in foldl (\<lambda>w t. flush_target now t w) (w\<lparr>wn_due := rest\<rparr>) ready)"

section \<open>The picture of the panel\<close>

record shell_env =
  sv_preview :: preview_env
  sv_image :: image_env
  sv_grabs :: "bounds \<Rightarrow> point \<Rightarrow> bool"

definition play_film :: "shell \<Rightarrow> shell" where
  "play_film w =
    (if \<not> is_open RowLcd w then w
     else (case picture_film (sc_picture (wn_lcd w)) of
         None \<Rightarrow> w
       | Some f \<Rightarrow> if \<not> film_is_animated f \<or> film_delay f = None then w
           else (let (g, lcd) = next_film_generation (wn_lcd w)
                 in w\<lparr>wn_lcd := lcd, wn_film_timer := Some g\<rparr>)))"

definition film_timer_fired :: "u64 \<Rightarrow> shell \<Rightarrow> shell" where
  "film_timer_fired g w =
    (if sc_film_generation (wn_lcd w) \<noteq> g then w
     else (let (playing, lcd) = advance_film (wn_lcd w); w = w\<lparr>wn_lcd := lcd\<rparr>
           in if playing then play_film w else w))"

definition refresh_picture :: "shell_env \<Rightarrow> shell \<Rightarrow> shell" where
  "refresh_picture v w =
    (let panel = Option.bind (link_status (wn_link w)) (\<lambda>s. dst_panel (dm_display s));
         (replaced, lcd) = sync_picture (sv_preview v) (sv_image v) panel (link_telemetry (wn_link w)) (wn_lcd w);
         w = w\<lparr>wn_lcd := lcd\<rparr>
     in if replaced then play_film w else w)"

text \<open>\<open>schedule_write\<close> also starts a timer that flushes after the quiet period.\<close>

definition schedule_write :: "shell_env \<Rightarrow> instant \<Rightarrow> pending_target \<Rightarrow> shell \<Rightarrow> shell" where
  "schedule_write v now t w =
    (let w = (if t = WriteLighting RowLcd then refresh_picture v w else w)
     in w\<lparr>wn_due := schedule_touch t (now + target_quiet t) (wn_due w)\<rparr>)"

definition touch_cooling :: "instant \<Rightarrow> shell \<Rightarrow> shell" where
  "touch_cooling now w = w\<lparr>wn_due := schedule_touch WriteCooling (now + COOLING_QUIET) (wn_due w)\<rparr>"

section \<open>What the worker published\<close>

definition program_to_adopt :: "cooling_program option \<Rightarrow> cooling_program option \<Rightarrow> bool \<Rightarrow> cooling_program option" where
  "program_to_adopt committed seen editing = (case committed of
      None \<Rightarrow> None
    | Some p \<Rightarrow> if editing \<or> seen = Some p then None else Some p)"

definition shell_editing :: "shell \<Rightarrow> bool" where
  "shell_editing w \<longleftrightarrow> (case ix_drag (wn_interaction w) of Some d \<Rightarrow> drag_is_cooling d | None \<Rightarrow> False) \<or>
    schedule_is_pending WriteCooling (wn_due w) \<or> wn_sent w \<noteq> None"

definition adopt_committed_program :: "shell \<Rightarrow> shell" where
  "adopt_committed_program w =
    (case program_to_adopt (Option.bind (link_status (wn_link w)) dm_cooling) (wn_committed w) (shell_editing w) of
       None \<Rightarrow> w
     | Some p \<Rightarrow> w\<lparr>wn_cooling := editor_adopt p (wn_cooling w), wn_committed := Some p\<rparr>)"

definition adopt_outcome :: "command_outcome option \<Rightarrow> shell \<Rightarrow> shell" where
  "adopt_outcome published w = (case published of
      None \<Rightarrow> w
    | Some o1 \<Rightarrow>
        if map_option co_sequence (wn_outcome w) = Some (co_sequence o1) then w
        else (let w = (if co_subject o1 \<noteq> SubjectCooling then w
                else (case co_severity o1 of
                    OutcomeConfirmed \<Rightarrow> (case wn_sent w of
                        Some p \<Rightarrow> w\<lparr>wn_sent := None, wn_cooling := record_applied p (wn_cooling w)\<rparr>
                      | None \<Rightarrow> w)
                  | _ \<Rightarrow> w\<lparr>wn_sent := None\<rparr>))
              in w\<lparr>wn_outcome := Some o1\<rparr>))"

definition seed_lcd :: "shell \<Rightarrow> shell" where
  "seed_lcd w =
    (if wn_lcd_seeded w then w
     else (case link_status (wn_link w) of
         None \<Rightarrow> w
       | Some s \<Rightarrow> (case dst_committed (dm_display s) of
           Some p \<Rightarrow> w\<lparr>wn_lcd_seeded := True, wn_lcd := adopt_preset p (wn_lcd w)\<rparr>
         | None \<Rightarrow> w\<lparr>wn_lcd_seeded := True\<rparr>)))"

definition take_link :: "shell_env \<Rightarrow> link_state \<Rightarrow> shell \<Rightarrow> shell" where
  "take_link v l w =
    (let w = (case link_telemetry l of
             Some t \<Rightarrow> w\<lparr>wn_metrics := book_observe (wn_metrics w) t\<rparr>
           | None \<Rightarrow> w);
         w = adopt_committed_program (seed_lcd (w\<lparr>wn_link := l\<rparr>));
         w = w\<lparr>wn_lighting := sync_channels (map lcs_channel (link_lighting_channels (wn_link w))) (wn_lighting w)\<rparr>
     in refresh_picture v w)"

text \<open>\<open>published\<close> is what the worker holds: its last link and its last outcome.\<close>

definition refresh :: "shell_env \<Rightarrow> instant \<Rightarrow> u64 \<Rightarrow> feed_state \<Rightarrow> shell \<Rightarrow> shell" where
  "refresh v now unix published w =
    (let w = w\<lparr>wn_now_unix_ms := unix\<rparr>;
         w = (case fd_link published of Some l \<Rightarrow> take_link v l w | None \<Rightarrow> w)
     in flush_writes now (adopt_outcome (fd_outcome published) w))"

end
