(* ===== verification/Screens.thy ===== *)
theory Screens
  imports Shell
begin

text \<open>
  The handlers of \<open>crates/app/src/shell/screen/\<close>: gestures (\<open>drag.rs\<close>), the Cooling screen (\<open>cooling.rs\<close>,
  \<open>channel.rs\<close>), the Lighting screen (\<open>lighting.rs\<close>, \<open>row.rs\<close>, \<open>swatch.rs\<close>) and the panel (\<open>panel.rs\<close>); and
  \<open>shell_step\<close>, which runs whichever of them an event reaches.
\<close>

section \<open>Gestures\<close>

definition edit_lcd :: "(display_editor \<Rightarrow> display_editor) \<Rightarrow> shell \<Rightarrow> shell" where
  "edit_lcd f w = w\<lparr>wn_lcd := edit_display f (wn_lcd w)\<rparr>"

definition edit_row :: "u8 \<Rightarrow> (channel_editor \<Rightarrow> channel_editor) \<Rightarrow> shell \<Rightarrow> shell" where
  "edit_row ch f w = w\<lparr>wn_lighting := edit_channel ch f (wn_lighting w)\<rparr>"

definition set_brightness :: "lighting_row \<Rightarrow> 16 word \<Rightarrow> shell \<Rightarrow> shell" where
  "set_brightness row wanted w =
    (let p = (if sint wanted < 0 then 0 else if int (unat MAX_BRIGHTNESS) < sint wanted then MAX_BRIGHTNESS
       else ucast wanted)
     in case row of
          RowChannel ch \<Rightarrow> edit_row ch (set_channel_brightness p) w
        | RowLcd \<Rightarrow> edit_lcd (set_display_brightness p) w)"

definition f32_as_i16 :: "f32 \<Rightarrow> 16 word" where
  "f32_as_i16 a = word_of_int (f32_to_int (- 32768) 32767 a)"

definition drag_to :: "instant \<Rightarrow> point \<Rightarrow> shell \<Rightarrow> shell" where
  "drag_to now p w = (case ix_drag (wn_interaction w) of
      None \<Rightarrow> w
    | Some (DragBrightness row track) \<Rightarrow>
        set_brightness row (f32_as_i16 (f32_round_away (slider_value_at track p (F32 0) (f32_of_u8 MAX_BRIGHTNESS)))) w
    | Some (DragDuty ch track) \<Rightarrow>
        (let value = slider_value_at track p (f32_of_u8 (duty_to_percent (min_duty ch))) (f32_of_u8 MAX_DUTY_PERCENT)
         in w\<lparr>wn_cooling := set_duty ch (duty_from_percent (f32_as_u8 (f32_round_away value))) (wn_cooling w)\<rparr>)
    | Some (DragCurve ch node base plot) \<Rightarrow>
        (let before = editor_curve ch (wn_cooling w);
             w = w\<lparr>wn_cooling := set_node_from ch base node (snd (node_at plot p)) (wn_cooling w)\<rparr>
         in if editor_curve ch (wn_cooling w) \<noteq> before then touch_cooling now w else w))"

definition start_drag :: "drag \<Rightarrow> shell \<Rightarrow> shell" where
  "start_drag d w = w\<lparr>wn_interaction := (wn_interaction w)\<lparr>ix_drag := Some d\<rparr>\<rparr>"

definition begin_drag :: "shell_env \<Rightarrow> instant \<Rightarrow> point \<Rightarrow> shell \<Rightarrow> shell" where
  "begin_drag v now p w =
    (let i = wn_interaction w
     in case track_at (sv_grabs v) (ix_brightness i) p of
          Some (row, track) \<Rightarrow> drag_to now p (start_drag (DragBrightness row track) w)
        | None \<Rightarrow> (case track_at (sv_grabs v) (ix_duty i) p of
            Some (ch, track) \<Rightarrow> drag_to now p (start_drag (DragDuty ch track) w)
          | None \<Rightarrow> (case track_at (sv_grabs v) (ix_curves i) p of
              Some (ch, plot) \<Rightarrow>
                (let (node, duty) = node_at plot p;
                     base = editor_curve ch (wn_cooling w);
                     w = start_drag (DragCurve ch node base plot) w;
                     w = w\<lparr>wn_rows := select_node ch node (wn_rows w),
                           wn_cooling := set_node_from ch base node duty (wn_cooling w)\<rparr>
                 in drag_to now p (touch_cooling now w))
            | None \<Rightarrow> w)))"

text \<open>The press the window captures, and the release.\<close>

definition window_press :: "shell_env \<Rightarrow> instant \<Rightarrow> bool \<Rightarrow> point \<Rightarrow> shell \<Rightarrow> shell" where
  "window_press v now left p w =
    (if ix_popover (wn_interaction w) \<noteq> None \<or> \<not> left then w else begin_drag v now p w)"

definition window_release :: "shell_env \<Rightarrow> instant \<Rightarrow> shell \<Rightarrow> shell" where
  "window_release v now w =
    (let (d, i) = end_drag (wn_interaction w); w = w\<lparr>wn_interaction := i\<rparr>
     in case d of
          Some (DragBrightness row _) \<Rightarrow> schedule_write v now (WriteLighting row) w
        | Some _ \<Rightarrow> schedule_write v now WriteCooling w
        | None \<Rightarrow> w)"

text \<open>A frame forgets every track and records those it paints.\<close>

definition painted_tracks :: "('k \<times> bool \<times> bounds) list \<Rightarrow> 'k track_map \<Rightarrow> 'k track_map" where
  "painted_tracks es m = foldl (\<lambda>m (k, enabled, b). sink_track enabled k b m) m es"

definition paint_frame :: "(lighting_row \<times> bool \<times> bounds) list \<Rightarrow> (channel \<times> bool \<times> bounds) list \<Rightarrow>
    (channel \<times> bool \<times> bounds) list \<Rightarrow> shell \<Rightarrow> shell" where
  "paint_frame bs ds cs w =
    (let i = clear_tracks (wn_interaction w)
     in w\<lparr>wn_interaction := i\<lparr>ix_brightness := painted_tracks bs (ix_brightness i),
       ix_duty := painted_tracks ds (ix_duty i), ix_curves := painted_tracks cs (ix_curves i)\<rparr>\<rparr>)"

section \<open>The frame of the window\<close>

definition go_to :: "destination \<Rightarrow> shell \<Rightarrow> shell" where
  "go_to d w = (close_pop (w\<lparr>wn_destination := d\<rparr>))\<lparr>wn_confirm_delete := False\<rparr>"

definition toggle_lighting_row :: "lighting_row \<Rightarrow> shell \<Rightarrow> shell" where
  "toggle_lighting_row row w =
    (let r = wn_rows w;
         w = close_pop (w\<lparr>wn_rows := r\<lparr>rw_lighting := keyed_toggle row (rw_lighting r)\<rparr>\<rparr>)
     in if row = RowLcd then play_film w else w)"

definition toggle_cooling_row :: "channel \<Rightarrow> shell \<Rightarrow> shell" where
  "toggle_cooling_row ch w = close_pop (w\<lparr>wn_rows := toggle_cooling ch (wn_rows w)\<rparr>)"

definition toggle_popover :: "popover \<Rightarrow> shell \<Rightarrow> shell" where
  "toggle_popover p w = w\<lparr>wn_interaction := toggle_pop p (wn_interaction w)\<rparr>"

section \<open>The Cooling screen\<close>

definition delete_state :: "string option \<Rightarrow> control_state" where
  "delete_state active = (case active of
      None \<Rightarrow> ControlDisabled ''The background service is not running.''
    | Some name \<Rightarrow> if name = SAFE_PROFILE_NAME
        then ControlDisabled (''The built-in safe profile cannot be deleted. It is what the daemon falls back to '' @
          ''when anything else is unavailable.'')
        else ControlEnabled)"

definition next_deletion :: "string option \<Rightarrow> bool \<Rightarrow> bool \<times> feed_command option" where
  "next_deletion active armed = (case active of
      None \<Rightarrow> (False, None)
    | Some name \<Rightarrow> if name = SAFE_PROFILE_NAME then (False, None)
        else if armed then (False, Some (FeedDeleteProfile name)) else (True, None))"

definition shell_delete_profile :: "shell \<Rightarrow> shell" where
  "shell_delete_profile w =
    (let (armed, k) = next_deletion (link_active_profile (wn_link w)) (wn_confirm_delete w);
         w = w\<lparr>wn_confirm_delete := armed\<rparr>
     in case k of Some k \<Rightarrow> feed_send k w | None \<Rightarrow> w)"

definition revert_cooling :: "shell_env \<Rightarrow> instant \<Rightarrow> shell \<Rightarrow> shell" where
  "revert_cooling v now w =
    schedule_write v now WriteCooling
      (w\<lparr>wn_cooling := editor_cancel (shell_kraken w) (wn_cooling w), wn_sent := None\<rparr>)"

definition saved_profile :: "shell \<Rightarrow> profile" where
  "saved_profile w =
    \<lparr>pf_name = concat (take 48 (chars (cooling_mode_label (ed_mode (wn_cooling w)) @ '' '' @
       show_nat (length (link_profiles (wn_link w)))))),
     pf_program = editor_program (wn_cooling w), pf_device = Some KRAKEN_BASE,
     pf_lighting = concat (map (\<lambda>e. case channel_program e of
         Inr p \<Rightarrow> [\<lparr>lc_channel = ce_channel e, lc_program = p\<rparr>] | Inl _ \<Rightarrow> []) (wn_lighting w)),
     pf_display = (if control_state_for (wn_link w) KRAKEN_BASE LcdFrame = ControlEnabled
       then (case editor_preset (sc_editor (wn_lcd w)) of Inr p \<Rightarrow> Some p | Inl _ \<Rightarrow> None) else None)\<rparr>"

definition shell_save_profile :: "shell \<Rightarrow> shell" where
  "shell_save_profile w = feed_send (FeedSaveProfile (saved_profile w)) w"

definition key_duty :: "shell_env \<Rightarrow> instant \<Rightarrow> channel \<Rightarrow> u8 \<Rightarrow> string \<Rightarrow> shell \<Rightarrow> shell" where
  "key_duty v now ch painted key w =
    (let held = duty_to_percent painted; floor_percent = duty_to_percent (min_duty ch);
         steps = (if key = ''left'' \<or> key = ''down'' then Some (- 1)
           else if key = ''right'' \<or> key = ''up'' then Some 1
           else if key = ''home'' then Some ((ucast floor_percent :: 16 word) - ucast held)
           else if key = ''end'' then Some ((ucast MAX_DUTY_PERCENT :: 16 word) - ucast held)
           else None)
     in case steps of
          None \<Rightarrow> w
        | Some s \<Rightarrow> schedule_write v now WriteCooling (w\<lparr>wn_cooling := adjust_duty ch s (wn_cooling w)\<rparr>))"

definition adjust_curve_node :: "shell_env \<Rightarrow> instant \<Rightarrow> channel \<Rightarrow> 16 word \<Rightarrow> shell \<Rightarrow> shell" where
  "adjust_curve_node v now ch steps w = schedule_write v now WriteCooling
    (w\<lparr>wn_cooling := adjust_node ch (row_node ch (wn_rows w)) steps (wn_cooling w)\<rparr>)"

definition key_curve :: "shell_env \<Rightarrow> instant \<Rightarrow> channel \<Rightarrow> string \<Rightarrow> shell \<Rightarrow> shell" where
  "key_curve v now ch key w =
    (if key = ''left'' then w\<lparr>wn_rows := step_node ch (- 1) (wn_rows w)\<rparr>
     else if key = ''right'' then w\<lparr>wn_rows := step_node ch 1 (wn_rows w)\<rparr>
     else if key = ''up'' then adjust_curve_node v now ch 1 w
     else if key = ''down'' then adjust_curve_node v now ch (- 1) w
     else w)"

section \<open>The Lighting screen\<close>

definition BRIGHTNESS_STEP :: u8 where "BRIGHTNESS_STEP = 5"

definition key_brightness :: "shell_env \<Rightarrow> instant \<Rightarrow> lighting_row \<Rightarrow> u8 \<Rightarrow> string \<Rightarrow> shell \<Rightarrow> shell" where
  "key_brightness v now row painted key w =
    (let step = ucast BRIGHTNESS_STEP :: 16 word;
         moved = (if key = ''left'' \<or> key = ''down'' then Some (ucast painted - step)
           else if key = ''right'' \<or> key = ''up'' then Some (ucast painted + step)
           else if key = ''home'' then Some 0
           else if key = ''end'' then Some (ucast MAX_BRIGHTNESS)
           else None)
     in case moved of
          None \<Rightarrow> w
        | Some p \<Rightarrow> schedule_write v now (WriteLighting row) (set_brightness row p (close_pop w)))"

text \<open>\<open>{:06X}\<close> of a packed color.\<close>

definition hex6_upper :: "u32 \<Rightarrow> string" where
  "hex6_upper c =
    (let ds = map (\<lambda>i. unat c div 16 ^ i mod 16) [7, 6, 5, 4, 3, 2, 1, 0]
     in map digit_char_upper (dropWhile (\<lambda>d. d = 0) (take 2 ds) @ drop 2 ds))"

definition SWATCHES :: "u32 list" where
  "SWATCHES = [0x6f4ef2, 0x30c8a0, 0xf5c451, 0xff8a8a, 0xe8eaee, 0x14161a]"

definition choose_color :: "shell_env \<Rightarrow> instant \<Rightarrow> color_picker \<Rightarrow> u32 \<Rightarrow> shell \<Rightarrow> shell" where
  "choose_color v now picker swatch w =
    (let digits = hex6_upper swatch;
         edited = (case picker of
             PickPanel f \<Rightarrow> Some (edit_lcd (set_color_text f digits) w)
           | PickChannel ch \<Rightarrow> if editor_channel ch (wn_lighting w) = None then None
               else Some (edit_row ch (\<lambda>e. e\<lparr>ce_color := digits\<rparr>) w))
     in case edited of
          None \<Rightarrow> w
        | Some w \<Rightarrow> schedule_write v now (WriteLighting (picker_row picker)) (close_pop w))"

definition choose_image :: "shell_env \<Rightarrow> instant \<Rightarrow> string \<Rightarrow> shell \<Rightarrow> shell" where
  "choose_image v now path w =
    schedule_write v now (WriteLighting RowLcd) (edit_lcd (\<lambda>e. e\<lparr>de_image_path := path\<rparr>) w)"

definition resume_display :: "shell \<Rightarrow> shell" where
  "resume_display w = (let w = close_pop w in case editor_preset (sc_editor (wn_lcd w)) of
      Inr p \<Rightarrow> feed_send (FeedApplyDisplay p) w | Inl _ \<Rightarrow> w)"

text \<open>The lists: what choosing an option does, and then the list closes. A reading slot is 0 or 1.\<close>

definition set_metric :: "nat \<Rightarrow> lcd_metric \<Rightarrow> display_editor \<Rightarrow> display_editor" where
  "set_metric slot m e = e\<lparr>de_metrics := (if slot = 0 then (m, snd (de_metrics e)) else (fst (de_metrics e), m))\<rparr>"

definition choose_for_row :: "shell_env \<Rightarrow> instant \<Rightarrow> u8 \<Rightarrow> 'a option \<Rightarrow> ('a \<Rightarrow> channel_editor \<Rightarrow> channel_editor) \<Rightarrow>
    shell \<Rightarrow> shell" where
  "choose_for_row v now ch chosen f w = (case chosen of
      None \<Rightarrow> w
    | Some x \<Rightarrow> if editor_channel ch (wn_lighting w) = None then w
        else schedule_write v now (WriteLighting (RowChannel ch)) (edit_row ch (f x) w))"

definition choose_channel_mode :: "shell_env \<Rightarrow> instant \<Rightarrow> u8 \<Rightarrow> string \<Rightarrow> shell \<Rightarrow> shell" where
  "choose_channel_mode v now ch value w =
    choose_for_row v now ch (lighting_mode_from_value value) (\<lambda>m e. e\<lparr>ce_mode := m\<rparr>) w"

definition choose_channel_speed :: "shell_env \<Rightarrow> instant \<Rightarrow> u8 \<Rightarrow> string \<Rightarrow> shell \<Rightarrow> shell" where
  "choose_channel_speed v now ch value w =
    choose_for_row v now ch (speed_from_key value) (\<lambda>s e. e\<lparr>ce_speed := s\<rparr>) w"

definition choose_channel_direction :: "shell_env \<Rightarrow> instant \<Rightarrow> u8 \<Rightarrow> string \<Rightarrow> shell \<Rightarrow> shell" where
  "choose_channel_direction v now ch value w =
    choose_for_row v now ch (direction_from_key value) (\<lambda>d e. e\<lparr>ce_direction := d\<rparr>) w"

definition choose_cooling_mode :: "shell_env \<Rightarrow> instant \<Rightarrow> string \<Rightarrow> shell \<Rightarrow> shell" where
  "choose_cooling_mode v now value w = (case cooling_mode_from_value value of
      Some m \<Rightarrow> schedule_write v now WriteCooling (w\<lparr>wn_cooling := editor_set_mode m (wn_cooling w)\<rparr>)
    | None \<Rightarrow> w)"

definition choose_profile :: "string \<Rightarrow> shell \<Rightarrow> shell" where
  "choose_profile value w = feed_send (FeedActivateProfile value) w"

definition choose_lcd_mode :: "shell_env \<Rightarrow> instant \<Rightarrow> string \<Rightarrow> shell \<Rightarrow> shell" where
  "choose_lcd_mode v now value w = (case mode_from_key value of
      Some m \<Rightarrow> schedule_write v now (WriteLighting RowLcd) (edit_lcd (\<lambda>e. e\<lparr>de_mode := m\<rparr>) w)
    | None \<Rightarrow> w)"

definition choose_lcd_metric :: "shell_env \<Rightarrow> instant \<Rightarrow> nat \<Rightarrow> string \<Rightarrow> shell \<Rightarrow> shell" where
  "choose_lcd_metric v now slot value w = (case metric_from_key value of
      Some m \<Rightarrow> schedule_write v now (WriteLighting RowLcd) (edit_lcd (set_metric slot m) w)
    | None \<Rightarrow> w)"

definition on_select :: "shell_env \<Rightarrow> instant \<Rightarrow> select_id \<Rightarrow> string \<Rightarrow> shell \<Rightarrow> shell" where
  "on_select v now sel value w = (case sel of
      SelCoolingMode \<Rightarrow> choose_cooling_mode v now value w
    | SelProfile \<Rightarrow> choose_profile value w
    | SelChannelMode ch \<Rightarrow> choose_channel_mode v now ch value w
    | SelChannelSpeed ch \<Rightarrow> choose_channel_speed v now ch value w
    | SelChannelDirection ch \<Rightarrow> choose_channel_direction v now ch value w
    | SelLcdMode \<Rightarrow> choose_lcd_mode v now value w
    | SelLcdMetric slot \<Rightarrow> choose_lcd_metric v now slot value w)"

definition select_option :: "shell_env \<Rightarrow> instant \<Rightarrow> select_id \<Rightarrow> string \<Rightarrow> shell \<Rightarrow> shell" where
  "select_option v now sel value w = close_pop (on_select v now sel value w)"

section \<open>Any event\<close>

datatype shell_event =
    EvPublished u64 feed_state
  | EvWriteTimer
  | EvFilmTimer u64
  | EvFrame "(lighting_row \<times> bool \<times> bounds) list" "(channel \<times> bool \<times> bounds) list" "(channel \<times> bool \<times> bounds) list"
  | EvPress bool point
  | EvMove point
  | EvRelease
  | EvGo destination
  | EvDismiss
  | EvPopover popover
  | EvSelect select_id string
  | EvColor color_picker u32
  | EvImage string
  | EvResume
  | EvLightingRow lighting_row
  | EvCoolingRow channel
  | EvKeyDuty channel u8 string
  | EvKeyCurve channel string
  | EvKeyBrightness lighting_row u8 string
  | EvRevert
  | EvSave
  | EvDelete

fun shell_step :: "shell_env \<Rightarrow> instant \<Rightarrow> shell_event \<Rightarrow> shell \<Rightarrow> shell" where
  "shell_step v now (EvPublished unix published) w = refresh v now unix published w"
| "shell_step v now EvWriteTimer w = flush_writes now w"
| "shell_step v now (EvFilmTimer g) w = film_timer_fired g w"
| "shell_step v now (EvFrame bs ds cs) w = paint_frame bs ds cs w"
| "shell_step v now (EvPress left p) w = window_press v now left p w"
| "shell_step v now (EvMove p) w = drag_to now p w"
| "shell_step v now EvRelease w = window_release v now w"
| "shell_step v now (EvGo d) w = go_to d w"
| "shell_step v now EvDismiss w = close_pop w"
| "shell_step v now (EvPopover p) w = toggle_popover p w"
| "shell_step v now (EvSelect sel value) w = select_option v now sel value w"
| "shell_step v now (EvColor picker swatch) w = choose_color v now picker swatch w"
| "shell_step v now (EvImage path) w = choose_image v now path w"
| "shell_step v now EvResume w = resume_display w"
| "shell_step v now (EvLightingRow row) w = toggle_lighting_row row w"
| "shell_step v now (EvCoolingRow ch) w = toggle_cooling_row ch w"
| "shell_step v now (EvKeyDuty ch painted key) w = key_duty v now ch painted key w"
| "shell_step v now (EvKeyCurve ch key) w = key_curve v now ch key w"
| "shell_step v now (EvKeyBrightness row painted key) w = key_brightness v now row painted key w"
| "shell_step v now EvRevert w = revert_cooling v now w"
| "shell_step v now EvSave w = shell_save_profile w"
| "shell_step v now EvDelete w = shell_delete_profile w"

definition shell_run :: "(shell_env \<times> instant \<times> shell_event) list \<Rightarrow> shell \<Rightarrow> shell" where
  "shell_run es w = foldl (\<lambda>w (v, now, e). shell_step v now e w) w es"

end
