(* ===== verification/Shell_Behaviour.thy ===== *)
theory Shell_Behaviour
  imports Screens
begin

text \<open>
  What holds of the window over any events: what it sends passes the daemon's validation, and a flush sends
  exactly what has settled.
\<close>

section \<open>Everything that is sent validates\<close>

definition command_valid :: "feed_command \<Rightarrow> bool" where
  "command_valid k = (case k of
      FeedApply p \<Rightarrow> validate_program p = Inr ()
    | FeedApplyLighting c \<Rightarrow> validate_lighting_program (lc_program c) = Inr ()
    | FeedApplyDisplay p \<Rightarrow> validate_preset p = Inr ()
    | FeedSaveProfile p \<Rightarrow> validate_profile p = Inr () \<and> pf_name p \<noteq> SAFE_PROFILE_NAME
    | FeedActivateProfile _ \<Rightarrow> True
    | FeedDeleteProfile n \<Rightarrow> n \<noteq> SAFE_PROFILE_NAME)"

definition shell_ok :: "shell \<Rightarrow> bool" where
  "shell_ok w \<longleftrightarrow> editor_ok (wn_cooling w) \<and> screen_ok (wn_lcd w) \<and> keyed_ok (wn_due w) \<and>
    list_all command_valid (wn_outbox w) \<and>
    (case wn_sent w of Some p \<Rightarrow> validate_program p = Inr () | None \<Rightarrow> True)"

named_theorems shell_keeps

lemma shell_okD:
  assumes "shell_ok w"
  shows "editor_ok (wn_cooling w)" "screen_ok (wn_lcd w)" "keyed_ok (wn_due w)" "list_all command_valid (wn_outbox w)"
  using assms by (simp_all add: shell_ok_def)

lemma feed_send_ok [shell_keeps]: "shell_ok w \<Longrightarrow> command_valid k \<Longrightarrow> shell_ok (feed_send k w)"
  by (simp add: shell_ok_def feed_send_def)

lemma shell_ok_frame [simp]:
  "shell_ok (w\<lparr>wn_interaction := i\<rparr>) = shell_ok w"
  "shell_ok (w\<lparr>wn_rows := r\<rparr>) = shell_ok w" "shell_ok (w\<lparr>wn_link := l\<rparr>) = shell_ok w"
  "shell_ok (w\<lparr>wn_metrics := m\<rparr>) = shell_ok w" "shell_ok (w\<lparr>wn_lighting := es\<rparr>) = shell_ok w"
  "shell_ok (w\<lparr>wn_destination := d\<rparr>) = shell_ok w" "shell_ok (w\<lparr>wn_outcome := u\<rparr>) = shell_ok w"
  "shell_ok (w\<lparr>wn_confirm_delete := b\<rparr>) = shell_ok w" "shell_ok (w\<lparr>wn_lcd_seeded := b\<rparr>) = shell_ok w"
  "shell_ok (w\<lparr>wn_committed := p\<rparr>) = shell_ok w" "shell_ok (w\<lparr>wn_now_unix_ms := n\<rparr>) = shell_ok w"
  "shell_ok (w\<lparr>wn_film_timer := g\<rparr>) = shell_ok w"
  by (simp_all add: shell_ok_def)

lemma shell_ok_cooling [shell_keeps]: "shell_ok w \<Longrightarrow> editor_ok e \<Longrightarrow> shell_ok (w\<lparr>wn_cooling := e\<rparr>)"
  by (simp add: shell_ok_def)

lemma shell_ok_lcd [shell_keeps]: "shell_ok w \<Longrightarrow> screen_ok s \<Longrightarrow> shell_ok (w\<lparr>wn_lcd := s\<rparr>)"
  by (simp add: shell_ok_def)

lemma shell_ok_touch [shell_keeps]: "shell_ok w \<Longrightarrow> shell_ok (w\<lparr>wn_due := schedule_touch t d (wn_due w)\<rparr>)"
  by (simp add: shell_ok_def schedule_touch_def keyed_set_ok)

lemma shell_ok_sent [shell_keeps]:
  "shell_ok w \<Longrightarrow> (\<And>p. s = Some p \<Longrightarrow> validate_program p = Inr ()) \<Longrightarrow> shell_ok (w\<lparr>wn_sent := s\<rparr>)"
  by (cases s) (simp_all add: shell_ok_def)

lemma close_pop_ok [shell_keeps]: "shell_ok w \<Longrightarrow> shell_ok (close_pop w)"
  by (simp add: close_pop_def)

lemma send_cooling_ok [shell_keeps]: "shell_ok w \<Longrightarrow> shell_ok (send_cooling w)"
  by (simp add: send_cooling_def feed_send_def shell_ok_def command_valid_def editor_ok_validates)

lemma send_lighting_ok [shell_keeps]: "shell_ok w \<Longrightarrow> shell_ok (send_lighting ch w)"
  by (auto simp: send_lighting_def command_valid_def channel_program_validates split: option.split sum.split
      intro!: feed_send_ok)

lemma editor_preset_validates: "editor_preset e = Inr p \<Longrightarrow> validate_preset p = Inr ()"
  using editor_preset_facts [of e] by simp

lemma send_display_ok [shell_keeps]: "shell_ok w \<Longrightarrow> shell_ok (send_display w)"
  by (auto simp: send_display_def command_valid_def editor_preset_validates split: sum.split intro!: feed_send_ok)

lemma flush_target_ok: "shell_ok w \<Longrightarrow> shell_ok (flush_target now t w)"
  by (auto simp: flush_target_def send_target_def intro!: shell_keeps split: pending_target.split lighting_row.split)

lemma flush_writes_ok [shell_keeps]: "shell_ok w \<Longrightarrow> shell_ok (flush_writes now w)"
proof -
  assume w: "shell_ok w"
  have "shell_ok (foldl (\<lambda>w t. flush_target now t w) w ts)" if "shell_ok w" for ts w
    using that by (induction ts arbitrary: w) (simp_all add: flush_target_ok)
  moreover have "shell_ok (w\<lparr>wn_due := snd (take_due now (wn_due w))\<rparr>)"
    using w book.take_ok by (auto simp: shell_ok_def take_due_def)
  ultimately show ?thesis by (simp add: flush_writes_def split_beta)
qed

lemma play_film_ok [shell_keeps]: "shell_ok w \<Longrightarrow> shell_ok (play_film w)"
  by (auto simp: play_film_def next_film_generation_def Let_def shell_ok_def split: option.split)

lemma film_timer_ok [shell_keeps]: "shell_ok w \<Longrightarrow> shell_ok (film_timer_fired g w)"
  by (auto simp: film_timer_fired_def split_beta Let_def advance_film_ok shell_okD intro!: shell_keeps)

lemma refresh_picture_ok [shell_keeps]: "shell_ok w \<Longrightarrow> shell_ok (refresh_picture v w)"
  by (auto simp: refresh_picture_def split_beta Let_def sync_picture_ok shell_okD intro!: shell_keeps)

lemma schedule_write_ok [shell_keeps]: "shell_ok w \<Longrightarrow> shell_ok (schedule_write v now t w)"
  by (simp add: schedule_write_def Let_def shell_keeps)

lemma touch_cooling_ok [shell_keeps]: "shell_ok w \<Longrightarrow> shell_ok (touch_cooling now w)"
  by (simp add: touch_cooling_def shell_keeps)

text \<open>A daemon reports only committed programs that validate.\<close>

definition link_valid :: "link_state \<Rightarrow> bool" where
  "link_valid l = (case Option.bind (link_status l) dm_cooling of
      Some p \<Rightarrow> validate_program p = Inr () | None \<Rightarrow> True)"

lemma adopt_committed_ok [shell_keeps]:
  "shell_ok w \<Longrightarrow> link_valid (wn_link w) \<Longrightarrow> shell_ok (adopt_committed_program w)"
  by (auto simp: adopt_committed_program_def program_to_adopt_def link_valid_def editor_adopt_ok shell_okD
      intro!: shell_keeps split: option.split if_splits)

lemma adopt_outcome_ok [shell_keeps]: "shell_ok w \<Longrightarrow> shell_ok (adopt_outcome published w)"
  by (cases "wn_sent w")
    (auto simp: adopt_outcome_def Let_def shell_ok_def record_applied_def editor_ok_def split: option.split outcome_severity.split)

lemma seed_lcd_ok [shell_keeps]: "shell_ok w \<Longrightarrow> shell_ok (seed_lcd w)"
  by (auto simp: seed_lcd_def adopt_preset_def edit_display_ok shell_okD intro!: shell_keeps split: option.split)

lemma take_link_ok [shell_keeps]: "shell_ok w \<Longrightarrow> link_valid l \<Longrightarrow> shell_ok (take_link v l w)"
proof -
  assume w: "shell_ok w" and l: "link_valid l"
  have "wn_link (seed_lcd w') = wn_link w'" for w'
    by (auto simp: seed_lcd_def split: option.split)
  then show ?thesis
    using w l by (auto simp: take_link_def Let_def intro!: shell_keeps split: option.split)
qed

definition published_valid :: "feed_state \<Rightarrow> bool" where
  "published_valid f = (case fd_link f of Some l \<Rightarrow> link_valid l | None \<Rightarrow> True)"

lemma refresh_ok [shell_keeps]: "shell_ok w \<Longrightarrow> published_valid f \<Longrightarrow> shell_ok (refresh v now unix f w)"
  by (auto simp: refresh_def Let_def published_valid_def intro!: shell_keeps split: option.split)

lemma edit_lcd_ok [shell_keeps]: "shell_ok w \<Longrightarrow> shell_ok (edit_lcd f w)"
  by (simp add: edit_lcd_def shell_keeps edit_display_ok shell_okD)

lemma edit_row_ok [shell_keeps]: "shell_ok w \<Longrightarrow> shell_ok (edit_row ch f w)"
  by (simp add: edit_row_def)

lemma set_brightness_ok [shell_keeps]: "shell_ok w \<Longrightarrow> shell_ok (set_brightness row b w)"
  by (auto simp: set_brightness_def Let_def intro!: shell_keeps split: lighting_row.split)

text \<open>A running gesture on a curve holds a curve that stays above the floor of its channel.\<close>

definition drag_ok :: "shell \<Rightarrow> bool" where
  "drag_ok w = (case ix_drag (wn_interaction w) of
      Some (DragCurve ch _ base _) \<Rightarrow> nodes_above (min_duty ch) base | _ \<Rightarrow> True)"

lemma drag_to_ok [shell_keeps]: "shell_ok w \<Longrightarrow> drag_ok w \<Longrightarrow> shell_ok (drag_to now p w)"
  by (auto simp: drag_to_def Let_def drag_ok_def set_duty_ok set_node_from_ok shell_okD intro!: shell_keeps
      split: option.split drag.split)

lemma begin_drag_ok [shell_keeps]: "shell_ok w \<Longrightarrow> shell_ok (begin_drag v now p w)"
proof -
  assume w: "shell_ok w"
  have "shell_ok (touch_cooling now ((start_drag d w)\<lparr>wn_rows := r, wn_cooling := set_node_from ch (editor_curve ch (wn_cooling w)) i x (wn_cooling w)\<rparr>))"
    for d r ch i x
    using w by (simp add: start_drag_def touch_cooling_def schedule_touch_def shell_ok_def keyed_set_ok set_node_from_ok editor_ok_curve)
  moreover have "nodes_above (min_duty ch) (editor_curve ch (wn_cooling w))" for ch
    using w by (simp add: editor_ok_curve shell_okD)
  ultimately show ?thesis
    using w unfolding begin_drag_def
    by (auto simp: Let_def split_beta drag_ok_def start_drag_def touch_cooling_def intro!: drag_to_ok split: option.split)
qed

text \<open>Handlers that send nothing, settle nothing and leave the gesture alone.\<close>

lemma quiet_frame [simp]:
  "wn_sent (play_film w) = wn_sent w" "wn_outbox (play_film w) = wn_outbox w" "wn_interaction (play_film w) = wn_interaction w"
  "wn_sent (refresh_picture v w) = wn_sent w" "wn_outbox (refresh_picture v w) = wn_outbox w"
  "wn_interaction (refresh_picture v w) = wn_interaction w"
  "wn_sent (film_timer_fired g w) = wn_sent w" "wn_outbox (film_timer_fired g w) = wn_outbox w"
  "wn_interaction (film_timer_fired g w) = wn_interaction w"
  "wn_sent (schedule_write v now t w) = wn_sent w" "wn_outbox (schedule_write v now t w) = wn_outbox w"
  "wn_interaction (schedule_write v now t w) = wn_interaction w"
  "wn_sent (seed_lcd w) = wn_sent w" "wn_outbox (seed_lcd w) = wn_outbox w" "wn_interaction (seed_lcd w) = wn_interaction w"
  "wn_sent (adopt_committed_program w) = wn_sent w" "wn_outbox (adopt_committed_program w) = wn_outbox w"
  "wn_interaction (adopt_committed_program w) = wn_interaction w"
  "wn_sent (set_brightness row b w) = wn_sent w" "wn_outbox (set_brightness row b w) = wn_outbox w"
  "wn_interaction (set_brightness row b w) = wn_interaction w"
  by (auto simp: play_film_def refresh_picture_def film_timer_fired_def schedule_write_def seed_lcd_def
      adopt_committed_program_def set_brightness_def edit_lcd_def edit_row_def next_film_generation_def Let_def split_beta
      split: option.split lighting_row.split)

lemma quiet_frame_more [simp]:
  "wn_sent (take_link v l w) = wn_sent w" "wn_outbox (take_link v l w) = wn_outbox w"
  "wn_interaction (take_link v l w) = wn_interaction w"
  "wn_sent (close_pop w) = wn_sent w" "wn_outbox (close_pop w) = wn_outbox w"
  "ix_drag (wn_interaction (close_pop w)) = ix_drag (wn_interaction w)"
  "wn_sent (drag_to now p w) = wn_sent w" "wn_outbox (drag_to now p w) = wn_outbox w"
  "wn_interaction (drag_to now p w) = wn_interaction w"
  "wn_outbox (adopt_outcome u w) = wn_outbox w" "wn_interaction (adopt_outcome u w) = wn_interaction w"
  by (auto simp: take_link_def close_pop_def dismiss_def drag_to_def touch_cooling_def adopt_outcome_def Let_def
      split: option.split drag.split outcome_severity.split)

lemma send_frame [simp]:
  "wn_interaction (send_target t w) = wn_interaction w" "wn_interaction (flush_target now t w) = wn_interaction w"
  "wn_interaction (flush_writes now w) = wn_interaction w"
proof -
  show "wn_interaction (send_target t w) = wn_interaction w" for t w
    by (auto simp: send_target_def send_cooling_def send_lighting_def send_display_def feed_send_def
        split: pending_target.split lighting_row.split option.split sum.split)
  then show f: "wn_interaction (flush_target now t w) = wn_interaction w" for t w
    by (simp add: flush_target_def)
  have "wn_interaction (foldl (\<lambda>w t. flush_target now t w) w ts) = wn_interaction w" for ts w
    by (induction ts arbitrary: w) (simp_all add: f)
  then show "wn_interaction (flush_writes now w) = wn_interaction w"
    by (simp add: flush_writes_def split_beta)
qed

section \<open>Any event\<close>

lemma saved_name_valid: "validate_name (pf_name (saved_profile w)) = Inr () \<and> pf_name (saved_profile w) \<noteq> SAFE_PROFILE_NAME"
proof -
  define label where "label = cooling_mode_label (ed_mode (wn_cooling w))"
  define t where "t = take (47 - length label) (show_nat (length (link_profiles (wn_link w))))"
  have l: "label \<noteq> []" "length label \<le> 24" "\<forall>c \<in> set label. byte c < 128" "\<not> is_whitespace [hd label]"
    by (cases "ed_mode (wn_cooling w)"; simp add: label_def byte_def is_whitespace_def)+
  have n: "c \<in> set (show_nat m) \<Longrightarrow> byte c < 128 \<and> \<not> is_whitespace [c]" for c m
    using graphic_show_nat [of c m] by (auto simp: ascii_graphic_def is_whitespace_def)
  have "t \<noteq> []" using l(2) by (simp add: t_def)
  then have t: "t \<noteq> []" "\<forall>c \<in> set t. byte c < 128 \<and> \<not> is_whitespace [c]" "length t \<le> 47 - length label"
    using n by (auto simp: t_def dest: in_set_takeD)
  let ?s = "label @ '' '' @ show_nat (length (link_profiles (wn_link w)))"
  have "chars ?s = map (\<lambda>c. [c]) ?s"
    using l(3) n by (intro chars_ascii) (auto simp: byte_def)
  then have "concat (take 48 (chars ?s)) = take 48 ?s"
    by (simp only: take_map concat_map_singleton map_ident)
  then have "pf_name (saved_profile w) = take 48 ?s"
    by (simp add: saved_profile_def label_def)
  then have name: "pf_name (saved_profile w) = label @ '' '' @ t"
    using l(2) by (simp add: t_def take_Cons')
  have c: "chars (label @ CHR '' '' # t) = map (\<lambda>c. [c]) (label @ CHR '' '' # t)"
    using l(3) t(2) by (intro chars_ascii) (auto simp: byte_def)
  have "trim (label @ '' '' @ t) = label @ '' '' @ t"
    using l t by (intro trim_id) (simp_all add: c hd_map last_map hd_append)
  moreover have "char_count (label @ '' '' @ t) \<le> 48" using l(2) t(3) by (simp add: char_count_def c)
  moreover have "1 \<le> char_count (label @ '' '' @ t)" by (simp add: char_count_def c)
  moreover have "label @ '' '' @ t \<noteq> SAFE_PROFILE_NAME"
    by (cases "ed_mode (wn_cooling w)") (simp_all add: label_def SAFE_PROFILE_NAME_def)
  ultimately show ?thesis
    by (simp add: name validate_name_def PROFILE_NAME_MIN_LEN_def PROFILE_NAME_MAX_LEN_def)
qed

lemma validate_lighting_list_all:
  "validate_lighting_list cs = Inr () \<longleftrightarrow> list_all (\<lambda>c. validate_lighting_program (lc_program c) = Inr ()) cs"
  by (induction cs) (auto split: sum.split)

lemma saved_profile_valid: "shell_ok w \<Longrightarrow> command_valid (FeedSaveProfile (saved_profile w))"
proof -
  assume w: "shell_ok w"
  have "validate_lighting_list (pf_lighting (saved_profile w)) = Inr ()"
    unfolding validate_lighting_list_all
    by (auto simp: saved_profile_def list_all_iff channel_program_validates split: sum.splits)
  moreover have "pf_display (saved_profile w) = Some d \<Longrightarrow> validate_preset d = Inr ()" for d
    by (auto simp: saved_profile_def editor_preset_validates split: if_splits sum.splits)
  moreover have "validate_program (pf_program (saved_profile w)) = Inr ()"
    by (simp add: saved_profile_def editor_ok_validates shell_okD [OF w])
  ultimately show ?thesis
    using saved_name_valid [of w] by (cases "pf_display (saved_profile w)") (simp_all add: command_valid_def validate_profile_def)
qed

definition event_valid :: "shell_event \<Rightarrow> bool" where
  "event_valid e = (case e of EvPublished _ f \<Rightarrow> published_valid f | _ \<Rightarrow> True)"

definition shell_inv :: "shell \<Rightarrow> bool" where
  "shell_inv w \<longleftrightarrow> shell_ok w \<and> drag_ok w"

lemma choose_for_row_ok [shell_keeps]: "shell_ok w \<Longrightarrow> shell_ok (choose_for_row v now ch x f w)"
  by (simp add: choose_for_row_def shell_keeps split: option.split)

lemma choose_cooling_mode_ok [shell_keeps]: "shell_ok w \<Longrightarrow> shell_ok (choose_cooling_mode v now value w)"
  using shell_okD(1) [of w]
  by (auto simp: choose_cooling_mode_def editor_set_mode_def intro!: shell_keeps split: option.split)

lemma choose_lcd_ok [shell_keeps]:
  "shell_ok w \<Longrightarrow> shell_ok (choose_lcd_mode v now value w)" "shell_ok w \<Longrightarrow> shell_ok (choose_lcd_metric v now slot value w)"
  by (auto simp: choose_lcd_mode_def choose_lcd_metric_def intro!: shell_keeps split: option.split)

lemma on_select_ok [shell_keeps]:
  assumes "shell_ok w" shows "shell_ok (on_select v now sel value w)"
proof (cases sel)
  case SelProfile
  have "command_valid (FeedActivateProfile value)" by (simp add: command_valid_def)
  then show ?thesis using assms SelProfile by (simp add: on_select_def choose_profile_def feed_send_ok)
qed (use assms in \<open>simp_all add: on_select_def choose_cooling_mode_ok choose_lcd_ok choose_for_row_ok
      choose_channel_mode_def choose_channel_speed_def choose_channel_direction_def\<close>)

lemma option_ok: "shell_ok w \<Longrightarrow> (\<And>x. shell_ok (f x)) \<Longrightarrow> shell_ok (case m of None \<Rightarrow> w | Some x \<Rightarrow> f x)"
  by (cases m) simp_all

lemma key_duty_ok [shell_keeps]: "shell_ok w \<Longrightarrow> shell_ok (key_duty v now ch painted key w)"
  unfolding key_duty_def Let_def adjust_duty_def
  by (intro option_ok schedule_write_ok shell_ok_cooling set_duty_ok shell_okD(1)) assumption+

lemma adjust_curve_node_ok [shell_keeps]: "shell_ok w \<Longrightarrow> shell_ok (adjust_curve_node v now ch steps w)"
  unfolding adjust_curve_node_def adjust_node_def Let_def
  by (intro schedule_write_ok shell_ok_cooling set_node_ok shell_okD(1)) assumption+

lemma key_curve_ok [shell_keeps]: "shell_ok w \<Longrightarrow> shell_ok (key_curve v now ch key w)"
  by (simp add: key_curve_def adjust_curve_node_ok)

lemma key_brightness_ok [shell_keeps]: "shell_ok w \<Longrightarrow> shell_ok (key_brightness v now row painted key w)"
  unfolding key_brightness_def Let_def
  by (intro option_ok schedule_write_ok set_brightness_ok close_pop_ok) assumption+

lemma choose_color_ok [shell_keeps]: "shell_ok w \<Longrightarrow> shell_ok (choose_color v now picker swatch w)"
  by (cases picker) (simp_all add: choose_color_def Let_def schedule_write_ok close_pop_ok edit_lcd_ok edit_row_ok)

lemma shell_step_ok:
  assumes "shell_inv w" "event_valid e" shows "shell_ok (shell_step v now e w)"
proof -
  have w: "shell_ok w" "drag_ok w" using assms(1) by (simp_all add: shell_inv_def)
  note e = shell_okD [OF w(1)]
  show ?thesis
  proof (cases e)
    case (EvDelete)
    then show ?thesis using w
      by (auto simp: shell_delete_profile_def next_deletion_def command_valid_def intro!: shell_keeps split: option.split)
  next
    case EvRevert
    then show ?thesis using w e by (auto simp: revert_cooling_def editor_cancel_ok intro!: shell_keeps)
  next
    case EvResume
    then show ?thesis using w
      by (auto simp: resume_display_def Let_def command_valid_def editor_preset_validates intro!: shell_keeps split: sum.split)
  next
    case EvRelease
    then show ?thesis using w by (auto simp: window_release_def end_drag_def Let_def intro!: shell_keeps split: option.split drag.split)
  next
    case (EvPublished unix f)
    then show ?thesis using w assms(2) by (simp add: event_valid_def shell_keeps)
  next
    case (EvLightingRow row)
    then show ?thesis using w by (auto simp: toggle_lighting_row_def Let_def intro!: shell_keeps)
  qed (use w saved_profile_valid in \<open>auto simp: window_press_def paint_frame_def go_to_def toggle_cooling_row_def toggle_popover_def
      shell_save_profile_def choose_image_def select_option_def Let_def intro!: shell_keeps\<close>)
qed

lemma begin_drag_drag: "shell_ok w \<Longrightarrow> drag_ok w \<Longrightarrow> drag_ok (begin_drag v now p w)"
  by (auto simp: begin_drag_def start_drag_def touch_cooling_def drag_ok_def Let_def split_beta editor_ok_curve shell_okD
      split: option.splits)

text \<open>Only a press and a release change the gesture.\<close>

definition moves_gesture :: "shell_event \<Rightarrow> bool" where
  "moves_gesture e = (case e of EvPress _ _ \<Rightarrow> True | EvRelease \<Rightarrow> True | _ \<Rightarrow> False)"

lemma on_select_interaction [simp]: "ix_drag (wn_interaction (on_select v now sel value w)) = ix_drag (wn_interaction w)"
  by (cases sel)
    (simp_all add: on_select_def choose_profile_def choose_cooling_mode_def choose_lcd_mode_def choose_lcd_metric_def
      choose_channel_mode_def choose_channel_speed_def choose_channel_direction_def choose_for_row_def feed_send_def
      edit_lcd_def edit_row_def split: option.split)

lemma option_drag: "ix_drag (wn_interaction w) = d \<Longrightarrow> (\<And>x. ix_drag (wn_interaction (f x)) = d) \<Longrightarrow>
    ix_drag (wn_interaction (case m of None \<Rightarrow> w | Some x \<Rightarrow> f x)) = d"
  by (cases m) simp_all

lemma step_gesture: "\<not> moves_gesture e \<Longrightarrow> ix_drag (wn_interaction (shell_step v now e w)) = ix_drag (wn_interaction w)"
proof (cases e)
  case (EvKeyDuty ch painted key)
  show ?thesis unfolding EvKeyDuty shell_step.simps key_duty_def Let_def by (intro option_drag) simp_all
next
  case (EvKeyBrightness row painted key)
  show ?thesis unfolding EvKeyBrightness shell_step.simps key_brightness_def Let_def by (intro option_drag) simp_all
next
  case (EvColor picker swatch)
  then show ?thesis by (cases picker) (simp_all add: choose_color_def Let_def edit_lcd_def edit_row_def)
qed (auto simp: moves_gesture_def refresh_def Let_def paint_frame_def clear_tracks_def go_to_def toggle_popover_def toggle_pop_def
    select_option_def choose_image_def edit_lcd_def resume_display_def toggle_lighting_row_def toggle_cooling_row_def
    key_curve_def adjust_curve_node_def revert_cooling_def shell_save_profile_def shell_delete_profile_def feed_send_def split_beta
    split: option.split sum.split)

lemma shell_step_inv: "shell_inv w \<Longrightarrow> event_valid e \<Longrightarrow> shell_inv (shell_step v now e w)"
proof -
  assume w: "shell_inv w" and e: "event_valid e"
  have "drag_ok (shell_step v now e w)"
  proof (cases "moves_gesture e")
    case False
    then show ?thesis using w step_gesture [of e v now w] by (simp add: shell_inv_def drag_ok_def)
  next
    case True
    then show ?thesis
      using w begin_drag_drag [of w v now]
      by (auto simp: moves_gesture_def shell_inv_def window_press_def window_release_def end_drag_def drag_ok_def Let_def
          split: shell_event.splits option.splits drag.splits)
  qed
  then show ?thesis using shell_step_ok [OF w e] by (simp add: shell_inv_def)
qed

lemma shell_new_inv: "shell_inv (shell_new u)"
  using editor_new_ok screen_default_ok
  by (simp add: shell_inv_def shell_ok_def drag_ok_def shell_new_def interaction_default_def keyed_ok_def)

lemma shell_run_inv: "list_all (\<lambda>(_, _, e). event_valid e) es \<Longrightarrow> shell_inv w \<Longrightarrow> shell_inv (shell_run es w)"
proof (induction es arbitrary: w)
  case (Cons x es)
  then show ?case using shell_step_inv by (cases x) (simp add: shell_run_def)
qed (simp add: shell_run_def)


section \<open>A flush sends what has settled\<close>

text \<open>What a target sends when it is let through: nothing when its edit is not complete or is already what the
  daemon reports.\<close>

definition target_commands :: "shell \<Rightarrow> pending_target \<Rightarrow> feed_command list" where
  "target_commands w t = (case t of
      WriteCooling \<Rightarrow>
        if editor_pending (shell_kraken w) (wn_cooling w) \<and> validation_error_of (wn_cooling w) = None
        then [FeedApply (editor_program (wn_cooling w))] else []
    | WriteLighting (RowChannel ch) \<Rightarrow> (case editor_channel ch (wn_lighting w) of
        None \<Rightarrow> []
      | Some e \<Rightarrow> (case channel_program e of
          Inl _ \<Rightarrow> []
        | Inr p \<Rightarrow> if Option.bind (find (\<lambda>s. lcs_channel s = ch) (link_lighting_channels (wn_link w))) lcs_committed = Some p
            then [] else [FeedApplyLighting \<lparr>lc_channel = ch, lc_program = p\<rparr>]))
    | WriteLighting RowLcd \<Rightarrow> (case editor_preset (sc_editor (wn_lcd w)) of
        Inl _ \<Rightarrow> []
      | Inr p \<Rightarrow> if link_display_committed (wn_link w) = Some p then [] else [FeedApplyDisplay p]))"

definition held_back :: "shell \<Rightarrow> pending_target \<Rightarrow> bool" where
  "held_back w t = write_is_held_back t (ix_drag (wn_interaction w)) (wn_sent w \<noteq> None)"

definition sent_after :: "shell \<Rightarrow> pending_target list \<Rightarrow> cooling_program option" where
  "sent_after w ts = (if WriteCooling \<in> set ts \<and> \<not> held_back w WriteCooling \<and> target_commands w WriteCooling \<noteq> []
    then Some (editor_program (wn_cooling w)) else wn_sent w)"

lemma send_target_eq: "send_target t w =
    w\<lparr>wn_outbox := wn_outbox w @ target_commands w t,
      wn_sent := (if t = WriteCooling \<and> target_commands w t \<noteq> [] then Some (editor_program (wn_cooling w)) else wn_sent w)\<rparr>"
  by (cases w)
    (auto simp: send_target_def target_commands_def send_cooling_def send_lighting_def send_display_def feed_send_def
      shell_kraken_def split: pending_target.split lighting_row.split option.split sum.split)

lemma target_commands_frame [simp]:
  "target_commands (w\<lparr>wn_outbox := ks\<rparr>) t = target_commands w t" "target_commands (w\<lparr>wn_sent := s\<rparr>) t = target_commands w t"
  "target_commands (w\<lparr>wn_due := d\<rparr>) t = target_commands w t"
  by (auto simp: target_commands_def shell_kraken_def split: pending_target.split lighting_row.split option.split sum.split)

lemma held_back_frame [simp]:
  "held_back (w\<lparr>wn_outbox := ks\<rparr>) t = held_back w t" "held_back (w\<lparr>wn_due := d\<rparr>) t = held_back w t"
  "t \<noteq> WriteCooling \<Longrightarrow> held_back (w\<lparr>wn_sent := s\<rparr>) t = held_back w t"
  by (cases t; simp add: held_back_def write_is_held_back_def)+

lemma flush_targets:
  "distinct ts \<Longrightarrow> foldl (\<lambda>w t. flush_target now t w) w ts =
    w\<lparr>wn_due := foldl (\<lambda>d t. keyed_set t (now + target_quiet t) d) (wn_due w) (filter (held_back w) ts),
      wn_outbox := wn_outbox w @ concat (map (target_commands w) (filter (\<lambda>t. \<not> held_back w t) ts)),
      wn_sent := sent_after w ts\<rparr>"
proof (induction ts arbitrary: w)
  case (Cons t ts)
  show ?case
  proof (cases "held_back w t")
    case True
    have f: "flush_target now t w = w\<lparr>wn_due := keyed_set t (now + target_quiet t) (wn_due w)\<rparr>"
      using True by (simp add: flush_target_def held_back_def schedule_touch_def)
    have h: "held_back (w\<lparr>wn_due := d\<rparr>) = held_back w" "target_commands (w\<lparr>wn_due := d\<rparr>) = target_commands w" for d
      by (simp_all add: fun_eq_iff)
    show ?thesis using Cons True by (auto simp: f h sent_after_def)
  next
    case False
    have f: "flush_target now t w = send_target t w" using False by (simp add: flush_target_def held_back_def)
    have h: "x \<in> set ts \<Longrightarrow> held_back (send_target t w) x = held_back w x" for x
      using Cons.prems by (cases "t = WriteCooling"; cases x) (auto simp: send_target_eq held_back_def write_is_held_back_def)
    have c: "target_commands (send_target t w) = target_commands w" by (simp add: send_target_eq fun_eq_iff)
    have "filter (held_back (send_target t w)) ts = filter (held_back w) ts"
      "filter (\<lambda>x. \<not> held_back (send_target t w) x) ts = filter (\<lambda>x. \<not> held_back w x) ts"
      using h by (auto intro: filter_cong)
    moreover have "sent_after (send_target t w) ts = sent_after w (t # ts)"
      using Cons.prems False h by (auto simp: sent_after_def c) (auto simp: send_target_eq)
    ultimately show ?thesis using Cons False by (simp add: f c) (simp add: send_target_eq)
  qed
qed (simp add: sent_after_def)

text \<open>C12: A flush sends exactly what has settled. The targets whose deadline has passed are taken, each once
  and in the order of the book. One that a gesture holds, or a cooling write in flight, keeps its place with
  a new deadline a quiet period away; every other sends what it has to send and leaves the book; a target
  that is not due stays as it was, and nothing else of the window changes.\<close>

theorem flush_sends_what_settled:
  "(if keyed_ok (wn_due w)
    then (let ready = fst (take_due now (wn_due w)); w' = flush_writes now w
      in distinct ready \<and> (t \<in> set ready \<longleftrightarrow> (\<exists>deadline. keyed_get t (wn_due w) = Some deadline \<and> deadline \<le> now)) \<and>
         wn_outbox w' = wn_outbox w @ concat (map (target_commands w) (filter (\<lambda>t. \<not> held_back w t) ready)) \<and>
         keyed_get t (wn_due w') = (if t \<notin> set ready then keyed_get t (wn_due w)
           else if held_back w t then Some (now + target_quiet t) else None) \<and>
         w' = w\<lparr>wn_due := wn_due w', wn_outbox := wn_outbox w', wn_sent := sent_after w ready\<rparr>)
    else True)"
proof (cases "keyed_ok (wn_due w)")
  case True
  let ?P = "\<lambda>deadline. deadline \<le> now"
  obtain ready rest where r: "take_due now (wn_due w) = (ready, rest)" by fastforce
  have t: "keyed_take ?P (wn_due w) = (ready, rest)" using r by (simp add: take_due_def)
  have ok: "keyed_ok rest" "distinct ready" using book.take_ok [OF True, of ?P] book.take_distinct [OF True, of ?P] t by simp_all
  have m: "x \<in> set ready \<longleftrightarrow> (\<exists>d. keyed_get x (wn_due w) = Some d \<and> d \<le> now)" for x
    using book.take_members [OF True, of x ?P] t by simp
  have l: "keyed_get x rest = (if x \<in> set ready then None else keyed_get x (wn_due w))" for x
    using book.take_lookup [OF True, of x ?P] m [of x] t by (auto split: option.split)
  have h: "held_back (w\<lparr>wn_due := rest\<rparr>) = held_back w" "target_commands (w\<lparr>wn_due := rest\<rparr>) = target_commands w"
    by (simp_all add: fun_eq_iff)
  have s: "sent_after (w\<lparr>wn_due := rest\<rparr>) ready = sent_after w ready" by (simp add: sent_after_def)
  have "flush_writes now w = w\<lparr>wn_due := foldl (\<lambda>d t. keyed_set t (now + target_quiet t) d) rest (filter (held_back w) ready),
      wn_outbox := wn_outbox w @ concat (map (target_commands w) (filter (\<lambda>t. \<not> held_back w t) ready)),
      wn_sent := sent_after w ready\<rparr>"
    using flush_targets [OF ok(2), of now "w\<lparr>wn_due := rest\<rparr>"] by (simp add: flush_writes_def r h s)
  then show ?thesis
    using True ok m [of t] l [of t] book.puts_lookup [OF ok(1), of t "\<lambda>t. now + target_quiet t" "filter (held_back w) ready"]
    by (auto simp: Let_def r)
qed simp

end
