(* ===== verification/Shell_Outcomes.thy ===== *)
theory Shell_Outcomes
  imports Shell_Behaviour
begin

text \<open>
  How the window keeps its cooling writes apart: at most one is in flight, a gesture is one edit, and how far
  the outcome of a command can be trusted to reach the write it belongs to.
\<close>

section \<open>Cooling writes do not overlap\<close>

definition is_apply :: "feed_command \<Rightarrow> bool" where
  "is_apply k = (case k of FeedApply _ \<Rightarrow> True | _ \<Rightarrow> False)"

definition cooling_writes :: "shell \<Rightarrow> feed_command list" where
  "cooling_writes w = filter is_apply (wn_outbox w)"

text \<open>The events that may resolve a cooling write: the worker holds the outcome of a cooling command, or the
  operator reverts.\<close>

definition settles :: "shell_event \<Rightarrow> bool" where
  "settles e = (case e of
      EvPublished _ f \<Rightarrow> (case fd_outcome f of Some o1 \<Rightarrow> co_subject o1 = SubjectCooling | None \<Rightarrow> False)
    | EvRevert \<Rightarrow> True
    | _ \<Rightarrow> False)"

definition flushes :: "shell_event \<Rightarrow> bool" where
  "flushes e = (case e of EvPublished _ _ \<Rightarrow> True | EvWriteTimer \<Rightarrow> True | _ \<Rightarrow> False)"

lemma cooling_writes_send: "cooling_writes (feed_send k w) = cooling_writes w @ (if is_apply k then [k] else [])"
  by (simp add: cooling_writes_def feed_send_def)

lemma cooling_writes_frame: "wn_outbox w' = wn_outbox w \<Longrightarrow> cooling_writes w' = cooling_writes w"
  by (simp add: cooling_writes_def)

lemma option_frame: "\<lbrakk>wn_sent w = p \<and> wn_outbox w = ks; \<And>x. wn_sent (f x) = p \<and> wn_outbox (f x) = ks\<rbrakk> \<Longrightarrow>
    wn_sent (case m of None \<Rightarrow> w | Some x \<Rightarrow> f x) = p \<and> wn_outbox (case m of None \<Rightarrow> w | Some x \<Rightarrow> f x) = ks"
  by (cases m) simp_all

lemma begin_drag_frame [simp]:
  "wn_sent (begin_drag v now p w) = wn_sent w" "wn_outbox (begin_drag v now p w) = wn_outbox w"
  by (auto simp: begin_drag_def start_drag_def touch_cooling_def Let_def split_beta split: option.split)

lemma on_select_frame:
  "wn_sent (on_select v now sel value w) = wn_sent w \<and> cooling_writes (on_select v now sel value w) = cooling_writes w"
  by (cases sel)
    (auto simp: on_select_def choose_profile_def choose_cooling_mode_def choose_lcd_mode_def choose_lcd_metric_def
      choose_channel_mode_def choose_channel_speed_def choose_channel_direction_def choose_for_row_def feed_send_def
      edit_lcd_def edit_row_def cooling_writes_def is_apply_def split: option.split)

lemma step_sends_no_cooling:
  assumes "\<not> flushes e" "e \<noteq> EvRevert"
  shows "wn_sent (shell_step v now e w) = wn_sent w \<and> cooling_writes (shell_step v now e w) = cooling_writes w"
proof -
  have keys: "wn_sent (key_duty v now ch d k w) = wn_sent w \<and> wn_outbox (key_duty v now ch d k w) = wn_outbox w"
    "wn_sent (key_brightness v now row d k w) = wn_sent w \<and> wn_outbox (key_brightness v now row d k w) = wn_outbox w" for ch d k row
    unfolding key_duty_def key_brightness_def Let_def by (intro option_frame conjI; simp)+
  have color: "wn_sent (choose_color v now picker swatch w) = wn_sent w \<and> wn_outbox (choose_color v now picker swatch w) = wn_outbox w"
    for picker swatch
    by (cases picker) (simp_all add: choose_color_def Let_def edit_lcd_def edit_row_def)
  show ?thesis
  proof (cases e)
    case (EvSelect sel val)
    then show ?thesis using on_select_frame [of v now sel val w] by (simp add: select_option_def cooling_writes_def)
  qed (use assms keys color in \<open>auto simp: flushes_def paint_frame_def window_press_def window_release_def end_drag_def go_to_def
      toggle_popover_def choose_image_def edit_lcd_def resume_display_def toggle_lighting_row_def toggle_cooling_row_def
      key_curve_def adjust_curve_node_def shell_save_profile_def shell_delete_profile_def next_deletion_def feed_send_def Let_def
      is_apply_def cooling_writes_def split_beta split: option.split sum.split drag.split\<close>)
qed

text \<open>A flush: nothing of the cooling program leaves while it is held back.\<close>

lemma target_commands_apply: "filter is_apply (target_commands w t) =
    (if t = WriteCooling then target_commands w t else [])"
  by (auto simp: target_commands_def is_apply_def split: pending_target.split lighting_row.split option.split sum.split)

lemma flush_held:
  assumes "held_back w WriteCooling"
  shows "wn_sent (flush_writes now w) = wn_sent w \<and> cooling_writes (flush_writes now w) = cooling_writes w"
proof -
  have step: "wn_sent (flush_target now t w) = wn_sent w \<and> cooling_writes (flush_target now t w) = cooling_writes w \<and>
      held_back (flush_target now t w) WriteCooling" if "held_back w WriteCooling" for w t
  proof (cases "held_back w t")
    case True
    then show ?thesis using that by (simp add: flush_target_def held_back_def cooling_writes_def)
  next
    case False
    then have t: "t \<noteq> WriteCooling" using that by auto
    then have s: "wn_sent (flush_target now t w) = wn_sent w" using False by (simp add: flush_target_def held_back_def send_target_eq)
    then show ?thesis
      using False t that target_commands_apply [of w t]
      by (simp add: flush_target_def held_back_def cooling_writes_def) (simp add: send_target_eq)
  qed
  have "wn_sent (foldl (\<lambda>w t. flush_target now t w) w ts) = wn_sent w \<and>
      cooling_writes (foldl (\<lambda>w t. flush_target now t w) w ts) = cooling_writes w" if "held_back w WriteCooling" for w ts
    using that by (induction ts arbitrary: w) (simp_all add: step)
  from this [of "w\<lparr>wn_due := snd (take_due now (wn_due w))\<rparr>"] show ?thesis
    using assms by (simp add: flush_writes_def split_beta cooling_writes_def)
qed

lemma flush_one:
  assumes "keyed_ok (wn_due w)"
  shows "cooling_writes (flush_writes now w) = cooling_writes w \<or>
    (\<exists>p. cooling_writes (flush_writes now w) = cooling_writes w @ [FeedApply p] \<and> wn_sent (flush_writes now w) = Some p)"
proof -
  obtain ready rest where r: "take_due now (wn_due w) = (ready, rest)" by fastforce
  have d: "distinct ready" using book.take_distinct [OF assms] r by (metis fst_conv take_due_def)
  let ?w = "w\<lparr>wn_due := rest\<rparr>"
  let ?go = "filter (\<lambda>t. \<not> held_back ?w t) ready"
  have a: "filter is_apply (concat (map (target_commands ?w) ts)) =
      (if WriteCooling \<in> set ts then target_commands ?w WriteCooling else [])" if "distinct ts" for ts
    using that by (induction ts) (auto simp: target_commands_apply simp del: target_commands_frame)
  have f: "flush_writes now w = foldl (\<lambda>w t. flush_target now t w) ?w ready" by (simp add: flush_writes_def r)
  have "cooling_writes (flush_writes now w) = cooling_writes w @ (if WriteCooling \<in> set ?go then target_commands ?w WriteCooling else [])"
    unfolding f flush_targets [OF d] using a [of ?go] d by (simp add: cooling_writes_def)
  moreover have "wn_sent (flush_writes now w) = sent_after ?w ready" unfolding f flush_targets [OF d] by simp
  ultimately show ?thesis
    by (auto simp: sent_after_def) (auto simp: target_commands_def split: if_splits)
qed

text \<open>What a publication does before it flushes.\<close>

definition before_flush :: "shell_env \<Rightarrow> u64 \<Rightarrow> feed_state \<Rightarrow> shell \<Rightarrow> shell" where
  "before_flush v unix f w =
    (let w = w\<lparr>wn_now_unix_ms := unix\<rparr>
     in adopt_outcome (fd_outcome f) (case fd_link f of Some l \<Rightarrow> take_link v l w | None \<Rightarrow> w))"

lemma refresh_before: "refresh v now unix f w = flush_writes now (before_flush v unix f w)"
  by (simp add: refresh_def before_flush_def Let_def)

lemma before_flush_frame [simp]:
  "wn_outbox (before_flush v unix f w) = wn_outbox w" "wn_interaction (before_flush v unix f w) = wn_interaction w"
  by (auto simp: before_flush_def Let_def split: option.split)

lemma adopt_outcome_keeps: "\<not> settles (EvPublished unix f) \<Longrightarrow> wn_sent (adopt_outcome (fd_outcome f) w) = wn_sent w"
  by (auto simp: adopt_outcome_def settles_def Let_def split: option.splits outcome_severity.split)

lemma before_flush_sent: "\<not> settles (EvPublished unix f) \<Longrightarrow> wn_sent (before_flush v unix f w) = wn_sent w"
  using adopt_outcome_keeps [of unix f] by (simp add: before_flush_def Let_def split: option.split)

lemma step_in_flight:
  assumes "wn_sent w = Some p" "\<not> settles e"
  shows "wn_sent (shell_step v now e w) = Some p \<and> cooling_writes (shell_step v now e w) = cooling_writes w"
proof (cases "flushes e")
  case False
  have "e \<noteq> EvRevert" using assms(2) by (auto simp: settles_def)
  then show ?thesis using step_sends_no_cooling [OF False, of v now w] assms by simp
next
  case True
  have h: "held_back w' WriteCooling" if "wn_sent w' = Some p" for w' using that by (simp add: held_back_def write_is_held_back_def)
  show ?thesis
  proof (cases e)
    case (EvPublished unix f)
    then have "wn_sent (before_flush v unix f w) = Some p" using before_flush_sent assms by simp
    then show ?thesis
      using flush_held [OF h] cooling_writes_frame [of "before_flush v unix f w" w] by (simp add: EvPublished refresh_before)
  qed (use True assms flush_held [OF h] in \<open>simp_all add: flushes_def\<close>)
qed

lemma run_in_flight:
  "wn_sent w = Some p \<Longrightarrow> list_all (\<lambda>(_, _, e). \<not> settles e) es \<Longrightarrow>
    wn_sent (shell_run es w) = Some p \<and> cooling_writes (shell_run es w) = cooling_writes w"
proof (induction es arbitrary: w)
  case (Cons x es)
  obtain v now e where x: "x = (v, now, e)" by (cases x)
  then show ?case using Cons step_in_flight [of w p e v now] by (simp add: shell_run_def)
qed (simp add: shell_run_def)

lemma before_flush_due: "shell_ok w \<Longrightarrow> published_valid f \<Longrightarrow> keyed_ok (wn_due (before_flush v unix f w))"
  by (intro shell_okD(3)) (auto simp: before_flush_def Let_def published_valid_def intro!: shell_keeps split: option.split)

lemma step_one_write:
  assumes "shell_inv w" "event_valid e"
  shows "cooling_writes (shell_step v now e w) = cooling_writes w \<or>
    (\<exists>p. cooling_writes (shell_step v now e w) = cooling_writes w @ [FeedApply p] \<and> wn_sent (shell_step v now e w) = Some p)"
proof (cases "flushes e")
  case False
  then show ?thesis using step_sends_no_cooling [of e v now w]
    by (cases "e = EvRevert") (auto simp: revert_cooling_def cooling_writes_def)
next
  case True
  show ?thesis
  proof (cases e)
    case (EvPublished unix f)
    then show ?thesis
      using flush_one [OF before_flush_due, of w f now v unix] assms cooling_writes_frame [of "before_flush v unix f w" w]
      by (simp add: refresh_before shell_inv_def event_valid_def)
  qed (use True assms flush_one [of w now] in \<open>simp_all add: flushes_def shell_inv_def shell_okD\<close>)
qed

lemma writes_until_settled:
  "shell_inv w \<Longrightarrow> list_all (\<lambda>(_, _, e). event_valid e \<and> \<not> settles e) es \<Longrightarrow>
    length (cooling_writes (shell_run es w)) \<le> length (cooling_writes w) + (if wn_sent w = None then 1 else 0)"
proof (induction es arbitrary: w)
  case (Cons x es)
  obtain v now e where x: "x = (v, now, e)" by (cases x)
  let ?w = "shell_step v now e w"
  have r: "shell_run (x # es) w = shell_run es ?w" by (simp add: shell_run_def x)
  have e: "event_valid e" "\<not> settles e" using Cons.prems(2) by (simp_all add: x)
  have ih: "length (cooling_writes (shell_run es ?w)) \<le> length (cooling_writes ?w) + (if wn_sent ?w = None then 1 else 0)"
    using Cons shell_step_inv [OF Cons.prems(1) e(1)] by simp
  show ?case
  proof (cases "wn_sent w")
    case None
    then show ?thesis using ih step_one_write [OF Cons.prems(1) e(1), of v now] unfolding r by (auto split: if_splits)
  next
    case (Some p)
    then show ?thesis using ih step_in_flight [OF Some e(2), of v now] unfolding r by simp
  qed
qed (simp add: shell_run_def)


section \<open>An outcome can be lost\<close>

lemma outcome_of_last:
  "run_commands cc (ks @ [k]) s f = (s', f') \<Longrightarrow>
    \<exists>o1. fd_outcome f' = Some o1 \<and> co_subject o1 = command_subject_of k"
  using run_commands_fields [of cc "ks @ [k]" s f s' f'] by auto

lemma serve_outcome:
  assumes "due_commands f = ks @ [k]"
  shows "\<exists>o1. fd_outcome (feed_serve cc s f) = Some o1 \<and> co_subject o1 = command_subject_of k"
proof -
  obtain s1 f1 where r: "run_commands cc (ks @ [k]) s (f\<lparr>fd_pending := None, fd_queue := []\<rparr>) = (s1, f1)" by fastforce
  have "fd_outcome (feed_serve cc s f) = fd_outcome f1"
    by (simp add: feed_serve_def assms r publish_unavailable_def split_beta Let_def split: sum.split)
  then show ?thesis using outcome_of_last [OF r] by simp
qed


section \<open>A revert can write\<close>

text \<open>After a revert the editor shows what the device reports. It is still pending, and will be written, in the
  cases the code does not provide for.\<close>

definition revert_pending :: "kraken_telemetry \<Rightarrow> cooling_editor \<Rightarrow> bool" where
  "revert_pending k e = (case reading_value (ct_mode (kt_pump k)) of
      Some PwmFixed \<Rightarrow>
        \<not> ((case reading_value (ct_duty (kt_pump k)) of Some d \<Rightarrow> MIN_PUMP_DUTY \<le> d | None \<Rightarrow> False) \<and>
          reading_value (ct_mode (kt_fan k)) = Some PwmFixed \<and> reading_value (ct_duty (kt_fan k)) \<noteq> None)
    | Some PwmCurve \<Rightarrow>
        reading_value (ct_mode (kt_fan k)) \<noteq> Some PwmCurve \<or>
        ed_applied e \<noteq> Some (CurveProgram (interpolate (ed_pump_curve (restore_applied e))) (interpolate (ed_fan_curve (restore_applied e))))
    | _ \<Rightarrow> False)"

lemma set_read_duty_fields [simp]:
  "ed_pump_curve (set_read_duty ch r e) = ed_pump_curve e" "ed_fan_curve (set_read_duty ch r e) = ed_fan_curve e"
  "ed_applied (set_read_duty ch r e) = ed_applied e"
  by (cases ch; simp add: set_read_duty_def set_duty_def split: option.split)+

lemma restore_applied_applied [simp]: "ed_applied (restore_applied e) = ed_applied e"
  by (auto simp: restore_applied_def split: option.split cooling_program.split)

lemma cancel_pending: "editor_pending (Some k) (editor_cancel (Some k) e) \<longleftrightarrow> revert_pending k e"
proof (cases "reading_value (ct_mode (kt_pump k))")
  case (Some m)
  show ?thesis
  proof (cases m)
    case PwmFixed
    have d: "clamp_duty Pump d = d \<longleftrightarrow> MIN_PUMP_DUTY \<le> d" "d = clamp_duty Pump d \<longleftrightarrow> MIN_PUMP_DUTY \<le> d"
      "clamp_duty Fan d = d" for d
      by (auto simp: clamp_duty_id MIN_FAN_DUTY_def max_def)
    show ?thesis
      using d Some PwmFixed
      by (cases "reading_value (ct_duty (kt_pump k))"; cases "reading_value (ct_duty (kt_fan k))")
        (auto simp: editor_cancel_def Let_def editor_pending_def editor_program_def confirms_fixed_def kraken_channel_def
          revert_pending_def set_read_duty_def set_duty_def)
  qed (use Some in \<open>auto simp: editor_cancel_def Let_def editor_pending_def editor_program_def confirms_mode_def
      kraken_channel_def revert_pending_def\<close>)
qed (simp add: editor_cancel_def Let_def editor_pending_def editor_program_def revert_pending_def)

lemma restore_nothing: "(case ed_applied e of Some (CurveProgram _ _) \<Rightarrow> False | _ \<Rightarrow> True) \<Longrightarrow> restore_applied e = e"
  by (auto simp: restore_applied_def split: option.splits cooling_program.splits)

lemma kraken_frame [simp]: "shell_kraken (schedule_write v now WriteCooling w) = shell_kraken w"
  "wn_cooling (schedule_write v now WriteCooling w) = wn_cooling w"
  "wn_due (schedule_write v now WriteCooling w) = schedule_touch WriteCooling (now + COOLING_QUIET) (wn_due w)"
  by (simp_all add: schedule_write_def shell_kraken_def target_quiet_def)

lemma kraken_fields [simp]: "shell_kraken (w\<lparr>wn_sent := s\<rparr>) = shell_kraken w"
  "shell_kraken (w\<lparr>wn_cooling := e\<rparr>) = shell_kraken w"
  by (simp_all add: shell_kraken_def)

lemma flush_due_cooling:
  assumes "shell_ok w" "keyed_get WriteCooling (wn_due w) = Some d" "d \<le> now" "\<not> held_back w WriteCooling"
    "editor_pending (shell_kraken w) (wn_cooling w)"
  shows "FeedApply (editor_program (wn_cooling w)) \<in> set (wn_outbox (flush_writes now w))"
proof -
  obtain ready rest where r: "take_due now (wn_due w) = (ready, rest)" by fastforce
  note ok = shell_okD(3) [OF assms(1)]
  have t: "keyed_take (\<lambda>deadline. deadline \<le> now) (wn_due w) = (ready, rest)" using r by (simp add: take_due_def)
  have m: "WriteCooling \<in> set ready" "distinct ready"
    using book.take_members [OF ok, of WriteCooling "\<lambda>deadline. deadline \<le> now"] book.take_distinct [OF ok, of "\<lambda>deadline. deadline \<le> now"]
      assms(2,3) t by simp_all
  have "validation_error_of (wn_cooling w) = None"
    using editor_ok_validates [OF shell_okD(1) [OF assms(1)]] by (simp add: validation_error_of_def)
  then have c: "target_commands w WriteCooling = [FeedApply (editor_program (wn_cooling w))]"
    using assms(5) by (simp add: target_commands_def)
  have f: "flush_writes now w = foldl (\<lambda>w t. flush_target now t w) (w\<lparr>wn_due := rest\<rparr>) ready" by (simp add: flush_writes_def r)
  show ?thesis unfolding f flush_targets [OF m(2)] using m(1) assms(4) c by force
qed


end
