(* ===== verification/Traversal.thy ===== *)
theory Traversal
  imports Screens
begin

text \<open>
  \<open>app/src/shell/screen/tab.rs\<close> and the stops the screens hand to their controls: which controls a window
  draws in which state, in the order it draws them, each with its stop of the keyboard traversal. The
  theorem is the claim of that file for every state of the window: the stops are strictly increasing in
  drawing order, whichever rows are open, whichever mode they are in, and however many channels there are.
\<close>

section \<open>The rail\<close>

definition PRIMARY :: "destination list" where
  "PRIMARY = [DestMonitoring, DestCooling, DestLighting]"

fun destination_label :: "destination \<Rightarrow> string" where
  "destination_label DestMonitoring = ''Monitoring''"
| "destination_label DestCooling = ''Cooling''"
| "destination_label DestLighting = ''Lighting''"
| "destination_label DestSettings = ''Settings''"

fun destination_tab :: "destination \<Rightarrow> int" where
  "destination_tab DestMonitoring = 1"
| "destination_tab DestCooling = 2"
| "destination_tab DestLighting = 3"
| "destination_tab DestSettings = 4"

definition rail_stops :: "int list" where
  "rail_stops = map destination_tab (PRIMARY @ [DestSettings])"

section \<open>The stops\<close>

definition SCREEN_TAB_BASE :: int where "SCREEN_TAB_BASE = 10"
definition MENU_TAB_BASE :: int where "MENU_TAB_BASE = 1000"

definition COOLING_TAB_MODE :: int where "COOLING_TAB_MODE = SCREEN_TAB_BASE"
definition COOLING_TAB_PROFILE :: int where "COOLING_TAB_PROFILE = COOLING_TAB_MODE + 1"
definition COOLING_TAB_ROW_BASE :: int where "COOLING_TAB_ROW_BASE = COOLING_TAB_PROFILE + 1"
definition COOLING_ROW_STRIDE :: int where "COOLING_ROW_STRIDE = 4"
definition COOLING_OFFSET_DUTY :: int where "COOLING_OFFSET_DUTY = 1"
definition COOLING_OFFSET_CURVE :: int where "COOLING_OFFSET_CURVE = 3"
definition COOLING_TAB_REVERT :: int where "COOLING_TAB_REVERT = COOLING_TAB_ROW_BASE + 2 * COOLING_ROW_STRIDE"
definition COOLING_TAB_SAVE :: int where "COOLING_TAB_SAVE = COOLING_TAB_REVERT + 1"
definition COOLING_TAB_DELETE :: int where "COOLING_TAB_DELETE = COOLING_TAB_SAVE + 1"

definition cooling_row_tab :: "channel \<Rightarrow> int" where
  "cooling_row_tab ch =
    COOLING_TAB_ROW_BASE + (case ch of Pump \<Rightarrow> 0 | Fan \<Rightarrow> 1) * COOLING_ROW_STRIDE"

definition LIGHTING_TAB_ROW_BASE :: int where "LIGHTING_TAB_ROW_BASE = SCREEN_TAB_BASE"
definition LIGHTING_ROW_STRIDE :: int where "LIGHTING_ROW_STRIDE = 10"
definition ROW_OFFSET_BRIGHTNESS :: int where "ROW_OFFSET_BRIGHTNESS = 1"
definition ROW_OFFSET_MODE :: int where "ROW_OFFSET_MODE = 2"
definition CHANNEL_OFFSET_COLOR :: int where "CHANNEL_OFFSET_COLOR = 3"
definition CHANNEL_OFFSET_SPEED :: int where "CHANNEL_OFFSET_SPEED = 4"
definition CHANNEL_OFFSET_DIRECTION :: int where "CHANNEL_OFFSET_DIRECTION = 5"
definition LCD_OFFSET_METRIC_ONE :: int where "LCD_OFFSET_METRIC_ONE = 3"
definition LCD_OFFSET_COLOR_BASE :: int where "LCD_OFFSET_COLOR_BASE = 5"
definition LCD_OFFSET_IMAGE :: int where
  "LCD_OFFSET_IMAGE = LCD_OFFSET_COLOR_BASE + int (length display_color_fields)"
definition LCD_OFFSET_RESUME :: int where "LCD_OFFSET_RESUME = LCD_OFFSET_IMAGE + 1"

definition lighting_row_tab :: "nat \<Rightarrow> int" where
  "lighting_row_tab i = LIGHTING_TAB_ROW_BASE + int i * LIGHTING_ROW_STRIDE"

definition lcd_row_tab :: "nat \<Rightarrow> int" where
  "lcd_row_tab channels = lighting_row_tab channels"

lemmas offset_defs = ROW_OFFSET_BRIGHTNESS_def ROW_OFFSET_MODE_def CHANNEL_OFFSET_COLOR_def
  CHANNEL_OFFSET_SPEED_def CHANNEL_OFFSET_DIRECTION_def LCD_OFFSET_METRIC_ONE_def LCD_OFFSET_COLOR_BASE_def
  LCD_OFFSET_IMAGE_def LCD_OFFSET_RESUME_def

lemmas cooling_stop_defs = COOLING_TAB_MODE_def COOLING_TAB_PROFILE_def COOLING_TAB_ROW_BASE_def
  COOLING_ROW_STRIDE_def COOLING_OFFSET_DUTY_def COOLING_OFFSET_CURVE_def COOLING_TAB_REVERT_def
  COOLING_TAB_SAVE_def COOLING_TAB_DELETE_def cooling_row_tab_def SCREEN_TAB_BASE_def

section \<open>What each screen draws\<close>

text \<open>A device row draws its head, its brightness and its mode, then the detail of an open one.\<close>

definition device_row_stops :: "int \<Rightarrow> int list \<Rightarrow> int list" where
  "device_row_stops base detail = [base, base + ROW_OFFSET_BRIGHTNESS, base + ROW_OFFSET_MODE] @ detail"

definition channel_detail_stops :: "int \<Rightarrow> channel_editor \<Rightarrow> int list" where
  "channel_detail_stops base e =
    (if uses_color (ce_mode e) then [base + CHANNEL_OFFSET_COLOR] else []) @
    (if uses_speed (ce_mode e) then [base + CHANNEL_OFFSET_SPEED] else []) @
    (if uses_direction (ce_mode e) then [base + CHANNEL_OFFSET_DIRECTION] else [])"

definition channel_row_stops :: "shell \<Rightarrow> u8 \<Rightarrow> nat \<Rightarrow> int list" where
  "channel_row_stops w ch i = (case editor_channel ch (wn_lighting w) of
      None \<Rightarrow> []
    | Some e \<Rightarrow> device_row_stops (lighting_row_tab i)
        (if is_open (RowChannel ch) w then channel_detail_stops (lighting_row_tab i) e else []))"

definition link_faulted :: "link_state \<Rightarrow> string option" where
  "link_faulted l = (case Option.bind (link_status l) (\<lambda>s. dst_faulted (dm_display s)) of
      Some reason \<Rightarrow> if control_state_for l KRAKEN_BASE LcdFrame = ControlEnabled then Some reason else None
    | None \<Rightarrow> None)"

definition panel_detail_stops :: "int \<Rightarrow> display_mode \<Rightarrow> bool \<Rightarrow> int list" where
  "panel_detail_stops base m faulted =
    (if uses_readings m then map (\<lambda>slot. base + LCD_OFFSET_METRIC_ONE + int slot) [0..<reading_slots m] else []) @
    map (\<lambda>f. base + LCD_OFFSET_COLOR_BASE + int (color_field_index f)) (filter (is_used_by m) display_color_fields) @
    (if uses_image m then [base + LCD_OFFSET_IMAGE] else []) @
    (if faulted then [base + LCD_OFFSET_RESUME] else [])"

definition panel_row_stops :: "shell \<Rightarrow> int \<Rightarrow> int list" where
  "panel_row_stops w base = device_row_stops base
    (if is_open RowLcd w
     then panel_detail_stops base (de_mode (sc_editor (wn_lcd w))) (link_faulted (wn_link w) \<noteq> None) else [])"

definition lighting_stops :: "shell \<Rightarrow> int list" where
  "lighting_stops w =
    (let chs = map lcs_channel (link_lighting_channels (wn_link w))
     in concat (map (\<lambda>(i, ch). channel_row_stops w ch i) (enumerate 0 chs)) @
        panel_row_stops w (lcd_row_tab (length chs)))"

definition cooling_detail_stops :: "shell \<Rightarrow> channel \<Rightarrow> int list" where
  "cooling_detail_stops w ch =
    (if ed_mode (wn_cooling w) = CoolFixed then [cooling_row_tab ch + COOLING_OFFSET_DUTY] else []) @
    [cooling_row_tab ch + COOLING_OFFSET_CURVE]"

definition cooling_row_stops :: "shell \<Rightarrow> channel \<Rightarrow> int list" where
  "cooling_row_stops w ch = cooling_row_tab ch #
    (if keyed_contains ch (rw_cooling (wn_rows w)) then cooling_detail_stops w ch else [])"

definition cooling_stops :: "shell \<Rightarrow> int list" where
  "cooling_stops w = [COOLING_TAB_MODE, COOLING_TAB_PROFILE] @ cooling_row_stops w Pump @ cooling_row_stops w Fan @
    [COOLING_TAB_REVERT, COOLING_TAB_SAVE, COOLING_TAB_DELETE]"

definition settings_stops :: "int list" where
  "settings_stops = [SCREEN_TAB_BASE]"

text \<open>Monitoring has readings only, no control.\<close>

definition window_stops :: "shell \<Rightarrow> int list" where
  "window_stops w = rail_stops @ (case wn_destination w of
      DestMonitoring \<Rightarrow> []
    | DestCooling \<Rightarrow> cooling_stops w
    | DestLighting \<Rightarrow> lighting_stops w
    | DestSettings \<Rightarrow> settings_stops)"

text \<open>The rows of the open menu: the options of a select, or the swatches of a color field.\<close>

definition menu_stops :: "nat \<Rightarrow> int list" where
  "menu_stops rows = map (\<lambda>i. MENU_TAB_BASE + int i) [0..<rows]"

section \<open>Blocks of stops\<close>

text \<open>A block is strictly increasing and lies in its range; blocks one after another are one.\<close>

definition block :: "int \<Rightarrow> int \<Rightarrow> int list \<Rightarrow> bool" where
  "block lo hi xs \<longleftrightarrow> sorted_wrt (<) xs \<and> (\<forall>x\<in>set xs. lo \<le> x \<and> x < hi)"

lemma block_append: "\<lbrakk>block a b xs; block b c ys; a \<le> b; b \<le> c\<rbrakk> \<Longrightarrow> block a c (xs @ ys)"
  unfolding block_def sorted_wrt_append by force

lemma block_empty [simp]: "block a b []"
  by (simp add: block_def)

lemma block_one [simp]: "block a b [x] \<longleftrightarrow> a \<le> x \<and> x < b"
  by (auto simp: block_def)

lemma block_wider: "\<lbrakk>block a b xs; a' \<le> a; b \<le> b'\<rbrakk> \<Longrightarrow> block a' b' xs"
  unfolding block_def by force

lemma block_shift: "block a b xs \<Longrightarrow> block (t + a) (t + b) (map ((+) t) xs)"
  unfolding block_def by (auto simp: sorted_wrt_map)

text \<open>Rows of one stride each.\<close>

lemma block_rows:
  assumes row: "\<And>i x. i < n + length xs \<Longrightarrow> block (a + int i * s) (a + (int i + 1) * s) (f i x)" and "0 \<le> s"
  shows "block (a + int n * s) (a + int (n + length xs) * s) (concat (map (\<lambda>(i, x). f i x) (enumerate n xs)))"
  using row
proof (induction xs arbitrary: n)
  case (Cons x xs)
  have "block (a + int (Suc n) * s) (a + int (Suc n + length xs) * s)
      (concat (map (\<lambda>(i, x). f i x) (enumerate (Suc n) xs)))"
    using Cons.prems by (intro Cons.IH) simp
  moreover have "block (a + int n * s) (a + int (Suc n) * s) (f n x)"
    using Cons.prems [of n x] by (simp add: algebra_simps)
  moreover have "a + int n * s \<le> a + int (Suc n) * s" "a + int (Suc n) * s \<le> a + int (Suc n + length xs) * s"
    using assms(2) by (simp_all add: mult_right_mono)
  ultimately show ?case
    using block_append by (fastforce simp: add.commute [of n])
qed simp

section \<open>Traversal order is drawing order\<close>

lemma rail_block: "block 1 5 rail_stops"
  by (simp add: rail_stops_def PRIMARY_def block_def)

lemma cooling_block: "block 10 23 (cooling_stops w)"
  by (auto simp: block_def cooling_stops_def cooling_row_stops_def cooling_detail_stops_def cooling_stop_defs)

lemma channel_row_block:
  "block (LIGHTING_TAB_ROW_BASE + int i * LIGHTING_ROW_STRIDE)
    (LIGHTING_TAB_ROW_BASE + (int i + 1) * LIGHTING_ROW_STRIDE) (channel_row_stops w ch i)"
  by (cases "editor_channel ch (wn_lighting w)")
    (simp_all add: block_def channel_row_stops_def device_row_stops_def channel_detail_stops_def offset_defs
      lighting_row_tab_def LIGHTING_TAB_ROW_BASE_def LIGHTING_ROW_STRIDE_def SCREEN_TAB_BASE_def)

lemma panel_detail_block: "block (base + 3) (base + 14) (panel_detail_stops base m faulted)"
  by (cases m) (simp_all add: block_def panel_detail_stops_def offset_defs uses_readings_def uses_image_def
      display_color_fields_def is_used_by_def color_field_slot_def is_fade_def gradates_band_def
      upt_rec [of _ "numeral _"] upt_rec [of _ 1])

lemma panel_block: "block base (base + 14) (panel_row_stops w base)"
proof -
  have "block base (base + 3) [base, base + ROW_OFFSET_BRIGHTNESS, base + ROW_OFFSET_MODE]"
    by (simp add: block_def offset_defs)
  then show ?thesis
    unfolding panel_row_stops_def device_row_stops_def
    by (rule block_append) (simp_all add: panel_detail_block)
qed

lemma lighting_block:
  "block 10 (24 + 10 * int (length (link_lighting_channels (wn_link w)))) (lighting_stops w)"
proof -
  let ?chs = "map lcs_channel (link_lighting_channels (wn_link w))"
  have "block (LIGHTING_TAB_ROW_BASE + int 0 * LIGHTING_ROW_STRIDE)
      (LIGHTING_TAB_ROW_BASE + int (0 + length ?chs) * LIGHTING_ROW_STRIDE)
      (concat (map (\<lambda>(i, ch). channel_row_stops w ch i) (enumerate 0 ?chs)))"
    by (rule block_rows) (rule channel_row_block, simp add: LIGHTING_ROW_STRIDE_def)
  then have "block 10 (10 + 10 * int (length ?chs))
      (concat (map (\<lambda>(i, ch). channel_row_stops w ch i) (enumerate 0 ?chs)))"
    by (simp add: LIGHTING_TAB_ROW_BASE_def LIGHTING_ROW_STRIDE_def SCREEN_TAB_BASE_def mult.commute)
  moreover have "block (10 + 10 * int (length ?chs)) (24 + 10 * int (length ?chs))
      (panel_row_stops w (lcd_row_tab (length ?chs)))"
    using panel_block [of "lcd_row_tab (length ?chs)" w]
    by (simp add: lcd_row_tab_def lighting_row_tab_def LIGHTING_TAB_ROW_BASE_def LIGHTING_ROW_STRIDE_def
        SCREEN_TAB_BASE_def algebra_simps)
  ultimately show ?thesis
    unfolding lighting_stops_def Let_def by (rule block_append [THEN block_wider]) simp_all
qed

text \<open>Whatever the state of the window, Tab visits the controls in the order they are drawn, the rail first.\<close>

theorem stops_in_drawing_order: "sorted_wrt (<) (window_stops w)"
proof -
  have "block 1 (24 + 10 * int (length (link_lighting_channels (wn_link w)))) (window_stops w)"
    unfolding window_stops_def
    by (rule block_append [OF rail_block])
      (auto split: destination.split intro: block_wider [OF cooling_block] block_wider [OF lighting_block]
        simp: settings_stops_def SCREEN_TAB_BASE_def)
  then show ?thesis by (simp add: block_def)
qed

text \<open>The reserved range of the menus is above every stop of a screen with up to 97 channels.\<close>

theorem menu_stops_clear:
  assumes "length (link_lighting_channels (wn_link w)) \<le> 97"
  shows "sorted_wrt (<) (window_stops w @ menu_stops rows)"
proof -
  have "block 5 1000 (case wn_destination w of DestMonitoring \<Rightarrow> [] | DestCooling \<Rightarrow> cooling_stops w
      | DestLighting \<Rightarrow> lighting_stops w | DestSettings \<Rightarrow> settings_stops)"
    using assms
    by (auto split: destination.split intro: block_wider [OF cooling_block] block_wider [OF lighting_block]
        simp: settings_stops_def SCREEN_TAB_BASE_def)
  then have "block 1 1000 (window_stops w)"
    unfolding window_stops_def by (rule block_append [OF rail_block]) simp_all
  moreover have "block 1000 (1000 + int rows) (menu_stops rows)"
    by (auto simp: block_def menu_stops_def MENU_TAB_BASE_def sorted_wrt_map)
  ultimately have "block 1 (1000 + int rows) (window_stops w @ menu_stops rows)"
    by (rule block_append) simp_all
  then show ?thesis by (simp add: block_def)
qed

end
