(* ===== verification/Screen_Words.thy ===== *)
theory Screen_Words
  imports Shell_Behaviour
begin

text \<open>
  What the screens say: the captions, readings, notes and lists of \<open>app/src/shell/screen\<close> and
  \<open>app/src/components\<close>, as the values handed to the widgets, and the choice of a display backend of
  \<open>app/src/startup.rs\<close>. The theorems show that choosing an offered option takes effect and is what the
  control then shows, when a select shows no option at all, that every select has an identity of its own,
  and that an outcome that is not a success is told on one screen and on one only.
\<close>

section \<open>Lists\<close>

text \<open>A \<open>SelectOption\<close> is its value and its label. \<open>display_value\<close> is \<open>Select::display_value\<close>.\<close>

definition display_value :: "(string \<times> string) list \<Rightarrow> string option \<Rightarrow> string" where
  "display_value options selected =
    (case Option.bind selected (\<lambda>value. find (\<lambda>offered. fst offered = value) options) of
       Some offered \<Rightarrow> snd offered
     | None \<Rightarrow> ''Not available'')"

definition select_label :: "select_id \<Rightarrow> string" where
  "select_label s = (case s of
      SelCoolingMode \<Rightarrow> ''Mode''
    | SelChannelMode _ \<Rightarrow> ''Mode''
    | SelProfile \<Rightarrow> ''Active profile''
    | SelChannelSpeed _ \<Rightarrow> ''Speed''
    | SelChannelDirection _ \<Rightarrow> ''Direction''
    | SelLcdMode \<Rightarrow> ''Display mode''
    | SelLcdMetric slot \<Rightarrow> ''Reading '' @ show_nat (slot + 1))"

definition shows_label :: "select_id \<Rightarrow> bool" where
  "shows_label s = (case s of SelChannelMode _ \<Rightarrow> False | SelLcdMode \<Rightarrow> False | _ \<Rightarrow> True)"

text \<open>The options each screen builds for a select.\<close>

definition effects_enabled :: "link_state \<Rightarrow> bool" where
  "effects_enabled l \<longleftrightarrow> control_state_for l RGB_CONTROLLER RgbEffects = ControlEnabled"

definition cooling_mode_options :: "(string \<times> string) list" where
  "cooling_mode_options = map (\<lambda>m. (cooling_mode_value m, cooling_mode_label m)) cooling_modes"

definition profile_options :: "link_state \<Rightarrow> (string \<times> string) list" where
  "profile_options l = map (\<lambda>p. (pf_name p, pf_name p)) (link_profiles l)"

definition channel_mode_options :: "link_state \<Rightarrow> (string \<times> string) list" where
  "channel_mode_options l =
    map (\<lambda>m. (lighting_mode_value m, lighting_mode_label m)) (lighting_modes (effects_enabled l))"

definition speed_options :: "(string \<times> string) list" where
  "speed_options = map (\<lambda>s. (speed_key s, speed_label s)) speed_all"

definition direction_options :: "(string \<times> string) list" where
  "direction_options = map (\<lambda>d. (direction_key d, direction_label d)) direction_all"

definition lcd_mode_options :: "(string \<times> string) list" where
  "lcd_mode_options = map (\<lambda>m. (mode_key m, mode_label m)) mode_all"

definition lcd_metric_options :: "(string \<times> string) list" where
  "lcd_metric_options = map (\<lambda>m. (metric_key m, metric_label m)) metric_all"

definition select_options :: "link_state \<Rightarrow> select_id \<Rightarrow> (string \<times> string) list" where
  "select_options l s = (case s of
      SelCoolingMode \<Rightarrow> cooling_mode_options
    | SelProfile \<Rightarrow> profile_options l
    | SelChannelMode _ \<Rightarrow> channel_mode_options l
    | SelChannelSpeed _ \<Rightarrow> speed_options
    | SelChannelDirection _ \<Rightarrow> direction_options
    | SelLcdMode \<Rightarrow> lcd_mode_options
    | SelLcdMetric _ \<Rightarrow> lcd_metric_options)"

text \<open>What the select is told is selected; a channel without a row has no select.\<close>

definition active_shown :: "link_state \<Rightarrow> string" where
  "active_shown l = (case link_active_profile l of Some name \<Rightarrow> name | None \<Rightarrow> SAFE_PROFILE_NAME)"

definition slot_metric :: "nat \<Rightarrow> display_editor \<Rightarrow> lcd_metric" where
  "slot_metric slot e = (if slot = 0 then fst (de_metrics e) else snd (de_metrics e))"

definition row_says :: "u8 \<Rightarrow> (channel_editor \<Rightarrow> string) \<Rightarrow> shell \<Rightarrow> string option" where
  "row_says ch f w = map_option f (editor_channel ch (wn_lighting w))"

definition select_selected :: "select_id \<Rightarrow> shell \<Rightarrow> string option" where
  "select_selected s w = (case s of
      SelCoolingMode \<Rightarrow> Some (cooling_mode_value (ed_mode (wn_cooling w)))
    | SelProfile \<Rightarrow> Some (active_shown (wn_link w))
    | SelChannelMode ch \<Rightarrow> row_says ch (\<lambda>e. lighting_mode_value (ce_mode e)) w
    | SelChannelSpeed ch \<Rightarrow> row_says ch (\<lambda>e. speed_key (ce_speed e)) w
    | SelChannelDirection ch \<Rightarrow> row_says ch (\<lambda>e. direction_key (ce_direction e)) w
    | SelLcdMode \<Rightarrow> Some (mode_key (de_mode (sc_editor (wn_lcd w))))
    | SelLcdMetric slot \<Rightarrow> Some (metric_key (slot_metric slot (sc_editor (wn_lcd w)))))"

definition select_shown :: "select_id \<Rightarrow> shell \<Rightarrow> string" where
  "select_shown s w = display_value (select_options (wn_link w) s) (select_selected s w)"

section \<open>Choosing an option takes effect\<close>

lemma edit_channel_get:
  assumes "\<And>e. ce_channel (f e) = ce_channel e"
  shows "editor_channel ch (edit_channel ch f es) = map_option f (editor_channel ch es)"
  unfolding editor_channel_def using assms by (induction es) auto

lemma display_value_map:
  assumes "distinct (map key all)" and "v \<in> set all"
  shows "display_value (map (\<lambda>x. (key x, label x)) all) (Some (key v)) = label v"
proof -
  have "find (\<lambda>x. key x = key v) all = Some v"
    by (rule find_distinct_key [OF assms])
  then have "find (\<lambda>offered. fst offered = key v) (map (\<lambda>x. (key x, label x)) all) = Some (key v, label v)"
    by (induction all) (auto split: if_splits)
  then show ?thesis by (simp add: display_value_def)
qed

lemma refresh_picture_editor [simp]: "sc_editor (wn_lcd (refresh_picture v w)) = sc_editor (wn_lcd w)"
  by (auto simp: refresh_picture_def sync_picture_def play_film_def next_film_generation_def Let_def
      split: prod.splits if_splits option.splits sum.splits)

lemma refresh_picture_rest [simp]:
  "wn_lighting (refresh_picture v w) = wn_lighting w"
  "wn_cooling (refresh_picture v w) = wn_cooling w"
  "wn_link (refresh_picture v w) = wn_link w"
  by (auto simp: refresh_picture_def play_film_def next_film_generation_def Let_def
      split: prod.splits if_splits option.splits)

lemma schedule_write_editors [simp]:
  "wn_lighting (schedule_write v now t w) = wn_lighting w"
  "wn_cooling (schedule_write v now t w) = wn_cooling w"
  "wn_link (schedule_write v now t w) = wn_link w"
  "sc_editor (wn_lcd (schedule_write v now t w)) = sc_editor (wn_lcd w)"
  by (auto simp: schedule_write_def Let_def)


lemma close_pop_editors [simp]:
  "wn_lighting (close_pop w) = wn_lighting w" "wn_cooling (close_pop w) = wn_cooling w"
  "wn_link (close_pop w) = wn_link w" "wn_lcd (close_pop w) = wn_lcd w"
  by (simp_all add: close_pop_def)

lemma edit_lcd_editor [simp]:
  "sc_editor (wn_lcd (edit_lcd f w)) = f (sc_editor (wn_lcd w))" "wn_link (edit_lcd f w) = wn_link w"
  by (auto simp: edit_lcd_def edit_display_def Let_def split: sum.split)

lemma on_select_link [simp]: "wn_link (on_select v now s value w) = wn_link w"
  by (auto simp: on_select_def choose_cooling_mode_def choose_profile_def choose_channel_mode_def
      choose_channel_speed_def choose_channel_direction_def choose_lcd_mode_def choose_lcd_metric_def
      choose_for_row_def edit_row_def feed_send_def split: select_id.split option.split)

lemma choose_for_row_says:
  assumes "row_says ch g w \<noteq> None" and "\<And>e. ce_channel (f x e) = ce_channel e" and "\<And>e. g (f x e) = value"
  shows "row_says ch g (choose_for_row v now ch (Some x) f w) = Some value"
  using assms by (auto simp: row_says_def choose_for_row_def edit_row_def edit_channel_get)

lemma slot_metric_set [simp]: "slot_metric slot (set_metric slot m e) = m"
  by (simp add: slot_metric_def set_metric_def)

lemmas option_list_defs = cooling_mode_options_def channel_mode_options_def speed_options_def direction_options_def
  lcd_mode_options_def lcd_metric_options_def

lemma choosing_selects:
  assumes "select_selected s w \<noteq> None" "s \<noteq> SelProfile" "offered \<in> set (select_options (wn_link w) s)"
  shows "select_selected s (select_option v now s (fst offered) w) = Some (fst offered)"
proof (cases s)
  case SelProfile
  with assms(2) show ?thesis by simp
next
  case SelCoolingMode
  with assms(3) show ?thesis
    by (auto simp: select_options_def option_list_defs select_selected_def select_option_def on_select_def
        choose_cooling_mode_def cooling_mode_round_trip [THEN iffD2, OF refl] editor_set_mode_def)
next
  case (SelChannelMode ch)
  with assms show ?thesis
    by (auto simp: select_options_def option_list_defs select_selected_def select_option_def on_select_def
        choose_channel_mode_def lmode.from_key_key row_says_def choose_for_row_def edit_row_def edit_channel_get)
next
  case (SelChannelSpeed ch)
  with assms show ?thesis
    by (auto simp: select_options_def option_list_defs select_selected_def select_option_def on_select_def
        choose_channel_speed_def speed.from_key_key row_says_def choose_for_row_def edit_row_def edit_channel_get)
next
  case (SelChannelDirection ch)
  with assms show ?thesis
    by (auto simp: select_options_def option_list_defs select_selected_def select_option_def on_select_def
        choose_channel_direction_def direction.from_key_key row_says_def choose_for_row_def edit_row_def
        edit_channel_get)
next
  case SelLcdMode
  with assms(3) show ?thesis
    by (auto simp: select_options_def option_list_defs select_selected_def select_option_def on_select_def
        choose_lcd_mode_def mode.from_key_key)
next
  case (SelLcdMetric slot)
  with assms(3) show ?thesis
    by (auto simp: select_options_def option_list_defs select_selected_def select_option_def on_select_def
        choose_lcd_metric_def metric.from_key_key)
qed

text \<open>The options of a list have distinct values, so the label of a value is the one it was offered under.\<close>

lemma lighting_modes_distinct: "distinct (map lighting_mode_value (lighting_modes available))"
  by (auto simp: lighting_modes_def effect_all_def lighting_mode_value_def)

lemma option_values_distinct: "s \<noteq> SelProfile \<Longrightarrow> distinct (map fst (select_options l s))"
  using mode.keys_distinct metric.keys_distinct speed.keys_distinct direction.keys_distinct
    lighting_modes_distinct [of "effects_enabled l"]
  by (cases s) (simp_all add: select_options_def option_list_defs o_def cooling_modes_def)

lemma display_value_offered:
  assumes "distinct (map fst options)" and "offered \<in> set options"
  shows "display_value options (Some (fst offered)) = snd offered"
  using find_distinct_key [OF assms] by (simp add: display_value_def)

text \<open>Choosing an option that a select offers makes it the selected one, and its label is what the select then
  shows. The profile select is different: it asks the daemon, and follows the daemon's answer.\<close>

theorem choosing_takes_effect:
  assumes "select_selected s w \<noteq> None" "s \<noteq> SelProfile" "offered \<in> set (select_options (wn_link w) s)"
  shows "select_selected s (select_option v now s (fst offered) w) = Some (fst offered) \<and>
    select_shown s (select_option v now s (fst offered) w) = snd offered"
proof
  show chosen: "select_selected s (select_option v now s (fst offered) w) = Some (fst offered)"
    by (rule choosing_selects [OF assms])
  show "select_shown s (select_option v now s (fst offered) w) = snd offered"
    using display_value_offered [OF option_values_distinct [OF assms(2)] assms(3)]
    by (simp add: select_shown_def chosen) (simp add: select_option_def)
qed

text \<open>No option is shown in two cases only. A channel in an effect shows none while the controller refuses
  effects, since they are not offered then; the profile select shows none when the active profile is not in
  the list.\<close>

lemma find_map_key: "find (\<lambda>offered. fst offered = k) (map (\<lambda>x. (f x, g x)) xs) =
    map_option (\<lambda>x. (f x, g x)) (find (\<lambda>x. f x = k) xs)"
  by (induction xs) simp_all

lemma mode_offered:
  "LmEffect f \<in> set (lighting_modes available) \<longleftrightarrow> available"
  "LmOff \<in> set (lighting_modes available)" "LmFixed \<in> set (lighting_modes available)"
  using effect.all_complete by (auto simp: lighting_modes_def)

lemma channel_mode_offered:
  "lighting_mode_value m \<in> fst ` set (channel_mode_options l) \<longleftrightarrow> m \<in> set (lighting_modes (effects_enabled l))"
proof -
  have "inj lighting_mode_value" by (rule injI) (rule lmode.key_inj)
  then have "lighting_mode_value m \<in> lighting_mode_value ` set (lighting_modes (effects_enabled l)) \<longleftrightarrow>
      m \<in> set (lighting_modes (effects_enabled l))"
    by (rule inj_image_mem_iff)
  then show ?thesis by (simp add: channel_mode_options_def image_image)
qed

lemma display_value_missing: "v \<notin> fst ` set options \<Longrightarrow> display_value options (Some v) = ''Not available''"
  by (force simp: display_value_def find_Some_iff split: option.split)

theorem effect_without_option:
  assumes "editor_channel ch (wn_lighting w) = Some e"
  shows "select_shown (SelChannelMode ch) w =
    (case ce_mode e of
       LmEffect f \<Rightarrow> if effects_enabled (wn_link w) then effect_label f else ''Not available''
     | m \<Rightarrow> lighting_mode_label m)"
proof -
  have sel: "select_selected (SelChannelMode ch) w = Some (lighting_mode_value (ce_mode e))"
    using assms by (simp add: select_selected_def row_says_def)
  let ?m = "ce_mode e" and ?o = "channel_mode_options (wn_link w)"
  show ?thesis
  proof (cases "?m \<in> set (lighting_modes (effects_enabled (wn_link w)))")
    case True
    then have "display_value ?o (Some (lighting_mode_value ?m)) = lighting_mode_label ?m"
      unfolding channel_mode_options_def by (rule display_value_map [OF lighting_modes_distinct])
    with True show ?thesis
      by (auto simp: select_shown_def select_options_def sel mode_offered lighting_mode_label_def
          split: lighting_mode.split)
  next
    case False
    then have "display_value ?o (Some (lighting_mode_value ?m)) = ''Not available''"
      by (intro display_value_missing) (simp add: channel_mode_offered)
    with False show ?thesis
      by (auto simp: select_shown_def select_options_def sel mode_offered
          split: lighting_mode.split)
  qed
qed

section \<open>Identities\<close>

lemma show_nat_inj: "show_nat m = show_nat n \<longleftrightarrow> m = n"
proof
  assume same: "show_nat m = show_nat n"
  have "Some m = parse_unsigned 10 (max m n) (show_nat m)"
    by (rule parse_show_nat [symmetric]) simp
  also have "\<dots> = Some n"
    unfolding same by (rule parse_show_nat) simp
  finally show "m = n" by simp
qed simp

lemma show_u8_inj: "show_u8 a = show_u8 b \<longleftrightarrow> a = b"
  by (simp add: show_u8_def show_nat_inj word_unat_eq_iff)

text \<open>Which popover is open is decided by the identity of the select: no two selects share one.\<close>

theorem select_key_inj: "select_key s = select_key t \<longleftrightarrow> s = t"
  by (cases s; cases t) (simp_all add: select_key_def show_nat_inj show_u8_inj)

definition picker_id :: "color_picker \<Rightarrow> string" where
  "picker_id p = (case p of
      PickPanel f \<Rightarrow> ''lcd-color-'' @ color_field_key f
    | PickChannel ch \<Rightarrow> ''lighting-color-'' @ show_u8 ch)"

definition picker_label :: "color_picker \<Rightarrow> string" where
  "picker_label p = (case p of PickPanel f \<Rightarrow> color_field_label f | PickChannel _ \<Rightarrow> ''Color'')"

definition picker_text :: "shell \<Rightarrow> color_picker \<Rightarrow> string" where
  "picker_text w p = (case p of
      PickPanel f \<Rightarrow> color_text (sc_editor (wn_lcd w)) f
    | PickChannel ch \<Rightarrow> (case editor_channel ch (wn_lighting w) of Some e \<Rightarrow> ce_color e | None \<Rightarrow> []))"

definition row_key :: "lighting_row \<Rightarrow> string" where
  "row_key r = (case r of RowChannel ch \<Rightarrow> ''channel-'' @ show_u8 ch | RowLcd \<Rightarrow> ''lcd'')"

lemma picker_id_inj: "picker_id p = picker_id q \<longleftrightarrow> p = q"
proof -
  have "color_field_key f = color_field_key g \<longleftrightarrow> f = g" for f g
    by (cases f; cases g) simp_all
  then show ?thesis by (cases p; cases q) (simp_all add: picker_id_def show_u8_inj)
qed

lemma row_key_inj: "row_key r = row_key s \<longleftrightarrow> r = s"
  by (cases r; cases s) (simp_all add: row_key_def show_u8_inj)

section \<open>Colors\<close>

text \<open>\<open>parse_hex_color\<close> of \<open>components/control.rs\<close>: the color packed, or the problem. Its length is in bytes.\<close>

definition parse_hex_color :: "string \<Rightarrow> string + u32" where
  "parse_hex_color value =
    (let trimmed = dropWhile (\<lambda>c. c = CHR ''#'') (trim value) in
     if length trimmed \<noteq> 6
     then Inl (''Enter six hexadecimal digits, for example 7C5CFF. Got '' @ show_nat (length trimmed) @
       '' character'' @ (if length trimmed = 1 then [] else ''s'') @ ''.'')
     else (case parse_unsigned 16 (2 ^ 32 - 1) trimmed of
        Some packed \<Rightarrow> Inr (word_of_nat packed)
      | None \<Rightarrow> Inl ''Only the digits 0-9 and letters A-F are accepted.''))"

definition packed_byte :: "nat \<Rightarrow> u32 \<Rightarrow> u8" where
  "packed_byte i c = ucast (drop_bit (8 * i) c)"

text \<open>The field and the program read the same text alike: it names a color for both or for neither, and
  the color the thumbnail shows is the one that is sent.\<close>

theorem shown_color_is_sent:
  "(case parse_hex_color value of
      Inr c \<Rightarrow> parse_hex value = Inr (Rgb (packed_byte 2 c) (packed_byte 1 c) (packed_byte 0 c))
    | Inl _ \<Rightarrow> (case parse_hex value of Inl _ \<Rightarrow> True | Inr _ \<Rightarrow> False))"
proof -
  have byte: "packed_byte i (word_of_nat n) = word_of_nat (n div 2 ^ (8 * i) mod 256)"
    if "i \<le> 2" for i n
  proof (rule bit_word_eqI)
    fix k assume "k < LENGTH(8)"
    moreover have "n div 2 ^ (8 * i) mod 256 = take_bit 8 (drop_bit (8 * i) n)"
      by (simp add: take_bit_eq_mod drop_bit_eq_div)
    ultimately show "bit (packed_byte i (word_of_nat n)) k =
        bit (word_of_nat (n div 2 ^ (8 * i) mod 256) :: u8) k"
      using that by (simp add: packed_byte_def bit_simps)
  qed
  show ?thesis
    using byte [of 0] byte [of 1] byte [of 2]
    by (auto simp: parse_hex_color_def parse_hex_def Let_def HEX_COLOR_DIGITS_def split: option.split)
qed

section \<open>Notes\<close>

datatype note_level = NoteInfo | NoteWarning | NoteCritical

definition note_label :: "note_level \<Rightarrow> string" where
  "note_label n = (case n of NoteInfo \<Rightarrow> ''Note'' | NoteWarning \<Rightarrow> ''Warning'' | NoteCritical \<Rightarrow> ''Critical'')"

definition outcome_note :: "(command_subject \<Rightarrow> bool) \<Rightarrow> shell \<Rightarrow> (note_level \<times> string) option" where
  "outcome_note belongs_here w = (case wn_outcome w of
      None \<Rightarrow> None
    | Some o1 \<Rightarrow>
        if \<not> belongs_here (co_subject o1) then None
        else (case co_severity o1 of
            OutcomeConfirmed \<Rightarrow> None
          | OutcomeUnconfirmed \<Rightarrow> Some (NoteCritical, outcome_sentence o1)
          | OutcomeRefused \<Rightarrow> Some (NoteWarning, outcome_sentence o1)))"

text \<open>The Cooling screen tells the outcomes of cooling and profile commands, the Lighting screen those of the
  channels and the panel.\<close>

definition cooling_note :: "shell \<Rightarrow> (note_level \<times> string) option" where
  "cooling_note w = outcome_note subject_is_cooling w"

definition lighting_note :: "shell \<Rightarrow> (note_level \<times> string) option" where
  "lighting_note w = outcome_note subject_is_appearance w"

text \<open>An outcome the hardware did not confirm is told on exactly one screen, in its own sentence; a confirmed
  one on none.\<close>

theorem failure_told_once:
  "(case wn_outcome w of
      None \<Rightarrow> cooling_note w = None \<and> lighting_note w = None
    | Some o1 \<Rightarrow>
        if co_severity o1 = OutcomeConfirmed then cooling_note w = None \<and> lighting_note w = None
        else (cooling_note w = None) \<noteq> (lighting_note w = None) \<and>
          outcome_sentence o1 \<in> snd ` (set_option (cooling_note w) \<union> set_option (lighting_note w)))"
  by (auto simp: cooling_note_def lighting_note_def outcome_note_def subject_is_cooling_def
      subject_is_appearance_def split: option.split command_subject.split outcome_severity.split)

section \<open>Monitoring\<close>

definition degraded_devices :: "device_summary list \<Rightarrow> device_summary list" where
  "degraded_devices rows = filter (\<lambda>d. sum_health d \<noteq> HealthReady) rows"

datatype strip_line = StripEmpty string | StripDevice string string device_health string

definition strip_device :: "device_summary \<Rightarrow> strip_line" where
  "strip_device d = StripDevice (sum_name d) (device_id_display (sum_id d)) (sum_health d) (summary_detail d)"

definition NO_DEVICE :: string where "NO_DEVICE = ''No supported NZXT device detected.''"

definition device_strip :: "link_state \<Rightarrow> strip_line list option" where
  "device_strip l =
    (let rows = device_rows l
     in if rows = [] then Some [StripEmpty NO_DEVICE]
        else let degraded = degraded_devices rows
          in if degraded = [] then None else Some (map strip_device degraded))"

text \<open>Nothing is drawn exactly when a device answers and every one is ready.\<close>

theorem strip_silent_iff_ready:
  "device_strip l = None \<longleftrightarrow> device_rows l \<noteq> [] \<and> set (map sum_health (device_rows l)) \<subseteq> {HealthReady}"
  by (auto simp: device_strip_def Let_def degraded_devices_def filter_empty_conv)

definition gpu_source :: "link_state \<Rightarrow> string" where
  "gpu_source l = (case link_telemetry l of Some t \<Rightarrow> gt_source (ts_gpu t) | None \<Rightarrow> ''no interface'')"

definition collector_note :: "link_state \<Rightarrow> collector \<Rightarrow> string \<Rightarrow> string" where
  "collector_note l c usual = (case collector_failure_of l c of Some f \<Rightarrow> cf_detail f | None \<Rightarrow> usual)"

definition gpu_subtitle :: "shell \<Rightarrow> string" where
  "gpu_subtitle w =
    (case view_value (tracked_view (mb_gpu_name (wn_metrics w)) (wn_now_unix_ms w)) of
       Some name \<Rightarrow> name @ '', read through '' @ gpu_source (wn_link w)
     | None \<Rightarrow> (case collector_failure_of (wn_link w) Gpu of
         Some f \<Rightarrow> cf_detail f
       | None \<Rightarrow> ''No GPU management interface answered on this machine.''))"

section \<open>Settings\<close>

definition service_rows :: "shell \<Rightarrow> (string \<times> string) list" where
  "service_rows w =
    (let (socket, version, config) = (case link_status (wn_link w) of
           Some s \<Rightarrow> (dm_socket_path s, dm_daemon_version s,
             case recovery_message (dm_config s) of Some message \<Rightarrow> message | None \<Rightarrow> ''Loaded'')
         | None \<Rightarrow> (''not connected'', ''unknown'', ''not available''));
         sampling = (case link_telemetry (wn_link w) of
           Some t \<Rightarrow> ''Every '' @ show_nat (unat (ts_interval_ms t)) @ '' ms, '' @
             show_nat (unat (oldest_section_age_ms t (wn_now_unix_ms w))) @ '' ms since the last complete pass''
         | None \<Rightarrow> ''no telemetry'')
     in [(''Socket'', socket), (''Daemon version'', version), (''Configuration'', config), (''Sampling'', sampling),
         (''Network'', ''No network request, no listening TCP or UDP socket.'')] @
       map (\<lambda>f. (collector_label (cf_collector f) @ '' collector'', cf_detail f)) (failed_collectors (wn_link w)))"

definition device_settings :: "link_state \<Rightarrow> (string \<times> string) list" where
  "device_settings l =
    (let rows = device_rows l
     in if rows = [] then [(''Devices'', NO_DEVICE)]
        else map (\<lambda>d. (sum_name d, health_label (sum_health d) @ '' '' @ META_SEPARATOR @ '' '' @
          device_id_display (sum_id d) @ '' '' @ META_SEPARATOR @ '' '' @ summary_detail d)) rows)"

section \<open>Rows\<close>

definition channel_headline :: "lighting_channel_state \<Rightarrow> string" where
  "channel_headline s = (case lcs_accessories s of
      [] \<Rightarrow> ''Channel '' @ show_u8 (lcs_channel s)
    | [a] \<Rightarrow> a
    | accessories \<Rightarrow> show_nat (length accessories) @ '' accessories'')"

definition channel_reported :: "link_state \<Rightarrow> u8 \<Rightarrow> lighting_channel_state option" where
  "channel_reported l ch = find (\<lambda>s. lcs_channel s = ch) (link_lighting_channels l)"

text \<open>The title of a channel row and the fragment after it.\<close>

definition channel_title :: "link_state \<Rightarrow> u8 \<Rightarrow> string \<times> string option" where
  "channel_title l ch =
    (case Option.bind (channel_reported l ch) (\<lambda>s. if lcs_accessories s \<noteq> [] then Some s else None) of
       Some s \<Rightarrow> (channel_headline s, Some (''Channel '' @ show_u8 ch))
     | None \<Rightarrow> (''Channel '' @ show_u8 ch, None))"

definition channel_sent :: "link_state \<Rightarrow> u8 \<Rightarrow> string" where
  "channel_sent l ch = (case Option.bind (channel_reported l ch) lcs_committed of
      Some p \<Rightarrow> ''Last sent: '' @ lighting_summary p
    | None \<Rightarrow> ''Nothing sent to this channel yet'')"

definition panel_subtitle :: "link_state \<Rightarrow> string" where
  "panel_subtitle l = (case link_display_committed l of
      Some p \<Rightarrow> mode_label (dp_mode p) @ '' at '' @ orientation_label (dp_orientation p) @ '', '' @
        show_u8 (percent (dp_brightness p)) @ ''%''
    | None \<Rightarrow> (case Option.bind (link_status l) (\<lambda>s. dst_panel (dm_display s)) of
        Some p \<Rightarrow> show_nat (unat (lp_width p)) @ ''x'' @ show_nat (unat (lp_height p)) @ '' panel, nothing sent yet''
      | None \<Rightarrow> ''no panel has answered''))"

definition panel_name :: "link_state \<Rightarrow> string" where
  "panel_name l = (case find (\<lambda>d. sum_id d = KRAKEN_BASE) (device_rows l) of
      Some d \<Rightarrow> sum_name d | None \<Rightarrow> ''Kraken'')"

text \<open>Every row names its channel, in the title or after it.\<close>

theorem channel_title_names_channel:
  "(case channel_title l ch of
      (title, Some q) \<Rightarrow> q = ''Channel '' @ show_u8 ch
    | (title, None) \<Rightarrow> title = ''Channel '' @ show_u8 ch)"
  by (auto simp: channel_title_def split: option.split)

section \<open>The display backend\<close>

datatype backend = Wayland | X11

definition backend_name :: "backend \<Rightarrow> string" where
  "backend_name b = (case b of Wayland \<Rightarrow> ''Wayland'' | X11 \<Rightarrow> ''X11'')"

record backend_unavailable =
  bu_attempted :: string
  bu_next_action :: string

definition backend_unavailable_display :: "backend_unavailable \<Rightarrow> string" where
  "backend_unavailable_display e = bu_attempted e @ '' unavailable. '' @ bu_next_action e"

definition detect_backend :: "string option \<Rightarrow> string option \<Rightarrow> backend_unavailable + backend" where
  "detect_backend wayland_display x11_display =
    (let wayland = Option.bind wayland_display (\<lambda>v. if v \<noteq> [] then Some v else None);
         x11 = Option.bind x11_display (\<lambda>v. if v \<noteq> [] then Some v else None)
     in case (wayland, x11) of
          (Some _, _) \<Rightarrow> Inr Wayland
        | (None, Some _) \<Rightarrow> Inr X11
        | (None, None) \<Rightarrow> Inl \<lparr>bu_attempted = ''Wayland and X11'',
            bu_next_action = ''Neither WAYLAND_DISPLAY nor DISPLAY is set. Run this from a graphical '' @
              ''session, or set DISPLAY to a reachable X server.''\<rparr>)"

definition env_is_enabled :: "string option \<Rightarrow> bool" where
  "env_is_enabled value = (case value of
      Some v \<Rightarrow> trim v \<in> {''1'', ''true'', ''yes'', ''on''}
    | None \<Rightarrow> False)"

theorem backend_iff_display:
  "(case detect_backend wayland x11 of Inr _ \<Rightarrow> True | Inl _ \<Rightarrow> False) \<longleftrightarrow>
    wayland \<notin> {None, Some []} \<or> x11 \<notin> {None, Some []}"
  by (cases wayland; cases x11) (auto simp: detect_backend_def Let_def)

end
