(* ===== verification/Rgb_Probe.thy ===== *)
theory Rgb_Probe
  imports Lighting_Executor
begin

text \<open>
  \<open>crates/daemon/src/probe.rs\<close> and \<open>rgb_probe.rs\<close>: the person at the terminal, and the write probe of the
  lighting controller, the one command that sends what the product has never proven on a firmware. What
  the person types is the environment's choice; every question with its answer, every message, every
  report and every pause is an event, so their order can be read off the world.
\<close>

section \<open>The operator\<close>

definition CONFIRMATION_PHRASE :: string where "CONFIRMATION_PHRASE = ''PROBE''"

definition terminal_ask :: "terminal_env \<Rightarrow> string \<Rightarrow> world \<Rightarrow> string \<times> world" where
  "terminal_ask te question w =
    (let answer = (case te_line te (w_trace w) question of None \<Rightarrow> [] | Some line \<Rightarrow> trim line)
     in (answer, push_event (Asked question answer) w))"

definition AUTHORIZE :: string where
  "AUTHORIZE = ''Type '' @ CONFIRMATION_PHRASE @ '' to authorize, anything else to abort:''"

definition authorized :: "terminal_env \<Rightarrow> world \<Rightarrow> bool \<times> world" where
  "authorized te w = (let (answer, w) = terminal_ask te AUTHORIZE w in (answer = CONFIRMATION_PHRASE, w))"

section \<open>What a run may send\<close>

definition PROBE_COLOR :: rgb where "PROBE_COLOR = Rgb 0xff 0xff 0xff"
definition PROBE_LEVEL :: brightness where "PROBE_LEVEL = Brightness PROBE_BRIGHTNESS"
definition CADENCE_STEPS_MS :: "u64 list" where "CADENCE_STEPS_MS = [200, 100, 50, 25, 10]"
definition CADENCE_COMMANDS :: nat where "CADENCE_COMMANDS = 5"

definition probe_program :: "rgb \<Rightarrow> lighting_program" where
  "probe_program color = LightFixed color
    (case brightness_new PROBE_BRIGHTNESS of Inl _ \<Rightarrow> BRIGHTNESS_OFF | Inr b \<Rightarrow> b)"

definition breathing_program :: lighting_program where
  "breathing_program = LightEffect Breathing [PROBE_COLOR] PROBE_LEVEL Normal Forward"

definition spectrum_wave_program :: lighting_program where
  "spectrum_wave_program = LightEffect SpectrumWave [] PROBE_LEVEL Normal Forward"

datatype probe_scope = FixedAndOff | WithEffects | EffectSweep

definition scope_channels :: "probe_scope \<Rightarrow> rgb_channel list \<Rightarrow> rgb_channel list" where
  "scope_channels s reported = (case s of EffectSweep \<Rightarrow> take 1 reported | _ \<Rightarrow> reported)"

fun scope_key :: "probe_scope \<Rightarrow> string" where
  "scope_key FixedAndOff = ''fixed_and_off''"
| "scope_key WithEffects = ''with_effects''"
| "scope_key EffectSweep = ''effect_sweep''"

definition sweep_directions :: "lighting_effect \<Rightarrow> effect_direction list" where
  "sweep_directions e = (if accepts_direction e then direction_all else [Forward])"

definition sweep :: "lighting_program list" where
  "sweep = concat (map (\<lambda>e. concat (map (\<lambda>d. map (\<lambda>s.
      LightEffect e (replicate (fst (color_range e)) PROBE_COLOR) PROBE_LEVEL s d) speed_all)
      (sweep_directions e))) effect_all) @ [LightOff]"

definition scope_programs :: "probe_scope \<Rightarrow> lighting_program list" where
  "scope_programs s =
    (if s = EffectSweep then sweep
     else [probe_program PROBE_COLOR, LightOff] @
       (if s = WithEffects then [breathing_program, spectrum_wave_program, LightOff] else []))"

definition scope_description :: "probe_scope \<Rightarrow> string" where
  "scope_description s = (let level = show_u8 PROBE_BRIGHTNESS in case s of
      FixedAndOff \<Rightarrow> ''Each channel is tested one at a time with a '' @ level @
        ''% white, then off. Nothing else is sent.''
    | WithEffects \<Rightarrow> ''Each channel is tested one at a time with a '' @ level @
        ''% white, then off, then Breathing and Spectrum Wave at '' @ level @
        ''%, then off again. Nothing else is sent.''
    | EffectSweep \<Rightarrow> ''The first channel only, at '' @ level @ ''%: Breathing at each of the '' @
        show_nat (length speed_all) @ '' speeds, then Spectrum Wave at each speed forward, then each '' @
        ''speed backward, then off. '' @ show_nat (length (scope_programs EffectSweep)) @
        '' programs, one at a time. Nothing else is sent.'')"

section \<open>The record\<close>

record rgb_step =
  rgs_channel :: u8
  rgs_program :: string
  rgs_report_hex :: string
  rgs_response_hex :: "string option"
  rgs_write_micros :: u64
  rgs_error :: "string option"
  rgs_observed :: string

record cadence_observation =
  cad_tried_ms :: "u64 list"
  cad_stable_interval_ms :: "u64 option"
  cad_first_failure_ms :: "u64 option"
  cad_detail :: string

text \<open>The program restored to, and what the operator saw or why nothing was confirmed.\<close>

datatype rgb_restoration = RgbConfirmed string string | RgbUnconfirmed string string | RgbNotNeeded

record rgb_probe_report =
  rpr_scope :: string
  rpr_device :: string
  rpr_node :: string
  rpr_firmware :: "string evidenced"
  rpr_channels :: "rgb_channel list"
  rpr_prior_state :: string
  rpr_steps :: "rgb_step list"
  rpr_cadence :: cadence_observation
  rpr_restoration :: rgb_restoration

definition rgb_every_step_landed :: "rgb_probe_report \<Rightarrow> bool" where
  "rgb_every_step_landed r = (rpr_steps r \<noteq> [] \<and> list_all (\<lambda>s. rgs_error s = None) (rpr_steps r))"

datatype rgb_refusal = NoTopology string | RgbNotAuthorized

definition rgb_refusal_display :: "rgb_refusal \<Rightarrow> string" where
  "rgb_refusal_display e = (case e of
      NoTopology reason \<Rightarrow> ''the controller did not answer its topology: '' @ reason
    | RgbNotAuthorized \<Rightarrow> ''the write probe was not authorized. Re-run it and type '' @ CONFIRMATION_PHRASE @
        '' when asked.'')"

definition bytes_hex :: "u8 list \<Rightarrow> string" where
  "bytes_hex bs = concat (map (\<lambda>b. [digit_char (unat b div 16), digit_char (unat b mod 16)]) bs)"

section \<open>Sending\<close>

definition send_probe :: "clock_env \<Rightarrow> hid_env \<Rightarrow> u8 \<Rightarrow> lighting_program \<Rightarrow> world \<Rightarrow> rgb_step \<times> world" where
  "send_probe clock h channel p w = (case rgb_encode channel p of
      Inl e \<Rightarrow>
        (\<lparr>rgs_channel = channel, rgs_program = lighting_summary p, rgs_report_hex = [], rgs_response_hex = None,
          rgs_write_micros = 0, rgs_error = Some (rgb_error_display e @ '', so nothing was sent''),
          rgs_observed = []\<rparr>, w)
    | Inr report \<Rightarrow>
        (let (started, w) = instant_now clock w; (r, w) = write_report h report w;
             (now, w) = instant_now clock w; (answer, w) = read_report h (from_millis 50) w
         in (\<lparr>rgs_channel = channel, rgs_program = lighting_summary p, rgs_report_hex = bytes_hex report,
               rgs_response_hex = (case answer of Inr (Some a) \<Rightarrow> Some (bytes_hex a) | _ \<Rightarrow> None),
               rgs_write_micros = word_of_nat (duration_since now started div 1000),
               rgs_error = (case r of Inl e \<Rightarrow> Some (hid_error_display e) | Inr _ \<Rightarrow> None),
               rgs_observed = []\<rparr>, w)))"

text \<open>The loop over the programs of one channel, and the loop over the channels.\<close>

definition step_question :: "u8 \<Rightarrow> lighting_program \<Rightarrow> string" where
  "step_question channel p =
    ''Channel '' @ show_u8 channel @ '' was sent '' @ lighting_summary p @ ''. What did it show?''"

definition probe_step :: "terminal_env \<Rightarrow> clock_env \<Rightarrow> hid_env \<Rightarrow> u8 \<Rightarrow> lighting_program \<Rightarrow> world \<Rightarrow>
    rgb_step \<times> world" where
  "probe_step te clock h channel p w =
    (let (s, w) = send_probe clock h channel p w;
         (seen, w) = terminal_ask te (step_question channel p) w
     in (s\<lparr>rgs_observed := seen\<rparr>, sleep minimum_command_interval w))"

fun probe_steps :: "terminal_env \<Rightarrow> clock_env \<Rightarrow> hid_env \<Rightarrow> (u8 \<times> lighting_program) list \<Rightarrow> world \<Rightarrow>
    rgb_step list \<times> world" where
  "probe_steps te clock h [] w = ([], w)"
| "probe_steps te clock h ((channel, p) # plan) w =
    (let (s, w) = probe_step te clock h channel p w; (ss, w) = probe_steps te clock h plan w in (s # ss, w))"

definition probe_plan :: "probe_scope \<Rightarrow> rgb_channel list \<Rightarrow> (u8 \<times> lighting_program) list" where
  "probe_plan s addressed = concat (map (\<lambda>c. map (\<lambda>p. (ch_index c, p)) (scope_programs s)) addressed)"

section \<open>The cadence\<close>

text \<open>Dim white and off, in turns.\<close>

definition cadence_program :: "nat \<Rightarrow> lighting_program" where
  "cadence_program i = (if i mod 2 = 0 then probe_program PROBE_COLOR else LightOff)"

text \<open>One burst: whether a command of it failed.\<close>

fun cadence_burst :: "clock_env \<Rightarrow> hid_env \<Rightarrow> u8 \<Rightarrow> u64 \<Rightarrow> nat list \<Rightarrow> world \<Rightarrow> bool \<times> world" where
  "cadence_burst clock h channel ms [] w = (False, w)"
| "cadence_burst clock h channel ms (i # is) w =
    (let (s, w) = send_probe clock h channel (cadence_program i) w
     in if rgs_error s \<noteq> None then (True, w)
        else cadence_burst clock h channel ms is (sleep (from_millis (unat ms)) w))"

fun cadence_steps :: "clock_env \<Rightarrow> hid_env \<Rightarrow> u8 \<Rightarrow> u64 list \<Rightarrow> u64 list \<Rightarrow> u64 option \<Rightarrow> world \<Rightarrow>
    (u64 list \<times> u64 option \<times> u64 option) \<times> world" where
  "cadence_steps clock h channel [] tried held w = ((tried, held, None), w)"
| "cadence_steps clock h channel (ms # rest) tried held w =
    (let (failed, w) = cadence_burst clock h channel ms [0..<CADENCE_COMMANDS] w
     in if failed then ((tried @ [ms], held, Some ms), w)
        else cadence_steps clock h channel rest (tried @ [ms]) (Some ms) w)"

definition cadence_text :: "u64 option \<Rightarrow> u64 option \<Rightarrow> string" where
  "cadence_text held failure = (case (held, failure) of
      (Some s, Some f) \<Rightarrow> show_nat CADENCE_COMMANDS @ '' commands landed at '' @ show_u64 s @
        '' ms; the first failure appeared at '' @ show_u64 f @ '' ms.''
    | (Some s, None) \<Rightarrow> show_nat CADENCE_COMMANDS @ '' commands landed at every interval down to '' @ show_u64 s @
        '' ms without an error.''
    | (None, Some f) \<Rightarrow> ''The controller refused a command at the slowest interval tried, '' @ show_u64 f @ '' ms.''
    | (None, None) \<Rightarrow> ''No cadence step completed.'')"

definition measure_cadence :: "clock_env \<Rightarrow> hid_env \<Rightarrow> u8 \<Rightarrow> world \<Rightarrow> cadence_observation \<times> world" where
  "measure_cadence clock h channel w =
    (let ((tried, held, failure), w) = cadence_steps clock h channel CADENCE_STEPS_MS [] None w
     in (\<lparr>cad_tried_ms = tried, cad_stable_interval_ms = held, cad_first_failure_ms = failure,
          cad_detail = cadence_text held failure\<rparr>, w))"

section \<open>The restoration\<close>

fun restore_channels :: "clock_env \<Rightarrow> hid_env \<Rightarrow> u8 list \<Rightarrow> lighting_program \<Rightarrow> world \<Rightarrow> string list \<times> world" where
  "restore_channels clock h [] p w = ([], w)"
| "restore_channels clock h (channel # cs) p w =
    (let (s, w) = send_probe clock h channel p w; w = sleep minimum_command_interval w;
         (failures, w) = restore_channels clock h cs p w
     in ((case rgs_error s of Some e \<Rightarrow> [''channel '' @ show_u8 channel @ '': '' @ e] | None \<Rightarrow> []) @ failures, w))"

definition restore_question :: "lighting_program \<Rightarrow> string" where
  "restore_question p = ''Every channel was set to '' @ lighting_summary p @
    ''. Does the lighting look right? Describe what you see:''"

definition rgb_restore :: "terminal_env \<Rightarrow> clock_env \<Rightarrow> hid_env \<Rightarrow> rgb_channel list \<Rightarrow> lighting_program \<Rightarrow> world \<Rightarrow>
    rgb_restoration \<times> world" where
  "rgb_restore te clock h channels p w =
    (let (failures, w) = restore_channels clock h (map ch_index channels) p w in
     if failures \<noteq> [] then (RgbUnconfirmed (lighting_summary p) (join ''; '' failures), w)
     else (let (seen, w) = terminal_ask te (restore_question p) w
       in (if seen = []
           then RgbUnconfirmed (lighting_summary p)
             ''the operator recorded no observation, so restoration is not confirmed''
           else RgbConfirmed (lighting_summary p) seen, w)))"

section \<open>A run\<close>

definition PROBE_WARNING :: string where
  "PROBE_WARNING = ''This will send lighting commands to 1e71:2021 that this product has never '' @
    ''validated on this firmware.''"

definition PRIOR_QUESTION :: string where
  "PRIOR_QUESTION = ''Describe what the lighting shows right now. This controller answers no '' @
    ''report that reads a channel back, so this is the only capture there can be:''"

definition rgb_probe_run :: "terminal_env \<Rightarrow> clock_env \<Rightarrow> hid_env \<Rightarrow> rgb_topology \<Rightarrow> probe_scope \<Rightarrow>
    lighting_program \<Rightarrow> world \<Rightarrow> (rgb_refusal + rgb_probe_report) \<times> world" where
  "rgb_probe_run te clock h t scope restore_to w = (case ev_value (rt_channels t) of
      None \<Rightarrow> (Inl (NoTopology (case ev_reason (rt_channels t) of
          Some reason \<Rightarrow> reason | None \<Rightarrow> ''no reason recorded'')), w)
    | Some reported \<Rightarrow>
        (let w = operator_note PROBE_WARNING w;
             w = operator_note (scope_description scope) w;
             (granted, w) = authorized te w
         in if \<not> granted then (Inl RgbNotAuthorized, w)
            else
              (let (prior, w) = terminal_ask te PRIOR_QUESTION w;
                   addressed = scope_channels scope reported;
                   (steps, w) = probe_steps te clock h (probe_plan scope addressed) w;
                   (cadence, w) = measure_cadence clock h
                     (case addressed of [] \<Rightarrow> 1 | c # _ \<Rightarrow> ch_index c) w;
                   w = operator_note (cad_detail cadence) w;
                   (restoration, w) = rgb_restore te clock h reported restore_to w
               in (Inr \<lparr>rpr_scope = scope_key scope, rpr_device = device_id_display RGB_CONTROLLER,
                     rpr_node = he_source h, rpr_firmware = rt_firmware t, rpr_channels = reported,
                     rpr_prior_state = prior, rpr_steps = steps, rpr_cadence = cadence,
                     rpr_restoration = restoration\<rparr>, w))))"

section \<open>What reaches the controller\<close>

text \<open>The report a program becomes, when it has one.\<close>

definition encoded :: "u8 \<Rightarrow> lighting_program \<Rightarrow> u8 list list" where
  "encoded channel p = (case rgb_encode channel p of Inl _ \<Rightarrow> [] | Inr report \<Rightarrow> [report])"

text \<open>How long the process slept before the next report, and that it did so after every report.\<close>

fun pause_of :: "io_event list \<Rightarrow> duration" where
  "pause_of [] = 0"
| "pause_of (Slept d # es) = d + pause_of es"
| "pause_of (HidOut r ok # es) = 0"
| "pause_of (_ # es) = pause_of es"

fun paused :: "duration \<Rightarrow> io_event list \<Rightarrow> bool" where
  "paused d [] = True"
| "paused d (HidOut r ok # es) = (d \<le> pause_of es \<and> paused d es)"
| "paused d (_ # es) = paused d es"

text \<open>Whether each report was taken, in their order.\<close>

fun outs :: "io_event list \<Rightarrow> bool list" where
  "outs [] = []"
| "outs (HidOut r ok # es) = ok # outs es"
| "outs (_ # es) = outs es"

lemma pause_of_append: "pause_of es \<le> pause_of (es @ fs)"
  by (induction es rule: pause_of.induct) simp_all

lemma paused_append: "\<lbrakk>paused d es; paused d fs\<rbrakk> \<Longrightarrow> paused d (es @ fs)"
proof (induction d es rule: paused.induct)
  case (2 d r ok es)
  then show ?case using pause_of_append [of es fs] by simp
qed simp_all

lemma outs_append [simp]: "outs (es @ fs) = outs es @ outs fs"
  by (induction es rule: outs.induct) simp_all

text \<open>A step that sends exactly the reports \<open>rs\<close> with these outcomes, pauses after each, and touches
  nothing but the controller.\<close>

definition probes :: "duration \<Rightarrow> world \<Rightarrow> u8 list list \<Rightarrow> bool list \<Rightarrow> world \<Rightarrow> bool" where
  "probes d w rs bs w' = (\<exists>es. extends w es w' \<and> attr_writes es = [] \<and> bulk_out es = [] \<and>
    reports_out es = rs \<and> outs es = bs \<and> paused d es)"

lemma probes_refl: "probes d w [] [] w"
  unfolding probes_def by (intro exI [of _ "[]"]) simp

lemma probes_trans: "\<lbrakk>probes d w rs bs v; probes d v rs' bs' u\<rbrakk> \<Longrightarrow> probes d w (rs @ rs') (bs @ bs') u"
  unfolding probes_def
proof (elim exE conjE)
  fix es fs
  assume "extends w es v" "extends v fs u" and "attr_writes es = []" "bulk_out es = []" "reports_out es = rs"
    "outs es = bs" "paused d es" and "attr_writes fs = []" "bulk_out fs = []" "reports_out fs = rs'"
    "outs fs = bs'" "paused d fs"
  then show "\<exists>es. extends w es u \<and> attr_writes es = [] \<and> bulk_out es = [] \<and> reports_out es = rs @ rs' \<and>
      outs es = bs @ bs' \<and> paused d es"
    by (intro exI [of _ "es @ fs"]) (auto intro: extends_trans paused_append)
qed

text \<open>The events of one command, and what the record says of it.\<close>

lemma send_probe_events:
  assumes "send_probe clock h channel p w = (s, w')"
  shows "case rgb_encode channel p of
      Inl e \<Rightarrow> w' = w \<and> rgs_error s \<noteq> None \<and> rgs_report_hex s = []
    | Inr report \<Rightarrow> (\<exists>b. extends w [MonoRead, HidOut report (rgs_error s = None), MonoRead, HidIn b] w') \<and>
        rgs_report_hex s = bytes_hex report"
proof (cases "rgb_encode channel p")
  case (Inl e)
  then show ?thesis using assms by (auto simp: send_probe_def)
next
  case (Inr report)
  let ?w1 = "snd (instant_now clock w)"
  let ?w2 = "snd (write_report h report ?w1)"
  let ?w3 = "snd (instant_now clock ?w2)"
  have "w' = snd (read_report h (from_millis 50) ?w3)" "rgs_error s = None \<longleftrightarrow> is_ok (fst (write_report h report ?w1))"
    "rgs_report_hex s = bytes_hex report"
    using assms Inr by (auto simp: send_probe_def split_beta Let_def split: sum.splits)
  then show ?thesis using Inr
    by (auto simp: instant_now_def write_report_def read_report_def extends_def Let_def)
qed

lemma bytes_hex_nonempty: "bytes_hex bs = [] \<longleftrightarrow> bs = []"
  by (cases bs) (simp_all add: bytes_hex_def)

lemma encode_nonempty: "rgb_encode channel p = Inr report \<Longrightarrow> report \<noteq> []"
  by (auto simp: rgb_encode_def color_command_def Let_def empty_report_def REPORT_BYTES_def
      split: option.splits if_splits dest!: arg_cong [where f = length])

lemma extends_sleep: "extends w [Slept d] (sleep d w)"
  by (simp add: extends_def sleep_def)

lemma extends_ask: "terminal_ask te q w = (a, w') \<Longrightarrow> extends w [Asked q a] w'"
  by (auto simp: terminal_ask_def Let_def extends_def)

lemma probe_step_probes:
  assumes "probe_step te clock h channel p w = (s, w')"
  shows "probes minimum_command_interval w (encoded channel p) (if encoded channel p = [] then [] else [rgs_error s = None]) w' \<and>
    map bytes_hex (encoded channel p) = filter (\<lambda>x. x \<noteq> []) [rgs_report_hex s]"
proof -
  obtain s1 w1 where a: "send_probe clock h channel p w = (s1, w1)" by fastforce
  obtain seen w2 where b: "terminal_ask te (step_question channel p) w1 = (seen, w2)" by fastforce
  have s: "s = s1\<lparr>rgs_observed := seen\<rparr>" "w' = sleep minimum_command_interval w2"
    using assms by (simp_all add: probe_step_def a b)
  note tail = extends_trans [OF extends_ask [OF b] extends_sleep [of w2 minimum_command_interval]]
  show ?thesis
  proof (cases "rgb_encode channel p")
    case (Inl e)
    then show ?thesis using send_probe_events [OF a] tail
      by (auto simp: encoded_def s probes_def intro!: exI [of _ "[Asked _ seen, Slept minimum_command_interval]"])
  next
    case (Inr report)
    then obtain x where x: "extends w [MonoRead, HidOut report (rgs_error s1 = None), MonoRead, HidIn x] w1"
      "rgs_report_hex s1 = bytes_hex report" using send_probe_events [OF a] by auto
    show ?thesis using Inr extends_trans [OF x(1) tail] x(2) encode_nonempty [OF Inr]
      by (auto simp: encoded_def s probes_def bytes_hex_nonempty)
  qed
qed

lemma probe_steps_probes:
  "probe_steps te clock h plan w = (ss, w') \<Longrightarrow>
   (\<exists>bs. probes minimum_command_interval w (concat (map (\<lambda>(c, p). encoded c p) plan)) bs w') \<and>
   map bytes_hex (concat (map (\<lambda>(c, p). encoded c p) plan)) = filter (\<lambda>x. x \<noteq> []) (map rgs_report_hex ss)"
proof (induction plan arbitrary: w ss w')
  case Nil
  then show ?case using probes_refl by auto
next
  case (Cons x plan)
  obtain c p where x: "x = (c, p)" by (cases x)
  obtain s w1 where a: "probe_step te clock h c p w = (s, w1)" by fastforce
  obtain ts w2 where b: "probe_steps te clock h plan w1 = (ts, w2)" by fastforce
  have e: "ss = s # ts" "w' = w2" using Cons.prems by (simp_all add: x a b)
  obtain bs where "probes minimum_command_interval w1 (concat (map (\<lambda>(c, p). encoded c p) plan)) bs w2"
    using Cons.IH [OF b] by blast
  from probes_trans [OF conjunct1 [OF probe_step_probes [OF a]] this]
  show ?case using Cons.IH [OF b] conjunct2 [OF probe_step_probes [OF a]] by (auto simp: x e)
qed

section \<open>The cadence, measured\<close>

definition burst_reports :: "u8 \<Rightarrow> u8 list list" where
  "burst_reports channel = concat (map (\<lambda>i. encoded channel (cadence_program i)) [0..<CADENCE_COMMANDS])"

lemma cadence_encodes: "channel_bit channel = None \<longleftrightarrow> encoded channel (cadence_program i) = []"
  by (auto simp: encoded_def rgb_encode_def cadence_program_def probe_program_def color_command_def encode_program_def
      Let_def wire_offsets split: option.split sum.split)

lemma encoded_failed: "encoded channel p = [] \<longleftrightarrow> \<not> is_ok (rgb_encode channel p)"
  by (auto simp: encoded_def split: sum.split)

text \<open>A burst sends its commands up to the first that fails.\<close>

lemma burst_probes:
  "cadence_burst clock h channel ms is w = (failed, w') \<Longrightarrow>
   \<exists>k n. (if failed then k < length is else k = length is) \<and>
     probes 0 w (take n (concat (map (\<lambda>i. encoded channel (cadence_program i)) is)))
       (replicate k True @ (if failed \<and> channel_bit channel \<noteq> None then [False] else [])) w' \<and>
     (failed \<or> n = length (concat (map (\<lambda>i. encoded channel (cadence_program i)) is)))"
proof (induction "is" arbitrary: w)
  case Nil
  then show ?case using probes_refl [of 0 w'] by (intro exI [of _ 0] exI [of _ 0]) simp
next
  case (Cons i "is")
  let ?e = "encoded channel (cadence_program i)"
  obtain s w1 where a: "send_probe clock h channel (cadence_program i) w = (s, w1)" by fastforce
  show ?case
  proof (cases "channel_bit channel = None")
    case True
    then have e: "?e = []" using cadence_encodes by simp
    have "w1 = w \<and> rgs_error s \<noteq> None"
      using send_probe_events [OF a] e by (auto simp: encoded_def split: sum.splits)
    then show ?thesis using Cons.prems True probes_refl [of 0 w]
      by (intro exI [of _ 0] exI [of _ 0]) (auto simp: a)
  next
    case False
    then obtain report where r: "rgb_encode channel (cadence_program i) = Inr report"
      using cadence_encodes [of channel i] by (auto simp: encoded_def split: sum.splits)
    then have e: "?e = [report]" by (simp add: encoded_def)
    obtain b where x: "extends w [MonoRead, HidOut report (rgs_error s = None), MonoRead, HidIn b] w1"
      using send_probe_events [OF a] r by auto
    then have p: "probes 0 w [report] [rgs_error s = None] w1"
      unfolding probes_def by (intro exI [of _ "[MonoRead, HidOut report (rgs_error s = None), MonoRead, HidIn b]"]) simp
    show ?thesis
    proof (cases "rgs_error s = None")
      case False
      then have f: "failed" "w' = w1" using Cons.prems by (simp_all add: a)
      show ?thesis using f p e False \<open>channel_bit channel \<noteq> None\<close>
        by (intro exI [of _ 0] exI [of _ 1]) (simp add: take_Cons')
    next
      case True
      then have c: "cadence_burst clock h channel ms is (sleep (from_millis (unat ms)) w1) = (failed, w')"
        using Cons.prems by (simp add: a)
      obtain k n where k: "if failed then k < length is else k = length is"
        "probes 0 (sleep (from_millis (unat ms)) w1) (take n (concat (map (\<lambda>i. encoded channel (cadence_program i)) is)))
          (replicate k True @ (if failed \<and> channel_bit channel \<noteq> None then [False] else [])) w'"
        "failed \<or> n = length (concat (map (\<lambda>i. encoded channel (cadence_program i)) is))"
        using Cons.IH [OF c] by blast
      have z: "probes 0 w1 [] [] (sleep (from_millis (unat ms)) w1)"
        unfolding probes_def using extends_sleep by (intro exI [of _ "[Slept (from_millis (unat ms))]"]) simp
      have "probes 0 w (report # take n (concat (map (\<lambda>i. encoded channel (cadence_program i)) is)))
          (True # replicate k True @ (if failed \<and> channel_bit channel \<noteq> None then [False] else [])) w'"
        using probes_trans [OF probes_trans [OF p z] k(2)] True by simp
      then show ?thesis using k(1,3) e
        by (intro exI [of _ "Suc k"] exI [of _ "Suc n"]) (auto split: if_splits)
    qed
  qed
qed

lemma cadence_probes:
  "cadence_steps clock h channel mss tried held w = ((tr, hd1, fl), w') \<Longrightarrow>
   \<exists>m n. m \<le> CADENCE_COMMANDS * length mss \<and>
     (let k = m div CADENCE_COMMANDS in
       fl = (if k < length mss then Some (mss ! k) else None) \<and>
       hd1 = (if k = 0 then held else Some (mss ! (k - 1))) \<and> tr = tried @ take (Suc k) mss) \<and>
     probes 0 w (take n (concat (replicate (length mss) (burst_reports channel))))
       (replicate m True @ (if m < CADENCE_COMMANDS * length mss \<and> channel_bit channel \<noteq> None then [False] else [])) w'"
proof (induction mss arbitrary: tried held w)
  case Nil
  then show ?case using probes_refl [of 0 w'] by (intro exI [of _ 0] exI [of _ 0]) simp
next
  case (Cons ms mss)
  obtain failed w1 where b: "cadence_burst clock h channel ms [0..<CADENCE_COMMANDS] w = (failed, w1)" by fastforce
  obtain k n where k: "if failed then k < CADENCE_COMMANDS else k = CADENCE_COMMANDS"
    "probes 0 w (take n (burst_reports channel))
      (replicate k True @ (if failed \<and> channel_bit channel \<noteq> None then [False] else [])) w1"
    "failed \<or> n = length (burst_reports channel)"
    using burst_probes [OF b] unfolding burst_reports_def [symmetric] length_upt diff_zero by blast
  have c0: "0 < CADENCE_COMMANDS" by (simp add: CADENCE_COMMANDS_def)
  show ?case
  proof (cases failed)
    case True
    have "fl = Some ms" "hd1 = held" "tr = tried @ [ms]" "w' = w1" using Cons.prems True by (simp_all add: b)
    moreover have "k div CADENCE_COMMANDS = 0" "k < CADENCE_COMMANDS" using k(1) True by simp_all
    moreover have "take (min n (length (burst_reports channel)))
        (concat (replicate (length (ms # mss)) (burst_reports channel))) = take n (burst_reports channel)"
      by (simp add: min_def)
    ultimately show ?thesis using k(2) True
      by (intro exI [of _ k] exI [of _ "min n (length (burst_reports channel))"]) (auto simp: Let_def)
  next
    case False
    then have r: "cadence_steps clock h channel mss (tried @ [ms]) (Some ms) w1 = ((tr, hd1, fl), w')"
      using Cons.prems by (simp add: b)
    obtain m n' where m: "m \<le> CADENCE_COMMANDS * length mss"
      "let k = m div CADENCE_COMMANDS in fl = (if k < length mss then Some (mss ! k) else None) \<and>
         hd1 = (if k = 0 then Some ms else Some (mss ! (k - 1))) \<and> tr = (tried @ [ms]) @ take (Suc k) mss"
      "probes 0 w1 (take n' (concat (replicate (length mss) (burst_reports channel))))
       (replicate m True @ (if m < CADENCE_COMMANDS * length mss \<and> channel_bit channel \<noteq> None then [False] else [])) w'"
      using Cons.IH [OF r] by blast
    have p: "probes 0 w (burst_reports channel @ take n' (concat (replicate (length mss) (burst_reports channel))))
        (replicate (CADENCE_COMMANDS + m) True @
          (if m < CADENCE_COMMANDS * length mss \<and> channel_bit channel \<noteq> None then [False] else [])) w'"
      using probes_trans [OF k(2) m(3)] k(1,3) False by (simp add: replicate_add)
    have d: "(CADENCE_COMMANDS + m) div CADENCE_COMMANDS = Suc (m div CADENCE_COMMANDS)" using c0 by simp
    show ?thesis
      using p m(1,2) c0
      by (intro exI [of _ "CADENCE_COMMANDS + m"] exI [of _ "length (burst_reports channel) + n'"])
        (auto simp: Let_def d nth_Cons' split: if_splits)
  qed
qed

section \<open>The restoration, sent\<close>

lemma restore_probes:
  "restore_channels clock h cs p w = (failures, w') \<Longrightarrow>
   \<exists>bs. probes minimum_command_interval w (concat (map (\<lambda>c. encoded c p) cs)) bs w' \<and>
     (if failures = [] then list_all id bs \<and> list_all (\<lambda>c. encoded c p \<noteq> []) cs else True)"
proof (induction cs arbitrary: w failures w')
  case Nil
  then show ?case using probes_refl by (intro exI [of _ "[]"]) simp
next
  case (Cons c cs)
  obtain s w1 where a: "send_probe clock h c p w = (s, w1)" by fastforce
  obtain fs w2 where b: "restore_channels clock h cs p (sleep minimum_command_interval w1) = (fs, w2)" by fastforce
  have e: "failures = (case rgs_error s of Some e \<Rightarrow> [''channel '' @ show_u8 c @ '': '' @ e] | None \<Rightarrow> []) @ fs" "w' = w2"
    using Cons.prems by (simp_all add: a b)
  have st: "probes minimum_command_interval w (encoded c p) (if encoded c p = [] then [] else [rgs_error s = None])
      (sleep minimum_command_interval w1) \<and> (encoded c p = [] \<longrightarrow> rgs_error s \<noteq> None)"
  proof (cases "rgb_encode c p")
    case (Inl er)
    then show ?thesis using send_probe_events [OF a] extends_sleep [of w1 minimum_command_interval]
      by (auto simp: encoded_def probes_def intro!: exI [of _ "[Slept minimum_command_interval]"])
  next
    case (Inr report)
    then obtain x where "extends w [MonoRead, HidOut report (rgs_error s = None), MonoRead, HidIn x] w1"
      using send_probe_events [OF a] by auto
    from extends_trans [OF this extends_sleep [of w1 minimum_command_interval]] show ?thesis using Inr
      by (auto simp: encoded_def probes_def)
  qed
  obtain bs where bs: "probes minimum_command_interval (sleep minimum_command_interval w1)
      (concat (map (\<lambda>c. encoded c p) cs)) bs w2"
    "if fs = [] then list_all id bs \<and> list_all (\<lambda>c. encoded c p \<noteq> []) cs else True"
    using Cons.IH [OF b] by blast
  show ?case using probes_trans [OF conjunct1 [OF st] bs(1)] bs(2) st
    by (intro exI [of _ "(if encoded c p = [] then [] else [rgs_error s = None]) @ bs"])
      (auto simp: e split: option.splits if_splits)
qed

lemma probes_note: "probes d w [] [] (operator_note m w)"
  unfolding probes_def operator_note_def by (intro exI [of _ "[Noted m]"]) simp

lemma probes_ask: "terminal_ask te q w = (a, w') \<Longrightarrow> probes d w [] [] w'"
  unfolding probes_def by (intro exI [of _ "[Asked q a]"]) (simp add: extends_ask)

lemma list_all_of_map: "list_all P (map f xs) \<longleftrightarrow> list_all (\<lambda>x. P (f x)) xs"
  by (induction xs) simp_all

lemma rgb_restore_probes:
  assumes "rgb_restore te clock h cs p w = (x, w')"
  shows "\<exists>bs. probes minimum_command_interval w (concat (map (\<lambda>c. encoded (ch_index c) p) cs)) bs w' \<and>
    (case x of RgbConfirmed _ seen \<Rightarrow> seen \<noteq> [] \<and> list_all id bs \<and>
        list_all (\<lambda>c. encoded (ch_index c) p \<noteq> []) cs
      | _ \<Rightarrow> True)"
proof -
  obtain fs w1 where a: "restore_channels clock h (map ch_index cs) p w = (fs, w1)" by fastforce
  obtain seen w2 where b: "terminal_ask te (restore_question p) w1 = (seen, w2)" by fastforce
  obtain bs where bs: "probes minimum_command_interval w (concat (map (\<lambda>c. encoded (ch_index c) p) cs)) bs w1"
    "if fs = [] then list_all id bs \<and> list_all (\<lambda>c. encoded (ch_index c) p \<noteq> []) cs else True"
    using restore_probes [OF a] unfolding map_map comp_def list_all_of_map by blast
  note q = probes_trans [OF bs(1) probes_ask [OF b], simplified]
  show ?thesis
  proof (cases "fs = []")
    case True
    then show ?thesis using assms q bs(2) by (auto simp: rgb_restore_def a b split: if_splits intro!: exI [of _ bs])
  next
    case False
    then show ?thesis using assms bs(1) by (auto simp: rgb_restore_def a)
  qed
qed

text \<open>What a refused run leaves, and how a run that was granted begins.\<close>

lemma authorized_events:
  assumes "authorized te (operator_note m2 (operator_note m1 w)) = (granted, w')"
  shows "\<exists>a. extends w [Noted m1, Noted m2, Asked AUTHORIZE a] w' \<and> (granted \<longleftrightarrow> a = CONFIRMATION_PHRASE)"
  using assms by (auto simp: authorized_def terminal_ask_def operator_note_def extends_def Let_def)

text \<open>A conversation with the operator, and nothing else.\<close>

definition talk :: "io_event \<Rightarrow> bool" where
  "talk e = (case e of Noted _ \<Rightarrow> True | Asked _ _ \<Rightarrow> True | _ \<Rightarrow> False)"

lemma talk_simps [simp]: "talk (Noted m)" "talk (Asked q a)"
  by (simp_all add: talk_def)

text \<open>The parts of a run that was granted.\<close>

definition cadence_channel :: "rgb_channel list \<Rightarrow> u8" where
  "cadence_channel addressed = (case addressed of [] \<Rightarrow> 1 | c # _ \<Rightarrow> ch_index c)"

lemma rgb_probe_granted:
  assumes "ev_value (rt_channels t) = Some reported"
    "authorized te (operator_note (scope_description scope) (operator_note PROBE_WARNING w)) = (True, w0)"
  shows "\<exists>prior w1 ss w2 tr hd1 fl w3 cad x w4. terminal_ask te PRIOR_QUESTION w0 = (prior, w1) \<and>
    probe_steps te clock h (probe_plan scope (scope_channels scope reported)) w1 = (ss, w2) \<and>
    cadence_steps clock h (cadence_channel (scope_channels scope reported)) CADENCE_STEPS_MS [] None w2 =
      ((tr, hd1, fl), w3) \<and>
    rgb_restore te clock h reported restore_to (operator_note (cad_detail cad) w3) = (x, w4) \<and>
    rgb_probe_run te clock h t scope restore_to w = (Inr \<lparr>rpr_scope = scope_key scope,
      rpr_device = device_id_display RGB_CONTROLLER, rpr_node = he_source h, rpr_firmware = rt_firmware t,
      rpr_channels = reported, rpr_prior_state = prior, rpr_steps = ss, rpr_cadence = cad, rpr_restoration = x\<rparr>, w4)"
proof -
  obtain prior w1 where p: "terminal_ask te PRIOR_QUESTION w0 = (prior, w1)" by fastforce
  obtain ss w2 where s: "probe_steps te clock h (probe_plan scope (scope_channels scope reported)) w1 = (ss, w2)" by fastforce
  obtain tr hd1 fl w3 where c: "cadence_steps clock h (cadence_channel (scope_channels scope reported))
      CADENCE_STEPS_MS [] None w2 = ((tr, hd1, fl), w3)" by (metis prod.exhaust_sel)
  define cad where "cad = \<lparr>cad_tried_ms = tr, cad_stable_interval_ms = hd1, cad_first_failure_ms = fl,
    cad_detail = cadence_text hd1 fl\<rparr>"
  obtain x w4 where x: "rgb_restore te clock h reported restore_to (operator_note (cad_detail cad) w3) = (x, w4)" by fastforce
  show ?thesis
    using p s c x by (simp add: rgb_probe_run_def assms measure_cadence_def c [unfolded cadence_channel_def] cad_def)
qed


lemma rgb_probe_parts:
  "case rgb_probe_run te clock h t scope restore_to w of
     (Inl e, w') \<Rightarrow> \<exists>es. extends w es w' \<and> list_all talk es
   | (Inr rep, w') \<Rightarrow> (let addressed = scope_channels scope (rpr_channels rep) in
       \<exists>w1 w2 w3 bs1 bs2 bs3 n.
       extends w [Noted PROBE_WARNING, Noted (scope_description scope), Asked AUTHORIZE CONFIRMATION_PHRASE,
         Asked PRIOR_QUESTION (rpr_prior_state rep)] w1 \<and>
       probes minimum_command_interval w1 (concat (map (\<lambda>(c, p). encoded c p) (probe_plan scope addressed))) bs1 w2 \<and>
       filter (\<lambda>x. x \<noteq> []) (map rgs_report_hex (rpr_steps rep)) =
         map bytes_hex (concat (map (\<lambda>(c, p). encoded c p) (probe_plan scope addressed))) \<and>
       probes 0 w2 (take n (concat (replicate 5 (burst_reports (cadence_channel addressed))))) bs2 w3 \<and>
       probes minimum_command_interval w3 (concat (map (\<lambda>c. encoded (ch_index c) restore_to) (rpr_channels rep))) bs3 w' \<and>
       (case rpr_restoration rep of
          RgbConfirmed _ seen \<Rightarrow> seen \<noteq> [] \<and> list_all id bs3 \<and>
            list_all (\<lambda>c. encoded (ch_index c) restore_to \<noteq> []) (rpr_channels rep)
        | _ \<Rightarrow> True))"
proof (cases "ev_value (rt_channels t)")
  case None
  then show ?thesis by (auto simp: rgb_probe_run_def intro!: exI [of _ "[]"])
next
  case (Some reported)
  let ?w0 = "operator_note (scope_description scope) (operator_note PROBE_WARNING w)"
  let ?plan = "probe_plan scope (scope_channels scope reported)"
  obtain granted w0 where g: "authorized te ?w0 = (granted, w0)" by fastforce
  obtain a where a: "extends w [Noted PROBE_WARNING, Noted (scope_description scope), Asked AUTHORIZE a] w0"
    "granted \<longleftrightarrow> a = CONFIRMATION_PHRASE" using authorized_events [OF g] by blast
  show ?thesis
  proof (cases granted)
    case False
    then show ?thesis using a(1) by (auto simp: rgb_probe_run_def Some g intro!: exI)
  next
    case True
    have g': "authorized te ?w0 = (True, w0)" using g True by simp
    obtain prior w1 ss w2 tr hd1 fl w3 cad x w4 where
        p: "terminal_ask te PRIOR_QUESTION w0 = (prior, w1)" and ss: "probe_steps te clock h ?plan w1 = (ss, w2)" and
        c: "cadence_steps clock h (cadence_channel (scope_channels scope reported)) CADENCE_STEPS_MS [] None w2 =
          ((tr, hd1, fl), w3)" and
        x: "rgb_restore te clock h reported restore_to (operator_note (cad_detail cad) w3) = (x, w4)" and
        run: "rgb_probe_run te clock h t scope restore_to w = (Inr \<lparr>rpr_scope = scope_key scope,
          rpr_device = device_id_display RGB_CONTROLLER, rpr_node = he_source h, rpr_firmware = rt_firmware t,
          rpr_channels = reported, rpr_prior_state = prior, rpr_steps = ss, rpr_cadence = cad, rpr_restoration = x\<rparr>, w4)"
      using rgb_probe_granted [OF Some g', of clock h restore_to] by (elim exE conjE) rule
    have start: "extends w [Noted PROBE_WARNING, Noted (scope_description scope), Asked AUTHORIZE CONFIRMATION_PHRASE,
        Asked PRIOR_QUESTION prior] w1"
      using extends_trans [OF a(1) extends_ask [OF p]] a(2) True by simp
    obtain bs3 where r: "probes minimum_command_interval (operator_note (cad_detail cad) w3)
        (concat (map (\<lambda>c. encoded (ch_index c) restore_to) reported)) bs3 w4"
      "case x of RgbConfirmed _ seen \<Rightarrow> seen \<noteq> [] \<and> list_all id bs3 \<and>
          list_all (\<lambda>c. encoded (ch_index c) restore_to \<noteq> []) reported | _ \<Rightarrow> True"
      using rgb_restore_probes [OF x] by blast
    have r3: "probes minimum_command_interval w3 (concat (map (\<lambda>c. encoded (ch_index c) restore_to) reported)) bs3 w4"
      using probes_trans [OF probes_note r(1)] by simp
    have five: "length CADENCE_STEPS_MS = 5" by (simp add: CADENCE_STEPS_MS_def)
    obtain n bs2 where "probes 0 w2 (take n (concat (replicate 5 (burst_reports
        (cadence_channel (scope_channels scope reported)))))) bs2 w3"
      using cadence_probes [OF c] unfolding five by blast
    then show ?thesis using start probe_steps_probes [OF ss] r3 r(2)
      unfolding run Let_def by (simp only: prod.case sum.case rgb_probe_report.select_convs) blast
  qed
qed

section \<open>Properties\<close>


text \<open>The colors a program shows, and the brightest of them.\<close>

definition dim :: "lighting_program \<Rightarrow> bool" where
  "dim p = list_all (\<lambda>c. rgb_r c \<le> 25 \<and> rgb_g c \<le> 25 \<and> rgb_b c \<le> 25) (en_colors (encode_program p))"

lemma scope_programs_dim: "list_all dim (scope_programs s)" "list_all (\<lambda>i. dim (cadence_program i)) is"
proof -
  have c: "dim (LightFixed PROBE_COLOR PROBE_LEVEL)" "dim LightOff" "probe_program PROBE_COLOR = LightFixed PROBE_COLOR PROBE_LEVEL"
    "dim (LightEffect Breathing [PROBE_COLOR] PROBE_LEVEL v d)" "dim (LightEffect SpectrumWave cs b v d)" for v d cs b
    by (simp_all add: dim_def encode_program_def scaled_def scale_channel_def PROBE_COLOR_def PROBE_LEVEL_def
        PROBE_BRIGHTNESS_def MAX_BRIGHTNESS_def BLACK_def probe_program_def brightness_new_def Let_def)
  show "list_all dim (scope_programs s)"
    by (cases s) (simp_all add: scope_programs_def c breathing_program_def spectrum_wave_program_def sweep_def
        effect_all_def sweep_directions_def direction_all_def speed_all_def)
  show "list_all (\<lambda>i. dim (cadence_program i)) is"
    by (simp add: cadence_program_def c list_all_iff)
qed

lemma color_command_colors: "color_command cbit p = Inr report \<Longrightarrow> command_colors report = en_colors (encode_program p)"
  using color_command_layout [where cbit = cbit and p = p] by simp

lemma encoded_dim: "dim p \<Longrightarrow> list_all (\<lambda>r. list_all (\<lambda>c. rgb_r c \<le> 25 \<and> rgb_g c \<le> 25 \<and> rgb_b c \<le> 25) (command_colors r))
    (encoded channel p)"
  using color_command_colors by (auto simp: encoded_def rgb_encode_def dim_def split: option.split sum.split)

lemma list_all_concat_map: "list_all P (concat (map f xs)) \<longleftrightarrow> list_all (\<lambda>x. list_all P (f x)) xs"
  by (induction xs) simp_all

lemma plan_dim: "list_all (\<lambda>(c, p). dim p) (probe_plan scope cs)"
  using scope_programs_dim(1) [of scope] by (simp add: probe_plan_def list_all_concat_map list_all_of_map) (simp add: list_all_iff)

text \<open>Nothing the write probe sends before the restoration lights a LED above a tenth of its range, every
  program of it passes the product's own validation, and the sweep sends exactly the effects, speeds and
  directions the validation accepts, one program each.\<close>

theorem rgb_probe_stays_dim:
  "list_all (\<lambda>r. list_all (\<lambda>c. rgb_r c \<le> 25 \<and> rgb_g c \<le> 25 \<and> rgb_b c \<le> 25) (command_colors r))
     (concat (map (\<lambda>(c, p). encoded c p) (probe_plan scope cs)) @ burst_reports channel) \<and>
   list_all (\<lambda>p. validate_lighting_program p = Inr ()) (scope_programs scope) \<and>
   ((\<exists>colors b. LightEffect e colors b v d \<in> set (scope_programs EffectSweep)) \<longleftrightarrow>
    (\<exists>colors b. validate_lighting_program (LightEffect e colors b v d) = Inr ())) \<and>
   distinct (scope_programs EffectSweep)"
proof (intro conjI)
  have "list_all (\<lambda>x. list_all (\<lambda>r. list_all (\<lambda>c. rgb_r c \<le> 25 \<and> rgb_g c \<le> 25 \<and> rgb_b c \<le> 25) (command_colors r))
      (case x of (c, p) \<Rightarrow> encoded c p)) (probe_plan scope cs)"
    by (rule list.pred_mono_strong [OF plan_dim]) (auto intro: encoded_dim)
  moreover have "list_all (\<lambda>i. list_all (\<lambda>r. list_all (\<lambda>c. rgb_r c \<le> 25 \<and> rgb_g c \<le> 25 \<and> rgb_b c \<le> 25) (command_colors r))
      (encoded channel (cadence_program i))) [0..<CADENCE_COMMANDS]"
    by (rule list.pred_mono_strong [OF scope_programs_dim(2)]) (auto intro: encoded_dim)
  ultimately show "list_all (\<lambda>r. list_all (\<lambda>c. rgb_r c \<le> 25 \<and> rgb_g c \<le> 25 \<and> rgb_b c \<le> 25) (command_colors r))
     (concat (map (\<lambda>(c, p). encoded c p) (probe_plan scope cs)) @ burst_reports channel)"
    by (simp only: list_all_append list_all_concat_map burst_reports_def)
  show "list_all (\<lambda>p. validate_lighting_program p = Inr ()) (scope_programs scope)"
    by (cases scope) (simp_all add: scope_programs_def probe_program_def breathing_program_def spectrum_wave_program_def
        sweep_def effect_all_def sweep_directions_def direction_all_def speed_all_def validate_lighting_program_def)
  have s: "LightEffect e colors b v d \<in> set sweep \<longleftrightarrow> colors = replicate (fst (color_range e)) PROBE_COLOR \<and>
      b = PROBE_LEVEL \<and> d \<in> set (sweep_directions e)" for colors b
    by (cases e; cases v) (auto simp: sweep_def effect_all_def speed_all_def)
  have a: "d \<in> set (sweep_directions e) \<longleftrightarrow> d = Forward \<or> accepts_direction e"
    by (cases d) (auto simp: sweep_directions_def direction_all_def)
  have r: "\<exists>colors :: rgb list. fst (color_range e) \<le> length colors \<and> length colors \<le> snd (color_range e)"
    by (cases e) (auto intro: exI [of _ "[PROBE_COLOR]"])
  show "(\<exists>colors b. LightEffect e colors b v d \<in> set (scope_programs EffectSweep)) \<longleftrightarrow>
    (\<exists>colors b. validate_lighting_program (LightEffect e colors b v d) = Inr ())"
    using r by (auto simp: scope_programs_def s a validate_lighting_program_def split_beta split: if_splits)
  show "distinct (scope_programs EffectSweep)"
    by (simp add: scope_programs_def sweep_def effect_all_def sweep_directions_def direction_all_def speed_all_def)
qed

text \<open>What the probe says of the cadence is what the controller took. With \<open>m\<close> commands taken before the
  first failure, or all of them, the stable interval is the last one whose five commands were all taken, the
  failure is named at the next, nothing faster is tried after it, and the failed command is the last sent.\<close>

theorem cadence_says_what_landed:
  "case measure_cadence clock h channel w of (c, w') \<Rightarrow> \<exists>m n. m \<le> 25 \<and>
     probes 0 w (take n (concat (replicate 5 (burst_reports channel))))
       (replicate m True @ (if m < 25 \<and> channel_bit channel \<noteq> None then [False] else [])) w' \<and>
     cad_tried_ms c = take (Suc (m div 5)) CADENCE_STEPS_MS \<and>
     cad_stable_interval_ms c = (if m < 5 then None else Some (CADENCE_STEPS_MS ! (m div 5 - 1))) \<and>
     cad_first_failure_ms c = (if m < 25 then Some (CADENCE_STEPS_MS ! (m div 5)) else None)"
proof -
  obtain tr hd1 fl w' where c: "cadence_steps clock h channel CADENCE_STEPS_MS [] None w = ((tr, hd1, fl), w')"
    by (metis prod.exhaust_sel)
  have l: "length CADENCE_STEPS_MS = 5" "CADENCE_COMMANDS = 5" by (simp_all add: CADENCE_STEPS_MS_def CADENCE_COMMANDS_def)
  obtain m n where m: "m \<le> 25" "fl = (if m div 5 < 5 then Some (CADENCE_STEPS_MS ! (m div 5)) else None)"
    "hd1 = (if m div 5 = 0 then None else Some (CADENCE_STEPS_MS ! (m div 5 - 1)))" "tr = take (Suc (m div 5)) CADENCE_STEPS_MS"
    "probes 0 w (take n (concat (replicate 5 (burst_reports channel))))
       (replicate m True @ (if m < 25 \<and> channel_bit channel \<noteq> None then [False] else [])) w'"
    using cadence_probes [OF c] unfolding l Let_def by auto
  have d: "m div 5 < 5 \<longleftrightarrow> m < 25" "m div 5 = 0 \<longleftrightarrow> m < 5" by (simp_all add: div_less_iff_less_mult div_eq_0_iff)
  show ?thesis
    by (simp only: measure_cadence_def c Let_def prod.case cadence_observation.select_convs)
      (intro exI [of _ m] exI [of _ n] conjI m(1,4,5), simp_all only: m(2,3) d)
qed

end
