(* ===== verification/Lcd_Probe.thy ===== *)
theory Lcd_Probe
  imports Rgb_Probe Renderer
begin

text \<open>
  \<open>crates/daemon/src/lcd_probe.rs\<close>: the write probe of the panel. Four solid fields at half brightness, each
  rendered by the repository's renderer and sent as the daemon sends a frame, each followed by a question,
  then the product's default view. \<open>debug_char\<close> of a character that is not ASCII is the standard library's
  table and a parameter; no property depends on it.
\<close>

section \<open>What the probe sends\<close>

definition PROBE_COLORS :: "(string \<times> rgb) list" where
  "PROBE_COLORS = [(''red'', Rgb 0xff 0 0), (''green'', Rgb 0 0xff 0), (''blue'', Rgb 0 0 0xff),
    (''white'', Rgb 0xff 0xff 0xff)]"

definition PROBE_PERCENT :: u8 where "PROBE_PERCENT = 50"
definition LCD_PROBE_LEVEL :: brightness where "LCD_PROBE_LEVEL = Brightness PROBE_PERCENT"

definition probe_preset :: "rgb \<Rightarrow> display_preset" where
  "probe_preset color = (solid_preset color)\<lparr>dp_brightness := LCD_PROBE_LEVEL, dp_orientation := Deg0\<rparr>"

text \<open>A solid field and the default view are drawn without telemetry.\<close>

definition NO_SAMPLES :: "metric_sample \<times> metric_sample" where
  "NO_SAMPLES = (sample_unavailable CpuTemperature, sample_unavailable GpuTemperature)"

section \<open>The record\<close>

record lcd_step =
  lcs_description :: string
  lcs_transfer_start :: "u8 list"
  lcs_bulk_header :: "u8 list"
  lcs_payload_bytes :: nat
  lcs_transfer_end :: "u8 list"
  lcs_sequences :: u8
  lcs_acknowledged :: u8
  lcs_elapsed_us :: nat
  lcs_observed :: string
  lcs_error :: "string option"

datatype lcd_restoration = LcdConfirmed string | LcdUnconfirmed string | LcdRestoreFailed string

record lcd_probe_report =
  lpr_firmware :: string
  lpr_panel :: string
  lpr_transport :: string
  lpr_prior_state :: string
  lpr_steps :: "lcd_step list"
  lpr_restoration :: lcd_restoration

definition lcd_every_step_landed :: "lcd_probe_report \<Rightarrow> bool" where
  "lcd_every_step_landed r = (lpr_steps r \<noteq> [] \<and> list_all (\<lambda>s. lcs_error s = None) (lpr_steps r))"

definition lcd_every_step_observed :: "lcd_probe_report \<Rightarrow> bool" where
  "lcd_every_step_observed r = (lpr_steps r \<noteq> [] \<and> list_all (\<lambda>s. lcs_observed s \<noteq> []) (lpr_steps r))"

datatype lcd_refusal = NoPanel string | NoGeometry | LcdNotAuthorized

definition lcd_refusal_display :: "lcd_refusal \<Rightarrow> string" where
  "lcd_refusal_display e = (case e of
      NoPanel reason \<Rightarrow> ''the device did not answer its display report: '' @ reason
    | NoGeometry \<Rightarrow> ''the panel geometry is not recorded, so no frame can be laid out''
    | LcdNotAuthorized \<Rightarrow> ''the write probe was not authorized. Re-run it and type '' @ CONFIRMATION_PHRASE @
        '' when asked.'')"

section \<open>One frame\<close>

record lcd_probe_env =
  pb_terminal :: terminal_env
  pb_renderer :: renderer_env
  pb_images :: image_env
  pb_debug :: "string \<Rightarrow> string"

definition probe_frame :: "lcd_probe_env \<Rightarrow> display_preset \<Rightarrow> lcd_panel \<Rightarrow> display_error + u8 list" where
  "probe_frame pb p panel =
    and_then (render (pb_renderer pb) (pb_images pb) p NO_SAMPLES panel) (\<lambda>f. Inr (to_rgb565_be f))"

definition send_preset :: "lcd_link \<Rightarrow> brightness \<Rightarrow> u8 list \<Rightarrow> world \<Rightarrow> (lcd_error + frame_report) \<times> world" where
  "send_preset l b frame w = or_return (set_display l b w) (\<lambda>_ w. send_frame l frame w)"

definition failed_step :: "string \<Rightarrow> nat \<Rightarrow> nat \<Rightarrow> string \<Rightarrow> lcd_step" where
  "failed_step description payload elapsed e =
    \<lparr>lcs_description = description, lcs_transfer_start = [], lcs_bulk_header = [], lcs_payload_bytes = payload,
     lcs_transfer_end = [], lcs_sequences = 0, lcs_acknowledged = 0, lcs_elapsed_us = elapsed, lcs_observed = [],
     lcs_error = Some e\<rparr>"

definition sending :: "string \<Rightarrow> string" where
  "sending description = ''Sending '' @ description @ ''.''"

definition lcd_send_step :: "lcd_probe_env \<Rightarrow> lcd_link \<Rightarrow> display_preset \<Rightarrow> lcd_panel \<Rightarrow> string \<Rightarrow> string \<Rightarrow> world \<Rightarrow>
    lcd_step \<times> world" where
  "lcd_send_step pb l p panel description question w =
    (let w = operator_note (sending description) w in
     case probe_frame pb p panel of
       Inl e \<Rightarrow> (failed_step description 0 0 (display_error_display e), w)
     | Inr frame \<Rightarrow>
         (let (started, w) = instant_now (ll_clock l) w; (r, w) = send_preset l (dp_brightness p) frame w;
              (now, w) = instant_now (ll_clock l) w; elapsed = duration_since now started div 1000
          in case r of
               Inl e \<Rightarrow> (failed_step description (length frame) elapsed (lcd_error_display e), w)
             | Inr report \<Rightarrow> (let (seen, w) = terminal_ask (pb_terminal pb) question w in
                 (\<lparr>lcs_description = description, lcs_transfer_start = fr_start report,
                   lcs_bulk_header = fr_header report, lcs_payload_bytes = fr_payload_bytes report,
                   lcs_transfer_end = fr_end report, lcs_sequences = fr_sequences report,
                   lcs_acknowledged = fr_acknowledged report, lcs_elapsed_us = elapsed, lcs_observed = seen,
                   lcs_error = None\<rparr>, w))))"

definition color_description :: "string \<Rightarrow> string" where
  "color_description name = ''solid '' @ name @ '' at '' @ show_u8 PROBE_PERCENT @ ''%''"

definition color_question :: "string \<Rightarrow> string" where
  "color_question name = ''What does the panel show now? (expected: a '' @ name @ '' field)''"

fun lcd_color_steps :: "lcd_probe_env \<Rightarrow> lcd_link \<Rightarrow> lcd_panel \<Rightarrow> (string \<times> rgb) list \<Rightarrow> world \<Rightarrow> lcd_step list \<times> world" where
  "lcd_color_steps pb l panel [] w = ([], w)"
| "lcd_color_steps pb l panel ((name, color) # cs) w =
    (let (s, w) = lcd_send_step pb l (probe_preset color) panel (color_description name) (color_question name) w;
         (ss, w) = lcd_color_steps pb l panel cs w
     in (s # ss, w))"

section \<open>The restoration\<close>

text \<open>\<open>{:?}\<close> of a string.\<close>

definition debug_char :: "(string \<Rightarrow> string) \<Rightarrow> string \<Rightarrow> string" where
  "debug_char escape c = (case c of
      [a] \<Rightarrow>
        (if a = CHR 0x00 then [CHR 0x5C, CHR ''0''] else if a = CHR 0x09 then [CHR 0x5C, CHR ''t'']
         else if a = CHR 0x0A then [CHR 0x5C, CHR ''n''] else if a = CHR 0x0D then [CHR 0x5C, CHR ''r'']
         else if a = CHR 0x22 then [CHR 0x5C, CHR 0x22] else if a = CHR 0x5C then [CHR 0x5C, CHR 0x5C]
         else if byte a < 16 then CHR 0x5C # ''u{'' @ [digit_char (byte a)] @ ''}''
         else if byte a < 32 \<or> byte a = 127
         then CHR 0x5C # ''u{'' @ [digit_char (byte a div 16), digit_char (byte a mod 16)] @ ''}''
         else if byte a < 127 then [a] else escape c)
    | _ \<Rightarrow> escape c)"

definition debug_string :: "(string \<Rightarrow> string) \<Rightarrow> string \<Rightarrow> string" where
  "debug_string escape s = CHR 0x22 # concat (map (debug_char escape) (chars s)) @ [CHR 0x22]"

definition restored_question :: "lcd_probe_env \<Rightarrow> string \<Rightarrow> string" where
  "restored_question pb prior = ''The panel was showing '' @ debug_string (pb_debug pb) prior @
    '' before this run. What does it show now?''"

definition RESTORING :: string where
  "RESTORING = ''Restoring the panel to this product'' @ [CHR 0x27] @ ''s default view.''"

definition lcd_restore :: "lcd_probe_env \<Rightarrow> lcd_link \<Rightarrow> lcd_panel \<Rightarrow> string \<Rightarrow> world \<Rightarrow> lcd_restoration \<times> world" where
  "lcd_restore pb l panel prior w =
    (let w = operator_note RESTORING w in
     case probe_frame pb default_infographic panel of
       Inl e \<Rightarrow> (LcdRestoreFailed (display_error_display e), w)
     | Inr frame \<Rightarrow> (let (r, w) = send_preset l (dp_brightness default_infographic) frame w in
         case r of
           Inl e \<Rightarrow> (LcdRestoreFailed (lcd_error_display e), w)
         | Inr _ \<Rightarrow> (let (seen, w) = terminal_ask (pb_terminal pb) (restored_question pb prior) w
             in (if seen = [] then LcdUnconfirmed ''nobody described the panel after restoration''
                 else LcdConfirmed seen, w))))"

section \<open>A run\<close>

definition show_u16 :: "u16 \<Rightarrow> string" where "show_u16 n = show_nat (unat n)"

definition lcd_briefing :: "string \<Rightarrow> lcd_panel \<Rightarrow> string" where
  "lcd_briefing version panel =
    ''About to send '' @ show_nat (length PROBE_COLORS) @ '' unvalidated frames to a panel running firmware '' @
    version @ ''.'' @ [CHR 0x0A] @ ''Each is one solid color at '' @ show_u8 PROBE_PERCENT @
    ''% brightness, laid out at '' @ show_u16 (lp_width panel) @ ''x'' @ show_u16 (lp_height panel) @ '' in '' @
    lp_pixel_format panel @ ''.'' @ [CHR 0x0A] @
    ''Nothing else is sent: no orientation change, no image, no animation.'' @ [CHR 0x0A] @
    ''Watch the panel while this runs.''"

definition LCD_PRIOR_QUESTION :: string where
  "LCD_PRIOR_QUESTION = ''What is the panel showing right now? (free text)''"

definition panel_text :: "lcd_panel \<Rightarrow> string" where
  "panel_text panel = show_u16 (lp_width panel) @ ''x'' @ show_u16 (lp_height panel) @ '' '' @
    lp_pixel_format panel @ '' '' @ (case lp_shape panel of Circular \<Rightarrow> ''circular'' | Square \<Rightarrow> ''square'')"

definition lcd_probe_run :: "lcd_probe_env \<Rightarrow> lcd_link \<Rightarrow> lcd_topology \<Rightarrow> world \<Rightarrow>
    (lcd_refusal + lcd_probe_report) \<times> world" where
  "lcd_probe_run pb l t w = (case ev_value (lt_panel t) of
      None \<Rightarrow> (Inl NoGeometry, w)
    | Some panel \<Rightarrow>
        if \<not> lcd_answered t
        then (Inl (NoPanel (case ev_reason (lt_display t) of
            Some reason \<Rightarrow> reason | None \<Rightarrow> ''no reason was recorded'')), w)
        else
          (let version = (case ev_value (lt_firmware t) of Some v \<Rightarrow> v | None \<Rightarrow> ''unknown'');
               w = operator_note (lcd_briefing version panel) w;
               (prior, w) = terminal_ask (pb_terminal pb) LCD_PRIOR_QUESTION w;
               (granted, w) = authorized (pb_terminal pb) w
           in if \<not> granted then (Inl LcdNotAuthorized, w)
              else
                (let (steps, w) = lcd_color_steps pb l panel PROBE_COLORS w;
                     (restoration, w) = lcd_restore pb l panel prior w
                 in (Inr \<lparr>lpr_firmware = version, lpr_panel = panel_text panel, lpr_transport = link_source l,
                       lpr_prior_state = prior, lpr_steps = steps, lpr_restoration = restoration\<rparr>, w))))"

section \<open>What reaches the panel\<close>

text \<open>The two parts of one frame on the wire: the brightness, then the whole transfer.\<close>

definition probe_frame_plan :: "lcd_probe_env \<Rightarrow> lcd_panel \<Rightarrow> display_preset \<Rightarrow> wire_item list" where
  "probe_frame_plan pb panel p = (case probe_frame pb p panel of
      Inl _ \<Rightarrow> []
    | Inr frame \<Rightarrow> WireHid (display_control (dp_brightness p) Deg0) # one_sequence frame @ one_sequence frame)"

text \<open>A list of plans performed one after the other, each completely or up to its first failure. \<open>oks\<close> are
  the ones that are said to have gone out.\<close>

definition sends_each :: "world \<Rightarrow> wire_item list list \<Rightarrow> bool list \<Rightarrow> world \<Rightarrow> bool" where
  "sends_each w plans oks w' = (\<exists>es ns. extends w es w' \<and> length ns = length plans \<and>
    wire es = concat (map2 take ns plans) \<and> list_all2 (\<lambda>ok (n, plan). ok \<longrightarrow> n = length plan) oks (zip ns plans))"

lemma sends_each_nil: "sends_each w [] [] w"
  unfolding sends_each_def by (intro exI [of _ "[]"]) simp

lemma sends_each_cons:
  assumes "sends w plan ok v" "sends_each v plans oks u"
  shows "sends_each w (plan # plans) (ok # oks) u"
proof -
  obtain es n where e: "extends w es v" "wire es = take n plan" "ok \<longrightarrow> n = length plan"
    using assms(1) by (auto simp: sends_def)
  obtain fs ns where f: "extends v fs u" "length ns = length plans" "wire fs = concat (map2 take ns plans)"
    "list_all2 (\<lambda>ok (n, plan). ok \<longrightarrow> n = length plan) oks (zip ns plans)"
    using assms(2) by (auto simp: sends_each_def)
  show ?thesis unfolding sends_each_def
    by (intro exI [of _ "es @ fs"] exI [of _ "n # ns"]) (use e f extends_trans [OF e(1) f(1)] in simp)
qed

lemma sends_note: "sends w [] True (operator_note m w)"
  unfolding sends_def operator_note_def by (intro exI [of _ "[Noted m]"] exI [of _ 0]) simp

lemma sends_weaken: "sends w p True w' \<Longrightarrow> sends w p ok w'"
  unfolding sends_def by blast

lemma sends_ask: "terminal_ask te q w = (a, w') \<Longrightarrow> sends w [] True w'"
  unfolding sends_def by (intro exI [of _ "[Asked q a]"] exI [of _ 0]) (simp add: extends_ask)

lemma sends_after: "\<lbrakk>sends w p ok v; sends v [] True u\<rbrakk> \<Longrightarrow> sends w p ok u"
  unfolding sends_def by (metis extends_trans wire_append take_Nil append_Nil2)

lemma sends_send_frame:
  "sends w (one_sequence frame @ one_sequence frame) (is_ok (fst (send_frame l frame w))) (snd (send_frame l frame w))"
proof (cases "length frame = FRAME_BYTES")
  case False
  then show ?thesis unfolding sends_def send_frame_def by (intro exI [of _ "[]"] exI [of _ 0]) simp
next
  case True
  have "concat (replicate 2 (one_sequence frame)) = one_sequence frame @ one_sequence frame"
    by (simp add: numeral_eq_Suc)
  then show ?thesis using True sends_sequences [of w 2 frame l 0]
    by (auto simp: send_frame_def SEQUENCES_PER_FRAME_def split_beta Let_def split: sum.split)
qed

lemma sends_display_control:
  "sends w [WireHid (display_control b Deg0)] (is_ok (fst (set_display l b w))) (snd (set_display l b w))"
  unfolding sends_def set_display_def write_report_def
  by (intro exI [of _ "[HidOut (display_control b Deg0) (is_ok (he_write (ll_hid l) (w_trace w) (display_control b Deg0)))]"]
      exI [of _ 1]) (auto simp: Let_def split: sum.split)

lemma sends_preset:
  "sends w (WireHid (display_control b Deg0) # one_sequence frame @ one_sequence frame)
    (is_ok (fst (send_preset l b frame w))) (snd (send_preset l b frame w))"
  using wire_plan.plan_bind [where k = "\<lambda>_. send_frame l frame", OF sends_display_control [of w b l] sends_send_frame]
  by (simp add: send_preset_def)

lemma send_frame_report:
  "send_frame l frame w = (Inr r, w') \<Longrightarrow> fr_start r = transfer_start \<and> fr_end r = transfer_end \<and>
    fr_sequences r = 2 \<and> fr_header r = bulk_header (word_of_nat FRAME_BYTES) \<and> fr_payload_bytes r = FRAME_BYTES"
  by (auto simp: send_frame_def SEQUENCES_PER_FRAME_def split_beta Let_def split: if_splits sum.splits)

lemma send_preset_report:
  "send_preset l b frame w = (Inr r, w') \<Longrightarrow> fr_start r = transfer_start \<and> fr_end r = transfer_end \<and>
    fr_sequences r = 2 \<and> fr_header r = bulk_header (word_of_nat FRAME_BYTES) \<and> fr_payload_bytes r = FRAME_BYTES"
  by (auto simp: send_preset_def or_return_def split: prod.splits sum.splits dest!: send_frame_report)

text \<open>A step that says it worked holds the frame's own start, header, length and end, and was looked at.\<close>

definition step_honest :: "lcd_step \<Rightarrow> bool" where
  "step_honest s = (if lcs_error s = None
    then lcs_transfer_start s = transfer_start \<and> lcs_bulk_header s = bulk_header (word_of_nat FRAME_BYTES) \<and>
      lcs_payload_bytes s = FRAME_BYTES \<and> lcs_transfer_end s = transfer_end \<and> lcs_sequences s = 2
    else lcs_observed s = [] \<and> lcs_sequences s = 0)"

lemma lcd_step_sends:
  assumes "lcd_send_step pb l p panel description question w = (s, w')"
  shows "sends w (probe_frame_plan pb panel p) (lcs_error s = None) w' \<and> step_honest s"
proof -
  let ?w = "operator_note (sending description) w"
  show ?thesis
  proof (cases "probe_frame pb p panel")
    case (Inl e)
    then have "lcs_error s \<noteq> None" "w' = ?w" "step_honest s"
      using assms by (auto simp: lcd_send_step_def failed_step_def step_honest_def)
    then show ?thesis using sends_weaken [OF sends_note] Inl by (simp add: probe_frame_plan_def)
  next
    case (Inr frame)
    obtain t0 w0 where t0: "instant_now (ll_clock l) ?w = (t0, w0)" by fastforce
    obtain r w1 where r: "send_preset l (dp_brightness p) frame w0 = (r, w1)" by fastforce
    obtain t2 w2 where t2: "instant_now (ll_clock l) w1 = (t2, w2)" by fastforce
    have b: "sends w [] True w0" using sends_seq [OF sends_note sends_instant [of ?w "ll_clock l"]] by (simp add: t0)
    have m: "sends w (probe_frame_plan pb panel p) (is_ok r) w2"
      using wire_plan.plan_quiet [OF b sends_preset [of w0 "dp_brightness p" frame l]]
        sends_after [OF _ sends_instant [of w1 "ll_clock l"]] by (simp add: probe_frame_plan_def Inr r t2)
    show ?thesis
    proof (cases r)
      case (Inl e)
      then have "lcs_error s \<noteq> None" "w' = w2" "step_honest s"
        using assms by (auto simp: lcd_send_step_def failed_step_def step_honest_def \<open>probe_frame pb p panel = Inr frame\<close> t0 r t2)
      then show ?thesis using m Inl by (cases "lcs_error s") simp_all
    next
      case (Inr report)
      obtain seen w3 where a: "terminal_ask (pb_terminal pb) question w2 = (seen, w3)" by fastforce
      have "lcs_error s = None" "w' = w3" "step_honest s"
        using assms send_preset_report [OF r [unfolded Inr]]
        by (auto simp: lcd_send_step_def step_honest_def \<open>probe_frame pb p panel = Inr frame\<close> t0 r t2 Inr a)
      then show ?thesis using sends_after [OF m sends_ask [OF a]] Inr by simp
    qed
  qed
qed

lemma lcd_color_steps_sends:
  assumes "lcd_color_steps pb l panel cs w = (ss, v)" "sends v plan ok w'"
  shows "sends_each w (map (\<lambda>(_, color). probe_frame_plan pb panel (probe_preset color)) cs @ [plan])
      (map (\<lambda>s. lcs_error s = None) ss @ [ok]) w' \<and> list_all step_honest ss \<and> length ss = length cs"
  using assms
proof (induction cs arbitrary: w ss)
  case Nil
  then show ?case using sends_each_cons [OF _ sends_each_nil] by simp
next
  case (Cons x cs)
  obtain name color where x: "x = (name, color)" by (cases x)
  obtain s w1 where a: "lcd_send_step pb l (probe_preset color) panel (color_description name) (color_question name) w = (s, w1)"
    by fastforce
  obtain ts w2 where b: "lcd_color_steps pb l panel cs w1 = (ts, w2)" by fastforce
  have e: "ss = s # ts" "v = w2" using Cons.prems by (simp_all add: x a b)
  show ?case using Cons.IH [OF b [folded e(2)] Cons.prems(2)] sends_each_cons [OF conjunct1 [OF lcd_step_sends [OF a]]]
      lcd_step_sends [OF a] by (simp add: e x)
qed

lemma lcd_restore_sends:
  assumes "lcd_restore pb l panel prior w = (x, w')"
  shows "\<exists>ok. sends w (probe_frame_plan pb panel default_infographic) ok w' \<and>
    (case x of LcdConfirmed seen \<Rightarrow> ok \<and> seen \<noteq> [] | LcdUnconfirmed _ \<Rightarrow> ok | LcdRestoreFailed _ \<Rightarrow> True)"
proof (cases "probe_frame pb default_infographic panel")
  case (Inl e)
  then show ?thesis using assms sends_note [of w RESTORING]
    by (intro exI [of _ True]) (auto simp: lcd_restore_def probe_frame_plan_def)
next
  case (Inr frame)
  let ?w = "operator_note RESTORING w"
  obtain r w1 where r: "send_preset l (dp_brightness default_infographic) frame ?w = (r, w1)" by fastforce
  have m: "sends w (probe_frame_plan pb panel default_infographic) (is_ok r) w1"
    using wire_plan.plan_quiet [OF sends_note sends_preset [of ?w "dp_brightness default_infographic" frame l]]
    by (simp add: probe_frame_plan_def Inr r)
  show ?thesis
  proof (cases r)
    case (Inl e)
    then show ?thesis using assms m by (auto simp: lcd_restore_def Inr r)
  next
    case (Inr report)
    obtain seen w2 where a: "terminal_ask (pb_terminal pb) (restored_question pb prior) w1 = (seen, w2)" by fastforce
    show ?thesis using assms sends_after [OF m sends_ask [OF a]]
      by (auto simp: lcd_restore_def \<open>probe_frame pb default_infographic panel = Inr frame\<close> r Inr a intro!: exI [of _ True])
  qed
qed

text \<open>The pixels of a solid field, as the panel is sent them.\<close>

lemma solid_frame:
  assumes "lp_width panel \<noteq> 0" "lp_height panel \<noteq> 0"
  shows "probe_frame pb (probe_preset color) panel =
    Inr (concat (replicate (unat (lp_width panel) * unat (lp_height panel))
      [ucast (drop_bit 8 (pack565 color)), ucast (pack565 color)]))"
proof -
  have "unat (ucast (lp_width panel) :: u32) = unat (lp_width panel)" "unat (ucast (lp_height panel) :: u32) = unat (lp_height panel)"
    by (simp_all add: unsigned_ucast_eq take_bit_nat_eq_self order_less_le_trans [OF unsigned_less])
  then show ?thesis using assms
    by (simp add: probe_frame_def render_def probe_preset_def solid_preset_def validate_preset_def layout_size_def
        from_canvas_def filled_def to_rgb565_be_def map_replicate_const uses_image_def Let_def)
qed


lemma lcd_probe_parts:
  "case lcd_probe_run pb l t w of
     (Inl e, w') \<Rightarrow> \<exists>es. extends w es w' \<and> list_all talk es
   | (Inr rep, w') \<Rightarrow> \<exists>panel version w1 ok. ev_value (lt_panel t) = Some panel \<and> lcd_answered t \<and>
       extends w [Noted (lcd_briefing version panel), Asked LCD_PRIOR_QUESTION (lpr_prior_state rep),
         Asked AUTHORIZE CONFIRMATION_PHRASE] w1 \<and>
       sends_each w1 (map (\<lambda>(_, color). probe_frame_plan pb panel (probe_preset color)) PROBE_COLORS @
           [probe_frame_plan pb panel default_infographic])
         (map (\<lambda>s. lcs_error s = None) (lpr_steps rep) @ [ok]) w' \<and>
       length (lpr_steps rep) = length PROBE_COLORS \<and> list_all step_honest (lpr_steps rep) \<and>
       (case lpr_restoration rep of LcdConfirmed seen \<Rightarrow> ok \<and> seen \<noteq> [] | LcdUnconfirmed _ \<Rightarrow> ok
        | LcdRestoreFailed _ \<Rightarrow> True)"
proof (cases "ev_value (lt_panel t)")
  case None
  then show ?thesis by (auto simp: lcd_probe_run_def intro!: exI [of _ "[]"])
next
  case (Some panel)
  let ?version = "case ev_value (lt_firmware t) of Some v \<Rightarrow> v | None \<Rightarrow> ''unknown''"
  let ?w = "operator_note (lcd_briefing ?version panel) w"
  obtain prior w0 where p: "terminal_ask (pb_terminal pb) LCD_PRIOR_QUESTION ?w = (prior, w0)" by fastforce
  obtain granted w1 where g: "authorized (pb_terminal pb) w0 = (granted, w1)" by fastforce
  obtain a where a: "extends w0 [Asked AUTHORIZE a] w1" "granted \<longleftrightarrow> a = CONFIRMATION_PHRASE"
    using g by (auto simp: authorized_def split_beta intro: extends_ask prod.collapse [symmetric])
  have "extends w [Noted (lcd_briefing ?version panel)] ?w" by (simp add: operator_note_def)
  from extends_trans [OF extends_trans [OF this extends_ask [OF p]] a(1)]
  have start: "extends w [Noted (lcd_briefing ?version panel), Asked LCD_PRIOR_QUESTION prior, Asked AUTHORIZE a] w1" by simp
  show ?thesis
  proof (cases "lcd_answered t \<and> granted")
    case False
    then show ?thesis using start by (auto simp: lcd_probe_run_def Some p g Let_def intro: exI [of _ "[]"])
  next
    case True
    obtain ss w2 where s: "lcd_color_steps pb l panel PROBE_COLORS w1 = (ss, w2)" by fastforce
    obtain x w3 where x: "lcd_restore pb l panel prior w2 = (x, w3)" by fastforce
    obtain ok where ok: "sends w2 (probe_frame_plan pb panel default_infographic) ok w3"
      "case x of LcdConfirmed seen \<Rightarrow> ok \<and> seen \<noteq> [] | LcdUnconfirmed _ \<Rightarrow> ok | LcdRestoreFailed _ \<Rightarrow> True"
      using lcd_restore_sends [OF x] by blast
    have run: "lcd_probe_run pb l t w = (Inr \<lparr>lpr_firmware = ?version, lpr_panel = panel_text panel,
        lpr_transport = link_source l, lpr_prior_state = prior, lpr_steps = ss, lpr_restoration = x\<rparr>, w3)"
      using True by (simp add: lcd_probe_run_def Some p g s x Let_def)
    show ?thesis using lcd_color_steps_sends [OF s ok(1)] ok(2) start a(2) True Some
      unfolding run by (simp only: prod.case sum.case lcd_probe_report.select_convs) blast
  qed
qed

section \<open>Properties\<close>


end
