(* ===== verification/Command_Line.thy ===== *)
theory Command_Line
  imports Server_Safety Lcd_Probe
begin

text \<open>
  \<open>crates/daemon/src/main.rs\<close>: what the process does with its arguments. A record is probed and printed, a
  write probe runs under the lock of its device, and without arguments the daemon takes the instance lock
  and the socket, starts and serves. Whether the process is root, what the JSON encoder answers and whether
  the signal handler can be installed are the environment's. A server that stands is returned with the world
  it starts in; \<open>Server.run_server\<close> says what it does from there.
\<close>

record cli_env =
  cl_start :: start_env
  cl_server :: server_env
  cl_probe :: lcd_probe_env
  cl_vars :: variables
  cl_root :: bool
  cl_signals :: "string option"
  cl_json_record :: "capability_record \<Rightarrow> string + string"
  cl_json_rgb :: "rgb_probe_report \<Rightarrow> string + string"
  cl_json_lcd :: "lcd_probe_report \<Rightarrow> string + string"

definition usage_lines :: "string list" where
  "usage_lines =
    [''Usage: korid [OPTIONS]'',
     [],
     ''Options:'',
     ''  --capabilities     Print the versioned capability record as JSON and exit.'',
     ''                     Read-only: no socket is opened and no device is written.'',
     ''  --rgb-probe        The same record, with the RGB controller'' @ [CHR 0x27] @ ''s topology read'',
     ''                     from the device. Asks the controller what it is; sends no'',
     ''                     color, no mode and no parameter, so it changes nothing.'',
     ''  --rgb-write-probe  Sends lighting commands this product has not validated on'',
     ''                     this firmware, one channel at a time, and refuses to start'',
     ''                     without a typed confirmation. Prints the evidence record as'',
     ''                     JSON on stdout.'',
     ''      --with-effects   Also test the two animated candidates.'',
     ''      --sweep-effects  Instead, sweep every effect speed and direction the'',
     ''                       Lighting screen can select, on the first channel only.'',
     ''                       This is what evidences the selectable values.'',
     ''      --restore HEX    Leave every channel on this color instead of off.'',
     ''  --probe            The capability record with both devices asked what they'',
     ''                     are. This is what re-records docs/capability-record.json,'',
     ''                     because both topologies belong in it. Read-only: every'',
     ''                     report it sends is a query.'',
     ''  --lcd-probe        The same, for the Kraken'' @ [CHR 0x27] @ ''s panel alone. Sends two query reports that carry no picture, no'',
     ''                     brightness and no orientation, so it changes nothing. A'',
     ''                     device with no panel answers the second one not at all,'',
     ''                     which is how this tells the two apart.'',
     ''  --lcd-write-probe  Sends solid frames this product has not validated on this'',
     ''                     firmware, one color at a time, and refuses to start'',
     ''                     without a typed confirmation. Prints the evidence record'',
     ''                     as JSON on stdout.'',
     ''  --version          Print the version and exit.'',
     ''  --help             Print this message.'']"

definition USAGE :: string where
  "USAGE = concat (map (\<lambda>l. l @ [CHR 0x0A]) usage_lines)"

definition unknown_argument :: "string \<Rightarrow> string" where
  "unknown_argument a = ''unknown argument '' @ a @ [CHR 0x0A, CHR 0x0A] @ USAGE"

section \<open>What every command shares\<close>

definition refuse_root :: "cli_env \<Rightarrow> string + unit" where
  "refuse_root cl = (if cl_root cl
    then Inl ''refusing to run as root. Install the udev rule and run this as your own user.'' else Inr ())"

definition emit_json :: "('a \<Rightarrow> string + string) \<Rightarrow> 'a \<Rightarrow> string \<Rightarrow> world \<Rightarrow> (string + unit) \<times> world" where
  "emit_json encode v what w = (case encode v of
      Inl e \<Rightarrow> (Inl (''could not encode the '' @ what @ '': '' @ e), w)
    | Inr json \<Rightarrow> (Inr (), print_line json w))"

definition machine_record :: "cli_env \<Rightarrow> world \<Rightarrow> capability_record \<times> world" where
  "machine_record cl w = (let se = cl_start cl; en = se_daemon se in
    probe \<lparr>pe_attr = en_attr en, pe_access = se_access se, pe_clock = en_clock en, pe_release = se_release se\<rparr>
      (sysfs_root_from_env (cl_vars cl)) w)"

section \<open>The capability record\<close>

record asked =
  ak_rgb :: bool
  ak_lcd :: bool

definition ASK_NEITHER :: asked where "ASK_NEITHER = \<lparr>ak_rgb = False, ak_lcd = False\<rparr>"
definition ASK_RGB :: asked where "ASK_RGB = \<lparr>ak_rgb = True, ak_lcd = False\<rparr>"
definition ASK_LCD :: asked where "ASK_LCD = \<lparr>ak_rgb = False, ak_lcd = True\<rparr>"
definition ASK_BOTH :: asked where "ASK_BOTH = \<lparr>ak_rgb = True, ak_lcd = True\<rparr>"

definition asked_record :: "cli_env \<Rightarrow> asked \<Rightarrow> world \<Rightarrow> capability_record \<times> world" where
  "asked_record cl a w =
    (let (r, w) = machine_record cl w;
         (r, w) = (if ak_rgb a then (let (_, _, r, w) = ask_rgb (cl_start cl) r w in (r, w)) else (r, w))
     in if ak_lcd a then (let (_, _, r, w) = ask_lcd (cl_start cl) r w in (r, w)) else (r, w))"

definition print_capability_record :: "cli_env \<Rightarrow> asked \<Rightarrow> world \<Rightarrow> (string + unit) \<times> world" where
  "print_capability_record cl a w = (let (r, w) = asked_record cl a w in
    emit_json (cl_json_record cl) (redact_serials r) ''capability record'' w)"

section \<open>The write probes\<close>

definition under_device_lock :: "cli_env \<Rightarrow> ('r \<Rightarrow> string + string) \<Rightarrow> device_id \<Rightarrow>
    (string \<Rightarrow> world \<Rightarrow> (string + 'r) \<times> world) \<Rightarrow> world \<Rightarrow> (string + unit) \<times> world" where
  "under_device_lock cl encode device run w = or_return (refuse_root cl, w) (\<lambda>_ w.
    (let (r, w) = machine_record cl w; paths = paths_from_env (cl_vars cl) in
     case device_path r device of
       None \<Rightarrow> (Inl (device_id_display device @ '' is not connected to this machine''), w)
     | Some sysfs_path \<Rightarrow>
         (case paths_ensure (en_fs (se_daemon (cl_start cl))) paths w of
            (Inl e, w) \<Rightarrow> (Inl (''could not prepare '' @ pt_runtime_dir paths @ '': '' @ io_display e), w)
          | (Inr _, w) \<Rightarrow> (case acquire (se_locks (cl_start cl)) paths device w of
              (Inl c, w) \<Rightarrow> (Inl (''another process owns '' @ device_id_display device @ '' ('' @ oc_detail c @
                ''). Stop korid and try again.''), w)
            | (Inr _, w) \<Rightarrow> or_return (run sysfs_path w) (\<lambda>v w. emit_json encode v ''probe record'' w)))))"

fun parse_rgb_arguments :: "string list \<Rightarrow> probe_scope \<Rightarrow> lighting_program \<Rightarrow>
    string + probe_scope \<times> lighting_program" where
  "parse_rgb_arguments [] scope restore_to = Inr (scope, restore_to)"
| "parse_rgb_arguments (a # rest) scope restore_to =
    (if a = ''--with-effects'' then parse_rgb_arguments rest WithEffects restore_to
     else if a = ''--sweep-effects'' then parse_rgb_arguments rest EffectSweep restore_to
     else if a = ''--restore'' then
       (case rest of
          [] \<Rightarrow> Inl ''--restore needs a six-digit color''
        | value # rest' \<Rightarrow> and_then (map_err lighting_error_display (parse_hex value)) (\<lambda>color.
            and_then (map_err lighting_error_display (brightness_new 60)) (\<lambda>b.
              parse_rgb_arguments rest' scope (LightFixed color b))))
     else Inl (unknown_argument a))"

definition parse_rgb_probe_arguments :: "string list \<Rightarrow> string + probe_scope \<times> lighting_program" where
  "parse_rgb_probe_arguments arguments = parse_rgb_arguments arguments FixedAndOff LightOff"

definition rgb_probe_under_lock :: "cli_env \<Rightarrow> probe_scope \<Rightarrow> lighting_program \<Rightarrow> string \<Rightarrow> world \<Rightarrow>
    (string + rgb_probe_report) \<times> world" where
  "rgb_probe_under_lock cl scope restore_to sysfs_path w =
    (let en = se_daemon (cl_start cl); (node, w) = hidraw_node (en_attr en) sysfs_path w;
         (t, link, w) = rgb_connect (se_nodes (cl_start cl)) node w
     in case link of
          None \<Rightarrow> (Inl (''the controller did not answer: '' @ (case ev_reason (rt_channels t) of
              Some reason \<Rightarrow> reason | None \<Rightarrow> ''no reason was recorded'')), w)
        | Some h \<Rightarrow> (let (r, w) = rgb_probe_run (pb_terminal (cl_probe cl)) (en_clock en) h t scope restore_to w
            in (map_err rgb_refusal_display r, w)))"

definition rgb_write_probe :: "cli_env \<Rightarrow> string list \<Rightarrow> world \<Rightarrow> (string + unit) \<times> world" where
  "rgb_write_probe cl arguments w = or_return (parse_rgb_probe_arguments arguments, w) (\<lambda>(scope, restore_to) w.
    under_device_lock cl (cl_json_rgb cl) RGB_CONTROLLER (rgb_probe_under_lock cl scope restore_to) w)"

definition lcd_probe_under_lock :: "cli_env \<Rightarrow> string \<Rightarrow> world \<Rightarrow> (string + lcd_probe_report) \<times> world" where
  "lcd_probe_under_lock cl sysfs_path w =
    (let en = se_daemon (cl_start cl); (node, w) = hidraw_node (en_attr en) sysfs_path w;
         (t, link, w) = lcd_connect (en_attr en) (se_access (cl_start cl)) (se_nodes (cl_start cl)) (Some sysfs_path) node w
     in case link of
          None \<Rightarrow> (Inl (''the panel is not reachable: '' @ (case ev_reason (lt_display t) of
              Some reason \<Rightarrow> reason
            | None \<Rightarrow> (case ev_reason (lt_bulk_node t) of
                Some reason \<Rightarrow> reason
              | None \<Rightarrow> (case ev_reason (lt_hid_node t) of
                  Some reason \<Rightarrow> reason | None \<Rightarrow> ''no reason was recorded'')))), w)
        | Some l \<Rightarrow> (let (r, w) = lcd_probe_run (cl_probe cl) l t w in (map_err lcd_refusal_display r, w)))"

definition lcd_write_probe :: "cli_env \<Rightarrow> world \<Rightarrow> (string + unit) \<times> world" where
  "lcd_write_probe cl w = under_device_lock cl (cl_json_lcd cl) KRAKEN_BASE (lcd_probe_under_lock cl) w"

section \<open>Serving\<close>

definition show_bool :: "bool \<Rightarrow> string" where
  "show_bool b = (if b then ''true'' else ''false'')"

definition banner :: "daemon_env \<Rightarrow> daemon \<Rightarrow> world \<Rightarrow> world" where
  "banner en d w =
    (let s = status en d; locked = length (dn_locks d);
         w = print_line (''korid '' @ en_version en @ '' listening on '' @ dm_socket_path s @ '', holding '' @
           show_nat locked @ '' device lock'' @ (if locked = 1 then [] else ''s'')) w;
         w = fold (\<lambda>v. print_line (''  '' @ device_id_display (ds_id v) @ '' owned='' @ show_bool (ds_owned v) @
           '' writable='' @ show_nat (length (ds_writable v)))) (dm_devices s) w
     in case recovery_message (dm_config s) of
          None \<Rightarrow> w
        | Some message \<Rightarrow> operator_note (''  '' @ message) w)"

definition serve_started :: "cli_env \<Rightarrow> ((io_error + daemon) \<times> world) option \<Rightarrow> ((string + server) \<times> world) option" where
  "serve_started cl started = (case started of
      None \<Rightarrow> None
    | Some (Inl e, w) \<Rightarrow> Some (Inl (''could not start: '' @ io_display e), w)
    | Some (Inr d, w) \<Rightarrow>
        (let en = se_daemon (cl_start cl); w = banner en d w in
         case cl_signals cl of
           Some e \<Rightarrow> Some (Inl (''could not install the signal handler: '' @ e), w)
         | None \<Rightarrow> (let (s, w) = attach ((cl_server cl)\<lparr>sv_daemon := en\<rparr>) d w in Some (Inr s, w))))"

definition serve_from :: "cli_env \<Rightarrow> daemon_paths \<Rightarrow> world \<Rightarrow> ((string + server) \<times> world) option" where
  "serve_from cl paths w = serve_started cl
    (start_with (cl_start cl) paths (sysfs_root_from_env (cl_vars cl)) RgbHidraw LcdNodes w)"

definition serve :: "cli_env \<Rightarrow> world \<Rightarrow> ((string + server) \<times> world) option" where
  "serve cl w = (case refuse_root cl of
      Inl e \<Rightarrow> Some (Inl e, w)
    | Inr _ \<Rightarrow>
        (let paths = paths_from_env (cl_vars cl); fs = en_fs (se_daemon (cl_start cl)) in
         case paths_ensure fs paths w of
           (Inl e, w) \<Rightarrow> Some (Inl (''could not create '' @ pt_runtime_dir paths @ '': '' @ io_display e), w)
         | (Inr _, w) \<Rightarrow> (case acquire_instance (se_locks (cl_start cl)) paths w of
             (Inl c, w) \<Rightarrow> Some (Inl (''could not start: '' @ oc_detail c), w)
           | (Inr _, w) \<Rightarrow> (case bind_socket fs (pt_socket paths) w of
               (Inl e, w) \<Rightarrow> Some (Inl (''could not bind '' @ pt_socket paths @ '': '' @ io_display e), w)
             | (Inr _, w) \<Rightarrow> serve_from cl paths w))))"

section \<open>The entry point\<close>

definition exits :: "(string + unit) \<times> world \<Rightarrow> ((string + server option) \<times> world) option" where
  "exits m = (case m of (Inl e, w) \<Rightarrow> Some (Inl e, w) | (Inr _, w) \<Rightarrow> Some (Inr None, w))"

definition korid_run :: "cli_env \<Rightarrow> string list \<Rightarrow> world \<Rightarrow> ((string + server option) \<times> world) option" where
  "korid_run cl arguments w = (case arguments of
      [] \<Rightarrow> map_option (\<lambda>(r, w). (case r of Inl e \<Rightarrow> Inl e | Inr s \<Rightarrow> Inr (Some s), w)) (serve cl w)
    | a # rest \<Rightarrow>
        if a = ''--capabilities'' then exits (print_capability_record cl ASK_NEITHER w)
        else if a = ''--rgb-probe'' then exits (print_capability_record cl ASK_RGB w)
        else if a = ''--lcd-probe'' then exits (print_capability_record cl ASK_LCD w)
        else if a = ''--probe'' then exits (print_capability_record cl ASK_BOTH w)
        else if a = ''--rgb-write-probe'' then exits (rgb_write_probe cl rest w)
        else if a = ''--lcd-write-probe'' then exits (lcd_write_probe cl w)
        else if a = ''--version'' then Some (Inr None, print_line (''korid '' @ en_version (se_daemon (cl_start cl))) w)
        else if a = ''--help'' \<or> a = ''-h'' then Some (Inr None, push_event (Printed USAGE) w)
        else Some (Inl (unknown_argument a), w))"

text \<open>Whether the process exits with success once a server it serves has ended.\<close>

definition korid_main :: "cli_env \<Rightarrow> string list \<Rightarrow> world \<Rightarrow> (bool \<times> server option \<times> world) option" where
  "korid_main cl arguments w = (case korid_run cl arguments w of
      None \<Rightarrow> None
    | Some (Inr s, w) \<Rightarrow> Some (True, s, w)
    | Some (Inl message, w) \<Rightarrow> Some (False, None, operator_note (''korid: '' @ message) w))"

section \<open>Only questions, and no serial\<close>

lemma silent_machine_record: "silent w (snd (machine_record cl w))"
  by (simp add: machine_record_def Let_def silent_probe)

lemma asks_ask_rgb: "asks 2 w (snd (snd (snd (ask_rgb se r w))))"
  using asks_then [OF silent_asks [OF silent_probe_hidraw_node] asks_rgb_connect]
  by (simp add: ask_rgb_def split_beta Let_def)

lemma asks_ask_lcd: "asks 2 w (snd (snd (snd (ask_lcd se r w))))"
proof -
  have "asks 2 w (snd (snd (lcd_connect env ax nd d (fst (hidraw_node env' p w)) (snd (hidraw_node env' p w)))))"
    for env ax nd d env' p
    by (rule asks_then [OF silent_asks [OF silent_hidraw_node] asks_lcd_connect])
  then show ?thesis using asks_lcd_connect
    by (auto simp: ask_lcd_def split_beta Let_def split: option.split)
qed

lemma asks_asked_record:
  "asks ((if ak_rgb a then 2 else 0) + (if ak_lcd a then 2 else 0)) w (snd (asked_record cl a w))"
proof -
  obtain r w1 where m: "machine_record cl w = (r, w1)" by fastforce
  have s: "asks 0 w w1" using silent_asks [OF silent_machine_record [of w cl]] by (simp add: m)
  obtain cs lk r2 w2 where x: "ask_rgb (cl_start cl) r w1 = (cs, lk, r2, w2)" by (metis prod.exhaust_sel)
  have a: "asks 2 w w2" using asks_then [OF s asks_ask_rgb [of w1 "cl_start cl" r]] by (simp add: x)
  show ?thesis
    using s a asks_then [OF s asks_ask_lcd [of w1 "cl_start cl" r]] asks_trans [OF a asks_ask_lcd [of w2 "cl_start cl" r2]]
    by (cases "ak_rgb a"; cases "ak_lcd a")
      (simp_all add: asked_record_def m x split_beta Let_def del: add_2_eq_Suc add_2_eq_Suc')
qed

text \<open>Printing the capability record only asks, and prints no serial number. Whatever is asked for, the
  process writes no attribute, moves no bulk data and sends at most the two questions of each device asked,
  none where none is; and what reaches the encoder is a record without any device's serial.\<close>

theorem record_is_asked_and_redacted:
  "\<exists>r v. asks ((if ak_rgb a then 2 else 0) + (if ak_lcd a then 2 else 0)) w v \<and>
     list_all (\<lambda>d. ev_value (usb_serial (dr_usb d)) = None) (cr_devices r) \<and>
     print_capability_record cl a w = (case cl_json_record cl r of
         Inl e \<Rightarrow> (Inl (''could not encode the capability record: '' @ e), v)
       | Inr json \<Rightarrow> (Inr (), print_line json v))"
proof -
  obtain r v where x: "asked_record cl a w = (r, v)" by fastforce
  show ?thesis
    using asks_asked_record [of a w cl] redact_serials_hides [of _ r]
    by (intro exI [of _ "redact_serials r"] exI [of _ v])
      (auto simp: x print_capability_record_def emit_json_def list_all_iff split: sum.split)
qed

section \<open>A write probe runs under the lock, after the phrase\<close>

text \<open>Up to \<open>u\<close> nothing is sent; what follows needs the lock; up to \<open>v\<close> only two questions are; what follows
  needs the typed phrase.\<close>

definition guarded :: "string \<Rightarrow> world \<Rightarrow> world \<Rightarrow> bool" where
  "guarded lock w w' = (\<exists>u v es1 es2 es3. extends w es1 u \<and> asks 0 w u \<and> extends u es2 v \<and> asks 2 u v \<and>
    extends v es3 w' \<and> (es2 @ es3 = [] \<or> LockTake lock True \<in> set es1) \<and>
    (es3 = [] \<or> Asked AUTHORIZE CONFIRMATION_PHRASE \<in> set es2))"

lemma guarded_early: "asks 0 w w' \<Longrightarrow> guarded lock w w'"
  unfolding guarded_def by (metis asks_def asks_refl append_Nil extends_refl)

text \<open>The contract of what runs under a lock: it asks at most two questions until the phrase is typed, and
  neither does more nor returns a record without it.\<close>

locale consented_run =
  fixes run :: "string \<Rightarrow> world \<Rightarrow> (string + 'r) \<times> world"
  assumes consents: "run p w = (r, w') \<Longrightarrow> \<exists>v es2 es3. extends w es2 v \<and> asks 2 w v \<and> extends v es3 w' \<and>
    (if is_ok r \<or> es3 \<noteq> [] then Asked AUTHORIZE CONFIRMATION_PHRASE \<in> set es2 else True)"
begin

lemma guarded_after_lock:
  assumes "asks 0 w u" "extends w es1 u" "LockTake lock True \<in> set es1"
  shows "guarded lock w (snd (or_return (run p u) (\<lambda>v w. emit_json encode v what w)))"
proof -
  obtain r w' where r: "run p u = (r, w')" by fastforce
  obtain v es2 es3 where x: "extends u es2 v" "asks 2 u v" "extends v es3 w'"
    "if is_ok r \<or> es3 \<noteq> [] then Asked AUTHORIZE CONFIRMATION_PHRASE \<in> set es2 else True"
    using consents [OF r] by blast
  have g: "guarded lock w w'"
    unfolding guarded_def using assms x by (intro exI [of _ u] exI [of _ v] exI [of _ es1] exI [of _ es2] exI [of _ es3])
      (auto split: if_splits)
  show ?thesis
  proof (cases r)
    case (Inl e)
    then show ?thesis using g by (simp add: r)
  next
    case (Inr a)
    have "guarded lock w (print_line s w')" for s
      unfolding guarded_def using assms x Inr extends_trans [OF x(3), of "[Printed (s @ [CHR 0x0A])]" "print_line s w'"]
      by (intro exI [of _ u] exI [of _ v] exI [of _ es1] exI [of _ es2] exI [of _ "es3 @ [Printed (s @ [CHR 0x0A])]"])
        (auto simp: print_line_def)
    then show ?thesis using g by (auto simp: r Inr emit_json_def split: sum.split)
  qed
qed

end

lemma lock_taken:
  "lock_exclusive lk path device w = (Inr (), w') \<Longrightarrow> \<exists>es. extends w es w' \<and> LockTake path True \<in> set es"
  by (auto simp: lock_exclusive_def Let_def split_beta extends_def push_event_def split: option.splits
      intro!: exI [of _ "[NodeOpen path True, LockTake path True]"])

text \<open>What a run of the two probes leaves, in the terms of that contract.\<close>

lemma extends_of_probes: "probes d w rs bs w' \<Longrightarrow> \<exists>es. extends w es w'"
  by (auto simp: probes_def)

lemma extends_of_sends_each: "sends_each w plans oks w' \<Longrightarrow> \<exists>es. extends w es w'"
  by (auto simp: sends_each_def)

lemma asks_talk: "extends w es w' \<Longrightarrow> list_all talk es \<Longrightarrow> asks n w w'"
proof -
  have "list_all talk es \<Longrightarrow> attr_writes es = [] \<and> reports_out es = [] \<and> bulk_out es = [] \<and> interfaces_claimed es = []"
    by (induction es) (auto simp: talk_def split: io_event.splits)
  then show "extends w es w' \<Longrightarrow> list_all talk es \<Longrightarrow> asks n w w'" by (auto simp: asks_def)
qed

text \<open>What both runs leave: talk, and more only when the phrase is in it.\<close>

definition consented :: "bool \<Rightarrow> world \<Rightarrow> world \<Rightarrow> bool" where
  "consented fine w w' = (\<exists>v es2 es3. extends w es2 v \<and> list_all talk es2 \<and> extends v es3 w' \<and>
    (if fine \<or> es3 \<noteq> [] then Asked AUTHORIZE CONFIRMATION_PHRASE \<in> set es2 else True))"

lemma rgb_probe_consents: "consented (is_ok (fst (rgb_probe_run te clock h t scope restore_to w))) w
    (snd (rgb_probe_run te clock h t scope restore_to w))"
proof -
  obtain r w' where run: "rgb_probe_run te clock h t scope restore_to w = (r, w')" by fastforce
  note parts = rgb_probe_parts [where te = te and clock = clock and h = h and t = t and scope = scope and restore_to = restore_to and w = w, unfolded run prod.case]
  show ?thesis
  proof (cases r)
    case (Inl e)
    then show ?thesis using parts unfolding run consented_def by (auto intro: extends_refl)
  next
    case (Inr rep)
    obtain w1 w2 w3 bs1 bs2 bs3 rs1 rs2 rs3 d1 d2 d3 where
      s: "extends w [Noted PROBE_WARNING, Noted (scope_description scope), Asked AUTHORIZE CONFIRMATION_PHRASE,
         Asked PRIOR_QUESTION (rpr_prior_state rep)] w1" and
      p: "probes d1 w1 rs1 bs1 w2" "probes d2 w2 rs2 bs2 w3" "probes d3 w3 rs3 bs3 w'"
      using parts unfolding Inr sum.case Let_def by blast
    obtain es1 es2 es3 where "extends w1 es1 w2" "extends w2 es2 w3" "extends w3 es3 w'"
      using p extends_of_probes by metis
    then have "extends w1 (es1 @ es2 @ es3) w'" by (metis extends_trans)
    then show ?thesis using s unfolding run Inr consented_def
      by (intro exI [of _ w1] exI [of _ "[Noted PROBE_WARNING, Noted (scope_description scope),
          Asked AUTHORIZE CONFIRMATION_PHRASE, Asked PRIOR_QUESTION (rpr_prior_state rep)]"] exI [of _ "es1 @ es2 @ es3"]) simp
  qed
qed

lemma lcd_probe_consents: "consented (is_ok (fst (lcd_probe_run pb l t w))) w (snd (lcd_probe_run pb l t w))"
proof -
  obtain r w' where run: "lcd_probe_run pb l t w = (r, w')" by fastforce
  note parts = lcd_probe_parts [where pb = pb and l = l and t = t and w = w, unfolded run prod.case]
  show ?thesis
  proof (cases r)
    case (Inl e)
    then show ?thesis using parts unfolding run consented_def by (auto intro: extends_refl)
  next
    case (Inr rep)
    obtain m w1 plans oks where
      s: "extends w [Noted m, Asked LCD_PRIOR_QUESTION (lpr_prior_state rep), Asked AUTHORIZE CONFIRMATION_PHRASE] w1" and
      p: "sends_each w1 plans oks w'"
      using parts unfolding Inr sum.case by blast
    obtain es where "extends w1 es w'" using extends_of_sends_each [OF p] by blast
    then show ?thesis using s unfolding run Inr consented_def
      by (intro exI [of _ w1] exI [of _ "[Noted m, Asked LCD_PRIOR_QUESTION (lpr_prior_state rep),
          Asked AUTHORIZE CONFIRMATION_PHRASE]"] exI [of _ es]) simp
  qed
qed

text \<open>The questions before, and such a run.\<close>

lemma consented_after:
  assumes "asks 2 w u" "consented fine u w'"
  shows "\<exists>v es2 es3. extends w es2 v \<and> asks 2 w v \<and> extends v es3 w' \<and>
    (if fine \<or> es3 \<noteq> [] then Asked AUTHORIZE CONFIRMATION_PHRASE \<in> set es2 else True)"
proof -
  obtain es where e: "extends w es u" using assms(1) by (auto simp: asks_def)
  obtain v es2 es3 where x: "extends u es2 v" "list_all talk es2" "extends v es3 w'"
    "if fine \<or> es3 \<noteq> [] then Asked AUTHORIZE CONFIRMATION_PHRASE \<in> set es2 else True"
    using assms(2) by (auto simp: consented_def)
  have "asks 2 w v" using asks_trans [OF assms(1) asks_talk [OF x(1,2), of 0]] by simp
  then show ?thesis using x extends_trans [OF e x(1)]
    by (intro exI [of _ v] exI [of _ "es @ es2"] exI [of _ es3]) (auto split: if_splits)
qed

lemma asked_only: "asks 2 w w' \<Longrightarrow> \<exists>v es2 es3. extends w es2 v \<and> asks 2 w v \<and> extends v es3 w' \<and>
    (if False \<or> es3 \<noteq> [] then Asked AUTHORIZE CONFIRMATION_PHRASE \<in> set es2 else True)"
  by (rule consented_after) (auto simp: consented_def intro!: exI [of _ "[]"])

interpretation rgb_run: consented_run "rgb_probe_under_lock cl scope restore_to"
proof
  fix p w r w'
  assume r: "rgb_probe_under_lock cl scope restore_to p w = (r, w')"
  obtain node w1 where n: "hidraw_node (en_attr (se_daemon (cl_start cl))) p w = (node, w1)" by fastforce
  obtain t link w2 where c: "rgb_connect (se_nodes (cl_start cl)) node w1 = (t, link, w2)" by (metis prod.exhaust_sel)
  have a: "asks 2 w w2"
    using asks_then [OF silent_asks [OF silent_hidraw_node [of w "en_attr (se_daemon (cl_start cl))" p]] asks_rgb_connect [of _ "se_nodes (cl_start cl)"]]
    by (metis n c snd_conv)
  show "\<exists>v es2 es3. extends w es2 v \<and> asks 2 w v \<and> extends v es3 w' \<and>
      (if is_ok r \<or> es3 \<noteq> [] then Asked AUTHORIZE CONFIRMATION_PHRASE \<in> set es2 else True)"
  proof (cases link)
    case None
    then have "\<not> is_ok r" "w' = w2" using r by (auto simp: rgb_probe_under_lock_def n c)
    then show ?thesis using asked_only [OF a] by simp
  next
    case (Some h)
    let ?te = "pb_terminal (cl_probe cl)" and ?clock = "en_clock (se_daemon (cl_start cl))"
    obtain x w3 where x: "rgb_probe_run ?te ?clock h t scope restore_to w2 = (x, w3)" by fastforce
    have e: "is_ok r = is_ok x" "w' = w3" using r by (auto simp: rgb_probe_under_lock_def n c Some x Let_def)
    show ?thesis unfolding e
      by (rule consented_after [OF a])
        (use rgb_probe_consents [of ?te ?clock h t scope restore_to w2] in \<open>simp add: x\<close>)
  qed
qed

interpretation lcd_run: consented_run "lcd_probe_under_lock cl"
proof
  fix p w r w'
  assume r: "lcd_probe_under_lock cl p w = (r, w')"
  let ?env = "en_attr (se_daemon (cl_start cl))"
  obtain node w1 where n: "hidraw_node ?env p w = (node, w1)" by fastforce
  obtain t link w2 where c: "lcd_connect ?env (se_access (cl_start cl)) (se_nodes (cl_start cl)) (Some p) node w1 = (t, link, w2)"
    by (metis prod.exhaust_sel)
  have a: "asks 2 w w2"
    using asks_then [OF silent_asks [OF silent_hidraw_node [of w ?env p]]
      asks_lcd_connect [of _ ?env "se_access (cl_start cl)" "se_nodes (cl_start cl)" "Some p"]]
    by (metis n c snd_conv)
  show "\<exists>v es2 es3. extends w es2 v \<and> asks 2 w v \<and> extends v es3 w' \<and>
      (if is_ok r \<or> es3 \<noteq> [] then Asked AUTHORIZE CONFIRMATION_PHRASE \<in> set es2 else True)"
  proof (cases link)
    case None
    then have "\<not> is_ok r" "w' = w2" using r by (auto simp: lcd_probe_under_lock_def n c)
    then show ?thesis using asked_only [OF a] by simp
  next
    case (Some l)
    obtain x w3 where x: "lcd_probe_run (cl_probe cl) l t w2 = (x, w3)" by fastforce
    have e: "is_ok r = is_ok x" "w' = w3" using r by (auto simp: lcd_probe_under_lock_def n c Some x)
    show ?thesis unfolding e
      by (rule consented_after [OF a]) (use lcd_probe_consents [of "cl_probe cl" l t w2] in \<open>simp add: x\<close>)
  qed
qed

text \<open>What comes before the lock.\<close>

lemma before_lock:
  assumes "machine_record cl w = (r, w0)" "paths_ensure fs paths w0 = (x, w1)"
  shows "asks 0 w w0" "asks 0 w w1"
  using silent_asks [OF silent_machine_record [of w cl]] asks_then [OF _ asks_ensure [of w0 fs paths]] assms
  by simp_all

context consented_run
begin

lemma guarded_under_lock:
  "guarded (device_lock (paths_from_env (cl_vars cl)) device) w (snd (under_device_lock cl encode device run w))"
proof (cases "cl_root cl")
  case True
  then show ?thesis by (simp add: under_device_lock_def refuse_root_def guarded_early)
next
  case False
  let ?paths = "paths_from_env (cl_vars cl)" and ?fs = "en_fs (se_daemon (cl_start cl))"
  obtain r w0 where m: "machine_record cl w = (r, w0)" by fastforce
  obtain x w1 where e: "paths_ensure ?fs ?paths w0 = (x, w1)" by fastforce
  obtain y w2 where l: "acquire (se_locks (cl_start cl)) ?paths device w1 = (y, w2)" by fastforce
  note b = before_lock [OF m e]
  have a: "asks 0 w w2" using asks_then [OF b(2) asks_lock] l by (metis acquire_def snd_conv)
  have taken: "\<exists>es. extends w es w2 \<and> LockTake (device_lock ?paths device) True \<in> set es" if "y = Inr u" for u
  proof -
    have "lock_exclusive (se_locks (cl_start cl)) (device_lock ?paths device) (Some device) w1 = (Inr (), w2)"
      using l that by (simp add: acquire_def)
    from lock_taken [OF this] obtain es where "extends w1 es w2" "LockTake (device_lock ?paths device) True \<in> set es" by blast
    moreover obtain fs where "extends w fs w1" using b(2) by (auto simp: asks_def)
    ultimately show ?thesis using extends_trans by (intro exI [of _ "fs @ es"]) auto
  qed
  have f: "guarded (device_lock ?paths device) w (snd (or_return (run p w2) (\<lambda>v w. emit_json encode v what w)))"
    if "y = Inr u" for p u what
    using taken [OF that] guarded_after_lock [OF a] by blast
  show ?thesis using False b a f
    by (cases "device_path r device"; cases x; cases y)
      (auto simp: under_device_lock_def refuse_root_def m e l guarded_early Let_def)
qed

end

text \<open>C15: A write probe never runs beside the daemon, and never without the operator. As root it does nothing.
  Otherwise, until the lock of its device is taken nothing is sent to any device; under the lock only two
  questions are, until the phrase was typed; and only after it anything else. A command line it does not
  understand does nothing at all.\<close>

theorem write_probes_hold_the_lock:
  "guarded (device_lock (paths_from_env (cl_vars cl)) RGB_CONTROLLER) w (snd (rgb_write_probe cl arguments w)) \<and>
   guarded (device_lock (paths_from_env (cl_vars cl)) KRAKEN_BASE) w (snd (lcd_write_probe cl w)) \<and>
   (case parse_rgb_probe_arguments arguments of Inl e \<Rightarrow> rgb_write_probe cl arguments w = (Inl e, w) | Inr _ \<Rightarrow> True) \<and>
   (if cl_root cl then snd (rgb_write_probe cl arguments w) = w \<and> snd (lcd_write_probe cl w) = w else True)"
proof (intro conjI)
  show "guarded (device_lock (paths_from_env (cl_vars cl)) RGB_CONTROLLER) w (snd (rgb_write_probe cl arguments w))"
    using rgb_run.guarded_under_lock
    by (cases "parse_rgb_probe_arguments arguments") (auto simp: rgb_write_probe_def guarded_early)
  show "guarded (device_lock (paths_from_env (cl_vars cl)) KRAKEN_BASE) w (snd (lcd_write_probe cl w))"
    unfolding lcd_write_probe_def by (rule lcd_run.guarded_under_lock)
qed (cases "parse_rgb_probe_arguments arguments"; auto simp: rgb_write_probe_def lcd_write_probe_def under_device_lock_def
    refuse_root_def)+

section \<open>One daemon\<close>

text \<open>A step that talks to no device: it makes directories, takes the one lock and binds the one socket.\<close>

definition apart :: "string \<Rightarrow> io_event \<Rightarrow> bool" where
  "apart lock e = (case e of
      HidOut _ _ \<Rightarrow> False | HidIn _ \<Rightarrow> False | BulkOut _ _ _ \<Rightarrow> False | AttrWrite _ _ _ \<Rightarrow> False
    | InterfaceClaim _ _ _ \<Rightarrow> False | NodeOpen p _ \<Rightarrow> p = lock | AttrRead p \<Rightarrow> p = lock | _ \<Rightarrow> True)"

definition prepares :: "string \<Rightarrow> io_event list \<Rightarrow> world \<Rightarrow> world \<Rightarrow> bool" where
  "prepares lock es w w' = (extends w es w' \<and> list_all (apart lock) es)"

lemma prepares_refl: "prepares lock [] w w"
  by (simp add: prepares_def)

lemma prepares_trans: "\<lbrakk>prepares lock es w v; prepares lock fs v u\<rbrakk> \<Longrightarrow> prepares lock (es @ fs) w u"
  by (auto simp: prepares_def intro: extends_trans)

lemma prepares_push: "apart lock e \<Longrightarrow> prepares lock [e] w (push_event e w)"
  by (simp add: prepares_def)

lemma prepares_do:
  assumes "fs_do fs k w = (r, w')" "\<And>ok. apart lock (k ok)"
  shows "prepares lock [k (is_ok r)] w w'"
  using assms by (auto simp: fs_do_def prepares_push split: option.splits)

lemma prepares_bind:
  assumes "\<exists>es. prepares lock es w (snd m)" "\<And>x. \<exists>es. prepares lock es (snd m) (snd (k x (snd m)))"
  shows "\<exists>es. prepares lock es w (snd (or_return m k))"
proof (cases m)
  case (Pair r v)
  show ?thesis
  proof (cases r)
    case (Inl e)
    then show ?thesis using assms(1) by (simp add: Pair)
  next
    case (Inr x)
    then show ?thesis using assms(1) assms(2) [of x] prepares_trans by (simp add: Pair) blast
  qed
qed

lemma prepares_ensure: "\<exists>es. prepares lock es w (snd (paths_ensure fs p w))"
proof -
  have d: "\<exists>es. prepares lock es w (snd (fs_do fs k w))" if "\<And>ok. apart lock (k ok)" for k w
    by (rule exI, rule prepares_do [OF prod.collapse [symmetric]], rule that)
  have k: "\<exists>es. prepares lock es w (snd (fs_do fs (MakeDirs q) w))" for q w
    by (rule d) (simp add: apart_def)
  have m: "\<exists>es. prepares lock es w (snd (fs_make_dirs fs q w))" for q w
  proof (cases "q = []")
    case True
    then show ?thesis by (intro exI [of _ "[]"]) (simp add: fs_make_dirs_def prepares_refl)
  qed (simp add: fs_make_dirs_def k)
  have f: "\<exists>es. prepares lock es w (snd (fs_do fs (FileMode q) w))" for q w
    by (rule d) (simp add: apart_def)
  have "\<exists>es. prepares lock es w (snd (create_private_dir fs q w))" for q w
    unfolding create_private_dir_def by (rule prepares_bind, rule m, rule f)
  then show ?thesis unfolding paths_ensure_def by (intro prepares_bind)
qed

lemma lock_prepares:
  assumes "lock_exclusive lk lock device w = (r, w')"
  shows "\<exists>es. prepares lock es w w' \<and> (if is_ok r then LockTake lock True \<in> set es else True)"
proof -
  have a: "apart lock (NodeOpen lock b)" "apart lock (LockTake lock b)" "apart lock (AttrRead lock)" for b
    by (simp_all add: apart_def)
  show ?thesis
  proof (cases "lk_open lk (w_trace w) lock")
    case (Some e)
    then show ?thesis using assms prepares_push [OF a(1), of False w]
      by (intro exI [of _ "[NodeOpen lock False]"]) (auto simp: lock_exclusive_def)
  next
    case None
    let ?w = "push_event (NodeOpen lock True) w"
    define free where "free = (lk_flock lk (w_trace ?w) lock = None)"
    have two: "prepares lock ([NodeOpen lock True] @ [LockTake lock free]) w (push_event (LockTake lock free) ?w)"
      by (rule prepares_trans [OF prepares_push [OF a(1)] prepares_push [OF a(2)]])
    show ?thesis
    proof (cases free)
      case True
      then show ?thesis using assms two None
        by (intro exI [of _ "[NodeOpen lock True, LockTake lock True]"]) (auto simp: lock_exclusive_def free_def)
    next
      case False
      then have "\<not> is_ok r \<and> w' = push_event (AttrRead lock) (push_event (LockTake lock free) ?w)"
        using assms None by (auto simp: lock_exclusive_def free_def ask_path_def Let_def)
      then show ?thesis using prepares_trans [OF two prepares_push [OF a(3)]] by auto
    qed
  qed
qed

lemma bind_prepares:
  assumes "bind_socket fs path w = (r, w')"
  shows "\<exists>es. prepares lock es w w' \<and> (if is_ok r then SocketBind path True \<in> set es else True)"
proof -
  have a: "apart lock (FileRemove path b)" "apart lock (SocketBind path b)" "apart lock (FileMode path b)" for b
    by (simp_all add: apart_def)
  obtain r1 w1 where d1: "fs_do fs (FileRemove path) w = (r1, w1)" by fastforce
  obtain r2 w2 where d2: "fs_do fs (SocketBind path) w1 = (r2, w2)" by fastforce
  obtain r3 w3 where d3: "fs_do fs (FileMode path) w2 = (r3, w3)" by fastforce
  note p1 = prepares_do [OF d1 a(1)]
  note p2 = prepares_trans [OF p1 prepares_do [OF d2 a(2)]]
  note p3 = prepares_trans [OF p2 prepares_do [OF d3 a(3)]]
  show ?thesis
  proof (cases r2)
    case (Inl e)
    then show ?thesis using assms p1 p2 by (cases r1) (auto simp: bind_socket_def d1 d2 split: if_splits)
  next
    case (Inr u)
    then show ?thesis using assms p1 p3 by (cases r1) (auto simp: bind_socket_def d1 d2 d3 Inr split: if_splits)
  qed
qed

text \<open>C14: One daemon at a time, and nothing before it is the one. A serving process first makes its directories,
  takes the instance lock and binds the socket, and until both are held it has read nothing of a device,
  opened no node but the lock file and sent nothing; when either is refused it ends there, and as root it
  ends before that. Only then does the start run.\<close>

theorem one_daemon_at_a_time:
  "\<exists>es v. prepares (instance_lock (paths_from_env (cl_vars cl))) es w v \<and> (if cl_root cl then v = w else True) \<and>
     ((\<exists>e. serve cl w = Some (Inl e, v)) \<or>
      (\<not> cl_root cl \<and> LockTake (instance_lock (paths_from_env (cl_vars cl))) True \<in> set es \<and>
       SocketBind (pt_socket (paths_from_env (cl_vars cl))) True \<in> set es \<and>
       serve cl w = serve_from cl (paths_from_env (cl_vars cl)) v))"
proof (cases "cl_root cl")
  case True
  then show ?thesis using prepares_refl by (intro exI [of _ "[]"] exI [of _ w]) (simp add: serve_def refuse_root_def)
next
  case False
  let ?paths = "paths_from_env (cl_vars cl)" and ?fs = "en_fs (se_daemon (cl_start cl))"
  obtain x w1 where e: "paths_ensure ?fs ?paths w = (x, w1)" by fastforce
  obtain y w2 where l: "acquire_instance (se_locks (cl_start cl)) ?paths w1 = (y, w2)" by fastforce
  obtain z w3 where b: "bind_socket ?fs (pt_socket ?paths) w2 = (z, w3)" by fastforce
  obtain es1 where p1: "prepares (instance_lock ?paths) es1 w w1" using prepares_ensure e by (metis snd_conv)
  obtain es2 where p2: "prepares (instance_lock ?paths) es2 w1 w2"
    "if is_ok y then LockTake (instance_lock ?paths) True \<in> set es2 else True"
    using lock_prepares [OF l [unfolded acquire_instance_def]] by blast
  obtain es3 where p3: "prepares (instance_lock ?paths) es3 w2 w3"
    "if is_ok z then SocketBind (pt_socket ?paths) True \<in> set es3 else True"
    using bind_prepares [OF b] by blast
  note q2 = prepares_trans [OF p1 p2(1)]
  note q3 = prepares_trans [OF q2 p3(1)]
  note sv = serve_def refuse_root_def e l b Let_def
  consider "\<not> is_ok x" | "is_ok x" "\<not> is_ok y" | "is_ok x" "is_ok y" "\<not> is_ok z" | "is_ok x" "is_ok y" "is_ok z" by blast
  then show ?thesis
  proof cases
    case 1
    then show ?thesis using False p1 by (cases x) (auto simp: sv)
  next
    case 2
    then show ?thesis using False q2 by (cases x; cases y) (auto simp: sv)
  next
    case 3
    then show ?thesis using False q3 by (cases x; cases y; cases z) (auto simp: sv)
  next
    case 4
    then have "serve cl w = serve_from cl ?paths w3" using False by (cases x; cases y; cases z) (simp_all add: sv)
    then show ?thesis using 4 False q3 p2(2) p3(2) by (intro exI [of _ "(es1 @ es2) @ es3"] exI [of _ w3]) simp
  qed
qed

end
