(* ===== verification/Spec2Isabelle.thy ===== *)
theory Spec2Isabelle
  imports Prelude Rust_Str Wire_Enum Float32 Capability Lighting Telemetry Alerts Metric_View
    Display Curve Interpolation Profile Ipc Diagnostics Io Hwmon Usb_Sysfs Cooling_Control Pacing
    Cooling_Executor Hid_Link Rgb_Link Lcd_Link Device_Nodes Error_Text Lighting_Executor
    Display_Executor File_Store Config_Store Gates Probe System_Sensors Sampler Daemon
    Daemon_Requests Daemon_Safety Daemon_Behaviour Ownership Startup Startup_Safety Server
    Server_Safety Client Link Feed Canvas Framebuffer Panel_Text Dial Renderer Daemon_Returns
    Cooling_Editor Keyed Lighting_Editor Display_Editor Pointer Metric_Book Chart Shell Screens
    Shell_Behaviour Shell_Outcomes Traversal Screen_Words Rgb_Probe Lcd_Probe Command_Line
begin

text \<open>
  Kori drives an NZXT Kraken cooler and an NZXT RGB controller on Linux. One privileged daemon owns
  the hardware; a desktop client and command line tools speak to it over a Unix socket. This
  development models the daemon, the libraries it is made of and the state behind the window, from the bytes on the wire up to a
  sequence of client requests and clock ticks, and proves what the daemon promises about them. Paths
  below are under \<open>crates/\<close>.

  \<^bold>\<open>Parts of the program and how they interact.\<close>
  \<^item> \<open>core\<close> holds the types both ends of the socket share, their validation, and the protocol.
  \<^item> \<open>hardware-linux\<close> reads and writes the devices: sysfs attributes for telemetry and the thermal
    path, 64-byte HID reports for lighting and the panel, a bulk endpoint for frames. It decides from
    what a device answered which capabilities are writable.
  \<^item> \<open>lcd-renderer\<close> turns readings and image files into frames of the panel.
  \<^item> \<open>daemon\<close> has one executor for each write path, each the only writer of its device, a configuration
    store, and the state that dispatches requests to them through gates. A server serializes the
    connections and the display ticker over that state.
  \<^item> \<open>app\<close> is the window: one worker owns its connection, polls, and runs the operator's commands; the
    gates of its controls and its editors decide what can be asked for.

  \<^bold>\<open>Theories, in the order of their imports.\<close>
  \<^item> \<open>Prelude\<close>, \<open>Rust_Str\<close>, \<open>Float32\<close>: machine words with saturating and checked operations, UTF-8
    strings as byte lists, and IEEE binary32 with rounding to nearest even, computed on rationals.
  \<^item> \<open>Wire_Enum\<close>, \<open>Capability\<close>: \<open>core/src/lib.rs\<close> and \<open>capability.rs\<close>. Enums with wire keys (a locale,
    interpreted on every such enum), evidenced capabilities, redacted serials.
  \<^item> \<open>Lighting\<close>, \<open>Telemetry\<close>, \<open>Alerts\<close>, \<open>Metric_View\<close>, \<open>Display\<close>, \<open>Curve\<close>, \<open>Interpolation\<close>, \<open>Profile\<close>:
    \<open>core/src/lighting.rs\<close>, \<open>telemetry.rs\<close>, \<open>telemetry/alerts.rs\<close>, \<open>telemetry/view.rs\<close>, \<open>display.rs\<close>,
    \<open>profile.rs\<close> and \<open>profile/curve.rs\<close>. Validation accepts exactly the documented values, edits keep
    curves valid, alerts fire exactly on their streaks, interpolation is the exactly rounded line.
  \<^item> \<open>Ipc\<close>, \<open>Diagnostics\<close>: \<open>core/src/ipc.rs\<close>, \<open>ipc/frame.rs\<close>, \<open>diagnostics.rs\<close>. Bounded framing and its
    round trip; the bounded event log and the redaction of exports.
  \<^item> \<open>Io\<close>: the outside. Every effect is an event appended to the world; what the outside answers is an
    arbitrary function of the events so far, so every theorem about sequences of writes holds for any
    device, any failure and any timing.
  \<^item> \<open>Hwmon\<close>, \<open>Usb_Sysfs\<close>, \<open>Cooling_Control\<close>: \<open>hardware-linux/src/sysfs.rs\<close>, \<open>hwmon.rs\<close>, \<open>usb.rs\<close>,
    \<open>control.rs\<close>. Locating the cooler by evidence, reading it, what a device publishes about itself, and
    every write to the thermal path with its readback.
  \<^item> \<open>Probe\<close>, \<open>System_Sensors\<close>: \<open>probe.rs\<close>, \<open>sensors.rs\<close>, \<open>gpu.rs\<close>. The read-only record of the machine,
    which allows exactly the writes the kernel permits, and the samples of processor, memory and card.
  \<^item> \<open>Hid_Link\<close>, \<open>Rgb_Link\<close>, \<open>Lcd_Link\<close>: \<open>hid.rs\<close>, \<open>rgb.rs\<close>, \<open>lcd.rs\<close> and the transfer loop of \<open>usbfs.rs\<close>.
    The layout of every report sent, the bounded question and answer exchange, the frame transfer.
  \<^item> \<open>Device_Nodes\<close>: opening a HID node and claiming an interface, in \<open>hid.rs\<close>, \<open>usbfs.rs\<close>, \<open>rgb.rs\<close>,
    \<open>lcd.rs\<close>. The relation \<open>asks\<close> bounds what a step that only asks may do.
  \<^item> \<open>Gates\<close>, \<open>Error_Text\<close>: \<open>gates.rs\<close> and the sentences of the typed errors.
  \<^item> \<open>Pacing\<close>, \<open>Cooling_Executor\<close>, \<open>Lighting_Executor\<close>, \<open>Display_Executor\<close>: \<open>daemon/src/cooling.rs\<close>,
    \<open>lighting.rs\<close>, \<open>display.rs\<close>. Write floors (a locale of paced steps shared by two executors),
    deduplication, restoration after a failed write, the clock of an animation.
  \<^item> \<open>File_Store\<close>, \<open>Config_Store\<close>: \<open>daemon/src/config.rs\<close> and \<open>config/document.rs\<close>. A store that is never
    seen half written, refined by the configuration, and what a start replays.
  \<^item> \<open>Daemon\<close>, \<open>Daemon_Requests\<close>: \<open>daemon/src/state.rs\<close>, the state and every handler.
  \<^item> \<open>Daemon_Safety\<close>, \<open>Daemon_Behaviour\<close>, \<open>Daemon_Returns\<close>: what holds over any run of requests and
    ticks. The locales \<open>request_relation\<close> and \<open>daemon_relation\<close> collect what each operation must keep and
    give it for whole runs; they are interpreted for silence, for the unchanged executors and for the
    playing animation.
  \<^item> \<open>Sampler\<close>: \<open>daemon/src/telemetry.rs\<close>. The passes of the collectors in any interleaving, panics
    included, each folded into its own part of the shared state.
  \<^item> \<open>Ownership\<close>, \<open>Startup\<close>, \<open>Startup_Safety\<close>: \<open>daemon/src/ownership.rs\<close>, \<open>paths.rs\<close>, \<open>startup.rs\<close>,
    \<open>core/src/ipc/paths.rs\<close> and \<open>Daemon::start_with\<close>. The locks, the walk for the nodes of a device, the
    assembly of a daemon, and what a start may do before a gate was asked.
  \<^item> \<open>Server\<close>, \<open>Server_Safety\<close>: \<open>daemon/src/server.rs\<close>. Connections, requests and passes of the ticker
    as operations in any order over the one daemon behind the mutex; \<open>Client\<close>: \<open>core/src/client.rs\<close>,
    with the conversation of both ends over the modelled framing.
  \<^item> \<open>Link\<close>, \<open>Feed\<close>: \<open>app/src/link\<close>, \<open>app/src/feed.rs\<close>. What the window knows, which controls it
    enables against what the daemon accepts, and the worker that runs the operator's commands.
  \<^item> \<open>Cooling_Editor\<close>, \<open>Lighting_Editor\<close>, \<open>Display_Editor\<close>: \<open>app/src/cooling.rs\<close>, \<open>lighting.rs\<close>,
    \<open>display/mod.rs\<close>, \<open>display/film.rs\<close>. The pending edits of the three screens: no sequence of gestures draws
    what the daemon would refuse, and what is adopted from the daemon is what the editor holds. The
    picture of the panel is compiled with the daemon's own renderer.
  \<^item> \<open>Keyed\<close>, \<open>Pointer\<close>: \<open>shell/screen/keyed.rs\<close> (a locale of keyed books, interpreted on the vector) and
    what a pointer position means, of \<open>components/control.rs\<close> and \<open>components/curve.rs\<close>.
  \<^item> \<open>Metric_Book\<close>, \<open>Chart\<close>: \<open>app/src/metrics.rs\<close>, \<open>components/chart.rs\<close>. The series of every metric and
    everything a chart computes of them, down to the cells and paths handed to the window.
  \<^item> \<open>Shell\<close>, \<open>Screens\<close>: \<open>app/src/shell.rs\<close>, \<open>shell/screen\<close>. The state behind the window, the
    schedule of its writes, and every handler that changes it, as one step of any event.
  \<^item> \<open>Shell_Behaviour\<close>, \<open>Shell_Outcomes\<close>: what holds over any events of the window: everything it sends passes
    the daemon's validation, a flush sends exactly what settled, at most one cooling write is in flight, and
    the two ways this bookkeeping can go wrong, a lost outcome and a revert that writes.
  \<^item> \<open>Traversal\<close>, \<open>Screen_Words\<close>: \<open>shell/screen/tab.rs\<close>, the captions and lists of \<open>shell/screen\<close>,
    \<open>app/src/startup.rs\<close>. In any state the stops of the keyboard are strictly increasing in drawing order;
    an offered option takes effect when it is chosen; a failed outcome is told on exactly one screen.
  \<^item> \<open>Rgb_Probe\<close>, \<open>Lcd_Probe\<close>, \<open>Command_Line\<close>: \<open>daemon/src/probe.rs\<close>, \<open>rgb_probe.rs\<close>, \<open>lcd_probe.rs\<close>,
    \<open>main.rs\<close>. What a write probe sends, after which question, what its record may claim; the lock and the
    typed phrase around it (the locale \<open>consented_run\<close>, interpreted on both probes); the order in which a
    daemon comes up.
  \<^item> \<open>Canvas\<close>, \<open>Framebuffer\<close>, \<open>Panel_Text\<close>, \<open>Dial\<close>, \<open>Renderer\<close>: \<open>lcd-renderer/src\<close>. The rasterizer, the
    quarter turn and the two byte orders of a frame, the dials, the compilation of image files.

  \<^bold>\<open>Correspondence.\<close> A struct is a record, an enum a datatype with the source's variants, a \<open>u8\<close> an
  8-bit word and so on, an \<open>f32\<close> a value of \<open>Float32\<close>, a \<open>Result\<close> a sum with the error on the left.
  A function that touches the outside takes the environment and the world, and returns its result with
  the world after it. A \<open>&mut self\<close> is returned with the result. Definitions bear the names of the
  source, with a suffix or a prefix where HOL has the name or two modules share it.

  \<^bold>\<open>Parameters.\<close> What is not under \<open>src/\<close> is an argument: the environments of sysfs, access,
  link, HID, bulk, file, lock, NVML and clock calls; the TOML and JSON codecs (theorems that need them
  assume that reading inverts writing); what a socket or the channel of the window delivers, and when;
  \<open>sin\<close>, \<open>cos\<close> and \<open>atan2\<close>; the glyphs of the embedded face; the image decoders and the PNG encoder; the hit test of the toolkit.

  \<^bold>\<open>Loops and bounds.\<close> Recursion is structural or has a proved measure, except the walk of an animation
  over its delays, which is a \<open>partial_function (option)\<close>, since it has no end on delays of zero: it is
  proved to return whenever one delay is positive, and, as the renderer never compiles a delay below
  80 ms, every run of the daemon on that renderer returns. The walk for HID nodes is one too: it ends
  where directories are bounded in depth, by a measure on the stack as a multiset. The count of missed
  ticks is the third: it ends on every positive interval. The exchange with a device reads at
  most twelve reports, so it needs no fuel.

  \<^bold>\<open>Not modelled.\<close> The system calls themselves (the ioctls, sockets, threads, signals behind the
  parameters above), the PNG encoder of the preview (a parameter), the GPUI widgets, layout, colors and
  focus of the window (the toolkit decides when a handler runs and what a press hits), and the JSON and TOML codecs (parameters).
\<close>

end
